(* ===== verification/Prelude.thy ===== *)
theory Prelude
  imports Main "HOL-Library.Sublist"
begin

text \<open>
  The shared vocabulary of the development: Go strings and the functions of the
  Go standard library the broker calls on them, results with errors as values,
  the gRPC status codes the handlers answer with, and generic lemmas.

  A Go string is a byte sequence; here it is a \<^typ>\<open>string\<close>, whose characters are
  bytes.  The case and white space functions of package strings are modelled on
  the ASCII range, which is the range of every identifier, host name and
  configuration word the broker compares.
\<close>

named_theorems sev_simps "severity tables"
named_theorems store_simps "frame facts of the store operations"
named_theorems step_intros "introduction rules of the step relations"

section \<open>Results\<close>

type_synonym ('e, 'a) result = "'e + 'a"

definition bindE :: "('e, 'a) result \<Rightarrow> ('a \<Rightarrow> ('e, 'b) result) \<Rightarrow> ('e, 'b) result" where
  "bindE r f = (case r of Inl e \<Rightarrow> Inl e | Inr a \<Rightarrow> f a)"

lemma bindE_simps [simp]:
  "bindE (Inl e) f = Inl e"
  "bindE (Inr a) f = f a"
  by (simp_all add: bindE_def)

lemma bindE_eq_Inr: "bindE r f = Inr b \<longleftrightarrow> (\<exists>a. r = Inr a \<and> f a = Inr b)"
  by (cases r) simp_all

definition is_ok :: "('e, 'a) result \<Rightarrow> bool" where
  "is_ok r = (case r of Inl _ \<Rightarrow> False | Inr _ \<Rightarrow> True)"

lemma is_ok_simps [simp]: "is_ok (Inr a)" "\<not> is_ok (Inl e)"
  by (simp_all add: is_ok_def)

lemma is_okE: "is_ok r \<Longrightarrow> (\<And>a. r = Inr a \<Longrightarrow> P) \<Longrightarrow> P"
  by (cases r) auto

text \<open>The status codes of google.golang.org/grpc/codes that the broker returns.\<close>

datatype grpc_code =
    OK | InvalidArgument | NotFound | AlreadyExists | PermissionDenied
  | ResourceExhausted | FailedPrecondition | Aborted | Unimplemented
  | Internal | Unavailable | Unauthenticated | DeadlineExceeded

text \<open>
  A gRPC status error: its code and the constant text of its message (the parts
  a format verb would insert are left out).
\<close>

datatype rpc_error = Status (code: grpc_code) (message: string)

section \<open>Go strings\<close>

definition byte_of :: "char \<Rightarrow> nat" where
  "byte_of c = of_char c"

definition is_space :: "char \<Rightarrow> bool" where
  "is_space c = (byte_of c = 32 \<or> (9 \<le> byte_of c \<and> byte_of c \<le> 13))"

definition TrimLeft :: "(char \<Rightarrow> bool) \<Rightarrow> string \<Rightarrow> string" where
  "TrimLeft p s = dropWhile p s"

definition TrimRight :: "(char \<Rightarrow> bool) \<Rightarrow> string \<Rightarrow> string" where
  "TrimRight p s = rev (dropWhile p (rev s))"

definition TrimFunc :: "(char \<Rightarrow> bool) \<Rightarrow> string \<Rightarrow> string" where
  "TrimFunc p s = TrimRight p (TrimLeft p s)"

definition TrimSpace :: "string \<Rightarrow> string" where
  "TrimSpace s = TrimFunc is_space s"

definition Trim :: "string \<Rightarrow> string \<Rightarrow> string" where
  "Trim s cutset = TrimFunc (\<lambda>c. c \<in> set cutset) s"

definition lower_char :: "char \<Rightarrow> char" where
  "lower_char c = (if 65 \<le> byte_of c \<and> byte_of c \<le> 90 then char_of (byte_of c + 32) else c)"

definition ToLower :: "string \<Rightarrow> string" where
  "ToLower s = map lower_char s"

definition EqualFold :: "string \<Rightarrow> string \<Rightarrow> bool" where
  "EqualFold s t = (ToLower s = ToLower t)"

definition HasPrefix :: "string \<Rightarrow> string \<Rightarrow> bool" where
  "HasPrefix s p = (take (length p) s = p)"

definition HasSuffix :: "string \<Rightarrow> string \<Rightarrow> bool" where
  "HasSuffix s p = (length p \<le> length s \<and> drop (length s - length p) s = p)"

definition TrimPrefix :: "string \<Rightarrow> string \<Rightarrow> string" where
  "TrimPrefix s p = (if HasPrefix s p then drop (length p) s else s)"

definition TrimSuffix :: "string \<Rightarrow> string \<Rightarrow> string" where
  "TrimSuffix s p = (if HasSuffix s p then take (length s - length p) s else s)"

definition CutPrefix :: "string \<Rightarrow> string \<Rightarrow> string option" where
  "CutPrefix s p = (if HasPrefix s p then Some (drop (length p) s) else None)"

definition CutSuffix :: "string \<Rightarrow> string \<Rightarrow> string option" where
  "CutSuffix s p = (if HasSuffix s p then Some (take (length s - length p) s) else None)"

text \<open>strings.IndexByte: the position of the first occurrence, if any.\<close>

fun IndexByte :: "string \<Rightarrow> char \<Rightarrow> nat option" where
  "IndexByte [] c = None"
| "IndexByte (x # xs) c = (if x = c then Some 0 else map_option Suc (IndexByte xs c))"

text \<open>strings.Split with a one byte separator: never empty.\<close>

fun Split :: "string \<Rightarrow> char \<Rightarrow> string list" where
  "Split [] c = [[]]"
| "Split (x # xs) c =
     (if x = c then [] # Split xs c
      else (case Split xs c of [] \<Rightarrow> [[x]] | w # ws \<Rightarrow> (x # w) # ws))"

fun Join :: "string list \<Rightarrow> string \<Rightarrow> string" where
  "Join [] sep = []"
| "Join [w] sep = w"
| "Join (w # v # ws) sep = w @ sep @ Join (v # ws) sep"

definition Contains :: "string \<Rightarrow> string \<Rightarrow> bool" where
  "Contains s p = sublist p s"

section \<open>Decimal integers\<close>

definition digit_char :: "nat \<Rightarrow> char" where
  "digit_char n = char_of (48 + n)"

fun nat_digits :: "nat \<Rightarrow> string" where
  "nat_digits n = (if n < 10 then [digit_char n] else nat_digits (n div 10) @ [digit_char (n mod 10)])"

declare nat_digits.simps [simp del]

text \<open>strconv.Itoa, and the rendering of the format verb %d.\<close>

definition Itoa :: "int \<Rightarrow> string" where
  "Itoa i = (if i < 0 then CHR ''-'' # nat_digits (nat (- i)) else nat_digits (nat i))"

definition is_digit :: "char \<Rightarrow> bool" where
  "is_digit c = (48 \<le> byte_of c \<and> byte_of c \<le> 57)"

definition digits_val :: "string \<Rightarrow> nat" where
  "digits_val s = foldl (\<lambda>n c. n * 10 + (byte_of c - 48)) 0 s"

text \<open>
  strconv.Atoi and strconv.ParseInt in base 10: an optional sign, at least one
  digit, nothing else, and a value of 64 bits.
\<close>

definition Atoi :: "string \<Rightarrow> int option" where
  "Atoi s =
     (let neg = (HasPrefix s ''-'');
          body = (if HasPrefix s ''-'' \<or> HasPrefix s ''+'' then drop 1 s else s);
          v = (if neg then - int (digits_val body) else int (digits_val body))
      in if body = [] \<or> \<not> list_all is_digit body then None
         else if - (2 ^ 63) \<le> v \<and> v < 2 ^ 63 then Some v else None)"

section \<open>Lemmas on strings\<close>

lemma byte_of_char_of: "n < 256 \<Longrightarrow> byte_of (char_of n) = n"
  by (simp add: byte_of_def)

lemma byte_of_lt [simp]: "byte_of c < 256"
  by (simp add: byte_of_def)

lemma byte_of_inject: "byte_of c = byte_of d \<longleftrightarrow> c = d"
  by (simp add: byte_of_def)

lemma lower_char_idem [simp]: "lower_char (lower_char c) = lower_char c"
  by (simp add: lower_char_def byte_of_char_of)

lemma ToLower_idem [simp]: "ToLower (ToLower s) = ToLower s"
  by (simp add: ToLower_def)

lemma ToLower_Nil [simp]: "ToLower [] = []" "ToLower s = [] \<longleftrightarrow> s = []"
  by (simp_all add: ToLower_def)

lemma length_ToLower [simp]: "length (ToLower s) = length s"
  by (simp add: ToLower_def)

lemma EqualFold_refl [simp]: "EqualFold s s"
  by (simp add: EqualFold_def)

lemma EqualFold_sym: "EqualFold s t \<longleftrightarrow> EqualFold t s"
  by (auto simp: EqualFold_def)

lemma HasPrefix_iff_prefix: "HasPrefix s p \<longleftrightarrow> prefix p s"
  by (metis HasPrefix_def append_eq_conv_conj append_take_drop_id prefix_def)

lemma HasPrefix_append [simp]: "HasPrefix (p @ s) p"
  by (simp add: HasPrefix_def)

lemma CutPrefix_append [simp]: "CutPrefix (p @ s) p = Some s"
  by (simp add: CutPrefix_def)

lemma CutPrefix_eq_Some: "CutPrefix s p = Some r \<longleftrightarrow> s = p @ r"
  by (auto simp: CutPrefix_def HasPrefix_def) (metis append_take_drop_id)

lemma dropWhile_idem' [simp]: "dropWhile p (dropWhile p xs) = dropWhile p xs"
  by (induction xs) auto

lemma dropWhile_hd: "dropWhile p xs = y # ys \<Longrightarrow> \<not> p y"
  by (induction xs) (auto split: if_splits)

lemma TrimFunc_edges:
  assumes "TrimFunc p s \<noteq> []"
  shows "\<not> p (hd (TrimFunc p s))" "\<not> p (last (TrimFunc p s))"
proof -
  let ?t = "dropWhile p s"
  have eq: "TrimFunc p s = rev (dropWhile p (rev ?t))"
    by (simp add: TrimFunc_def TrimLeft_def TrimRight_def)
  have ne: "dropWhile p (rev ?t) \<noteq> []" using assms eq by simp
  show "\<not> p (last (TrimFunc p s))"
    using ne dropWhile_hd [of p "rev ?t"] by (cases "dropWhile p (rev ?t)") (simp_all add: eq last_rev)
  have "suffix (dropWhile p (rev ?t)) (rev ?t)" by (rule suffix_dropWhile)
  then have "prefix (TrimFunc p s) ?t"
    by (simp add: eq suffix_to_prefix)
  then obtain zs where z: "?t = TrimFunc p s @ zs" by (auto simp: prefix_def)
  then obtain c cs where c: "TrimFunc p s = c # cs" using assms by (cases "TrimFunc p s") auto
  then show "\<not> p (hd (TrimFunc p s))" using z dropWhile_hd [of p s c "cs @ zs"] by simp
qed

lemma dropWhile_id: "xs = [] \<or> \<not> p (hd xs) \<Longrightarrow> dropWhile p xs = xs"
  by (cases xs) auto

lemma TrimFunc_id:
  assumes "s = [] \<or> (\<not> p (hd s) \<and> \<not> p (last s))"
  shows "TrimFunc p s = s"
  using assms by (auto simp: TrimFunc_def TrimLeft_def TrimRight_def dropWhile_id hd_rev)

lemma TrimFunc_idem [simp]: "TrimFunc p (TrimFunc p s) = TrimFunc p s"
  using TrimFunc_edges [of p s] by (intro TrimFunc_id) auto

lemma TrimSpace_idem [simp]: "TrimSpace (TrimSpace s) = TrimSpace s"
  by (simp add: TrimSpace_def)

lemma set_TrimFunc: "set (TrimFunc p s) \<subseteq> set s"
  by (auto simp: TrimFunc_def TrimLeft_def TrimRight_def dest!: set_dropWhileD)

lemma IndexByte_None: "IndexByte s c = None \<longleftrightarrow> c \<notin> set s"
  by (induction s) auto

lemma IndexByte_Some:
  "IndexByte s c = Some i \<Longrightarrow> s = take i s @ c # drop (Suc i) s \<and> c \<notin> set (take i s) \<and> i < length s"
  by (induction s arbitrary: i) (auto split: if_splits)

lemma IndexByte_append: "c \<notin> set a \<Longrightarrow> IndexByte (a @ c # b) c = Some (length a)"
  by (induction a) auto

lemma Split_neq_Nil [simp]: "Split s c \<noteq> []"
  by (induction s) (auto split: list.splits)

lemma Split_no_sep: "c \<notin> set s \<Longrightarrow> Split s c = [s]"
  by (induction s) auto

lemma Split_append: "c \<notin> set a \<Longrightarrow> Split (a @ c # b) c = a # Split b c"
  by (induction a) auto

lemma Split_parts: "w \<in> set (Split s c) \<Longrightarrow> c \<notin> set w"
  by (induction s arbitrary: w) (auto split: if_splits list.splits)

lemma Join_Split: "Join (Split s c) [c] = s"
proof (induction s)
  case (Cons x xs)
  obtain w ws where w: "Split xs c = w # ws" by (cases "Split xs c") auto
  with Cons show ?case by (cases ws) auto
qed simp

lemma Split_Join: "ws \<noteq> [] \<Longrightarrow> \<forall>w \<in> set ws. c \<notin> set w \<Longrightarrow> Split (Join ws [c]) c = ws"
  by (induction ws "[c]" rule: Join.induct) (auto simp: Split_no_sep Split_append)

section \<open>Lemmas on decimal integers\<close>

lemma byte_of_digit: "n < 10 \<Longrightarrow> byte_of (digit_char n) = 48 + n"
  by (simp add: digit_char_def byte_of_char_of)

lemma digits_val_snoc: "digits_val (s @ [c]) = digits_val s * 10 + (byte_of c - 48)"
  by (simp add: digits_val_def)

lemma digits_val_nat_digits [simp]: "digits_val (nat_digits n) = n"
proof (induction n rule: nat_digits.induct)
  case (1 n)
  then show ?case
    by (subst nat_digits.simps)
      (auto simp: digits_val_snoc byte_of_digit digits_val_def [of "[_]"])
qed

lemma nat_digits_is_digit: "list_all is_digit (nat_digits n)"
proof (induction n rule: nat_digits.induct)
  case (1 n)
  then show ?case
    by (subst nat_digits.simps) (auto simp: is_digit_def [of "digit_char _"] byte_of_digit)
qed

lemma nat_digits_neq_Nil [simp]: "nat_digits n \<noteq> []"
  by (subst nat_digits.simps) simp

lemma set_nat_digits: "c \<in> set (nat_digits n) \<Longrightarrow> is_digit c"
  using nat_digits_is_digit [of n] by (simp add: list_all_iff)

lemma is_digit_neq:
  "\<not> is_digit (CHR ''-'')" "\<not> is_digit (CHR ''+'')" "\<not> is_digit (CHR ''|'')" "\<not> is_digit (CHR '','')"
  by (simp_all add: is_digit_def byte_of_def)

lemma nat_digits_no_sign:
  "\<not> HasPrefix (nat_digits n) ''-''" "\<not> HasPrefix (nat_digits n) ''+''"
  using nat_digits_is_digit [of n] is_digit_neq
  by (cases "nat_digits n"; auto simp: HasPrefix_def)+

lemma set_Itoa: "c \<in> set (Itoa i) \<Longrightarrow> is_digit c \<or> c = CHR ''-''"
  by (auto simp: Itoa_def set_nat_digits split: if_splits)

lemma Atoi_Itoa:
  assumes "- (2 ^ 63) \<le> i" "i < 2 ^ 63"
  shows "Atoi (Itoa i) = Some i"
proof (cases "i < 0")
  case True
  then show ?thesis using assms
    by (simp add: Atoi_def Itoa_def HasPrefix_def nat_digits_is_digit)
next
  case False
  then show ?thesis using assms
    by (simp add: Atoi_def Itoa_def nat_digits_no_sign nat_digits_is_digit)
qed

lemma Itoa_neq_Nil [simp]: "Itoa i \<noteq> []"
  by (simp add: Itoa_def)

section \<open>Generic lemmas\<close>

lemma foldl_invariant:
  assumes "P a" "\<And>a x. x \<in> set xs \<Longrightarrow> P a \<Longrightarrow> P (f a x)"
  shows "P (foldl f a xs)"
  using assms by (induction xs arbitrary: a) auto

lemma foldl_mono_measure:
  fixes m :: "'a \<Rightarrow> 'b::preorder"
  assumes "\<And>a x. x \<in> set xs \<Longrightarrow> m a \<le> m (f a x)"
  shows "m a \<le> m (foldl f a xs)"
  using assms
proof (induction xs arbitrary: a)
  case (Cons x xs)
  have "m a \<le> m (f a x)" using Cons.prems by simp
  also have "\<dots> \<le> m (foldl f (f a x) xs)" using Cons by simp
  finally show ?case by simp
qed simp

section \<open>Time-bounded caches\<close>

text \<open>
  The contract of the read-through caches of the broker (settings, network rules, group
  memberships): an entry answers for its key only, and for \<open>ttl\<close> after it was
  filled.  What a lookup answers is then what the source said less than \<open>ttl\<close> ago:
  \<open>hist t k v\<close> says that the source answered \<open>v\<close> at time \<open>t\<close>.
\<close>

locale ttl_cache =
  fixes lookup :: "int \<Rightarrow> 'k \<Rightarrow> 'c \<Rightarrow> 'v option"
    and fill :: "int \<Rightarrow> 'k \<Rightarrow> 'v \<Rightarrow> 'c \<Rightarrow> 'c"
    and ttl :: int
  assumes lookup_fill_same: "lookup now k (fill t k v c) = (if now < t + ttl then Some v else None)"
    and lookup_fill_other: "k' \<noteq> k \<Longrightarrow> lookup now k' (fill t k v c) = lookup now k' c"
begin

definition fresh :: "(int \<Rightarrow> 'k \<Rightarrow> 'v \<Rightarrow> bool) \<Rightarrow> 'c \<Rightarrow> bool" where
  "fresh hist c = (\<forall>now k v. lookup now k c = Some v \<longrightarrow> (\<exists>t. now < t + ttl \<and> hist t k v))"

lemma fresh_empty: "(\<And>now k. lookup now k c = None) \<Longrightarrow> fresh hist c"
  by (simp add: fresh_def)

lemma fresh_fill: "fresh hist c \<Longrightarrow> hist t k v \<Longrightarrow> fresh hist (fill t k v c)"
  unfolding fresh_def by (metis lookup_fill_same lookup_fill_other option.distinct(1) option.inject)

lemma fresh_lookup: "fresh hist c \<Longrightarrow> lookup now k c = Some v \<Longrightarrow> \<exists>t. now < t + ttl \<and> hist t k v"
  by (simp add: fresh_def)

end

end
