(* ===== verification/Json.thy ===== *)
theory Json
  imports Prelude "HOL-Library.List_Lexorder" "HOL-Library.Char_ord"
begin

text \<open>
  JSON documents as the broker hashes them: the values a protobuf Struct decodes to
  (map[string]any) and the encoder of Go's encoding/json, with its string escapes and its
  sorted map keys.  A number is kept as the text the encoder prints for it (the shortest
  decimal form, which differs for different numbers); strings are valid UTF-8, as protobuf
  requires.  The result of the theory is that the encoding loses nothing but the order of
  the map keys.
\<close>

section \<open>Documents\<close>

datatype json = JNull | JBool bool | JNum string | JStr string | JArr "json list" | JObj "(string \<times> json) list"

definition num_char :: "char \<Rightarrow> bool" where
  "num_char c = (is_digit c \<or> c \<in> set ''+-.e'')"

fun wf_json :: "json \<Rightarrow> bool" where
  "wf_json (JNum t) = (t \<noteq> [] \<and> list_all num_char t)"
| "wf_json (JArr xs) = list_all wf_json xs"
| "wf_json (JObj kvs) = (distinct (map fst kvs) \<and> list_all (\<lambda>kv. wf_json (snd kv)) kvs)"
| "wf_json _ = True"

section \<open>The encoder\<close>

definition hex_digit :: "nat \<Rightarrow> char" where
  "hex_digit n = (if n < 10 then char_of (48 + n) else char_of (87 + n))"

definition hex_val :: "char \<Rightarrow> nat" where
  "hex_val c = (if byte_of c < 58 then byte_of c - 48 else byte_of c - 87)"

text \<open>The short escapes, and the bytes written as \<open>u00XX\<close>.\<close>

definition short_escape :: "char \<Rightarrow> char option" where
  "short_escape c = map_of [(CHR 0x22, CHR 0x22), (CHR 0x5C, CHR 0x5C), (CHR 0x08, CHR ''b''),
     (CHR 0x0C, CHR ''f''), (CHR 0x0A, CHR ''n''), (CHR 0x0D, CHR ''r''), (CHR 0x09, CHR ''t'')] c"

definition hex_escaped :: "bool \<Rightarrow> char \<Rightarrow> bool" where
  "hex_escaped escapeHTML c = (byte_of c < 32 \<or> (escapeHTML \<and> c \<in> set ''<>&''))"

definition escape_char :: "bool \<Rightarrow> char \<Rightarrow> string" where
  "escape_char escapeHTML c =
     (case short_escape c of
        Some e \<Rightarrow> [CHR 0x5C, e]
      | None \<Rightarrow> if hex_escaped escapeHTML c
                then [CHR 0x5C, CHR ''u'', CHR ''0'', CHR ''0'', hex_digit (byte_of c div 16), hex_digit (byte_of c mod 16)]
                else [c])"

text \<open>The line separators U+2028 and U+2029 (three bytes each) are always escaped.\<close>

fun line_sep :: "string \<Rightarrow> (char \<times> string) option" where
  "line_sep (a # b # c # s) =
     (if a = CHR 0xE2 \<and> b = CHR 0x80 \<and> c = CHR 0xA8 then Some (CHR ''8'', s)
      else if a = CHR 0xE2 \<and> b = CHR 0x80 \<and> c = CHR 0xA9 then Some (CHR ''9'', s)
      else None)"
| "line_sep _ = None"

lemma line_sep_length: "line_sep s = Some (d, r) \<Longrightarrow> length r < length s"
  by (cases s rule: line_sep.cases) (auto split: if_splits)

function escape :: "bool \<Rightarrow> string \<Rightarrow> string" where
  "escape html s =
     (case line_sep s of
        Some (d, r) \<Rightarrow> [CHR 0x5C, CHR ''u'', CHR ''2'', CHR ''0'', CHR ''2'', d] @ escape html r
      | None \<Rightarrow> (case s of [] \<Rightarrow> [] | c # r \<Rightarrow> escape_char html c @ escape html r))"
  by pat_completeness auto
termination by (relation "measure (\<lambda>(_, s). length s)") (auto dest: line_sep_length)

declare escape.simps [simp del]

definition json_quote :: "bool \<Rightarrow> string \<Rightarrow> string" where
  "json_quote html s = CHR 0x22 # escape html s @ [CHR 0x22]"

text \<open>The encoder proper, on documents whose keys are in order.\<close>

fun json_print :: "bool \<Rightarrow> json \<Rightarrow> string" where
  "json_print html JNull = ''null''"
| "json_print html (JBool b) = (if b then ''true'' else ''false'')"
| "json_print html (JNum t) = t"
| "json_print html (JStr s) = json_quote html s"
| "json_print html (JArr xs) = CHR ''['' # Join (map (json_print html) xs) '','' @ '']''"
| "json_print html (JObj kvs) = CHR ''{'' # Join (map (\<lambda>kv. json_quote html (fst kv) @ '':'' @ json_print html (snd kv)) kvs) '','' @ ''}''"

text \<open>Map keys are visited in byte order.\<close>

fun sort_keys :: "json \<Rightarrow> json" where
  "sort_keys (JArr xs) = JArr (map sort_keys xs)"
| "sort_keys (JObj kvs) = JObj (sort_key fst (map (\<lambda>kv. (fst kv, sort_keys (snd kv))) kvs))"
| "sort_keys j = j"

definition json_encode :: "bool \<Rightarrow> json \<Rightarrow> string" where
  "json_encode html j = json_print html (sort_keys j)"

text \<open>json.Marshal escapes HTML characters.\<close>

definition json_Marshal :: "json \<Rightarrow> string" where
  "json_Marshal j = json_encode True j"

section \<open>The string encoding is uniquely readable\<close>

text \<open>A reader for the escapes, up to the closing quote.\<close>

definition short_unescape :: "char \<Rightarrow> char" where
  "short_unescape e = (case map_of [(CHR ''b'', CHR 0x08), (CHR ''f'', CHR 0x0C), (CHR ''n'', CHR 0x0A),
     (CHR ''r'', CHR 0x0D), (CHR ''t'', CHR 0x09)] e of Some c \<Rightarrow> c | None \<Rightarrow> e)"

function unescape :: "string \<Rightarrow> (string \<times> string) option" where
  "unescape s =
     (case s of
        [] \<Rightarrow> None
      | c # r \<Rightarrow>
          if c = CHR 0x22 then Some ([], r)
          else if c \<noteq> CHR 0x5C then map_option (\<lambda>(x, y). (c # x, y)) (unescape r)
          else if take 4 r = ''u202''
          then (case drop 4 r of
                  [] \<Rightarrow> None
                | d # r' \<Rightarrow> map_option (\<lambda>(x, y). ([CHR 0xE2, CHR 0x80, if d = CHR ''8'' then CHR 0xA8 else CHR 0xA9] @ x, y)) (unescape r'))
          else if take 3 r = ''u00''
          then (case drop 3 r of
                  h # l # r' \<Rightarrow> map_option (\<lambda>(x, y). (char_of (hex_val h * 16 + hex_val l) # x, y)) (unescape r')
                | _ \<Rightarrow> None)
          else (case r of
                  [] \<Rightarrow> None
                | e # r' \<Rightarrow> map_option (\<lambda>(x, y). (short_unescape e # x, y)) (unescape r')))"
  by pat_completeness auto
termination
proof (relation "measure length", goal_cases)
  case (3 s c r d r')
  then have "length r - 4 = Suc (length r')" by (metis length_drop length_Cons)
  then show ?case using 3 by simp
next
  case (4 s c r h r' l r'')
  then have "length r - 3 = Suc (Suc (length r''))" by (metis length_drop length_Cons)
  then show ?case using 4 by simp
qed auto

declare unescape.simps [simp del]

lemma hex_roundtrip:
  assumes "n < 16"
  shows "hex_val (hex_digit n) = n"
  using assms by (auto simp: hex_val_def hex_digit_def byte_of_char_of)

lemma unescape_plain:
  "c \<noteq> CHR 0x22 \<Longrightarrow> c \<noteq> CHR 0x5C \<Longrightarrow> unescape (c # r) = map_option (\<lambda>(x, y). (c # x, y)) (unescape r)"
  by (subst unescape.simps) simp

lemma unescape_short:
  assumes "short_escape c = Some e"
  shows "unescape (CHR 0x5C # e # r) = map_option (\<lambda>(x, y). (c # x, y)) (unescape r)"
  using assms by (subst unescape.simps) (auto simp: short_escape_def short_unescape_def split: if_splits)

lemma unescape_hex:
  "unescape (CHR 0x5C # CHR ''u'' # CHR ''0'' # CHR ''0'' # hex_digit (byte_of c div 16) # hex_digit (byte_of c mod 16) # r)
     = map_option (\<lambda>(x, y). (c # x, y)) (unescape r)"
proof -
  have "byte_of c div 16 < 16" using byte_of_lt [of c] by linarith
  then have "char_of (hex_val (hex_digit (byte_of c div 16)) * 16 + hex_val (hex_digit (byte_of c mod 16))) = c"
    by (simp add: hex_roundtrip byte_of_def)
  then show ?thesis by (subst unescape.simps) simp
qed

lemma unescape_sep:
  "unescape (CHR 0x5C # CHR ''u'' # CHR ''2'' # CHR ''0'' # CHR ''2'' # d # r)
     = map_option (\<lambda>(x, y). ([CHR 0xE2, CHR 0x80, if d = CHR ''8'' then CHR 0xA8 else CHR 0xA9] @ x, y)) (unescape r)"
  by (subst unescape.simps) simp

lemma unescape_char: "unescape (escape_char html c @ r) = map_option (\<lambda>(x, y). (c # x, y)) (unescape r)"
proof (cases "short_escape c")
  case None
  then have "c \<noteq> CHR 0x22" "c \<noteq> CHR 0x5C" by (auto simp: short_escape_def)
  with None show ?thesis by (simp add: escape_char_def unescape_hex unescape_plain)
qed (simp add: escape_char_def unescape_short)

lemma line_sep_SomeD:
  "line_sep s = Some (d, r) \<Longrightarrow> s = [CHR 0xE2, CHR 0x80, if d = CHR ''8'' then CHR 0xA8 else CHR 0xA9] @ r"
  by (cases s rule: line_sep.cases) (auto split: if_splits)

lemma unescape_escape: "unescape (escape html s @ CHR 0x22 # rest) = Some (s, rest)"
proof (induction html s rule: escape.induct)
  case (1 html s)
  show ?case
  proof (cases "line_sep s")
    case None
    show ?thesis
    proof (cases s)
      case Nil
      then show ?thesis by (subst escape.simps, subst unescape.simps) simp
    next
      case (Cons c r)
      then show ?thesis using 1(1) [OF None Cons] None by (subst escape.simps) (simp add: unescape_char)
    qed
  next
    case (Some p)
    then obtain d r where p: "line_sep s = Some (d, r)" by (cases p) auto
    then show ?thesis using 1(2) [OF p refl] line_sep_SomeD [OF p]
      by (subst escape.simps) (simp add: unescape_sep)
  qed
qed

lemma quote_inject:
  assumes "json_quote html s @ x = json_quote html t @ y"
  shows "s = t \<and> x = y"
proof -
  have "escape html s @ CHR 0x22 # x = escape html t @ CHR 0x22 # y" using assms by (simp add: json_quote_def)
  then have "Some (s, x) = Some (t, y)" by (metis unescape_escape)
  then show ?thesis by simp
qed

section \<open>The encoding is injective on documents with ordered keys\<close>

text \<open>What may follow a value: nothing that could continue a number.\<close>

definition stops :: "string \<Rightarrow> bool" where
  "stops x = (x = [] \<or> \<not> num_char (hd x))"

lemma num_inject:
  assumes "list_all num_char s" "list_all num_char t" "stops x" "stops y" "s @ x = t @ y"
  shows "s = t \<and> x = y"
proof -
  have "takeWhile num_char (s @ x) = s" "takeWhile num_char (t @ y) = t"
    using assms(1-4) by (cases x; cases y; auto simp: stops_def list_all_iff)+
  then show ?thesis using assms(5) by simp
qed

lemma Join_Cons: "Join (w # ws) sep = w @ (if ws = [] then [] else sep @ Join ws sep)"
  by (cases ws) simp_all

text \<open>Separated lists with a closing bracket, over any uniquely readable item.\<close>

lemma Join_inject:
  assumes "\<And>a b x y. a \<in> set xs \<Longrightarrow> b \<in> set ys \<Longrightarrow> stops x \<Longrightarrow> stops y \<Longrightarrow> f a @ x = f b @ y \<Longrightarrow> a = b \<and> x = y"
    and "\<And>a. a \<in> set xs \<union> set ys \<Longrightarrow> f a \<noteq> [] \<and> hd (f a) \<noteq> z"
    and "z \<noteq> CHR '',''" "\<not> num_char z"
    and "Join (map f xs) '','' @ z # x = Join (map f ys) '','' @ z # y"
  shows "xs = ys \<and> x = y"
  using assms(1,2,5)
proof (induction xs arbitrary: ys)
  case Nil
  show ?case
  proof (cases ys)
    case (Cons b bs)
    then have "f b \<noteq> []" "hd (f b) \<noteq> z" using Nil.prems(2) by auto
    then show ?thesis using Nil.prems(3) Cons by (cases "f b") (auto simp: Join_Cons)
  qed (use Nil in simp)
next
  case (Cons a as)
  then have a: "f a \<noteq> []" "hd (f a) \<noteq> z" by auto
  show ?case
  proof (cases ys)
    case Nil
    then show ?thesis using Cons.prems(3) a by (cases "f a") (auto simp: Join_Cons)
  next
    case (Cons b bs)
    let ?tail = "\<lambda>l w. (if l = [] then [] else '','' @ Join (map f l) '','') @ z # w"
    have st: "stops (?tail l w)" for l w
      using assms(4) by (auto simp: stops_def num_char_def is_digit_def byte_of_def)
    have "f a @ ?tail as x = f b @ ?tail bs y" using Cons.prems(3) Cons by (simp add: Join_Cons)
    then have ab: "a = b" "?tail as x = ?tail bs y"
      using Cons.prems(1) [of a b "?tail as x" "?tail bs y"] st Cons by auto
    have "as = bs \<and> x = y"
    proof (cases "as = [] \<or> bs = []")
      case True
      then show ?thesis using ab(2) assms(3) by (auto split: if_splits)
    next
      case False
      then have j: "Join (map f as) '','' @ z # x = Join (map f bs) '','' @ z # y" using ab(2) by simp
      show ?thesis
      proof (rule Cons.IH [OF _ _ j])
        show "\<And>a b x y. a \<in> set as \<Longrightarrow> b \<in> set bs \<Longrightarrow> stops x \<Longrightarrow> stops y \<Longrightarrow> f a @ x = f b @ y \<Longrightarrow> a = b \<and> x = y"
          by (rule Cons.prems(1)) (simp_all add: Cons)
        show "\<And>a. a \<in> set as \<union> set bs \<Longrightarrow> f a \<noteq> [] \<and> hd (f a) \<noteq> z" using Cons.prems(2) Cons by auto
      qed
    qed
    with ab(1) show ?thesis using Cons by simp
  qed
qed

lemma num_char_hd: "wf_json (JNum t) \<Longrightarrow> num_char (hd t)"
  by (cases t) auto

text \<open>The first byte tells the kind of a value.\<close>

definition first_kind :: "char \<Rightarrow> nat" where
  "first_kind c = (if num_char c then 0 else if c = CHR ''n'' then 1 else if c = CHR ''t'' then 2 else if c = CHR ''f'' then 3
     else if c = CHR 0x22 then 4 else if c = CHR ''['' then 5 else if c = CHR ''{'' then 6 else 7)"

fun json_kind :: "json \<Rightarrow> nat" where
  "json_kind (JNum t) = 0" | "json_kind JNull = 1" | "json_kind (JBool b) = (if b then 2 else 3)"
| "json_kind (JStr s) = 4" | "json_kind (JArr xs) = 5" | "json_kind (JObj kvs) = 6"

lemma kind_hds: "first_kind (CHR ''n'') = 1" "first_kind (CHR ''t'') = 2" "first_kind (CHR ''f'') = 3" "first_kind (CHR 0x22) = 4"
  "first_kind (CHR ''['') = 5" "first_kind (CHR ''{'') = 6"
  by (auto simp: first_kind_def num_char_def is_digit_def byte_of_def)

lemma print_kind:
  assumes "wf_json j"
  shows "json_print html j \<noteq> [] \<and> first_kind (hd (json_print html j)) = json_kind j"
proof (cases j)
  case (JNum t)
  then show ?thesis using assms num_char_hd [of t] by (simp add: first_kind_def)
qed (simp_all add: json_quote_def kind_hds)

lemma kind_brackets: "first_kind (CHR '']'') = 7" "first_kind (CHR ''}'') = 7" "json_kind j \<noteq> 7"
  by (auto simp: first_kind_def num_char_def is_digit_def byte_of_def) (cases j; auto split: if_splits)

lemma not_num_brackets: "\<not> num_char (CHR '']'')" "\<not> num_char (CHR ''}'')"
  by (auto simp: num_char_def is_digit_def byte_of_def)

lemma print_hd_bracket: "wf_json j \<Longrightarrow> json_print html j \<noteq> [] \<and> hd (json_print html j) \<noteq> CHR '']''"
  using print_kind [of j html] kind_brackets by metis

lemma print_same_kind:
  "wf_json a \<Longrightarrow> wf_json b \<Longrightarrow> json_print html a @ x = json_print html b @ y \<Longrightarrow> json_kind a = json_kind b"
  by (metis print_kind hd_append2)

lemma json_kindE:
  "json_kind b = 0 \<Longrightarrow> \<exists>t. b = JNum t" "json_kind b = 1 \<Longrightarrow> b = JNull" "json_kind b = 2 \<Longrightarrow> b = JBool True"
  "json_kind b = 3 \<Longrightarrow> b = JBool False" "json_kind b = 4 \<Longrightarrow> \<exists>s. b = JStr s" "json_kind b = 5 \<Longrightarrow> \<exists>xs. b = JArr xs"
  "json_kind b = 6 \<Longrightarrow> \<exists>kvs. b = JObj kvs"
  by (cases b; auto split: if_splits)+

definition print_entry :: "bool \<Rightarrow> string \<times> json \<Rightarrow> string" where
  "print_entry html kv = json_quote html (fst kv) @ '':'' @ json_print html (snd kv)"

lemma print_entry_hd: "print_entry html kv \<noteq> [] \<and> hd (print_entry html kv) \<noteq> CHR ''}''"
  by (simp add: print_entry_def json_quote_def)

lemma print_inject:
  "wf_json a \<Longrightarrow> wf_json b \<Longrightarrow> stops x \<Longrightarrow> stops y \<Longrightarrow> json_print html a @ x = json_print html b @ y \<Longrightarrow> a = b \<and> x = y"
proof (induction a arbitrary: b x y)
  case (JArr xs)
  have "json_kind b = json_kind (JArr xs)" using print_same_kind [OF JArr.prems(1,2,5)] by simp
  then obtain ys where b: "b = JArr ys" using json_kindE(6) [of b] by auto
  have "xs = ys \<and> x = y"
  proof (rule Join_inject [where f = "json_print html" and z = "CHR '']''"])
    show "Join (map (json_print html) xs) '','' @ CHR '']'' # x = Join (map (json_print html) ys) '','' @ CHR '']'' # y"
      using JArr.prems(5) b by simp
    show "c = d \<and> u = v" if "c \<in> set xs" "d \<in> set ys" "stops u" "stops v" "json_print html c @ u = json_print html d @ v" for c d u v
      using JArr.IH [OF that(1) _ _ that(3-5)] that JArr.prems(1,2) b by (simp add: list_all_iff)
    show "json_print html c \<noteq> [] \<and> hd (json_print html c) \<noteq> CHR '']''" if "c \<in> set xs \<union> set ys" for c
      using that JArr.prems(1,2) b print_hd_bracket by (auto simp: list_all_iff)
  qed (simp_all add: not_num_brackets)
  then show ?case using b by simp
next
  case (JObj kvs)
  have "json_kind b = json_kind (JObj kvs)" using print_same_kind [OF JObj.prems(1,2,5)] by simp
  then obtain kws where b: "b = JObj kws" using json_kindE(7) [of b] by auto
  have "kvs = kws \<and> x = y"
  proof (rule Join_inject [where f = "print_entry html" and z = "CHR ''}''"])
    show "Join (map (print_entry html) kvs) '','' @ CHR ''}'' # x = Join (map (print_entry html) kws) '','' @ CHR ''}'' # y"
      using JObj.prems(5) b by (simp add: print_entry_def [abs_def])
    show "c = d \<and> u = v" if m: "c \<in> set kvs" "d \<in> set kws" "stops u" "stops v" "print_entry html c @ u = print_entry html d @ v" for c d u v
    proof -
      from m(5) have "json_quote html (fst c) @ ('':'' @ json_print html (snd c) @ u) = json_quote html (fst d) @ ('':'' @ json_print html (snd d) @ v)"
        by (simp add: print_entry_def)
      then have q: "fst c = fst d" "json_print html (snd c) @ u = json_print html (snd d) @ v"
        by (auto dest!: quote_inject)
      have "snd c \<in> Basic_BNFs.snds c" by (cases c) simp
      then show ?thesis using JObj.IH [OF m(1) _ _ _ m(3,4) q(2)] JObj.prems(1,2) b m(1,2) q(1)
        by (auto simp: list_all_iff prod_eq_iff)
    qed
  qed (simp_all add: not_num_brackets print_entry_hd)
  then show ?case using b by simp
next
  case (JNum t)
  have "json_kind b = json_kind (JNum t)" using print_same_kind [OF JNum.prems(1,2,5)] by simp
  then obtain t' where "b = JNum t'" using json_kindE(1) [of b] by auto
  with JNum.prems show ?case using num_inject by auto
next
  case (JStr s)
  have "json_kind b = json_kind (JStr s)" using print_same_kind [OF JStr.prems(1,2,5)] by simp
  then obtain t' where "b = JStr t'" using json_kindE(5) [of b] by auto
  with JStr.prems show ?case by (auto dest!: quote_inject)
next
  case JNull
  then have "b = JNull" using print_same_kind [OF JNull.prems(1,2,5)] json_kindE(2) by auto
  with JNull.prems show ?case by simp
next
  case (JBool c)
  have "b = JBool c" using print_same_kind [OF JBool.prems(1,2,5)] json_kindE(3,4) by (cases c) auto
  with JBool.prems show ?case by simp
qed

section \<open>What the encoding tells apart\<close>

lemma wf_sort_keys: "wf_json j \<Longrightarrow> wf_json (sort_keys j)"
proof (induction j)
  case (JObj kvs)
  have "distinct (map fst (sort_key fst (map (\<lambda>kv. (fst kv, sort_keys (snd kv))) kvs)))"
    using JObj.prems by (auto simp: distinct_map comp_def inj_on_def)
  then show ?case using JObj by (auto simp: list_all_iff)
qed (auto simp: list_all_iff)

theorem json_encode_inject:
  assumes "wf_json a" "wf_json b"
  shows "json_encode html a = json_encode html b \<longleftrightarrow> sort_keys a = sort_keys b"
  using print_inject [OF wf_sort_keys [OF assms(1)] wf_sort_keys [OF assms(2)], of "[]" "[]" html]
  by (auto simp: json_encode_def stops_def)

text \<open>Two maps with the same ordered form hold the same values under the same keys.\<close>

lemma sort_keys_same_map:
  assumes "wf_json (JObj a)" "wf_json (JObj b)" "sort_keys (JObj a) = sort_keys (JObj b)"
  shows "map_option sort_keys (map_of a k) = map_option sort_keys (map_of b k)"
proof -
  let ?f = "\<lambda>kv. (fst kv, sort_keys (snd kv))"
  have m: "map_of (map ?f l) k = map_option sort_keys (map_of l k)" for l
    by (induction l) auto
  have d: "distinct (map fst (map ?f a))" "distinct (map fst (map ?f b))" using assms(1,2) by (simp_all add: comp_def)
  have "sort_key fst (map ?f a) = sort_key fst (map ?f b)" using assms(3) by simp
  then have "set (sort_key fst (map ?f a)) = set (sort_key fst (map ?f b))" by (rule arg_cong)
  then have "set (map ?f a) = set (map ?f b)" by (simp only: set_sort)
  then have "map_of (map ?f a) = map_of (map ?f b)" 
    using map_of_inject_set [OF d] by simp
  then show ?thesis unfolding m [symmetric] by simp
qed

end
