(* ===== verification/TaskStore.thy ===== *)
theory TaskStore
  imports Json
begin

text \<open>
  broker/internal/db/tasks.go and db/approvals.go: the task table with its state machine
  and cost ledger, the plan step table with its single-use claims, and the approval gates
  with n-of-m voting.  The three tables are one record; each repository method is a
  function on it.  A method runs in one transaction under row level security: it sees and
  writes rows of its tenant only, and a database failure (argument \<open>fail\<close>) changes nothing.
  Timestamps other than expiry times are not modelled; SQL's NOW() is an argument.
\<close>

section \<open>Rows\<close>

datatype TaskState = TaskStateCreated | TaskStatePlanning | TaskStateValidating
  | TaskStateAwaitingApproval | TaskStateApproved | TaskStateExecuting | TaskStateCompleted
  | TaskStateFailed | TaskStateDenied | TaskStateCancelled | TaskStateTerminated | TaskStateTimeout

record Task =
  TaskID :: string
  ParentTaskID :: "string option"
  TenantID :: string
  OwnerUserID :: string
  State :: TaskState
  Prompt :: string
  CostBudget :: int
  CostConsumed :: int
  TraceID :: string
  Deadline :: "int option"
  GatewayManaged :: bool
  AgentID :: "string option"
  ClientRequestID :: string
  DelegatedByUserID :: "string option"
  ExternalClientID :: "string option"
  GrantID :: "string option"
  OBOKind :: "string option"
  EnvelopeID :: "string option"
  DelegatedScopes :: "string list option"
  ServiceAgent :: bool

record OnBehalfOf =
  Subject :: string
  Actor :: string
  ServiceRun :: bool
  obo_ServiceAgent :: bool
  DelegatedBy :: string
  obo_EnvelopeID :: string
  obo_ExternalClientID :: string
  obo_GrantID :: string
  obo_Kind :: string

definition str_of :: "string option \<Rightarrow> string" where
  "str_of x = (case x of Some s \<Rightarrow> s | None \<Rightarrow> [])"

definition Task_OnBehalfOf :: "Task \<Rightarrow> OnBehalfOf" where
  "Task_OnBehalfOf t =
     (let svc = HasPrefix (OwnerUserID t) ''svc-'';
          kind1 = (if ExternalClientID t \<noteq> None then ''external'' else []);
          kind2 = (if GrantID t \<noteq> None then ''scheduled'' else kind1);
          kind3 = (case OBOKind t of Some k \<Rightarrow> if k \<noteq> [] then k else kind2 | None \<Rightarrow> kind2)
      in \<lparr>Subject = (if svc then [] else OwnerUserID t), Actor = str_of (AgentID t), ServiceRun = svc,
          obo_ServiceAgent = ServiceAgent t, DelegatedBy = str_of (DelegatedByUserID t),
          obo_EnvelopeID = str_of (EnvelopeID t), obo_ExternalClientID = str_of (ExternalClientID t),
          obo_GrantID = str_of (GrantID t), obo_Kind = kind3\<rparr>)"

datatype PolicyDecision = PolicyAllow | PolicyDeny | PolicyNeedApproval | PolicyNeedStepUp

record PlanStepRecord =
  ps_TaskID :: string
  ps_TenantID :: string
  ps_Seq :: int
  ps_ToolID :: string
  ps_ArgsHash :: string
  ps_EffectClass :: string
  ps_Justification :: string
  ps_EstimatedCost :: int
  ps_PolicyDecision :: PolicyDecision
  ps_PolicyRuleID :: string
  ps_Args :: "json option"
  ps_PolicyReason :: string

text \<open>A row of plan_steps: the record and the columns only the database writes.\<close>

record StepRow = PlanStepRecord +
  row_state :: string
  consumed :: bool

datatype ApprovalState = ApprovalPending | ApprovalApproved | ApprovalDenied | ApprovalExpired

text \<open>The keys of the summary document.\<close>

record Summary =
  sum_plan_id :: string
  sum_reason :: string
  sum_step_up :: bool
  sum_n_steps :: nat

record ApprovalRequest =
  ApprovalID :: string
  ar_TaskID :: string
  ar_TenantID :: string
  RequesterID :: string
  Summary :: Summary
  ApproverSet :: "string list"
  RequiresN :: int
  ApprovedBy :: "string list"
  DeniedBy :: "string list"
  ar_State :: ApprovalState
  ExpiresAt :: int

text \<open>
  Steps and gates are kept in the order of insertion, which is the order of created_at.
  \<open>client_request_index\<close> is the partial unique index on (tenant, client_request_id).
\<close>

record Db =
  tasks :: "string \<rightharpoonup> Task"
  client_request_index :: "(string \<times> string) \<rightharpoonup> string"
  plan_steps :: "StepRow list"
  approvals :: "ApprovalRequest list"

definition empty_Db :: Db where
  "empty_Db = \<lparr>tasks = Map.empty, client_request_index = Map.empty, plan_steps = [], approvals = []\<rparr>"

datatype db_error = DbFault | ErrNotFound | ErrNoRows | ErrBudgetExceeded | InvalidTransition
  | NotInState | ErrClientRequestIDExists string string | ErrClientRequestIDConflict | DuplicateTask
  | ErrVoterNotInApproverSet | ErrApprovalAlreadyResolved

section \<open>Tasks (tasks.go)\<close>

definition visible_task :: "Db \<Rightarrow> string \<Rightarrow> string \<Rightarrow> Task option" where
  "visible_task db tenant tid =
     (case tasks db tid of Some t \<Rightarrow> if TenantID t = tenant then Some t else None | None \<Rightarrow> None)"

definition getByClientRequestID :: "Db \<Rightarrow> string \<Rightarrow> string \<Rightarrow> Task option" where
  "getByClientRequestID db tenant crid =
     (case client_request_index db (tenant, crid) of None \<Rightarrow> None | Some tid \<Rightarrow> visible_task db tenant tid)"

definition Create :: "bool \<Rightarrow> Task \<Rightarrow> Db \<Rightarrow> (db_error, Db) result" where
  "Create fail t db =
     (if fail then Inl DbFault
      else if tasks db (TaskID t) \<noteq> None then Inl DuplicateTask
      else if ClientRequestID t \<noteq> [] \<and> client_request_index db (TenantID t, ClientRequestID t) \<noteq> None then
        (case getByClientRequestID db (TenantID t) (ClientRequestID t) of
           None \<Rightarrow> Inl ErrNotFound
         | Some existing \<Rightarrow>
             if OwnerUserID existing \<noteq> OwnerUserID t then Inl ErrClientRequestIDConflict
             else Inl (ErrClientRequestIDExists (TaskID existing) (TraceID existing)))
      else Inr (db\<lparr>tasks := (tasks db)(TaskID t \<mapsto> t\<lparr>State := TaskStateCreated, CostConsumed := 0\<rparr>),
                   client_request_index :=
                     (if ClientRequestID t = [] then client_request_index db
                      else (client_request_index db)((TenantID t, ClientRequestID t) \<mapsto> TaskID t))\<rparr>))"

definition Get :: "bool \<Rightarrow> string \<Rightarrow> string \<Rightarrow> Db \<Rightarrow> (db_error, Task) result" where
  "Get fail tenant tid db =
     (if fail then Inl DbFault
      else case visible_task db tenant tid of None \<Rightarrow> Inl ErrNotFound | Some t \<Rightarrow> Inr t)"

fun allowed :: "TaskState \<Rightarrow> TaskState list" where
  "allowed TaskStateCreated = [TaskStatePlanning, TaskStateCancelled]"
| "allowed TaskStatePlanning = [TaskStateValidating, TaskStateDenied, TaskStateCancelled]"
| "allowed TaskStateValidating = [TaskStateAwaitingApproval, TaskStateApproved, TaskStateDenied, TaskStateCancelled]"
| "allowed TaskStateAwaitingApproval = [TaskStateApproved, TaskStateDenied, TaskStateCancelled, TaskStateTimeout]"
| "allowed TaskStateApproved = [TaskStateExecuting, TaskStateFailed, TaskStateCancelled]"
| "allowed TaskStateExecuting =
     [TaskStatePlanning, TaskStateCompleted, TaskStateFailed, TaskStateTerminated, TaskStateTimeout, TaskStateCancelled]"
| "allowed _ = []"

definition isValidTransition :: "TaskState \<Rightarrow> TaskState \<Rightarrow> bool" where
  "isValidTransition from to = (to \<in> set (allowed from))"

text \<open>The guarded UPDATE: it affects the row only while it is in the state \<open>from\<close>.\<close>

definition transitionExec :: "string \<Rightarrow> string \<Rightarrow> TaskState \<Rightarrow> TaskState \<Rightarrow> Db \<Rightarrow> (db_error, Db) result" where
  "transitionExec tenant tid from to db =
     (case visible_task db tenant tid of
        None \<Rightarrow> Inl NotInState
      | Some t \<Rightarrow> if State t = from then Inr (db\<lparr>tasks := (tasks db)(tid \<mapsto> t\<lparr>State := to\<rparr>)\<rparr>) else Inl NotInState)"

definition Transition :: "bool \<Rightarrow> string \<Rightarrow> string \<Rightarrow> TaskState \<Rightarrow> TaskState \<Rightarrow> Db \<Rightarrow> (db_error, Db) result" where
  "Transition fail tenant tid from to db =
     (if \<not> isValidTransition from to then Inl InvalidTransition
      else if fail then Inl DbFault
      else transitionExec tenant tid from to db)"

definition task_steps :: "Db \<Rightarrow> string \<Rightarrow> string \<Rightarrow> StepRow list" where
  "task_steps db tenant tid = filter (\<lambda>s. ps_TaskID s = tid \<and> ps_TenantID s = tenant) (plan_steps db)"

definition reserve_units :: "Db \<Rightarrow> string \<Rightarrow> string \<Rightarrow> int \<Rightarrow> int" where
  "reserve_units db tenant tid seq =
     (let costs = map ps_EstimatedCost (filter (\<lambda>s. ps_Seq s = seq) (task_steps db tenant tid))
      in max (if costs = [] then 0 else foldl max (hd costs) (tl costs)) 1)"

definition ReserveCost :: "bool \<Rightarrow> string \<Rightarrow> string \<Rightarrow> int \<Rightarrow> Db \<Rightarrow> (db_error, int \<times> Db) result" where
  "ReserveCost fail tenant tid seq db =
     (if fail then Inl DbFault
      else case visible_task db tenant tid of
             None \<Rightarrow> Inl ErrBudgetExceeded
           | Some t \<Rightarrow>
               (let u = reserve_units db tenant tid seq in
                if CostConsumed t + u \<le> CostBudget t
                then Inr (u, db\<lparr>tasks := (tasks db)(tid \<mapsto> t\<lparr>CostConsumed := CostConsumed t + u\<rparr>)\<rparr>)
                else Inl ErrBudgetExceeded))"

text \<open>IncrementCost always records; the error only tells the caller what to do next.\<close>

definition IncrementCost :: "bool \<Rightarrow> string \<Rightarrow> string \<Rightarrow> int \<Rightarrow> Db \<Rightarrow> (db_error, unit) result \<times> Db" where
  "IncrementCost fail tenant tid units db =
     (if fail then (Inl DbFault, db)
      else case visible_task db tenant tid of
             None \<Rightarrow> (Inl ErrNotFound, db)
           | Some t \<Rightarrow>
               (let total = CostConsumed t + units;
                    db' = db\<lparr>tasks := (tasks db)(tid \<mapsto> t\<lparr>CostConsumed := total\<rparr>)\<rparr>
                in if total > CostBudget t then (Inl ErrBudgetExceeded, db') else (Inr (), db')))"

section \<open>Plan steps (approvals.go)\<close>

definition stepStateFor :: "PolicyDecision \<Rightarrow> string" where
  "stepStateFor d =
     (case d of PolicyAllow \<Rightarrow> ''APPROVED'' | PolicyDeny \<Rightarrow> ''DENIED'' | _ \<Rightarrow> ''PENDING'')"

definition same_key :: "PlanStepRecord \<Rightarrow> StepRow \<Rightarrow> bool" where
  "same_key s r = (ps_TaskID r = ps_TaskID s \<and> ps_Seq r = ps_Seq s)"

definition new_row :: "bool \<Rightarrow> PlanStepRecord \<Rightarrow> StepRow" where
  "new_row c s = PlanStepRecord.extend s \<lparr>row_state = stepStateFor (ps_PolicyDecision s), consumed = c\<rparr>"

text \<open>
  INSERT ... ON CONFLICT (task_id, seq) DO UPDATE: every listed column is replaced;
  consumed_at is not listed and keeps its value.
\<close>

definition upsert_step :: "StepRow list \<Rightarrow> PlanStepRecord \<Rightarrow> StepRow list" where
  "upsert_step rows s =
     (if list_ex (same_key s) rows
      then map (\<lambda>r. if same_key s r then (new_row (consumed r) s)\<lparr>ps_TaskID := ps_TaskID r,
                       ps_TenantID := ps_TenantID r, ps_Seq := ps_Seq r\<rparr> else r) rows
      else rows @ [new_row False s])"

definition insertPlanStepBatch :: "string \<Rightarrow> string \<Rightarrow> PlanStepRecord list \<Rightarrow> StepRow list \<Rightarrow> StepRow list" where
  "insertPlanStepBatch tenant tid steps rows =
     filter (\<lambda>r. \<not> (ps_TaskID r = tid \<and> ps_TenantID r = tenant \<and> ps_Seq r \<notin> set (map ps_Seq steps)))
       (foldl upsert_step rows steps)"

definition InsertPlanSteps ::
  "bool \<Rightarrow> string \<Rightarrow> string \<Rightarrow> PlanStepRecord list \<Rightarrow> TaskState option \<Rightarrow> Db \<Rightarrow> (db_error, Db) result" where
  "InsertPlanSteps fail tenant tid steps to db =
     (if steps = [] \<and> to = None then Inr db
      else if (case to of Some st \<Rightarrow> \<not> isValidTransition TaskStateValidating st | None \<Rightarrow> False) then Inl InvalidTransition
      else if fail then Inl DbFault
      else bindE (case to of
                    Some st \<Rightarrow> transitionExec tenant tid TaskStateValidating st db
                  | None \<Rightarrow> (case visible_task db tenant tid of
                               Some t \<Rightarrow> if State t = TaskStateValidating then Inr db else Inl NotInState
                             | None \<Rightarrow> Inl NotInState))
             (\<lambda>db1. if steps = [] then Inr db1
                    else Inr (db1\<lparr>plan_steps := insertPlanStepBatch tenant tid steps (plan_steps db1)\<rparr>)))"

record PlanStepClaim =
  cl_ToolID :: string
  cl_ArgsHash :: string
  cl_PolicyDecision :: PolicyDecision
  WasConsumed :: bool
  Claimed :: bool

definition claimable :: "string \<Rightarrow> string list \<Rightarrow> StepRow \<Rightarrow> bool" where
  "claimable toolID argsHashes r =
     (\<not> consumed r \<and> ps_ToolID r = toolID \<and> ps_ArgsHash r \<in> set argsHashes \<and> ps_PolicyDecision r \<noteq> PolicyDeny)"

definition step_at :: "string \<Rightarrow> string \<Rightarrow> int \<Rightarrow> StepRow \<Rightarrow> bool" where
  "step_at tenant tid seq r = (ps_TaskID r = tid \<and> ps_TenantID r = tenant \<and> ps_Seq r = seq)"

definition ClaimPlanStep ::
  "bool \<Rightarrow> string \<Rightarrow> string \<Rightarrow> int \<Rightarrow> string \<Rightarrow> string list \<Rightarrow> Db \<Rightarrow> (db_error, PlanStepClaim) result \<times> Db" where
  "ClaimPlanStep fail tenant tid seq toolID argsHashes db =
     (if fail then (Inl DbFault, db)
      else case List.find (step_at tenant tid seq) (plan_steps db) of
             None \<Rightarrow> (Inl ErrNotFound, db)
           | Some r \<Rightarrow>
               (let ok = claimable toolID argsHashes r in
                (Inr \<lparr>cl_ToolID = ps_ToolID r, cl_ArgsHash = ps_ArgsHash r, cl_PolicyDecision = ps_PolicyDecision r,
                      WasConsumed = consumed r, Claimed = ok\<rparr>,
                 if ok then db\<lparr>plan_steps := map (\<lambda>x. if step_at tenant tid seq x then x\<lparr>consumed := True\<rparr> else x) (plan_steps db)\<rparr>
                 else db)))"

definition ListExecutableSteps :: "bool \<Rightarrow> string \<Rightarrow> string \<Rightarrow> Db \<Rightarrow> (db_error, StepRow list) result" where
  "ListExecutableSteps fail tenant tid db =
     (if fail then Inl DbFault
      else Inr (sort_key ps_Seq (filter (\<lambda>s. ps_PolicyDecision s = PolicyAllow) (task_steps db tenant tid))))"

definition ListMintableSteps :: "bool \<Rightarrow> string \<Rightarrow> string \<Rightarrow> Db \<Rightarrow> (db_error, StepRow list) result" where
  "ListMintableSteps fail tenant tid db =
     (if fail then Inl DbFault
      else Inr (sort_key ps_Seq (filter (\<lambda>s. ps_PolicyDecision s \<noteq> PolicyDeny) (task_steps db tenant tid))))"

section \<open>Approval gates (approvals.go)\<close>

definition CreateApprovalRequest :: "bool \<Rightarrow> string \<Rightarrow> ApprovalRequest \<Rightarrow> Db \<Rightarrow> (db_error, string \<times> Db) result" where
  "CreateApprovalRequest fail newID ar db =
     (if fail then Inl DbFault
      else Inr (newID, db\<lparr>approvals := approvals db @
             [ar\<lparr>ApprovalID := newID, RequiresN := (if RequiresN ar < 1 then 1 else RequiresN ar),
                 ApprovedBy := [], DeniedBy := [], ar_State := ApprovalPending\<rparr>]\<rparr>))"

definition open_gate :: "int \<Rightarrow> string \<Rightarrow> ApprovalRequest \<Rightarrow> bool" where
  "open_gate now tenant a = (ar_TenantID a = tenant \<and> ar_State a = ApprovalPending \<and> ExpiresAt a > now)"

definition GetPendingApprovalByTask :: "bool \<Rightarrow> int \<Rightarrow> string \<Rightarrow> string \<Rightarrow> Db \<Rightarrow> (db_error, ApprovalRequest) result" where
  "GetPendingApprovalByTask fail now tenant tid db =
     (if fail then Inl DbFault
      else case List.find (\<lambda>a. ar_TaskID a = tid \<and> open_gate now tenant a) (rev (approvals db)) of
             None \<Rightarrow> Inl ErrNoRows | Some a \<Rightarrow> Inr a)"

definition inSet :: "string list \<Rightarrow> string \<Rightarrow> bool" where
  "inSet xs v = list_ex (\<lambda>x. x = v) xs"

definition appendUnique :: "string list \<Rightarrow> string \<Rightarrow> string list" where
  "appendUnique xs v = (if list_ex (\<lambda>x. x = v) xs then xs else xs @ [v])"

definition MayVote :: "string list \<Rightarrow> string \<Rightarrow> int \<Rightarrow> string \<Rightarrow> bool" where
  "MayVote approverSet requester requiresN voter =
     (if requiresN \<ge> 2 \<and> voter = requester then False else inSet approverSet voter)"

definition ListPendingApprovalsFor :: "bool \<Rightarrow> int \<Rightarrow> string \<Rightarrow> string \<Rightarrow> Db \<Rightarrow> (db_error, ApprovalRequest list) result" where
  "ListPendingApprovalsFor fail now tenant user db =
     (if fail then Inl DbFault
      else Inr (take 100 (filter (\<lambda>a. open_gate now tenant a \<and> user \<in> set (ApproverSet a)
             \<and> \<not> (RequiresN a \<ge> 2 \<and> RequesterID a = user) \<and> user \<notin> set (ApprovedBy a)) (approvals db))))"

definition ExpireApproval :: "bool \<Rightarrow> int \<Rightarrow> string \<Rightarrow> string \<Rightarrow> Db \<Rightarrow> (db_error, bool) result \<times> Db" where
  "ExpireApproval fail now tenant aid db =
     (if fail then (Inl DbFault, db)
      else let hit = (\<lambda>a. ApprovalID a = aid \<and> ar_TenantID a = tenant \<and> ar_State a = ApprovalPending \<and> ExpiresAt a \<le> now)
           in (Inr (list_ex hit (approvals db)),
               db\<lparr>approvals := map (\<lambda>a. if hit a then a\<lparr>ar_State := ApprovalExpired\<rparr> else a) (approvals db)\<rparr>))"

definition WithdrawApproval :: "bool \<Rightarrow> string \<Rightarrow> string \<Rightarrow> string \<Rightarrow> Db \<Rightarrow> (db_error, bool) result \<times> Db" where
  "WithdrawApproval fail tenant tid by_user db =
     (if fail then (Inl DbFault, db)
      else let hit = (\<lambda>a. ar_TaskID a = tid \<and> ar_TenantID a = tenant \<and> ar_State a = ApprovalPending)
           in (Inr (list_ex hit (approvals db)),
               db\<lparr>approvals := map (\<lambda>a. if hit a then a\<lparr>ar_State := ApprovalDenied, DeniedBy := DeniedBy a @ [by_user]\<rparr> else a) (approvals db)\<rparr>))"

text \<open>The Go conversion int16(len(xs)), wrap-around included.\<close>

definition int16 :: "nat \<Rightarrow> int" where
  "int16 n = (let m = int n mod 65536 in if m \<ge> 32768 then m - 65536 else m)"

definition vote :: "string \<Rightarrow> bool \<Rightarrow> ApprovalRequest \<Rightarrow> ApprovalRequest \<times> bool" where
  "vote approver approved a =
     (let approvedBy = (if approved then appendUnique (ApprovedBy a) approver else ApprovedBy a);
          deniedBy = (if approved then DeniedBy a else appendUnique (DeniedBy a) approver);
          a' = a\<lparr>ApprovedBy := approvedBy, DeniedBy := deniedBy\<rparr>
      in if length deniedBy > 0 then (a'\<lparr>ar_State := ApprovalDenied\<rparr>, True)
         else if int16 (length approvedBy) \<ge> RequiresN a then (a'\<lparr>ar_State := ApprovalApproved\<rparr>, True)
         else (a', False))"

definition ResolveApproval ::
  "bool \<Rightarrow> int \<Rightarrow> string \<Rightarrow> string \<Rightarrow> string \<Rightarrow> bool \<Rightarrow> Db \<Rightarrow> (db_error, (ApprovalState \<times> bool) \<times> Db) result" where
  "ResolveApproval fail now tenant aid approver approved db =
     (if fail then Inl DbFault
      else case List.find (\<lambda>a. ApprovalID a = aid \<and> ar_TenantID a = tenant \<and> ExpiresAt a > now) (approvals db) of
             None \<Rightarrow> Inl ErrNoRows
           | Some a \<Rightarrow>
               if \<not> MayVote (ApproverSet a) (RequesterID a) (RequiresN a) approver then Inl ErrVoterNotInApproverSet
               else if ar_State a \<noteq> ApprovalPending then Inl ErrApprovalAlreadyResolved
               else
                 (let (a', resolved) = vote approver approved a;
                      db1 = db\<lparr>approvals := map (\<lambda>x. if ApprovalID x = aid \<and> ar_TenantID x = tenant then a' else x) (approvals db)\<rparr>;
                      to = (if ar_State a' = ApprovalDenied then TaskStateDenied else TaskStateApproved)
                  in if resolved
                     then bindE (transitionExec tenant (ar_TaskID a) TaskStateAwaitingApproval to db1)
                            (\<lambda>db2. Inr ((ar_State a', True), db2))
                     else Inr ((ar_State a', False), db1)))"

section \<open>Frame and lookup lemmas\<close>

lemma find_SomeD: "List.find P xs = Some x \<Longrightarrow> x \<in> set xs \<and> P x"
  by (induction xs) (auto split: if_splits)

lemma visible_task_SomeD: "visible_task db tenant tid = Some t \<Longrightarrow> tasks db tid = Some t \<and> TenantID t = tenant"
  by (auto simp: visible_task_def split: option.splits if_splits)

lemma transitionExec_Inr:
  "transitionExec tenant tid from to db = Inr db' \<Longrightarrow>
   \<exists>t. visible_task db tenant tid = Some t \<and> State t = from \<and> db' = db\<lparr>tasks := (tasks db)(tid \<mapsto> t\<lparr>State := to\<rparr>)\<rparr>"
  by (auto simp: transitionExec_def split: option.splits if_splits)

lemma isValidTransition_Approved:
  "isValidTransition st TaskStateApproved \<longleftrightarrow> st = TaskStateValidating \<or> st = TaskStateAwaitingApproval"
  by (cases st) (simp_all add: isValidTransition_def)

definition terminal :: "TaskState \<Rightarrow> bool" where
  "terminal s = (s \<in> {TaskStateCompleted, TaskStateFailed, TaskStateDenied, TaskStateCancelled,
     TaskStateTerminated, TaskStateTimeout})"

lemma terminal_iff_no_exit: "terminal s \<longleftrightarrow> allowed s = []"
  by (cases s) (simp_all add: terminal_def)

section \<open>The store as a transition system\<close>

text \<open>One committed repository call.  The new gate id of CreateApprovalRequest is the one
  the database generated.\<close>

datatype store_op =
    OCreate Task
  | OTransition string string TaskState TaskState
  | OReserve string string int
  | OIncrement string string int
  | OInsert string string "PlanStepRecord list" "TaskState option"
  | OClaim string string int string "string list"
  | OCreateGate string ApprovalRequest
  | OExpire int string string
  | OWithdraw string string string
  | OResolve int string string string bool

definition or_same :: "Db \<Rightarrow> (db_error, Db) result \<Rightarrow> Db" where
  "or_same db r = (case r of Inl _ \<Rightarrow> db | Inr db' \<Rightarrow> db')"

fun exec :: "store_op \<Rightarrow> Db \<Rightarrow> Db" where
  "exec (OCreate t) db = or_same db (Create False t db)"
| "exec (OTransition ten tid from to) db = or_same db (Transition False ten tid from to db)"
| "exec (OReserve ten tid seq) db = or_same db (map_sum (\<lambda>e. e) snd (ReserveCost False ten tid seq db))"
| "exec (OIncrement ten tid u) db = snd (IncrementCost False ten tid u db)"
| "exec (OInsert ten tid steps to) db = or_same db (InsertPlanSteps False ten tid steps to db)"
| "exec (OClaim ten tid seq tool hs) db = snd (ClaimPlanStep False ten tid seq tool hs db)"
| "exec (OCreateGate nid ar) db = or_same db (map_sum (\<lambda>e. e) snd (CreateApprovalRequest False nid ar db))"
| "exec (OExpire now ten aid) db = snd (ExpireApproval False now ten aid db)"
| "exec (OWithdraw ten tid who) db = snd (WithdrawApproval False ten tid who db)"
| "exec (OResolve now ten aid who ok) db = or_same db (map_sum (\<lambda>e. e) snd (ResolveApproval False now ten aid who ok db))"

lemma or_same_simps [simp]: "or_same db (Inl e) = db" "or_same db (Inr db') = db'"
  by (simp_all add: or_same_def)

section \<open>Lifecycle\<close>

text \<open>What no repository call changes of a task, and how its state may move.\<close>

definition task_step :: "Task \<Rightarrow> Task \<Rightarrow> bool" where
  "task_step t t' = (TenantID t' = TenantID t \<and> OwnerUserID t' = OwnerUserID t \<and> CostBudget t' = CostBudget t
     \<and> DelegatedScopes t' = DelegatedScopes t \<and> AgentID t' = AgentID t
     \<and> (State t' = State t \<or> isValidTransition (State t) (State t')))"

lemma task_step_refl [simp]: "task_step t t"
  by (simp add: task_step_def)

lemma transitionExec_task_step:
  assumes "transitionExec tenant tid from to db = Inr db'" "isValidTransition from to" "tasks db k = Some t"
  shows "\<exists>t'. tasks db' k = Some t' \<and> task_step t t'"
  using assms by (fastforce simp: task_step_def dest!: transitionExec_Inr visible_task_SomeD)

lemma Create_task_step:
  "Create False n db = Inr db' \<Longrightarrow> tasks db k = Some t \<Longrightarrow> \<exists>t'. tasks db' k = Some t' \<and> task_step t t'"
  by (auto simp: Create_def split: if_splits option.splits)

lemma Transition_task_step:
  "Transition False ten tid from to db = Inr db' \<Longrightarrow> tasks db k = Some t \<Longrightarrow> \<exists>t'. tasks db' k = Some t' \<and> task_step t t'"
  by (auto simp: Transition_def split: if_splits intro: transitionExec_task_step)

lemma ReserveCost_task_step:
  "ReserveCost False ten tid seq db = Inr (u, db') \<Longrightarrow> tasks db k = Some t \<Longrightarrow> \<exists>t'. tasks db' k = Some t' \<and> task_step t t'"
  by (auto simp: ReserveCost_def Let_def task_step_def split: if_splits option.splits dest!: visible_task_SomeD)

lemma IncrementCost_task_step:
  "tasks db k = Some t \<Longrightarrow> \<exists>t'. tasks (snd (IncrementCost False ten tid u db)) k = Some t' \<and> task_step t t'"
  by (auto simp: IncrementCost_def Let_def task_step_def split: option.splits dest!: visible_task_SomeD)

lemma InsertPlanSteps_task_step:
  "InsertPlanSteps False ten tid steps to db = Inr db' \<Longrightarrow> tasks db k = Some t \<Longrightarrow> \<exists>t'. tasks db' k = Some t' \<and> task_step t t'"
  by (cases to) (auto simp: InsertPlanSteps_def bindE_eq_Inr split: if_splits option.splits
      dest!: transitionExec_task_step)

lemma ResolveApproval_task_step:
  assumes "ResolveApproval False now ten aid who ok db = Inr (r, db')" "tasks db k = Some t"
  shows "\<exists>t'. tasks db' k = Some t' \<and> task_step t t'"
proof -
  have valid: "isValidTransition TaskStateAwaitingApproval TaskStateDenied"
    "isValidTransition TaskStateAwaitingApproval TaskStateApproved" by (simp_all add: isValidTransition_def)
  obtain a where a: "List.find (\<lambda>a. ApprovalID a = aid \<and> ar_TenantID a = ten \<and> ExpiresAt a > now) (approvals db) = Some a"
    using assms(1) by (auto simp: ResolveApproval_def split: option.splits)
  obtain a' res where v: "vote who ok a = (a', res)" by (metis prod.exhaust)
  let ?db1 = "db\<lparr>approvals := map (\<lambda>x. if ApprovalID x = aid \<and> ar_TenantID x = ten then a' else x) (approvals db)\<rparr>"
  let ?to = "if ar_State a' = ApprovalDenied then TaskStateDenied else TaskStateApproved"
  have t1: "tasks ?db1 k = Some t" using assms(2) by simp
  show ?thesis
  proof (cases res)
    case True
    then have "transitionExec ten (ar_TaskID a) TaskStateAwaitingApproval ?to ?db1 = Inr db'"
      using assms(1) a v by (auto simp: ResolveApproval_def bindE_eq_Inr split: if_splits)
    from transitionExec_task_step [OF this _ t1] valid show ?thesis by (cases "ar_State a' = ApprovalDenied") auto
  next
    case False
    then have "db' = ?db1" using assms(1) a v by (auto simp: ResolveApproval_def split: if_splits)
    then show ?thesis using t1 by auto
  qed
qed

lemma other_ops_tasks [simp]:
  "tasks (snd (ClaimPlanStep f ten tid seq tool hs db)) = tasks db"
  "tasks (snd (ExpireApproval f now ten aid db)) = tasks db"
  "tasks (snd (WithdrawApproval f ten tid who db)) = tasks db"
  by (auto simp: ClaimPlanStep_def ExpireApproval_def WithdrawApproval_def Let_def split: option.splits)

lemma or_same_cases: "P (or_same db r)" if "P db" "\<And>db'. r = Inr db' \<Longrightarrow> P db'"
  using that by (cases r) auto

lemma exec_task_step:
  assumes "tasks db k = Some t"
  shows "\<exists>t'. tasks (exec op db) k = Some t' \<and> task_step t t'"
proof (cases op)
  case (OCreate n)
  then show ?thesis using assms Create_task_step by (cases "Create False n db") auto
next
  case (OTransition ten tid src dst)
  then show ?thesis using assms Transition_task_step by (cases "Transition False ten tid src dst db") auto
next
  case (OReserve ten tid seq)
  then show ?thesis using assms ReserveCost_task_step by (cases "ReserveCost False ten tid seq db") auto
next
  case (OIncrement ten tid u)
  then show ?thesis using assms IncrementCost_task_step by simp
next
  case (OInsert ten tid steps dst)
  then show ?thesis using assms InsertPlanSteps_task_step by (cases "InsertPlanSteps False ten tid steps dst db") auto
next
  case (OCreateGate nid ar)
  then show ?thesis using assms by (simp add: CreateApprovalRequest_def)
next
  case (OResolve now ten aid who ok)
  then show ?thesis using assms ResolveApproval_task_step by (cases "ResolveApproval False now ten aid who ok db") auto
qed (use assms in simp_all)

definition run :: "store_op list \<Rightarrow> Db \<Rightarrow> Db" where
  "run ops db = foldl (\<lambda>d op. exec op d) db ops"

lemma run_simps [simp]: "run [] db = db" "run (op # ops) db = run ops (exec op db)"
  by (simp_all add: run_def)

lemma rtranclp_terminal:
  "isValidTransition\<^sup>*\<^sup>* a b \<Longrightarrow> terminal a \<Longrightarrow> b = a"
  by (induction rule: rtranclp_induct) (auto simp: isValidTransition_def terminal_iff_no_exit)

text \<open>C37.  Whatever calls are made in whatever order, a stored task keeps its tenant, its
  owner, its budget and its delegation limits, its state follows the edges of the state
  machine, and a terminal state is final.\<close>

theorem task_lifecycle:
  assumes "tasks db k = Some t"
  shows "\<exists>t'. tasks (run ops db) k = Some t' \<and> TenantID t' = TenantID t \<and> OwnerUserID t' = OwnerUserID t
    \<and> CostBudget t' = CostBudget t \<and> DelegatedScopes t' = DelegatedScopes t
    \<and> isValidTransition\<^sup>*\<^sup>* (State t) (State t')
    \<and> (terminal (State t) \<longrightarrow> State t' = State t)"
proof -
  have "\<exists>t'. tasks (run ops db) k = Some t' \<and> TenantID t' = TenantID t \<and> OwnerUserID t' = OwnerUserID t
    \<and> CostBudget t' = CostBudget t \<and> DelegatedScopes t' = DelegatedScopes t
    \<and> isValidTransition\<^sup>*\<^sup>* (State t) (State t')" if "tasks db k = Some t" for db t
    using that
  proof (induction ops arbitrary: db t)
    case (Cons op ops)
    from exec_task_step [OF Cons.prems, of op] obtain t1 where
      t1: "tasks (exec op db) k = Some t1" "task_step t t1" by blast
    then have "isValidTransition\<^sup>*\<^sup>* (State t) (State t1)" by (auto simp: task_step_def)
    with Cons.IH [OF t1(1)] t1(2) show ?case by (auto simp: task_step_def intro: rtranclp_trans)
  qed auto
  from this [OF assms] show ?thesis using rtranclp_terminal by blast
qed

definition example_task :: Task where
  "example_task = \<lparr>TaskID = ''t1'', ParentTaskID = None, TenantID = ''acme'', OwnerUserID = ''bob'',
     State = TaskStateCreated, Prompt = [], CostBudget = 5, CostConsumed = 0, TraceID = [], Deadline = None,
     GatewayManaged = False, AgentID = None, ClientRequestID = [], DelegatedByUserID = None, ExternalClientID = None,
     GrantID = None, OBOKind = None, EnvelopeID = None, DelegatedScopes = None, ServiceAgent = False\<rparr>"

theorem task_lifecycle_witness:
  "\<exists>t'. tasks (run [OTransition ''acme'' ''t1'' TaskStateCancelled TaskStatePlanning]
        (run [OCreate example_task, OTransition ''acme'' ''t1'' TaskStateCreated TaskStateCancelled] empty_Db)) ''t1'' = Some t'
      \<and> State t' = TaskStateCancelled"
proof -
  let ?db = "run [OCreate example_task, OTransition ''acme'' ''t1'' TaskStateCreated TaskStateCancelled] empty_Db"
  have "tasks ?db ''t1'' = Some (example_task\<lparr>State := TaskStateCancelled\<rparr>)"
    by (simp add: Create_def Transition_def isValidTransition_def transitionExec_def visible_task_def
        empty_Db_def example_task_def)
  from task_lifecycle [OF this, of "[OTransition ''acme'' ''t1'' TaskStateCancelled TaskStatePlanning]"]
  show ?thesis by (auto simp: terminal_def)
qed

section \<open>The cost ledger\<close>

lemma foldl_max_upper: "x \<in> set (c # cs) \<Longrightarrow> (x :: int) \<le> foldl max c cs"
proof (induction cs arbitrary: c x)
  case (Cons d cs)
  have "c \<le> max c d" "d \<le> max c d" by simp_all
  with Cons.IH [of "max c d" "max c d"] Cons.IH [of x "max c d"] Cons.prems show ?case by auto
qed simp

lemma reserve_units_bounds:
  "1 \<le> reserve_units db ten tid seq"
  "r \<in> set (task_steps db ten tid) \<Longrightarrow> ps_Seq r = seq \<Longrightarrow> ps_EstimatedCost r \<le> reserve_units db ten tid seq"
proof -
  show "1 \<le> reserve_units db ten tid seq" by (simp add: reserve_units_def Let_def)
  assume r: "r \<in> set (task_steps db ten tid)" "ps_Seq r = seq"
  let ?cs = "map ps_EstimatedCost (filter (\<lambda>s. ps_Seq s = seq) (task_steps db ten tid))"
  have "ps_EstimatedCost r \<in> set ?cs" using r by auto
  then show "ps_EstimatedCost r \<le> reserve_units db ten tid seq"
    using foldl_max_upper [of "ps_EstimatedCost r" "hd ?cs" "tl ?cs"]
    by (cases ?cs) (auto simp: reserve_units_def Let_def max_def)
qed

definition budget_ok :: "Db \<Rightarrow> bool" where
  "budget_ok db = (\<forall>k t. tasks db k = Some t \<longrightarrow> CostConsumed t \<le> CostBudget t)"

lemma ReserveCost_budget_ok:
  "budget_ok db \<Longrightarrow> budget_ok (exec (OReserve ten tid seq) db)"
  by (cases "ReserveCost False ten tid seq db")
    (auto simp: ReserveCost_def budget_ok_def Let_def split: if_splits option.splits)

lemma run_reserve_budget_ok:
  assumes "budget_ok db" "\<forall>op \<in> set ops. \<exists>ten tid seq. op = OReserve ten tid seq"
  shows "budget_ok (run ops db)"
  using assms ReserveCost_budget_ok by (induction ops arbitrary: db) auto

text \<open>C39.  Concurrent reservations cannot overspend: after any interleaving of ReserveCost
  calls no task's consumption exceeds its budget, and a call that then succeeds reserves at
  least one unit and at least the step's estimate, still within the budget.\<close>

theorem reservations_within_budget:
  assumes "budget_ok db" "\<forall>op \<in> set ops. \<exists>ten tid seq. op = OReserve ten tid seq"
    and "ReserveCost False tenant tid seq (run ops db) = Inr (u, db')"
  shows "budget_ok db' \<and> 1 \<le> u
    \<and> (\<forall>r \<in> set (task_steps (run ops db) tenant tid). ps_Seq r = seq \<longrightarrow> ps_EstimatedCost r \<le> u)
    \<and> (\<exists>t. tasks (run ops db) tid = Some t \<and> CostConsumed t + u \<le> CostBudget t)"
proof -
  have "budget_ok (exec (OReserve tenant tid seq) (run ops db))"
    by (rule ReserveCost_budget_ok [OF run_reserve_budget_ok [OF assms(1,2)]])
  then have "budget_ok db'" using assms(3) by simp
  moreover have "u = reserve_units (run ops db) tenant tid seq"
    "\<exists>t. tasks (run ops db) tid = Some t \<and> CostConsumed t + u \<le> CostBudget t"
    using assms(3) by (auto simp: ReserveCost_def Let_def split: if_splits option.splits dest!: visible_task_SomeD)
  ultimately show ?thesis using reserve_units_bounds by blast
qed

theorem reservations_within_budget_witness:
  "\<exists>db'. ReserveCost False ''acme'' ''t1'' 1 (run [OReserve ''acme'' ''t1'' 1] (exec (OCreate example_task) empty_Db)) = Inr (1, db')
     \<and> budget_ok db'"
proof -
  let ?db = "exec (OCreate example_task) empty_Db"
  have b: "budget_ok ?db" by (simp add: Create_def empty_Db_def example_task_def budget_ok_def)
  have "\<exists>db'. ReserveCost False ''acme'' ''t1'' 1 (run [OReserve ''acme'' ''t1'' 1] ?db) = Inr (1, db')"
    by (simp add: Create_def ReserveCost_def reserve_units_def task_steps_def visible_task_def empty_Db_def
        example_task_def)
  then obtain db' where "ReserveCost False ''acme'' ''t1'' 1 (run [OReserve ''acme'' ''t1'' 1] ?db) = Inr (1, db')" by blast
  with reservations_within_budget [OF b _ this] show ?thesis by auto
qed

end
