(* ===== verification/ApprovalGates.thy ===== *)
theory ApprovalGates
  imports TaskStore
begin

text \<open>
  What the approval gates of \<open>TaskStore\<close> guarantee: quorum and separation of duties in
  every reachable state, and the isolation of tenants.
\<close>

section \<open>Approval gates\<close>

lemma int16_le: "int16 n \<le> int n"
proof -
  have "int n mod 65536 \<le> int n" by (rule zmod_le_nonneg_dividend) simp
  then show ?thesis by (auto simp: int16_def Let_def)
qed

definition gate_wf :: "ApprovalRequest \<Rightarrow> bool" where
  "gate_wf a = (1 \<le> RequiresN a \<and> set (ApprovedBy a) \<subseteq> set (ApproverSet a) \<and> distinct (ApprovedBy a)
     \<and> (2 \<le> RequiresN a \<longrightarrow> RequesterID a \<notin> set (ApprovedBy a))
     \<and> (ar_State a = ApprovalPending \<longrightarrow> DeniedBy a = [])
     \<and> (ar_State a = ApprovalApproved \<longrightarrow> DeniedBy a = [] \<and> RequiresN a \<le> int (length (ApprovedBy a))))"

definition gates_wf :: "Db \<Rightarrow> bool" where
  "gates_wf db = list_all gate_wf (approvals db)"

lemma appendUnique_props:
  "set (appendUnique xs v) = insert v (set xs)" "distinct xs \<Longrightarrow> distinct (appendUnique xs v)"
  by (auto simp: appendUnique_def list_ex_iff)

lemma appendUnique_neq_Nil [simp]: "appendUnique xs v \<noteq> []"
  by (auto simp: appendUnique_def list_ex_iff)

lemma vote_tenant: "ar_TenantID (fst (vote who ok a)) = ar_TenantID a"
  by (simp add: vote_def Let_def)

lemma list_all_map_if:
  "list_all P xs \<Longrightarrow> (\<And>x. P x \<Longrightarrow> Q x \<Longrightarrow> P (h x)) \<Longrightarrow> list_all P (map (\<lambda>x. if Q x then h x else x) xs)"
  by (induction xs) auto

lemma vote_gate_wf:
  assumes "gate_wf a" "ar_State a = ApprovalPending" "MayVote (ApproverSet a) (RequesterID a) (RequiresN a) who"
    and "vote who ok a = (a', res)"
  shows "gate_wf a' \<and> ar_TenantID a' = ar_TenantID a \<and> (res \<longleftrightarrow> ar_State a' \<noteq> ApprovalPending)"
proof -
  have mem: "who \<in> set (ApproverSet a)" "2 \<le> RequiresN a \<Longrightarrow> who \<noteq> RequesterID a"
    using assms(3) by (auto simp: MayVote_def inSet_def list_ex_iff split: if_splits)
  have "RequiresN a \<le> int (length xs)" if "RequiresN a \<le> int16 (length xs)" for xs :: "string list"
    using that int16_le [of "length xs"] by linarith
  then show ?thesis using assms mem
    by (auto simp: vote_def gate_wf_def Let_def appendUnique_props split: if_splits)
qed

lemma transitionExec_approvals:
  "transitionExec ten tid a b db = Inr db' \<Longrightarrow> approvals db' = approvals db"
  by (auto dest!: transitionExec_Inr)

text \<open>A vote that the store accepts rewrites one gate of the tenant by \<open>vote\<close>.\<close>

lemma ResolveApproval_approvals:
  assumes "ResolveApproval f now ten aid who ok db = Inr (r, db')"
  shows "\<exists>a. a \<in> set (approvals db) \<and> ar_TenantID a = ten \<and> ar_State a = ApprovalPending
    \<and> MayVote (ApproverSet a) (RequesterID a) (RequiresN a) who
    \<and> ar_TenantID (fst (vote who ok a)) = ten
    \<and> approvals db' = map (\<lambda>x. if ApprovalID x = aid \<and> ar_TenantID x = ten then fst (vote who ok a) else x) (approvals db)"
proof -
  obtain a where a: "List.find (\<lambda>a. ApprovalID a = aid \<and> ar_TenantID a = ten \<and> ExpiresAt a > now) (approvals db) = Some a"
    using assms by (auto simp: ResolveApproval_def split: if_splits option.splits)
  obtain a' res where v: "vote who ok a = (a', res)" by (metis prod.exhaust)
  have ok: "MayVote (ApproverSet a) (RequesterID a) (RequiresN a) who" "ar_State a = ApprovalPending"
    using assms a by (auto simp: ResolveApproval_def split: if_splits)
  have "approvals db' = map (\<lambda>x. if ApprovalID x = aid \<and> ar_TenantID x = ten then a' else x) (approvals db)"
    using assms a v ok
    by (auto simp: ResolveApproval_def Let_def bindE_eq_Inr split: if_splits dest!: transitionExec_approvals)
  then show ?thesis using find_SomeD [OF a] ok v vote_tenant [of who ok a] by (intro exI [of _ a]) simp
qed

lemma ResolveApproval_gates_wf:
  assumes "gates_wf db" "ResolveApproval f now ten aid who ok db = Inr (r, db')"
  shows "gates_wf db'"
proof -
  from ResolveApproval_approvals [OF assms(2)] obtain a where a: "a \<in> set (approvals db)" "ar_State a = ApprovalPending"
      "MayVote (ApproverSet a) (RequesterID a) (RequiresN a) who"
      "approvals db' = map (\<lambda>x. if ApprovalID x = aid \<and> ar_TenantID x = ten then fst (vote who ok a) else x) (approvals db)"
    by blast
  have "gate_wf a" using a(1) assms(1) by (auto simp: gates_wf_def list_all_iff)
  then have "gate_wf (fst (vote who ok a))" using vote_gate_wf a(2,3) by (metis prod.collapse)
  then show ?thesis using assms(1) unfolding gates_wf_def a(4) by (intro list_all_map_if)
qed

lemma ops_approvals [simp]:
  "Create f t db = Inr db' \<Longrightarrow> approvals db' = approvals db"
  "Transition f ten tid a b db = Inr db' \<Longrightarrow> approvals db' = approvals db"
  "ReserveCost f ten tid seq db = Inr (u, db') \<Longrightarrow> approvals db' = approvals db"
  "approvals (snd (IncrementCost f ten tid u db)) = approvals db"
  "approvals (snd (ClaimPlanStep f ten tid seq tool hs db)) = approvals db"
  "InsertPlanSteps f ten tid steps to db = Inr db' \<Longrightarrow> approvals db' = approvals db"
proof -
  show "Create f t db = Inr db' \<Longrightarrow> approvals db' = approvals db"
    by (auto simp: Create_def split: if_splits option.splits)
  show "Transition f ten tid a b db = Inr db' \<Longrightarrow> approvals db' = approvals db"
    by (auto simp: Transition_def transitionExec_approvals split: if_splits)
  show "ReserveCost f ten tid seq db = Inr (u, db') \<Longrightarrow> approvals db' = approvals db"
    by (auto simp: ReserveCost_def Let_def split: if_splits option.splits)
  show "approvals (snd (IncrementCost f ten tid u db)) = approvals db"
    by (simp add: IncrementCost_def Let_def split: option.splits)
  show "approvals (snd (ClaimPlanStep f ten tid seq tool hs db)) = approvals db"
    by (simp add: ClaimPlanStep_def Let_def split: option.splits)
  show "InsertPlanSteps f ten tid steps to db = Inr db' \<Longrightarrow> approvals db' = approvals db"
    by (cases to) (auto simp: InsertPlanSteps_def bindE_eq_Inr transitionExec_approvals split: if_splits option.splits)
qed

lemma close_gate_wf:
  "gate_wf a \<Longrightarrow> gate_wf (a\<lparr>ar_State := ApprovalExpired\<rparr>)"
  "gate_wf a \<Longrightarrow> gate_wf (a\<lparr>ar_State := ApprovalDenied, DeniedBy := d\<rparr>)"
  by (simp_all add: gate_wf_def)

lemma exec_gates_wf:
  assumes "gates_wf db"
  shows "gates_wf (exec op db)"
proof (cases op)
  case (OResolve a b c d e)
  then show ?thesis using assms ResolveApproval_gates_wf by (cases "ResolveApproval False a b c d e db") auto
next
  case (OCreateGate nid ar)
  then show ?thesis using assms by (auto simp: CreateApprovalRequest_def gates_wf_def gate_wf_def)
next
  case (OExpire a b c)
  then show ?thesis using assms unfolding gates_wf_def
    by (simp add: ExpireApproval_def Let_def list_all_map_if close_gate_wf)
next
  case (OWithdraw a b c)
  then show ?thesis using assms unfolding gates_wf_def
    by (simp add: WithdrawApproval_def Let_def list_all_map_if close_gate_wf)
next
  case (OCreate t)
  then show ?thesis using assms by (cases "Create False t db") (simp_all add: gates_wf_def)
next
  case (OTransition a b c d)
  then show ?thesis using assms by (cases "Transition False a b c d db") (simp_all add: gates_wf_def)
next
  case (OReserve a b c)
  then show ?thesis using assms by (cases "ReserveCost False a b c db") (auto simp: gates_wf_def)
next
  case (OInsert a b c d)
  then show ?thesis using assms by (cases "InsertPlanSteps False a b c d db") (auto simp: gates_wf_def)
qed (use assms in \<open>simp_all add: gates_wf_def\<close>)

lemma run_gates_wf: "gates_wf db \<Longrightarrow> gates_wf (run ops db)"
  using exec_gates_wf by (induction ops arbitrary: db) auto

lemma empty_gates_wf: "gates_wf empty_Db"
  by (simp add: gates_wf_def empty_Db_def)

text \<open>C14.  An approval is n-of-m: in every state reached from the empty database, a gate
  in state APPROVED carries no denial and at least requires_n distinct approvers, all of
  them members of its approver set, and never the requester when two or more are needed.\<close>

theorem approved_gate_has_quorum:
  assumes "a \<in> set (approvals (run ops empty_Db))" "ar_State a = ApprovalApproved"
  shows "DeniedBy a = [] \<and> RequiresN a \<le> int (card (set (ApprovedBy a))) \<and> 1 \<le> RequiresN a
    \<and> set (ApprovedBy a) \<subseteq> set (ApproverSet a)
    \<and> (2 \<le> RequiresN a \<longrightarrow> RequesterID a \<notin> set (ApprovedBy a))"
proof -
  have "gate_wf a" using run_gates_wf [OF empty_gates_wf] assms(1) by (auto simp: gates_wf_def list_all_iff)
  then show ?thesis using assms(2) by (auto simp: gate_wf_def distinct_card)
qed

definition example_gate :: ApprovalRequest where
  "example_gate = \<lparr>ApprovalID = ''a1'', ar_TaskID = ''t1'', ar_TenantID = ''acme'', RequesterID = ''bob'',
     Summary = \<lparr>sum_plan_id = ''p1'', sum_reason = ''NEEDS_HUMAN'', sum_step_up = False, sum_n_steps = 1\<rparr>, ApproverSet = [''ann'', ''cid''], RequiresN = 2,
     ApprovedBy = [], DeniedBy = [], ar_State = ApprovalPending, ExpiresAt = 100\<rparr>"

definition example_gate_ops :: "store_op list" where
  "example_gate_ops = [OCreate example_task, OTransition ''acme'' ''t1'' TaskStateCreated TaskStatePlanning,
     OTransition ''acme'' ''t1'' TaskStatePlanning TaskStateValidating, OInsert ''acme'' ''t1'' [] (Some TaskStateAwaitingApproval),
     OCreateGate ''a1'' example_gate, OResolve 1 ''acme'' ''a1'' ''ann'' True, OResolve 2 ''acme'' ''a1'' ''cid'' True]"

lemma example_gate_approved:
  "approvals (run example_gate_ops empty_Db)
     = [example_gate\<lparr>ApprovedBy := [''ann'', ''cid''], ar_State := ApprovalApproved\<rparr>]"
  by code_simp

theorem approved_gate_has_quorum_witness:
  "RequiresN (hd (approvals (run example_gate_ops empty_Db)))
     \<le> int (card (set (ApprovedBy (hd (approvals (run example_gate_ops empty_Db))))))"
  using approved_gate_has_quorum [of "hd (approvals (run example_gate_ops empty_Db))" example_gate_ops]
  by (simp add: example_gate_approved)

section \<open>Tenant isolation\<close>

fun op_tenant :: "store_op \<Rightarrow> string" where
  "op_tenant (OCreate t) = TenantID t"
| "op_tenant (OTransition ten _ _ _) = ten"
| "op_tenant (OReserve ten _ _) = ten"
| "op_tenant (OIncrement ten _ _) = ten"
| "op_tenant (OInsert ten _ _ _) = ten"
| "op_tenant (OClaim ten _ _ _ _) = ten"
| "op_tenant (OCreateGate _ ar) = ar_TenantID ar"
| "op_tenant (OExpire _ ten _) = ten"
| "op_tenant (OWithdraw ten _ _) = ten"
| "op_tenant (OResolve _ ten _ _ _) = ten"

lemma exec_other_tenant:
  assumes "tasks db k = Some t" "TenantID t \<noteq> op_tenant op"
  shows "tasks (exec op db) k = Some t"
proof (cases op)
  case (OCreate n)
  then show ?thesis using assms by (auto simp: or_same_def Create_def split: option.splits)
next
  case (OTransition a b c d)
  then show ?thesis using assms
    by (auto simp: or_same_def Transition_def transitionExec_def visible_task_def split: option.splits)
next
  case (OReserve a b c)
  then show ?thesis using assms
    by (auto simp: or_same_def ReserveCost_def visible_task_def Let_def split: option.splits)
next
  case (OIncrement a b c)
  then show ?thesis using assms by (auto simp: IncrementCost_def visible_task_def Let_def split: option.splits)
next
  case (OInsert a b c d)
  then show ?thesis using assms
    by (cases d) (auto simp: or_same_def InsertPlanSteps_def transitionExec_def visible_task_def split: option.splits)
next
  case (OCreateGate nid ar)
  then show ?thesis using assms by (simp add: CreateApprovalRequest_def)
next
  case (OResolve a b c d e)
  then show ?thesis using assms
    by (auto simp: or_same_def ResolveApproval_def transitionExec_def visible_task_def Let_def bindE_def
        split: option.splits prod.splits)
qed (use assms in simp_all)

lemma exec_other_gates:
  "filter (\<lambda>a. ar_TenantID a \<noteq> op_tenant op) (approvals (exec op db)) = filter (\<lambda>a. ar_TenantID a \<noteq> op_tenant op) (approvals db)"
proof (cases op)
  case (OResolve now ten aid who ok)
  have "filter (\<lambda>a. ar_TenantID a \<noteq> ten) (map (\<lambda>x. if ApprovalID x = aid \<and> ar_TenantID x = ten then a' else x) xs)
      = filter (\<lambda>a. ar_TenantID a \<noteq> ten) xs" if "ar_TenantID a' = ten" for a' xs
    using that by (induction xs) auto
  then have "filter (\<lambda>a. ar_TenantID a \<noteq> ten) (approvals db') = filter (\<lambda>a. ar_TenantID a \<noteq> ten) (approvals db)"
    if "ResolveApproval False now ten aid who ok db = Inr (r, db')" for r db'
    using ResolveApproval_approvals [OF that] by auto
  then show ?thesis using OResolve by (cases "ResolveApproval False now ten aid who ok db") auto
next
  case (OCreateGate nid ar)
  then show ?thesis by (simp add: CreateApprovalRequest_def)
next
  case (OExpire now ten aid)
  have "filter (\<lambda>a. ar_TenantID a \<noteq> ten) (map (\<lambda>a. if ApprovalID a = aid \<and> ar_TenantID a = ten \<and>
      ar_State a = ApprovalPending \<and> ExpiresAt a \<le> now then a\<lparr>ar_State := ApprovalExpired\<rparr> else a) xs)
      = filter (\<lambda>a. ar_TenantID a \<noteq> ten) xs" for xs
    by (induction xs) auto
  then show ?thesis using OExpire by (simp add: ExpireApproval_def Let_def)
next
  case (OWithdraw ten tid who)
  have "filter (\<lambda>a. ar_TenantID a \<noteq> ten) (map (\<lambda>a. if ar_TaskID a = tid \<and> ar_TenantID a = ten \<and>
      ar_State a = ApprovalPending then a\<lparr>ar_State := ApprovalDenied, DeniedBy := DeniedBy a @ [who]\<rparr> else a) xs)
      = filter (\<lambda>a. ar_TenantID a \<noteq> ten) xs" for xs
    by (induction xs) auto
  then show ?thesis using OWithdraw by (simp add: WithdrawApproval_def Let_def)
next
  case (OCreate t)
  then show ?thesis by (cases "Create False t db") simp_all
next
  case (OTransition a b c d)
  then show ?thesis by (cases "Transition False a b c d db") simp_all
next
  case (OReserve a b c)
  then show ?thesis by (cases "ReserveCost False a b c db") auto
next
  case (OInsert a b c d)
  then show ?thesis by (cases "InsertPlanSteps False a b c d db") auto
qed simp_all

text \<open>C40.  Tenants are isolated: whatever calls are made on behalf of other tenants, the
  tasks and the approval gates of a tenant stay exactly as they are.\<close>

theorem tenant_isolation:
  assumes "\<forall>op \<in> set ops. op_tenant op \<noteq> ten"
  shows "(\<forall>k t. tasks db k = Some t \<and> TenantID t = ten \<longrightarrow> tasks (run ops db) k = Some t)
    \<and> filter (\<lambda>a. ar_TenantID a = ten) (approvals (run ops db)) = filter (\<lambda>a. ar_TenantID a = ten) (approvals db)"
  using assms
proof (induction ops arbitrary: db)
  case (Cons op ops)
  have ne: "op_tenant op \<noteq> ten" using Cons.prems by simp
  have sub: "filter (\<lambda>a. ar_TenantID a = ten) xs
      = filter (\<lambda>a. ar_TenantID a = ten) (filter (\<lambda>a. ar_TenantID a \<noteq> op_tenant op) xs)" for xs
    using ne by (simp add: conj_commute cong: filter_cong) (metis (mono_tags, lifting))
  have "filter (\<lambda>a. ar_TenantID a = ten) (approvals (exec op db)) = filter (\<lambda>a. ar_TenantID a = ten) (approvals db)"
    using sub [of "approvals (exec op db)"] sub [of "approvals db"] exec_other_gates [of op db] by simp
  moreover have "\<forall>k t. tasks db k = Some t \<and> TenantID t = ten \<longrightarrow> tasks (exec op db) k = Some t"
    using exec_other_tenant [of db _ _ op] ne by auto
  ultimately show ?case using Cons by simp
qed simp

theorem tenant_isolation_witness:
  "tasks (run [OTransition ''globex'' ''t1'' TaskStateCreated TaskStateCancelled]
      (exec (OCreate example_task) empty_Db)) ''t1'' = Some example_task"
  using tenant_isolation [of "[OTransition ''globex'' ''t1'' TaskStateCreated TaskStateCancelled]" "''acme''"
      "exec (OCreate example_task) empty_Db"]
  by (simp add: Create_def empty_Db_def example_task_def)

end
