(* ===== verification/Identity.thy ===== *)
theory Identity
  imports TaskStore
begin

text \<open>
  Who a call acts for: broker/internal/auth/identity.go, broker/identity.go and the peer
  checks of the south-bound service (scheduler.go requireGatewayPeer, service_plan.go
  southPeer, resolveTenant and southTask).  The identity an interceptor put on the context
  is an argument.  uuid.Parse belongs to a library: whether a text parses is the argument
  \<open>uuid_ok\<close>; a call to OpenFGA is the argument \<open>check\<close>.
\<close>

section \<open>Identities\<close>

text \<open>The fields the modelled code reads; display names, scopes and token times are left out.\<close>

record Identity =
  id_Subject :: string
  id_Email :: string
  id_TenantID :: string
  id_SpiffeID :: string
  id_ACR :: string
  id_ACRS :: "string list"
  id_AMR :: "string list"
  id_AuthTime :: "int option"

definition PrincipalID :: "Identity option \<Rightarrow> string" where
  "PrincipalID i =
     (case i of
        None \<Rightarrow> []
      | Some i \<Rightarrow> if id_Subject i \<noteq> [] then id_Subject i else if id_Email i \<noteq> [] then id_Email i else id_SpiffeID i)"

definition ActorID :: "Identity option \<Rightarrow> string" where
  "ActorID i =
     (case i of
        None \<Rightarrow> []
      | Some i \<Rightarrow> if id_Email i \<noteq> [] then id_Email i else if id_Subject i \<noteq> [] then id_Subject i else id_SpiffeID i)"

section \<open>North-bound callers (broker/identity.go)\<close>

definition reservedPrincipalPrefix :: "string \<Rightarrow> string" where
  "reservedPrincipalPrefix user =
     (if HasPrefix user ''svc-'' then ''svc-'' else if HasPrefix user ''group-'' then ''group-'' else [])"

definition caller_tenant :: "Identity option \<Rightarrow> string \<Rightarrow> (rpc_error, string) result" where
  "caller_tenant ident reqTenant =
     (case ident of
        Some i \<Rightarrow>
          if id_TenantID i \<noteq> [] then
            (if reqTenant \<noteq> [] \<and> reqTenant \<noteq> id_TenantID i
             then Inl (Status PermissionDenied ''tenant_id does not match the authenticated identity'')
             else Inr (id_TenantID i))
          else Inr reqTenant
      | None \<Rightarrow> Inr reqTenant)"

definition caller_user :: "Identity option \<Rightarrow> string \<Rightarrow> (rpc_error, string) result" where
  "caller_user ident reqUser =
     (if PrincipalID ident \<noteq> [] then
        (if reqUser \<noteq> [] \<and> reqUser \<noteq> PrincipalID ident
         then Inl (Status PermissionDenied ''user_id does not match the authenticated identity'')
         else Inr (PrincipalID ident))
      else Inr reqUser)"

definition callerIdentity :: "(string \<Rightarrow> bool) \<Rightarrow> Identity option \<Rightarrow> string \<Rightarrow> string \<Rightarrow> (rpc_error, string \<times> string) result" where
  "callerIdentity uuid_ok ident reqTenant reqUser =
     bindE (caller_tenant ident reqTenant) (\<lambda>tenant.
       if \<not> uuid_ok tenant then Inl (Status InvalidArgument ''invalid tenant_id'')
       else bindE (caller_user ident reqUser) (\<lambda>user.
         if user = [] then Inl (Status InvalidArgument ''user_id required'')
         else if reservedPrincipalPrefix user \<noteq> []
         then Inl (Status PermissionDenied (reservedPrincipalPrefix user @ '' user_id not permitted on the north-bound API''))
         else Inr (tenant, user)))"

type_synonym fga_check = "string \<Rightarrow> string \<Rightarrow> string \<Rightarrow> (unit, bool) result"

definition requireTenantAdmin :: "fga_check \<Rightarrow> string \<Rightarrow> string \<Rightarrow> (rpc_error, unit) result" where
  "requireTenantAdmin check fgaTenant user =
     (case check (''user:'' @ user) ''admin'' fgaTenant of
        Inl _ \<Rightarrow> Inl (Status Internal ''authorization check failed'')
      | Inr ok \<Rightarrow> if ok then Inr () else Inl (Status PermissionDenied ''tenant admin required''))"

section \<open>South-bound callers\<close>

definition requireGatewayPeer :: "string \<Rightarrow> bool \<Rightarrow> Identity option \<Rightarrow> (rpc_error, unit) result" where
  "requireGatewayPeer gatewaySpiffeID devMode ident =
     (case ident of
        None \<Rightarrow> Inl (Status PermissionDenied ''peer identity required'')
      | Some i \<Rightarrow>
          if id_SpiffeID i = [] then Inl (Status PermissionDenied ''peer identity required'')
          else if gatewaySpiffeID = [] \<and> \<not> devMode then Inl (Status PermissionDenied ''agent-gateway identity not configured'')
          else if gatewaySpiffeID \<noteq> [] \<and> id_SpiffeID i \<noteq> gatewaySpiffeID
          then Inl (Status PermissionDenied ''not the agent-gateway identity'')
          else Inr ())"

definition devUnverifiedPeer :: string where
  "devUnverifiedPeer = ''spiffe://aikonos.com/sandbox/dev-unverified''"

definition southPeer :: "bool \<Rightarrow> Identity option \<Rightarrow> string \<Rightarrow> (rpc_error, string) result" where
  "southPeer devMode ident claimed =
     (let verified = (case ident of Some i \<Rightarrow> id_SpiffeID i | None \<Rightarrow> []) in
      if verified = [] then
        (if devMode then Inr devUnverifiedPeer else Inl (Status Unauthenticated ''no verified SPIFFE peer identity''))
      else if claimed \<noteq> [] \<and> claimed \<noteq> verified
      then Inl (Status PermissionDenied ''sandbox_spiffe_id does not match the verified peer identity'')
      else Inr verified)"

definition resolveTenant :: "Identity option \<Rightarrow> string \<Rightarrow> string \<Rightarrow> string" where
  "resolveTenant ident defaultTenant reqTenant =
     (if reqTenant \<noteq> [] then reqTenant
      else case ident of Some i \<Rightarrow> if id_TenantID i \<noteq> [] then id_TenantID i else defaultTenant | None \<Rightarrow> defaultTenant)"

text \<open>A load error is passed on; a tenant that differs from the row's is refused.\<close>

datatype south_error = SouthDb db_error | SouthStatus rpc_error

definition southTask :: "bool \<Rightarrow> Identity option \<Rightarrow> string \<Rightarrow> string \<Rightarrow> string \<Rightarrow> Db \<Rightarrow> (south_error, Task \<times> string) result" where
  "southTask fail ident defaultTenant reqTenant taskID db =
     (case Get fail (resolveTenant ident defaultTenant reqTenant) taskID db of
        Inl e \<Rightarrow> Inl (SouthDb e)
      | Inr t \<Rightarrow>
          if reqTenant \<noteq> [] \<and> \<not> EqualFold reqTenant (TenantID t)
          then Inl (SouthStatus (Status PermissionDenied ''tenant_id does not match the task's tenant''))
          else Inr (t, TenantID t))"

section \<open>Lemmas\<close>

lemma southTask_Inr:
  assumes "southTask fail ident d rt tid db = Inr (t, tenant)"
  shows "tasks db tid = Some t" "tenant = TenantID t" "visible_task db (TenantID t) tid = Some t" "\<not> fail"
  using assms
  by (auto simp: southTask_def Get_def visible_task_def split: sum.splits if_splits option.splits)

text \<open>
  A call never acts for a principal other than the verified one, and never as a reserved
  principal.
\<close>

lemma callerIdentity_bound:
  assumes "callerIdentity uuid_ok (Some i) rt ru = Inr (tenant, user)"
  shows "id_TenantID i \<noteq> [] \<Longrightarrow> tenant = id_TenantID i" "PrincipalID (Some i) \<noteq> [] \<Longrightarrow> user = PrincipalID (Some i)"
    and "\<not> HasPrefix user ''svc-''" "\<not> HasPrefix user ''group-''" "user \<noteq> []" "uuid_ok tenant"
  using assms
  by (auto simp: callerIdentity_def caller_tenant_def caller_user_def bindE_eq_Inr reservedPrincipalPrefix_def
      split: if_splits)

end
