(* ===== verification/EffectClass.thy ===== *)
theory EffectClass
  imports Prelude "HOL-Library.List_Lexorder" "HOL-Library.Char_ord"
begin

text \<open>
  Package broker/internal/effectclass: the canonical table of effect classes, the
  severity buckets that order them, the lookups by class and by rego name, and the
  text block the policy generator writes.  The interface \<open>strictest\<close> is the law of
  every "the stricter one wins" combination of the broker; it is interpreted here
  on \<open>Stricter\<close> and by the network rules and the routing layers in their theories.
\<close>

section \<open>Effect classes\<close>

text \<open>
  The proto enum EffectClass is an open 32 bit enum: every number outside 0..8 is a
  value too.  \<open>EffectClass_other i\<close> stands for the number \<open>i\<close> when \<open>i\<close> is negative and
  for \<open>i + 9\<close> otherwise, so that the numbers and the constructors correspond one to one.
\<close>

datatype effect_class =
    EFFECT_CLASS_UNSPECIFIED | READ_ONLY | WRITE_LOCAL | WRITE_INTERNAL | WRITE_EXTERNAL
  | NETWORK_EGRESS | CREDENTIAL_ACCESS | DESTRUCTIVE | INFRASTRUCTURE
  | EffectClass_other int

fun ec_number :: "effect_class \<Rightarrow> int" where
  "ec_number EFFECT_CLASS_UNSPECIFIED = 0"
| "ec_number READ_ONLY = 1"
| "ec_number WRITE_LOCAL = 2"
| "ec_number WRITE_INTERNAL = 3"
| "ec_number WRITE_EXTERNAL = 4"
| "ec_number NETWORK_EGRESS = 5"
| "ec_number CREDENTIAL_ACCESS = 6"
| "ec_number DESTRUCTIVE = 7"
| "ec_number INFRASTRUCTURE = 8"
| "ec_number (EffectClass_other i) = (if i < 0 then i else i + 9)"

lemma ec_number_inject: "ec_number a = ec_number b \<longleftrightarrow> a = b"
  by (cases a; cases b; simp split: if_splits; linarith?)

instantiation effect_class :: linorder
begin

definition less_eq_effect_class :: "effect_class \<Rightarrow> effect_class \<Rightarrow> bool" where
  "less_eq_effect_class a b = (ec_number a \<le> ec_number b)"

definition less_effect_class :: "effect_class \<Rightarrow> effect_class \<Rightarrow> bool" where
  "less_effect_class a b = (ec_number a < ec_number b)"

instance
  by standard (auto simp: less_eq_effect_class_def less_effect_class_def ec_number_inject)

end

section \<open>Severity (severity.go)\<close>

definition severityTable :: "(effect_class \<times> nat) list" where
  "severityTable =
     [(READ_ONLY, 1), (WRITE_LOCAL, 1), (WRITE_EXTERNAL, 2), (NETWORK_EGRESS, 2),
      (CREDENTIAL_ACCESS, 3), (DESTRUCTIVE, 3), (INFRASTRUCTURE, 3), (WRITE_INTERNAL, 4)]"

definition Severity :: "effect_class \<Rightarrow> nat" where
  "Severity ec = (case map_of severityTable ec of Some s \<Rightarrow> s | None \<Rightarrow> 4)"

definition Stricter :: "effect_class \<Rightarrow> effect_class \<Rightarrow> effect_class" where
  "Stricter a b = (if Severity b > Severity a then b else a)"

text \<open>sensitivity.go\<close>

definition ReadsSensitive :: "effect_class \<Rightarrow> bool" where
  "ReadsSensitive ec = (ec = READ_ONLY)"

section \<open>The canonical registry (registry.go)\<close>

record Routing =
  Auto :: bool
  RequireApproval :: bool
  RequireStepUp :: bool

record Entry =
  EClass :: effect_class
  Rego :: string
  ERouting :: Routing
  ERuntime :: string

definition zero_Routing :: Routing where
  "zero_Routing = \<lparr>Auto = False, RequireApproval = False, RequireStepUp = False\<rparr>"

definition canonical :: "Entry list" where
  "canonical =
    [\<lparr>EClass = READ_ONLY, Rego = ''read_only'',
      ERouting = zero_Routing\<lparr>Auto := True\<rparr>, ERuntime = ''gvisor''\<rparr>,
     \<lparr>EClass = WRITE_LOCAL, Rego = ''write_local'',
      ERouting = zero_Routing\<lparr>Auto := True\<rparr>, ERuntime = ''gvisor''\<rparr>,
     \<lparr>EClass = WRITE_INTERNAL, Rego = ''write_internal'',
      ERouting = zero_Routing, ERuntime = ''gvisor''\<rparr>,
     \<lparr>EClass = WRITE_EXTERNAL, Rego = ''write_external'',
      ERouting = zero_Routing\<lparr>RequireApproval := True\<rparr>, ERuntime = ''gvisor''\<rparr>,
     \<lparr>EClass = NETWORK_EGRESS, Rego = ''network_egress'',
      ERouting = zero_Routing\<lparr>RequireApproval := True\<rparr>, ERuntime = ''gvisor''\<rparr>,
     \<lparr>EClass = CREDENTIAL_ACCESS, Rego = ''credential_access'',
      ERouting = zero_Routing\<lparr>RequireApproval := True, RequireStepUp := True\<rparr>, ERuntime = ''kata''\<rparr>,
     \<lparr>EClass = DESTRUCTIVE, Rego = ''destructive'',
      ERouting = zero_Routing\<lparr>RequireApproval := True, RequireStepUp := True\<rparr>, ERuntime = ''kata''\<rparr>,
     \<lparr>EClass = INFRASTRUCTURE, Rego = ''infrastructure'',
      ERouting = zero_Routing\<lparr>RequireApproval := True, RequireStepUp := True\<rparr>, ERuntime = ''kata''\<rparr>]"

definition indexByClass :: "effect_class \<rightharpoonup> Entry" where
  "indexByClass = foldl (\<lambda>m e. m(EClass e \<mapsto> e)) Map.empty canonical"

definition indexByRego :: "string \<rightharpoonup> Entry" where
  "indexByRego = foldl (\<lambda>m e. m(Rego e \<mapsto> e)) Map.empty canonical"

definition All :: "Entry list" where
  "All = sort_key EClass canonical"

text \<open>\<open>enum_string\<close> stands for the generated method EffectClass.String.\<close>

definition RegoString :: "(effect_class \<Rightarrow> string) \<Rightarrow> effect_class \<Rightarrow> string" where
  "RegoString enum_string ec =
     (if ec = EFFECT_CLASS_UNSPECIFIED then []
      else case indexByClass ec of Some e \<Rightarrow> Rego e | None \<Rightarrow> ToLower (enum_string ec))"

definition Runtime :: "effect_class \<Rightarrow> string" where
  "Runtime ec = (case indexByClass ec of Some e \<Rightarrow> ERuntime e | None \<Rightarrow> ''gvisor'')"

definition RuntimeForRego :: "string \<Rightarrow> string" where
  "RuntimeForRego s = (case indexByRego s of Some e \<Rightarrow> ERuntime e | None \<Rightarrow> ''gvisor'')"

definition RoutingForClass :: "effect_class \<Rightarrow> Routing" where
  "RoutingForClass ec = (case indexByClass ec of Some e \<Rightarrow> ERouting e | None \<Rightarrow> zero_Routing)"

definition RoutingForRego :: "string \<Rightarrow> Routing" where
  "RoutingForRego s = (case indexByRego s of Some e \<Rightarrow> ERouting e | None \<Rightarrow> zero_Routing)"

section \<open>The generated policy block (render.go)\<close>

definition renderSet :: "string \<Rightarrow> string list \<Rightarrow> string" where
  "renderSet name members =
     (let quoted = map (\<lambda>m. [CHR 0x22] @ m @ [CHR 0x22]) members
      in name @ '' := {'' @ Join quoted '', '' @ ''}'')"

definition rego_members :: "(Routing \<Rightarrow> bool) \<Rightarrow> string list" where
  "rego_members flag = sort (map Rego (filter (\<lambda>e. flag (ERouting e)) All))"

definition RenderRoutingBlock :: string where
  "RenderRoutingBlock =
     renderSet ''auto_classes'' (rego_members Auto) @ [CHR 0x0A, CHR 0x0A] @
     renderSet ''approval_classes'' (rego_members RequireApproval) @ [CHR 0x0A, CHR 0x0A] @
     renderSet ''stepup_classes'' (rego_members RequireStepUp) @ [CHR 0x0A, CHR 0x0A]"

section \<open>The strictest-wins interface\<close>

locale strictest =
  fixes sev :: "'a \<Rightarrow> nat" and join :: "'a \<Rightarrow> 'a \<Rightarrow> 'a"
  assumes sev_join: "sev (join a b) = max (sev a) (sev b)"
    and join_sel: "join a b = a \<or> join a b = b"
begin

lemma join_upper: "sev a \<le> sev (join a b)" "sev b \<le> sev (join a b)"
  by (simp_all add: sev_join)

lemma foldl_sev: "sev (foldl join a xs) = Max (insert (sev a) (sev ` set xs))"
proof (induction xs arbitrary: a)
  case (Cons x xs)
  then show ?case
    by (cases "xs = []") (simp_all add: sev_join max.assoc)
qed simp

lemma foldl_in: "foldl join a xs \<in> insert a (set xs)"
proof (induction xs arbitrary: a)
  case (Cons x xs)
  from Cons [of "join a x"] join_sel [of a x] show ?case by auto
qed simp

lemma foldl_upper: "y \<in> insert a (set xs) \<Longrightarrow> sev y \<le> sev (foldl join a xs)"
  by (auto simp: foldl_sev)

end

interpretation ec: strictest Severity Stricter
  by unfold_locales (simp_all add: Stricter_def max_def)

section \<open>Lemmas\<close>

lemma Severity_simps [simp, sev_simps]:
  "Severity READ_ONLY = 1" "Severity WRITE_LOCAL = 1"
  "Severity WRITE_EXTERNAL = 2" "Severity NETWORK_EGRESS = 2"
  "Severity CREDENTIAL_ACCESS = 3" "Severity DESTRUCTIVE = 3" "Severity INFRASTRUCTURE = 3"
  "Severity WRITE_INTERNAL = 4" "Severity EFFECT_CLASS_UNSPECIFIED = 4"
  "Severity (EffectClass_other i) = 4"
  by (simp_all add: Severity_def severityTable_def)

lemma indexByClass_simps [simp]:
  "indexByClass EFFECT_CLASS_UNSPECIFIED = None"
  "indexByClass (EffectClass_other i) = None"
  "indexByClass READ_ONLY = Some (canonical ! 0)"
  "indexByClass WRITE_LOCAL = Some (canonical ! 1)"
  "indexByClass WRITE_INTERNAL = Some (canonical ! 2)"
  "indexByClass WRITE_EXTERNAL = Some (canonical ! 3)"
  "indexByClass NETWORK_EGRESS = Some (canonical ! 4)"
  "indexByClass CREDENTIAL_ACCESS = Some (canonical ! 5)"
  "indexByClass DESTRUCTIVE = Some (canonical ! 6)"
  "indexByClass INFRASTRUCTURE = Some (canonical ! 7)"
  by (simp_all add: indexByClass_def canonical_def)

lemma RoutingForClass_simps [simp]:
  "RoutingForClass READ_ONLY = zero_Routing\<lparr>Auto := True\<rparr>"
  "RoutingForClass WRITE_LOCAL = zero_Routing\<lparr>Auto := True\<rparr>"
  "RoutingForClass WRITE_INTERNAL = zero_Routing"
  "RoutingForClass WRITE_EXTERNAL = zero_Routing\<lparr>RequireApproval := True\<rparr>"
  "RoutingForClass NETWORK_EGRESS = zero_Routing\<lparr>RequireApproval := True\<rparr>"
  "RoutingForClass CREDENTIAL_ACCESS = zero_Routing\<lparr>RequireApproval := True, RequireStepUp := True\<rparr>"
  "RoutingForClass DESTRUCTIVE = zero_Routing\<lparr>RequireApproval := True, RequireStepUp := True\<rparr>"
  "RoutingForClass INFRASTRUCTURE = zero_Routing\<lparr>RequireApproval := True, RequireStepUp := True\<rparr>"
  "RoutingForClass EFFECT_CLASS_UNSPECIFIED = zero_Routing"
  "RoutingForClass (EffectClass_other i) = zero_Routing"
  by (simp_all add: RoutingForClass_def, simp_all add: canonical_def)

lemma rego_lookup_all:
  "list_all (\<lambda>e. indexByRego (Rego e) = Some e \<and> indexByClass (EClass e) = Some e) canonical"
  by code_simp

lemma rego_lookup:
  "e \<in> set canonical \<Longrightarrow> indexByRego (Rego e) = Some e \<and> indexByClass (EClass e) = Some e"
  using rego_lookup_all by (simp add: list_all_iff)

lemma indexByClass_Some: "indexByClass ec = Some e \<Longrightarrow> e \<in> set canonical \<and> EClass e = ec"
  by (cases ec) (auto simp: canonical_def)

section \<open>Properties\<close>

text \<open>Combining effect classes by \<open>Stricter\<close> in any number of steps yields one of
  the classes combined, at the highest severity among them: routing escalates and
  never relaxes.\<close>

theorem Stricter_never_relaxes:
  "foldl Stricter declared ecs \<in> insert declared (set ecs)
   \<and> Severity (foldl Stricter declared ecs) = Max (insert (Severity declared) (Severity ` set ecs))"
  using ec.foldl_in ec.foldl_sev by blast

text \<open>The severity bucket that a row of the routing table stands for.\<close>

definition routing_bucket :: "Routing \<Rightarrow> nat" where
  "routing_bucket r =
     (if Auto r then 1 else if RequireStepUp r then 3 else if RequireApproval r then 2 else 4)"

text \<open>The two tables of the package agree on every value of the open enum: the
  severity of a class is the bucket its routing flags describe, a class that needs a
  step-up also needs an approval, and no class is both automatic and gated.\<close>

theorem severity_matches_routing:
  "Severity ec = routing_bucket (RoutingForClass ec)
   \<and> (RequireStepUp (RoutingForClass ec) \<longrightarrow> RequireApproval (RoutingForClass ec))
   \<and> \<not> (Auto (RoutingForClass ec) \<and> RequireApproval (RoutingForClass ec))"
  by (cases ec) (simp_all add: routing_bucket_def zero_Routing_def)

theorem severity_matches_routing_witness:
  "Severity DESTRUCTIVE = routing_bucket (RoutingForClass DESTRUCTIVE)
   \<and> RequireStepUp (RoutingForClass DESTRUCTIVE) \<and> RequireApproval (RoutingForClass DESTRUCTIVE)"
  using severity_matches_routing [of DESTRUCTIVE] by (simp add: zero_Routing_def)

text \<open>The index by rego name and the index by class are the same table: looking a
  class's rego name up gives the routing and the runtime of the class, and rego names
  are distinct.\<close>

theorem rego_index_roundtrip:
  assumes "indexByClass ec \<noteq> None"
  shows "RoutingForRego (RegoString enum_string ec) = RoutingForClass ec
    \<and> RuntimeForRego (RegoString enum_string ec) = Runtime ec
    \<and> (\<forall>ec'. indexByClass ec' \<noteq> None \<and> RegoString enum_string ec' = RegoString enum_string ec \<longrightarrow> ec' = ec)"
proof -
  from assms obtain e where e: "indexByClass ec = Some e" by auto
  then have ne: "ec \<noteq> EFFECT_CLASS_UNSPECIFIED" by auto
  have str: "RegoString enum_string ec = Rego e" using e ne by (simp add: RegoString_def)
  have idx: "indexByRego (Rego e) = Some e" using indexByClass_Some [OF e] rego_lookup by blast
  have inj: "ec' = ec" if "indexByClass ec' \<noteq> None" "RegoString enum_string ec' = Rego e" for ec'
  proof -
    from that(1) obtain e' where e': "indexByClass ec' = Some e'" by auto
    then have "Rego e' = Rego e" using that(2) by (auto simp: RegoString_def split: if_splits)
    then have "e' = e" using idx indexByClass_Some [OF e'] rego_lookup [of e'] by simp
    then show ?thesis using indexByClass_Some [OF e] indexByClass_Some [OF e'] by simp
  qed
  then show ?thesis
    by (simp add: str RoutingForRego_def RuntimeForRego_def RoutingForClass_def Runtime_def e idx)
qed

theorem rego_index_roundtrip_witness:
  "indexByClass NETWORK_EGRESS \<noteq> None
   \<and> RoutingForRego (RegoString (\<lambda>_. ''x'') NETWORK_EGRESS) = RoutingForClass NETWORK_EGRESS"
  using rego_index_roundtrip [of NETWORK_EGRESS "\<lambda>_. ''x''"] by simp

lemma All_eq_canonical: "All = canonical"
  by (simp add: All_def canonical_def less_eq_effect_class_def)

text \<open>The block written into tool_invocation.rego is exactly the three sets of the
  table, in alphabetical order.\<close>

theorem RenderRoutingBlock_text:
  "rego_members Auto = [''read_only'', ''write_local'']
   \<and> rego_members RequireApproval =
       [''credential_access'', ''destructive'', ''infrastructure'', ''network_egress'', ''write_external'']
   \<and> rego_members RequireStepUp = [''credential_access'', ''destructive'', ''infrastructure'']"
  by (simp add: rego_members_def All_eq_canonical, simp add: canonical_def zero_Routing_def)

end
