(* ===== verification/PolicyGates.thy ===== *)
theory PolicyGates
  imports EffectClass
begin

text \<open>
  Package broker/internal/policy: the OPA client (engine.go) and the aggregation of the
  core tool gate with the extra gates (gates.go).  OPA itself is not part of the source:
  what it answers to a query is an argument, an \<open>opa_response\<close> per path and input.
\<close>

section \<open>Inputs and results\<close>

record ToolQuery =
  q_UserID :: string
  q_TenantID :: string
  q_ToolID :: string
  q_EffectClass :: effect_class
  q_RiskScore :: int
  q_ResourceRef :: string
  q_ResourceSensitivity :: string
  q_ActorSpiffeID :: string
  q_IsOnCall :: bool
  q_IsApproved :: bool
  q_ReadsSensitive :: bool
  q_HasDLPAttestation :: bool
  q_FGADecision :: string

definition zero_ToolQuery :: ToolQuery where
  "zero_ToolQuery = \<lparr>q_UserID = [], q_TenantID = [], q_ToolID = [], q_EffectClass = EFFECT_CLASS_UNSPECIFIED,
     q_RiskScore = 0, q_ResourceRef = [], q_ResourceSensitivity = [], q_ActorSpiffeID = [],
     q_IsOnCall = False, q_IsApproved = False, q_ReadsSensitive = False, q_HasDLPAttestation = False,
     q_FGADecision = []\<rparr>"

text \<open>The document posted as OPA's input; the clock is the hour and the lower case day.\<close>

record ToolInput =
  in_fga_decision :: string
  in_tool_id :: string
  in_effect_class :: string
  in_risk_score :: int
  in_is_on_call :: bool
  in_sensitivity :: string
  in_is_approved :: bool
  in_reads_sensitive :: bool
  in_has_dlp_attestation :: bool
  in_spiffe_id :: string
  in_hour :: nat
  in_day :: string

definition effectClassString :: "(effect_class \<Rightarrow> string) \<Rightarrow> effect_class \<Rightarrow> string" where
  "effectClassString enum_string ec =
     (let s = RegoString enum_string ec in if s \<noteq> [] then s else ''unspecified'')"

definition buildToolInput :: "(effect_class \<Rightarrow> string) \<Rightarrow> nat \<times> string \<Rightarrow> ToolQuery \<Rightarrow> ToolInput" where
  "buildToolInput enum_string clock q =
     \<lparr>in_fga_decision = (if q_FGADecision q = [] then ''allow'' else q_FGADecision q),
      in_tool_id = q_ToolID q, in_effect_class = effectClassString enum_string (q_EffectClass q),
      in_risk_score = q_RiskScore q, in_is_on_call = q_IsOnCall q,
      in_sensitivity = q_ResourceSensitivity q, in_is_approved = q_IsApproved q,
      in_reads_sensitive = q_ReadsSensitive q, in_has_dlp_attestation = q_HasDLPAttestation q,
      in_spiffe_id = q_ActorSpiffeID q, in_hour = fst clock, in_day = snd clock\<rparr>"

record GateResult =
  gr_Allow :: bool
  gr_RequireApproval :: bool
  gr_RequireStepUp :: bool
  gr_Deny :: bool
  gr_DenyReasons :: "string list"

definition zero_GateResult :: GateResult where
  "zero_GateResult = \<lparr>gr_Allow = False, gr_RequireApproval = False, gr_RequireStepUp = False,
     gr_Deny = False, gr_DenyReasons = []\<rparr>"

section \<open>Querying OPA (engine.go)\<close>

text \<open>
  What the HTTP exchange yields: no response, a response with a status and a body.  The
  body decodes or not; it carries the decision id, the revision of the configured bundle
  (empty when absent) and a result document, which is missing, of the wrong shape, or good.
\<close>

datatype 'a opa_result = Result_absent | Result_malformed | Result_doc 'a

record 'a opa_body =
  ob_decision_id :: string
  ob_revision :: string
  ob_result :: "'a opa_result"

datatype 'a opa_response = Request_failed | Response nat "'a opa_body option"

datatype policy_error = OpaRequest | OpaStatus | OpaDecode | ErrPolicyNotLoaded | OpaUnmarshal
  | NilDecision | SettingUnreadable

record opaMeta =
  m_Revision :: string
  m_DecisionID :: string

text \<open>\<open>bundle\<close> is cfg.PolicyBundle; the answer is the document, or \<open>None\<close> when undefined.\<close>

definition queryOPA :: "string \<Rightarrow> 'a opa_response \<Rightarrow> (policy_error, 'a option) result \<times> opaMeta" where
  "queryOPA bundle resp =
     (let none = \<lparr>m_Revision = [], m_DecisionID = []\<rparr> in
      case resp of
        Request_failed \<Rightarrow> (Inl OpaRequest, none)
      | Response st body \<Rightarrow>
          if st \<noteq> 200 then (Inl OpaStatus, none)
          else case body of
                 None \<Rightarrow> (Inl OpaDecode, none)
               | Some b \<Rightarrow>
                   let meta = \<lparr>m_Revision = (if bundle \<noteq> [] then ob_revision b else []),
                               m_DecisionID = ob_decision_id b\<rparr> in
                   if bundle \<noteq> [] \<and> m_Revision meta = [] then (Inl ErrPolicyNotLoaded, meta)
                   else case ob_result b of
                          Result_absent \<Rightarrow> (Inr None, meta)
                        | Result_malformed \<Rightarrow> (Inl OpaUnmarshal, meta)
                        | Result_doc d \<Rightarrow> (Inr (Some d), meta))"

type_synonym opa = "string \<Rightarrow> ToolInput \<Rightarrow> GateResult opa_response"

definition evaluateGate :: "opa \<Rightarrow> string \<Rightarrow> string \<Rightarrow> ToolInput \<Rightarrow> (policy_error, GateResult) result \<times> opaMeta" where
  "evaluateGate opa bundle path input =
     (case queryOPA bundle (opa path input) of
        (Inl e, meta) \<Rightarrow> (Inl e, meta)
      | (Inr None, meta) \<Rightarrow> (Inr zero_GateResult, meta)
      | (Inr (Some res), meta) \<Rightarrow> (Inr res, meta))"

section \<open>Extra gates (gates.go)\<close>

record ToolGate =
  g_Name :: string
  g_Path :: string

definition tool_gate_of :: "string \<Rightarrow> ToolGate option" where
  "tool_gate_of raw =
     (let entry = TrimSpace raw in
      if entry = [] then None
      else case IndexByte entry (CHR ''='') of
             None \<Rightarrow> None
           | Some idx \<Rightarrow>
               if idx = 0 \<or> idx = length entry - 1 then None
               else let name = TrimSpace (take idx entry); path = TrimSpace (drop (idx + 1) entry)
                    in if name = [] \<or> path = [] then None else Some \<lparr>g_Name = name, g_Path = path\<rparr>)"

definition ParseToolGates :: "string \<Rightarrow> ToolGate list" where
  "ParseToolGates s = (if s = [] then [] else List.map_filter tool_gate_of (Split s (CHR '','')))"

definition RegisterToolGate :: "string \<Rightarrow> string \<Rightarrow> ToolGate list \<Rightarrow> ToolGate list" where
  "RegisterToolGate name path gates =
     (if list_ex (\<lambda>g. g_Path g = path) gates then gates
      else gates @ [\<lparr>g_Name = name, g_Path = path\<rparr>])"

definition gateIsDeny :: "GateResult \<Rightarrow> bool" where
  "gateIsDeny r = (gr_Deny r \<or> length (gr_DenyReasons r) > 0)"

record GateEvidence =
  ge_Query :: string
  ge_Revision :: string
  ge_DecisionID :: string
  ge_Error :: "policy_error option"

text \<open>The variables of the loop of aggregateExtraGates.\<close>

record agg =
  anyDeny :: bool
  needsApproval :: bool
  needsStepUp :: bool
  reasons :: "string list"
  decidingPath :: string
  evidence :: "GateEvidence list"

definition core_path :: string where
  "core_path = ''opa:tool_invocation''"

definition attribute :: "string \<Rightarrow> agg \<Rightarrow> agg" where
  "attribute path a = (if decidingPath a = core_path then a\<lparr>decidingPath := ''opa:'' @ path\<rparr> else a)"

definition agg_gate :: "opa \<Rightarrow> string \<Rightarrow> ToolInput \<Rightarrow> agg \<Rightarrow> ToolGate \<Rightarrow> agg" where
  "agg_gate opa bundle input a gate =
     (case evaluateGate opa bundle (g_Path gate) input of
        (Inl e, meta) \<Rightarrow>
          attribute (g_Path gate)
            (a\<lparr>anyDeny := True, reasons := reasons a @ [''policy gate evaluation failed''],
               evidence := evidence a @ [\<lparr>ge_Query = g_Path gate, ge_Revision = m_Revision meta,
                 ge_DecisionID = m_DecisionID meta, ge_Error = Some e\<rparr>]\<rparr>)
      | (Inr gr, meta) \<Rightarrow>
          (let a0 = a\<lparr>evidence := evidence a @ [\<lparr>ge_Query = g_Path gate, ge_Revision = m_Revision meta,
                 ge_DecisionID = m_DecisionID meta, ge_Error = None\<rparr>]\<rparr>;
               a1 = (if gateIsDeny gr
                     then attribute (g_Path gate) (a0\<lparr>anyDeny := True, reasons := reasons a0 @ gr_DenyReasons gr\<rparr>)
                     else a0);
               a2 = (if gr_RequireApproval gr then attribute (g_Path gate) (a1\<lparr>needsApproval := True\<rparr>) else a1)
           in (if gr_RequireStepUp gr then a2\<lparr>needsStepUp := True\<rparr> else a2)))"

definition aggregateExtraGates ::
  "opa \<Rightarrow> string \<Rightarrow> ToolGate list \<Rightarrow> ToolInput \<Rightarrow> GateResult \<Rightarrow> GateResult \<times> string \<times> GateEvidence list" where
  "aggregateExtraGates opa bundle gates input core =
     (if gates = [] then (core, core_path, [])
      else
        let a = foldl (agg_gate opa bundle input)
              \<lparr>anyDeny = gateIsDeny core, needsApproval = gr_RequireApproval core,
               needsStepUp = gr_RequireStepUp core, reasons = gr_DenyReasons core,
               decidingPath = core_path, evidence = []\<rparr> gates
        in (\<lparr>gr_Allow = gr_Allow core \<and> \<not> anyDeny a, gr_RequireApproval = needsApproval a,
             gr_RequireStepUp = needsStepUp a, gr_Deny = anyDeny a, gr_DenyReasons = reasons a\<rparr>,
            decidingPath a, evidence a))"

section \<open>Decisions\<close>

record Evidence =
  ev_Query :: string
  ev_Revision :: string
  ev_DecisionID :: string
  ev_Input :: ToolInput
  ev_Gates :: "GateEvidence list"

record Decision =
  d_Allow :: bool
  NeedsApproval :: bool
  NeedsStepUp :: bool
  d_Deny :: bool
  Reason :: string
  Reasons :: "string list"
  PolicyRuleID :: string
  DEvidence :: "Evidence option"

text \<open>
  The engine: the OPA endpoint, the configured bundle and the registered gates.
\<close>

record Engine =
  opaBase :: opa
  PolicyBundle :: string
  extraToolGates :: "ToolGate list"

definition DecideToolCall ::
  "(effect_class \<Rightarrow> string) \<Rightarrow> Engine \<Rightarrow> nat \<times> string \<Rightarrow> ToolQuery \<Rightarrow> (policy_error, Decision) result" where
  "DecideToolCall enum_string e clock q =
     (let input = buildToolInput enum_string clock q in
      case evaluateGate (opaBase e) (PolicyBundle e) ''aikonos/tool_invocation'' input of
        (Inl err, _) \<Rightarrow> Inl err
      | (Inr core, meta) \<Rightarrow>
          (case aggregateExtraGates (opaBase e) (PolicyBundle e) (extraToolGates e) input core of
             (res, policyRuleID, gates) \<Rightarrow>
               Inr \<lparr>d_Allow = gr_Allow res, NeedsApproval = gr_RequireApproval res,
                 NeedsStepUp = gr_RequireStepUp res, d_Deny = gr_Deny res,
                 Reason = (if length (gr_DenyReasons res) > 0 then Join (gr_DenyReasons res) ''; ''
                           else if gr_RequireApproval res
                           then ''effect class '' @ effectClassString enum_string (q_EffectClass q) @ '' requires human approval''
                           else []),
                 Reasons = gr_DenyReasons res, PolicyRuleID = policyRuleID,
                 DEvidence = Some \<lparr>ev_Query = ''aikonos/tool_invocation'', ev_Revision = m_Revision meta,
                   ev_DecisionID = m_DecisionID meta, ev_Input = input, ev_Gates = gates\<rparr>\<rparr>))"

section \<open>Lemmas\<close>

lemma attribute_fields [simp]:
  "anyDeny (attribute p a) = anyDeny a" "needsApproval (attribute p a) = needsApproval a"
  "needsStepUp (attribute p a) = needsStepUp a" "reasons (attribute p a) = reasons a"
  "evidence (attribute p a) = evidence a"
  by (simp_all add: attribute_def)

text \<open>What one gate contributes: a failed gate contributes a denial.\<close>

definition gate_denies :: "opa \<Rightarrow> string \<Rightarrow> ToolInput \<Rightarrow> ToolGate \<Rightarrow> bool" where
  "gate_denies opa bundle input g =
     (case fst (evaluateGate opa bundle (g_Path g) input) of Inl _ \<Rightarrow> True | Inr gr \<Rightarrow> gateIsDeny gr)"

definition gate_says :: "(GateResult \<Rightarrow> bool) \<Rightarrow> opa \<Rightarrow> string \<Rightarrow> ToolInput \<Rightarrow> ToolGate \<Rightarrow> bool" where
  "gate_says f opa bundle input g =
     (case fst (evaluateGate opa bundle (g_Path g) input) of Inl _ \<Rightarrow> False | Inr gr \<Rightarrow> f gr)"

lemma agg_gate_flags:
  "anyDeny (agg_gate opa bundle input a g) = (anyDeny a \<or> gate_denies opa bundle input g)"
  "needsApproval (agg_gate opa bundle input a g) = (needsApproval a \<or> gate_says gr_RequireApproval opa bundle input g)"
  "needsStepUp (agg_gate opa bundle input a g) = (needsStepUp a \<or> gate_says gr_RequireStepUp opa bundle input g)"
  by (auto simp: agg_gate_def gate_denies_def gate_says_def Let_def split: prod.splits sum.splits)

lemma agg_fold_flags:
  "anyDeny (foldl (agg_gate opa bundle input) a gs) = (anyDeny a \<or> (\<exists>g \<in> set gs. gate_denies opa bundle input g))"
  "needsApproval (foldl (agg_gate opa bundle input) a gs)
     = (needsApproval a \<or> (\<exists>g \<in> set gs. gate_says gr_RequireApproval opa bundle input g))"
  "needsStepUp (foldl (agg_gate opa bundle input) a gs)
     = (needsStepUp a \<or> (\<exists>g \<in> set gs. gate_says gr_RequireStepUp opa bundle input g))"
  by (induction gs arbitrary: a) (auto simp: agg_gate_flags)

lemma agg_evidence_length:
  "length (evidence (foldl (agg_gate opa bundle input) a gs)) = length (evidence a) + length gs"
proof (induction gs arbitrary: a)
  case (Cons g gs)
  have "length (evidence (agg_gate opa bundle input a g)) = Suc (length (evidence a))"
    by (auto simp: agg_gate_def Let_def split: prod.splits sum.splits)
  then show ?case using Cons by simp
qed simp

lemma RegisterToolGate_distinct:
  "distinct (map g_Path gates) \<Longrightarrow> distinct (map g_Path (RegisterToolGate name path gates))"
  by (auto simp: RegisterToolGate_def list_ex_iff)

section \<open>Properties\<close>

text \<open>Extra gates can only restrict: the aggregate allows only if the core gate
  allows and no gate denies or fails; every approval or step-up that the core or any gate
  asks for is kept; a core denial stays a denial; and each registered gate leaves exactly
  one piece of evidence.\<close>

theorem extra_gates_only_restrict:
  assumes "aggregateExtraGates opa bundle gates input core = (res, path, ev)"
  shows "(gr_Allow res \<longrightarrow> gr_Allow core \<and> (\<forall>g \<in> set gates. \<not> gate_denies opa bundle input g))
    \<and> (gr_RequireApproval res \<longleftrightarrow> gr_RequireApproval core \<or> (\<exists>g \<in> set gates. gate_says gr_RequireApproval opa bundle input g))
    \<and> (gr_RequireStepUp res \<longleftrightarrow> gr_RequireStepUp core \<or> (\<exists>g \<in> set gates. gate_says gr_RequireStepUp opa bundle input g))
    \<and> (gr_Deny core \<or> (\<exists>g \<in> set gates. gate_denies opa bundle input g) \<longrightarrow> gr_Deny res)
    \<and> length ev = length gates"
  using assms by (auto simp: aggregateExtraGates_def Let_def agg_fold_flags agg_evidence_length gateIsDeny_def
      split: if_splits)

theorem extra_gates_only_restrict_witness:
  "let opa = (\<lambda>p _. if p = ''aikonos/quota'' then Request_failed
               else Response 200 (Some \<lparr>ob_decision_id = ''d1'', ob_revision = [],
                      ob_result = Result_doc (zero_GateResult\<lparr>gr_Allow := True\<rparr>)\<rparr>));
       input = buildToolInput (\<lambda>_. []) (9, ''monday'') zero_ToolQuery;
       r = aggregateExtraGates opa [] [\<lparr>g_Name = ''quota'', g_Path = ''aikonos/quota''\<rparr>] input (zero_GateResult\<lparr>gr_Allow := True\<rparr>)
   in gr_Deny (fst r) \<and> \<not> gr_Allow (fst r)"
proof -
  let ?opa = "\<lambda>p _. if p = ''aikonos/quota'' then Request_failed
               else Response 200 (Some \<lparr>ob_decision_id = ''d1'', ob_revision = [],
                      ob_result = Result_doc (zero_GateResult\<lparr>gr_Allow := True\<rparr>)\<rparr>)"
  let ?input = "buildToolInput (\<lambda>_. []) (9, ''monday'') zero_ToolQuery"
  let ?g = "\<lparr>g_Name = ''quota'', g_Path = ''aikonos/quota''\<rparr>"
  obtain res path ev where
    r: "aggregateExtraGates ?opa [] [?g] ?input (zero_GateResult\<lparr>gr_Allow := True\<rparr>) = (res, path, ev)"
    by (metis prod.exhaust)
  have d: "gate_denies ?opa [] ?input ?g"
    by (simp add: gate_denies_def evaluateGate_def queryOPA_def Let_def)
  have "gr_Deny res \<and> \<not> gr_Allow res"
    using extra_gates_only_restrict [OF r] d by (metis list.set_intros(1))
  then show ?thesis by (simp add: Let_def r)
qed

text \<open>With a policy bundle configured, no decision is made from a policy that OPA
  has not loaded: when the response carries no revision of the bundle the call is an error,
  and a decision that is returned names the non-empty revision that made it.\<close>

theorem DecideToolCall_needs_revision:
  assumes "PolicyBundle e \<noteq> []" "DecideToolCall es e clock q = Inr dec"
  shows "\<exists>b. opaBase e ''aikonos/tool_invocation'' (buildToolInput es clock q) = Response 200 (Some b)
    \<and> ob_revision b \<noteq> []
    \<and> (\<exists>ev. DEvidence dec = Some ev \<and> ev_Revision ev = ob_revision b \<and> ev_DecisionID ev = ob_decision_id b)"
  using assms
  by (auto simp: DecideToolCall_def evaluateGate_def queryOPA_def Let_def
      split: opa_response.splits option.splits opa_result.splits if_splits prod.splits)

theorem DecideToolCall_needs_revision_witness:
  "\<exists>b. (\<lambda>_ _. Response 200 (Some \<lparr>ob_decision_id = ''d'', ob_revision = ''r7'',
        ob_result = (Result_absent :: GateResult opa_result)\<rparr>)) ''aikonos/tool_invocation''
        (buildToolInput (\<lambda>_. []) (9, ''monday'') zero_ToolQuery) = Response 200 (Some b) \<and> ob_revision b \<noteq> []"
proof -
  let ?e = "\<lparr>opaBase = (\<lambda>_ _. Response 200 (Some \<lparr>ob_decision_id = ''d'', ob_revision = ''r7'',
        ob_result = (Result_absent :: GateResult opa_result)\<rparr>)), PolicyBundle = ''aikonos'', extraToolGates = []\<rparr>"
  have "\<exists>dec. DecideToolCall (\<lambda>_. []) ?e (9, ''monday'') zero_ToolQuery = Inr dec"
    by (simp add: DecideToolCall_def evaluateGate_def queryOPA_def aggregateExtraGates_def Let_def)
  then obtain dec where "DecideToolCall (\<lambda>_. []) ?e (9, ''monday'') zero_ToolQuery = Inr dec" by blast
  from DecideToolCall_needs_revision [OF _ this] show ?thesis by auto
qed

end
