(* ===== verification/ToolRegistry.thy ===== *)
theory ToolRegistry
  imports EffectClass
begin

text \<open>
  Package broker/internal/toolregistry with the manifests it loads
  (broker/internal/skillmanifest) and the validation of a tenant's overlay row
  (validateSkillOverlay in broker/internal/broker/skills_admin.go): which capability
  scope a tool needs and which effect class the broker holds it to.
\<close>

section \<open>Manifests (skillmanifest)\<close>

record Manifest =
  APIVersion :: string
  MKind :: string
  ToolID :: string
  MScope :: string
  MEffectClass :: string

definition knownEffectClasses :: "string list" where
  "knownEffectClasses = map Rego All"

definition validate_manifest :: "Manifest \<Rightarrow> bool" where
  "validate_manifest m =
     (APIVersion m \<noteq> [] \<and> MKind m = ''Skill'' \<and> ToolID m \<noteq> [] \<and> MScope m \<noteq> [] \<and>
      MEffectClass m \<in> set knownEffectClasses)"

text \<open>
  Load reads the files in glob order and stops at the first that cannot be read or
  parsed (\<open>None\<close>) or that is not valid; then it sorts by tool id.
\<close>

fun load_files :: "Manifest option list \<Rightarrow> Manifest list option" where
  "load_files [] = Some []"
| "load_files (None # fs) = None"
| "load_files (Some m # fs) =
     (if validate_manifest m then map_option (Cons m) (load_files fs) else None)"

definition Load :: "Manifest option list \<Rightarrow> Manifest list option" where
  "Load files = map_option (sort_key ToolID) (load_files files)"

section \<open>The registry\<close>

definition staticBaseline :: "string \<rightharpoonup> string" where
  "staticBaseline = map_of
     [(''siem.query'', ''siem:read''), (''siem.search'', ''siem:read''),
      (''slack.post'', ''slack:write''), (''slack.dm'', ''slack:write'')]"

definition staticBaselineEffectClass :: "string \<rightharpoonup> effect_class" where
  "staticBaselineEffectClass = map_of
     [(''siem.query'', READ_ONLY), (''siem.search'', READ_ONLY),
      (''slack.post'', WRITE_EXTERNAL), (''slack.dm'', WRITE_EXTERNAL)]"

definition regoToEffectClass :: "(string \<times> effect_class) list" where
  "regoToEffectClass =
     [(''read_only'', READ_ONLY), (''write_local'', WRITE_LOCAL), (''write_internal'', WRITE_INTERNAL),
      (''write_external'', WRITE_EXTERNAL), (''network_egress'', NETWORK_EGRESS),
      (''credential_access'', CREDENTIAL_ACCESS), (''destructive'', DESTRUCTIVE),
      (''infrastructure'', INFRASTRUCTURE)]"

definition EffectClassFromRego :: "string \<Rightarrow> effect_class option" where
  "EffectClassFromRego rego = map_of regoToEffectClass rego"

definition McpUnconfirmedClass :: effect_class where
  "McpUnconfirmedClass = DESTRUCTIVE"

record overlayEntry =
  oe_scope :: string
  oe_effectClass :: string

record overlayState =
  os_enabled :: bool
  os_effectClass :: effect_class
  os_scope :: string
  os_executorKind :: string

record OverlayRow =
  row_ToolID :: string
  row_Enabled :: bool
  row_EffectClass :: effect_class
  row_Scope :: string
  row_ExecutorKind :: string

type_synonym tenantOverlaySnapshot = "string \<rightharpoonup> (string \<rightharpoonup> overlayState)"

record Registry =
  baseline :: "string \<rightharpoonup> string"
  baselineEffectClass :: "string \<rightharpoonup> effect_class"
  overlay :: "string \<rightharpoonup> overlayEntry"
  tenantOverlay :: "tenantOverlaySnapshot option"

definition NewRegistry :: Registry where
  "NewRegistry = \<lparr>baseline = staticBaseline, baselineEffectClass = staticBaselineEffectClass,
     overlay = Map.empty, tenantOverlay = None\<rparr>"

record PluginBaseline =
  pb_ToolID :: string
  pb_Scope :: string
  pb_EffectClass :: effect_class

definition LoadFromPlugins :: "PluginBaseline list \<Rightarrow> Registry \<Rightarrow> Registry" where
  "LoadFromPlugins entries reg =
     foldl (\<lambda>r e. r\<lparr>baseline := (baseline r)(pb_ToolID e \<mapsto> pb_Scope e),
                     baselineEffectClass := (baselineEffectClass r)(pb_ToolID e \<mapsto> pb_EffectClass e)\<rparr>)
       reg entries"

definition ParseMcpToolID :: "string \<Rightarrow> (string \<times> string) option" where
  "ParseMcpToolID toolID =
     (if \<not> HasPrefix toolID ''mcp:'' then None
      else let rest = drop (length ''mcp:'') toolID in
           case IndexByte rest (CHR '':'') of
             None \<Rightarrow> None
           | Some idx \<Rightarrow>
               if idx = 0 then None
               else if drop (idx + 1) rest = [] then None
               else Some (take idx rest, drop (idx + 1) rest))"

datatype registry_error = ManifestLoad | ScopeConflict | EffectClassUnknown | EffectClassConflict
  | NoExecutor | EffectClassWeaker

definition checkEffectClassConflict :: "Registry \<Rightarrow> string \<Rightarrow> string \<Rightarrow> registry_error option" where
  "checkEffectClassConflict reg toolID manifestEC =
     (case baselineEffectClass reg toolID of
        None \<Rightarrow> None
      | Some baseEC \<Rightarrow>
          if manifestEC = [] then None
          else case map_of regoToEffectClass manifestEC of
                 None \<Rightarrow> Some EffectClassUnknown
               | Some ec \<Rightarrow> if ec \<noteq> baseEC then Some EffectClassConflict else None)"

text \<open>The loop of LoadManifests over the loaded manifests; \<open>tmp\<close> is the new overlay.\<close>

fun build_overlay :: "Registry \<Rightarrow> Manifest list \<Rightarrow> (string \<rightharpoonup> overlayEntry) \<Rightarrow> (registry_error, string \<rightharpoonup> overlayEntry) result" where
  "build_overlay reg [] tmp = Inr tmp"
| "build_overlay reg (m # ms) tmp =
     (case baseline reg (ToolID m) of
        Some baseScope \<Rightarrow>
          if MScope m \<noteq> baseScope then Inl ScopeConflict
          else (case checkEffectClassConflict reg (ToolID m) (MEffectClass m) of
                  Some e \<Rightarrow> Inl e
                | None \<Rightarrow> build_overlay reg ms
                    (tmp(ToolID m \<mapsto> \<lparr>oe_scope = baseScope, oe_effectClass = MEffectClass m\<rparr>)))
      | None \<Rightarrow> build_overlay reg ms
          (tmp(ToolID m \<mapsto> \<lparr>oe_scope = MScope m, oe_effectClass = MEffectClass m\<rparr>)))"

definition LoadManifests :: "Manifest option list \<Rightarrow> Registry \<Rightarrow> registry_error option \<times> Registry" where
  "LoadManifests files reg =
     (case Load files of
        None \<Rightarrow> (Some ManifestLoad, reg)
      | Some ms \<Rightarrow>
          (case build_overlay reg ms Map.empty of
             Inl e \<Rightarrow> (Some e, reg)
           | Inr tmp \<Rightarrow> (None, reg\<lparr>overlay := tmp\<rparr>)))"

definition RequiredScope :: "Registry \<Rightarrow> string \<Rightarrow> string option" where
  "RequiredScope reg toolID =
     (case baseline reg toolID of
        Some scope \<Rightarrow> Some scope
      | None \<Rightarrow>
          (case overlay reg toolID of
             Some e \<Rightarrow> Some (oe_scope e)
           | None \<Rightarrow>
               (case ParseMcpToolID toolID of
                  Some (connID, _) \<Rightarrow> Some (''mcp:'' @ connID)
                | None \<Rightarrow> None)))"

text \<open>ListTools promises no order: the set of its entries.\<close>

definition ListTools :: "Registry \<Rightarrow> (string \<times> string) set" where
  "ListTools reg =
     {(id, scope). baseline reg id = Some scope} \<union>
     {(id, scope). baseline reg id = None \<and> (\<exists>e. overlay reg id = Some e \<and> oe_scope e = scope)}"

definition Registry_EffectClass :: "Registry \<Rightarrow> string \<Rightarrow> string option" where
  "Registry_EffectClass reg toolID =
     (case overlay reg toolID of
        Some e \<Rightarrow> if oe_effectClass e \<noteq> [] then Some (oe_effectClass e) else None
      | None \<Rightarrow> None)"

definition IsBuiltin :: "Registry \<Rightarrow> string \<Rightarrow> bool" where
  "IsBuiltin reg toolID = (baseline reg toolID \<noteq> None)"

section \<open>Effect classes of tools (authoritative.go, overlay.go)\<close>

definition AuthoritativeEffectClass :: "Registry \<Rightarrow> string \<Rightarrow> effect_class option" where
  "AuthoritativeEffectClass reg toolID =
     (case baselineEffectClass reg toolID of
        Some ec \<Rightarrow> Some ec
      | None \<Rightarrow>
          (case (case overlay reg toolID of
                   Some e \<Rightarrow> if oe_effectClass e \<noteq> [] then map_of regoToEffectClass (oe_effectClass e) else None
                 | None \<Rightarrow> None) of
             Some ec \<Rightarrow> Some ec
           | None \<Rightarrow> if HasPrefix toolID ''mcp:'' then Some McpUnconfirmedClass else None))"

definition SetTenantOverlay :: "string \<Rightarrow> OverlayRow list \<Rightarrow> Registry \<Rightarrow> Registry" where
  "SetTenantOverlay tenant rows reg =
     (let next = (case tenantOverlay reg of None \<Rightarrow> Map.empty | Some cur \<Rightarrow> cur(tenant := None));
          toolMap = foldl (\<lambda>m r. m(row_ToolID r \<mapsto>
             \<lparr>os_enabled = row_Enabled r, os_effectClass = row_EffectClass r,
              os_scope = row_Scope r, os_executorKind = row_ExecutorKind r\<rparr>)) Map.empty rows
      in reg\<lparr>tenantOverlay := Some (next(tenant \<mapsto> toolMap))\<rparr>)"

definition overlay_state :: "Registry \<Rightarrow> string \<Rightarrow> string \<Rightarrow> overlayState option" where
  "overlay_state reg tenant toolID =
     (case tenantOverlay reg of
        None \<Rightarrow> None
      | Some snap \<Rightarrow> (case snap tenant of None \<Rightarrow> None | Some toolMap \<Rightarrow> toolMap toolID))"

text \<open>IsEnabled: \<open>None\<close> when no overlay row exists (known = false).\<close>

definition IsEnabled :: "Registry \<Rightarrow> string \<Rightarrow> string \<Rightarrow> bool option" where
  "IsEnabled reg tenant toolID = map_option os_enabled (overlay_state reg tenant toolID)"

definition EffectClassForTenant :: "Registry \<Rightarrow> string \<Rightarrow> string \<Rightarrow> effect_class option" where
  "EffectClassForTenant reg tenant toolID =
     (case overlay_state reg tenant toolID of
        Some st \<Rightarrow> Some (os_effectClass st)
      | None \<Rightarrow> AuthoritativeEffectClass reg toolID)"

definition DeriveScope :: "Registry \<Rightarrow> string \<Rightarrow> (registry_error, string) result" where
  "DeriveScope reg toolID =
     (case baseline reg toolID of
        Some scope \<Rightarrow> Inr scope
      | None \<Rightarrow>
          (case ParseMcpToolID toolID of
             Some (connID, _) \<Rightarrow> Inr (''mcp:'' @ connID)
           | None \<Rightarrow>
               (case overlay reg toolID of
                  Some e \<Rightarrow> Inr (oe_scope e)
                | None \<Rightarrow> Inl NoExecutor)))"

definition ResolveOverlayClass :: "Registry \<Rightarrow> string \<Rightarrow> string \<Rightarrow> string \<Rightarrow> (registry_error, effect_class) result" where
  "ResolveOverlayClass reg toolID executorKind declaredRego =
     (case map_of regoToEffectClass declaredRego of
        None \<Rightarrow> Inl EffectClassUnknown
      | Some declared \<Rightarrow>
          if executorKind = ''mcp'' then Inr declared
          else case baselineEffectClass reg toolID of
                 Some base \<Rightarrow>
                   if Severity declared < Severity base then Inl EffectClassWeaker
                   else Inr (Stricter declared base)
               | None \<Rightarrow> Inr declared)"

text \<open>
  validateSkillOverlay: \<open>connections\<close> is the tenant's table of MCP connections, absent
  when none is configured.  The result is the executor kind, the scope and the class.
\<close>

definition validateSkillOverlay ::
  "(effect_class \<Rightarrow> string) \<Rightarrow> Registry \<Rightarrow> (string \<Rightarrow> bool) option \<Rightarrow> string \<Rightarrow> string \<Rightarrow> string \<Rightarrow>
   (rpc_error, string \<times> string \<times> effect_class) result" where
  "validateSkillOverlay enum_string reg connections toolID suppliedScope declaredRego =
     bindE (if IsBuiltin reg toolID then Inr ''builtin''
            else case ParseMcpToolID toolID of
                   Some (connID, _) \<Rightarrow>
                     (case connections of
                        None \<Rightarrow> Inl (Status InvalidArgument ''mcp connections not configured'')
                      | Some exists \<Rightarrow>
                          if exists connID then Inr ''mcp''
                          else Inl (Status InvalidArgument ''connector does not exist for this tenant''))
                 | None \<Rightarrow> Inl (Status InvalidArgument ''tool_id has no executor''))
       (\<lambda>executorKind.
        case DeriveScope reg toolID of
          Inl _ \<Rightarrow> Inl (Status InvalidArgument ''no executor for tool_id'')
        | Inr derivedScope \<Rightarrow>
            if suppliedScope \<noteq> [] \<and> suppliedScope \<noteq> derivedScope
            then Inl (Status InvalidArgument ''supplied scope conflicts with derived scope'')
            else
              let rego = (if declaredRego = [] then
                            (case AuthoritativeEffectClass reg toolID of
                               Some ec \<Rightarrow> RegoString enum_string ec
                             | None \<Rightarrow> ''write_external'')
                          else declaredRego)
              in (case ResolveOverlayClass reg toolID executorKind rego of
                    Inl _ \<Rightarrow> Inl (Status InvalidArgument ''effect class'')
                  | Inr cls \<Rightarrow> Inr (executorKind, derivedScope, cls)))"

section \<open>Lemmas\<close>

text \<open>Every built-in tool has a compiled effect class: both tables grow together.\<close>

definition registry_wf :: "Registry \<Rightarrow> bool" where
  "registry_wf reg = (dom (baseline reg) = dom (baselineEffectClass reg))"

lemma NewRegistry_wf: "registry_wf NewRegistry"
  by (auto simp: registry_wf_def NewRegistry_def staticBaseline_def staticBaselineEffectClass_def)

lemma LoadFromPlugins_wf: "registry_wf reg \<Longrightarrow> registry_wf (LoadFromPlugins es reg)"
  unfolding LoadFromPlugins_def by (rule foldl_invariant) (auto simp: registry_wf_def)

lemma LoadManifests_wf: "registry_wf reg \<Longrightarrow> registry_wf (snd (LoadManifests files reg))"
  by (auto simp: registry_wf_def LoadManifests_def split: option.splits sum.splits)

lemma SetTenantOverlay_wf: "registry_wf reg \<Longrightarrow> registry_wf (SetTenantOverlay t rows reg)"
  by (simp add: registry_wf_def SetTenantOverlay_def Let_def)

lemma regoToEffectClass_inverse:
  "map_of regoToEffectClass s = Some ec \<Longrightarrow> RegoString enum_string ec = s \<and> indexByClass ec \<noteq> None"
  by (auto simp: regoToEffectClass_def RegoString_def split: if_splits) (simp_all add: canonical_def)

lemma ParseMcpToolID_Some:
  "ParseMcpToolID tid = Some (conn, tool) \<longleftrightarrow>
     tid = ''mcp:'' @ conn @ '':'' @ tool \<and> conn \<noteq> [] \<and> tool \<noteq> [] \<and> CHR '':'' \<notin> set conn"
  (is "?L \<longleftrightarrow> ?R")
proof
  assume ?R
  then show ?L by (auto simp: ParseMcpToolID_def HasPrefix_def Let_def IndexByte_append)
next
  assume L: ?L
  then have pre: "HasPrefix tid ''mcp:''" by (auto simp: ParseMcpToolID_def split: if_splits)
  then obtain rest where tid: "tid = ''mcp:'' @ rest" by (auto simp: HasPrefix_iff_prefix prefix_def)
  obtain i where i: "IndexByte rest (CHR '':'') = Some i" "i \<noteq> 0" "conn = take i rest"
      "tool = drop (i + 1) rest" "tool \<noteq> []"
    using L pre by (auto simp: ParseMcpToolID_def Let_def tid split: option.splits if_splits)
  then show ?R using IndexByte_Some [OF i(1)] by (auto simp: tid)
qed

lemma build_overlay_frame: "LoadManifests files reg = (Some e, reg') \<Longrightarrow> reg' = reg"
  by (auto simp: LoadManifests_def split: option.splits sum.splits)

lemma SetTenantOverlay_other:
  "t' \<noteq> t \<Longrightarrow> overlay_state (SetTenantOverlay t rows reg) t' tid = overlay_state reg t' tid"
  by (auto simp: SetTenantOverlay_def overlay_state_def Let_def split: option.splits)

lemma foldl_rows_None:
  "tid \<notin> row_ToolID ` set rows \<Longrightarrow> foldl (\<lambda>m r. m(row_ToolID r \<mapsto> f r)) m rows tid = m tid"
  by (induction rows arbitrary: m) auto

lemma foldl_rows_Some:
  assumes "foldl (\<lambda>m r. m(row_ToolID r \<mapsto> f r)) Map.empty rows tid = Some st"
  shows "\<exists>r \<in> set rows. row_ToolID r = tid \<and> st = f r"
proof -
  have "foldl (\<lambda>m r. m(row_ToolID r \<mapsto> f r)) m rows tid = Some st \<Longrightarrow>
      m tid = Some st \<or> (\<exists>r \<in> set rows. row_ToolID r = tid \<and> st = f r)" for m
  proof (induction rows arbitrary: m)
    case (Cons a rows)
    from Cons.IH [of "m(row_ToolID a \<mapsto> f a)"] Cons.prems show ?case by (auto split: if_splits)
  qed simp
  then show ?thesis using assms by fastforce
qed

lemma overlay_state_SetTenantOverlay:
  "overlay_state (SetTenantOverlay t rows reg) t tid =
     foldl (\<lambda>m r. m(row_ToolID r \<mapsto> \<lparr>os_enabled = row_Enabled r, os_effectClass = row_EffectClass r,
              os_scope = row_Scope r, os_executorKind = row_ExecutorKind r\<rparr>)) Map.empty rows tid"
  by (simp add: SetTenantOverlay_def overlay_state_def Let_def)

lemma SetTenantOverlay_frame [simp]:
  "baseline (SetTenantOverlay t rows reg) = baseline reg"
  "baselineEffectClass (SetTenantOverlay t rows reg) = baselineEffectClass reg"
  "overlay (SetTenantOverlay t rows reg) = overlay reg"
  by (simp_all add: SetTenantOverlay_def Let_def)

lemma AuthoritativeEffectClass_SetTenantOverlay [simp]:
  "AuthoritativeEffectClass (SetTenantOverlay t rows reg) tid = AuthoritativeEffectClass reg tid"
  unfolding AuthoritativeEffectClass_def SetTenantOverlay_frame ..

lemma validateSkillOverlay_builtin:
  assumes "registry_wf reg" "IsBuiltin reg tid"
    and "validateSkillOverlay es reg conns tid sc rego = Inr (kind, scope, cls)"
  obtains base where "kind = ''builtin''" "baselineEffectClass reg tid = Some base"
    "Severity base \<le> Severity cls" "baseline reg tid = Some scope"
proof -
  from assms(1,2) obtain base b where base: "baselineEffectClass reg tid = Some base" "baseline reg tid = Some b"
    by (metis IsBuiltin_def domD domIff registry_wf_def)
  show ?thesis using assms(2,3) base
    by (intro that [of base])
      (auto simp: validateSkillOverlay_def DeriveScope_def ResolveOverlayClass_def Let_def ec.join_upper
        split: if_splits option.splits)
qed

section \<open>Properties\<close>

text \<open>A tenant's overlay can raise the class of a built-in tool but never lower it:
  when every row was accepted by validateSkillOverlay, the class the router reads after
  SetTenantOverlay is at least as severe as the compiled class, whatever scope and class
  the administrator supplied.\<close>

theorem overlay_never_weakens_builtin:
  assumes "registry_wf reg" "IsBuiltin reg tid"
    and "\<And>r. r \<in> set rows \<Longrightarrow> \<exists>conns sc rego. validateSkillOverlay es reg conns (row_ToolID r) sc rego
           = Inr (row_ExecutorKind r, row_Scope r, row_EffectClass r)"
  shows "\<exists>base cls. AuthoritativeEffectClass reg tid = Some base
    \<and> EffectClassForTenant (SetTenantOverlay t rows reg) t tid = Some cls
    \<and> Severity base \<le> Severity cls"
proof -
  from assms(1,2) obtain base where base: "baselineEffectClass reg tid = Some base"
    by (metis IsBuiltin_def domD domIff registry_wf_def)
  then have auth: "AuthoritativeEffectClass reg tid = Some base" by (simp add: AuthoritativeEffectClass_def)
  show ?thesis
  proof (cases "overlay_state (SetTenantOverlay t rows reg) t tid")
    case None
    then show ?thesis using auth by (auto simp: EffectClassForTenant_def)
  next
    case (Some st)
    then obtain r where r: "r \<in> set rows" "row_ToolID r = tid" "os_effectClass st = row_EffectClass r"
      by (auto simp: overlay_state_SetTenantOverlay dest!: foldl_rows_Some)
    from assms(3) [OF r(1)] r(2) obtain conns sc rego where
      "validateSkillOverlay es reg conns tid sc rego = Inr (row_ExecutorKind r, row_Scope r, row_EffectClass r)" by auto
    from validateSkillOverlay_builtin [OF assms(1,2) this] have "Severity base \<le> Severity (row_EffectClass r)"
      using base by (metis option.inject)
    then show ?thesis using auth Some r by (auto simp: EffectClassForTenant_def)
  qed
qed

theorem overlay_never_weakens_builtin_witness:
  "\<exists>base cls. AuthoritativeEffectClass NewRegistry ''slack.post'' = Some base
    \<and> EffectClassForTenant (SetTenantOverlay ''acme''
        [\<lparr>row_ToolID = ''slack.post'', row_Enabled = True, row_EffectClass = DESTRUCTIVE,
          row_Scope = ''slack:write'', row_ExecutorKind = ''builtin''\<rparr>] NewRegistry) ''acme'' ''slack.post'' = Some cls
    \<and> Severity base \<le> Severity cls"
proof (rule overlay_never_weakens_builtin)
  show "registry_wf NewRegistry" by (rule NewRegistry_wf)
  show "IsBuiltin NewRegistry ''slack.post''"
    by (simp add: IsBuiltin_def NewRegistry_def staticBaseline_def)
  fix r
  assume "r \<in> set [\<lparr>row_ToolID = ''slack.post'', row_Enabled = True, row_EffectClass = DESTRUCTIVE,
          row_Scope = ''slack:write'', row_ExecutorKind = ''builtin''\<rparr>]"
  moreover have "validateSkillOverlay (\<lambda>_. []) NewRegistry None ''slack.post'' [] ''destructive''
      = Inr (''builtin'', ''slack:write'', DESTRUCTIVE)"
    by (simp add: validateSkillOverlay_def IsBuiltin_def DeriveScope_def ResolveOverlayClass_def Let_def
        NewRegistry_def staticBaseline_def staticBaselineEffectClass_def regoToEffectClass_def Stricter_def)
  ultimately show "\<exists>conns sc rego. validateSkillOverlay (\<lambda>_. []) NewRegistry conns (row_ToolID r) sc rego
      = Inr (row_ExecutorKind r, row_Scope r, row_EffectClass r)"
    by (intro exI [of _ None] exI [of _ "[]"] exI [of _ "''destructive''"]) simp
qed

text \<open>SetTenantOverlay replaces the rows of one tenant and of no other: for another
  tenant the enabled flag and the class of every tool are what they were, and a tool with
  no row in the new list falls back to the class of the global tables.\<close>

theorem SetTenantOverlay_isolated:
  "(t' \<noteq> t \<longrightarrow> IsEnabled (SetTenantOverlay t rows reg) t' tid = IsEnabled reg t' tid
      \<and> EffectClassForTenant (SetTenantOverlay t rows reg) t' tid = EffectClassForTenant reg t' tid)
   \<and> (tid \<notin> row_ToolID ` set rows \<longrightarrow> IsEnabled (SetTenantOverlay t rows reg) t tid = None
      \<and> EffectClassForTenant (SetTenantOverlay t rows reg) t tid = AuthoritativeEffectClass reg tid)"
  by (auto simp: IsEnabled_def EffectClassForTenant_def SetTenantOverlay_other
      overlay_state_SetTenantOverlay foldl_rows_None split: option.splits)

theorem SetTenantOverlay_isolated_witness:
  "IsEnabled (SetTenantOverlay ''acme'' [] NewRegistry) ''globex'' ''slack.post'' = IsEnabled NewRegistry ''globex'' ''slack.post''"
  using SetTenantOverlay_isolated [of "''globex''" "''acme''" "[]" NewRegistry "''slack.post''"] by simp

text \<open>Loading manifests fails closed: on any error the registry is untouched, and on
  success no tool of the baseline changes its scope or its class.\<close>

theorem LoadManifests_keeps_baseline:
  "(fst (LoadManifests files reg) \<noteq> None \<longrightarrow> snd (LoadManifests files reg) = reg)
   \<and> (IsBuiltin reg tid \<longrightarrow> RequiredScope (snd (LoadManifests files reg)) tid = RequiredScope reg tid)
   \<and> (baselineEffectClass reg tid \<noteq> None \<longrightarrow>
        AuthoritativeEffectClass (snd (LoadManifests files reg)) tid = AuthoritativeEffectClass reg tid)"
  by (auto simp: LoadManifests_def IsBuiltin_def RequiredScope_def AuthoritativeEffectClass_def
      split: option.splits sum.splits)

theorem LoadManifests_keeps_baseline_witness:
  "fst (LoadManifests [None] NewRegistry) \<noteq> None \<and> snd (LoadManifests [None] NewRegistry) = NewRegistry"
  using LoadManifests_keeps_baseline [of "[None]" NewRegistry "[]"]
  by (simp add: LoadManifests_def Load_def)

text \<open>The MCP tool id grammar: parsing succeeds on exactly the ids built from a
  non-empty connector without a colon and a non-empty tool, and returns these parts.\<close>

theorem ParseMcpToolID_roundtrip:
  "ParseMcpToolID tid = Some (conn, tool) \<longleftrightarrow>
     tid = ''mcp:'' @ conn @ '':'' @ tool \<and> conn \<noteq> [] \<and> tool \<noteq> [] \<and> CHR '':'' \<notin> set conn"
  by (rule ParseMcpToolID_Some)

text \<open>An MCP tool that no administrator confirmed is held to the unconfirmed class,
  unless a manifest names it: the loader accepts a manifest whose name has the mcp prefix,
  and such a manifest then decides both the class and the scope of the tool.\<close>

theorem manifest_can_shadow_mcp:
  assumes "HasPrefix tid ''mcp:''" "baseline reg tid = None" "baselineEffectClass reg tid = None"
  shows "(overlay reg tid = None \<longrightarrow> AuthoritativeEffectClass reg tid = Some McpUnconfirmedClass)
    \<and> (let reg' = snd (LoadManifests [Some \<lparr>APIVersion = ''v1'', MKind = ''Skill'', ToolID = tid,
              MScope = ''other:scope'', MEffectClass = ''read_only''\<rparr>] reg)
       in AuthoritativeEffectClass reg' tid = Some READ_ONLY \<and> RequiredScope reg' tid = Some ''other:scope'')"
proof -
  have ne: "tid \<noteq> []" using assms(1) by (auto simp: HasPrefix_def)
  have "''read_only'' \<in> set knownEffectClasses"
    by (simp add: knownEffectClasses_def All_eq_canonical canonical_def)
  then show ?thesis using assms ne
    by (simp add: LoadManifests_def Load_def validate_manifest_def AuthoritativeEffectClass_def
        RequiredScope_def regoToEffectClass_def Let_def)
qed

theorem manifest_can_shadow_mcp_witness:
  "AuthoritativeEffectClass NewRegistry ''mcp:jira:delete'' = Some McpUnconfirmedClass"
  using manifest_can_shadow_mcp [of "''mcp:jira:delete''" NewRegistry]
  by (simp add: HasPrefix_def NewRegistry_def staticBaseline_def staticBaselineEffectClass_def)

end
