(* ===== verification/ConfigStore.thy ===== *)
theory ConfigStore
  imports EffectClass
begin

text \<open>
  Package broker/internal/config: the schema of tenant settings (schema.go) and the
  cached read-through store (store.go).  The schema part models every key with its
  default and its validator; the store part models the cache entries, the repository
  behind it and each operation with its clock readings and its repository failures.
\<close>

section \<open>Validators and parsers (schema.go)\<close>

text \<open>The pattern of llmModelRE: provider, one slash, model.\<close>

definition is_lower_alnum :: "char \<Rightarrow> bool" where
  "is_lower_alnum c = (is_digit c \<or> (97 \<le> byte_of c \<and> byte_of c \<le> 122))"

definition validLLMModel :: "string \<Rightarrow> bool" where
  "validLLMModel s =
     (case IndexByte s (CHR ''/'') of
        None \<Rightarrow> False
      | Some i \<Rightarrow>
          (let p = take i s; m = drop (Suc i) s in
           p \<noteq> [] \<and> list_all (\<lambda>c. is_lower_alnum c \<or> c \<in> set ''._-'') p \<and>
           m \<noteq> [] \<and> list_all (\<lambda>c. is_lower_alnum c \<or> c \<in> set ''._:-'') m))"

definition validRegoClasses :: "string list" where
  "validRegoClasses =
     [''read_only'', ''write_local'', ''write_internal'', ''write_external'',
      ''network_egress'', ''credential_access'', ''destructive'', ''infrastructure'']"

definition validPostures :: "string list" where
  "validPostures = [''approval'', ''step_up'', ''deny'']"

text \<open>A posture is a Go string type; its constants are the three valid values.\<close>

type_synonym Posture = string

definition PostureApproval :: Posture where "PostureApproval = ''approval''"
definition PostureStepUp :: Posture where "PostureStepUp = ''step_up''"
definition PostureDeny :: Posture where "PostureDeny = ''deny''"

definition Posture_Severity :: "Posture \<Rightarrow> nat" where
  "Posture_Severity p =
     (if p = PostureApproval then 2 else if p = PostureStepUp then 3
      else if p = PostureDeny then 4 else 0)"

text \<open>
  One comma separated element of effect_class_routing, after trimming.  The parser
  skips what is not \<open>Pair_ok\<close>; the validator rejects it, except \<open>Pair_empty\<close>.
\<close>

datatype routing_pair = Pair_empty | Pair_malformed | Pair_unknown_class | Pair_unknown_posture
  | Pair_ok string Posture

definition routing_pair_of :: "string \<Rightarrow> routing_pair" where
  "routing_pair_of raw =
     (let pair = TrimSpace raw in
      if pair = [] then Pair_empty
      else case IndexByte pair (CHR '':'') of
             None \<Rightarrow> Pair_malformed
           | Some idx \<Rightarrow>
               if idx = 0 \<or> idx = length pair - 1 then Pair_malformed
               else let class = TrimSpace (take idx pair);
                        posture = TrimSpace (drop (idx + 1) pair)
                    in if class \<notin> set validRegoClasses then Pair_unknown_class
                       else if posture \<notin> set validPostures then Pair_unknown_posture
                       else Pair_ok class posture)"

definition add_pair :: "(string \<rightharpoonup> Posture) \<Rightarrow> string \<Rightarrow> (string \<rightharpoonup> Posture)" where
  "add_pair out raw = (case routing_pair_of raw of Pair_ok c p \<Rightarrow> out(c \<mapsto> p) | _ \<Rightarrow> out)"

definition ParseEffectClassRouting :: "string \<Rightarrow> (string \<rightharpoonup> Posture)" where
  "ParseEffectClassRouting s =
     (if s = [] then Map.empty else foldl add_pair Map.empty (Split s (CHR '','')))"

definition ParseList :: "string \<Rightarrow> string list" where
  "ParseList s =
     (if s = [] then []
      else filter (\<lambda>t. t \<noteq> []) (map TrimSpace (Split s (CHR '',''))))"

definition validate_int_range :: "int \<Rightarrow> int \<Rightarrow> string \<Rightarrow> bool" where
  "validate_int_range lo hi v =
     (case Atoi v of None \<Rightarrow> False | Some n \<Rightarrow> \<not> (n < lo \<or> n > hi))"

definition validate_max_length :: "nat \<Rightarrow> string \<Rightarrow> bool" where
  "validate_max_length n v = (length v \<le> n)"

definition validate_one_of :: "string list \<Rightarrow> string \<Rightarrow> bool" where
  "validate_one_of ws v = (v \<in> set ws)"

definition validate_effect_class_routing :: "string \<Rightarrow> bool" where
  "validate_effect_class_routing v =
     (length v \<le> 4096 \<and>
      (v = [] \<or>
       list_all (\<lambda>raw. case routing_pair_of raw of
                         Pair_empty \<Rightarrow> True | Pair_ok _ _ \<Rightarrow> True | _ \<Rightarrow> False)
         (Split v (CHR '',''))))"

definition validate_llm_model :: "string \<Rightarrow> bool" where
  "validate_llm_model v = (v = [] \<or> (length v \<le> 128 \<and> validLLMModel v))"

definition validate_step_up_acr :: "string \<Rightarrow> bool" where
  "validate_step_up_acr v =
     (length v \<le> 128 \<and> \<not> list_ex (\<lambda>c. c \<in> set [CHR '' '', CHR '','', CHR 0x09, CHR 0x0A]) v)"

section \<open>The schema\<close>

datatype Kind = KindInt | KindBool | KindString

record Key =
  Kind :: Kind
  Default :: string
  Validate :: "string \<Rightarrow> bool"

definition Schema :: "(string \<times> Key) list" where
  "Schema =
    [(''approval_expiry_hours'',
      \<lparr>Kind = KindInt, Default = ''24'', Validate = validate_int_range 1 720\<rparr>),
     (''disabled_tools'',
      \<lparr>Kind = KindString, Default = [], Validate = validate_max_length 4096\<rparr>),
     (''approval_required_n'',
      \<lparr>Kind = KindInt, Default = ''1'', Validate = validate_int_range 1 16\<rparr>),
     (''effect_class_routing'',
      \<lparr>Kind = KindString, Default = [], Validate = validate_effect_class_routing\<rparr>),
     (''llm_model'',
      \<lparr>Kind = KindString, Default = [], Validate = validate_llm_model\<rparr>),
     (''api_keys.max_ttl_days'',
      \<lparr>Kind = KindInt, Default = ''90'', Validate = validate_int_range 1 90\<rparr>),
     (''identity.obo'',
      \<lparr>Kind = KindString, Default = ''audit'', Validate = validate_one_of [''audit'', ''enforce'']\<rparr>),
     (''identity.enforce_user_bound'',
      \<lparr>Kind = KindString, Default = ''audit'', Validate = validate_one_of [''audit'', ''enforce'']\<rparr>),
     (''provisioning.mode'',
      \<lparr>Kind = KindString, Default = ''jit'', Validate = validate_one_of [''jit'', ''scim'']\<rparr>),
     (''approvals.step_up_acr'',
      \<lparr>Kind = KindString, Default = [], Validate = validate_step_up_acr\<rparr>),
     (''approvals.step_up_max_age_minutes'',
      \<lparr>Kind = KindInt, Default = ''10'', Validate = validate_int_range 1 60\<rparr>),
     (''identity.orphan_grace_days'',
      \<lparr>Kind = KindInt, Default = ''7'', Validate = validate_int_range 1 30\<rparr>)]"

section \<open>The store (store.go)\<close>

datatype config_error = ErrUnknownKey | ValidationError | RepoError | NotAnInteger

type_synonym cacheKey = "string \<times> string"

record cacheEntry =
  ce_value :: string
  setAt :: int
  missing :: bool

record Store =
  repo :: "cacheKey \<rightharpoonup> string"
  cache :: "cacheKey \<rightharpoonup> cacheEntry"

text \<open>Seconds; 30 * time.Second.\<close>

definition cacheTTL :: int where "cacheTTL = 30"

definition New_Store :: "(cacheKey \<rightharpoonup> string) \<Rightarrow> Store" where
  "New_Store r = \<lparr>repo = r, cache = Map.empty\<rparr>"

text \<open>
  The method get locks the cache twice and reads the repository in between, without
  the lock: the three sections are separate steps.  The outer option of \<open>get_lookup\<close>
  says whether the cache answers, the inner one whether a row exists.
\<close>

definition get_lookup :: "int \<Rightarrow> cacheKey \<Rightarrow> Store \<Rightarrow> string option option" where
  "get_lookup now ck s =
     (case cache s ck of
        None \<Rightarrow> None
      | Some e \<Rightarrow> if now - setAt e < cacheTTL
                  then Some (if missing e then None else Some (ce_value e)) else None)"

definition get_fill :: "int \<Rightarrow> cacheKey \<Rightarrow> string option \<Rightarrow> Store \<Rightarrow> Store" where
  "get_fill now ck row s =
     s\<lparr>cache := (cache s)(ck \<mapsto>
        (case row of Some v \<Rightarrow> \<lparr>ce_value = v, setAt = now, missing = False\<rparr>
                   | None \<Rightarrow> \<lparr>ce_value = [], setAt = now, missing = True\<rparr>))\<rparr>"

definition Store_get :: "bool \<Rightarrow> int \<Rightarrow> cacheKey \<Rightarrow> Store \<Rightarrow> (config_error, string option) result \<times> Store" where
  "Store_get fault now ck s =
     (case get_lookup now ck s of
        Some row \<Rightarrow> (Inr row, s)
      | None \<Rightarrow> if fault then (Inl RepoError, s)
                else (Inr (repo s ck), get_fill now ck (repo s ck) s))"

definition Store_value :: "bool \<Rightarrow> int \<Rightarrow> string \<Rightarrow> string \<Rightarrow> Store \<Rightarrow> (config_error, string) result \<times> Store" where
  "Store_value fault now tenant key s =
     (case map_of Schema key of
        None \<Rightarrow> (Inl ErrUnknownKey, s)
      | Some k \<Rightarrow>
          (case Store_get fault now (tenant, key) s of
             (Inl e, s') \<Rightarrow> (Inl e, s')
           | (Inr None, s') \<Rightarrow> (Inr (Default k), s')
           | (Inr (Some raw), s') \<Rightarrow> (Inr raw, s')))"

definition GetString :: "bool \<Rightarrow> int \<Rightarrow> string \<Rightarrow> string \<Rightarrow> Store \<Rightarrow> (config_error, string) result \<times> Store" where
  "GetString fault now tenant key s = Store_value fault now tenant key s"

definition GetInt :: "bool \<Rightarrow> int \<Rightarrow> string \<Rightarrow> string \<Rightarrow> Store \<Rightarrow> (config_error, int) result \<times> Store" where
  "GetInt fault now tenant key s =
     (case Store_value fault now tenant key s of
        (Inl e, s') \<Rightarrow> (Inl e, s')
      | (Inr raw, s') \<Rightarrow> (case Atoi raw of None \<Rightarrow> (Inl NotAnInteger, s') | Some n \<Rightarrow> (Inr n, s')))"

definition Store_Set :: "bool \<Rightarrow> string \<Rightarrow> string \<Rightarrow> string \<Rightarrow> Store \<Rightarrow> (config_error, unit) result \<times> Store" where
  "Store_Set fault tenant key v s =
     (case map_of Schema key of
        None \<Rightarrow> (Inl ErrUnknownKey, s)
      | Some k \<Rightarrow>
          if \<not> Validate k v then (Inl ValidationError, s)
          else if fault then (Inl RepoError, s)
          else (Inr (), s\<lparr>repo := (repo s)((tenant, key) \<mapsto> v),
                          cache := (cache s)((tenant, key) := None)\<rparr>))"

record ListEntry =
  le_Key :: string
  le_Value :: string
  le_Default :: string
  le_Kind :: Kind

text \<open>The rows come in map order in Go; here in the order of the schema.\<close>

definition Store_List :: "bool \<Rightarrow> string \<Rightarrow> Store \<Rightarrow> (config_error, ListEntry list) result" where
  "Store_List fault tenant s =
     (if fault then Inl RepoError
      else Inr (map (\<lambda>(name, k). \<lparr>le_Key = name,
                   le_Value = (case repo s (tenant, name) of Some v \<Rightarrow> v | None \<Rightarrow> Default k),
                   le_Default = Default k, le_Kind = Kind k\<rparr>) Schema))"

interpretation config_cache: ttl_cache get_lookup get_fill cacheTTL
  by unfold_locales (auto simp: get_lookup_def get_fill_def split: option.splits)

section \<open>Lemmas on the schema\<close>

lemma add_pair_wf:
  assumes "dom out \<subseteq> set validRegoClasses" "ran out \<subseteq> set validPostures"
  shows "dom (add_pair out raw) \<subseteq> set validRegoClasses \<and> ran (add_pair out raw) \<subseteq> set validPostures"
proof (cases "routing_pair_of raw")
  case (Pair_ok c p)
  then have "c \<in> set validRegoClasses" "p \<in> set validPostures"
    by (auto simp: routing_pair_of_def Let_def split: if_splits option.splits)
  then show ?thesis using assms Pair_ok
    by (auto simp: add_pair_def ran_def split: if_splits)
qed (use assms in \<open>auto simp: add_pair_def\<close>)

lemma foldl_add_pair_wf:
  "dom (foldl add_pair Map.empty raws) \<subseteq> set validRegoClasses
   \<and> ran (foldl add_pair Map.empty raws) \<subseteq> set validPostures"
  by (rule foldl_invariant [where P = "\<lambda>m. dom m \<subseteq> set validRegoClasses \<and> ran m \<subseteq> set validPostures"])
    (use add_pair_wf in auto)

lemma foldl_add_pair_keeps: "m c = Some q \<Longrightarrow> foldl add_pair m raws c \<noteq> None"
proof (induction raws arbitrary: m q)
  case (Cons r rs)
  have "\<exists>q'. add_pair m r c = Some q'"
    using Cons.prems by (auto simp: add_pair_def split: routing_pair.splits)
  then show ?case using Cons.IH by auto
qed simp

lemma foldl_add_pair_in:
  assumes "raw \<in> set raws" "routing_pair_of raw = Pair_ok c p"
  shows "foldl add_pair m raws c \<noteq> None"
proof -
  obtain xs ys where "raws = xs @ raw # ys" using assms(1) by (auto simp: in_set_conv_decomp)
  moreover have "add_pair (foldl add_pair m xs) raw c = Some p" using assms(2) by (simp add: add_pair_def)
  ultimately show ?thesis using foldl_add_pair_keeps by simp
qed

lemma validRegoClasses_table: "set validRegoClasses = Rego ` set canonical"
  by (auto simp: validRegoClasses_def canonical_def)

lemma Posture_Severity_valid: "p \<in> set validPostures \<Longrightarrow> 2 \<le> Posture_Severity p"
  by (auto simp: validPostures_def Posture_Severity_def PostureApproval_def PostureStepUp_def PostureDeny_def)

lemma Schema_Default_valid: "map_of Schema key = Some k \<Longrightarrow> Validate k (Default k)"
proof -
  have "list_all (\<lambda>(_, k). Validate k (Default k)) Schema" by code_simp
  then show "map_of Schema key = Some k \<Longrightarrow> Validate k (Default k)"
    by (auto simp: list_all_iff dest!: map_of_SomeD)
qed

section \<open>The store invariant\<close>

text \<open>
  The repository holds validated values of schema keys only, and every cache entry
  repeats the row the repository has.
\<close>

definition repo_valid :: "Store \<Rightarrow> bool" where
  "repo_valid s = (\<forall>t key v. repo s (t, key) = Some v \<longrightarrow>
     (\<exists>k. map_of Schema key = Some k \<and> Validate k v))"

definition coherent :: "Store \<Rightarrow> bool" where
  "coherent s = (\<forall>ck e. cache s ck = Some e \<longrightarrow>
     repo s ck = (if missing e then None else Some (ce_value e)))"

inductive config_reach :: "Store \<Rightarrow> bool" where
  init: "config_reach (New_Store Map.empty)"
| get: "config_reach s \<Longrightarrow> config_reach (snd (GetString fault now t key s))"
| getint: "config_reach s \<Longrightarrow> config_reach (snd (GetInt fault now t key s))"
| set: "config_reach s \<Longrightarrow> config_reach (snd (Store_Set fault t key v s))"

lemma Store_get_inv:
  "coherent s \<Longrightarrow> coherent (snd (Store_get fault now ck s)) \<and> repo (snd (Store_get fault now ck s)) = repo s"
  by (auto simp: Store_get_def get_fill_def coherent_def split: option.splits if_splits)

lemma Store_get_value:
  "coherent s \<Longrightarrow> fst (Store_get fault now ck s) = Inr row \<Longrightarrow> row = repo s ck"
  by (cases ck) (auto simp: Store_get_def get_lookup_def coherent_def split: option.splits if_splits)

lemma Store_value_inv:
  "coherent s \<Longrightarrow> coherent (snd (Store_value fault now t key s)) \<and> repo (snd (Store_value fault now t key s)) = repo s"
  using Store_get_inv [of s fault now "(t, key)"]
  by (auto simp: Store_value_def split: option.splits sum.splits prod.splits)

lemma GetInt_snd: "snd (GetInt fault now t key s) = snd (Store_value fault now t key s)"
  by (auto simp: GetInt_def split: option.splits sum.splits prod.splits)

lemma Store_value_result:
  assumes "coherent s" "fst (Store_value fault now t key s) = Inr v"
  shows "\<exists>k. map_of Schema key = Some k \<and>
    v = (case repo s (t, key) of Some raw \<Rightarrow> raw | None \<Rightarrow> Default k)"
  using assms Store_get_value [of s fault now "(t, key)"]
  by (auto simp: Store_value_def split: option.splits sum.splits prod.splits)

lemma Store_Set_inv:
  "coherent s \<Longrightarrow> repo_valid s \<Longrightarrow>
   coherent (snd (Store_Set fault t key v s)) \<and> repo_valid (snd (Store_Set fault t key v s))"
  by (auto simp: Store_Set_def coherent_def repo_valid_def split: option.splits)

lemma config_reach_inv: "config_reach s \<Longrightarrow> coherent s \<and> repo_valid s"
proof (induction rule: config_reach.induct)
  case init
  show ?case by (simp add: New_Store_def coherent_def repo_valid_def)
next
  case (get s fault now t key)
  then show ?case using Store_value_inv [of s fault now t key] by (simp add: GetString_def repo_valid_def)
next
  case (getint s fault now t key)
  then show ?case using Store_value_inv [of s fault now t key] by (simp add: GetInt_snd repo_valid_def)
next
  case (set s fault t key v)
  then show ?case using Store_Set_inv by blast
qed

lemma reach_value_valid:
  assumes "config_reach s" "fst (Store_value fault now t key s) = Inr v"
  shows "\<exists>k. map_of Schema key = Some k \<and> Validate k v"
proof -
  from assms(1) have inv: "coherent s" "repo_valid s" using config_reach_inv by auto
  then show ?thesis
    using Store_value_result [OF inv(1) assms(2)] Schema_Default_valid
    by (fastforce simp: repo_valid_def split: option.splits)
qed

section \<open>Properties\<close>

text \<open>Whatever text is stored, the parsed routing overrides only ever name the
  effect classes of the canonical table and postures that add restriction; and when the
  validator accepts a text, the parser skips none of its non-blank elements.\<close>

theorem effect_class_routing_sound:
  "dom (ParseEffectClassRouting v) \<subseteq> Rego ` set canonical
   \<and> (\<forall>p \<in> ran (ParseEffectClassRouting v). 2 \<le> Posture_Severity p)
   \<and> (validate_effect_class_routing v \<longrightarrow>
        (\<forall>raw \<in> set (Split v (CHR '','')). TrimSpace raw \<noteq> [] \<longrightarrow>
           (\<exists>c p. routing_pair_of raw = Pair_ok c p \<and> ParseEffectClassRouting v c \<noteq> None)))"
proof (intro conjI ballI impI)
  have wf: "dom (ParseEffectClassRouting v) \<subseteq> set validRegoClasses"
    "ran (ParseEffectClassRouting v) \<subseteq> set validPostures"
    using foldl_add_pair_wf by (auto simp: ParseEffectClassRouting_def)
  show "dom (ParseEffectClassRouting v) \<subseteq> Rego ` set canonical"
    using wf(1) by (simp add: validRegoClasses_table)
  show "2 \<le> Posture_Severity p" if "p \<in> ran (ParseEffectClassRouting v)" for p
    using wf(2) that Posture_Severity_valid by blast
  show "\<exists>c p. routing_pair_of raw = Pair_ok c p \<and> ParseEffectClassRouting v c \<noteq> None"
    if val: "validate_effect_class_routing v" and raw: "raw \<in> set (Split v (CHR '',''))"
      and ne: "TrimSpace raw \<noteq> []" for raw
  proof -
    have nn: "v \<noteq> []" using raw ne by (auto simp: TrimSpace_def TrimFunc_def TrimLeft_def TrimRight_def)
    then have "case routing_pair_of raw of Pair_empty \<Rightarrow> True | Pair_ok _ _ \<Rightarrow> True | _ \<Rightarrow> False"
      using val raw by (auto simp: validate_effect_class_routing_def list_all_iff)
    moreover have "routing_pair_of raw \<noteq> Pair_empty"
      using ne by (auto simp: routing_pair_of_def Let_def split: option.splits)
    ultimately obtain c p where cp: "routing_pair_of raw = Pair_ok c p"
      by (auto split: routing_pair.splits)
    then show ?thesis using nn foldl_add_pair_in [OF raw cp] by (simp add: ParseEffectClassRouting_def)
  qed
qed

theorem effect_class_routing_sound_witness:
  "validate_effect_class_routing ''write_local: approval, read_only:deny''
   \<and> (\<exists>c p. routing_pair_of '' read_only:deny'' = Pair_ok c p \<and>
        ParseEffectClassRouting ''write_local: approval, read_only:deny'' c \<noteq> None)"
proof -
  have "validate_effect_class_routing ''write_local: approval, read_only:deny''"
    "'' read_only:deny'' \<in> set (Split ''write_local: approval, read_only:deny'' (CHR '',''))"
    "TrimSpace '' read_only:deny'' \<noteq> []"
    by code_simp+
  then show ?thesis
    using effect_class_routing_sound [of "''write_local: approval, read_only:deny''"] by blast
qed

text \<open>In every reachable state of the store, reading an integer setting either fails
  with a repository error or returns a number the key's validator accepts; a stored or
  default value never fails to parse.\<close>

theorem GetInt_in_range:
  assumes "config_reach s" "map_of Schema key = Some k" "Kind k = KindInt"
  shows "fst (GetInt fault now t key s) = Inl RepoError
    \<or> (\<exists>n raw. fst (GetInt fault now t key s) = Inr n \<and> Atoi raw = Some n \<and> Validate k raw)"
proof (cases "fst (Store_value fault now t key s)")
  case (Inl e)
  then have "e = RepoError" using assms(2)
    by (auto simp: Store_value_def Store_get_def split: option.splits if_splits)
  then show ?thesis using Inl by (auto simp: GetInt_def split: prod.splits)
next
  case (Inr raw)
  have ok: "Validate k raw" using reach_value_valid [OF assms(1) Inr] assms(2) by simp
  have "list_all (\<lambda>(_, k). Kind k = KindInt \<longrightarrow> (\<exists>lo hi. Validate k = validate_int_range lo hi)) Schema"
    by (auto simp: Schema_def)
  then have "\<exists>lo hi. Validate k = validate_int_range lo hi"
    using assms(2,3) by (auto simp: list_all_iff dest!: map_of_SomeD)
  then obtain n where "Atoi raw = Some n" using ok by (auto simp: validate_int_range_def split: option.splits)
  then show ?thesis using Inr ok by (auto simp: GetInt_def split: prod.splits)
qed

theorem GetInt_in_range_witness:
  "fst (GetInt False 0 ''acme'' ''approval_required_n''
     (snd (Store_Set False ''acme'' ''approval_required_n'' ''3'' (New_Store Map.empty)))) = Inr 3"
proof -
  let ?s = "snd (Store_Set False ''acme'' ''approval_required_n'' ''3'' (New_Store Map.empty))"
  have r: "config_reach ?s" by (intro config_reach.intros)
  have k: "map_of Schema ''approval_required_n''
      = Some \<lparr>Kind = KindInt, Default = ''1'', Validate = validate_int_range 1 16\<rparr>"
    by (simp add: Schema_def)
  have "fst (GetInt False 0 ''acme'' ''approval_required_n'' ?s) \<noteq> Inl RepoError" by code_simp
  moreover have "fst (GetInt False 0 ''acme'' ''approval_required_n'' ?s) = Inr 3" by code_simp
  ultimately show ?thesis
    using GetInt_in_range [OF r k, of False 0 "''acme''"] by simp
qed

text \<open>Reads follow writes: after a successful Set and any run of reads of any
  settings, a read of the key that succeeds returns the value written, whatever the
  cache held before.\<close>

theorem read_your_writes:
  assumes "config_reach s" "fst (Store_Set fault t key v s) = Inr ()"
    and "s' = foldl (\<lambda>st (now, tn, ky). snd (GetString False now tn ky st)) (snd (Store_Set fault t key v s)) reads"
    and "fst (GetString fault' now t key s') = Inr r"
  shows "r = v"
proof -
  let ?s1 = "snd (Store_Set fault t key v s)"
  have inv: "coherent ?s1" using config_reach.set [OF assms(1)] config_reach_inv by blast
  have row: "repo ?s1 (t, key) = Some v"
    using assms(2) by (auto simp: Store_Set_def split: option.splits if_splits)
  have "coherent s' \<and> repo s' = repo ?s1"
    unfolding assms(3)
    by (rule foldl_invariant [where P = "\<lambda>st. coherent st \<and> repo st = repo ?s1"])
      (use inv Store_value_inv in \<open>auto simp: GetString_def\<close>)
  then show ?thesis using Store_value_result [of s' fault' now t key r] assms(4) row
    by (auto simp: GetString_def)
qed

theorem read_your_writes_witness:
  "fst (GetString False 5 ''acme'' ''identity.obo''
     (snd (Store_Set False ''acme'' ''identity.obo'' ''enforce''
       (snd (GetString False 0 ''acme'' ''identity.obo'' (New_Store Map.empty)))))) = Inr ''enforce''"
proof -
  let ?s = "snd (GetString False 0 ''acme'' ''identity.obo'' (New_Store Map.empty))"
  let ?s1 = "snd (Store_Set False ''acme'' ''identity.obo'' ''enforce'' ?s)"
  have r: "config_reach ?s" by (intro config_reach.intros)
  have a: "fst (Store_Set False ''acme'' ''identity.obo'' ''enforce'' ?s) = Inr ()" by code_simp
  have "is_ok (fst (GetString False 5 ''acme'' ''identity.obo'' ?s1))" by code_simp
  then obtain x where x: "fst (GetString False 5 ''acme'' ''identity.obo'' ?s1) = Inr x" by (rule is_okE)
  then have "x = ''enforce''" using read_your_writes [OF r a, of ?s1 "[]" False 5 x] by simp
  then show ?thesis using x by simp
qed

text \<open>The read path takes no generation stamp: when a reader has read the repository
  and a Set commits before the reader fills the cache, the next read answers the old value
  although the Set has returned.\<close>

theorem stale_fill_race:
  assumes "map_of Schema key = Some k" "Validate k v" "repo s (t, key) = Some old"
    and "0 \<le> now - fill" "now - fill < cacheTTL"
  shows "fst (Store_Set False t key v s) = Inr ()
    \<and> fst (GetString fault now t key
        (get_fill fill (t, key) (repo s (t, key)) (snd (Store_Set False t key v s)))) = Inr old"
  using assms
  by (simp add: Store_Set_def GetString_def Store_value_def Store_get_def get_lookup_def get_fill_def)

theorem stale_fill_race_witness:
  "fst (GetString False 1 ''acme'' ''identity.obo''
     (get_fill 0 (''acme'', ''identity.obo'') (Some ''audit'')
       (snd (Store_Set False ''acme'' ''identity.obo'' ''enforce''
          (New_Store [(''acme'', ''identity.obo'') \<mapsto> ''audit'']))))) = Inr ''audit''"
proof -
  let ?s = "New_Store [(''acme'', ''identity.obo'') \<mapsto> ''audit'']"
  have k: "map_of Schema ''identity.obo'' = Some \<lparr>Kind = KindString, Default = ''audit'',
      Validate = validate_one_of [''audit'', ''enforce'']\<rparr>" by (simp add: Schema_def)
  have "repo ?s (''acme'', ''identity.obo'') = Some ''audit''" by (simp add: New_Store_def)
  then show ?thesis
    using stale_fill_race [OF k, of "''enforce''" ?s "''acme''" "''audit''" 1 0 False]
    by (simp add: validate_one_of_def cacheTTL_def)
qed

end
