(* ===== verification/NetAcl.thy ===== *)
theory NetAcl
  imports EffectClass
begin

text \<open>
  Package broker/internal/netacl: the web access-list.  The evaluator (eval.go) picks
  the action of the highest ranked matching rule; the checker (checker.go) loads rules
  and group memberships through two caches and fails closed when they cannot be loaded.
\<close>

section \<open>The evaluator (eval.go)\<close>

text \<open>The values the table's check constraints admit.\<close>

datatype Action = Allow | Deny | Ask

datatype ScopeKind = ScopeTenant | ScopeGroup | ScopeUser

record Rule =
  Rule_ScopeKind :: ScopeKind
  ScopeValue :: string
  Rule_Action :: Action
  HostPattern :: string

record Principal =
  User :: string
  Groups :: "string list"

definition LastIndexByte :: "string \<Rightarrow> char \<Rightarrow> nat option" where
  "LastIndexByte s c = map_option (\<lambda>i. length s - 1 - i) (IndexByte (rev s) c)"

text \<open>The host that net.SplitHostPort returns, when it returns no error.\<close>

definition SplitHostPort :: "string \<Rightarrow> string option" where
  "SplitHostPort hp =
     (case LastIndexByte hp (CHR '':'') of
        None \<Rightarrow> None
      | Some i \<Rightarrow>
          if HasPrefix hp ''['' then
            (case IndexByte hp (CHR '']'') of
               None \<Rightarrow> None
             | Some e \<Rightarrow>
                 if e + 1 = i \<and> CHR ''['' \<notin> set (drop 1 hp) \<and> CHR '']'' \<notin> set (drop (e + 1) hp)
                 then Some (take (e - 1) (drop 1 hp)) else None)
          else
            (let host = take i hp in
             if CHR '':'' \<in> set host \<or> CHR ''['' \<in> set hp \<or> CHR '']'' \<in> set hp
             then None else Some host))"

definition normalizeHost :: "string \<Rightarrow> string" where
  "normalizeHost host0 =
     (let host1 = ToLower (TrimSpace host0);
          host2 = (case SplitHostPort host1 of Some h \<Rightarrow> h | None \<Rightarrow> host1)
      in TrimSuffix (Trim host2 ''[]'') ''.'')"

definition matchHost :: "string \<Rightarrow> string \<Rightarrow> bool" where
  "matchHost pattern0 host =
     (let pattern = Trim (ToLower (TrimSpace pattern0)) ''[]'' in
      if pattern = ''*'' then True
      else case CutPrefix pattern ''*.'' of
             Some suf \<Rightarrow> host = suf \<or> HasSuffix host (''.'' @ suf)
           | None \<Rightarrow> pattern = host)"

definition hostRank :: "string \<Rightarrow> nat" where
  "hostRank pattern =
     (if pattern = ''*'' then 1 else if HasPrefix pattern ''*.'' then 2 else 3)"

fun scopeRank :: "ScopeKind \<Rightarrow> nat" where
  "scopeRank ScopeUser = 3"
| "scopeRank ScopeGroup = 2"
| "scopeRank ScopeTenant = 1"

fun actionRank :: "Action \<Rightarrow> nat" where
  "actionRank Deny = 3"
| "actionRank Ask = 2"
| "actionRank Allow = 1"

definition scopeApplies :: "Rule \<Rightarrow> Principal \<Rightarrow> bool" where
  "scopeApplies r p =
     (case Rule_ScopeKind r of
        ScopeTenant \<Rightarrow> True
      | ScopeUser \<Rightarrow> EqualFold (ScopeValue r) (User p)
      | ScopeGroup \<Rightarrow> list_ex (\<lambda>g. EqualFold g (ScopeValue r)) (Groups p))"

definition rule_score :: "Rule \<Rightarrow> int" where
  "rule_score r = int (scopeRank (Rule_ScopeKind r) * 10 + hostRank (HostPattern r))"

text \<open>One iteration of the loop of Decide; its variables are best, winner and matched.\<close>

definition decide_step :: "Principal \<Rightarrow> string \<Rightarrow> int \<times> Action \<times> bool \<Rightarrow> Rule \<Rightarrow> int \<times> Action \<times> bool" where
  "decide_step p host st r =
     (case st of (best, winner, matched) \<Rightarrow>
        if \<not> scopeApplies r p \<or> \<not> matchHost (HostPattern r) host then (best, winner, matched)
        else if rule_score r > best then (rule_score r, Rule_Action r, True)
        else if rule_score r = best \<and> actionRank (Rule_Action r) > actionRank winner
             then (best, Rule_Action r, matched)
        else (best, winner, matched))"

definition Decide :: "Rule list \<Rightarrow> Principal \<Rightarrow> string \<Rightarrow> Action" where
  "Decide rules p host0 =
     (let host = normalizeHost host0;
          (best, winner, matched) = foldl (decide_step p host) (-1, Allow, False) rules
      in if \<not> matched then Allow else winner)"

text \<open>The loop of DecideAnyGroups: the groups tried so far and the worst action.\<close>

definition any_groups_step :: "Rule list \<Rightarrow> string \<Rightarrow> string \<Rightarrow> string list \<times> Action \<Rightarrow> Rule \<Rightarrow> string list \<times> Action" where
  "any_groups_step rules user host st r =
     (case st of (tried, worst) \<Rightarrow>
        (let group = ToLower (ScopeValue r) in
         if Rule_ScopeKind r \<noteq> ScopeGroup \<or> group \<in> set tried then (tried, worst)
         else let a = Decide rules \<lparr>User = user, Groups = [ScopeValue r]\<rparr> host
              in (group # tried, if actionRank a > actionRank worst then a else worst)))"

definition DecideAnyGroups :: "Rule list \<Rightarrow> string \<Rightarrow> string \<Rightarrow> Action" where
  "DecideAnyGroups rules user host =
     snd (foldl (any_groups_step rules user host)
            ([], Decide rules \<lparr>User = user, Groups = []\<rparr> host) rules)"

definition hasGroupRules :: "Rule list \<Rightarrow> bool" where
  "hasGroupRules rules = list_ex (\<lambda>r. Rule_ScopeKind r = ScopeGroup) rules"

section \<open>The checker (checker.go)\<close>

record 'v cacheEntry =
  ce_val :: 'v
  ce_exp :: int

definition cache_lookup :: "int \<Rightarrow> 'k \<Rightarrow> ('k \<rightharpoonup> 'v cacheEntry) \<Rightarrow> 'v option" where
  "cache_lookup now k c =
     (case c k of Some e \<Rightarrow> if now < ce_exp e then Some (ce_val e) else None | None \<Rightarrow> None)"

definition cache_fill :: "int \<Rightarrow> int \<Rightarrow> 'k \<Rightarrow> 'v \<Rightarrow> ('k \<rightharpoonup> 'v cacheEntry) \<Rightarrow> ('k \<rightharpoonup> 'v cacheEntry)" where
  "cache_fill ttl now k v c = c(k \<mapsto> \<lparr>ce_val = v, ce_exp = now + ttl\<rparr>)"

text \<open>
  \<open>src\<close> and \<open>groups\<close> are the rule source and the group resolver at the moment of the
  call: absent, failing, or answering.
\<close>

record Checker =
  ttl :: int
  ruleCache :: "string \<rightharpoonup> Rule list cacheEntry"
  groupCache :: "string \<rightharpoonup> string list cacheEntry"

type_synonym RuleSource = "string \<Rightarrow> (unit, Rule list) result"
type_synonym GroupResolver = "string \<Rightarrow> string \<Rightarrow> (unit, string list) result"

definition NewChecker :: "int \<Rightarrow> Checker" where
  "NewChecker t = \<lparr>ttl = (if t \<le> 0 then 30 else t), ruleCache = Map.empty, groupCache = Map.empty\<rparr>"

definition Checker_rules :: "RuleSource \<Rightarrow> int \<Rightarrow> string \<Rightarrow> Checker \<Rightarrow> (unit, Rule list) result \<times> Checker" where
  "Checker_rules src now tenant c =
     (case cache_lookup now tenant (ruleCache c) of
        Some rules \<Rightarrow> (Inr rules, c)
      | None \<Rightarrow>
          (case src tenant of
             Inl e \<Rightarrow> (Inl e, c)
           | Inr rules \<Rightarrow> (Inr rules, c\<lparr>ruleCache := cache_fill (ttl c) now tenant rules (ruleCache c)\<rparr>)))"

definition userGroups :: "GroupResolver option \<Rightarrow> int \<Rightarrow> string \<Rightarrow> string \<Rightarrow> Checker \<Rightarrow> (unit, string list) result \<times> Checker" where
  "userGroups groups now tenant user c =
     (case groups of
        None \<Rightarrow> (Inr [], c)
      | Some resolve \<Rightarrow>
          (let key = tenant @ [CHR 0x00] @ user in
           case cache_lookup now key (groupCache c) of
             Some gs \<Rightarrow> (Inr gs, c)
           | None \<Rightarrow>
               (case resolve tenant user of
                  Inl e \<Rightarrow> (Inl e, c)
                | Inr gs \<Rightarrow> (Inr gs, c\<lparr>groupCache := cache_fill (ttl c) now key gs (groupCache c)\<rparr>))))"

definition Checker_Decide ::
  "RuleSource option \<Rightarrow> GroupResolver option \<Rightarrow> int \<Rightarrow> string \<Rightarrow> string \<Rightarrow> string \<Rightarrow> Checker \<Rightarrow> Action \<times> Checker" where
  "Checker_Decide src groups now tenant user host c =
     (case src of
        None \<Rightarrow> (Allow, c)
      | Some load \<Rightarrow>
          (case Checker_rules load now tenant c of
             (Inl _, c1) \<Rightarrow> (Deny, c1)
           | (Inr rules, c1) \<Rightarrow>
               if \<not> hasGroupRules rules then (Decide rules \<lparr>User = user, Groups = []\<rparr> host, c1)
               else (case userGroups groups now tenant user c1 of
                       (Inl _, c2) \<Rightarrow> (DecideAnyGroups rules user host, c2)
                     | (Inr gs, c2) \<Rightarrow> (Decide rules \<lparr>User = user, Groups = gs\<rparr> host, c2))))"

interpretation acl_cache: ttl_cache cache_lookup "cache_fill t" t for t
  by unfold_locales (simp_all add: cache_lookup_def cache_fill_def)

section \<open>The evaluator against its specification\<close>

text \<open>The rules that speak about a principal and a normalized host.\<close>

definition applicable :: "Rule list \<Rightarrow> Principal \<Rightarrow> string \<Rightarrow> Rule list" where
  "applicable rules p host = filter (\<lambda>r. scopeApplies r p \<and> matchHost (HostPattern r) host) rules"

text \<open>A rule no applicable rule outranks: by score, then by how restrictive it is.\<close>

definition top_rule :: "Rule list \<Rightarrow> Rule \<Rightarrow> bool" where
  "top_rule rs r = (r \<in> set rs \<and> (\<forall>q \<in> set rs. rule_score q < rule_score r \<or>
     (rule_score q = rule_score r \<and> actionRank (Rule_Action q) \<le> actionRank (Rule_Action r))))"

definition fold_inv :: "Rule list \<Rightarrow> int \<times> Action \<times> bool \<Rightarrow> bool" where
  "fold_inv rs st = (case st of (best, winner, matched) \<Rightarrow>
     if rs = [] then best = -1 \<and> \<not> matched
     else matched \<and> (\<exists>r. top_rule rs r \<and> Rule_Action r = winner \<and> rule_score r = best))"

lemma rule_score_nonneg: "0 \<le> rule_score r"
  by (simp add: rule_score_def)

lemma top_rule_snoc_new:
  "top_rule rs q \<Longrightarrow> rule_score q < rule_score r \<or>
     (rule_score q = rule_score r \<and> actionRank (Rule_Action q) < actionRank (Rule_Action r)) \<Longrightarrow>
   top_rule (rs @ [r]) r"
  by (fastforce simp: top_rule_def)

lemma top_rule_snoc_old:
  "top_rule rs q \<Longrightarrow> rule_score r < rule_score q \<or>
     (rule_score r = rule_score q \<and> actionRank (Rule_Action r) \<le> actionRank (Rule_Action q)) \<Longrightarrow>
   top_rule (rs @ [r]) q"
  by (auto simp: top_rule_def)

lemma decide_step_inv:
  assumes "fold_inv (applicable xs p host) st"
  shows "fold_inv (applicable (xs @ [r]) p host) (decide_step p host st r)"
proof (cases "scopeApplies r p \<and> matchHost (HostPattern r) host")
  case False
  then show ?thesis using assms by (auto simp: decide_step_def applicable_def split: prod.splits)
next
  case True
  let ?rs = "applicable xs p host"
  obtain best winner matched where st: "st = (best, winner, matched)" by (cases st) auto
  have app: "applicable (xs @ [r]) p host = ?rs @ [r]" using True by (simp add: applicable_def)
  show ?thesis
  proof (cases "?rs = []")
    case True
    then show ?thesis using assms \<open>scopeApplies r p \<and> _\<close> rule_score_nonneg [of r]
      by (simp add: st app fold_inv_def decide_step_def top_rule_def)
  next
    case False
    then obtain q where q: "top_rule ?rs q" "Rule_Action q = winner" "rule_score q = best" "matched"
      using assms by (auto simp: st fold_inv_def)
    show ?thesis using top_rule_snoc_new [OF q(1), of r] top_rule_snoc_old [OF q(1), of r] q True
      by (auto simp: st app fold_inv_def decide_step_def not_less le_less)
  qed
qed

lemma decide_loop_inv: "fold_inv (applicable rules p host) (foldl (decide_step p host) (-1, Allow, False) rules)"
proof (induction rules rule: rev_induct)
  case Nil
  show ?case by (simp add: fold_inv_def applicable_def)
next
  case (snoc r rules)
  then show ?case using decide_step_inv by simp
qed

lemma Decide_none: "applicable rules p (normalizeHost host) = [] \<Longrightarrow> Decide rules p host = Allow"
  using decide_loop_inv [of rules p "normalizeHost host"]
  by (auto simp: Decide_def Let_def fold_inv_def split: prod.splits)

lemma Decide_some:
  assumes "applicable rules p (normalizeHost host) \<noteq> []"
  obtains r where "top_rule (applicable rules p (normalizeHost host)) r" "Decide rules p host = Rule_Action r"
  using decide_loop_inv [of rules p "normalizeHost host"] assms
  by (auto simp: Decide_def Let_def fold_inv_def split: prod.splits)

lemma actionRank_pos [simp]: "Suc 0 \<le> actionRank a"
  by (cases a) simp_all

lemma Decide_ge:
  assumes "q \<in> set (applicable rules p (normalizeHost host))"
    and "\<And>r. r \<in> set (applicable rules p (normalizeHost host)) \<Longrightarrow> rule_score r \<le> rule_score q"
  shows "actionRank (Rule_Action q) \<le> actionRank (Decide rules p host)"
proof -
  from assms(1) have "applicable rules p (normalizeHost host) \<noteq> []" by auto
  then obtain r where r: "top_rule (applicable rules p (normalizeHost host)) r"
    "Decide rules p host = Rule_Action r" by (rule Decide_some)
  then show ?thesis using assms by (fastforce simp: top_rule_def)
qed

lemma Decide_cong_groups:
  "ToLower g = ToLower g' \<Longrightarrow>
   Decide rules \<lparr>User = u, Groups = [g]\<rparr> host = Decide rules \<lparr>User = u, Groups = [g']\<rparr> host"
proof -
  assume g: "ToLower g = ToLower g'"
  have "scopeApplies r \<lparr>User = u, Groups = [g]\<rparr> = scopeApplies r \<lparr>User = u, Groups = [g']\<rparr>" for r
    using g by (cases "Rule_ScopeKind r") (simp_all add: scopeApplies_def EqualFold_def)
  then have "decide_step \<lparr>User = u, Groups = [g]\<rparr> = decide_step \<lparr>User = u, Groups = [g']\<rparr>"
    by (intro ext) (simp add: decide_step_def)
  then show ?thesis by (simp add: Decide_def)
qed

text \<open>The loop of DecideAnyGroups covers every group that a rule names.\<close>

definition any_inv :: "Rule list \<Rightarrow> string \<Rightarrow> string \<Rightarrow> Rule list \<Rightarrow> string list \<times> Action \<Rightarrow> bool" where
  "any_inv rules user host xs st = (case st of (tried, worst) \<Rightarrow>
     actionRank (Decide rules \<lparr>User = user, Groups = []\<rparr> host) \<le> actionRank worst \<and>
     (\<exists>gs. worst = Decide rules \<lparr>User = user, Groups = gs\<rparr> host) \<and>
     (\<forall>g. ToLower g \<in> set tried \<longrightarrow> actionRank (Decide rules \<lparr>User = user, Groups = [g]\<rparr> host) \<le> actionRank worst) \<and>
     (\<forall>r \<in> set xs. Rule_ScopeKind r = ScopeGroup \<longrightarrow> ToLower (ScopeValue r) \<in> set tried))"

lemma any_groups_step_inv:
  assumes "any_inv rules user host xs st"
  shows "any_inv rules user host (xs @ [r]) (any_groups_step rules user host st r)"
proof -
  obtain tried worst where st: "st = (tried, worst)" by (cases st) auto
  show ?thesis
  proof (cases "Rule_ScopeKind r \<noteq> ScopeGroup \<or> ToLower (ScopeValue r) \<in> set tried")
    case True
    then show ?thesis using assms by (auto simp: st any_inv_def any_groups_step_def)
  next
    case False
    let ?D = "\<lambda>gs. Decide rules \<lparr>User = user, Groups = gs\<rparr> host"
    let ?a = "?D [ScopeValue r]"
    let ?w = "if actionRank ?a > actionRank worst then ?a else worst"
    have step: "any_groups_step rules user host st r = (ToLower (ScopeValue r) # tried, ?w)"
      using False by (simp add: st any_groups_step_def Let_def)
    have inv: "actionRank (?D []) \<le> actionRank worst" "\<exists>gs. worst = ?D gs"
      "\<And>g. ToLower g \<in> set tried \<Longrightarrow> actionRank (?D [g]) \<le> actionRank worst"
      "\<And>q. q \<in> set xs \<Longrightarrow> Rule_ScopeKind q = ScopeGroup \<Longrightarrow> ToLower (ScopeValue q) \<in> set tried"
      using assms by (auto simp: st any_inv_def)
    have ge: "actionRank worst \<le> actionRank ?w" "actionRank ?a \<le> actionRank ?w" by simp_all
    have "actionRank (?D []) \<le> actionRank ?w" using inv(1) ge(1) by linarith
    moreover have "\<exists>gs. ?w = ?D gs" using inv(2) by (cases "actionRank ?a > actionRank worst") auto
    moreover have "actionRank (?D [g]) \<le> actionRank ?w"
      if "ToLower g \<in> set (ToLower (ScopeValue r) # tried)" for g
    proof (cases "ToLower g = ToLower (ScopeValue r)")
      case True
      then show ?thesis using Decide_cong_groups [OF True, of rules user host] ge(2) by simp
    next
      case False
      then have "actionRank (?D [g]) \<le> actionRank worst" using that inv(3) by simp
      then show ?thesis using ge(1) by linarith
    qed
    moreover have "ToLower (ScopeValue q) \<in> set (ToLower (ScopeValue r) # tried)"
      if "q \<in> set (xs @ [r])" "Rule_ScopeKind q = ScopeGroup" for q
      using that inv(4) by auto
    ultimately show ?thesis unfolding step any_inv_def prod.case by blast
  qed
qed

lemma any_groups_inv:
  "any_inv rules user host xs (foldl (any_groups_step rules user host) ([], Decide rules \<lparr>User = user, Groups = []\<rparr> host) xs)"
proof (induction xs rule: rev_induct)
  case Nil
  show ?case by (auto simp: any_inv_def)
next
  case (snoc r xs)
  then show ?case using any_groups_step_inv by simp
qed

lemma applicable_mono:
  assumes "\<And>r. r \<in> set rules \<Longrightarrow> scopeApplies r p \<Longrightarrow> scopeApplies r p'"
  shows "set (applicable rules p host) \<subseteq> set (applicable rules p' host)"
  using assms by (auto simp: applicable_def)

lemma winner_under_smaller:
  assumes "top_rule (applicable rules p (normalizeHost host)) r"
    and "r \<in> set (applicable rules p' (normalizeHost host))"
    and "set (applicable rules p' (normalizeHost host)) \<subseteq> set (applicable rules p (normalizeHost host))"
  shows "actionRank (Rule_Action r) \<le> actionRank (Decide rules p' host)"
proof (rule Decide_ge [OF assms(2)])
  fix q assume "q \<in> set (applicable rules p' (normalizeHost host))"
  then have "q \<in> set (applicable rules p (normalizeHost host))" using assms(3) by blast
  then show "rule_score q \<le> rule_score r" using assms(1) by (auto simp: top_rule_def le_less)
qed

lemma DecideAnyGroups_upper:
  "actionRank (Decide rules \<lparr>User = user, Groups = gs\<rparr> host) \<le> actionRank (DecideAnyGroups rules user host)"
proof -
  let ?p = "\<lparr>User = user, Groups = gs\<rparr>"
  let ?app = "\<lambda>p. applicable rules p (normalizeHost host)"
  obtain tried worst where
    f: "foldl (any_groups_step rules user host) ([], Decide rules \<lparr>User = user, Groups = []\<rparr> host) rules = (tried, worst)"
    by (metis prod.exhaust)
  have inv: "any_inv rules user host rules (tried, worst)" using any_groups_inv [of rules user host rules] f by simp
  have w: "DecideAnyGroups rules user host = worst" by (simp add: DecideAnyGroups_def f)
  show ?thesis
  proof (cases "?app ?p = []")
    case True
    then show ?thesis by (simp add: Decide_none)
  next
    case False
    then obtain r where r: "top_rule (?app ?p) r" "Decide rules ?p host = Rule_Action r" by (rule Decide_some)
    then have rin: "r \<in> set rules" "scopeApplies r ?p" "matchHost (HostPattern r) (normalizeHost host)"
      by (auto simp: top_rule_def applicable_def)
    show ?thesis
    proof (cases "Rule_ScopeKind r = ScopeGroup")
      case True
      let ?q = "\<lparr>User = user, Groups = [ScopeValue r]\<rparr>"
      have "set (?app ?q) \<subseteq> set (?app ?p)"
        using rin(2) True by (intro applicable_mono)
          (auto simp: scopeApplies_def EqualFold_def list_ex_iff split: ScopeKind.splits)
      moreover have "r \<in> set (?app ?q)" using rin True by (simp add: applicable_def scopeApplies_def)
      ultimately have "actionRank (Rule_Action r) \<le> actionRank (Decide rules ?q host)"
        using winner_under_smaller [OF r(1)] by blast
      also have "\<dots> \<le> actionRank worst" using inv rin(1) True by (auto simp: any_inv_def)
      finally show ?thesis by (simp add: r(2) w)
    next
      case False
      let ?q = "\<lparr>User = user, Groups = []\<rparr>"
      have "set (?app ?q) \<subseteq> set (?app ?p)"
        by (intro applicable_mono) (auto simp: scopeApplies_def split: ScopeKind.splits)
      moreover have "r \<in> set (?app ?q)"
        using rin False by (auto simp: applicable_def scopeApplies_def split: ScopeKind.splits)
      ultimately have "actionRank (Rule_Action r) \<le> actionRank (Decide rules ?q host)"
        using winner_under_smaller [OF r(1)] by blast
      also have "\<dots> \<le> actionRank worst" using inv by (simp add: any_inv_def)
      finally show ?thesis by (simp add: r(2) w)
    qed
  qed
qed

lemma DecideAnyGroups_attained: "\<exists>gs. DecideAnyGroups rules user host = Decide rules \<lparr>User = user, Groups = gs\<rparr> host"
  using any_groups_inv [of rules user host rules] by (auto simp: DecideAnyGroups_def any_inv_def split: prod.splits)

lemma Decide_no_group_rules:
  assumes "\<not> hasGroupRules rules"
  shows "Decide rules \<lparr>User = user, Groups = gs\<rparr> host = Decide rules \<lparr>User = user, Groups = []\<rparr> host"
proof -
  have "decide_step \<lparr>User = user, Groups = gs\<rparr> h st r = decide_step \<lparr>User = user, Groups = []\<rparr> h st r"
    if "r \<in> set rules" for h st r
  proof -
    have "Rule_ScopeKind r \<noteq> ScopeGroup" using assms that by (auto simp: hasGroupRules_def list_ex_iff)
    then have "scopeApplies r \<lparr>User = user, Groups = gs\<rparr> = scopeApplies r \<lparr>User = user, Groups = []\<rparr>"
      by (cases "Rule_ScopeKind r") (simp_all add: scopeApplies_def)
    then show ?thesis by (simp add: decide_step_def)
  qed
  then have "foldl (decide_step \<lparr>User = user, Groups = gs\<rparr> h) st rules
      = foldl (decide_step \<lparr>User = user, Groups = []\<rparr> h) st rules" for h st
    by (intro foldl_cong) auto
  then show ?thesis by (simp add: Decide_def)
qed

section \<open>Properties\<close>

text \<open>The single pass of Decide computes the specification: with no applicable rule
  the answer is Allow; otherwise it is the action of an applicable rule of the highest
  score, and no other applicable rule of that score is more restrictive.\<close>

theorem Decide_meets_spec:
  "(applicable rules p (normalizeHost host) = [] \<and> Decide rules p host = Allow)
   \<or> (\<exists>r. top_rule (applicable rules p (normalizeHost host)) r \<and> Decide rules p host = Rule_Action r)"
  using Decide_none [of rules p host] Decide_some [of rules p host] by blast

text \<open>DecideAnyGroups is the exact worst case over all group memberships: it is at
  least as restrictive as the decision under any list of groups, and some list attains it.\<close>

theorem DecideAnyGroups_is_worst_case:
  "actionRank (Decide rules \<lparr>User = user, Groups = gs\<rparr> host) \<le> actionRank (DecideAnyGroups rules user host)
   \<and> (\<exists>gs'. DecideAnyGroups rules user host = Decide rules \<lparr>User = user, Groups = gs'\<rparr> host)"
  using DecideAnyGroups_upper DecideAnyGroups_attained by blast

text \<open>The checker fails closed, whatever its caches hold.  If the rules are neither
  cached nor loadable the answer is Deny.  If rules are available, the answer is at least
  as restrictive as the decision under every membership consistent with what the resolver
  says: the groups it returns, or any groups at all when it fails.\<close>

theorem Checker_fails_closed:
  assumes "Checker_Decide (Some load) (Some resolve) now tenant user host c = (a, c')"
  shows "(fst (Checker_rules load now tenant c) = Inl () \<longrightarrow> a = Deny)
    \<and> (\<forall>rules gs. fst (Checker_rules load now tenant c) = Inr rules
         \<and> (fst (userGroups (Some resolve) now tenant user (snd (Checker_rules load now tenant c))) \<in> {Inl (), Inr gs})
         \<longrightarrow> actionRank (Decide rules \<lparr>User = user, Groups = gs\<rparr> host) \<le> actionRank a)"
proof (intro conjI impI allI)
  show "a = Deny" if "fst (Checker_rules load now tenant c) = Inl ()"
    using assms that by (auto simp: Checker_Decide_def split: prod.splits sum.splits if_splits)
  fix rules gs
  assume h: "fst (Checker_rules load now tenant c) = Inr rules
    \<and> (fst (userGroups (Some resolve) now tenant user (snd (Checker_rules load now tenant c))) \<in> {Inl (), Inr gs})"
  then obtain c1 where c1: "Checker_rules load now tenant c = (Inr rules, c1)" by (metis prod.collapse)
  show "actionRank (Decide rules \<lparr>User = user, Groups = gs\<rparr> host) \<le> actionRank a"
  proof (cases "hasGroupRules rules")
    case False
    then show ?thesis using assms c1 Decide_no_group_rules [OF False, of user gs host]
      by (simp add: Checker_Decide_def)
  next
    case True
    then show ?thesis using assms c1 h DecideAnyGroups_upper [of rules user gs host]
      by (auto simp: Checker_Decide_def split: prod.splits sum.splits)
  qed
qed

theorem Checker_fails_closed_witness:
  "actionRank (Decide [\<lparr>Rule_ScopeKind = ScopeGroup, ScopeValue = ''Finance'', Rule_Action = Deny, HostPattern = ''*.evil.com''\<rparr>]
       \<lparr>User = ''bob'', Groups = [''finance'']\<rparr> ''www.evil.com:443'')
   \<le> actionRank (fst (Checker_Decide
        (Some (\<lambda>_. Inr [\<lparr>Rule_ScopeKind = ScopeGroup, ScopeValue = ''Finance'', Rule_Action = Deny, HostPattern = ''*.evil.com''\<rparr>]))
        (Some (\<lambda>_ _. Inl ())) 0 ''acme'' ''bob'' ''www.evil.com:443'' (NewChecker 0)))"
proof -
  let ?rules = "[\<lparr>Rule_ScopeKind = ScopeGroup, ScopeValue = ''Finance'', Rule_Action = Deny, HostPattern = ''*.evil.com''\<rparr>]"
  let ?load = "\<lambda>_. Inr ?rules"
  let ?res = "\<lambda>_ _. Inl ()"
  have r: "Checker_rules ?load 0 ''acme'' (NewChecker 0)
      = (Inr ?rules, (NewChecker 0)\<lparr>ruleCache := cache_fill 30 0 ''acme'' ?rules Map.empty\<rparr>)"
    by (simp add: Checker_rules_def NewChecker_def cache_lookup_def)
  have g: "fst (userGroups (Some ?res) 0 ''acme'' ''bob'' (snd (Checker_rules ?load 0 ''acme'' (NewChecker 0)))) = Inl ()"
    by (simp only: r snd_conv) (simp add: userGroups_def NewChecker_def cache_lookup_def)
  show ?thesis
    using Checker_fails_closed [of ?load ?res 0 "''acme''" "''bob''" "''www.evil.com:443''" "NewChecker 0"] r g
    by (metis fst_conv insertCI prod.collapse)
qed

section \<open>Bounded staleness of the checker\<close>

text \<open>The states a checker can reach when the source answers \<open>hist t\<close> and the resolver
  \<open>gh t\<close> at time \<open>t\<close>.\<close>

inductive checker_reach :: "(int \<Rightarrow> RuleSource) \<Rightarrow> (int \<Rightarrow> GroupResolver) \<Rightarrow> Checker \<Rightarrow> bool"
  for hist gh where
  init: "checker_reach hist gh (NewChecker t)"
| decide: "checker_reach hist gh c \<Longrightarrow>
    checker_reach hist gh (snd (Checker_Decide (Some (hist now)) (Some (gh now)) now tenant user host c))"

abbreviation rules_fresh :: "(int \<Rightarrow> RuleSource) \<Rightarrow> Checker \<Rightarrow> bool" where
  "rules_fresh hist c \<equiv> acl_cache.fresh (ttl c) (\<lambda>t k v. hist t k = Inr v) (ruleCache c)"

lemma Checker_rules_fresh:
  "rules_fresh hist c \<Longrightarrow> rules_fresh hist (snd (Checker_rules (hist now) now tenant c))
     \<and> ttl (snd (Checker_rules (hist now) now tenant c)) = ttl c"
  by (auto simp: Checker_rules_def intro!: acl_cache.fresh_fill split: option.splits sum.splits)

lemma userGroups_frame:
  "ruleCache (snd (userGroups groups now tenant user c)) = ruleCache c
   \<and> ttl (snd (userGroups groups now tenant user c)) = ttl c"
  by (auto simp: userGroups_def Let_def split: option.splits sum.splits)

lemma Checker_Decide_fresh:
  assumes "rules_fresh hist c"
  shows "rules_fresh hist (snd (Checker_Decide (Some (hist now)) groups now tenant user host c))"
proof -
  obtain r c1 where c1: "Checker_rules (hist now) now tenant c = (r, c1)" by (metis prod.exhaust)
  obtain g c2 where c2: "userGroups groups now tenant user c1 = (g, c2)" by (metis prod.exhaust)
  have "rules_fresh hist c1" using Checker_rules_fresh [OF assms, of now tenant]
    unfolding c1 snd_conv by (rule conjunct1)
  moreover have "ruleCache c2 = ruleCache c1" "ttl c2 = ttl c1"
    using userGroups_frame [of groups now tenant user c1] c2 by simp_all
  ultimately show ?thesis by (simp add: Checker_Decide_def c1 c2 split: sum.splits)
qed

lemma checker_reach_fresh: "checker_reach hist gh c \<Longrightarrow> rules_fresh hist c"
proof (induction rule: checker_reach.induct)
  case (init t)
  show ?case by (rule acl_cache.fresh_empty) (simp add: NewChecker_def cache_lookup_def)
next
  case (decide c now tenant user host)
  show ?case by (rule Checker_Decide_fresh [OF decide.IH])
qed

text \<open>A rule change is in force within the time to live: in every reachable state,
  the rules a decision at time \<open>now\<close> uses are rules the source returned for that tenant
  less than \<open>ttl\<close> ago, or at the moment of the call.\<close>

theorem Checker_rules_bounded_staleness:
  assumes "checker_reach hist gh c" "fst (Checker_rules (hist now) now tenant c) = Inr rules"
  shows "\<exists>t. (t = now \<or> now < t + ttl c) \<and> hist t tenant = Inr rules"
proof (cases "cache_lookup now tenant (ruleCache c)")
  case None
  then show ?thesis using assms(2) by (auto simp: Checker_rules_def split: sum.splits)
next
  case (Some v)
  then have "v = rules" using assms(2) by (simp add: Checker_rules_def)
  then show ?thesis using acl_cache.fresh_lookup [OF checker_reach_fresh [OF assms(1)] Some] by blast
qed

theorem Checker_rules_bounded_staleness_witness:
  "\<exists>t. (t = 7 \<or> 7 < t + ttl (NewChecker 0)) \<and> (\<lambda>_ _. Inr []) t ''acme'' = (Inr [] :: (unit, Rule list) result)"
  using Checker_rules_bounded_staleness [of "\<lambda>_ _. Inr []" "\<lambda>_ _ _. Inr []" "NewChecker 0" 7 "''acme''" "[]"]
    checker_reach.init [of "\<lambda>_ _. Inr []" "\<lambda>_ _ _. Inr []" 0]
  by (simp add: Checker_rules_def NewChecker_def cache_lookup_def)

end
