(* ===== verification/RouteStep.thy ===== *)
theory RouteStep
  imports PolicyGates ToolRegistry ConfigStore NetAcl
begin

text \<open>
  broker/internal/broker/route_step.go, submit_ifaces.go and decision_record.go: the five
  layer escalation pipeline shared by SubmitPlan and SimulatePolicy.  The three Go
  interfaces it calls (the policy engine, the settings, the access-list) are function
  values of the input record; the other theories provide their implementations.
\<close>

section \<open>Decision buckets (submit_ifaces.go)\<close>

datatype stepCategory = stepAllow | stepApproval | stepStepUp | stepDeny

definition classifyDecision :: "Decision \<Rightarrow> stepCategory" where
  "classifyDecision dec =
     (if d_Deny dec \<or> (\<not> d_Allow dec \<and> \<not> NeedsApproval dec \<and> \<not> NeedsStepUp dec) then stepDeny
      else if NeedsStepUp dec then stepStepUp
      else if NeedsApproval dec then stepApproval
      else stepAllow)"

definition decisionSeverity :: "Decision \<Rightarrow> nat" where
  "decisionSeverity dec =
     (case classifyDecision dec of stepAllow \<Rightarrow> 1 | stepApproval \<Rightarrow> 2 | stepStepUp \<Rightarrow> 3 | stepDeny \<Rightarrow> 4)"

definition applyPosture :: "Posture \<Rightarrow> Decision \<Rightarrow> Decision" where
  "applyPosture p dec =
     (if p = PostureApproval then
        dec\<lparr>d_Allow := False, NeedsApproval := True, NeedsStepUp := False, d_Deny := False,
            Reason := ''effect_class_routing config requires approval''\<rparr>
      else if p = PostureStepUp then
        dec\<lparr>d_Allow := False, NeedsApproval := True, NeedsStepUp := True, d_Deny := False,
            Reason := ''effect_class_routing config requires step-up''\<rparr>
      else if p = PostureDeny then
        dec\<lparr>d_Allow := False, NeedsApproval := False, NeedsStepUp := False, d_Deny := True,
            Reason := ''effect_class_routing config denies this effect class''\<rparr>
      else dec)"

definition toolInList :: "string list \<Rightarrow> string \<Rightarrow> bool" where
  "toolInList list toolID = list_ex (\<lambda>t. t = toolID) list"

section \<open>The pipeline (route_step.go)\<close>

record routeStepInput =
  ri_Engine :: "ToolQuery \<Rightarrow> (policy_error, Decision option) result"
  ri_Reg :: Registry
  ri_Cfg :: "string \<Rightarrow> string \<Rightarrow> (config_error, string) result"
  ri_ACL :: "(string \<Rightarrow> string \<Rightarrow> string \<Rightarrow> Action) option"
  ri_TenantID :: string
  ri_UserID :: string
  ri_ToolID :: string
  ri_EffectClass :: effect_class
  ri_ActorSpiffeID :: string
  ri_FGADecision :: string
  ri_NetaclHost :: string
  ri_OverlayGateEnabled :: bool
  ri_SensitivityKnob :: "bool option"

record routeTrace =
  SensitivityDerived :: bool
  ReadsSensitive :: bool
  PostOpaDecision :: "Decision option"
  NetaclHost :: string
  NetaclAction :: "Action option"
  NetaclMutated :: bool
  DisabledToolsHit :: bool
  OverlayDisableHit :: bool
  ConfigOverride :: "(string \<times> Posture) option"

definition zero_routeTrace :: routeTrace where
  "zero_routeTrace = \<lparr>SensitivityDerived = False, ReadsSensitive = False, PostOpaDecision = None,
     NetaclHost = [], NetaclAction = None, NetaclMutated = False, DisabledToolsHit = False,
     OverlayDisableHit = False, ConfigOverride = None\<rparr>"

definition force_deny :: "string \<Rightarrow> Decision \<Rightarrow> Decision" where
  "force_deny reason dec =
     dec\<lparr>d_Allow := False, d_Deny := True, NeedsApproval := False, NeedsStepUp := False, Reason := reason\<rparr>"

definition sensitivity_trace :: "routeStepInput \<Rightarrow> routeTrace" where
  "sensitivity_trace inp =
     (case ri_SensitivityKnob inp of
        Some knob \<Rightarrow>
          if EffectClassForTenant (ri_Reg inp) (ri_TenantID inp) (ri_ToolID inp) = None
          then zero_routeTrace\<lparr>SensitivityDerived := False, ReadsSensitive := knob\<rparr>
          else zero_routeTrace\<lparr>SensitivityDerived := True\<rparr>
      | None \<Rightarrow> zero_routeTrace\<lparr>SensitivityDerived := True\<rparr>)"

definition route_query :: "routeStepInput \<Rightarrow> routeTrace \<Rightarrow> ToolQuery" where
  "route_query inp tr =
     zero_ToolQuery\<lparr>q_UserID := ri_UserID inp, q_TenantID := ri_TenantID inp, q_ToolID := ri_ToolID inp,
       q_EffectClass := ri_EffectClass inp, q_ActorSpiffeID := ri_ActorSpiffeID inp,
       q_ReadsSensitive := ReadsSensitive tr, q_FGADecision := ri_FGADecision inp\<rparr>"

definition layer_netacl :: "routeStepInput \<Rightarrow> Decision \<times> routeTrace \<Rightarrow> Decision \<times> routeTrace" where
  "layer_netacl inp st =
     (case st of (dec, tr) \<Rightarrow>
        (case ri_ACL inp of
           None \<Rightarrow> (dec, tr)
         | Some acl \<Rightarrow>
             if ri_NetaclHost inp = [] then (dec, tr)
             else
               (case acl (ri_TenantID inp) (ri_UserID inp) (ri_NetaclHost inp) of
                  Deny \<Rightarrow> (force_deny ''network host is not permitted by the access-list'' dec,
                           tr\<lparr>NetaclHost := ri_NetaclHost inp, NetaclAction := Some Deny, NetaclMutated := True\<rparr>)
                | Ask \<Rightarrow>
                    (let tr1 = tr\<lparr>NetaclHost := ri_NetaclHost inp, NetaclAction := Some Ask\<rparr> in
                     if d_Allow dec
                     then (dec\<lparr>d_Allow := False, NeedsApproval := True, Reason := ''network host requires approval''\<rparr>,
                           tr1\<lparr>NetaclMutated := True\<rparr>)
                     else (dec, tr1))
                | Allow \<Rightarrow> (dec, tr\<lparr>NetaclHost := ri_NetaclHost inp, NetaclAction := Some Allow\<rparr>))))"

definition layer_disabled_tools :: "routeStepInput \<Rightarrow> string \<Rightarrow> Decision \<times> routeTrace \<Rightarrow> Decision \<times> routeTrace" where
  "layer_disabled_tools inp setting st =
     (case st of (dec, tr) \<Rightarrow>
        if toolInList (ParseList setting) (ri_ToolID inp)
        then (force_deny ''tool is disabled'' dec, tr\<lparr>DisabledToolsHit := True\<rparr>) else (dec, tr))"

definition layer_overlay :: "routeStepInput \<Rightarrow> Decision \<times> routeTrace \<Rightarrow> Decision \<times> routeTrace" where
  "layer_overlay inp st =
     (case st of (dec, tr) \<Rightarrow>
        if ri_OverlayGateEnabled inp \<and> IsEnabled (ri_Reg inp) (ri_TenantID inp) (ri_ToolID inp) = Some False
        then (force_deny ''tool is disabled'' dec, tr\<lparr>OverlayDisableHit := True\<rparr>) else (dec, tr))"

definition layer_posture :: "(effect_class \<Rightarrow> string) \<Rightarrow> routeStepInput \<Rightarrow> string \<Rightarrow> Decision \<times> routeTrace \<Rightarrow> Decision \<times> routeTrace" where
  "layer_posture enum_string inp setting st =
     (case st of (dec, tr) \<Rightarrow>
        (let regoName = RegoString enum_string (ri_EffectClass inp) in
         case ParseEffectClassRouting setting regoName of
           None \<Rightarrow> (dec, tr)
         | Some posture \<Rightarrow>
             if Posture_Severity posture > decisionSeverity dec
             then (applyPosture posture dec, tr\<lparr>ConfigOverride := Some (regoName, posture)\<rparr>)
             else (dec, tr)))"

definition routeStep :: "(effect_class \<Rightarrow> string) \<Rightarrow> routeStepInput \<Rightarrow> (policy_error, Decision \<times> routeTrace) result" where
  "routeStep enum_string inp =
     (let tr0 = sensitivity_trace inp in
      case ri_Engine inp (route_query inp tr0) of
        Inl e \<Rightarrow> Inl e
      | Inr None \<Rightarrow> Inl NilDecision
      | Inr (Some dec) \<Rightarrow>
          (let st = layer_netacl inp (dec, tr0\<lparr>PostOpaDecision := Some dec\<rparr>) in
           case ri_Cfg inp (ri_TenantID inp) ''disabled_tools'' of
             Inl _ \<Rightarrow> Inl SettingUnreadable
           | Inr disabled \<Rightarrow>
               (let st2 = layer_overlay inp (layer_disabled_tools inp disabled st) in
                case ri_Cfg inp (ri_TenantID inp) ''effect_class_routing'' of
                  Inl _ \<Rightarrow> Inl SettingUnreadable
                | Inr routing \<Rightarrow> Inr (layer_posture enum_string inp routing st2))))"

section \<open>Records of a decision (decision_record.go)\<close>

definition decisionString :: "stepCategory \<Rightarrow> string" where
  "decisionString c =
     (case c of stepDeny \<Rightarrow> ''deny'' | stepStepUp \<Rightarrow> ''step_up_required''
      | stepApproval \<Rightarrow> ''approval_required'' | stepAllow \<Rightarrow> ''allow'')"

datatype AuditPolicyDecision = POLICY_DECISION_UNSPECIFIED | ALLOW | DENY | APPROVAL_REQUIRED | STEP_UP_REQUIRED

definition auditDecisionFor :: "stepCategory \<Rightarrow> AuditPolicyDecision" where
  "auditDecisionFor c = (case c of stepDeny \<Rightarrow> DENY | stepAllow \<Rightarrow> ALLOW | _ \<Rightarrow> APPROVAL_REQUIRED)"

record layerRecord =
  Layer :: string
  Effect :: string

definition routeLayers :: "Decision \<Rightarrow> routeTrace \<Rightarrow> layerRecord list \<times> string" where
  "routeLayers dec rt =
     (let layers =
        (if NetaclMutated rt
         then [\<lparr>Layer = ''netacl'', Effect = (if NetaclAction rt = Some Ask then ''approval_required'' else ''deny'')\<rparr>]
         else []) @
        (if DisabledToolsHit rt then [\<lparr>Layer = ''tenant_config:disabled_tools'', Effect = ''deny''\<rparr>] else []) @
        (if OverlayDisableHit rt then [\<lparr>Layer = ''skill_overlay'', Effect = ''deny''\<rparr>] else []) @
        (case ConfigOverride rt of
           Some (_, posture) \<Rightarrow> [\<lparr>Layer = ''tenant_config:effect_class_routing'', Effect = posture\<rparr>]
         | None \<Rightarrow> []);
        decidedBy = (case DEvidence dec of
                       Some ev \<Rightarrow> if PolicyRuleID dec = core_path then ''opa:'' @ ev_Query ev else PolicyRuleID dec
                     | None \<Rightarrow> PolicyRuleID dec)
      in (layers, if layers \<noteq> [] then Layer (last layers) else decidedBy))"

section \<open>Lemmas\<close>

lemma decisionSeverity_range: "1 \<le> decisionSeverity d" "decisionSeverity d \<le> 4"
  by (auto simp: decisionSeverity_def split: stepCategory.splits)

lemma decisionSeverity_force_deny [simp]: "decisionSeverity (force_deny r d) = 4"
  by (simp add: decisionSeverity_def classifyDecision_def force_deny_def)

lemma decisionSeverity_applyPosture:
  "0 < Posture_Severity p \<Longrightarrow> decisionSeverity (applyPosture p d) = Posture_Severity p"
  by (auto simp: decisionSeverity_def classifyDecision_def applyPosture_def Posture_Severity_def split: if_splits)

text \<open>The floor each layer puts under the severity of the decision.\<close>

definition netacl_floor :: "routeStepInput \<Rightarrow> nat" where
  "netacl_floor inp =
     (case ri_ACL inp of
        None \<Rightarrow> 1
      | Some acl \<Rightarrow>
          if ri_NetaclHost inp = [] then 1
          else (case acl (ri_TenantID inp) (ri_UserID inp) (ri_NetaclHost inp) of Deny \<Rightarrow> 4 | Ask \<Rightarrow> 2 | Allow \<Rightarrow> 1))"

definition disabled_floor :: "routeStepInput \<Rightarrow> string \<Rightarrow> nat" where
  "disabled_floor inp setting = (if toolInList (ParseList setting) (ri_ToolID inp) then 4 else 1)"

definition overlay_floor :: "routeStepInput \<Rightarrow> nat" where
  "overlay_floor inp = (if ri_OverlayGateEnabled inp \<and>
      IsEnabled (ri_Reg inp) (ri_TenantID inp) (ri_ToolID inp) = Some False then 4 else 1)"

definition posture_floor :: "(effect_class \<Rightarrow> string) \<Rightarrow> routeStepInput \<Rightarrow> string \<Rightarrow> nat" where
  "posture_floor es inp setting =
     (case ParseEffectClassRouting setting (RegoString es (ri_EffectClass inp)) of
        None \<Rightarrow> 1 | Some p \<Rightarrow> Posture_Severity p)"

lemma layer_netacl_severity:
  "decisionSeverity (fst (layer_netacl inp (d, tr))) = max (decisionSeverity d) (netacl_floor inp)"
proof -
  have ask: "decisionSeverity (d\<lparr>d_Allow := False, NeedsApproval := True, Reason := r\<rparr>) = max (decisionSeverity d) 2"
    if "d_Allow d" for r
    using that by (auto simp: decisionSeverity_def classifyDecision_def)
  have noask: "decisionSeverity d = max (decisionSeverity d) 2" if "\<not> d_Allow d"
    using that by (auto simp: decisionSeverity_def classifyDecision_def)
  have le: "decisionSeverity d = max (decisionSeverity d) 1" "4 = max (decisionSeverity d) 4"
    using decisionSeverity_range [of d] by (simp_all add: max_def)
  show ?thesis using ask noask le
    by (auto simp: layer_netacl_def netacl_floor_def Let_def split: option.splits Action.splits)
qed

lemma layer_disabled_severity:
  "decisionSeverity (fst (layer_disabled_tools inp v (d, tr))) = max (decisionSeverity d) (disabled_floor inp v)"
  using decisionSeverity_range [of d] by (auto simp: layer_disabled_tools_def disabled_floor_def)

lemma layer_overlay_severity:
  "decisionSeverity (fst (layer_overlay inp (d, tr))) = max (decisionSeverity d) (overlay_floor inp)"
  using decisionSeverity_range [of d] by (auto simp: layer_overlay_def overlay_floor_def)

lemma layer_posture_severity:
  "decisionSeverity (fst (layer_posture es inp v (d, tr))) = max (decisionSeverity d) (posture_floor es inp v)"
  using decisionSeverity_range [of d]
  by (auto simp: layer_posture_def posture_floor_def Let_def decisionSeverity_applyPosture split: option.splits)

lemmas layer_severities =
  layer_netacl_severity layer_disabled_severity layer_overlay_severity layer_posture_severity

text \<open>How a successful run of the pipeline is composed.\<close>

lemma routeStep_Inr:
  assumes "routeStep es inp = Inr (dec, tr)"
  obtains d0 disabled routing where
    "ri_Engine inp (route_query inp (sensitivity_trace inp)) = Inr (Some d0)"
    "ri_Cfg inp (ri_TenantID inp) ''disabled_tools'' = Inr disabled"
    "ri_Cfg inp (ri_TenantID inp) ''effect_class_routing'' = Inr routing"
    "(dec, tr) = layer_posture es inp routing (layer_overlay inp (layer_disabled_tools inp disabled
       (layer_netacl inp (d0, (sensitivity_trace inp)\<lparr>PostOpaDecision := Some d0\<rparr>))))"
  using assms by (auto simp: routeStep_def Let_def split: sum.splits option.splits)

lemma pipeline_severity:
  "decisionSeverity (fst (layer_posture es inp routing (layer_overlay inp (layer_disabled_tools inp disabled
       (layer_netacl inp (d0, tr0)))))) =
   max (max (max (max (decisionSeverity d0) (netacl_floor inp)) (disabled_floor inp disabled)) (overlay_floor inp))
     (posture_floor es inp routing)"
  by (metis layer_severities prod.collapse)

lemma unmutated_layers:
  "\<not> NetaclMutated (snd (layer_netacl inp (d, tr))) \<Longrightarrow> fst (layer_netacl inp (d, tr)) = d"
  "\<not> DisabledToolsHit (snd (layer_disabled_tools inp v (d, tr))) \<Longrightarrow> layer_disabled_tools inp v (d, tr) = (d, tr)"
  "\<not> OverlayDisableHit (snd (layer_overlay inp (d, tr))) \<Longrightarrow> layer_overlay inp (d, tr) = (d, tr)"
  "ConfigOverride (snd (layer_posture es inp v (d, tr))) = None \<Longrightarrow> layer_posture es inp v (d, tr) = (d, tr)"
  by (auto simp: layer_netacl_def layer_disabled_tools_def layer_overlay_def layer_posture_def Let_def
      split: option.splits Action.splits if_splits)

lemma layer_trace_frame:
  "NetaclMutated (snd (layer_disabled_tools inp v st)) = NetaclMutated (snd st)"
  "NetaclMutated (snd (layer_overlay inp st)) = NetaclMutated (snd st)"
  "NetaclMutated (snd (layer_posture es inp v st)) = NetaclMutated (snd st)"
  "DisabledToolsHit (snd (layer_overlay inp st)) = DisabledToolsHit (snd st)"
  "DisabledToolsHit (snd (layer_posture es inp v st)) = DisabledToolsHit (snd st)"
  "OverlayDisableHit (snd (layer_posture es inp v st)) = OverlayDisableHit (snd st)"
  by (auto simp: layer_disabled_tools_def layer_overlay_def layer_posture_def Let_def
      split: prod.splits option.splits)

lemma PostOpa_frame:
  "PostOpaDecision (snd (layer_netacl inp st)) = PostOpaDecision (snd st)"
  "PostOpaDecision (snd (layer_disabled_tools inp v st)) = PostOpaDecision (snd st)"
  "PostOpaDecision (snd (layer_overlay inp st)) = PostOpaDecision (snd st)"
  "PostOpaDecision (snd (layer_posture es inp v st)) = PostOpaDecision (snd st)"
  by (auto simp: layer_netacl_def layer_disabled_tools_def layer_overlay_def layer_posture_def Let_def
      split: prod.splits option.splits Action.splits)

section \<open>Properties\<close>

text \<open>C35.  The pipeline refines "the strictest layer wins": when routeStep returns a
  decision, its severity is exactly the maximum of the policy engine's severity and of the
  floors of the access-list, the disabled tools, the overlay and the configured posture.
  No order of the layers, and no later layer, can relax what another imposed.\<close>

theorem routeStep_strictest_wins:
  assumes "routeStep es inp = Inr (dec, tr)"
  shows "\<exists>d0 disabled routing.
     ri_Engine inp (route_query inp (sensitivity_trace inp)) = Inr (Some d0)
     \<and> ri_Cfg inp (ri_TenantID inp) ''disabled_tools'' = Inr disabled
     \<and> ri_Cfg inp (ri_TenantID inp) ''effect_class_routing'' = Inr routing
     \<and> decisionSeverity dec = Max {decisionSeverity d0, netacl_floor inp, disabled_floor inp disabled,
          overlay_floor inp, posture_floor es inp routing}"
proof -
  from assms obtain d0 disabled routing where r:
    "ri_Engine inp (route_query inp (sensitivity_trace inp)) = Inr (Some d0)"
    "ri_Cfg inp (ri_TenantID inp) ''disabled_tools'' = Inr disabled"
    "ri_Cfg inp (ri_TenantID inp) ''effect_class_routing'' = Inr routing"
    "(dec, tr) = layer_posture es inp routing (layer_overlay inp (layer_disabled_tools inp disabled
       (layer_netacl inp (d0, (sensitivity_trace inp)\<lparr>PostOpaDecision := Some d0\<rparr>))))"
    by (rule routeStep_Inr)
  have "decisionSeverity dec = Max {decisionSeverity d0, netacl_floor inp, disabled_floor inp disabled,
          overlay_floor inp, posture_floor es inp routing}"
    using pipeline_severity [of es inp routing disabled d0 "(sensitivity_trace inp)\<lparr>PostOpaDecision := Some d0\<rparr>"]
    by (simp add: r(4) [symmetric] max.assoc)
  with r show ?thesis by blast
qed

definition example_input :: routeStepInput where
  "example_input = \<lparr>
     ri_Engine = (\<lambda>_. Inr (Some \<lparr>d_Allow = True, NeedsApproval = False, NeedsStepUp = False, d_Deny = False,
        Reason = [], Reasons = [], PolicyRuleID = core_path, DEvidence = None\<rparr>)),
     ri_Reg = NewRegistry,
     ri_Cfg = (\<lambda>_ k. if k = ''disabled_tools'' then Inr ''slack.dm, slack.post'' else Inr []),
     ri_ACL = None, ri_TenantID = ''acme'', ri_UserID = ''bob'', ri_ToolID = ''slack.post'',
     ri_EffectClass = WRITE_EXTERNAL, ri_ActorSpiffeID = [], ri_FGADecision = ''allow'',
     ri_NetaclHost = [], ri_OverlayGateEnabled = False, ri_SensitivityKnob = None\<rparr>"

lemma example_routed: "\<exists>dec tr. routeStep (\<lambda>_. []) example_input = Inr (dec, tr) \<and> d_Deny dec"
proof -
  have "toolInList (ParseList ''slack.dm, slack.post'') ''slack.post''" by code_simp
  then show ?thesis
    by (simp add: routeStep_def example_input_def layer_netacl_def layer_disabled_tools_def layer_overlay_def
        layer_posture_def ParseEffectClassRouting_def force_deny_def)
qed

theorem routeStep_strictest_wins_witness:
  "\<exists>dec tr d0 disabled. routeStep (\<lambda>_. []) example_input = Inr (dec, tr)
     \<and> decisionSeverity dec \<ge> max (decisionSeverity d0) (disabled_floor example_input disabled)"
proof -
  from example_routed obtain dec tr where r: "routeStep (\<lambda>_. []) example_input = Inr (dec, tr)" by blast
  from routeStep_strictest_wins [OF r] obtain d0 disabled routing where
    "decisionSeverity dec = Max {decisionSeverity d0, netacl_floor example_input, disabled_floor example_input disabled,
          overlay_floor example_input, posture_floor (\<lambda>_. []) example_input routing}" by blast
  then have "decisionSeverity dec \<ge> max (decisionSeverity d0) (disabled_floor example_input disabled)" by simp
  with r show ?thesis by blast
qed

text \<open>The pipeline fails closed: it returns a decision if and only if the engine
  returned one and both tenant settings could be read; every other case is an error, so no
  step is routed without its settings.\<close>

theorem routeStep_fails_closed:
  "is_ok (routeStep es inp) \<longleftrightarrow>
     (\<exists>d0. ri_Engine inp (route_query inp (sensitivity_trace inp)) = Inr (Some d0))
     \<and> is_ok (ri_Cfg inp (ri_TenantID inp) ''disabled_tools'')
     \<and> is_ok (ri_Cfg inp (ri_TenantID inp) ''effect_class_routing'')"
  by (auto simp: routeStep_def Let_def is_ok_def split: sum.splits option.splits)

text \<open>The decision record names the layer that decided: when no layer is listed the
  decision is the policy engine's own, unchanged, and the recorded snapshot is always that
  engine decision.\<close>

theorem routeLayers_attribution:
  assumes "routeStep es inp = Inr (dec, tr)" "fst (routeLayers dec tr) = []"
  shows "PostOpaDecision tr = Some dec"
proof -
  from assms(1) obtain d0 disabled routing where r:
    "(dec, tr) = layer_posture es inp routing (layer_overlay inp (layer_disabled_tools inp disabled
       (layer_netacl inp (d0, (sensitivity_trace inp)\<lparr>PostOpaDecision := Some d0\<rparr>))))"
    by (rule routeStep_Inr)
  let ?s1 = "layer_netacl inp (d0, (sensitivity_trace inp)\<lparr>PostOpaDecision := Some d0\<rparr>)"
  let ?s2 = "layer_disabled_tools inp disabled ?s1"
  let ?s3 = "layer_overlay inp ?s2"
  have flags: "\<not> NetaclMutated tr" "\<not> DisabledToolsHit tr" "\<not> OverlayDisableHit tr" "ConfigOverride tr = None"
    using assms(2) by (auto simp: routeLayers_def Let_def split: if_splits option.splits)
  have tr: "tr = snd (layer_posture es inp routing ?s3)" using r by (metis snd_conv)
  have "layer_posture es inp routing ?s3 = ?s3"
    using unmutated_layers(4) flags(4) tr by (metis prod.collapse)
  moreover have "?s3 = ?s2"
    using unmutated_layers(3) flags(3) tr layer_trace_frame(6) by (metis prod.collapse)
  moreover have "?s2 = ?s1"
    using unmutated_layers(2) flags(2) tr layer_trace_frame(4,5) by (metis prod.collapse)
  moreover have "fst ?s1 = d0"
    using unmutated_layers(1) flags(1) tr layer_trace_frame(1,2,3) by metis
  moreover have "PostOpaDecision tr = Some d0" using tr by (simp add: PostOpa_frame)
  ultimately show ?thesis using r by (metis fst_conv)
qed

theorem routeLayers_attribution_witness:
  "\<exists>dec tr. routeStep (\<lambda>_. []) (example_input\<lparr>ri_ToolID := ''siem.query''\<rparr>) = Inr (dec, tr)
     \<and> PostOpaDecision tr = Some dec"
proof -
  have "\<not> toolInList (ParseList ''slack.dm, slack.post'') ''siem.query''" by code_simp
  then have "\<exists>dec tr. routeStep (\<lambda>_. []) (example_input\<lparr>ri_ToolID := ''siem.query''\<rparr>) = Inr (dec, tr)
     \<and> fst (routeLayers dec tr) = []"
    by (simp add: routeStep_def example_input_def layer_netacl_def layer_disabled_tools_def layer_overlay_def
        layer_posture_def ParseEffectClassRouting_def sensitivity_trace_def zero_routeTrace_def routeLayers_def Let_def)
  then show ?thesis using routeLayers_attribution by blast
qed

end
