(* ===== verification/ApprovalSvc.thy ===== *)
theory ApprovalSvc
  imports ApprovalGates Identity RouteStep
begin

text \<open>
  Package broker/internal/approvalsvc: the argument digest (digest.go), the step-up rule
  (stepup.go), planning and creating the approval gate of a plan (build.go) and resolving
  it (resolve.go).  OpenFGA is the argument \<open>AccessPolicy\<close>; SHA-256 with hexadecimal output
  is the argument \<open>sha256\<close>; the minter of capability tokens is the argument \<open>mint\<close>.
\<close>

section \<open>Statuses of the wire protocol\<close>

datatype TaskStatus = TASK_STATUS_UNSPECIFIED | TaskStatus_CREATED | TaskStatus_PLANNING | TaskStatus_VALIDATING
  | TaskStatus_AWAITING_APPROVAL | TaskStatus_APPROVED | TaskStatus_EXECUTING | TaskStatus_COMPLETED
  | TaskStatus_FAILED | TaskStatus_DENIED | TaskStatus_CANCELLED | TaskStatus_TERMINATED | TaskStatus_TIMEOUT

fun dbStateToProtoStatus :: "TaskState \<Rightarrow> TaskStatus" where
  "dbStateToProtoStatus TaskStateCreated = TaskStatus_CREATED"
| "dbStateToProtoStatus TaskStatePlanning = TaskStatus_PLANNING"
| "dbStateToProtoStatus TaskStateValidating = TaskStatus_VALIDATING"
| "dbStateToProtoStatus TaskStateAwaitingApproval = TaskStatus_AWAITING_APPROVAL"
| "dbStateToProtoStatus TaskStateApproved = TaskStatus_APPROVED"
| "dbStateToProtoStatus TaskStateExecuting = TaskStatus_EXECUTING"
| "dbStateToProtoStatus TaskStateCompleted = TaskStatus_COMPLETED"
| "dbStateToProtoStatus TaskStateFailed = TaskStatus_FAILED"
| "dbStateToProtoStatus TaskStateDenied = TaskStatus_DENIED"
| "dbStateToProtoStatus TaskStateCancelled = TaskStatus_CANCELLED"
| "dbStateToProtoStatus TaskStateTerminated = TaskStatus_TERMINATED"
| "dbStateToProtoStatus TaskStateTimeout = TaskStatus_TIMEOUT"

fun protoStatusToDBState :: "TaskStatus \<Rightarrow> TaskState option" where
  "protoStatusToDBState TaskStatus_PLANNING = Some TaskStatePlanning"
| "protoStatusToDBState TaskStatus_VALIDATING = Some TaskStateValidating"
| "protoStatusToDBState TaskStatus_EXECUTING = Some TaskStateExecuting"
| "protoStatusToDBState TaskStatus_COMPLETED = Some TaskStateCompleted"
| "protoStatusToDBState TaskStatus_FAILED = Some TaskStateFailed"
| "protoStatusToDBState _ = None"

datatype ValidationOutcome = ValidationOutcome_APPROVED | ValidationOutcome_DENIED
  | ValidationOutcome_NEEDS_HUMAN | ValidationOutcome_NEEDS_STEP_UP

record AuditEvent =
  ev_Type :: string
  ev_TenantID :: string
  ev_ActorUserID :: string
  ev_ResourceRef :: string
  ev_Decision :: AuditPolicyDecision
  ev_Reason :: string

section \<open>The argument digest (digest.go)\<close>

definition ArgsDigest :: "(string \<Rightarrow> string) \<Rightarrow> PlanStepRecord list \<Rightarrow> string" where
  "ArgsDigest sha256 steps =
     sha256 (json_encode False (JArr (map (\<lambda>s. case ps_Args s of None \<Rightarrow> JObj [] | Some a \<Rightarrow> a) steps)))"

section \<open>Step-up (stepup.go)\<close>

definition StepUpRequired :: string where
  "StepUpRequired = ''step_up_required''"

record StepUp =
  su_ACR :: string
  su_MaxAge :: int

definition mfaAMR :: "string list" where
  "mfaAMR = [''mfa'', ''otp'', ''hwk'', ''sms'', ''tel'', ''fpt'', ''face'', ''sc'']"

definition SteppedUp :: "StepUp \<Rightarrow> Identity option \<Rightarrow> int \<Rightarrow> bool" where
  "SteppedUp r ident now =
     (case ident of
        None \<Rightarrow> False
      | Some i \<Rightarrow>
          (case id_AuthTime i of
             None \<Rightarrow> False
           | Some t \<Rightarrow>
               if now - t > su_MaxAge r then False
               else if su_ACR r \<noteq> [] \<and> (id_ACR i = su_ACR r \<or> su_ACR r \<in> set (id_ACRS i)) then True
               else list_ex (\<lambda>m. m \<in> set mfaAMR) (id_AMR i)))"

definition requireStepUp :: "StepUp \<Rightarrow> Identity option \<Rightarrow> int \<Rightarrow> (rpc_error, unit) result" where
  "requireStepUp r ident now =
     (if SteppedUp r ident now then Inr () else Inl (Status PermissionDenied StepUpRequired))"

definition IsStepUpRequired :: "rpc_error \<Rightarrow> bool" where
  "IsStepUpRequired e = (code e = PermissionDenied \<and> message e = StepUpRequired)"

section \<open>Planning a gate (build.go)\<close>

text \<open>
  The OpenFGA surface: whether it is on, the users of the tuples with a relation on an
  object, and a relation check; \<open>Inl\<close> is a transport error.
\<close>

record AccessPolicy =
  FGAEnabled :: bool
  ReadTuples :: "string \<Rightarrow> string \<Rightarrow> (unit, string list) result"
  CheckFGA :: fga_check

record BuildInput =
  bi_Policy :: "AccessPolicy option"
  bi_Config :: "string \<Rightarrow> string \<Rightarrow> (unit, int) result"
  bi_TenantID :: string
  bi_TaskID :: string
  bi_OwnerUserID :: string
  bi_FGATenant :: string
  bi_Outcome :: ValidationOutcome
  bi_PlanID :: string
  bi_NSteps :: nat

record Gate =
  RequiredApprovals :: int
  Floor :: int
  ConfiguredN :: int
  Approvers :: nat
  SeparationOfDuty :: bool
  ExpiryHours :: int
  g_ApproverSet :: "string list"

datatype plan_error = PlanStatus rpc_error | InsufficientApproversError int nat

definition maxApproverGroupDepth :: nat where
  "maxApproverGroupDepth = 5"

text \<open>The groups already expanded are threaded through every read.\<close>

function readUsers :: "AccessPolicy \<Rightarrow> string \<Rightarrow> string \<Rightarrow> string list \<Rightarrow> nat \<Rightarrow> string list \<times> string list"
  and read_each :: "AccessPolicy \<Rightarrow> string list \<Rightarrow> string list \<Rightarrow> nat \<Rightarrow> string list \<times> string list" where
  "readUsers pol relation object seen depth =
     (case ReadTuples pol relation object of
        Inl _ \<Rightarrow> ([], seen)
      | Inr rels \<Rightarrow> read_each pol rels seen depth)"
| "read_each pol [] seen depth = ([], seen)"
| "read_each pol (u # us) seen depth =
     (case CutPrefix u ''user:'' of
        Some uid \<Rightarrow> (let (out, seen') = read_each pol us seen depth in (uid # out, seen'))
      | None \<Rightarrow>
          (case CutSuffix u ''#member'' of
             Some grp \<Rightarrow>
               if grp \<notin> set seen \<and> depth < maxApproverGroupDepth
               then (let (inner, seen1) = readUsers pol ''member'' grp (grp # seen) (depth + 1);
                         (out, seen2) = read_each pol us seen1 depth
                     in (inner @ out, seen2))
               else read_each pol us seen depth
           | None \<Rightarrow> read_each pol us seen depth))"
  by pat_completeness auto
termination
  by (relation "measures [\<lambda>x. case x of Inl (_, _, _, _, d) \<Rightarrow> maxApproverGroupDepth - d | Inr (_, _, _, d) \<Rightarrow> maxApproverGroupDepth - d,
        \<lambda>x. case x of Inl _ \<Rightarrow> 1 | Inr _ \<Rightarrow> 0, \<lambda>x. case x of Inl _ \<Rightarrow> 0 | Inr (_, us, _, _) \<Rightarrow> length us]") auto

declare readUsers.simps [simp del]

definition fga_on :: "BuildInput \<Rightarrow> bool" where
  "fga_on inp = (case bi_Policy inp of None \<Rightarrow> False | Some pol \<Rightarrow> FGAEnabled pol)"

definition can_approve :: "BuildInput \<Rightarrow> string \<Rightarrow> bool" where
  "can_approve inp a =
     (case bi_Policy inp of
        None \<Rightarrow> False
      | Some pol \<Rightarrow> CheckFGA pol (''user:'' @ a) ''can_approve'' (''task:'' @ bi_TaskID inp) = Inr True)"

definition eligible_step :: "BuildInput \<Rightarrow> string list \<Rightarrow> string \<Rightarrow> string list" where
  "eligible_step inp eligible a =
     (if a = bi_OwnerUserID inp \<or> a \<in> set eligible then eligible
      else if fga_on inp \<and> \<not> can_approve inp a then eligible
      else eligible @ [a])"

text \<open>The candidates: the task's approvers, and for n of at least 2 the tenant's as well.\<close>

definition approver_candidates :: "BuildInput \<Rightarrow> int \<Rightarrow> string list" where
  "approver_candidates inp requiresN =
     (case bi_Policy inp of
        Some pol \<Rightarrow>
          if FGAEnabled pol then
            (let (users, seen) = readUsers pol ''approver'' (''task:'' @ bi_TaskID inp) [] 0;
                 base = (if users \<noteq> [] then users else [bi_OwnerUserID inp])
             in if requiresN \<ge> 2 \<and> bi_FGATenant inp \<noteq> []
                then (let (u1, seen1) = readUsers pol ''approver'' (bi_FGATenant inp) seen 0;
                          (u2, seen2) = readUsers pol ''admin'' (bi_FGATenant inp) seen1 0
                      in base @ u1 @ u2)
                else base)
          else [bi_OwnerUserID inp]
      | None \<Rightarrow> [bi_OwnerUserID inp])"

definition gate_floor :: "ValidationOutcome \<Rightarrow> int" where
  "gate_floor outcome = (if outcome = ValidationOutcome_NEEDS_STEP_UP then 2 else 1)"

definition insufficient_event :: "BuildInput \<Rightarrow> AuditEvent" where
  "insufficient_event inp =
     \<lparr>ev_Type = ''aikonos.broker.approval.insufficient_approvers'', ev_TenantID = bi_TenantID inp,
      ev_ActorUserID = bi_OwnerUserID inp, ev_ResourceRef = ''aikonos:task:'' @ bi_TaskID inp,
      ev_Decision = DENY, ev_Reason = []\<rparr>"

definition Plan :: "BuildInput \<Rightarrow> (plan_error, Gate) result \<times> AuditEvent list" where
  "Plan inp =
     (case bi_Config inp (bi_TenantID inp) ''approval_expiry_hours'' of
        Inl _ \<Rightarrow> (Inl (PlanStatus (Status Unavailable ''approval settings could not be read'')), [])
      | Inr expiryHours \<Rightarrow>
          (let floor = gate_floor (bi_Outcome inp) in
           case bi_Config inp (bi_TenantID inp) ''approval_required_n'' of
             Inl _ \<Rightarrow> (Inl (PlanStatus (Status Unavailable ''approval settings could not be read'')), [])
           | Inr cfgN \<Rightarrow>
               (let requiresN = (if floor > cfgN then floor else cfgN);
                    candidates = approver_candidates inp requiresN;
                    approverSet = (if requiresN \<ge> 2 then foldl (eligible_step inp) [] candidates else candidates)
                in if requiresN \<ge> 2 \<and> int (length approverSet) < requiresN
                   then (Inl (InsufficientApproversError requiresN (length approverSet)), [insufficient_event inp])
                   else (Inr \<lparr>RequiredApprovals = requiresN, Floor = floor, ConfiguredN = cfgN,
                              Approvers = length approverSet, SeparationOfDuty = (requiresN \<ge> 2),
                              ExpiryHours = expiryHours, g_ApproverSet = approverSet\<rparr>, []))))"

text \<open>Hours in nanoseconds; the conversion int16 of the threshold wraps.\<close>

definition hour :: int where
  "hour = 3600000000000"

definition outcome_name :: "ValidationOutcome \<Rightarrow> string" where
  "outcome_name x =
     (case x of ValidationOutcome_APPROVED \<Rightarrow> ''APPROVED'' | ValidationOutcome_DENIED \<Rightarrow> ''DENIED''
      | ValidationOutcome_NEEDS_HUMAN \<Rightarrow> ''NEEDS_HUMAN'' | ValidationOutcome_NEEDS_STEP_UP \<Rightarrow> ''NEEDS_STEP_UP'')"

definition gate_request :: "int \<Rightarrow> BuildInput \<Rightarrow> Gate \<Rightarrow> ApprovalRequest" where
  "gate_request now inp g =
     \<lparr>ApprovalID = [], ar_TaskID = bi_TaskID inp, ar_TenantID = bi_TenantID inp, RequesterID = bi_OwnerUserID inp,
      Summary = \<lparr>sum_plan_id = bi_PlanID inp, sum_reason = outcome_name (bi_Outcome inp),
                 sum_step_up = (bi_Outcome inp = ValidationOutcome_NEEDS_STEP_UP), sum_n_steps = bi_NSteps inp\<rparr>,
      ApproverSet = g_ApproverSet g, RequiresN = int16 (nat (RequiredApprovals g)), ApprovedBy = [], DeniedBy = [],
      ar_State = ApprovalPending, ExpiresAt = now + ExpiryHours g * hour\<rparr>"

definition create_gate :: "bool \<Rightarrow> int \<Rightarrow> string \<Rightarrow> BuildInput \<Rightarrow> Gate \<Rightarrow> Db \<Rightarrow> (rpc_error, Db) result" where
  "create_gate fail now newID inp g db =
     (case CreateApprovalRequest fail newID (gate_request now inp g) db of
        Inl _ \<Rightarrow> Inl (Status Internal ''failed to create approval request'')
      | Inr (_, db') \<Rightarrow> Inr db')"

section \<open>Resolving a gate (resolve.go)\<close>

definition MaxReasonBytes :: nat where
  "MaxReasonBytes = 512"

type_synonym minter = "string \<Rightarrow> string \<Rightarrow> OnBehalfOf \<Rightarrow> (int \<times> string) list \<Rightarrow> (unit, int \<rightharpoonup> string) result"

record ResolveResult =
  respStatus :: TaskStatus
  capTokens :: "(int \<rightharpoonup> string) option"
  eventType :: string
  rr_decision :: AuditPolicyDecision

text \<open>Which of the store's calls fail.\<close>

record ResolveFaults =
  rf_pending :: bool
  rf_steps :: bool
  rf_vote :: bool
  rf_task :: bool

definition vote_error :: "db_error \<Rightarrow> rpc_error" where
  "vote_error e =
     (case e of
        ErrNoRows \<Rightarrow> Status FailedPrecondition ''no pending approval for task''
      | ErrVoterNotInApproverSet \<Rightarrow> Status PermissionDenied ''approver not in the approver set for task''
      | ErrApprovalAlreadyResolved \<Rightarrow> Status FailedPrecondition ''approval for task was already resolved''
      | _ \<Rightarrow> Status Internal ''failed to record approval'')"

definition resolve_answer ::
  "bool \<Rightarrow> minter \<Rightarrow> string \<Rightarrow> string \<Rightarrow> bool \<Rightarrow> PlanStepRecord list \<Rightarrow> ApprovalState \<times> bool \<Rightarrow> Db \<Rightarrow> (rpc_error, ResolveResult) result" where
  "resolve_answer fail mint tenant taskID approved steps outcome db =
     (if snd outcome \<and> fst outcome = ApprovalApproved then
        (case Get fail tenant taskID db of
           Inl _ \<Rightarrow> Inl (Status Internal ''failed to load task'')
         | Inr task \<Rightarrow>
             (case mint (OwnerUserID task) taskID (Task_OnBehalfOf task) (map (\<lambda>s. (ps_Seq s, ps_ToolID s)) steps) of
                Inl _ \<Rightarrow> Inl (Status Internal ''failed to mint capability tokens'')
              | Inr toks \<Rightarrow> Inr \<lparr>respStatus = TaskStatus_APPROVED, capTokens = Some toks,
                                 eventType = ''aikonos.broker.task.approved'', rr_decision = ALLOW\<rparr>))
      else if snd outcome \<and> fst outcome = ApprovalDenied then
        Inr \<lparr>respStatus = TaskStatus_DENIED, capTokens = None, eventType = ''aikonos.broker.task.denied'', rr_decision = DENY\<rparr>
      else Inr \<lparr>respStatus = TaskStatus_AWAITING_APPROVAL, capTokens = None,
                eventType = ''aikonos.broker.task.approval_recorded'', rr_decision = (if approved then ALLOW else DENY)\<rparr>)"

definition Resolve ::
  "(string \<Rightarrow> string) \<Rightarrow> fga_check \<Rightarrow> minter \<Rightarrow> ResolveFaults \<Rightarrow> int \<Rightarrow> Identity option \<Rightarrow> StepUp \<Rightarrow>
   string \<Rightarrow> string \<Rightarrow> string \<Rightarrow> bool \<Rightarrow> string \<Rightarrow> string \<Rightarrow> Db \<Rightarrow> (rpc_error, ResolveResult) result \<times> Db" where
  "Resolve sha256 check mint ft now ident stepUp tenant taskID approver approved reason argsDigest db =
     (if length reason > MaxReasonBytes then (Inl (Status InvalidArgument ''reason longer than 512 bytes''), db)
      else case GetPendingApprovalByTask (rf_pending ft) now tenant taskID db of
        Inl _ \<Rightarrow> (Inl (Status FailedPrecondition ''no pending approval for task''), db)
      | Inr ar \<Rightarrow>
          if check (''user:'' @ approver) ''can_approve'' (''task:'' @ taskID) \<noteq> Inr True
          then (Inl (Status PermissionDenied ''approver not authorized for task''), db)
          else (case ListMintableSteps (rf_steps ft) tenant taskID db of
                  Inl _ \<Rightarrow> (Inl (Status Internal ''failed to load plan steps''), db)
                | Inr rows \<Rightarrow>
                    (let steps = map PlanStepRecord.truncate rows in
                     if approved \<and> argsDigest \<noteq> ArgsDigest sha256 steps
                     then (Inl (Status FailedPrecondition ''arguments for task do not match the approved digest''), db)
                     else (case (if approved \<and> sum_step_up (Summary ar) then requireStepUp stepUp ident now else Inr ()) of
                             Inl e \<Rightarrow> (Inl e, db)
                           | Inr _ \<Rightarrow>
                               (case ResolveApproval (rf_vote ft) now tenant (ApprovalID ar) approver approved db of
                                  Inl e \<Rightarrow> (Inl (vote_error e), db)
                                | Inr (outcome, db') \<Rightarrow>
                                    (resolve_answer (rf_task ft) mint tenant taskID approved steps outcome db', db'))))))"

section \<open>Planned gates\<close>

lemma eligible_fold:
  "distinct (foldl (eligible_step inp) [] cs) \<and> bi_OwnerUserID inp \<notin> set (foldl (eligible_step inp) [] cs)
   \<and> (fga_on inp \<longrightarrow> (\<forall>a \<in> set (foldl (eligible_step inp) [] cs). can_approve inp a))"
  by (rule foldl_invariant) (auto simp: eligible_step_def)

lemma approver_candidates_ne: "approver_candidates inp n \<noteq> []"
  by (auto simp: approver_candidates_def Let_def split: option.splits prod.splits if_splits)

lemma Plan_Inr:
  assumes "fst (Plan inp) = Inr g"
  obtains n h where "bi_Config inp (bi_TenantID inp) ''approval_expiry_hours'' = Inr h"
    "bi_Config inp (bi_TenantID inp) ''approval_required_n'' = Inr n" "ExpiryHours g = h"
    "RequiredApprovals g = max (gate_floor (bi_Outcome inp)) n"
    "g_ApproverSet g = (if RequiredApprovals g \<ge> 2 then foldl (eligible_step inp) [] (approver_candidates inp (RequiredApprovals g))
       else approver_candidates inp (RequiredApprovals g))"
    "RequiredApprovals g \<ge> 2 \<Longrightarrow> RequiredApprovals g \<le> int (length (g_ApproverSet g))"
  using assms that by (fastforce simp: Plan_def Let_def max_def split: sum.splits if_splits)

lemma Plan_gate:
  assumes "fst (Plan inp) = Inr g"
  shows "(\<exists>n. bi_Config inp (bi_TenantID inp) ''approval_required_n'' = Inr n
       \<and> RequiredApprovals g = max (gate_floor (bi_Outcome inp)) n)
    \<and> g_ApproverSet g \<noteq> []
    \<and> (2 \<le> RequiredApprovals g \<longrightarrow>
         distinct (g_ApproverSet g) \<and> bi_OwnerUserID inp \<notin> set (g_ApproverSet g)
         \<and> RequiredApprovals g \<le> int (length (g_ApproverSet g))
         \<and> (fga_on inp \<longrightarrow> (\<forall>a \<in> set (g_ApproverSet g). can_approve inp a)))"
  using assms
proof (rule Plan_Inr)
  fix n h
  assume p: "bi_Config inp (bi_TenantID inp) ''approval_required_n'' = Inr n"
    "RequiredApprovals g = max (gate_floor (bi_Outcome inp)) n"
    "g_ApproverSet g = (if RequiredApprovals g \<ge> 2 then foldl (eligible_step inp) [] (approver_candidates inp (RequiredApprovals g))
       else approver_candidates inp (RequiredApprovals g))"
    "RequiredApprovals g \<ge> 2 \<Longrightarrow> RequiredApprovals g \<le> int (length (g_ApproverSet g))"
  have "g_ApproverSet g \<noteq> []"
  proof (cases "2 \<le> RequiredApprovals g")
    case True
    then have "0 < length (g_ApproverSet g)" using p(4) by linarith
    then show ?thesis by simp
  qed (simp add: p(3) approver_candidates_ne)
  then show ?thesis using p(1,2,4) eligible_fold [of inp] by (simp add: p(3))
qed

section \<open>A planned gate can be passed\<close>

definition yes_votes :: "int \<Rightarrow> string \<Rightarrow> string \<Rightarrow> string list \<Rightarrow> store_op list" where
  "yes_votes now ten aid voters = map (\<lambda>v. OResolve now ten aid v True) voters"

definition passed :: "string \<Rightarrow> string \<Rightarrow> string \<Rightarrow> Db \<Rightarrow> bool" where
  "passed ten tid aid db =
     ((\<exists>a. List.find (\<lambda>a. ApprovalID a = aid \<and> ar_TenantID a = ten) (approvals db) = Some a \<and> ar_State a = ApprovalApproved)
      \<and> (\<exists>t. visible_task db ten tid = Some t \<and> State t = TaskStateApproved))"

lemma int16_small: "n < 32768 \<Longrightarrow> int16 n = int n"
  by (simp add: int16_def Let_def)

lemma find_snoc: "List.find P A = None \<Longrightarrow> List.find P (A @ [x]) = (if P x then Some x else None)"
  by (induction A) auto

lemma map_other: "\<forall>x \<in> set A. \<not> P x \<Longrightarrow> map (\<lambda>x. if P x then y else x) A = A"
  by (induction A) auto

lemma find_imp_None: "List.find P A = None \<longleftrightarrow> (\<forall>x \<in> set A. \<not> P x)"
  by (induction A) auto

lemma vote_yes:
  assumes "approvals db = A @ [G]" "\<forall>a \<in> set A. ApprovalID a \<noteq> aid" "ApprovalID G = aid" "ar_TenantID G = ten"
    and "ar_TaskID G = tid" "ExpiresAt G > now" "ar_State G = ApprovalPending" "DeniedBy G = []"
    and "MayVote (ApproverSet G) (RequesterID G) (RequiresN G) v" "v \<notin> set (ApprovedBy G)"
    and "length (ApprovedBy G) < 32767"
    and "visible_task db ten tid = Some t" "State t = TaskStateAwaitingApproval"
  shows "exec (OResolve now ten aid v True) db =
    (if int (Suc (length (ApprovedBy G))) \<ge> RequiresN G
     then db\<lparr>approvals := A @ [G\<lparr>ApprovedBy := ApprovedBy G @ [v], ar_State := ApprovalApproved\<rparr>],
             tasks := (tasks db)(tid \<mapsto> t\<lparr>State := TaskStateApproved\<rparr>)\<rparr>
     else db\<lparr>approvals := A @ [G\<lparr>ApprovedBy := ApprovedBy G @ [v]\<rparr>]\<rparr>)"
proof -
  let ?P = "\<lambda>a. ApprovalID a = aid \<and> ar_TenantID a = ten \<and> ExpiresAt a > now"
  have f: "List.find ?P (approvals db) = Some G"
    using assms(1-4,6) by (subst assms(1), subst find_snoc) (auto simp: find_imp_None)
  have m: "map (\<lambda>x. if ApprovalID x = aid \<and> ar_TenantID x = ten then y else x) (approvals db) = A @ [y]" for y
    using assms(1-4) map_other [of A "\<lambda>x. ApprovalID x = aid \<and> ar_TenantID x = ten" y] by simp
  have ap: "appendUnique (ApprovedBy G) v = ApprovedBy G @ [v]"
    using assms(10) by (auto simp: appendUnique_def list_ex_iff)
  have i: "int16 (Suc (length (ApprovedBy G))) = int (Suc (length (ApprovedBy G)))"
    using assms(11) by (intro int16_small) simp
  have vt: "visible_task (db\<lparr>approvals := x\<rparr>) ten tid = Some t" for x
    using assms(12) by (simp add: visible_task_def)
  have "vote v True G = (if int (Suc (length (ApprovedBy G))) \<ge> RequiresN G
      then (G\<lparr>ApprovedBy := ApprovedBy G @ [v], ar_State := ApprovalApproved\<rparr>, True)
      else (G\<lparr>ApprovedBy := ApprovedBy G @ [v]\<rparr>, False))"
    using assms(8) i by (simp add: vote_def ap Let_def)
  then show ?thesis
    using f assms(5,7,9,13) by (simp add: ResolveApproval_def m transitionExec_def vt)
qed

lemma vote_after_approval:
  assumes "approvals db = A @ [G]" "\<forall>a \<in> set A. ApprovalID a \<noteq> aid" "ar_State G = ApprovalApproved"
  shows "exec (OResolve now ten aid v True) db = db"
proof -
  let ?P = "\<lambda>a. ApprovalID a = aid \<and> ar_TenantID a = ten \<and> ExpiresAt a > now"
  have f: "List.find ?P (approvals db) = (if ?P G then Some G else None)"
    using assms(1,2) by (subst assms(1), subst find_snoc) (auto simp: find_imp_None)
  show ?thesis using assms(3) by (simp add: ResolveApproval_def f)
qed

lemma votes_after_approval:
  assumes "approvals db = A @ [G]" "\<forall>a \<in> set A. ApprovalID a \<noteq> aid" "ar_State G = ApprovalApproved"
  shows "run (yes_votes now ten aid vs) db = db"
  using vote_after_approval [OF assms] by (induction vs) (simp_all add: yes_votes_def)

lemma yes_votes_pass:
  assumes "approvals db = A @ [G]" "\<forall>a \<in> set A. ApprovalID a \<noteq> aid" "ApprovalID G = aid" "ar_TenantID G = ten"
    and "ar_TaskID G = tid" "ExpiresAt G > now" "ar_State G = ApprovalPending" "DeniedBy G = []"
    and "\<forall>v \<in> set vs. MayVote (ApproverSet G) (RequesterID G) (RequiresN G) v"
    and "RequiresN G = 1 \<or> distinct (ApprovedBy G @ vs)"
    and "int (length (ApprovedBy G)) < RequiresN G" "RequiresN G \<le> int (length (ApprovedBy G @ vs))" "RequiresN G < 32768"
    and "visible_task db ten tid = Some t" "State t = TaskStateAwaitingApproval"
  shows "passed ten tid aid (run (yes_votes now ten aid vs) db)"
  using assms
proof (induction vs arbitrary: db G)
  case (Cons v vs)
  have nv: "v \<notin> set (ApprovedBy G)" using Cons.prems(10,11) by (cases "RequiresN G = 1") auto
  have e: "exec (OResolve now ten aid v True) db =
    (if int (Suc (length (ApprovedBy G))) \<ge> RequiresN G
     then db\<lparr>approvals := A @ [G\<lparr>ApprovedBy := ApprovedBy G @ [v], ar_State := ApprovalApproved\<rparr>],
             tasks := (tasks db)(tid \<mapsto> t\<lparr>State := TaskStateApproved\<rparr>)\<rparr>
     else db\<lparr>approvals := A @ [G\<lparr>ApprovedBy := ApprovedBy G @ [v]\<rparr>]\<rparr>)"
    using Cons.prems nv by (intro vote_yes) auto
  show ?case
  proof (cases "int (Suc (length (ApprovedBy G))) \<ge> RequiresN G")
    case True
    let ?G = "G\<lparr>ApprovedBy := ApprovedBy G @ [v], ar_State := ApprovalApproved\<rparr>"
    let ?db = "db\<lparr>approvals := A @ [?G], tasks := (tasks db)(tid \<mapsto> t\<lparr>State := TaskStateApproved\<rparr>)\<rparr>"
    have "run (yes_votes now ten aid vs) ?db = ?db"
      using Cons.prems(2) by (intro votes_after_approval [where A = A and G = ?G]) simp_all
    then have r: "run (yes_votes now ten aid (v # vs)) db = ?db" using e True by (simp add: yes_votes_def)
    have "List.find (\<lambda>a. ApprovalID a = aid \<and> ar_TenantID a = ten) (A @ [?G]) = Some ?G"
      using Cons.prems(2-4) by (subst find_snoc) (auto simp: find_imp_None)
    moreover have "TenantID t = ten" using Cons.prems(14) visible_task_SomeD by blast
    ultimately show ?thesis unfolding r by (simp add: passed_def visible_task_def)
  next
    case False
    let ?G = "G\<lparr>ApprovedBy := ApprovedBy G @ [v]\<rparr>"
    have n1: "RequiresN G \<noteq> 1" using False Cons.prems(11) by auto
    have "passed ten tid aid (run (yes_votes now ten aid vs) (db\<lparr>approvals := A @ [?G]\<rparr>))"
      by (rule Cons.IH [where G = ?G]) (use Cons.prems False n1 in \<open>auto simp: visible_task_def\<close>)
    then show ?thesis using e False by (simp add: yes_votes_def)
  qed
qed simp

text \<open>C13.  A planned gate can be passed: once the gate of a plan is created, and while it has
  not expired and its task waits for approval, the yes votes of its approvers approve the
  gate and the task.  No gate is created that its approvers could not decide.\<close>

theorem planned_gate_can_pass:
  assumes "fst (Plan inp) = Inr g" "create_gate False now nid inp g db = Inr db'"
    and "\<forall>a \<in> set (approvals db). ApprovalID a \<noteq> nid" "RequiredApprovals g < 32768"
    and "visible_task db (bi_TenantID inp) (bi_TaskID inp) = Some t" "State t = TaskStateAwaitingApproval"
    and "now' < now + ExpiryHours g * hour"
  shows "passed (bi_TenantID inp) (bi_TaskID inp) nid (run (yes_votes now' (bi_TenantID inp) nid (g_ApproverSet g)) db')"
proof -
  note s = Plan_gate [OF assms(1)]
  have n: "1 \<le> RequiredApprovals g" using s by (auto simp: gate_floor_def split: if_splits)
  let ?G = "(gate_request now inp g)\<lparr>ApprovalID := nid\<rparr>"
  have rn: "RequiresN ?G = RequiredApprovals g"
    using n assms(4) by (simp add: gate_request_def int16_small)
  have db': "approvals db' = approvals db @ [?G]" "tasks db' = tasks db"
    using assms(2) n rn by (auto simp: create_gate_def CreateApprovalRequest_def gate_request_def)
  have len: "RequiredApprovals g \<le> int (length (g_ApproverSet g))"
  proof (cases "2 \<le> RequiredApprovals g")
    case False
    moreover have "1 \<le> length (g_ApproverSet g)" using s by (cases "g_ApproverSet g") auto
    ultimately show ?thesis by linarith
  qed (use s in blast)
  have mv: "\<forall>v \<in> set (g_ApproverSet g). MayVote (ApproverSet ?G) (RequesterID ?G) (RequiresN ?G) v"
    unfolding rn using s by (auto simp: MayVote_def inSet_def list_ex_iff gate_request_def)
  show ?thesis
    by (rule yes_votes_pass [OF db'(1) assms(3), where t = t])
      (use n s len rn assms mv in \<open>auto simp: gate_request_def visible_task_def db'(2)\<close>)
qed

definition example_access :: AccessPolicy where
  "example_access = \<lparr>FGAEnabled = True,
     ReadTuples = (\<lambda>rel obj. if obj = ''tenant:acme'' \<and> rel = ''approver'' then Inr [''user:ann'', ''group:ops#member'']
       else if obj = ''group:ops'' then Inr [''user:cid'', ''user:bob''] else if rel = ''approver'' then Inr [''user:bob''] else Inr []),
     CheckFGA = (\<lambda>_ _ _. Inr True)\<rparr>"

definition example_build :: BuildInput where
  "example_build = \<lparr>bi_Policy = Some example_access, bi_Config = (\<lambda>_ k. if k = ''approval_required_n'' then Inr 1 else Inr 24),
     bi_TenantID = ''acme'', bi_TaskID = ''t1'', bi_OwnerUserID = ''bob'', bi_FGATenant = ''tenant:acme'',
     bi_Outcome = ValidationOutcome_NEEDS_STEP_UP, bi_PlanID = ''p1'', bi_NSteps = 1\<rparr>"

definition example_gate :: Gate where
  "example_gate = \<lparr>RequiredApprovals = 2, Floor = 2, ConfiguredN = 1, Approvers = 2, SeparationOfDuty = True,
     ExpiryHours = 24, g_ApproverSet = [''ann'', ''cid'']\<rparr>"

lemma example_candidates: "approver_candidates example_build 2 = [''bob'', ''ann'', ''cid'', ''bob'']"
  by code_simp

lemma example_eligible: "foldl (eligible_step example_build) [] [''bob'', ''ann'', ''cid'', ''bob''] = [''ann'', ''cid'']"
  by code_simp

lemma example_Plan: "fst (Plan example_build) = Inr example_gate"
  using example_candidates example_eligible
  by (simp add: Plan_def example_build_def [THEN arg_cong [where f = bi_Config]]
      example_build_def [THEN arg_cong [where f = bi_Outcome]] gate_floor_def example_gate_def Let_def)



definition example_waiting :: Db where
  "example_waiting = empty_Db\<lparr>tasks := [''t1'' \<mapsto> example_task\<lparr>State := TaskStateAwaitingApproval\<rparr>]\<rparr>"

theorem planned_gate_can_pass_witness:
  "\<exists>db'. create_gate False 0 ''g1'' example_build example_gate example_waiting = Inr db'
     \<and> passed ''acme'' ''t1'' ''g1'' (run (yes_votes 1 ''acme'' ''g1'' [''ann'', ''cid'']) db')"
proof -
  obtain db' where c: "create_gate False 0 ''g1'' example_build example_gate example_waiting = Inr db'"
    by (simp add: create_gate_def CreateApprovalRequest_def)
  have "passed (bi_TenantID example_build) (bi_TaskID example_build) ''g1''
     (run (yes_votes 1 (bi_TenantID example_build) ''g1'' (g_ApproverSet example_gate)) db')"
    by (rule planned_gate_can_pass [OF example_Plan c, where t = "example_task\<lparr>State := TaskStateAwaitingApproval\<rparr>"])
      (simp_all add: example_waiting_def empty_Db_def example_gate_def example_build_def visible_task_def example_task_def hour_def)
  with c show ?thesis by (simp add: example_build_def example_gate_def)
qed

section \<open>What a yes vote is bound to\<close>

definition args_doc :: "PlanStepRecord \<Rightarrow> json" where
  "args_doc s = (case ps_Args s of None \<Rightarrow> JObj [] | Some a \<Rightarrow> a)"

definition digest_text :: "PlanStepRecord list \<Rightarrow> string" where
  "digest_text steps = json_encode False (JArr (map args_doc steps))"

lemma ArgsDigest_text: "ArgsDigest sha256 steps = sha256 (digest_text steps)"
  by (simp add: ArgsDigest_def digest_text_def args_doc_def [abs_def])

lemma digest_text_inject:
  assumes "\<forall>s \<in> set xs \<union> set ys. wf_json (args_doc s)"
  shows "digest_text xs = digest_text ys \<longleftrightarrow> map (sort_keys \<circ> args_doc) xs = map (sort_keys \<circ> args_doc) ys"
proof -
  have "wf_json (JArr (map args_doc xs))" "wf_json (JArr (map args_doc ys))" using assms by (auto simp: list_all_iff)
  from json_encode_inject [OF this, of False] show ?thesis by (simp add: digest_text_def comp_def)
qed

definition counted :: "(rpc_error, ResolveResult) result \<times> Db \<Rightarrow> Db \<Rightarrow> bool" where
  "counted r db = (is_ok (fst r) \<or> snd r \<noteq> db)"

lemma Resolve_counted:
  assumes "counted (Resolve sha256 check mint ft now ident su ten tid who True reason digest db) db"
  shows "\<exists>ar rows outcome db'. GetPendingApprovalByTask (rf_pending ft) now ten tid db = Inr ar
    \<and> check (''user:'' @ who) ''can_approve'' (''task:'' @ tid) = Inr True
    \<and> ListMintableSteps (rf_steps ft) ten tid db = Inr rows
    \<and> digest = ArgsDigest sha256 (map PlanStepRecord.truncate rows)
    \<and> (sum_step_up (Summary ar) \<longrightarrow> SteppedUp su ident now)
    \<and> ResolveApproval (rf_vote ft) now ten (ApprovalID ar) who True db = Inr (outcome, db')"
  using assms
  by (auto simp: counted_def Resolve_def requireStepUp_def Let_def split: if_splits sum.splits prod.splits)

text \<open>C11.  A yes vote counts only for the arguments that were shown: when Resolve counts it,
  OpenFGA lets the voter approve the task, a step-up gate saw a recent multi-factor sign-in,
  and the argument documents of the steps now stored are, up to the order of map keys, those
  the digest was computed from; the only way out would be two different texts with the same
  SHA-256.\<close>

theorem approval_binds_arguments:
  assumes "counted (Resolve sha256 check mint ft now ident su ten tid who True reason (ArgsDigest sha256 shown) db) db"
    and "\<forall>s \<in> set shown. wf_json (args_doc s)"
    and "\<forall>s \<in> set (plan_steps db). wf_json (args_doc (PlanStepRecord.truncate s))"
  shows "\<exists>ar rows. GetPendingApprovalByTask False now ten tid db = Inr ar \<and> ListMintableSteps False ten tid db = Inr rows
    \<and> check (''user:'' @ who) ''can_approve'' (''task:'' @ tid) = Inr True
    \<and> (sum_step_up (Summary ar) \<longrightarrow> SteppedUp su ident now)
    \<and> (let stored = map PlanStepRecord.truncate rows in
       map (sort_keys \<circ> args_doc) shown = map (sort_keys \<circ> args_doc) stored
       \<or> (digest_text shown \<noteq> digest_text stored \<and> sha256 (digest_text shown) = sha256 (digest_text stored)))"
proof -
  from Resolve_counted [OF assms(1)] obtain ar rows where r: "GetPendingApprovalByTask (rf_pending ft) now ten tid db = Inr ar"
    "check (''user:'' @ who) ''can_approve'' (''task:'' @ tid) = Inr True"
    "ListMintableSteps (rf_steps ft) ten tid db = Inr rows"
    "ArgsDigest sha256 shown = ArgsDigest sha256 (map PlanStepRecord.truncate rows)"
    "sum_step_up (Summary ar) \<longrightarrow> SteppedUp su ident now" by blast
  let ?st = "map PlanStepRecord.truncate rows"
  have f: "GetPendingApprovalByTask False now ten tid db = Inr ar" "ListMintableSteps False ten tid db = Inr rows"
    using r(1,3) by (auto simp: GetPendingApprovalByTask_def ListMintableSteps_def split: if_splits)
  have "set rows \<subseteq> set (plan_steps db)"
    using f(2) by (auto simp: ListMintableSteps_def task_steps_def)
  then have "\<forall>s \<in> set shown \<union> set ?st. wf_json (args_doc s)" using assms(2,3) by auto
  then have "map (sort_keys \<circ> args_doc) shown = map (sort_keys \<circ> args_doc) ?st
      \<or> (digest_text shown \<noteq> digest_text ?st \<and> sha256 (digest_text shown) = sha256 (digest_text ?st))"
    using digest_text_inject [of shown ?st] r(4) by (auto simp: ArgsDigest_text)
  then show ?thesis using f r(2,5) by (auto simp: Let_def)
qed

definition example_args_step :: StepRow where
  "example_args_step = \<lparr>ps_TaskID = ''t1'', ps_TenantID = ''acme'', ps_Seq = 1, ps_ToolID = ''slack.post'', ps_ArgsHash = ''h'',
     ps_EffectClass = ''WRITE_EXTERNAL'', ps_Justification = [], ps_EstimatedCost = 1, ps_PolicyDecision = PolicyNeedApproval,
     ps_PolicyRuleID = [], ps_Args = Some (JObj [(''text'', JStr ''hi''), (''channel'', JStr ''ops'')]), ps_PolicyReason = [],
     row_state = ''PENDING'', consumed = False\<rparr>"

definition example_shown :: "PlanStepRecord list" where
  "example_shown = [(PlanStepRecord.truncate example_args_step)
     \<lparr>ps_Args := Some (JObj [(''channel'', JStr ''ops''), (''text'', JStr ''hi'')])\<rparr>]"

definition example_open :: Db where
  "example_open = example_waiting\<lparr>plan_steps := [example_args_step],
     approvals := [(gate_request 0 example_build example_gate)\<lparr>ApprovalID := ''g1''\<rparr>]\<rparr>"

definition example_signed_in :: Identity where
  "example_signed_in = \<lparr>id_Subject = ''ann'', id_Email = [], id_TenantID = ''acme'', id_SpiffeID = [], id_ACR = [],
     id_ACRS = [], id_AMR = [''pwd'', ''otp''], id_AuthTime = Some 0\<rparr>"

theorem approval_binds_arguments_witness:
  "counted (Resolve (\<lambda>s. s) (\<lambda>_ _ _. Inr True) (\<lambda>_ _ _ _. Inr Map.empty)
      \<lparr>rf_pending = False, rf_steps = False, rf_vote = False, rf_task = False\<rparr> 1 (Some example_signed_in)
      \<lparr>su_ACR = [], su_MaxAge = 600\<rparr> ''acme'' ''t1'' ''ann'' True [] (ArgsDigest (\<lambda>s. s) example_shown) example_open) example_open
   \<and> (\<exists>ar rows. GetPendingApprovalByTask False 1 ''acme'' ''t1'' example_open = Inr ar
        \<and> ListMintableSteps False ''acme'' ''t1'' example_open = Inr rows
        \<and> map (sort_keys \<circ> args_doc) example_shown = map (sort_keys \<circ> args_doc) (map PlanStepRecord.truncate rows))"
proof -
  let ?ft = "\<lparr>rf_pending = False, rf_steps = False, rf_vote = False, rf_task = False\<rparr>"
  have d: "ArgsDigest (\<lambda>s. s) example_shown = ArgsDigest (\<lambda>s. s) [PlanStepRecord.truncate example_args_step]"
    by code_simp
  have p: "GetPendingApprovalByTask False 1 ''acme'' ''t1'' example_open
      = Inr ((gate_request 0 example_build example_gate)\<lparr>ApprovalID := ''g1''\<rparr>)"
    by (simp add: GetPendingApprovalByTask_def example_open_def gate_request_def example_build_def example_gate_def open_gate_def hour_def)
  have m: "ListMintableSteps False ''acme'' ''t1'' example_open = Inr [example_args_step]"
    by (simp add: ListMintableSteps_def example_open_def task_steps_def example_args_step_def)
  have su: "SteppedUp \<lparr>su_ACR = [], su_MaxAge = 600\<rparr> (Some example_signed_in) 1" by code_simp
  have "map_sum (\<lambda>e. e) fst (ResolveApproval False 1 ''acme'' ''g1'' ''ann'' True example_open) = Inr (ApprovalPending, False)"
    by code_simp
  then obtain db' where v: "ResolveApproval False 1 ''acme'' ''g1'' ''ann'' True example_open = Inr ((ApprovalPending, False), db')"
    by (cases "ResolveApproval False 1 ''acme'' ''g1'' ''ann'' True example_open") auto
  have c: "counted (Resolve (\<lambda>s. s) (\<lambda>_ _ _. Inr True) (\<lambda>_ _ _ _. Inr Map.empty) ?ft 1 (Some example_signed_in)
      \<lparr>su_ACR = [], su_MaxAge = 600\<rparr> ''acme'' ''t1'' ''ann'' True [] (ArgsDigest (\<lambda>s. s) example_shown) example_open) example_open"
    using p m su d v by (simp add: counted_def Resolve_def requireStepUp_def resolve_answer_def gate_request_def)
  have wf: "\<forall>s \<in> set example_shown. wf_json (args_doc s)"
    "\<forall>s \<in> set (plan_steps example_open). wf_json (args_doc (PlanStepRecord.truncate s))" by code_simp+
  show ?thesis using c p m approval_binds_arguments [OF c wf] by (auto simp: Let_def)
qed

section \<open>Nested groups\<close>

text \<open>Six nested groups under the approvers of a task; the read of one group may fail.\<close>

definition nested_policy :: "bool \<Rightarrow> AccessPolicy" where
  "nested_policy broken = \<lparr>FGAEnabled = True,
     ReadTuples = (\<lambda>rel obj.
       if obj = ''task:t1'' then Inr [''group:a#member'', ''group:b#member'']
       else if obj = ''group:a'' then (if broken then Inl () else Inr [''group:b#member''])
       else if obj = ''group:b'' then Inr [''group:c#member'']
       else if obj = ''group:c'' then Inr [''group:d#member'']
       else if obj = ''group:d'' then Inr [''group:e#member'', ''user:dan'']
       else if obj = ''group:e'' then Inr [''group:f#member'']
       else if obj = ''group:f'' then Inr [''user:eve''] else Inr []),
     CheckFGA = (\<lambda>_ _ _. Inr True)\<rparr>"

text \<open>A read error can enlarge the approver set: with every group readable the nested
  user eve lies beyond the depth bound, and when the read of the outermost group fails the
  same user is reached on a shorter path.\<close>

theorem readUsers_error_can_enlarge:
  "fst (readUsers (nested_policy False) ''approver'' ''task:t1'' [] 0) = [''dan'']
   \<and> fst (readUsers (nested_policy True) ''approver'' ''task:t1'' [] 0) = [''eve'', ''dan'']"
  by code_simp

end
