(* ===== verification/StepClaims.thy ===== *)
theory StepClaims
  imports TaskStore
begin

text \<open>
  What the plan step table of \<open>TaskStore\<close> guarantees: a step is claimed at most once
  between two plans, and a replan keeps the consumed mark of the sequence numbers it reuses.
\<close>

section \<open>Single-use claims\<close>

text \<open>The step at (task, seq) exists only in consumed form.\<close>

definition spent :: "string \<Rightarrow> string \<Rightarrow> int \<Rightarrow> Db \<Rightarrow> bool" where
  "spent tenant tid seq db = (\<forall>r \<in> set (plan_steps db). step_at tenant tid seq r \<longrightarrow> consumed r)"

definition claim_won :: "(db_error, PlanStepClaim) result \<Rightarrow> bool" where
  "claim_won r = (case r of Inr c \<Rightarrow> Claimed c | Inl _ \<Rightarrow> False)"

lemma step_at_consumed [simp]: "step_at ten tid seq (x\<lparr>consumed := c\<rparr>) = step_at ten tid seq x"
  by (simp add: step_at_def)

lemma ClaimPlanStep_won:
  assumes "claim_won (fst (ClaimPlanStep f ten tid seq tool hs db))"
  shows "\<exists>r \<in> set (plan_steps db). step_at ten tid seq r \<and> claimable tool hs r"
    and "spent ten tid seq (snd (ClaimPlanStep f ten tid seq tool hs db))"
proof -
  from assms obtain r where r: "List.find (step_at ten tid seq) (plan_steps db) = Some r" "claimable tool hs r" "\<not> f"
    by (auto simp: claim_won_def ClaimPlanStep_def Let_def split: if_splits option.splits)
  then show "\<exists>r \<in> set (plan_steps db). step_at ten tid seq r \<and> claimable tool hs r"
    using find_SomeD by fastforce
  have "snd (ClaimPlanStep f ten tid seq tool hs db)
      = db\<lparr>plan_steps := map (\<lambda>x. if step_at ten tid seq x then x\<lparr>consumed := True\<rparr> else x) (plan_steps db)\<rparr>"
    using r by (simp add: ClaimPlanStep_def)
  then show "spent ten tid seq (snd (ClaimPlanStep f ten tid seq tool hs db))"
    by (auto simp: spent_def)
qed

lemma spent_no_claim: "spent ten tid seq db \<Longrightarrow> \<not> claim_won (fst (ClaimPlanStep f ten tid seq tool hs db))"
  using ClaimPlanStep_won(1) by (fastforce simp: spent_def claimable_def)

lemma transitionExec_frame:
  "transitionExec ten tid a b db = Inr db' \<Longrightarrow> plan_steps db' = plan_steps db"
  by (auto dest!: transitionExec_Inr)

lemma ops_plan_steps [simp]:
  "Create f t db = Inr db' \<Longrightarrow> plan_steps db' = plan_steps db"
  "Transition f ten tid a b db = Inr db' \<Longrightarrow> plan_steps db' = plan_steps db"
  "ReserveCost f ten tid seq db = Inr (u, db') \<Longrightarrow> plan_steps db' = plan_steps db"
  "plan_steps (snd (IncrementCost f ten tid u db)) = plan_steps db"
  "plan_steps (snd (ExpireApproval f now ten aid db)) = plan_steps db"
  "plan_steps (snd (WithdrawApproval f ten tid who db)) = plan_steps db"
proof -
  show "Create f t db = Inr db' \<Longrightarrow> plan_steps db' = plan_steps db"
    by (auto simp: Create_def split: if_splits option.splits)
  show "Transition f ten tid a b db = Inr db' \<Longrightarrow> plan_steps db' = plan_steps db"
    by (auto simp: Transition_def transitionExec_frame split: if_splits)
  show "ReserveCost f ten tid seq db = Inr (u, db') \<Longrightarrow> plan_steps db' = plan_steps db"
    by (auto simp: ReserveCost_def Let_def split: if_splits option.splits)
  show "plan_steps (snd (IncrementCost f ten tid u db)) = plan_steps db"
    by (simp add: IncrementCost_def Let_def split: option.splits)
qed (simp_all add: ExpireApproval_def WithdrawApproval_def Let_def)

lemma ResolveApproval_plan_steps:
  assumes "ResolveApproval f now ten aid who ok db = Inr (r, db')"
  shows "plan_steps db' = plan_steps db"
  using assms by (auto simp: ResolveApproval_def Let_def bindE_eq_Inr split: if_splits option.splits prod.splits
      dest!: transitionExec_frame)

lemma ClaimPlanStep_spent:
  assumes "spent ten tid seq db"
  shows "spent ten tid seq (snd (ClaimPlanStep f ten' tid' seq' tool hs db))"
proof (cases "snd (ClaimPlanStep f ten' tid' seq' tool hs db) = db")
  case False
  then have "snd (ClaimPlanStep f ten' tid' seq' tool hs db)
      = db\<lparr>plan_steps := map (\<lambda>x. if step_at ten' tid' seq' x then x\<lparr>consumed := True\<rparr> else x) (plan_steps db)\<rparr>"
    by (auto simp: ClaimPlanStep_def Let_def split: option.splits if_splits)
  then show ?thesis using assms by (auto simp: spent_def)
qed (use assms in simp)

text \<open>Every call but a new plan keeps a spent step spent.\<close>

lemma exec_spent:
  assumes "spent ten tid seq db" "\<forall>a b c d. op \<noteq> OInsert a b c d"
  shows "spent ten tid seq (exec op db)"
proof (cases op)
  case (OClaim a b c d e)
  then show ?thesis using assms ClaimPlanStep_spent by simp
next
  case (OInsert a b c d)
  then show ?thesis using assms by simp
next
  case (OCreate t)
  then show ?thesis using assms by (cases "Create False t db") (simp_all add: spent_def)
next
  case (OTransition a b c d)
  then show ?thesis using assms by (cases "Transition False a b c d db") (simp_all add: spent_def)
next
  case (OReserve a b c)
  then show ?thesis using assms by (cases "ReserveCost False a b c db") (auto simp: spent_def)
next
  case (OResolve a b c d e)
  then show ?thesis using assms
    by (cases "ResolveApproval False a b c d e db") (auto simp: spent_def dest!: ResolveApproval_plan_steps)
next
  case (OCreateGate nid ar)
  then show ?thesis using assms by (simp add: CreateApprovalRequest_def spent_def)
qed (use assms in \<open>simp_all add: spent_def\<close>)

text \<open>How many calls of a run win the claim of one step.\<close>

fun op_wins :: "string \<Rightarrow> string \<Rightarrow> int \<Rightarrow> store_op \<Rightarrow> Db \<Rightarrow> bool" where
  "op_wins ten tid seq (OClaim ten' tid' seq' tool hs) db =
     (ten' = ten \<and> tid' = tid \<and> seq' = seq \<and> claim_won (fst (ClaimPlanStep False ten tid seq tool hs db)))"
| "op_wins ten tid seq _ db = False"

fun wins :: "string \<Rightarrow> string \<Rightarrow> int \<Rightarrow> store_op list \<Rightarrow> Db \<Rightarrow> nat" where
  "wins ten tid seq [] db = 0"
| "wins ten tid seq (op # ops) db = (if op_wins ten tid seq op db then 1 else 0) + wins ten tid seq ops (exec op db)"

abbreviation no_new_plan :: "store_op list \<Rightarrow> bool" where
  "no_new_plan ops \<equiv> \<forall>op \<in> set ops. \<forall>a b c d. op \<noteq> OInsert a b c d"

lemma spent_no_wins: "spent ten tid seq db \<Longrightarrow> no_new_plan ops \<Longrightarrow> wins ten tid seq ops db = 0"
proof (induction ops arbitrary: db)
  case (Cons op ops)
  then have "\<not> op_wins ten tid seq op db" using spent_no_claim by (cases op) auto
  moreover have "wins ten tid seq ops (exec op db) = 0" using Cons exec_spent by simp
  ultimately show ?case by simp
qed simp

lemma op_wins_spent:
  assumes "op_wins ten tid seq op db"
  shows "spent ten tid seq (exec op db)"
  using assms ClaimPlanStep_won(2) by (cases op) auto

text \<open>A plan step runs at most once: between two plans, in every interleaving of
  repository calls at most one ClaimPlanStep of a (task, seq) step succeeds; and a call that
  succeeds named the stored tool, one of the stored argument hashes, and a step that policy
  did not deny.\<close>

theorem claim_at_most_once:
  assumes "no_new_plan ops"
  shows "wins ten tid seq ops db \<le> 1
    \<and> (claim_won (fst (ClaimPlanStep f ten tid seq tool hs (run ops db))) \<longrightarrow>
        (\<exists>r \<in> set (plan_steps (run ops db)). step_at ten tid seq r \<and> claimable tool hs r))"
proof
  show "wins ten tid seq ops db \<le> 1" using assms
  proof (induction ops arbitrary: db)
    case (Cons op ops)
    show ?case
    proof (cases "op_wins ten tid seq op db")
      case True
      then have "wins ten tid seq ops (exec op db) = 0" using op_wins_spent spent_no_wins Cons.prems by simp
      then show ?thesis by simp
    next
      case False
      then show ?thesis using Cons by simp
    qed
  qed simp
  show "claim_won (fst (ClaimPlanStep f ten tid seq tool hs (run ops db))) \<longrightarrow>
        (\<exists>r \<in> set (plan_steps (run ops db)). step_at ten tid seq r \<and> claimable tool hs r)"
    using ClaimPlanStep_won(1) by blast
qed

definition example_step :: PlanStepRecord where
  "example_step = \<lparr>ps_TaskID = ''t1'', ps_TenantID = ''acme'', ps_Seq = 1, ps_ToolID = ''slack.post'', ps_ArgsHash = ''h'',
     ps_EffectClass = ''write_external'', ps_Justification = [], ps_EstimatedCost = 1, ps_PolicyDecision = PolicyNeedApproval,
     ps_PolicyRuleID = [], ps_Args = None, ps_PolicyReason = []\<rparr>"

definition example_claim :: store_op where
  "example_claim = OClaim ''acme'' ''t1'' 1 ''slack.post'' [''h'']"

theorem claim_at_most_once_witness:
  "wins ''acme'' ''t1'' 1 [example_claim, example_claim] \<lparr>tasks = Map.empty, client_request_index = Map.empty,
     plan_steps = [new_row False example_step], approvals = []\<rparr> \<le> 1"
proof -
  have "no_new_plan [example_claim, example_claim]" by (simp add: example_claim_def)
  from claim_at_most_once [OF this] show ?thesis by blast
qed

lemma upsert_step_spent:
  assumes "\<exists>r \<in> set rows. step_at ten tid seq r" "\<forall>r \<in> set rows. step_at ten tid seq r \<longrightarrow> consumed r"
  shows "(\<exists>r \<in> set (upsert_step rows s). step_at ten tid seq r)
    \<and> (\<forall>r \<in> set (upsert_step rows s). step_at ten tid seq r \<longrightarrow> consumed r)"
proof (cases "list_ex (same_key s) rows")
  case True
  let ?f = "\<lambda>r. if same_key s r then (new_row (consumed r) s)\<lparr>ps_TaskID := ps_TaskID r,
                       ps_TenantID := ps_TenantID r, ps_Seq := ps_Seq r\<rparr> else r"
  define g where "g = ?f"
  have f: "step_at ten tid seq (g r) = step_at ten tid seq r" "consumed (g r) = consumed r" for r
    by (simp_all add: g_def step_at_def new_row_def PlanStepRecord.defs)
  have "upsert_step rows s = map g rows" using True by (simp add: upsert_step_def g_def)
  then show ?thesis using assms by (simp add: f)
next
  case False
  then have up: "upsert_step rows s = rows @ [new_row False s]" by (simp add: upsert_step_def)
  have "\<not> step_at ten tid seq (new_row False s)"
  proof
    assume "step_at ten tid seq (new_row False s)"
    then have "ps_TaskID s = tid" "ps_Seq s = seq" by (simp_all add: step_at_def new_row_def PlanStepRecord.defs)
    then show False using False assms(1) by (auto simp: list_ex_iff same_key_def step_at_def)
  qed
  then show ?thesis using assms by (auto simp: up)
qed

text \<open>A replan does not renew a consumed step: the upsert keeps the consumed mark, so
  a new plan that reuses the sequence number of a step that ran can never run that step.\<close>

theorem replan_keeps_consumed:
  assumes "\<exists>r \<in> set (plan_steps db). step_at ten tid seq r" "spent ten tid seq db"
    and "InsertPlanSteps f ten tid steps to db = Inr db'"
  shows "\<not> claim_won (fst (ClaimPlanStep g ten tid seq tool hs db'))"
proof -
  let ?P = "\<lambda>rows. (\<exists>r \<in> set rows. step_at ten tid seq r) \<and> (\<forall>r \<in> set rows. step_at ten tid seq r \<longrightarrow> consumed r)"
  have "?P (foldl upsert_step (plan_steps db) steps)"
  proof (rule foldl_invariant)
    show "?P (plan_steps db)" using assms(1,2) by (simp add: spent_def)
    show "?P (upsert_step rows s)" if "?P rows" for rows s using upsert_step_spent that by blast
  qed
  moreover have "plan_steps db' = plan_steps db \<or> plan_steps db' = insertPlanStepBatch ten tid steps (plan_steps db)"
    using assms(3) by (auto simp: InsertPlanSteps_def bindE_eq_Inr split: if_splits option.splits dest: transitionExec_frame)
  ultimately have "spent ten tid seq db'"
    using assms(2) by (auto simp: spent_def insertPlanStepBatch_def)
  then show ?thesis by (rule spent_no_claim)
qed

theorem replan_keeps_consumed_witness:
  "\<not> claim_won (fst (ClaimPlanStep False ''acme'' ''t1'' 1 ''slack.post'' [''h'']
      (or_same empty_Db (InsertPlanSteps False ''acme'' ''t1'' [example_step] (Some TaskStateApproved)
        \<lparr>tasks = [''t1'' \<mapsto> example_task\<lparr>State := TaskStateValidating\<rparr>], client_request_index = Map.empty,
         plan_steps = [new_row True example_step], approvals = []\<rparr>))))"
proof -
  let ?db = "\<lparr>tasks = [''t1'' \<mapsto> example_task\<lparr>State := TaskStateValidating\<rparr>], client_request_index = Map.empty,
         plan_steps = [new_row True example_step], approvals = []\<rparr>"
  have a: "\<exists>r \<in> set (plan_steps ?db). step_at ''acme'' ''t1'' 1 r" "spent ''acme'' ''t1'' 1 ?db"
    by (simp_all add: step_at_def new_row_def example_step_def PlanStepRecord.defs spent_def)
  have "is_ok (InsertPlanSteps False ''acme'' ''t1'' [example_step] (Some TaskStateApproved) ?db)"
    by (simp add: InsertPlanSteps_def isValidTransition_def transitionExec_def visible_task_def example_task_def)
  then obtain db' where d: "InsertPlanSteps False ''acme'' ''t1'' [example_step] (Some TaskStateApproved) ?db = Inr db'"
    by (rule is_okE)
  show ?thesis using replan_keeps_consumed [OF a d] by (simp add: d)
qed

end
