(* ===== verification/Revocation.thy ===== *)
theory Revocation
  imports Prelude
begin

text \<open>
  broker/internal/db/revocation.go and broker/internal/revocation/revocation.go: the kill
  switches and revocation epochs of users and agents, and the checker that caches them.
  A cached read takes the lock twice and loads in between; a write goes to the database and
  then drops the cache.  The sections are separate definitions, and a step relation
  interleaves them.
\<close>

section \<open>The repository (db/revocation.go)\<close>

record UserBlock =
  b_reason :: string
  b_by :: string

text \<open>
  Active switches only: \<open>tenant_block\<close> and \<open>user_blocks\<close> hold the active rows of
  kill_switches, the directory and the agents their epochs (\<open>None\<close> is the zero time).
\<close>

record RevDb =
  tenant_block :: "string \<Rightarrow> bool"
  user_blocks :: "(string \<times> string) \<rightharpoonup> UserBlock"
  user_directory :: "(string \<times> string) \<rightharpoonup> int option"
  agents :: "(string \<times> string) \<rightharpoonup> (string \<times> int option)"

definition ScimBlockedBy :: string where "ScimBlockedBy = ''scim''"

definition UserState :: "RevDb \<Rightarrow> string \<Rightarrow> string \<Rightarrow> bool \<times> int option" where
  "UserState db tenant subject =
     (tenant_block db tenant \<or> user_blocks db (tenant, subject) \<noteq> None,
      case user_directory db (tenant, subject) of Some nb \<Rightarrow> nb | None \<Rightarrow> None)"

definition AgentState :: "RevDb \<Rightarrow> string \<Rightarrow> string \<Rightarrow> string \<times> int option" where
  "AgentState db tenant agentID =
     (case agents db (tenant, agentID) of Some (status, nb) \<Rightarrow> (status, nb) | None \<Rightarrow> ([], None))"

definition db_SetAgentStatus :: "string \<Rightarrow> string \<Rightarrow> string \<Rightarrow> string \<Rightarrow> RevDb \<Rightarrow> bool \<times> RevDb" where
  "db_SetAgentStatus tenant agentID from to db =
     (case agents db (tenant, agentID) of
        Some (status, nb) \<Rightarrow> if status = from then (True, db\<lparr>agents := (agents db)((tenant, agentID) \<mapsto> (to, nb))\<rparr>) else (False, db)
      | None \<Rightarrow> (False, db))"

definition db_BlockUser :: "string \<Rightarrow> string \<Rightarrow> string \<Rightarrow> string \<Rightarrow> RevDb \<Rightarrow> bool \<times> RevDb" where
  "db_BlockUser tenant subject reason by_user db =
     (case user_blocks db (tenant, subject) of
        None \<Rightarrow> (True, db\<lparr>user_blocks := (user_blocks db)((tenant, subject) \<mapsto> \<lparr>b_reason = reason, b_by = by_user\<rparr>)\<rparr>)
      | Some b \<Rightarrow>
          if b_by b = ScimBlockedBy \<and> by_user \<noteq> ScimBlockedBy
          then (True, db\<lparr>user_blocks := (user_blocks db)((tenant, subject) \<mapsto> \<lparr>b_reason = reason, b_by = by_user\<rparr>)\<rparr>)
          else (False, db))"

definition db_UnblockUser :: "string \<Rightarrow> string \<Rightarrow> RevDb \<Rightarrow> bool \<times> RevDb" where
  "db_UnblockUser tenant subject db =
     (user_blocks db (tenant, subject) \<noteq> None, db\<lparr>user_blocks := (user_blocks db)((tenant, subject) := None)\<rparr>)"

definition RevokeUserSessions :: "string \<Rightarrow> string \<Rightarrow> int \<Rightarrow> RevDb \<Rightarrow> bool \<times> RevDb" where
  "RevokeUserSessions tenant subject at db =
     (case user_directory db (tenant, subject) of
        Some _ \<Rightarrow> (True, db\<lparr>user_directory := (user_directory db)((tenant, subject) \<mapsto> Some at)\<rparr>)
      | None \<Rightarrow> (False, db))"

definition RevokeAgentSessions :: "string \<Rightarrow> string \<Rightarrow> int \<Rightarrow> RevDb \<Rightarrow> bool \<times> RevDb" where
  "RevokeAgentSessions tenant agentID at db =
     (case agents db (tenant, agentID) of
        Some (status, _) \<Rightarrow> (True, db\<lparr>agents := (agents db)((tenant, agentID) \<mapsto> (status, Some at))\<rparr>)
      | None \<Rightarrow> (False, db))"

section \<open>States (revocation.go)\<close>

record RevState =
  Blocked :: bool
  NotBefore :: "int option"
  AgentStatus :: string

definition zero_State :: RevState where
  "zero_State = \<lparr>Blocked = False, NotBefore = None, AgentStatus = []\<rparr>"

definition AgentActive :: string where "AgentActive = ''active''"

definition AgentRefusal :: "RevState \<Rightarrow> string" where
  "AgentRefusal s = (if AgentStatus s = [] \<or> AgentStatus s = AgentActive then [] else ''agent_'' @ AgentStatus s)"

text \<open>A credential issued at \<open>iat\<close>; \<open>None\<close> is the zero time, before every epoch.\<close>

definition Revoked :: "RevState \<Rightarrow> int option \<Rightarrow> bool" where
  "Revoked s iat =
     (Blocked s \<or>
      (case NotBefore s of
         None \<Rightarrow> False
       | Some nb \<Rightarrow> (case iat of None \<Rightarrow> True | Some t \<Rightarrow> t < nb)))"

definition After :: "int option \<Rightarrow> int option \<Rightarrow> bool" where
  "After a b = (case a of None \<Rightarrow> False | Some x \<Rightarrow> (case b of None \<Rightarrow> True | Some y \<Rightarrow> x > y))"

text \<open>The cache keys "u|tenant|subject" and "a|tenant|agent".\<close>

datatype rev_key = KUser string string | KAgent string string

fun key_string :: "rev_key \<Rightarrow> string" where
  "key_string (KUser tenant subject) = ''u|'' @ tenant @ ''|'' @ subject"
| "key_string (KAgent tenant agent) = ''a|'' @ tenant @ ''|'' @ agent"

fun load :: "RevDb \<Rightarrow> rev_key \<Rightarrow> RevState" where
  "load db (KUser tenant subject) =
     (case UserState db tenant subject of (blocked, nb) \<Rightarrow> \<lparr>Blocked = blocked, NotBefore = nb, AgentStatus = []\<rparr>)"
| "load db (KAgent tenant agentID) =
     (case AgentState db tenant agentID of (status, nb) \<Rightarrow>
        \<lparr>Blocked = False, NotBefore = nb, AgentStatus = (if status = [] then ''missing'' else status)\<rparr>)"

section \<open>The checker\<close>

definition TTL :: int where "TTL = 30"

record entry =
  e_st :: RevState
  e_exp :: int

record RevChecker =
  rc_Store :: RevDb
  rc_cache :: "rev_key \<rightharpoonup> entry"
  gen :: nat

text \<open>
  The first locked section of cached: the answer when fresh, and the generation.  The
  second: fill, unless a write landed in between.  The sweep at 10000 entries only drops
  expired entries, which answer nothing, and is left out.
\<close>

definition cached_begin :: "int \<Rightarrow> rev_key \<Rightarrow> RevChecker \<Rightarrow> RevState option \<times> nat" where
  "cached_begin now k c =
     (case rc_cache c k of Some e \<Rightarrow> (if now < e_exp e then Some (e_st e) else None) | None \<Rightarrow> None, gen c)"

definition cached_finish :: "int \<Rightarrow> rev_key \<Rightarrow> nat \<Rightarrow> RevState \<Rightarrow> RevChecker \<Rightarrow> RevChecker" where
  "cached_finish now k g s c =
     (if gen c \<noteq> g then c else c\<lparr>rc_cache := (rc_cache c)(k \<mapsto> \<lparr>e_st = s, e_exp = now + TTL\<rparr>)\<rparr>)"

definition reset :: "RevChecker \<Rightarrow> RevChecker" where
  "reset c = c\<lparr>rc_cache := Map.empty, gen := gen c + 1\<rparr>"

text \<open>cached run without interference; \<open>fail\<close> is an error of the load, which is not cached.\<close>

definition cached :: "bool \<Rightarrow> int \<Rightarrow> rev_key \<Rightarrow> RevChecker \<Rightarrow> (unit, RevState) result \<times> RevChecker" where
  "cached fail now k c =
     (case cached_begin now k c of
        (Some s, _) \<Rightarrow> (Inr s, c)
      | (None, g) \<Rightarrow>
          if fail then (Inl (), c)
          else let s = load (rc_Store c) k in (Inr s, cached_finish now k g s c))"

definition Checker_User :: "bool \<Rightarrow> int \<Rightarrow> string \<Rightarrow> string \<Rightarrow> RevChecker \<Rightarrow> (unit, RevState) result \<times> RevChecker" where
  "Checker_User fail now tenant subject c = cached fail now (KUser tenant subject) c"

definition Checker_Agent :: "bool \<Rightarrow> int \<Rightarrow> string \<Rightarrow> string \<Rightarrow> RevChecker \<Rightarrow> (unit, RevState) result \<times> RevChecker" where
  "Checker_Agent fail now tenant agentID c =
     (if agentID = [] then (Inr zero_State, c) else cached fail now (KAgent tenant agentID) c)"

definition combine :: "RevState \<Rightarrow> RevState \<Rightarrow> RevState" where
  "combine u a = u\<lparr>NotBefore := (if After (NotBefore a) (NotBefore u) then NotBefore a else NotBefore u),
                  AgentStatus := AgentStatus a\<rparr>"

definition Checker_OnBehalfOf :: "bool \<Rightarrow> bool \<Rightarrow> int \<Rightarrow> string \<Rightarrow> string \<Rightarrow> string \<Rightarrow> RevChecker \<Rightarrow> (unit, RevState) result \<times> RevChecker" where
  "Checker_OnBehalfOf fail_u fail_a now tenant subject actor c =
     (case Checker_User fail_u now tenant subject c of
        (Inl e, c1) \<Rightarrow> (Inl e, c1)
      | (Inr u, c1) \<Rightarrow>
          (case Checker_Agent fail_a now tenant actor c1 of
             (Inl e, c2) \<Rightarrow> (Inl e, c2)
           | (Inr a, c2) \<Rightarrow> (Inr (combine u a), c2)))"

text \<open>The write methods: the database call, then the deferred reset, also on error.\<close>

definition write_and_reset :: "(RevDb \<Rightarrow> RevDb) \<Rightarrow> RevChecker \<Rightarrow> RevChecker" where
  "write_and_reset f c = reset (c\<lparr>rc_Store := f (rc_Store c)\<rparr>)"

definition BlockUser :: "string \<Rightarrow> string \<Rightarrow> string \<Rightarrow> string \<Rightarrow> RevChecker \<Rightarrow> bool \<times> RevChecker" where
  "BlockUser tenant subject reason by_user c =
     (fst (db_BlockUser tenant subject reason by_user (rc_Store c)),
      write_and_reset (\<lambda>db. snd (db_BlockUser tenant subject reason by_user db)) c)"

definition UnblockUser :: "string \<Rightarrow> string \<Rightarrow> RevChecker \<Rightarrow> bool \<times> RevChecker" where
  "UnblockUser tenant subject c =
     (fst (db_UnblockUser tenant subject (rc_Store c)), write_and_reset (\<lambda>db. snd (db_UnblockUser tenant subject db)) c)"

definition RevokeUser :: "int \<Rightarrow> string \<Rightarrow> string \<Rightarrow> RevChecker \<Rightarrow> bool \<times> RevChecker" where
  "RevokeUser now tenant subject c =
     (fst (RevokeUserSessions tenant subject now (rc_Store c)), write_and_reset (\<lambda>db. snd (RevokeUserSessions tenant subject now db)) c)"

definition Checker_SetAgentStatus :: "string \<Rightarrow> string \<Rightarrow> string \<Rightarrow> string \<Rightarrow> RevChecker \<Rightarrow> bool \<times> RevChecker" where
  "Checker_SetAgentStatus tenant agentID from to c =
     (fst (db_SetAgentStatus tenant agentID from to (rc_Store c)),
      write_and_reset (\<lambda>db. snd (db_SetAgentStatus tenant agentID from to db)) c)"

definition RevokeAgent :: "int \<Rightarrow> string \<Rightarrow> string \<Rightarrow> RevChecker \<Rightarrow> bool \<times> RevChecker" where
  "RevokeAgent now tenant agentID c =
     (fst (RevokeAgentSessions tenant agentID now (rc_Store c)), write_and_reset (\<lambda>db. snd (RevokeAgentSessions tenant agentID now db)) c)"

section \<open>Interleaved readers and writers\<close>

text \<open>
  A reader past its first section: the key, the generation it saw, and, once it has read
  the database, the state it read.  \<open>unreset\<close> counts the writers that have changed the
  database and not yet dropped the rc_cache.
\<close>

record reader =
  r_key :: rev_key
  r_gen :: nat
  r_loaded :: "RevState option"

record world =
  checker :: RevChecker
  readers :: "reader list"
  unreset :: nat

inductive rev_step :: "world \<Rightarrow> world \<Rightarrow> bool" where
  r_begin: "cached_begin now k (checker w) = (None, g) \<Longrightarrow>
    rev_step w (w\<lparr>readers := \<lparr>r_key = k, r_gen = g, r_loaded = None\<rparr> # readers w\<rparr>)"
| r_load: "i < length (readers w) \<Longrightarrow> r = readers w ! i \<Longrightarrow> r_loaded r = None \<Longrightarrow>
    rev_step w (w\<lparr>readers := (readers w)[i := r\<lparr>r_loaded := Some (load (rc_Store (checker w)) (r_key r))\<rparr>]\<rparr>)"
| r_finish: "i < length (readers w) \<Longrightarrow> r = readers w ! i \<Longrightarrow> r_loaded r = Some s \<Longrightarrow>
    rev_step w (w\<lparr>checker := cached_finish now (r_key r) (r_gen r) s (checker w),
                 readers := take i (readers w) @ drop (Suc i) (readers w)\<rparr>)"
| w_store: "rev_step w (w\<lparr>checker := (checker w)\<lparr>rc_Store := f (rc_Store (checker w))\<rparr>, unreset := Suc (unreset w)\<rparr>)"
| w_reset: "unreset w = Suc n \<Longrightarrow> rev_step w (w\<lparr>checker := reset (checker w), unreset := n\<rparr>)"

definition rev_init :: "RevDb \<Rightarrow> world" where
  "rev_init db = \<lparr>checker = \<lparr>rc_Store = db, rc_cache = Map.empty, gen = 0\<rparr>, readers = [], unreset = 0\<rparr>"

definition rev_inv :: "world \<Rightarrow> bool" where
  "rev_inv w =
     ((\<forall>r \<in> set (readers w). r_gen r \<le> gen (checker w)) \<and>
      (unreset w = 0 \<longrightarrow>
        (\<forall>k e. rc_cache (checker w) k = Some e \<longrightarrow> e_st e = load (rc_Store (checker w)) k) \<and>
        (\<forall>r \<in> set (readers w). \<forall>s. r_loaded r = Some s \<and> r_gen r = gen (checker w) \<longrightarrow> s = load (rc_Store (checker w)) (r_key r))))"

lemma rev_inv_init: "rev_inv (rev_init db)"
  by (simp add: rev_inv_def rev_init_def)

lemma finish_inv:
  assumes "rev_inv w" "i < length (readers w)" "r = readers w ! i" "r_loaded r = Some s"
  shows "rev_inv (w\<lparr>checker := cached_finish now (r_key r) (r_gen r) s (checker w),
                 readers := take i (readers w) @ drop (Suc i) (readers w)\<rparr>)"
proof -
  have rin: "r \<in> set (readers w)" using assms(2,3) by simp
  have sub: "set (take i (readers w) @ drop (Suc i) (readers w)) \<subseteq> set (readers w)"
    by (auto dest: in_set_takeD in_set_dropD)
  show ?thesis using assms(1,4) rin sub unfolding rev_inv_def cached_finish_def
    by (auto split: if_splits)
qed

lemma rev_step_inv:
  assumes "rev_step w w'" "rev_inv w"
  shows "rev_inv w'"
  using assms(1)
proof (cases rule: rev_step.cases)
  case (r_begin now k g)
  then show ?thesis using assms(2) by (auto simp: rev_inv_def cached_begin_def)
next
  case (r_load i r)
  have rin: "r \<in> set (readers w)" using r_load by simp
  show ?thesis unfolding rev_inv_def
  proof (intro conjI impI ballI allI)
    fix q assume "q \<in> set (readers w')"
    then have "q \<in> insert (r\<lparr>r_loaded := Some (load (rc_Store (checker w)) (r_key r))\<rparr>) (set (readers w))"
      using r_load(1) set_update_subset_insert by fastforce
    then show "r_gen q \<le> gen (checker w')"
      using assms(2) rin r_load(1) by (auto simp: rev_inv_def)
    fix s assume "unreset w' = 0" "r_loaded q = Some s \<and> r_gen q = gen (checker w')"
    then show "s = load (rc_Store (checker w')) (r_key q)"
      using \<open>q \<in> insert _ _\<close> assms(2) r_load(1) by (auto simp: rev_inv_def)
  next
    fix k e assume "unreset w' = 0" "rc_cache (checker w') k = Some e"
    then show "e_st e = load (rc_Store (checker w')) k" using assms(2) r_load(1) by (auto simp: rev_inv_def)
  qed
next
  case (r_finish i r s now)
  then show ?thesis using finish_inv [OF assms(2)] by simp
next
  case (w_store f)
  then show ?thesis using assms(2) by (auto simp: rev_inv_def)
next
  case (w_reset n)
  then show ?thesis using assms(2) by (force simp: rev_inv_def reset_def)
qed

lemma rev_reach_inv: "rev_step\<^sup>*\<^sup>* (rev_init db) w \<Longrightarrow> rev_inv w"
  by (induction rule: rtranclp_induct) (auto simp: rev_inv_init rev_step_inv)

section \<open>Properties\<close>

text \<open>C36.  No stale answer survives a write: in every interleaving of readers and writers,
  once every writer has dropped the cache, each cached answer is what the database says, so
  a reader that is answered from the cache sees every block and epoch written before.\<close>

theorem cache_coherent_after_writes:
  assumes "rev_step\<^sup>*\<^sup>* (rev_init db) w" "unreset w = 0"
    and "cached_begin now k (checker w) = (Some s, g)"
  shows "s = load (rc_Store (checker w)) k"
  using rev_reach_inv [OF assms(1)] assms(2,3)
  by (auto simp: rev_inv_def cached_begin_def split: option.splits if_splits)

definition example_db :: RevDb where
  "example_db = \<lparr>tenant_block = (\<lambda>_. False), user_blocks = Map.empty,
     user_directory = [(''acme'', ''bob'') \<mapsto> None], agents = [(''acme'', ''a1'') \<mapsto> (''active'', None)]\<rparr>"

theorem cache_coherent_after_writes_witness:
  "\<exists>w g. rev_step\<^sup>*\<^sup>* (rev_init example_db) w \<and> cached_begin 5 (KUser ''acme'' ''bob'') (checker w)
      = (Some (load (rc_Store (checker w)) (KUser ''acme'' ''bob'')), g)"
proof -
  let ?k = "KUser ''acme'' ''bob''"
  let ?w0 = "rev_init example_db"
  let ?w1 = "?w0\<lparr>readers := [\<lparr>r_key = ?k, r_gen = 0, r_loaded = None\<rparr>]\<rparr>"
  let ?s = "load example_db ?k"
  let ?w2 = "?w0\<lparr>readers := [\<lparr>r_key = ?k, r_gen = 0, r_loaded = Some ?s\<rparr>]\<rparr>"
  let ?w3 = "?w0\<lparr>checker := cached_finish 0 ?k 0 ?s (checker ?w0), readers := []\<rparr>"
  have 1: "rev_step ?w0 ?w1" using r_begin [of 0 ?k ?w0 0] by (simp add: cached_begin_def rev_init_def)
  have 2: "rev_step ?w1 ?w2" using r_load [of 0 ?w1 "\<lparr>r_key = ?k, r_gen = 0, r_loaded = None\<rparr>"] by (simp add: rev_init_def)
  have 3: "rev_step ?w2 ?w3"
    using r_finish [of 0 ?w2 "\<lparr>r_key = ?k, r_gen = 0, r_loaded = Some ?s\<rparr>" ?s 0] by (simp add: rev_init_def)
  have r: "rev_step\<^sup>*\<^sup>* ?w0 ?w3" using 1 2 3 by (meson converse_rtranclp_into_rtranclp rtranclp.rtrancl_refl)
  have b: "cached_begin 5 ?k (checker ?w3) = (Some ?s, 0)"
    by (simp add: cached_begin_def cached_finish_def rev_init_def TTL_def)
  have "?s = load (rc_Store (checker ?w3)) ?k"
    by (rule cache_coherent_after_writes [OF r _ b]) (simp add: rev_init_def)
  then show ?thesis using r b by auto
qed

text \<open>A block takes effect at once: after BlockUser the next read of that user, with any
  clock and any earlier cache content, fails or says blocked, and then every credential is
  revoked, whenever it was issued; the same holds for everybody acting for that user.\<close>

theorem block_takes_effect:
  assumes "fst (Checker_OnBehalfOf fu fa now tenant subject actor (snd (BlockUser tenant subject reason who c))) = Inr s"
  shows "Blocked s \<and> Revoked s iat"
proof -
  let ?c = "snd (BlockUser tenant subject reason who c)"
  have b: "user_blocks (rc_Store ?c) (tenant, subject) \<noteq> None" "rc_cache ?c = Map.empty"
    by (auto simp: BlockUser_def write_and_reset_def reset_def db_BlockUser_def split: option.splits)
  have "Blocked u" if "fst (Checker_User fu now tenant subject ?c) = Inr u" for u
    using that b by (auto simp: Checker_User_def cached_def cached_begin_def Let_def UserState_def split: if_splits)
  then have "Blocked s" using assms by (auto simp: Checker_OnBehalfOf_def combine_def split: prod.splits sum.splits)
  then show ?thesis by (simp add: Revoked_def)
qed

theorem block_takes_effect_witness:
  "\<exists>s. fst (Checker_OnBehalfOf False False 1 ''acme'' ''bob'' ''a1''
      (snd (BlockUser ''acme'' ''bob'' ''left'' ''admin'' \<lparr>rc_Store = example_db, rc_cache = Map.empty, gen = 0\<rparr>))) = Inr s
     \<and> Revoked s (Some 99)"
proof -
  let ?c = "snd (BlockUser ''acme'' ''bob'' ''left'' ''admin'' \<lparr>rc_Store = example_db, rc_cache = Map.empty, gen = 0\<rparr>)"
  have "is_ok (fst (Checker_OnBehalfOf False False 1 ''acme'' ''bob'' ''a1'' ?c))"
    by (simp add: Checker_OnBehalfOf_def Checker_User_def Checker_Agent_def cached_def cached_begin_def cached_finish_def BlockUser_def write_and_reset_def
        reset_def Let_def)
  then obtain s where "fst (Checker_OnBehalfOf False False 1 ''acme'' ''bob'' ''a1'' ?c) = Inr s" by (rule is_okE)
  with block_takes_effect [OF this, of "Some 99"] show ?thesis by blast
qed

text \<open>The state of an on-behalf-of chain revokes a credential exactly when the subject
  or tenant is blocked or the credential predates the epoch of the subject or of the actor.\<close>

theorem combined_epoch:
  "Revoked (combine u a) iat \<longleftrightarrow> Revoked u iat \<or> Revoked (a\<lparr>Blocked := False\<rparr>) iat"
  by (cases "NotBefore u"; cases "NotBefore a"; cases iat) (auto simp: Revoked_def combine_def After_def)

text \<open>An administrator's block outlives SCIM: it takes over a block SCIM had set, and
  SCIM cannot take over the administrator's.\<close>

theorem admin_block_takes_over:
  assumes "who \<noteq> ScimBlockedBy"
  shows "(\<exists>b. user_blocks (snd (db_BlockUser t u r who (snd (db_BlockUser t u r' ScimBlockedBy db)))) (t, u) = Some b
       \<and> b_by b \<noteq> ScimBlockedBy)
    \<and> user_blocks (snd (db_BlockUser t u r' ScimBlockedBy (snd (db_BlockUser t u r who db)))) (t, u)
        = user_blocks (snd (db_BlockUser t u r who db)) (t, u)"
  using assms by (auto simp: db_BlockUser_def split: option.splits)

theorem admin_block_takes_over_witness:
  "\<exists>b. user_blocks (snd (db_BlockUser ''acme'' ''bob'' [] ''admin''
      (snd (db_BlockUser ''acme'' ''bob'' [] ScimBlockedBy example_db)))) (''acme'', ''bob'') = Some b \<and> b_by b \<noteq> ScimBlockedBy"
  using admin_block_takes_over [of "''admin''" "''acme''" "''bob''" "[]" "[]" example_db] by (simp add: ScimBlockedBy_def)

end
