(* ===== verification/Capability.thy ===== *)
theory Capability
  imports TaskStore
begin

text \<open>
  broker/internal/capability/capability.go: minting, attenuating and authorizing
  capability tokens.  The tokens are Biscuits of the third-party library biscuit-go, which
  is a parameter: a record of the functions the code calls.  What the code relies on is the
  interface \<open>biscuit\<close>: a built token carries the authority facts and checks it was built
  with, appending a block adds checks and nothing else, an authorizer sees the authority
  facts and every check, and evaluation that stays within its budget grants exactly when all
  checks and the allow policy hold.
\<close>

section \<open>The library's interface\<close>

text \<open>Times are nanoseconds; a Biscuit date has the precision of a second.\<close>

datatype Term = TString string | TDate int

type_synonym Fact = "string \<times> Term"

definition Date :: "int \<Rightarrow> int" where
  "Date t = t div 1000000000"

text \<open>
  The two checks that the code writes into tokens: \<open>check if time($t), $t < exp\<close> and
  \<open>check if operation($s), allowed.contains($s)\<close>.
\<close>

datatype Check = CheckTimeBefore int | CheckOperationIn "string list"

text \<open>The parameters of the authorizer program of Authorize.\<close>

record AuthzProgram =
  az_op :: string
  az_now :: int
  az_task :: string

datatype outcome = Granted | RunLimit | Refused

record ('tok, 'az) biscuit_lib =
  bl_Build :: "string \<Rightarrow> Fact list \<Rightarrow> Check list \<Rightarrow> string option"
  bl_Unmarshal :: "string \<Rightarrow> 'tok option"
  bl_Append :: "'tok \<Rightarrow> Check \<Rightarrow> string option"
  bl_Authorizer :: "'tok \<Rightarrow> string \<Rightarrow> 'az option"
  bl_Authorize :: "'az \<Rightarrow> AuthzProgram \<Rightarrow> outcome"
  bl_Query :: "'az \<Rightarrow> AuthzProgram \<Rightarrow> string \<Rightarrow> (outcome, Term list) result"

section \<open>The code\<close>

datatype cap_error = ErrNoScopes | ErrBuild | ErrEmptyScope | ErrTaskMismatch | ErrUnmarshal | ErrSignature
  | ErrAuthorizeTimeout | ErrDenied | ErrTokenExpired | ErrRevoked | ErrOBOMismatch | ErrQuery | ErrAppend

text \<open>30 minutes.\<close>

definition DefaultTTL :: int where "DefaultTTL = 1800000000000"

record Minter =
  priv :: string
  pub :: string
  m_TTL :: int

fun dedupe_from :: "string list \<Rightarrow> string list \<Rightarrow> string list" where
  "dedupe_from seen [] = []"
| "dedupe_from seen (s # ss) =
     (if s = [] then dedupe_from seen ss
      else if s \<in> set seen then dedupe_from seen ss
      else s # dedupe_from (s # seen) ss)"

definition dedupe :: "string list \<Rightarrow> string list" where
  "dedupe ss = dedupe_from [] ss"

definition stringFact :: "string \<Rightarrow> string \<Rightarrow> Fact" where
  "stringFact name v = (name, TString v)"

definition authority_facts :: "int \<Rightarrow> int \<Rightarrow> string \<Rightarrow> string \<Rightarrow> OnBehalfOf \<Rightarrow> string list \<Rightarrow> Fact list" where
  "authority_facts now expiry holder taskID obo scopes =
     [(''issued_at'', TDate (Date now)), (''expires'', TDate (Date expiry)), stringFact ''holder'' holder,
      stringFact ''task'' taskID, stringFact ''subject'' (Subject obo), stringFact ''actor'' (Actor obo)] @
     map (stringFact ''right'') (dedupe scopes)"

definition MintTTL ::
  "('tok, 'az) biscuit_lib \<Rightarrow> Minter \<Rightarrow> int \<Rightarrow> string \<Rightarrow> string \<Rightarrow> OnBehalfOf \<Rightarrow> string list \<Rightarrow> int \<Rightarrow> (cap_error, string) result" where
  "MintTTL lib m now holder taskID obo scopes ttl0 =
     (if scopes = [] then Inl ErrNoScopes
      else let ttl = (if ttl0 \<le> 0 then DefaultTTL else ttl0); expiry = now + ttl in
           case bl_Build lib (priv m) (authority_facts now expiry holder taskID obo scopes) [CheckTimeBefore (Date expiry)] of
             None \<Rightarrow> Inl ErrBuild | Some tok \<Rightarrow> Inr tok)"

definition Minter_Mint ::
  "('tok, 'az) biscuit_lib \<Rightarrow> Minter \<Rightarrow> int \<Rightarrow> string \<Rightarrow> string \<Rightarrow> OnBehalfOf \<Rightarrow> string list \<Rightarrow> (cap_error, string) result" where
  "Minter_Mint lib m now holder taskID obo scopes = MintTTL lib m now holder taskID obo scopes (m_TTL m)"

definition Attenuate :: "('tok, 'az) biscuit_lib \<Rightarrow> string \<Rightarrow> string list \<Rightarrow> (cap_error, string) result" where
  "Attenuate lib parent allowed_scopes =
     (if allowed_scopes = [] then Inl ErrNoScopes
      else case bl_Unmarshal lib parent of
             None \<Rightarrow> Inl ErrUnmarshal
           | Some tok \<Rightarrow>
               (case bl_Append lib tok (CheckOperationIn (dedupe allowed_scopes)) of None \<Rightarrow> Inl ErrAppend | Some child \<Rightarrow> Inr child))"

text \<open>denialReason: read the authority facts back; a query that fails yields no facts.\<close>

definition query_or_nil :: "('tok, 'az) biscuit_lib \<Rightarrow> 'az \<Rightarrow> AuthzProgram \<Rightarrow> string \<Rightarrow> Term list" where
  "query_or_nil lib az prog pred = (case bl_Query lib az prog pred of Inr ts \<Rightarrow> ts | Inl _ \<Rightarrow> [])"

definition denialReason :: "('tok, 'az) biscuit_lib \<Rightarrow> 'az \<Rightarrow> AuthzProgram \<Rightarrow> int \<Rightarrow> string \<Rightarrow> cap_error" where
  "denialReason lib az prog now taskID =
     (if \<not> list_ex (\<lambda>t. case t of TDate d \<Rightarrow> now < d * 1000000000 | _ \<Rightarrow> False) (query_or_nil lib az prog ''expires'')
      then ErrTokenExpired
      else if list_ex (\<lambda>t. t = TString taskID) (query_or_nil lib az prog ''task'') then ErrDenied
      else ErrTaskMismatch)"

definition query_error :: "outcome \<Rightarrow> cap_error" where
  "query_error o1 = (if o1 = RunLimit then ErrAuthorizeTimeout else ErrQuery)"

text \<open>The revocation epoch, \<open>None\<close> when no party revoked.\<close>

definition check_issued :: "('tok, 'az) biscuit_lib \<Rightarrow> 'az \<Rightarrow> AuthzProgram \<Rightarrow> int option \<Rightarrow> cap_error option" where
  "check_issued lib az prog notBefore =
     (case notBefore of
        None \<Rightarrow> None
      | Some nb \<Rightarrow>
          (case bl_Query lib az prog ''issued_at'' of
             Inl e \<Rightarrow> Some (query_error e)
           | Inr ts \<Rightarrow>
               if ts = [] then Some ErrRevoked
               else if list_ex (\<lambda>t. case t of TDate d \<Rightarrow> d * 1000000000 < nb | _ \<Rightarrow> True) ts then Some ErrRevoked
               else None))"

definition check_party :: "('tok, 'az) biscuit_lib \<Rightarrow> 'az \<Rightarrow> AuthzProgram \<Rightarrow> string \<Rightarrow> string \<Rightarrow> cap_error option" where
  "check_party lib az prog pred want =
     (case bl_Query lib az prog pred of
        Inl e \<Rightarrow> Some (query_error e)
      | Inr ts \<Rightarrow>
          if ts = [] then Some ErrOBOMismatch
          else if list_ex (\<lambda>t. t \<noteq> TString want) ts then Some ErrOBOMismatch
          else None)"

text \<open>Authorize: \<open>None\<close> is nil.  Go visits the two parties in map order; here the subject first.\<close>

definition Authorize ::
  "('tok, 'az) biscuit_lib \<Rightarrow> Minter \<Rightarrow> int \<Rightarrow> string \<Rightarrow> string \<Rightarrow> string \<Rightarrow> OnBehalfOf \<Rightarrow> int option \<Rightarrow> cap_error option" where
  "Authorize lib m now token requestedScope taskID obo notBefore =
     (if requestedScope = [] then Some ErrEmptyScope
      else if taskID = [] then Some ErrTaskMismatch
      else case bl_Unmarshal lib token of
        None \<Rightarrow> Some ErrUnmarshal
      | Some tok \<Rightarrow>
          (case bl_Authorizer lib tok (pub m) of
             None \<Rightarrow> Some ErrSignature
           | Some az \<Rightarrow>
               (let prog = \<lparr>az_op = requestedScope, az_now = Date now, az_task = taskID\<rparr> in
                case bl_Authorize lib az prog of
                  RunLimit \<Rightarrow> Some ErrAuthorizeTimeout
                | Refused \<Rightarrow> Some (denialReason lib az prog now taskID)
                | Granted \<Rightarrow>
                    (case check_issued lib az prog notBefore of
                       Some e \<Rightarrow> Some e
                     | None \<Rightarrow>
                         (case check_party lib az prog ''subject'' (Subject obo) of
                            Some e \<Rightarrow> Some e
                          | None \<Rightarrow> check_party lib az prog ''actor'' (Actor obo))))))"

section \<open>What the code relies on\<close>

type_synonym token_view = "Fact list \<times> Check list"

fun check_holds :: "AuthzProgram \<Rightarrow> Check \<Rightarrow> bool" where
  "check_holds p (CheckTimeBefore e) = (az_now p < e)"
| "check_holds p (CheckOperationIn ss) = (az_op p \<in> set ss)"

text \<open>The program: check task, check expires against time, allow if right and operation.\<close>

definition program_grants :: "token_view \<Rightarrow> AuthzProgram \<Rightarrow> bool" where
  "program_grants v p =
     (list_all (check_holds p) (snd v)
      \<and> (''task'', TString (az_task p)) \<in> set (fst v)
      \<and> list_ex (\<lambda>f. case f of (n, TDate e) \<Rightarrow> n = ''expires'' \<and> az_now p < e | _ \<Rightarrow> False) (fst v)
      \<and> (''right'', TString (az_op p)) \<in> set (fst v))"

definition facts_of :: "string \<Rightarrow> Fact list \<Rightarrow> Term list" where
  "facts_of pred fs = map snd (filter (\<lambda>f. fst f = pred) fs)"

locale biscuit =
  fixes lib :: "('tok, 'az) biscuit_lib" and view :: "'tok \<Rightarrow> token_view" and az_view :: "'az \<Rightarrow> token_view"
    and pub_of :: "string \<Rightarrow> string"
  assumes build: "bl_Build lib k fs cs = Some bytes \<Longrightarrow>
      \<exists>tok. bl_Unmarshal lib bytes = Some tok \<and> view tok = (fs, cs) \<and> bl_Authorizer lib tok (pub_of k) \<noteq> None"
    and append: "bl_Append lib tok c = Some bytes \<Longrightarrow>
      \<exists>tok'. bl_Unmarshal lib bytes = Some tok' \<and> view tok' = (fst (view tok), snd (view tok) @ [c])
        \<and> (\<forall>k. bl_Authorizer lib tok' k \<noteq> None \<longrightarrow> bl_Authorizer lib tok k \<noteq> None)"
    and authorizer: "bl_Authorizer lib tok k = Some az \<Longrightarrow> az_view az = view tok"
    and evaluate: "bl_Authorize lib az p = Granted \<Longrightarrow> program_grants (az_view az) p"
      "program_grants (az_view az) p \<Longrightarrow> bl_Authorize lib az p \<noteq> Refused"
    and query: "bl_Query lib az p pred = Inr ts \<Longrightarrow> ts = facts_of pred (fst (az_view az))"
      "bl_Query lib az p pred = Inl e \<Longrightarrow> e = RunLimit"
begin

lemma Authorize_None:
  assumes "Authorize lib m now token scope task obo nb = None"
  obtains tok where "bl_Unmarshal lib token = Some tok" "bl_Authorizer lib tok (pub m) \<noteq> None"
    "program_grants (view tok) \<lparr>az_op = scope, az_now = Date now, az_task = task\<rparr>"
    "scope \<noteq> []" "task \<noteq> []"
    "\<And>t. t \<in> set (facts_of ''subject'' (fst (view tok))) \<Longrightarrow> t = TString (Subject obo)"
    "\<And>t. t \<in> set (facts_of ''actor'' (fst (view tok))) \<Longrightarrow> t = TString (Actor obo)"
    "\<And>n t. nb = Some n \<Longrightarrow> t \<in> set (facts_of ''issued_at'' (fst (view tok))) \<Longrightarrow> \<exists>d. t = TDate d \<and> n \<le> d * 1000000000"
proof -
  let ?p = "\<lparr>az_op = scope, az_now = Date now, az_task = task\<rparr>"
  from assms obtain tok az where t: "bl_Unmarshal lib token = Some tok" "bl_Authorizer lib tok (pub m) = Some az"
    "bl_Authorize lib az ?p = Granted" "check_issued lib az ?p nb = None"
    "check_party lib az ?p ''subject'' (Subject obo) = None" "check_party lib az ?p ''actor'' (Actor obo) = None"
    "scope \<noteq> []" "task \<noteq> []"
    by (auto simp: Authorize_def Let_def split: if_splits option.splits outcome.splits)
  have v: "az_view az = view tok" using authorizer t(2) .
  have party: "x = TString want"
    if "check_party lib az ?p pred want = None" "x \<in> set (facts_of pred (fst (view tok)))" for pred want x
    using that query(1) [of az ?p pred] v by (auto simp: check_party_def list_ex_iff split: sum.splits if_splits)
  have iss: "\<exists>d. x = TDate d \<and> n \<le> d * 1000000000"
    if "nb = Some n" "x \<in> set (facts_of ''issued_at'' (fst (view tok)))" for n x
    using t(4) that query(1) [of az ?p "''issued_at''"] v
    by (cases x) (auto simp: check_issued_def list_ex_iff split: sum.splits if_splits)
  show ?thesis
    by (rule that [OF t(1) _ _ t(7,8) party [OF t(5)] party [OF t(6)] iss])
      (use t(2) evaluate(1) [OF t(3)] v in auto)
qed

text \<open>A token that carries what the request needs is never denied: evaluation can only run out.\<close>

lemma Authorize_view:
  assumes "bl_Unmarshal lib token = Some tok" "bl_Authorizer lib tok (pub m) \<noteq> None" "scope \<noteq> []" "task \<noteq> []"
    and "program_grants (view tok) \<lparr>az_op = scope, az_now = Date now, az_task = task\<rparr>"
    and "facts_of ''subject'' (fst (view tok)) = [TString (Subject obo)]"
    and "facts_of ''actor'' (fst (view tok)) = [TString (Actor obo)]"
    and "\<And>n. nb = Some n \<Longrightarrow> \<exists>d. facts_of ''issued_at'' (fst (view tok)) = [TDate d] \<and> n \<le> d * 1000000000"
  shows "Authorize lib m now token scope task obo nb \<in> {None, Some ErrAuthorizeTimeout}"
proof -
  let ?p = "\<lparr>az_op = scope, az_now = Date now, az_task = task\<rparr>"
  obtain az where az: "bl_Authorizer lib tok (pub m) = Some az" using assms(2) by auto
  have v: "az_view az = view tok" using authorizer az .
  have q: "bl_Query lib az ?p pred = Inl RunLimit \<or> bl_Query lib az ?p pred = Inr (facts_of pred (fst (view tok)))" for pred
    using query [of az ?p pred] v by (cases "bl_Query lib az ?p pred") auto
  have i: "check_issued lib az ?p nb \<in> {None, Some ErrAuthorizeTimeout}"
  proof (cases nb)
    case (Some n)
    from assms(8) [OF Some] obtain d where "facts_of ''issued_at'' (fst (view tok)) = [TDate d]" "n \<le> d * 1000000000" by blast
    then show ?thesis using q [of "''issued_at''"] Some by (auto simp: check_issued_def query_error_def)
  qed (simp add: check_issued_def)
  have ps: "check_party lib az ?p ''subject'' (Subject obo) \<in> {None, Some ErrAuthorizeTimeout}"
    "check_party lib az ?p ''actor'' (Actor obo) \<in> {None, Some ErrAuthorizeTimeout}"
    using q [of "''subject''"] q [of "''actor''"] assms(6,7) by (auto simp: check_party_def query_error_def)
  have "bl_Authorize lib az ?p \<noteq> Refused" using evaluate(2) assms(5) v by simp
  then show ?thesis using assms(1,3,4) az i ps
    by (auto simp: Authorize_def Let_def split: outcome.splits option.splits)
qed

end

section \<open>Lemmas\<close>

lemma set_dedupe_from: "set (dedupe_from seen ss) = set ss - insert [] (set seen)"
  by (induction seen ss rule: dedupe_from.induct) auto

lemma set_dedupe [simp]: "set (dedupe ss) = set ss - {[]}"
  by (simp add: dedupe_def set_dedupe_from)

lemma facts_of_authority:
  "facts_of ''subject'' (authority_facts now e h t obo ss) = [TString (Subject obo)]"
  "facts_of ''actor'' (authority_facts now e h t obo ss) = [TString (Actor obo)]"
  "facts_of ''issued_at'' (authority_facts now e h t obo ss) = [TDate (Date now)]"
  by (simp_all add: facts_of_def authority_facts_def stringFact_def filter_map comp_def)

lemma program_grants_authority:
  "program_grants (authority_facts now0 e h t obo ss, [CheckTimeBefore (Date e)]) \<lparr>az_op = s, az_now = n, az_task = t'\<rparr>
     \<longleftrightarrow> n < Date e \<and> t' = t \<and> s \<in> set ss \<and> s \<noteq> []"
  by (auto simp: program_grants_def authority_facts_def stringFact_def)

lemma MintTTL_Inr:
  assumes "MintTTL lib m now h t obo ss ttl = Inr token"
  shows "bl_Build lib (priv m) (authority_facts now (now + (if ttl \<le> 0 then DefaultTTL else ttl)) h t obo ss)
     [CheckTimeBefore (Date (now + (if ttl \<le> 0 then DefaultTTL else ttl)))] = Some token"
  using assms by (auto simp: MintTTL_def Let_def split: if_splits option.splits)

section \<open>A reference instance\<close>

text \<open>
  A token store that keeps the view of every token in the clear: it satisfies the interface,
  and the witnesses below evaluate on it.  Bytes are positions in a table.
\<close>

definition ref_lib :: "(token_view, token_view) biscuit_lib" where
  "ref_lib = \<lparr>bl_Build = (\<lambda>k fs cs. if k = ''key'' \<and> fs = authority_facts 0 3600000000000 ''h'' ''t1''
         \<lparr>Subject = ''bob'', Actor = ''a1'', ServiceRun = False, obo_ServiceAgent = False, DelegatedBy = [],
          obo_EnvelopeID = [], obo_ExternalClientID = [], obo_GrantID = [], obo_Kind = []\<rparr> [''fs:read'', ''fs:write'']
         \<and> cs = [CheckTimeBefore 3600] then Some ''root'' else None),
     bl_Unmarshal = (\<lambda>b. let fs = authority_facts 0 3600000000000 ''h'' ''t1''
         \<lparr>Subject = ''bob'', Actor = ''a1'', ServiceRun = False, obo_ServiceAgent = False, DelegatedBy = [],
          obo_EnvelopeID = [], obo_ExternalClientID = [], obo_GrantID = [], obo_Kind = []\<rparr> [''fs:read'', ''fs:write''] in
        if b = ''root'' then Some (fs, [CheckTimeBefore 3600])
        else if b = ''child'' then Some (fs, [CheckTimeBefore 3600, CheckOperationIn [''fs:read'']]) else None),
     bl_Append = (\<lambda>tok c. if length (snd tok) = 1 \<and> c = CheckOperationIn [''fs:read'']
        \<and> tok = (authority_facts 0 3600000000000 ''h'' ''t1''
         \<lparr>Subject = ''bob'', Actor = ''a1'', ServiceRun = False, obo_ServiceAgent = False, DelegatedBy = [],
          obo_EnvelopeID = [], obo_ExternalClientID = [], obo_GrantID = [], obo_Kind = []\<rparr> [''fs:read'', ''fs:write''],
          [CheckTimeBefore 3600]) then Some ''child'' else None),
     bl_Authorizer = (\<lambda>tok k. if k = ''pub'' then Some tok else None),
     bl_Authorize = (\<lambda>az p. if program_grants az p then Granted else Refused),
     bl_Query = (\<lambda>az p pred. Inr (facts_of pred (fst az)))\<rparr>"

lemma ref_biscuit: "biscuit ref_lib (\<lambda>v. v) (\<lambda>v. v) (\<lambda>_. ''pub'')"
  by unfold_locales (auto simp: ref_lib_def Let_def split: if_splits)

interpretation ref: biscuit ref_lib "\<lambda>v. v" "\<lambda>v. v" "\<lambda>_. ''pub''"
  by (rule ref_biscuit)

definition ref_minter :: Minter where
  "ref_minter = \<lparr>priv = ''key'', pub = ''pub'', m_TTL = 3600000000000\<rparr>"

definition ref_obo :: OnBehalfOf where
  "ref_obo = \<lparr>Subject = ''bob'', Actor = ''a1'', ServiceRun = False, obo_ServiceAgent = False, DelegatedBy = [],
     obo_EnvelopeID = [], obo_ExternalClientID = [], obo_GrantID = [], obo_Kind = []\<rparr>"

lemma ref_minted: "Minter_Mint ref_lib ref_minter 0 ''h'' ''t1'' ref_obo [''fs:read'', ''fs:write''] = Inr ''root''"
  by (simp add: Minter_Mint_def MintTTL_def ref_lib_def ref_minter_def ref_obo_def Date_def)

section \<open>Properties\<close>

text \<open>A minted token authorizes exactly what it was minted for: for a request that no
  budget cuts short, Authorize accepts it if and only if the scope is one of the minted
  scopes, the task is its task, the expiry second is not reached, subject and actor are the
  ones it was minted for, and it was not issued before the revocation epoch.\<close>

theorem minted_token_grants_exactly:
  assumes "biscuit lib view az_view pub_of" "pub m = pub_of (priv m)"
    and "MintTTL lib m now0 holder task obo scopes ttl = Inr token" "scope \<noteq> []" "task' \<noteq> []"
    and "Authorize lib m now token scope task' obo' nb \<noteq> Some ErrAuthorizeTimeout"
  shows "Authorize lib m now token scope task' obo' nb = None \<longleftrightarrow>
    scope \<in> set scopes \<and> task' = task \<and> Date now < Date (now0 + (if ttl \<le> 0 then DefaultTTL else ttl))
    \<and> Subject obo' = Subject obo \<and> Actor obo' = Actor obo
    \<and> (\<forall>n. nb = Some n \<longrightarrow> n \<le> Date now0 * 1000000000)" (is "?A \<longleftrightarrow> ?B")
proof -
  let ?e = "now0 + (if ttl \<le> 0 then DefaultTTL else ttl)"
  from biscuit.build [OF assms(1) MintTTL_Inr [OF assms(3)]] obtain tok where
    tok: "bl_Unmarshal lib token = Some tok"
      "view tok = (authority_facts now0 ?e holder task obo scopes, [CheckTimeBefore (Date ?e)])"
      "bl_Authorizer lib tok (pub m) \<noteq> None"
    using assms(2) by auto
  show ?thesis
  proof
    assume ?A
    then show ?B
      by (rule biscuit.Authorize_None [OF assms(1)])
        (use tok in \<open>auto simp: program_grants_authority facts_of_authority\<close>)
  next
    assume ?B
    then have "Authorize lib m now token scope task' obo' nb \<in> {None, Some ErrAuthorizeTimeout}"
      using assms(4,5) tok
      by (intro biscuit.Authorize_view [OF assms(1) tok(1,3)]) (auto simp: program_grants_authority facts_of_authority)
    then show ?A using assms(6) by auto
  qed
qed

theorem minted_token_grants_exactly_witness:
  "Authorize ref_lib ref_minter 1000000000 ''root'' ''fs:read'' ''t1'' ref_obo None = None"
proof -
  have m: "MintTTL ref_lib ref_minter 0 ''h'' ''t1'' ref_obo [''fs:read'', ''fs:write''] 3600000000000 = Inr ''root''"
    using ref_minted by (simp add: Minter_Mint_def ref_minter_def)
  have n: "Authorize ref_lib ref_minter 1000000000 ''root'' ''fs:read'' ''t1'' ref_obo None \<noteq> Some ErrAuthorizeTimeout"
    by (auto simp: Authorize_def ref_lib_def Let_def check_issued_def check_party_def denialReason_def
        split: if_splits option.splits)
  show ?thesis
    using minted_token_grants_exactly [OF ref_biscuit _ m _ _ n]
    by (simp add: ref_minter_def Date_def)
qed

text \<open>Attenuation only narrows: whatever the attenuated token is accepted for lies in
  the subset, and the parent token is accepted for it too (or its evaluation runs out of
  budget); and an attenuated token never carries facts of its own.\<close>

theorem attenuation_only_narrows:
  assumes "biscuit lib view az_view pub_of" "Attenuate lib parent allowed_scopes = Inr child"
    and "Authorize lib m now child scope task obo nb = None"
    and "bl_Unmarshal lib parent = Some ptok" "length (facts_of ''subject'' (fst (view ptok))) = 1"
    and "length (facts_of ''actor'' (fst (view ptok))) = 1" "length (facts_of ''issued_at'' (fst (view ptok))) = 1"
  shows "scope \<in> set allowed_scopes \<and> Authorize lib m now parent scope task obo nb \<in> {None, Some ErrAuthorizeTimeout}"
proof -
  let ?p = "\<lparr>az_op = scope, az_now = Date now, az_task = task\<rparr>"
  from assms(2,4) have "bl_Append lib ptok (CheckOperationIn (dedupe allowed_scopes)) = Some child"
    by (auto simp: Attenuate_def split: if_splits option.splits)
  from biscuit.append [OF assms(1) this] obtain ctok where
    c: "bl_Unmarshal lib child = Some ctok" "view ctok = (fst (view ptok), snd (view ptok) @ [CheckOperationIn (dedupe allowed_scopes)])"
      "\<And>k. bl_Authorizer lib ctok k \<noteq> None \<Longrightarrow> bl_Authorizer lib ptok k \<noteq> None" by auto
  show ?thesis
  proof (rule biscuit.Authorize_None [OF assms(1,3)])
    fix tok
    assume t: "bl_Unmarshal lib child = Some tok" "bl_Authorizer lib tok (pub m) \<noteq> None" "program_grants (view tok) ?p"
      "scope \<noteq> []" "task \<noteq> []"
      "\<And>t. t \<in> set (facts_of ''subject'' (fst (view tok))) \<Longrightarrow> t = TString (Subject obo)"
      "\<And>t. t \<in> set (facts_of ''actor'' (fst (view tok))) \<Longrightarrow> t = TString (Actor obo)"
      "\<And>n t. nb = Some n \<Longrightarrow> t \<in> set (facts_of ''issued_at'' (fst (view tok))) \<Longrightarrow> \<exists>d. t = TDate d \<and> n \<le> d * 1000000000"
    have tok: "tok = ctok" using t(1) c(1) by simp
    have one: "xs = [x]" if "length xs = 1" "\<And>t. t \<in> set xs \<Longrightarrow> t = x" for xs and x :: Term
      using that by (cases xs) auto
    have "scope \<in> set allowed_scopes" using t(3) by (simp add: tok c(2) program_grants_def)
    moreover have "program_grants (view ptok) ?p" using t(3) by (simp add: tok c(2) program_grants_def)
    moreover have "\<exists>d. facts_of ''issued_at'' (fst (view ptok)) = [TDate d] \<and> n \<le> d * 1000000000" if "nb = Some n" for n
      using t(8) [OF that] assms(7) c(2) tok by (cases "facts_of ''issued_at'' (fst (view ptok))") auto
    ultimately show ?thesis
      using t(2,4-7) c tok assms(5,6)
      by (intro conjI biscuit.Authorize_view [OF assms(1,4)]) (auto intro!: one)
  qed
qed

theorem attenuation_only_narrows_witness:
  "Authorize ref_lib ref_minter 1000000000 ''child'' ''fs:read'' ''t1'' ref_obo None = None
   \<and> ''fs:read'' \<in> set [''fs:read'']
   \<and> Authorize ref_lib ref_minter 1000000000 ''root'' ''fs:read'' ''t1'' ref_obo None \<in> {None, Some ErrAuthorizeTimeout}"
proof -
  have d: "dedupe [''fs:read''] = [''fs:read'']" by (simp add: dedupe_def)
  have a: "Attenuate ref_lib ''root'' [''fs:read''] = Inr ''child''"
    by (simp add: Attenuate_def ref_lib_def d Let_def)
  have ok: "Authorize ref_lib ref_minter 1000000000 ''child'' ''fs:read'' ''t1'' ref_obo None = None"
    by code_simp
  obtain ptok where p: "bl_Unmarshal ref_lib ''root'' = Some ptok"
    "fst ptok = authority_facts 0 3600000000000 ''h'' ''t1'' ref_obo [''fs:read'', ''fs:write'']"
    by (simp add: ref_lib_def ref_obo_def)
  show ?thesis
    using attenuation_only_narrows [OF ref_biscuit a ok p(1)] ok by (simp add: p(2) facts_of_authority)
qed

end
