(* ===== verification/RateLimit.thy ===== *)
theory RateLimit
  imports Prelude
begin

text \<open>
  broker/internal/ratelimit/limiter.go: fixed one-minute windows of request and token
  counters.  A check reads its counters, decides, and only then increments: the two halves
  are separate definitions, so that concurrent checks can interleave between them.
  Metrics are not modelled.
\<close>

section \<open>The limiter\<close>

record Policy =
  p_TenantID :: string
  p_AgentID :: string
  p_Provider :: string
  RPM :: int
  TPM :: int

record windowKey =
  k_tenantID :: string
  k_agentID :: string
  k_provider :: string
  metricType :: string
  minuteTS :: int

record Limiter =
  policies :: "Policy list"
  windows :: "windowKey \<rightharpoonup> int"

definition New_Limiter :: Limiter where
  "New_Limiter = \<lparr>policies = [], windows = Map.empty\<rparr>"

definition SetPolicies :: "Policy list \<Rightarrow> Limiter \<Rightarrow> Limiter" where
  "SetPolicies ps l = l\<lparr>policies := ps\<rparr>"

text \<open>One tick of evictLoop at Unix time \<open>now\<close>.\<close>

definition evict :: "int \<Rightarrow> Limiter \<Rightarrow> Limiter" where
  "evict now l = l\<lparr>windows := (\<lambda>k. if minuteTS k < now div 60 - 2 then None else windows l k)\<rparr>"

text \<open>getOrCreateCounter followed by an atomic load: a missing counter is created as zero.\<close>

definition counter :: "Limiter \<Rightarrow> windowKey \<Rightarrow> int" where
  "counter l k = (case windows l k of Some n \<Rightarrow> n | None \<Rightarrow> 0)"

definition AddInt64 :: "windowKey \<Rightarrow> int \<Rightarrow> Limiter \<Rightarrow> Limiter" where
  "AddInt64 k d l = l\<lparr>windows := (windows l)(k \<mapsto> counter l k + d)\<rparr>"

definition rpm_key :: "string \<Rightarrow> string \<Rightarrow> int \<Rightarrow> windowKey" where
  "rpm_key tenant agent now =
     \<lparr>k_tenantID = tenant, k_agentID = agent, k_provider = [], metricType = ''rpm'', minuteTS = now div 60\<rparr>"

definition tpm_key :: "string \<Rightarrow> string \<Rightarrow> string \<Rightarrow> int \<Rightarrow> windowKey" where
  "tpm_key tenant agent provider now =
     \<lparr>k_tenantID = tenant, k_agentID = agent, k_provider = provider, metricType = ''tpm'', minuteTS = now div 60\<rparr>"

text \<open>Whether one policy rejects the call, given the two counts read at its start.\<close>

definition rpm_rejects :: "string \<Rightarrow> string \<Rightarrow> int \<Rightarrow> int \<Rightarrow> Policy \<Rightarrow> bool" where
  "rpm_rejects tenant agent agentCount globalCount p =
     (if p_TenantID p \<noteq> tenant then False
      else if RPM p = -1 then False
      else if p_Provider p \<noteq> [] then False
      else if p_AgentID p = [] then RPM p = 0 \<or> globalCount + 1 > RPM p
      else if p_AgentID p = agent then RPM p = 0 \<or> agentCount + 1 > RPM p
      else False)"

definition check_decide :: "int \<Rightarrow> string \<Rightarrow> string \<Rightarrow> Limiter \<Rightarrow> bool" where
  "check_decide now tenant agent l =
     (\<not> list_ex (rpm_rejects tenant agent (counter l (rpm_key tenant agent now)) (counter l (rpm_key tenant [] now)))
          (policies l))"

definition check_commit :: "int \<Rightarrow> string \<Rightarrow> string \<Rightarrow> Limiter \<Rightarrow> Limiter" where
  "check_commit now tenant agent l =
     AddInt64 (rpm_key tenant [] now) 1 (AddInt64 (rpm_key tenant agent now) 1 l)"

definition CheckToolInvocation :: "int \<Rightarrow> string \<Rightarrow> string \<Rightarrow> Limiter \<Rightarrow> (rpc_error, unit) result \<times> Limiter" where
  "CheckToolInvocation now tenant agent l =
     (if check_decide now tenant agent l then (Inr (), check_commit now tenant agent l)
      else (Inl (Status ResourceExhausted ''rate limit exceeded: rpm''), l))"

definition RecordLlmTokens :: "int \<Rightarrow> string \<Rightarrow> string \<Rightarrow> string \<Rightarrow> int \<Rightarrow> Limiter \<Rightarrow> Limiter" where
  "RecordLlmTokens now tenant agent provider tokens l =
     AddInt64 (tpm_key tenant [] [] now) tokens
       (AddInt64 (tpm_key tenant [] provider now) tokens
         (AddInt64 (tpm_key tenant agent [] now) tokens l))"

text \<open>The first violated token policy, with the limit type the code reports.\<close>

definition tpm_violation :: "string \<Rightarrow> string \<Rightarrow> string \<Rightarrow> int \<Rightarrow> int \<Rightarrow> int \<Rightarrow> Policy \<Rightarrow> string option" where
  "tpm_violation tenant agent provider agentTokens providerTokens globalTokens p =
     (if p_TenantID p \<noteq> tenant then None
      else if TPM p = -1 then None
      else if p_AgentID p \<noteq> [] \<and> p_AgentID p = agent \<and> p_Provider p = [] then
        (if TPM p = 0 \<or> agentTokens \<ge> TPM p then Some ''tpm_agent'' else None)
      else if p_AgentID p = [] \<and> p_Provider p \<noteq> [] \<and> p_Provider p = provider then
        (if TPM p = 0 \<or> providerTokens \<ge> TPM p then Some ''tpm_provider'' else None)
      else if p_AgentID p = [] \<and> p_Provider p = [] then
        (if TPM p = 0 \<or> globalTokens \<ge> TPM p then Some ''tpm_global'' else None)
      else None)"

definition CheckLlmRequest :: "int \<Rightarrow> string \<Rightarrow> string \<Rightarrow> string \<Rightarrow> Limiter \<Rightarrow> bool \<times> string" where
  "CheckLlmRequest now tenant agent provider l =
     (case List.map_filter (tpm_violation tenant agent provider (counter l (tpm_key tenant agent [] now))
             (counter l (tpm_key tenant [] provider now)) (counter l (tpm_key tenant [] [] now))) (policies l) of
        [] \<Rightarrow> (True, [])
      | v # _ \<Rightarrow> (False, v))"

section \<open>Lemmas\<close>

lemma counter_AddInt64: "counter (AddInt64 k d l) k' = counter l k' + (if k' = k then d else 0)"
  by (simp add: counter_def AddInt64_def)

lemma policies_frame [simp]:
  "policies (AddInt64 k d l) = policies l" "policies (check_commit now t a l) = policies l"
  by (simp_all add: AddInt64_def check_commit_def)

lemma check_commit_global:
  "counter (check_commit now tenant agent l) (rpm_key tenant [] now)
     = counter l (rpm_key tenant [] now) + (if agent = [] then 2 else 1)"
  by (simp add: check_commit_def counter_AddInt64 rpm_key_def)

lemma decide_bound:
  assumes "check_decide now tenant agent l" "p \<in> set (policies l)" "p_TenantID p = tenant"
    and "p_Provider p = []" "p_AgentID p = []" "RPM p \<noteq> -1"
  shows "counter l (rpm_key tenant [] now) + 1 \<le> RPM p" "RPM p \<noteq> 0"
  using assms by (auto simp: check_decide_def list_ex_iff rpm_rejects_def split: if_splits)

section \<open>Concurrent checks\<close>

text \<open>
  Checks of one tenant within one minute, each either deciding or committing: \<open>pending\<close>
  counts the checks that have decided to allow and have not incremented yet.
\<close>

inductive rl_step :: "int \<Rightarrow> string \<Rightarrow> Limiter \<times> nat \<Rightarrow> Limiter \<times> nat \<Rightarrow> bool" for now tenant where
  rl_allow: "check_decide now tenant agent l \<Longrightarrow> agent \<noteq> [] \<Longrightarrow> rl_step now tenant (l, n) (l, Suc n)"
| rl_deny: "\<not> check_decide now tenant agent l \<Longrightarrow> rl_step now tenant (l, n) (l, n)"
| rl_commit: "agent \<noteq> [] \<Longrightarrow> rl_step now tenant (l, Suc n) (check_commit now tenant agent l, n)"

text \<open>Runs with at most \<open>K\<close> checks between their decision and their increment.\<close>

inductive rl_run :: "int \<Rightarrow> string \<Rightarrow> nat \<Rightarrow> Limiter \<Rightarrow> Limiter \<times> nat \<Rightarrow> bool" for now tenant K l0 where
  start: "rl_run now tenant K l0 (l0, 0)"
| step: "rl_run now tenant K l0 s \<Longrightarrow> rl_step now tenant s s' \<Longrightarrow> snd s' \<le> K \<Longrightarrow> rl_run now tenant K l0 s'"

lemma rl_run_bound:
  assumes "rl_run now tenant K l0 s" "p \<in> set (policies l0)" "p_TenantID p = tenant" "p_Provider p = []"
    and "p_AgentID p = []" "0 < RPM p" "counter l0 (rpm_key tenant [] now) = 0"
  shows "policies (fst s) = policies l0 \<and> snd s \<le> K
    \<and> counter (fst s) (rpm_key tenant [] now) + int (snd s) \<le> RPM p - 1 + int K \<or> K = 0 \<and> s = (l0, 0)"
  using assms(1)
proof (induction rule: rl_run.induct)
  case start
  then show ?case using assms by (cases K) auto
next
  case (step s s')
  from step.hyps(2) show ?case
  proof (cases rule: rl_step.cases)
    case (rl_allow agent l n)
    have pol: "policies l = policies l0" using step.IH rl_allow by auto
    have "counter l (rpm_key tenant [] now) + 1 \<le> RPM p"
      using decide_bound(1) [OF rl_allow(3)] assms(2-6) pol by simp
    then show ?thesis using rl_allow step.hyps(3) pol by auto
  next
    case (rl_deny agent l n)
    then show ?thesis using step.IH by auto
  next
    case (rl_commit agent l n)
    then show ?thesis using step.IH step.hyps(3) check_commit_global [of now tenant agent l] by auto
  qed
qed

section \<open>Properties\<close>

text \<open>Under any interleaving of checks the tenant-wide counter of a minute overshoots
  a limit by less than the number of checks that race: with at most \<open>K\<close> of them between
  decision and increment it never exceeds the limit plus \<open>K - 1\<close>, and a denied check
  changes nothing.\<close>

theorem overshoot_bounded_by_racers:
  assumes "rl_run now tenant K l0 (l, n)" "0 < K" "p \<in> set (policies l0)" "p_TenantID p = tenant"
    and "p_Provider p = []" "p_AgentID p = []" "0 < RPM p" "counter l0 (rpm_key tenant [] now) = 0"
  shows "counter l (rpm_key tenant [] now) \<le> RPM p + int K - 1
    \<and> (fst (CheckToolInvocation now tenant agent l) \<noteq> Inr () \<longrightarrow> snd (CheckToolInvocation now tenant agent l) = l)"
  using rl_run_bound [OF assms(1,3-8)] assms(2) by (auto simp: CheckToolInvocation_def)

definition example_policy :: Policy where
  "example_policy = \<lparr>p_TenantID = ''acme'', p_AgentID = [], p_Provider = [], RPM = 1, TPM = -1\<rparr>"

theorem overshoot_bounded_by_racers_witness:
  "counter (check_commit 0 ''acme'' ''a1'' (SetPolicies [example_policy] New_Limiter)) (rpm_key ''acme'' [] 0) \<le> 1"
proof -
  let ?l0 = "SetPolicies [example_policy] New_Limiter"
  have d: "check_decide 0 ''acme'' ''a1'' ?l0"
    by (simp add: check_decide_def rpm_rejects_def SetPolicies_def New_Limiter_def example_policy_def counter_def)
  have r1: "rl_run 0 ''acme'' 1 ?l0 (?l0, Suc 0)"
    using rl_run.step [OF rl_run.start rl_allow [OF d]] by simp
  have r: "rl_run 0 ''acme'' 1 ?l0 (check_commit 0 ''acme'' ''a1'' ?l0, 0)"
    using rl_run.step [OF r1 rl_commit [of "''a1''"]] by simp
  have c: "counter ?l0 (rpm_key ''acme'' [] 0) = 0" by (simp add: counter_def SetPolicies_def New_Limiter_def)
  show ?thesis using overshoot_bounded_by_racers [OF r, of example_policy] c
    by (simp add: example_policy_def SetPolicies_def)
qed

text \<open>Sequential calls respect a tenant-wide limit exactly: the counter after any run
  of calls for named agents never exceeds the limit.\<close>

theorem sequential_calls_within_limit:
  assumes "p \<in> set (policies l0)" "p_TenantID p = tenant" "p_Provider p = []" "p_AgentID p = []" "0 < RPM p"
    and "counter l0 (rpm_key tenant [] now) = 0" "[] \<notin> set agents"
  shows "counter (foldl (\<lambda>l a. snd (CheckToolInvocation now tenant a l)) l0 agents) (rpm_key tenant [] now) \<le> RPM p"
proof -
  let ?P = "\<lambda>l. policies l = policies l0 \<and> counter l (rpm_key tenant [] now) \<le> RPM p"
  have "?P (foldl (\<lambda>l a. snd (CheckToolInvocation now tenant a l)) l0 agents)"
  proof (rule foldl_invariant)
    show "?P l0" using assms(5,6) by simp
    show "?P (snd (CheckToolInvocation now tenant a l))" if "a \<in> set agents" "?P l" for l a
    proof (cases "check_decide now tenant a l")
      case True
      have "a \<noteq> []" using that(1) assms(7) by auto
      then show ?thesis using True that(2) decide_bound(1) [OF True, of p] assms(1-5)
        by (simp add: CheckToolInvocation_def check_commit_global)
    next
      case False
      then show ?thesis using that by (simp add: CheckToolInvocation_def)
    qed
  qed
  then show ?thesis by simp
qed

theorem sequential_calls_within_limit_witness:
  "counter (foldl (\<lambda>l a. snd (CheckToolInvocation 0 ''acme'' a l)) (SetPolicies [example_policy] New_Limiter)
      [''a1'', ''a2'', ''a1'']) (rpm_key ''acme'' [] 0) \<le> 1"
  using sequential_calls_within_limit [of example_policy "SetPolicies [example_policy] New_Limiter" "''acme''" 0 "[''a1'', ''a2'', ''a1'']"]
  by (simp add: example_policy_def SetPolicies_def New_Limiter_def counter_def)

text \<open>A call with no agent counts twice against the tenant: its per-agent window is the
  tenant window itself, so one allowed call of a personal task adds two to the counter that
  the tenant-wide limit is compared with.\<close>

theorem personal_calls_count_twice:
  assumes "check_decide now tenant [] l"
  shows "fst (CheckToolInvocation now tenant [] l) = Inr ()
    \<and> counter (snd (CheckToolInvocation now tenant [] l)) (rpm_key tenant [] now) = counter l (rpm_key tenant [] now) + 2"
  using assms check_commit_global [of now tenant "[]" l] by (simp add: CheckToolInvocation_def)

theorem personal_calls_count_twice_witness:
  "counter (snd (CheckToolInvocation 0 ''acme'' [] New_Limiter)) (rpm_key ''acme'' [] 0) = 2"
  using personal_calls_count_twice [of 0 "''acme''" New_Limiter]
  by (simp add: check_decide_def New_Limiter_def counter_def)

end
