(* ===== verification/Base64.thy ===== *)
theory Base64
  imports Prelude
begin

text \<open>
  The two base64 codecs of Go's encoding/base64 that the broker uses: unpadded URL-safe
  (owner grants) and padded standard (capability tokens on the wire), with the laxness of
  the library: line breaks are skipped and the unused bits of the last character are not
  checked.
\<close>

section \<open>RawURLEncoding\<close>

definition b64_alphabet :: string where
  "b64_alphabet = ''ABCDEFGHIJKLMNOPQRSTUVWXYZabcdefghijklmnopqrstuvwxyz0123456789-_''"

definition b64_char :: "nat \<Rightarrow> char" where
  "b64_char n = b64_alphabet ! n"

definition b64_val :: "char \<Rightarrow> nat option" where
  "b64_val c = IndexByte b64_alphabet c"

fun b64_encode :: "string \<Rightarrow> string" where
  "b64_encode [] = []"
| "b64_encode [a] = [b64_char (byte_of a div 4), b64_char (byte_of a mod 4 * 16)]"
| "b64_encode [a, b] =
     [b64_char (byte_of a div 4), b64_char (byte_of a mod 4 * 16 + byte_of b div 16), b64_char (byte_of b mod 16 * 4)]"
| "b64_encode (a # b # c # r) =
     b64_char (byte_of a div 4) # b64_char (byte_of a mod 4 * 16 + byte_of b div 16) #
     b64_char (byte_of b mod 16 * 4 + byte_of c div 64) # b64_char (byte_of c mod 64) # b64_encode r"

fun b64_bytes :: "nat list \<Rightarrow> string option" where
  "b64_bytes [] = Some []"
| "b64_bytes [w] = None"
| "b64_bytes [w, x] = Some [char_of (w * 4 + x div 16)]"
| "b64_bytes [w, x, y] = Some [char_of (w * 4 + x div 16), char_of (x mod 16 * 16 + y div 4)]"
| "b64_bytes (w # x # y # z # r) =
     map_option (\<lambda>s. char_of (w * 4 + x div 16) # char_of (x mod 16 * 16 + y div 4) # char_of (y mod 4 * 64 + z) # s)
       (b64_bytes r)"

definition b64_decode :: "string \<Rightarrow> string option" where
  "b64_decode s =
     (let vs = map b64_val (filter (\<lambda>c. c \<noteq> CHR 0x0A \<and> c \<noteq> CHR 0x0D) s) in
      if None \<in> set vs then None else b64_bytes (map the vs))"

section \<open>StdEncoding\<close>

definition std_char :: "char \<Rightarrow> char" where
  "std_char c = (if c = CHR ''-'' then CHR ''+'' else if c = CHR ''_'' then CHR ''/'' else c)"

definition url_char :: "char \<Rightarrow> char option" where
  "url_char c = (if c = CHR ''+'' then Some (CHR ''-'') else if c = CHR ''/'' then Some (CHR ''_'')
     else if c = CHR ''-'' \<or> c = CHR ''_'' then None else Some c)"

definition std_encode :: "string \<Rightarrow> string" where
  "std_encode s =
     (let e = b64_encode s in map std_char e @ replicate ((4 - length e mod 4) mod 4) (CHR ''=''))"

text \<open>The text must fill its last group of four with at most two padding characters.\<close>

definition std_decode :: "string \<Rightarrow> string option" where
  "std_decode s =
     (let t = filter (\<lambda>c. c \<noteq> CHR 0x0A \<and> c \<noteq> CHR 0x0D) s;
          body = TrimRight (\<lambda>c. c = CHR ''='') t;
          us = map url_char body
      in if length t mod 4 \<noteq> 0 \<or> length t - length body > 2 \<or> None \<in> set us then None
         else b64_decode (map the us))"

section \<open>Round trips\<close>

lemma b64_alphabet_all:
  "list_all (\<lambda>n. b64_val (b64_char n) = Some n \<and> b64_char n \<notin> set [CHR 0x0A, CHR 0x0D, CHR ''.'']) [0..<64]"
  by code_simp

lemma b64_char_simps:
  assumes "n < 64"
  shows "b64_val (b64_char n) = Some n" "b64_char n \<noteq> CHR 0x0A" "b64_char n \<noteq> CHR 0x0D" "b64_char n \<noteq> CHR ''.''"
  using b64_alphabet_all assms by (auto simp: list_all_iff)

text \<open>The six-bit values that the encoder emits.\<close>

fun b64_vals :: "string \<Rightarrow> nat list" where
  "b64_vals [] = []"
| "b64_vals [a] = [byte_of a div 4, byte_of a mod 4 * 16]"
| "b64_vals [a, b] = [byte_of a div 4, byte_of a mod 4 * 16 + byte_of b div 16, byte_of b mod 16 * 4]"
| "b64_vals (a # b # c # r) =
     byte_of a div 4 # (byte_of a mod 4 * 16 + byte_of b div 16) #
     (byte_of b mod 16 * 4 + byte_of c div 64) # (byte_of c mod 64) # b64_vals r"

lemma b64_encode_vals: "b64_encode s = map b64_char (b64_vals s)"
  by (induction s rule: b64_vals.induct) simp_all

lemma byte_bounds: "byte_of a div 4 < 64" "byte_of a div 16 < 16" "byte_of a div 64 < 4"
  using byte_of_lt [of a] by linarith+

lemma sextet_bounds:
  "byte_of a mod 4 * 16 + byte_of b div 16 < 64" "byte_of a mod 16 * 4 + byte_of b div 64 < 64"
  "byte_of a mod 4 * 16 < 64" "byte_of a mod 16 * 4 < 64"
proof -
  have "byte_of a mod 4 \<le> 3" "byte_of a mod 16 \<le> 15" by (simp_all add: less_Suc_eq_le [symmetric])
  then show "byte_of a mod 4 * 16 + byte_of b div 16 < 64" "byte_of a mod 16 * 4 + byte_of b div 64 < 64"
    "byte_of a mod 4 * 16 < 64" "byte_of a mod 16 * 4 < 64"
    using byte_bounds(2,3) [of b] by linarith+
qed

lemma b64_vals_bound: "v \<in> set (b64_vals s) \<Longrightarrow> v < 64"
  by (induction s rule: b64_vals.induct) (auto simp: byte_bounds sextet_bounds)

lemma char_of_byte [simp]: "char_of (byte_of a) = a"
  by (simp add: byte_of_def)

lemma b64_join1: "char_of (byte_of a div 4 * 4 + (byte_of a mod 4 * 16 + byte_of b div 16) div 16) = a"
  using byte_bounds(2) [of b] by simp

lemma b64_join1': "char_of (byte_of a div 4 * 4 + byte_of a mod 4 * 16 div 16) = a"
  by simp

lemma b64_join2:
  "char_of ((byte_of a mod 4 * 16 + byte_of b div 16) mod 16 * 16 + (byte_of b mod 16 * 4 + byte_of c div 64) div 4) = b"
  using byte_bounds(2) [of b] byte_bounds(3) [of c] by simp

lemma b64_join2':
  "char_of ((byte_of a mod 4 * 16 + byte_of b div 16) mod 16 * 16 + byte_of b mod 16 * 4 div 4) = b"
  using byte_bounds(2) [of b] by simp

lemma b64_join3: "char_of ((byte_of b mod 16 * 4 + byte_of c div 64) mod 4 * 64 + byte_of c mod 64) = c"
  using byte_bounds(3) [of c] by simp

lemma b64_bytes_vals: "b64_bytes (b64_vals s) = Some s"
  by (induction s rule: b64_vals.induct)
    (simp_all only: b64_vals.simps b64_bytes.simps b64_join1 b64_join1' b64_join2 b64_join2' b64_join3 option.map)

lemma b64_roundtrip: "b64_decode (b64_encode s) = Some s"
proof -
  have v: "\<forall>n \<in> set (b64_vals s). n < 64" using b64_vals_bound by blast
  have "filter (\<lambda>c. c \<noteq> CHR 0x0A \<and> c \<noteq> CHR 0x0D) (b64_encode s) = b64_encode s"
    unfolding b64_encode_vals using v b64_char_simps by (intro filter_True) auto
  moreover have "map b64_val (b64_encode s) = map Some (b64_vals s)"
    unfolding b64_encode_vals using v b64_char_simps(1) by simp
  ultimately show ?thesis by (simp add: b64_decode_def Let_def b64_bytes_vals comp_def image_iff)
qed

lemma b64_no_dot: "CHR ''.'' \<notin> set (b64_encode s)"
  unfolding b64_encode_vals using b64_vals_bound b64_char_simps(4) by fastforce


lemma b64_encode_chars: "c \<in> set (b64_encode s) \<Longrightarrow> \<exists>n < 64. c = b64_char n"
  unfolding b64_encode_vals using b64_vals_bound by auto

lemma std_alphabet_all:
  "list_all (\<lambda>n. url_char (std_char (b64_char n)) = Some (b64_char n)
     \<and> std_char (b64_char n) \<notin> set [CHR 0x0A, CHR 0x0D, CHR ''='']) [0..<64]"
  by code_simp

lemma std_char_simps:
  assumes "c \<in> set (b64_encode s)"
  shows "url_char (std_char c) = Some c" "std_char c \<noteq> CHR 0x0A" "std_char c \<noteq> CHR 0x0D" "std_char c \<noteq> CHR ''=''"
  using std_alphabet_all b64_encode_chars [OF assms] by (auto simp: list_all_iff)

lemma length_b64_encode: "length (b64_encode s) mod 4 \<noteq> 1"
proof (induction s rule: b64_encode.induct)
  case (4 a b c r)
  have "length (b64_encode (a # b # c # r)) = length (b64_encode r) + 4" by simp
  then show ?case using 4 by presburger
qed simp_all

lemma pad_length:
  fixes n :: nat
  shows "n mod 4 \<noteq> 1 \<Longrightarrow> (4 - n mod 4) mod 4 \<le> 2" "(n + (4 - n mod 4) mod 4) mod 4 = 0"
proof -
  have lt: "n mod 4 < 4" by simp
  show "(4 - n mod 4) mod 4 \<le> 2" if "n mod 4 \<noteq> 1" using lt that by (cases "n mod 4 = 0") auto
  have "(n mod 4 + (4 - n mod 4) mod 4) mod 4 = 0" using lt by (cases "n mod 4 = 0") auto
  then show "(n + (4 - n mod 4) mod 4) mod 4 = 0" by (simp add: mod_add_left_eq)
qed

lemma TrimRight_pad:
  assumes "xs = [] \<or> \<not> p (last xs)" "\<forall>c \<in> set ys. p c"
  shows "TrimRight p (xs @ ys) = xs"
proof -
  have "dropWhile p (rev ys @ rev xs) = dropWhile p (rev xs)" using assms(2) by (simp add: dropWhile_append)
  also have "\<dots> = rev xs" using assms(1) by (intro dropWhile_id) (auto simp: hd_rev)
  finally show ?thesis by (simp add: TrimRight_def)
qed

lemma std_roundtrip: "std_decode (std_encode s) = Some s"
proof -
  let ?e = "b64_encode s"
  let ?b = "map std_char ?e" and ?p = "replicate ((4 - length ?e mod 4) mod 4) (CHR ''='')"
  have enc: "std_encode s = ?b @ ?p" by (simp add: std_encode_def Let_def)
  have f: "filter (\<lambda>c. c \<noteq> CHR 0x0A \<and> c \<noteq> CHR 0x0D) (?b @ ?p) = ?b @ ?p"
    by (intro filter_True) (auto simp: std_char_simps)
  have t: "TrimRight (\<lambda>c. c = CHR ''='') (?b @ ?p) = ?b"
  proof (rule TrimRight_pad)
    show "?b = [] \<or> last ?b \<noteq> CHR ''=''" using std_char_simps(4) [of "last ?e" s] by (cases "?e = []") (simp_all add: last_map)
  qed simp
  have u: "map url_char ?b = map Some ?e" using std_char_simps(1) by simp
  have "length ?p \<le> 2" "(length ?e + length ?p) mod 4 = 0"
    using pad_length(1) [OF length_b64_encode] pad_length(2) [of "length ?e"] by (simp_all only: length_replicate)
  then show ?thesis unfolding std_decode_def enc f Let_def t u by (simp add: b64_roundtrip comp_def image_iff)
qed

end
