(* ===== verification/Sandbox.thy ===== *)
theory Sandbox
  imports ApprovalSvc StepClaims Revocation Capability RateLimit Base64
begin

text \<open>
  What the two handlers of the south-bound service share (broker/internal/broker): the
  dependencies record, agents and organisation settings, the skill and connector gates
  (service_plan.go, user_bound.go, default_agent.go), argument hashes and step tokens
  (service.go), and the audit events of denied calls (service_invoke.go).

  Every dependency another component provides is a function value of \<open>Deps\<close>; \<open>None\<close> is a
  dependency that is not wired.  Reads through caches (settings, revocation state) are
  functions here: their caches have theories of their own.
\<close>

section \<open>Messages and rows\<close>

record PlanStep =
  st_Seq :: int
  st_ToolId :: string
  st_Args :: "json option"
  st_EffectClass :: effect_class
  st_Justification :: string
  st_EstimatedCost :: int
  st_ReadsSensitive :: bool

record PlanMsg =
  pl_PlanId :: string
  pl_TenantId :: string
  pl_Steps :: "PlanStep list"
  pl_EffectClassCeiling :: effect_class

record Agent =
  ag_Name :: string
  ag_Skills :: "string list"
  ag_McpServers :: "string list"
  ag_McpTools :: "string list"
  ag_ServiceAgent :: bool
  ag_IsDefault :: bool

record OrgSettings =
  ConnectorAllowlistEnabled :: "bool option"
  ConnectorAllowlist :: "string list"
  DisabledEffectClasses :: "string list"

definition EffectClassDisabled :: "OrgSettings \<Rightarrow> string \<Rightarrow> bool" where
  "EffectClassDisabled s className = list_ex (\<lambda>c. c = className) (DisabledEffectClasses s)"

definition ConnectorAllowed :: "OrgSettings \<Rightarrow> string \<Rightarrow> bool" where
  "ConnectorAllowed s providerID =
     (case ConnectorAllowlistEnabled s of
        Some True \<Rightarrow> list_ex (\<lambda>c. c = providerID) (ConnectorAllowlist s)
      | _ \<Rightarrow> True)"

definition providerFromConnectorID :: "string \<Rightarrow> string option" where
  "providerFromConnectorID cid =
     (if cid = ''gdrive'' then Some ''google_drive'' else if cid = ''onedrive'' then Some ''onedrive'' else None)"

definition connectorForTool :: "string \<Rightarrow> string option" where
  "connectorForTool toolID = providerFromConnectorID (takeWhile (\<lambda>c. c \<noteq> CHR ''.'') toolID)"

section \<open>Dependencies\<close>

record PlanDecision =
  pd_Allow :: bool
  pd_Violations :: "string list"

record ProxyRequest =
  px_ToolID :: string
  px_Args :: "json option"
  px_TaskID :: string
  px_TenantID :: string
  px_UserID :: string
  px_AgentID :: string
  px_OBO :: OnBehalfOf

record ToolResult =
  tr_Success :: bool
  tr_Error :: string
  tr_CostUnits :: int
  tr_Flagged :: bool
  tr_Encodes :: bool

record Deps =
  dp_DevMode :: bool
  dp_GatewaySpiffeID :: string
  dp_TenantID :: string
  dp_TasksWired :: bool
  dp_Registry :: Registry
  dp_EnumString :: "effect_class \<Rightarrow> string"
  dp_Cfg :: "string \<Rightarrow> string \<Rightarrow> (config_error, string) result"
  dp_CfgInt :: "string \<Rightarrow> string \<Rightarrow> (unit, int) result"
  dp_Policy :: "AccessPolicy option"
  dp_DecidePlan :: "PlanMsg \<Rightarrow> int \<Rightarrow> string \<Rightarrow> (policy_error, PlanDecision) result"
  dp_DecideToolCall :: "ToolQuery \<Rightarrow> (policy_error, Decision option) result"
  dp_ACL :: "(string \<Rightarrow> string \<Rightarrow> string \<Rightarrow> Action) option"
  dp_UrlHostname :: "string \<Rightarrow> string option"
  dp_Agents :: "(string \<Rightarrow> string \<Rightarrow> (unit, Agent) result) option"
  dp_OverlayLoader :: "(string \<Rightarrow> bool) option"
  dp_OrgSettings :: "(string \<Rightarrow> (unit, OrgSettings) result) option"
  dp_RevOnBehalfOf :: "string \<Rightarrow> string \<Rightarrow> string \<Rightarrow> (unit, RevState) result"
  dp_RevAgent :: "string \<Rightarrow> string \<Rightarrow> (unit, RevState) result"
  dp_Mint :: "(string \<Rightarrow> string \<Rightarrow> OnBehalfOf \<Rightarrow> string list \<Rightarrow> (cap_error, string) result) option"
  dp_Authorize :: "(string \<Rightarrow> string \<Rightarrow> string \<Rightarrow> OnBehalfOf \<Rightarrow> int option \<Rightarrow> cap_error option) option"
  dp_RateLimiter :: bool
  dp_ToolProxy :: "(ProxyRequest \<Rightarrow> (unit, ToolResult) result) option"
  dp_Sha256 :: "string \<Rightarrow> string"

definition fgaTenantObject :: "Deps \<Rightarrow> string" where
  "fgaTenantObject d = ''tenant:'' @ dp_TenantID d"

section \<open>Agents\<close>

definition agent_of :: "Deps \<Rightarrow> string \<Rightarrow> string \<Rightarrow> Agent option" where
  "agent_of d tenant agentID =
     (case dp_Agents d of None \<Rightarrow> None | Some get \<Rightarrow> (case get tenant agentID of Inr a \<Rightarrow> Some a | Inl _ \<Rightarrow> None))"

definition isDefaultAgent :: "Deps \<Rightarrow> string \<Rightarrow> string \<Rightarrow> bool" where
  "isDefaultAgent d tenant agentID =
     (if agentID = [] then False else case agent_of d tenant agentID of None \<Rightarrow> False | Some a \<Rightarrow> ag_IsDefault a)"

definition agentRunRefusal :: "Deps \<Rightarrow> string \<Rightarrow> string \<Rightarrow> (unit, string) result" where
  "agentRunRefusal d tenant agentID =
     (case dp_RevAgent d tenant agentID of Inl e \<Rightarrow> Inl e | Inr s \<Rightarrow> Inr (AgentRefusal s))"

definition agentRefusedErr :: "string \<Rightarrow> rpc_error" where
  "agentRefusedErr reason = Status PermissionDenied (''agent is '' @ TrimPrefix reason ''agent_'')"

text \<open>The first step outside the agent's boundary, as the violation text; empty when none.\<close>

definition step_violation :: "Agent \<Rightarrow> bool \<Rightarrow> string \<Rightarrow> string" where
  "step_violation a mcpOnly tid =
     (if tid = [] \<or> HasPrefix tid ''aikonos:'' then []
      else if HasPrefix tid ''mcp:'' then
        (case ParseMcpToolID tid of
           None \<Rightarrow> ''tool is not in agent's skill boundary''
         | Some (connID, _) \<Rightarrow>
             if connID \<notin> set (ag_McpServers a) then ''tool is not in agent's skill boundary''
             else if tid \<notin> set (ag_McpTools a) then ''tool is not in agent's allowed MCP tools''
             else [])
      else if \<not> mcpOnly \<and> tid \<notin> set (ag_Skills a) then ''tool is not in agent's skill boundary''
      else [])"

fun first_violation :: "Agent \<Rightarrow> bool \<Rightarrow> string list \<Rightarrow> string" where
  "first_violation a mcpOnly [] = []"
| "first_violation a mcpOnly (t # ts) =
     (if step_violation a mcpOnly t \<noteq> [] then step_violation a mcpOnly t else first_violation a mcpOnly ts)"

definition checkAgentSkills :: "Deps \<Rightarrow> string \<Rightarrow> string \<Rightarrow> string list \<Rightarrow> bool \<Rightarrow> string" where
  "checkAgentSkills d tenant agentID toolIDs mcpOnly =
     (case dp_Agents d of
        None \<Rightarrow> ''skill boundary cannot be verified (Agents store not configured)''
      | Some get \<Rightarrow>
          (case get tenant agentID of
             Inl _ \<Rightarrow> ''agent not found or unavailable: skill boundary cannot be verified''
           | Inr a \<Rightarrow> first_violation a mcpOnly toolIDs))"

definition agentMcpToolAllowed :: "Deps \<Rightarrow> string \<Rightarrow> string \<Rightarrow> string \<Rightarrow> bool" where
  "agentMcpToolAllowed d tenant agentID toolID =
     (case agent_of d tenant (TrimPrefix agentID ''agent:'') of None \<Rightarrow> False | Some a \<Rightarrow> toolID \<in> set (ag_McpTools a))"

section \<open>User checks\<close>

text \<open>The decision string of the query: a failed check denies, OpenFGA switched off allows.\<close>

definition userFGADecision :: "Deps \<Rightarrow> string \<Rightarrow> string \<Rightarrow> string \<Rightarrow> string" where
  "userFGADecision d user relation object =
     (case dp_Policy d of
        None \<Rightarrow> ''allow''
      | Some pol \<Rightarrow>
          if \<not> FGAEnabled pol then ''allow''
          else (case CheckFGA pol user relation object of
                  Inl _ \<Rightarrow> ''deny''
                | Inr granted \<Rightarrow> if granted then ''allow'' else ''deny''))"

definition userSkillDecision :: "Deps \<Rightarrow> string \<Rightarrow> string \<Rightarrow> string" where
  "userSkillDecision d owner toolID = userFGADecision d (''user:'' @ owner) ''can_invoke'' (''skill:'' @ toolID)"

definition userConnectorDecision :: "Deps \<Rightarrow> string \<Rightarrow> string \<Rightarrow> string" where
  "userConnectorDecision d owner toolID =
     (case ParseMcpToolID toolID of
        None \<Rightarrow> ''deny''
      | Some (connID, _) \<Rightarrow> userFGADecision d (''user:'' @ owner) ''can_access'' (''mcp_connector:'' @ connID))"

definition userBoundExemption :: "Deps \<Rightarrow> string \<Rightarrow> Task \<Rightarrow> string" where
  "userBoundExemption d tenant task =
     (if ServiceRun (Task_OnBehalfOf task) then ''service_run''
      else case AgentID task of
             None \<Rightarrow> []
           | Some aid \<Rightarrow>
               (case agent_of d tenant aid of
                  None \<Rightarrow> []
                | Some a \<Rightarrow> if ag_ServiceAgent a then ''service_agent'' else []))"

definition userBoundMode :: "Deps \<Rightarrow> string \<Rightarrow> string" where
  "userBoundMode d tenant =
     (case dp_Cfg d tenant ''identity.enforce_user_bound'' of Inl _ \<Rightarrow> ''enforce'' | Inr m \<Rightarrow> m)"

definition would_deny_event :: "string \<Rightarrow> string \<Rightarrow> string \<Rightarrow> string \<Rightarrow> AuditEvent" where
  "would_deny_event tenant user toolID reason =
     \<lparr>ev_Type = ''aikonos.broker.user_bound.would_deny'', ev_TenantID = tenant, ev_ActorUserID = user,
      ev_ResourceRef = ''aikonos:tool:'' @ toolID, ev_Decision = DENY, ev_Reason = reason\<rparr>"

definition planUserBound :: "Deps \<Rightarrow> string \<Rightarrow> Task \<Rightarrow> string \<Rightarrow> string \<Rightarrow> string \<times> AuditEvent list" where
  "planUserBound d tenant task toolID fgaDec =
     (if fgaDec \<noteq> ''deny'' then (fgaDec, [])
      else if userBoundMode d tenant = ''enforce'' then (fgaDec, [])
      else ([], [would_deny_event tenant (OwnerUserID task) toolID
                  (if ParseMcpToolID toolID \<noteq> None then ''mcp_user_access_would_deny'' else ''user_skill_would_deny'')]))"

section \<open>Argument hashes and step tokens (service.go)\<close>

definition argsHash :: "(string \<Rightarrow> string) \<Rightarrow> json option \<Rightarrow> string" where
  "argsHash sha256 args = (case args of None \<Rightarrow> [] | Some a \<Rightarrow> sha256 (json_Marshal a))"

fun obj_fields :: "json option \<Rightarrow> (string \<times> json) list" where
  "obj_fields (Some (JObj kvs)) = kvs"
| "obj_fields _ = []"

text \<open>The accessor GetStringValue: empty unless the field is a string.\<close>

definition string_field :: "json option \<Rightarrow> string \<Rightarrow> string" where
  "string_field args k = (case map_of (obj_fields args) k of Some (JStr s) \<Rightarrow> s | _ \<Rightarrow> [])"

definition webFetchHost :: "Deps \<Rightarrow> json option \<Rightarrow> string" where
  "webFetchHost d args =
     (let raw = string_field args ''url'' in
      if raw = [] then [] else case dp_UrlHostname d raw of Some h \<Rightarrow> h | None \<Rightarrow> [])"

fun mint_steps :: "Deps \<Rightarrow> (string list \<Rightarrow> (cap_error, string) result) \<Rightarrow> (int \<times> string) list \<Rightarrow> (int \<rightharpoonup> string) \<Rightarrow> (cap_error, int \<rightharpoonup> string) result" where
  "mint_steps d mint [] out = Inr out"
| "mint_steps d mint ((seq, tool) # steps) out =
     (case RequiredScope (dp_Registry d) tool of
        None \<Rightarrow> mint_steps d mint steps out
      | Some scope \<Rightarrow>
          (case mint [scope] of
             Inl e \<Rightarrow> Inl e
           | Inr raw \<Rightarrow> mint_steps d mint steps (out(seq \<mapsto> std_encode raw))))"

definition mintStepTokens ::
  "Deps \<Rightarrow> string \<Rightarrow> string \<Rightarrow> OnBehalfOf \<Rightarrow> (int \<times> string) list \<Rightarrow> (cap_error, int \<rightharpoonup> string) result" where
  "mintStepTokens d holder taskID obo steps =
     (case dp_Mint d of
        None \<Rightarrow> Inr Map.empty
      | Some mint \<Rightarrow> if steps = [] then Inr Map.empty else mint_steps d (mint holder taskID obo) steps Map.empty)"

section \<open>Delegated scopes\<close>

definition delegationScopeViolation :: "Deps \<Rightarrow> Task \<Rightarrow> string list \<Rightarrow> string" where
  "delegationScopeViolation d task toolIDs =
     (case DelegatedScopes task of
        None \<Rightarrow> []
      | Some scopes \<Rightarrow>
          if list_ex (\<lambda>tool. case RequiredScope (dp_Registry d) tool of None \<Rightarrow> True | Some sc \<Rightarrow> sc \<notin> set scopes) toolIDs
          then ''step needs a scope outside the delegation'' else [])"

section \<open>Audit events of a denied call\<close>

text \<open>
  Tenant and actor are the bound task's, or the broker's own tenant and nobody: never the
  request's.  The values the caller claimed, which go into the event's context, are left out.
\<close>

definition tool_denied :: "Deps \<Rightarrow> Identity option \<Rightarrow> Task option \<Rightarrow> string \<Rightarrow> string \<Rightarrow> AuditEvent" where
  "tool_denied d ident task toolID reason =
     \<lparr>ev_Type = ''aikonos.broker.tool.denied'',
      ev_TenantID = (case task of Some t \<Rightarrow> TenantID t | None \<Rightarrow> resolveTenant ident (dp_TenantID d) []),
      ev_ActorUserID = (case task of Some t \<Rightarrow> OwnerUserID t | None \<Rightarrow> []),
      ev_ResourceRef = ''aikonos:tool:'' @ (if RequiredScope (dp_Registry d) toolID \<noteq> None then toolID else ''unknown''),
      ev_Decision = DENY, ev_Reason = reason\<rparr>"

section \<open>Checks with audit events\<close>

text \<open>A check ends in an error or a value, and leaves audit events behind.\<close>

type_synonym 'a check = "(rpc_error, 'a) result \<times> AuditEvent list"

definition pass :: "'a \<Rightarrow> 'a check" where
  "pass a = (Inr a, [])"

definition refuse :: "grpc_code \<Rightarrow> string \<Rightarrow> AuditEvent list \<Rightarrow> 'a check" where
  "refuse c msg evs = (Inl (Status c msg), evs)"

definition andThen :: "'a check \<Rightarrow> ('a \<Rightarrow> 'b check) \<Rightarrow> 'b check" where
  "andThen g f = (case g of (Inl e, evs) \<Rightarrow> (Inl e, evs) | (Inr a, evs) \<Rightarrow> (let (r, evs') = f a in (r, evs @ evs')))"

lemma andThen_ok: "fst (andThen g f) = Inr b \<longleftrightarrow> (\<exists>a. fst g = Inr a \<and> fst (f a) = Inr b)"
  by (auto simp: andThen_def split: prod.splits sum.splits)

lemma pass_ok [simp]: "fst (pass a) = Inr b \<longleftrightarrow> a = b" "snd (pass a) = []"
  by (auto simp: pass_def)

lemma refuse_ok [simp]: "fst (refuse c m evs) = Inr b \<longleftrightarrow> False" "snd (refuse c m evs) = evs" "fst (refuse c m evs) = Inl (Status c m)"
  by (auto simp: refuse_def)

lemma andThen_events: "set (snd (andThen g f)) = set (snd g) \<union> (case fst g of Inl _ \<Rightarrow> {} | Inr a \<Rightarrow> set (snd (f a)))"
  by (cases g; cases "fst g") (auto simp: andThen_def split: prod.splits)

end
