(* ===== verification/AgentRun.thy ===== *)
theory AgentRun
  imports Sandbox
begin

text \<open>
  broker/internal/broker/default_agent.go and agent_status.go: the agent a run binds to, the
  tenant's default agent, and the lifecycle of agents with the sweep that suspends orphans.  The
  agent table and OpenFGA are read through the functions of \<open>RunDeps\<close>, which may answer something
  stale; the status itself lives in the revocation store, where it is written by compare and set.
\<close>

section \<open>Rows and stores\<close>

record AgentRow = Agent +
  ag_ID :: string
  ag_Status :: string
  ag_CreatedAt :: int

text \<open>\<open>Inl True\<close> is the row not being there, \<open>Inl False\<close> any other failure.\<close>

record AgentStore =
  as_Get :: "string \<Rightarrow> string \<Rightarrow> (bool, AgentRow) result"
  as_UserDefault :: "string \<Rightarrow> string \<Rightarrow> (unit, string) result"
  as_EnsureDefault :: "string \<Rightarrow> (unit, AgentRow \<times> bool) result"
  as_List :: "string \<Rightarrow> (unit, AgentRow list) result"

text \<open>A tuple is a user, a relation and an object.\<close>

type_synonym tuple3 = "string \<times> string \<times> string"

record RunPolicy =
  rp_Enabled :: bool
  rp_Check :: fga_check
  rp_ReadRelation :: "string \<Rightarrow> string \<Rightarrow> (unit, tuple3 list) result"
  rp_ReadObject :: "string \<Rightarrow> (unit, tuple3 list) result"
  rp_WriteOk :: bool

record RunDeps =
  rd_TenantID :: string
  rd_UUID :: "string \<Rightarrow> string option"
  rd_Agents :: "AgentStore option"
  rd_Policy :: "RunPolicy option"
  rd_RevAgent :: "string \<Rightarrow> string \<Rightarrow> (unit, RevState) result"

section \<open>May a user run an agent?\<close>

definition MayOperateAgent :: "RunPolicy option \<Rightarrow> string \<Rightarrow> string \<Rightarrow> string \<Rightarrow> bool" where
  "MayOperateAgent ap user agentID tenantObject =
     (case ap of
        None \<Rightarrow> True
      | Some p \<Rightarrow>
          if \<not> rp_Enabled p then True
          else (case rp_Check p (''user:'' @ user) ''can_use'' (''agent:'' @ agentID) of
                  Inl _ \<Rightarrow> False
                | Inr True \<Rightarrow> True
                | Inr False \<Rightarrow>
                    (case rp_Check p (''user:'' @ user) ''admin'' tenantObject of Inl _ \<Rightarrow> False | Inr admin \<Rightarrow> admin)))"

definition mayOperateActor :: "RunDeps \<Rightarrow> string \<Rightarrow> string \<Rightarrow> bool" where
  "mayOperateActor d user agentID = MayOperateAgent (rd_Policy d) user agentID (''tenant:'' @ rd_TenantID d)"

definition run_refusal :: "RunDeps \<Rightarrow> string \<Rightarrow> string \<Rightarrow> (unit, string) result" where
  "run_refusal d tenant agentID = (case rd_RevAgent d tenant agentID of Inl e \<Rightarrow> Inl e | Inr st \<Rightarrow> Inr (AgentRefusal st))"

definition runAgentErr :: "string \<Rightarrow> string \<Rightarrow> rpc_error" where
  "runAgentErr reason agentID =
     (if HasPrefix reason ''agent_'' then agentRefusedErr reason
      else Status PermissionDenied (''you do not have access to agent '' @ agentID))"

datatype run_result = RunOk AgentRow | RunRefused string | RunErr

definition runnable :: "RunDeps \<Rightarrow> string \<Rightarrow> AgentRow \<Rightarrow> run_result" where
  "runnable d tenant a =
     (case run_refusal d tenant (ag_ID a) of
        Inl _ \<Rightarrow> RunErr
      | Inr r \<Rightarrow> if r \<noteq> [] then RunRefused r else RunOk a)"

definition agent_event :: "string \<Rightarrow> string \<Rightarrow> string \<Rightarrow> string \<Rightarrow> string \<Rightarrow> AuditEvent" where
  "agent_event tenant user agentID etype reason =
     \<lparr>ev_Type = etype, ev_TenantID = tenant, ev_ActorUserID = user,
      ev_ResourceRef = (if agentID = [] then [] else ''agent:'' @ agentID),
      ev_Decision = (if reason = [] then ALLOW else DENY), ev_Reason = reason\<rparr>"

text \<open>The tuples written and the audit events come with the answer.\<close>

type_synonym effects = "tuple3 list \<times> AuditEvent list"

definition ensureDefaultAgent :: "RunDeps \<Rightarrow> AgentStore \<Rightarrow> string \<Rightarrow> bool \<Rightarrow> (unit, AgentRow) result \<times> effects" where
  "ensureDefaultAgent d st tenant repair =
     (case as_EnsureDefault st tenant of
        Inl e \<Rightarrow> (Inl e, [], [])
      | Inr (a, created) \<Rightarrow>
          (let obj = ''agent:'' @ ag_ID a;
               grant = [(''user:*'', ''usable_by'', obj)];
               ev = agent_event tenant ''system:default-agent'' (ag_ID a) ''aikonos.broker.agent.usable_by.added'' []
           in if \<not> created \<and> \<not> repair then (Inr a, [], [])
              else (case rd_Policy d of
                      None \<Rightarrow> (Inr a, [], [])
                    | Some p \<Rightarrow>
                        if rp_Enabled p \<and> rp_ReadRelation p ''usable_by'' obj = Inr [] \<and> rp_WriteOk p
                        then (Inr a, grant, [ev]) else (Inr a, [], []))))"

definition named_agent :: "RunDeps \<Rightarrow> AgentStore \<Rightarrow> string \<Rightarrow> string \<Rightarrow> string \<Rightarrow> run_result" where
  "named_agent d st tenant user agentID =
     (if rd_UUID d agentID = None then RunRefused ''actor_not_found''
      else case as_Get st tenant agentID of
             Inl _ \<Rightarrow> RunRefused ''actor_not_found''
           | Inr a \<Rightarrow> if \<not> mayOperateActor d user (ag_ID a) then RunRefused ''actor_not_permitted'' else runnable d tenant a)"

definition tenant_default :: "RunDeps \<Rightarrow> AgentStore \<Rightarrow> string \<Rightarrow> string \<Rightarrow> run_result \<times> effects" where
  "tenant_default d st tenant user =
     (case ensureDefaultAgent d st tenant False of
        (Inl _, eff) \<Rightarrow> (RunErr, eff)
      | (Inr a, eff) \<Rightarrow>
          (if \<not> mayOperateActor d user (ag_ID a) then RunRefused ''actor_not_permitted'' else runnable d tenant a, eff))"

text \<open>A preferred agent the user may still run is used; a store failure on the way stops the run.\<close>

definition preferred_agent :: "RunDeps \<Rightarrow> AgentStore \<Rightarrow> string \<Rightarrow> string \<Rightarrow> string \<Rightarrow> run_result option" where
  "preferred_agent d st tenant user pref =
     (if pref = [] then None
      else case as_Get st tenant pref of
             Inl _ \<Rightarrow> None
           | Inr a \<Rightarrow>
               if \<not> mayOperateActor d user pref then None
               else (case run_refusal d tenant pref of
                       Inl _ \<Rightarrow> Some RunErr
                     | Inr r \<Rightarrow> if r = [] then Some (RunOk a) else None))"

definition runAgent :: "RunDeps \<Rightarrow> AgentStore \<Rightarrow> string \<Rightarrow> string \<Rightarrow> string \<Rightarrow> run_result \<times> effects" where
  "runAgent d st tenant user agentID =
     (if agentID \<noteq> [] then (named_agent d st tenant user agentID, [], [])
      else case as_UserDefault st tenant user of
             Inl _ \<Rightarrow> (RunErr, [], [])
           | Inr pref \<Rightarrow>
               (case preferred_agent d st tenant user pref of
                  Some r \<Rightarrow> (r, [], [])
                | None \<Rightarrow> tenant_default d st tenant user))"

section \<open>Lifecycle (agent_status.go)\<close>

definition AgentStaged :: string where "AgentStaged = ''staged''"
definition AgentSuspended :: string where "AgentSuspended = ''suspended''"
definition AgentRetired :: string where "AgentRetired = ''retired''"

definition agentTransition :: "string \<Rightarrow> string \<Rightarrow> string option" where
  "agentTransition from to =
     (if from = AgentStaged \<and> to = AgentActive then Some ''aikonos.broker.agent.activated''
      else if from = AgentSuspended \<and> to = AgentActive then Some ''aikonos.broker.agent.reactivated''
      else if from = AgentActive \<and> to = AgentSuspended then Some ''aikonos.broker.agent.suspended''
      else if from \<noteq> AgentRetired \<and> to = AgentRetired then Some ''aikonos.broker.agent.retired''
      else None)"

definition maxRevocationReason :: nat where "maxRevocationReason = 500"

definition agentOwnerRefs :: "tuple3 list \<Rightarrow> string list" where
  "agentOwnerRefs rels = map fst (filter (\<lambda>(_, rel, _). rel = ''owner_user'' \<or> rel = ''owner_group'') rels)"

fun agentOrphaned :: "string list \<Rightarrow> (string \<rightharpoonup> int) \<Rightarrow> bool" where
  "agentOrphaned [] blocks = True"
| "agentOrphaned (o1 # os) blocks =
     (case CutPrefix o1 ''user:'' of
        None \<Rightarrow> False
      | Some subject \<Rightarrow> if blocks subject = None then False else agentOrphaned os blocks)"

text \<open>The blocked users of the tenant with the time of their block; \<open>Inl\<close> is a failed read.\<close>

definition requireLiveOwner :: "RunPolicy option \<Rightarrow> (unit, string \<rightharpoonup> int) result \<Rightarrow> string \<Rightarrow> (rpc_error, unit) result" where
  "requireLiveOwner pol blocks agentID =
     (case pol of
        None \<Rightarrow> Inl (Status FailedPrecondition ''agent owners cannot be verified (authorization store disabled)'')
      | Some p \<Rightarrow>
          if \<not> rp_Enabled p then Inl (Status FailedPrecondition ''agent owners cannot be verified (authorization store disabled)'')
          else (case rp_ReadObject p (''agent:'' @ agentID) of
                  Inl _ \<Rightarrow> Inl (Status Internal ''read agent owners failed'')
                | Inr rels \<Rightarrow>
                    (case blocks of
                       Inl _ \<Rightarrow> Inl (Status Internal ''list user blocks'')
                     | Inr bs \<Rightarrow>
                         if agentOrphaned (agentOwnerRefs rels) bs
                         then Inl (Status FailedPrecondition ''agent needs at least one owner who is not blocked before it can be activated'')
                         else Inr ())))"

record StatusReq =
  sq_TenantId :: string
  sq_UserId :: string
  sq_AgentId :: string
  sq_Status :: string
  sq_Reason :: string

definition status_event :: "string \<Rightarrow> string \<Rightarrow> string \<Rightarrow> string \<Rightarrow> string \<Rightarrow> AuditEvent" where
  "status_event tenant actor etype agentID reason =
     \<lparr>ev_Type = etype, ev_TenantID = tenant, ev_ActorUserID = actor, ev_ResourceRef = ''agent:'' @ agentID,
      ev_Decision = ALLOW, ev_Reason = reason\<rparr>"

text \<open>Everything SetAgentStatus checks before it writes: the row, the new status, the reason and the event.\<close>

definition status_change :: "RunDeps \<Rightarrow> Identity option \<Rightarrow> bool \<Rightarrow> (unit, string \<rightharpoonup> int) result \<Rightarrow> StatusReq
  \<Rightarrow> (rpc_error, string \<times> string \<times> AgentRow \<times> string \<times> string) result" where
  "status_change d ident revocation blocks req =
     (case rd_Agents d of
        None \<Rightarrow> Inl (Status FailedPrecondition ''agents disabled'')
      | Some st \<Rightarrow>
          if \<not> revocation then Inl (Status FailedPrecondition ''revocation not configured'')
          else bindE (callerIdentity (\<lambda>s. rd_UUID d s \<noteq> None) ident (sq_TenantId req) (sq_UserId req)) (\<lambda>(tenant, admin).
            bindE (requireTenantAdmin (case rd_Policy d of Some p \<Rightarrow> rp_Check p | None \<Rightarrow> \<lambda>_ _ _. Inr True) (''tenant:'' @ rd_TenantID d) admin) (\<lambda>_.
              let to = sq_Status req; reason = TrimSpace (sq_Reason req) in
              if rd_UUID d (sq_AgentId req) = None then Inl (Status InvalidArgument ''invalid agent_id'')
              else if to \<notin> {AgentActive, AgentSuspended, AgentRetired}
              then Inl (Status InvalidArgument ''status must be active, suspended or retired'')
              else if reason = [] \<and> to \<noteq> AgentActive then Inl (Status InvalidArgument ''reason required'')
              else if length reason > maxRevocationReason then Inl (Status InvalidArgument ''reason longer than 500 bytes'')
              else (case as_Get st tenant (sq_AgentId req) of
                      Inl True \<Rightarrow> Inl (Status NotFound ''agent not found'')
                    | Inl False \<Rightarrow> Inl (Status Internal ''fetch agent'')
                    | Inr a \<Rightarrow>
                        (case agentTransition (ag_Status a) to of
                           None \<Rightarrow> Inl (Status FailedPrecondition (''agent is '' @ ag_Status a @ ''; cannot set it '' @ to))
                         | Some event \<Rightarrow>
                             if to = AgentRetired \<and> ag_IsDefault a
                             then Inl (Status FailedPrecondition ''the tenant default agent cannot be retired'')
                             else bindE (if to = AgentActive \<and> \<not> ag_IsDefault a then requireLiveOwner (rd_Policy d) blocks (ag_ID a) else Inr ())
                               (\<lambda>_. Inr (tenant, admin, a, event, reason)))))))"

text \<open>\<open>fault\<close> is a failing write, \<open>refetch\<close> whether the row can be read again for the answer.\<close>

definition SetAgentStatus :: "RunDeps \<Rightarrow> Identity option \<Rightarrow> (unit, string \<rightharpoonup> int) result \<Rightarrow> bool \<Rightarrow> bool \<Rightarrow> StatusReq \<Rightarrow> RevChecker
  \<Rightarrow> (rpc_error, unit) result \<times> AuditEvent list \<times> RevChecker" where
  "SetAgentStatus d ident blocks fault refetch req rc =
     (case status_change d ident True blocks req of
        Inl e \<Rightarrow> (Inl e, [], rc)
      | Inr (tenant, admin, a, event, reason) \<Rightarrow>
          if fault then (Inl (Status Internal ''set agent status''), [], rc)
          else (case Checker_SetAgentStatus tenant (ag_ID a) (ag_Status a) (sq_Status req) rc of
                  (False, rc') \<Rightarrow> (Inl (Status Aborted ''agent status changed meanwhile; reload and retry''), [], rc')
                | (True, rc') \<Rightarrow> (if refetch then Inr () else Inl (Status Internal ''re-fetch agent''), [status_event tenant admin event (ag_ID a) reason], rc')))"

section \<open>The orphan sweep\<close>

definition orphan_since :: "AgentRow \<Rightarrow> string list \<Rightarrow> (string \<rightharpoonup> int) \<Rightarrow> int" where
  "orphan_since a owners blocks =
     (if owners = [] then ag_CreatedAt a
      else foldl (\<lambda>since o1. let at = (case blocks (TrimPrefix o1 ''user:'') of Some t \<Rightarrow> t | None \<Rightarrow> 0) in if since < at then at else since) 0 owners)"

definition day :: int where "day = 24 * 60 * 60 * 1000000000"

definition sweep_due :: "int \<Rightarrow> int \<Rightarrow> (string \<rightharpoonup> int) \<Rightarrow> AgentRow \<Rightarrow> tuple3 list \<Rightarrow> bool" where
  "sweep_due days now blocks a rels =
     (agentOrphaned (agentOwnerRefs rels) blocks \<and> now - orphan_since a (agentOwnerRefs rels) blocks \<ge> days * day)"

text \<open>The answer holds the number suspended and whether the sweep ran to its end; \<open>fault\<close> says which writes fail.\<close>

fun sweep_rows :: "RunPolicy \<Rightarrow> (string \<Rightarrow> bool) \<Rightarrow> int \<Rightarrow> int \<Rightarrow> (string \<rightharpoonup> int) \<Rightarrow> string \<Rightarrow> AgentRow list \<Rightarrow> nat \<Rightarrow> RevChecker
  \<Rightarrow> nat \<times> bool \<times> AuditEvent list \<times> RevChecker" where
  "sweep_rows p fault days now blocks tenant [] n rc = (n, True, [], rc)"
| "sweep_rows p fault days now blocks tenant (a # rows) n rc =
     (if ag_IsDefault a \<or> ag_Status a \<noteq> AgentActive then sweep_rows p fault days now blocks tenant rows n rc
      else (case rp_ReadObject p (''agent:'' @ ag_ID a) of
              Inl _ \<Rightarrow> (n, False, [], rc)
            | Inr rels \<Rightarrow>
                if \<not> sweep_due days now blocks a rels then sweep_rows p fault days now blocks tenant rows n rc
                else if fault (ag_ID a) then (n, False, [], rc)
                else (case Checker_SetAgentStatus tenant (ag_ID a) AgentActive AgentSuspended rc of
                        (False, rc') \<Rightarrow> sweep_rows p fault days now blocks tenant rows n rc'
                      | (True, rc') \<Rightarrow>
                          (case sweep_rows p fault days now blocks tenant rows (n + 1) rc' of
                             (m, ok, evs, rc'') \<Rightarrow>
                               (m, ok, status_event tenant ''system:orphan-sweep'' ''aikonos.broker.agent.suspended'' (ag_ID a)
                                         (''orphaned: no owner who is not blocked for '' @ Itoa days @ '' days'') # evs, rc'')))))"

definition SweepOrphanedAgents :: "RunDeps \<Rightarrow> (string \<Rightarrow> bool) \<Rightarrow> (unit, int) result \<Rightarrow> (unit, string \<rightharpoonup> int) result \<Rightarrow> string \<Rightarrow> int \<Rightarrow> RevChecker
  \<Rightarrow> nat \<times> bool \<times> AuditEvent list \<times> RevChecker" where
  "SweepOrphanedAgents d fault days blocks tenant now rc =
     (case (rd_Agents d, rd_Policy d) of
        (Some st, Some p) \<Rightarrow>
          if \<not> rp_Enabled p then (0, True, [], rc)
          else (case (days, as_List st tenant, blocks) of
                  (Inr n, Inr rows, Inr bs) \<Rightarrow> sweep_rows p fault n now bs tenant rows 0 rc
                | _ \<Rightarrow> (0, False, [], rc))
      | _ \<Rightarrow> (0, True, [], rc))"

section \<open>Who runs, and as what\<close>

lemma runnable_ok: "runnable d tenant a = RunOk b \<longleftrightarrow> a = b \<and> run_refusal d tenant (ag_ID a) = Inr []"
  by (auto simp: runnable_def split: sum.splits)

lemma runAgent_permitted:
  assumes "fst (runAgent d st tenant user agentID) = RunOk a"
  shows "\<exists>aid. (aid = ag_ID a \<or> as_UserDefault st tenant user = Inr aid \<and> as_Get st tenant aid = Inr a)
    \<and> mayOperateActor d user aid \<and> run_refusal d tenant aid = Inr []
    \<and> (agentID \<noteq> [] \<longrightarrow> as_Get st tenant agentID = Inr a \<and> aid = ag_ID a)"
proof (cases "agentID = []")
  case False
  then have "named_agent d st tenant user agentID = RunOk a" using assms by (simp add: runAgent_def)
  then show ?thesis
    by (auto simp: named_agent_def runnable_ok split: if_splits sum.splits)
next
  case True
  then obtain pref where pref: "as_UserDefault st tenant user = Inr pref" using assms by (auto simp: runAgent_def split: sum.splits)
  show ?thesis
  proof (cases "preferred_agent d st tenant user pref")
    case None
    then have "fst (tenant_default d st tenant user) = RunOk a" using assms True pref by (simp add: runAgent_def)
    then show ?thesis using True by (auto simp: tenant_default_def runnable_ok split: prod.splits sum.splits if_splits)
  next
    case (Some r)
    then have "r = RunOk a" using assms True pref by (simp add: runAgent_def)
    then show ?thesis using Some True pref by (auto simp: preferred_agent_def split: if_splits sum.splits)
  qed
qed

text \<open>
  Only a permitted, active agent is bound to a run: the agent that runAgent answers may be
  operated by the user, is not refused by its status, and is the named one when one was named.
\<close>

theorem runAgent_binds_permitted:
  assumes "fst (runAgent d st tenant user agentID) = RunOk a"
  shows "\<exists>aid. (aid = ag_ID a \<or> as_UserDefault st tenant user = Inr aid \<and> as_Get st tenant aid = Inr a)
    \<and> mayOperateActor d user aid \<and> run_refusal d tenant aid = Inr []
    \<and> (agentID \<noteq> [] \<longrightarrow> as_Get st tenant agentID = Inr a \<and> aid = ag_ID a)"
  using assms by (rule runAgent_permitted)

section \<open>The lifecycle\<close>

definition status_of :: "RevChecker \<Rightarrow> string \<Rightarrow> string \<Rightarrow> string option" where
  "status_of rc tenant aid = map_option fst (agents (rc_Store rc) (tenant, aid))"

lemma Checker_status:
  "status_of (snd (Checker_SetAgentStatus tenant aid from to rc)) t b
   = (if t = tenant \<and> b = aid \<and> status_of rc t b = Some from then Some to else status_of rc t b)"
  by (auto simp: status_of_def Checker_SetAgentStatus_def write_and_reset_def reset_def db_SetAgentStatus_def split: option.splits)

lemma Checker_status_fst: "fst (Checker_SetAgentStatus tenant aid from to rc) \<longleftrightarrow> status_of rc tenant aid = Some from"
  by (auto simp: status_of_def Checker_SetAgentStatus_def db_SetAgentStatus_def split: option.splits)

lemma status_change_ok:
  assumes "status_change d ident True blocks req = Inr (tenant, admin, a, event, reason)"
  shows "agentTransition (ag_Status a) (sq_Status req) = Some event"
    "sq_Status req = AgentActive \<Longrightarrow> ag_IsDefault a \<or> requireLiveOwner (rd_Policy d) blocks (ag_ID a) = Inr ()"
    "sq_Status req = AgentRetired \<Longrightarrow> \<not> ag_IsDefault a"
    "sq_Status req \<noteq> AgentActive \<Longrightarrow> reason \<noteq> []"
    "\<exists>st. rd_Agents d = Some st \<and> as_Get st tenant (sq_AgentId req) = Inr a"
  using assms unfolding status_change_def
  by (auto simp: bindE_eq_Inr Let_def split: option.splits if_splits sum.splits bool.splits)

lemma agentTransition_change: "agentTransition x y = Some e \<Longrightarrow> x \<noteq> y \<and> x \<noteq> AgentRetired"
  by (auto simp: agentTransition_def AgentStaged_def AgentActive_def AgentSuspended_def AgentRetired_def split: if_splits)

text \<open>A status only changes along the lifecycle, and never silently: whatever the table read said,
  when SetAgentStatus changes the stored status of an agent the move is one of the allowed ones,
  exactly that move is audited, a move away from active carries a reason, and an agent other than
  the tenant default becomes active only with an owner who can be shown and is not blocked.
\<close>

theorem status_changes_along_lifecycle:
  assumes "SetAgentStatus d ident blocks fault refetch req rc = (r, evs, rc')" "status_of rc' t b \<noteq> status_of rc t b"
  shows "\<exists>x y event admin st a reason. status_of rc t b = Some x \<and> status_of rc' t b = Some y \<and> agentTransition x y = Some event
    \<and> evs = [status_event t admin event b reason] \<and> y = sq_Status req \<and> (y \<noteq> AgentActive \<longrightarrow> reason \<noteq> [])
    \<and> rd_Agents d = Some st \<and> as_Get st t (sq_AgentId req) = Inr a \<and> ag_ID a = b \<and> (y = AgentActive \<longrightarrow> ag_IsDefault a \<or> requireLiveOwner (rd_Policy d) blocks b = Inr ())"
proof -
  obtain tenant admin a event reason where c: "status_change d ident True blocks req = Inr (tenant, admin, a, event, reason)" "\<not> fault"
    using assms by (auto simp: SetAgentStatus_def split: sum.splits if_splits)
  obtain ok rc1 where k: "Checker_SetAgentStatus tenant (ag_ID a) (ag_Status a) (sq_Status req) rc = (ok, rc1)" by fastforce
  have rc1: "rc1 = rc'" using assms(1) c k by (auto simp: SetAgentStatus_def split: bool.splits if_splits)
  have st: "status_of rc' t b = (if t = tenant \<and> b = ag_ID a \<and> status_of rc t b = Some (ag_Status a) then Some (sq_Status req) else status_of rc t b)"
    using Checker_status [of tenant "ag_ID a" "ag_Status a" "sq_Status req" rc t b] k rc1 by simp
  then have tb: "t = tenant" "b = ag_ID a" "status_of rc t b = Some (ag_Status a)" using assms(2) by (auto split: if_splits)
  then have "ok" using Checker_status_fst [of tenant "ag_ID a" "ag_Status a" "sq_Status req" rc] k by simp
  then have "evs = [status_event tenant admin event (ag_ID a) reason]" using assms(1) c k by (auto simp: SetAgentStatus_def)
  moreover obtain ast where "rd_Agents d = Some ast" "as_Get ast tenant (sq_AgentId req) = Inr a" using status_change_ok(5) [OF c(1)] by blast
  ultimately show ?thesis using st tb status_change_ok(1-4) [OF c(1)]
    by (intro exI [of _ "ag_Status a"] exI [of _ "sq_Status req"] exI [of _ event] exI [of _ admin] exI [of _ ast] exI [of _ a] exI [of _ reason]) simp
qed

lemma sweep_rows_cases:
  assumes "sweep_rows p fault days now blocks tenant (a # rows) n rc = (m, ok, evs, rc')"
  obtains (skip) "sweep_rows p fault days now blocks tenant rows n rc = (m, ok, evs, rc')"
  | (stop) "m = n" "evs = []" "rc' = rc"
  | (lost) rc1 where "Checker_SetAgentStatus tenant (ag_ID a) AgentActive AgentSuspended rc = (False, rc1)"
      "sweep_rows p fault days now blocks tenant rows n rc1 = (m, ok, evs, rc')"
  | (won) rc1 ev evs1 rels where "Checker_SetAgentStatus tenant (ag_ID a) AgentActive AgentSuspended rc = (True, rc1)"
      "sweep_rows p fault days now blocks tenant rows (n + 1) rc1 = (m, ok, evs1, rc')" "evs = ev # evs1"
      "\<not> ag_IsDefault a" "ag_Status a = AgentActive" "rp_ReadObject p (''agent:'' @ ag_ID a) = Inr rels" "sweep_due days now blocks a rels"
  using assms by (auto split: if_splits sum.splits prod.splits bool.splits)

definition suspended_orphan :: "RunPolicy \<Rightarrow> int \<Rightarrow> int \<Rightarrow> (string \<rightharpoonup> int) \<Rightarrow> AgentRow list \<Rightarrow> string \<Rightarrow> bool" where
  "suspended_orphan p days now blocks rows b \<longleftrightarrow>
     (\<exists>a\<in>set rows. ag_ID a = b \<and> \<not> ag_IsDefault a \<and> ag_Status a = AgentActive
        \<and> (\<exists>rels. rp_ReadObject p (''agent:'' @ b) = Inr rels \<and> sweep_due days now blocks a rels))"

lemma sweep_rows_spec:
  assumes "sweep_rows p fault days now blocks tenant rows n rc = (m, ok, evs, rc')"
  shows "m = n + length evs \<and> (status_of rc' t b \<noteq> status_of rc t b \<longrightarrow>
    status_of rc t b = Some AgentActive \<and> status_of rc' t b = Some AgentSuspended \<and> t = tenant
    \<and> suspended_orphan p days now blocks rows b)"
  using assms
proof (induction rows arbitrary: n rc m evs)
  case (Cons a rows)
  have more: "suspended_orphan p days now blocks rows b \<Longrightarrow> suspended_orphan p days now blocks (a # rows) b"
    by (auto simp: suspended_orphan_def)
  have ne: "AgentSuspended \<noteq> AgentActive" by (simp add: AgentSuspended_def AgentActive_def)
  from Cons.prems show ?case
  proof (cases rule: sweep_rows_cases)
    case skip then show ?thesis using Cons.IH more by blast
  next
    case stop then show ?thesis by simp
  next
    case (lost rc1)
    then have "status_of rc1 t b = status_of rc t b"
      using Checker_status [of tenant "ag_ID a" AgentActive AgentSuspended rc t b] Checker_status_fst [of tenant "ag_ID a" AgentActive AgentSuspended rc] by auto
    then show ?thesis using Cons.IH [OF lost(2)] more by simp
  next
    case (won rc1 ev evs1 rels)
    have st: "status_of rc1 t b = (if t = tenant \<and> b = ag_ID a \<and> status_of rc t b = Some AgentActive then Some AgentSuspended else status_of rc t b)"
      using Checker_status [of tenant "ag_ID a" AgentActive AgentSuspended rc t b] won(1) by simp
    have here: "b = ag_ID a \<Longrightarrow> suspended_orphan p days now blocks (a # rows) b" using won by (auto simp: suspended_orphan_def)
    note ih = Cons.IH [OF won(2), THEN conjunct2]
    show ?thesis
    proof (intro conjI impI)
      show "m = n + length evs" using Cons.IH [OF won(2)] won(3) by simp
    next
      assume ch: "status_of rc' t b \<noteq> status_of rc t b"
      have "status_of rc t b = Some AgentActive \<and> status_of rc' t b = Some AgentSuspended \<and> t = tenant \<and> suspended_orphan p days now blocks (a # rows) b"
      proof (cases "status_of rc1 t b = status_of rc t b")
        case True
        then show ?thesis using ih ch more by metis
      next
        case False
        then have h: "t = tenant" "b = ag_ID a" "status_of rc t b = Some AgentActive" "status_of rc1 t b = Some AgentSuspended" using st by metis+
        moreover have "status_of rc' t b = status_of rc1 t b" using ih h(4) ne by (metis option.inject)
        ultimately show ?thesis using here by metis
      qed
      then show "status_of rc t b = Some AgentActive" "status_of rc' t b = Some AgentSuspended" "t = tenant" "suspended_orphan p days now blocks (a # rows) b" by blast+
    qed
  qed
qed simp

section \<open>Retired is final\<close>

text \<open>Every handler that writes an agent's status, and the other writers of the revocation store.\<close>

inductive status_step :: "RevChecker \<Rightarrow> RevChecker \<Rightarrow> bool" where
  set_status: "SetAgentStatus d ident blocks fault refetch req rc = (r, evs, rc') \<Longrightarrow> status_step rc rc'"
| sweep: "SweepOrphanedAgents d wfault days bs tenant now rc = (n, ok, evs, rc') \<Longrightarrow> status_step rc rc'"
| block: "status_step rc (snd (BlockUser tenant subject reason who rc))"
| unblock: "status_step rc (snd (UnblockUser tenant subject rc))"
| revoke_user: "status_step rc (snd (RevokeUser now tenant subject rc))"
| revoke_agent: "status_step rc (snd (RevokeAgent now tenant aid rc))"

lemma SetAgentStatus_retired:
  assumes "SetAgentStatus d ident blocks fault refetch req rc = (r, evs, rc')" "status_of rc t b = Some AgentRetired"
  shows "status_of rc' t b = Some AgentRetired"
proof -
  show ?thesis
  proof (cases "status_change d ident True blocks req")
    case (Inl e) then show ?thesis using assms by (simp add: SetAgentStatus_def)
  next
    case (Inr x)
    obtain tenant admin a event reason where x: "x = (tenant, admin, a, event, reason)" by (metis prod_cases5)
    have "ag_Status a \<noteq> AgentRetired" using status_change_ok(1) [OF Inr [unfolded x]] agentTransition_change by blast
    then have "status_of (snd (Checker_SetAgentStatus tenant (ag_ID a) (ag_Status a) (sq_Status req) rc)) t b = status_of rc t b"
      using assms(2) by (auto simp: Checker_status)
    moreover have "rc' = rc \<or> rc' = snd (Checker_SetAgentStatus tenant (ag_ID a) (ag_Status a) (sq_Status req) rc)"
      using assms(1) Inr x by (auto simp: SetAgentStatus_def split: if_splits prod.splits bool.splits)
    ultimately show ?thesis using assms(2) by auto
  qed
qed

lemma SweepOrphanedAgents_cases:
  assumes "SweepOrphanedAgents d fault days bs tenant now rc = (n, ok, evs, rc')"
  shows "rc' = rc \<and> n = 0 \<and> evs = [] \<or> (\<exists>st p k rows blocks. rd_Agents d = Some st \<and> rd_Policy d = Some p \<and> rp_Enabled p \<and> days = Inr k
    \<and> as_List st tenant = Inr rows \<and> bs = Inr blocks \<and> sweep_rows p fault k now blocks tenant rows 0 rc = (n, ok, evs, rc'))"
  using assms by (auto simp: SweepOrphanedAgents_def split: option.splits if_splits sum.splits)

lemma status_step_retired:
  assumes "status_step rc rc'" "status_of rc t b = Some AgentRetired"
  shows "status_of rc' t b = Some AgentRetired"
  using assms
proof (induction rule: status_step.induct)
  case (set_status d ident blocks fault refetch req rc r evs rc')
  from set_status(1,2) show ?case by (rule SetAgentStatus_retired)
next
  case (sweep d wfault days bs tenant now rc n ok evs rc')
  have "AgentRetired \<noteq> AgentActive" by (simp add: AgentRetired_def AgentActive_def)
  then have na: "status_of rc t b \<noteq> Some AgentActive" using sweep(2) by simp
  from SweepOrphanedAgents_cases [OF sweep(1)] have "status_of rc' t b = status_of rc t b"
  proof (elim disjE exE conjE)
    fix st p k rows blocks assume "sweep_rows p wfault k now blocks tenant rows 0 rc = (n, ok, evs, rc')"
    from sweep_rows_spec [OF this, of t b] na show ?thesis by blast
  qed simp
  then show ?case using sweep(2) by simp
qed (auto simp: status_of_def BlockUser_def UnblockUser_def RevokeUser_def RevokeAgent_def write_and_reset_def reset_def
    db_BlockUser_def db_UnblockUser_def RevokeUserSessions_def RevokeAgentSessions_def split: option.splits)

text \<open>A retired agent never runs again: after any sequence of status changes, sweeps, blocks and
  revocations by anyone, with any stale reads, its status is still retired, and every run that
  would bind it is refused as long as the run reads the stored status.
\<close>

theorem retired_never_runs:
  assumes "status_step\<^sup>*\<^sup>* rc rc'" "status_of rc tenant aid = Some AgentRetired" "rd_RevAgent d tenant aid = Inr (load (rc_Store rc') (KAgent tenant aid))"
    and "\<And>pref row. as_UserDefault st tenant user = Inr pref \<Longrightarrow> as_Get st tenant pref = Inr row \<Longrightarrow> ag_ID row = pref"
  shows "status_of rc' tenant aid = Some AgentRetired \<and> (fst (runAgent d st tenant user agentID) = RunOk a \<longrightarrow> ag_ID a \<noteq> aid)"
proof -
  have r: "status_of rc' tenant aid = Some AgentRetired" using assms(1,2) by (induction rule: rtranclp_induct) (auto intro: status_step_retired)
  then have "run_refusal d tenant aid \<noteq> Inr []"
    using assms(3) by (auto simp: run_refusal_def AgentRefusal_def status_of_def AgentState_def AgentRetired_def AgentActive_def split: prod.splits)
  then show ?thesis using r runAgent_permitted [of d st tenant user agentID a] assms(4) by blast
qed


section \<open>An example tenant\<close>

definition ex_row :: "string \<Rightarrow> AgentRow" where
  "ex_row status = \<lparr>ag_Name = ''helper'', ag_Skills = [], ag_McpServers = [], ag_McpTools = [], ag_ServiceAgent = False, ag_IsDefault = False,
     ag_ID = ''a1'', ag_Status = status, ag_CreatedAt = 0\<rparr>"

definition ex_store :: "string \<Rightarrow> AgentStore" where
  "ex_store status = \<lparr>as_Get = (\<lambda>t i. if i = ''a1'' then Inr (ex_row status) else Inl True), as_UserDefault = (\<lambda>t u. Inr ''a1''),
     as_EnsureDefault = (\<lambda>t. Inl ()), as_List = (\<lambda>t. Inr [ex_row status])\<rparr>"

definition ex_run_deps :: "string \<Rightarrow> RunDeps" where
  "ex_run_deps status = \<lparr>rd_TenantID = ''t'', rd_UUID = (\<lambda>s. Some s), rd_Agents = Some (ex_store status),
     rd_Policy = Some \<lparr>rp_Enabled = True, rp_Check = (\<lambda>u r ob. Inr True), rp_ReadRelation = (\<lambda>r ob. Inr []),
       rp_ReadObject = (\<lambda>ob. Inr [(''user:eve'', ''owner_user'', ob)]), rp_WriteOk = True\<rparr>,
     rd_RevAgent = (\<lambda>t a. Inr \<lparr>Blocked = False, NotBefore = None, AgentStatus = status\<rparr>)\<rparr>"

definition ex_checker :: "string \<Rightarrow> RevChecker" where
  "ex_checker status = \<lparr>rc_Store = \<lparr>tenant_block = (\<lambda>_. False), user_blocks = Map.empty, user_directory = Map.empty,
     agents = [(''t'', ''a1'') \<mapsto> (status, None)]\<rparr>, rc_cache = Map.empty, gen = 0\<rparr>"

definition ex_status_req :: StatusReq where
  "ex_status_req = \<lparr>sq_TenantId = ''t'', sq_UserId = ''eve'', sq_AgentId = ''a1'', sq_Status = ''retired'', sq_Reason = ''done''\<rparr>"

definition ex_retire :: "(rpc_error, unit) result \<times> AuditEvent list \<times> RevChecker" where
  "ex_retire = SetAgentStatus (ex_run_deps ''active'') None (Inr Map.empty) False True ex_status_req (ex_checker ''active'')"

theorem status_changes_along_lifecycle_witness:
  "status_of (ex_checker ''active'') ''t'' ''a1'' = Some ''active'' \<and> status_of (snd (snd ex_retire)) ''t'' ''a1'' = Some ''retired''
   \<and> (\<exists>admin event reason. agentTransition ''active'' ''retired'' = Some event \<and> fst (snd ex_retire) = [status_event ''t'' admin event ''a1'' reason] \<and> reason \<noteq> [])"
proof -
  have v: "status_of (ex_checker ''active'') ''t'' ''a1'' = Some ''active''" "status_of (snd (snd ex_retire)) ''t'' ''a1'' = Some ''retired''" by code_simp+
  have "SetAgentStatus (ex_run_deps ''active'') None (Inr Map.empty) False True ex_status_req (ex_checker ''active'')
    = (fst ex_retire, fst (snd ex_retire), snd (snd ex_retire))" by (simp add: ex_retire_def)
  from status_changes_along_lifecycle [OF this, of "''t''" "''a1''"] v show ?thesis by (auto simp: AgentActive_def)
qed

theorem retired_never_runs_witness:
  "status_of (snd (snd ex_retire)) ''t'' ''a1'' = Some AgentRetired
   \<and> (\<nexists>a. fst (runAgent (ex_run_deps ''retired'') (ex_store ''retired'') ''t'' ''eve'' ''a1'') = RunOk a \<and> ag_ID a = ''a1'')"
proof -
  let ?rc = "snd (snd ex_retire)"
  have v: "status_of ?rc ''t'' ''a1'' = Some AgentRetired" "AgentState (rc_Store ?rc) ''t'' ''a1'' = (''retired'', None)" by code_simp+
  have ld: "rd_RevAgent (ex_run_deps ''retired'') ''t'' ''a1'' = Inr (load (rc_Store ?rc) (KAgent ''t'' ''a1''))"
    using v(2) by (simp add: ex_run_deps_def)
  have "ag_ID row = pref" if "as_UserDefault (ex_store ''retired'') ''t'' ''eve'' = Inr pref" "as_Get (ex_store ''retired'') ''t'' pref = Inr row" for pref row
    using that by (auto simp: ex_store_def ex_row_def)
  then show ?thesis using retired_never_runs [OF rtranclp.rtrancl_refl v(1) ld, of "ex_store ''retired''" "''eve''" "''a1''"] by blast
qed

end
