(* ===== verification/GatewayGrant.thy ===== *)
theory GatewayGrant
  imports Base64
begin

text \<open>
  broker/internal/gatewaygrant/gatewaygrant.go: the signed owner grant the broker mints
  and the gateway presents, in the unpadded URL-safe base64 of theory \<open>Base64\<close>.  The keyed
  hash is an argument \<open>mac\<close>, about which nothing is assumed.  Times are nanoseconds.
\<close>

section \<open>Grants\<close>

datatype grant_error = ErrMalformed | ErrBadMAC | ErrExpired

datatype mint_error = EmptyKey | FieldContainsDelimiter

definition KindInteractive :: string where "KindInteractive = ''interactive''"
definition KindScheduled :: string where "KindScheduled = ''scheduled''"
definition KindExternal :: string where "KindExternal = ''external''"
definition KindWorkflow :: string where "KindWorkflow = ''workflow''"
definition KindLegacy :: string where "KindLegacy = ''legacy''"
definition KindDelegated :: string where "KindDelegated = ''delegated''"

text \<open>Expiry and issue time are Unix seconds; \<open>None\<close> is the zero time.\<close>

record Grant =
  g_TenantID :: string
  g_Subject :: string
  g_Actor :: string
  g_Kind :: string
  g_GrantID :: string
  g_Expires :: "int option"
  g_IssuedAt :: "int option"

definition Owner :: "Grant \<Rightarrow> string" where
  "Owner g = (if g_Subject g = [] \<and> g_Actor g \<noteq> [] then ''svc-'' @ g_Actor g else g_Subject g)"

type_synonym mac = "string \<Rightarrow> string \<Rightarrow> string"

definition Unix :: "int \<Rightarrow> int" where
  "Unix t = t div 1000000000"

definition grant_payload :: "Grant \<Rightarrow> int \<Rightarrow> int \<Rightarrow> string" where
  "grant_payload g iat expiry =
     Join [''v3'', g_TenantID g, g_Subject g, g_Actor g, g_Kind g, g_GrantID g, Itoa iat, Itoa expiry] ''|''"

definition Mint :: "mac \<Rightarrow> int \<Rightarrow> string \<Rightarrow> Grant \<Rightarrow> int \<Rightarrow> (mint_error, string) result" where
  "Mint mac now key g ttl =
     (if key = [] then Inl EmptyKey
      else if list_ex (\<lambda>f. CHR ''|'' \<in> set f) [g_TenantID g, g_Subject g, g_Actor g, g_Kind g, g_GrantID g]
      then Inl FieldContainsDelimiter
      else let payload = grant_payload g (Unix now) (Unix (now + ttl))
           in Inr (b64_encode payload @ ''.'' @ b64_encode (mac key payload)))"

definition parse_grant :: "bool \<Rightarrow> string list \<Rightarrow> Grant option" where
  "parse_grant acceptV1 parts =
     (if length parts = 8 \<and> parts ! 0 = ''v3'' then
        (case Atoi (parts ! 6) of
           None \<Rightarrow> None
         | Some iat \<Rightarrow> Some \<lparr>g_TenantID = parts ! 1, g_Subject = parts ! 2, g_Actor = parts ! 3, g_Kind = parts ! 4,
                             g_GrantID = parts ! 5, g_Expires = None, g_IssuedAt = Some iat\<rparr>)
      else if length parts = 7 \<and> parts ! 0 = ''v2'' then
        Some \<lparr>g_TenantID = parts ! 1, g_Subject = parts ! 2, g_Actor = parts ! 3, g_Kind = parts ! 4,
              g_GrantID = parts ! 5, g_Expires = None, g_IssuedAt = None\<rparr>
      else if length parts = 4 \<and> parts ! 0 = ''v1'' \<and> acceptV1 then
        Some \<lparr>g_TenantID = parts ! 1, g_Subject = parts ! 2, g_Actor = [], g_Kind = KindLegacy,
              g_GrantID = [], g_Expires = None, g_IssuedAt = None\<rparr>
      else None)"

definition Verify :: "mac \<Rightarrow> int \<Rightarrow> string \<Rightarrow> string \<Rightarrow> bool \<Rightarrow> (grant_error, Grant) result" where
  "Verify mac now key token acceptV1 =
     (case IndexByte token (CHR ''.'') of
        None \<Rightarrow> Inl ErrMalformed
      | Some dot \<Rightarrow>
          (case b64_decode (take dot token) of
             None \<Rightarrow> Inl ErrMalformed
           | Some payload \<Rightarrow>
               (case b64_decode (drop (dot + 1) token) of
                  None \<Rightarrow> Inl ErrMalformed
                | Some macBytes \<Rightarrow>
                    if mac key payload \<noteq> macBytes then Inl ErrBadMAC
                    else
                      (let parts = Split payload (CHR ''|'') in
                       case parse_grant acceptV1 parts of
                         None \<Rightarrow> Inl ErrMalformed
                       | Some g \<Rightarrow>
                           (case Atoi (parts ! (length parts - 1)) of
                              None \<Rightarrow> Inl ErrMalformed
                            | Some expiresUnix \<Rightarrow>
                                if expiresUnix \<le> Unix now then Inl ErrExpired
                                else Inr (g\<lparr>g_Expires := Some expiresUnix\<rparr>))))))"

section \<open>Lemmas\<close>

definition grant_fields :: "Grant \<Rightarrow> string list" where
  "grant_fields g = [g_TenantID g, g_Subject g, g_Actor g, g_Kind g, g_GrantID g]"

lemma Itoa_no_bar: "CHR ''|'' \<notin> set (Itoa i)"
  using set_Itoa [of "CHR ''|''" i] by (auto simp: is_digit_def byte_of_def)

lemma Split_payload:
  assumes "\<forall>f \<in> set (grant_fields g). CHR ''|'' \<notin> set f"
  shows "Split (grant_payload g i e) (CHR ''|'')
    = [''v3'', g_TenantID g, g_Subject g, g_Actor g, g_Kind g, g_GrantID g, Itoa i, Itoa e]"
  unfolding grant_payload_def
  using assms Itoa_no_bar by (intro Split_Join) (auto simp: grant_fields_def)

definition int64 :: "int \<Rightarrow> bool" where
  "int64 i = (- (2 ^ 63) \<le> i \<and> i < 2 ^ 63)"

lemma Verify_payload:
  assumes "\<forall>f \<in> set (grant_fields g). CHR ''|'' \<notin> set f" "int64 i" "int64 e"
    and "IndexByte token (CHR ''.'') = Some dot" "b64_decode (take dot token) = Some (grant_payload g i e)"
    and "b64_decode (drop (dot + 1) token) = Some m"
  shows "Verify mac now key token v1 =
    (if mac key (grant_payload g i e) \<noteq> m then Inl ErrBadMAC
     else if e \<le> Unix now then Inl ErrExpired else Inr (g\<lparr>g_Expires := Some e, g_IssuedAt := Some i\<rparr>))"
  using assms
  by (simp add: Verify_def Split_payload parse_grant_def Let_def Atoi_Itoa int64_def)

lemma Mint_token:
  assumes "Mint mac now key g ttl = Inr token"
  shows "token = b64_encode (grant_payload g (Unix now) (Unix (now + ttl))) @ ''.'' @
      b64_encode (mac key (grant_payload g (Unix now) (Unix (now + ttl))))"
    and "\<forall>f \<in> set (grant_fields g). CHR ''|'' \<notin> set f"
  using assms by (auto simp: Mint_def Let_def grant_fields_def split: if_splits)

lemma Mint_Verify:
  assumes "Mint mac now key g ttl = Inr token" "int64 (Unix now)" "int64 (Unix (now + ttl))"
  shows "Verify mac later key token v1 =
    (if Unix (now + ttl) \<le> Unix later then Inl ErrExpired
     else Inr (g\<lparr>g_Expires := Some (Unix (now + ttl)), g_IssuedAt := Some (Unix now)\<rparr>))"
proof -
  let ?p = "grant_payload g (Unix now) (Unix (now + ttl))"
  note t = Mint_token [OF assms(1)]
  have dot: "IndexByte token (CHR ''.'') = Some (length (b64_encode ?p))"
    using t(1) IndexByte_append [OF b64_no_dot] by simp
  have parts: "b64_decode (take (length (b64_encode ?p)) token) = Some ?p"
    "b64_decode (drop (length (b64_encode ?p) + 1) token) = Some (mac key ?p)"
    using t(1) by (simp_all add: b64_roundtrip)
  show ?thesis using Verify_payload [OF t(2) assms(2,3) dot parts, of mac later key v1] by simp
qed

section \<open>Properties\<close>

text \<open>Minting and verifying are inverse: a token minted for a grant verifies, until
  its expiry, to exactly that grant with its issue and expiry times; from the expiry second
  on it is refused as expired.\<close>

theorem mint_verify_roundtrip:
  assumes "Mint mac now key g ttl = Inr token" "int64 (Unix now)" "int64 (Unix (now + ttl))"
  shows "Verify mac later key token v1 =
    (if Unix (now + ttl) \<le> Unix later then Inl ErrExpired
     else Inr (g\<lparr>g_Expires := Some (Unix (now + ttl)), g_IssuedAt := Some (Unix now)\<rparr>))"
  by (rule Mint_Verify [OF assms])

definition example_grant :: Grant where
  "example_grant = \<lparr>g_TenantID = ''acme'', g_Subject = ''bob'', g_Actor = ''a1'', g_Kind = ''interactive'', g_GrantID = [],
     g_Expires = None, g_IssuedAt = None\<rparr>"

theorem mint_verify_roundtrip_witness:
  "\<exists>token. Mint (\<lambda>k p. k @ take 3 p) 0 ''key'' example_grant 3600000000000 = Inr token
     \<and> Verify (\<lambda>k p. k @ take 3 p) 1000000000 ''key'' token False
         = Inr (example_grant\<lparr>g_Expires := Some 3600, g_IssuedAt := Some 0\<rparr>)"
proof -
  have "\<exists>token. Mint (\<lambda>k p. k @ take 3 p) 0 ''key'' example_grant 3600000000000 = Inr token"
    by (simp add: Mint_def example_grant_def Let_def)
  then obtain token where t: "Mint (\<lambda>k p. k @ take 3 p) 0 ''key'' example_grant 3600000000000 = Inr token" by blast
  have "int64 (Unix 0)" "int64 (Unix (0 + 3600000000000))" by (simp_all add: int64_def Unix_def)
  from mint_verify_roundtrip [OF t this, of 1000000000 False] t show ?thesis by (simp add: Unix_def)
qed

text \<open>No grant is accepted that the key did not sign, and signed bytes mean one grant:
  an accepted token carries the keyed hash of its payload, and when that payload is one the
  broker minted for a grant, the accepted grant is that grant, however the token was
  re-encoded and whichever older versions are admitted.\<close>

theorem verify_accepts_only_signed:
  assumes "Verify mac now key token v1 = Inr g'"
  shows "\<exists>payload dot. IndexByte token (CHR ''.'') = Some dot
    \<and> b64_decode (take dot token) = Some payload
    \<and> b64_decode (drop (dot + 1) token) = Some (mac key payload)
    \<and> (\<forall>g i e. payload = grant_payload g i e \<and> (\<forall>f \<in> set (grant_fields g). CHR ''|'' \<notin> set f) \<and> int64 i \<and> int64 e
         \<longrightarrow> g' = g\<lparr>g_Expires := Some e, g_IssuedAt := Some i\<rparr> \<and> Unix now < e)"
proof -
  from assms obtain dot payload m where d: "IndexByte token (CHR ''.'') = Some dot"
    "b64_decode (take dot token) = Some payload" "b64_decode (drop (dot + 1) token) = Some m" "mac key payload = m"
    by (auto simp: Verify_def split: option.splits if_splits)
  have "g' = g\<lparr>g_Expires := Some e, g_IssuedAt := Some i\<rparr> \<and> Unix now < e"
    if "payload = grant_payload g i e" "\<forall>f \<in> set (grant_fields g). CHR ''|'' \<notin> set f" "int64 i" "int64 e" for g i e
    using Verify_payload [OF that(2-4) d(1) _ d(3), of mac now key v1] d(2,4) assms that(1)
    by (auto split: if_splits)
  then show ?thesis using d by blast
qed

theorem verify_accepts_only_signed_witness:
  "\<exists>token g' payload dot. Verify (\<lambda>k p. k @ take 3 p) 1000000000 ''key'' token False = Inr g'
     \<and> IndexByte token (CHR ''.'') = Some dot \<and> b64_decode (take dot token) = Some payload
     \<and> b64_decode (drop (dot + 1) token) = Some (''key'' @ take 3 payload)"
proof -
  have "\<exists>token. Mint (\<lambda>k p. k @ take 3 p) 0 ''key'' example_grant 3600000000000 = Inr token"
    by (simp add: Mint_def example_grant_def Let_def)
  then obtain token where t: "Mint (\<lambda>k p. k @ take 3 p) 0 ''key'' example_grant 3600000000000 = Inr token" by blast
  have "int64 (Unix 0)" "int64 (Unix (0 + 3600000000000))" by (simp_all add: int64_def Unix_def)
  from Mint_Verify [OF t this, of 1000000000 False]
  have "is_ok (Verify (\<lambda>k p. k @ take 3 p) 1000000000 ''key'' token False)" by (simp add: Unix_def)
  then obtain g' where "Verify (\<lambda>k p. k @ take 3 p) 1000000000 ''key'' token False = Inr g'" by (rule is_okE)
  with verify_accepts_only_signed [OF this] show ?thesis by blast
qed

end
