(* ===== verification/SubmitPlan.thy ===== *)
theory SubmitPlan
  imports Sandbox
begin

text \<open>
  broker/internal/broker/service_plan.go: SubmitPlan, which turns a proposed plan into stored
  steps, an outcome and, depending on the outcome, capability tokens, an approval gate or a
  denied task; and the whole-plan query of the policy engine (policy/engine.go DecidePlan).
  The handler returns its answer, the task store and the audit events.  Metrics, logs,
  notifications and the display-only parts of the decision records are left out.
\<close>

section \<open>The whole-plan query (policy/engine.go)\<close>

record StepInput =
  si_seq :: int
  si_tool_id :: string
  si_effect_class :: string
  si_estimated_cost :: int
  si_reads_sensitive :: bool
  si_justification :: string
  si_args :: "json option"

record PlanInput =
  pi_plan_id :: string
  pi_steps :: "StepInput list"
  pi_has_dlp_attestation :: bool
  pi_cost_budget :: int
  pi_effect_class_ceiling :: string
  pi_is_control_plane :: bool
  pi_spiffe_id :: string

definition buildPlanInput :: "(effect_class \<Rightarrow> string) \<Rightarrow> PlanMsg \<Rightarrow> int \<Rightarrow> string \<Rightarrow> PlanInput" where
  "buildPlanInput enum_string plan costBudget spiffeID =
     \<lparr>pi_plan_id = pl_PlanId plan,
      pi_steps = map (\<lambda>s. \<lparr>si_seq = st_Seq s, si_tool_id = st_ToolId s, si_effect_class = effectClassString enum_string (st_EffectClass s),
         si_estimated_cost = st_EstimatedCost s, si_reads_sensitive = st_ReadsSensitive s,
         si_justification = st_Justification s, si_args = st_Args s\<rparr>) (pl_Steps plan),
      pi_has_dlp_attestation = False, pi_cost_budget = costBudget,
      pi_effect_class_ceiling = effectClassString enum_string (pl_EffectClassCeiling plan),
      pi_is_control_plane = False, pi_spiffe_id = spiffeID\<rparr>"

text \<open>An undefined document leaves the zero value: not allowed, no violations.\<close>

definition DecidePlan ::
  "(effect_class \<Rightarrow> string) \<Rightarrow> (PlanInput \<Rightarrow> PlanDecision opa_response) \<Rightarrow> string \<Rightarrow> PlanMsg \<Rightarrow> int \<Rightarrow> string \<Rightarrow> (policy_error, PlanDecision) result" where
  "DecidePlan enum_string opa bundle plan costBudget spiffeID =
     (case fst (queryOPA bundle (opa (buildPlanInput enum_string plan costBudget spiffeID))) of
        Inl e \<Rightarrow> Inl e
      | Inr None \<Rightarrow> Inr \<lparr>pd_Allow = False, pd_Violations = []\<rparr>
      | Inr (Some res) \<Rightarrow> Inr res)"

section \<open>Messages\<close>

record SubmitReq =
  sr_TaskId :: string
  sr_SandboxSpiffeId :: string
  sr_Plan :: "PlanMsg option"

record StepDecision =
  sd_Seq :: int
  sd_Approved :: bool
  sd_DenyReason :: string
  sd_PolicyRuleId :: string

record PlanValidationResult =
  vr_PlanId :: string
  vr_Outcome :: ValidationOutcome
  vr_StepDecisions :: "StepDecision list"
  vr_Violations :: "string list"
  vr_CapabilityTokenIds :: "int \<rightharpoonup> string"
  vr_ArgsDigest :: string

record SubmitFaults =
  sf_get :: bool
  sf_planning :: bool
  sf_validating :: bool
  sf_insert :: bool
  sf_deny :: bool
  sf_create :: bool
  sf_list :: bool

definition maxPlanSteps :: nat where
  "maxPlanSteps = 256"

section \<open>Audit events\<close>

definition plan_event :: "string \<Rightarrow> Task \<Rightarrow> AuditPolicyDecision \<Rightarrow> string \<Rightarrow> AuditEvent" where
  "plan_event taskID task dec reason =
     \<lparr>ev_Type = ''aikonos.broker.plan.validated'', ev_TenantID = TenantID task, ev_ActorUserID = OwnerUserID task,
      ev_ResourceRef = ''aikonos:task:'' @ taskID, ev_Decision = dec, ev_Reason = reason\<rparr>"

definition decision_event :: "string \<Rightarrow> Task \<Rightarrow> AuditPolicyDecision \<Rightarrow> string \<Rightarrow> AuditEvent" where
  "decision_event resource task dec decidedBy =
     \<lparr>ev_Type = ''aikonos.broker.policy.decision'', ev_TenantID = TenantID task, ev_ActorUserID = OwnerUserID task,
      ev_ResourceRef = resource, ev_Decision = dec, ev_Reason = decidedBy\<rparr>"

definition network_event :: "Task \<Rightarrow> string \<Rightarrow> Action option \<Rightarrow> AuditEvent" where
  "network_event task host act =
     \<lparr>ev_Type = (if act = Some Ask then ''aikonos.network.fetch.ask'' else ''aikonos.network.fetch.denied''),
      ev_TenantID = TenantID task, ev_ActorUserID = OwnerUserID task, ev_ResourceRef = ''network_host:'' @ host,
      ev_Decision = (if act = Some Ask then APPROVAL_REQUIRED else DENY), ev_Reason = []\<rparr>"

section \<open>Before the task moves\<close>

definition plan_size_ok :: "string \<Rightarrow> Task \<Rightarrow> PlanMsg \<Rightarrow> unit check" where
  "plan_size_ok taskID task plan =
     (if length (pl_Steps plan) > maxPlanSteps
      then refuse InvalidArgument ''plan has too many steps'' [plan_event taskID task DENY ''too_many_steps'']
      else if list_ex (\<lambda>s. st_EstimatedCost s < 0) (pl_Steps plan)
      then refuse InvalidArgument ''step has a negative estimated cost'' [plan_event taskID task DENY ''negative_estimated_cost'']
      else pass ())"

definition agent_may_plan :: "Deps \<Rightarrow> string \<Rightarrow> Task \<Rightarrow> unit check" where
  "agent_may_plan d taskID task =
     (case AgentID task of
        None \<Rightarrow> pass ()
      | Some aid \<Rightarrow>
          (case agentRunRefusal d (TenantID task) aid of
             Inl _ \<Rightarrow> refuse Unavailable ''access state could not be read; retry'' []
           | Inr r \<Rightarrow> if r = [] then pass () else (Inl (agentRefusedErr r), [plan_event taskID task DENY r])))"

definition submit_task :: "Deps \<Rightarrow> Identity option \<Rightarrow> bool \<Rightarrow> string \<Rightarrow> string \<Rightarrow> Db \<Rightarrow> Task check" where
  "submit_task d ident fail reqTenant taskID db =
     (case southTask fail ident (dp_TenantID d) reqTenant taskID db of
        Inl (SouthStatus e) \<Rightarrow> (Inl e, [])
      | Inl (SouthDb ErrNotFound) \<Rightarrow> refuse NotFound ''task not found'' []
      | Inl (SouthDb _) \<Rightarrow> refuse Internal ''failed to load task'' []
      | Inr (task, _) \<Rightarrow> pass task)"

definition submit_prechecks :: "Deps \<Rightarrow> Identity option \<Rightarrow> bool \<Rightarrow> SubmitReq \<Rightarrow> Db \<Rightarrow> (PlanMsg \<times> Task \<times> string) check" where
  "submit_prechecks d ident fail req db =
     andThen (case requireGatewayPeer (dp_GatewaySpiffeID d) (dp_DevMode d) ident of Inl e \<Rightarrow> (Inl e, []) | Inr u \<Rightarrow> pass u) (\<lambda>_.
     andThen (case sr_Plan req of None \<Rightarrow> refuse InvalidArgument ''plan is required'' [] | Some plan \<Rightarrow> pass plan) (\<lambda>plan.
     andThen (case southPeer (dp_DevMode d) ident (sr_SandboxSpiffeId req) of Inl e \<Rightarrow> (Inl e, []) | Inr peer \<Rightarrow> pass peer) (\<lambda>peer.
     andThen (submit_task d ident fail (pl_TenantId plan) (sr_TaskId req) db) (\<lambda>task.
     andThen (plan_size_ok (sr_TaskId req) task plan) (\<lambda>_.
     andThen (agent_may_plan d (sr_TaskId req) task) (\<lambda>_. pass (plan, task, peer)))))))"

section \<open>Moving the task\<close>

definition advanceToValidating :: "bool \<Rightarrow> bool \<Rightarrow> string \<Rightarrow> string \<Rightarrow> Task \<Rightarrow> Db \<Rightarrow> (db_error, unit) result \<times> Db" where
  "advanceToValidating f1 f2 tenant taskID t db =
     (if State t = TaskStateValidating then (Inr (), db)
      else if State t = TaskStateCreated then
        (case Transition f1 tenant taskID TaskStateCreated TaskStatePlanning db of
           Inl e \<Rightarrow> (Inl e, db)
         | Inr db1 \<Rightarrow>
             (case Transition f2 tenant taskID TaskStatePlanning TaskStateValidating db1 of
                Inl e \<Rightarrow> (Inl e, db1) | Inr db2 \<Rightarrow> (Inr (), db2)))
      else if State t = TaskStatePlanning then
        (case Transition f2 tenant taskID TaskStatePlanning TaskStateValidating db of
           Inl e \<Rightarrow> (Inl e, db) | Inr db2 \<Rightarrow> (Inr (), db2))
      else (Inl NotInState, db))"

definition denyTask :: "bool \<Rightarrow> string \<Rightarrow> string \<Rightarrow> Db \<Rightarrow> Db" where
  "denyTask fail tenant taskID db = or_same db (Transition fail tenant taskID TaskStateValidating TaskStateDenied db)"

section \<open>One step\<close>

definition route_class :: "Deps \<Rightarrow> string \<Rightarrow> PlanStep \<Rightarrow> effect_class" where
  "route_class d tenant step =
     (case EffectClassForTenant (dp_Registry d) tenant (st_ToolId step) of
        None \<Rightarrow> st_EffectClass step
      | Some auth \<Rightarrow> Stricter (st_EffectClass step) auth)"

definition step_fga :: "Deps \<Rightarrow> Task \<Rightarrow> bool \<Rightarrow> string \<Rightarrow> string \<Rightarrow> string \<times> AuditEvent list" where
  "step_fga d task agentBound exempt tool =
     (let isMcp = HasPrefix tool ''mcp:''; owner = OwnerUserID task; tenant = TenantID task in
      if \<not> agentBound \<and> \<not> isMcp then (userSkillDecision d owner tool, [])
      else if exempt \<noteq> [] then ([], [])
      else if isMcp then planUserBound d tenant task tool (userConnectorDecision d owner tool)
      else planUserBound d tenant task tool (userSkillDecision d owner tool))"

definition step_route_input :: "Deps \<Rightarrow> Task \<Rightarrow> string \<Rightarrow> PlanStep \<Rightarrow> string \<Rightarrow> routeStepInput" where
  "step_route_input d task spiffe step fgaDec =
     \<lparr>ri_Engine = dp_DecideToolCall d, ri_Reg = dp_Registry d, ri_Cfg = dp_Cfg d, ri_ACL = dp_ACL d,
      ri_TenantID = TenantID task, ri_UserID = OwnerUserID task, ri_ToolID = st_ToolId step,
      ri_EffectClass = route_class d (TenantID task) step, ri_ActorSpiffeID = spiffe, ri_FGADecision = fgaDec,
      ri_NetaclHost = (if dp_ACL d \<noteq> None \<and> st_ToolId step = ''web.fetch'' then webFetchHost d (st_Args step) else []),
      ri_OverlayGateEnabled = (dp_OverlayLoader d \<noteq> None), ri_SensitivityKnob = None\<rparr>"

definition policy_decision_of :: "stepCategory \<Rightarrow> PolicyDecision" where
  "policy_decision_of c =
     (case c of stepDeny \<Rightarrow> PolicyDeny | stepStepUp \<Rightarrow> PolicyNeedStepUp | stepApproval \<Rightarrow> PolicyNeedApproval | stepAllow \<Rightarrow> PolicyAllow)"

record StepOutcome =
  so_category :: stepCategory
  so_decision :: StepDecision
  so_record :: PlanStepRecord

definition step_record :: "Deps \<Rightarrow> Task \<Rightarrow> string \<Rightarrow> PlanStep \<Rightarrow> Decision \<Rightarrow> PlanStepRecord" where
  "step_record d task taskID step dec =
     \<lparr>ps_TaskID = taskID, ps_TenantID = TenantID task, ps_Seq = st_Seq step, ps_ToolID = st_ToolId step,
      ps_ArgsHash = argsHash (dp_Sha256 d) (st_Args step),
      ps_EffectClass = dp_EnumString d (route_class d (TenantID task) step), ps_Justification = st_Justification step,
      ps_EstimatedCost = st_EstimatedCost step, ps_PolicyDecision = policy_decision_of (classifyDecision dec),
      ps_PolicyRuleID = PolicyRuleID dec, ps_Args = st_Args step, ps_PolicyReason = Reason dec\<rparr>"

definition step_events :: "Deps \<Rightarrow> Identity option \<Rightarrow> Task \<Rightarrow> string \<Rightarrow> PlanStep \<Rightarrow> Decision \<Rightarrow> routeTrace \<Rightarrow> AuditEvent list" where
  "step_events d ident task taskID step dec tr =
     (if NetaclMutated tr then [network_event task (NetaclHost tr) (NetaclAction tr)] else [])
     @ (if DisabledToolsHit tr then [tool_denied d ident (Some task) (st_ToolId step) ''tool_disabled''] else [])
     @ (if OverlayDisableHit tr then [tool_denied d ident (Some task) (st_ToolId step) ''skill_disabled''] else [])
     @ [decision_event (''aikonos:task:'' @ taskID @ ''#'' @ Itoa (st_Seq step)) task
          (auditDecisionFor (classifyDecision dec)) (snd (routeLayers dec tr))]"

definition decide_step_of ::
  "Deps \<Rightarrow> Identity option \<Rightarrow> Task \<Rightarrow> string \<Rightarrow> string \<Rightarrow> bool \<Rightarrow> string \<Rightarrow> PlanStep \<Rightarrow> StepOutcome check" where
  "decide_step_of d ident task taskID spiffe agentBound exempt step =
     (let (fgaDec, evs) = step_fga d task agentBound exempt (st_ToolId step) in
      case routeStep (dp_EnumString d) (step_route_input d task spiffe step fgaDec) of
        Inl _ \<Rightarrow> refuse Internal ''policy evaluation failed'' evs
      | Inr (dec, tr) \<Rightarrow>
          (Inr \<lparr>so_category = classifyDecision dec,
                so_decision = \<lparr>sd_Seq = st_Seq step, sd_Approved = d_Allow dec, sd_DenyReason = Reason dec, sd_PolicyRuleId = PolicyRuleID dec\<rparr>,
                so_record = step_record d task taskID step dec\<rparr>,
           evs @ step_events d ident task taskID step dec tr))"

fun decide_steps ::
  "Deps \<Rightarrow> Identity option \<Rightarrow> Task \<Rightarrow> string \<Rightarrow> string \<Rightarrow> bool \<Rightarrow> string \<Rightarrow> PlanStep list \<Rightarrow> StepOutcome list check" where
  "decide_steps d ident task taskID spiffe agentBound exempt [] = pass []"
| "decide_steps d ident task taskID spiffe agentBound exempt (s # ss) =
     andThen (decide_step_of d ident task taskID spiffe agentBound exempt s) (\<lambda>o1.
     andThen (decide_steps d ident task taskID spiffe agentBound exempt ss) (\<lambda>os. pass (o1 # os)))"

definition plan_outcome :: "StepOutcome list \<Rightarrow> ValidationOutcome" where
  "plan_outcome os =
     (if list_ex (\<lambda>x. so_category x = stepDeny) os then ValidationOutcome_DENIED
      else if list_ex (\<lambda>x. so_category x = stepStepUp) os then ValidationOutcome_NEEDS_STEP_UP
      else if list_ex (\<lambda>x. so_category x = stepApproval) os then ValidationOutcome_NEEDS_HUMAN
      else ValidationOutcome_APPROVED)"

section \<open>Storing the plan\<close>

definition gate_input :: "Deps \<Rightarrow> Task \<Rightarrow> string \<Rightarrow> PlanMsg \<Rightarrow> ValidationOutcome \<Rightarrow> BuildInput" where
  "gate_input d task taskID plan outcome =
     \<lparr>bi_Policy = dp_Policy d, bi_Config = dp_CfgInt d, bi_TenantID = TenantID task, bi_TaskID = taskID,
      bi_OwnerUserID = OwnerUserID task, bi_FGATenant = fgaTenantObject d, bi_Outcome = outcome,
      bi_PlanID = pl_PlanId plan, bi_NSteps = length (pl_Steps plan)\<rparr>"

definition next_state :: "ValidationOutcome \<Rightarrow> TaskState option" where
  "next_state outcome =
     (case outcome of
        ValidationOutcome_APPROVED \<Rightarrow> Some TaskStateApproved
      | ValidationOutcome_NEEDS_HUMAN \<Rightarrow> Some TaskStateAwaitingApproval
      | ValidationOutcome_NEEDS_STEP_UP \<Rightarrow> Some TaskStateAwaitingApproval
      | ValidationOutcome_DENIED \<Rightarrow> None)"

text \<open>The gate of a plan that needs one; too few approvers turn the outcome into a denial.\<close>

definition plan_gate :: "Deps \<Rightarrow> Task \<Rightarrow> string \<Rightarrow> PlanMsg \<Rightarrow> ValidationOutcome \<Rightarrow> (ValidationOutcome \<times> Gate option \<times> string list) check" where
  "plan_gate d task taskID plan outcome =
     (if outcome \<noteq> ValidationOutcome_NEEDS_HUMAN \<and> outcome \<noteq> ValidationOutcome_NEEDS_STEP_UP then pass (outcome, None, [])
      else case Plan (gate_input d task taskID plan outcome) of
             (Inr g, evs) \<Rightarrow> (Inr (outcome, Some g, []), evs)
           | (Inl (InsufficientApproversError _ _), evs) \<Rightarrow>
               (Inr (ValidationOutcome_DENIED, None, [''this step needs more approvers other than you'']), evs)
           | (Inl (PlanStatus e), evs) \<Rightarrow> (Inl e, evs))"

definition plan_audit :: "ValidationOutcome \<Rightarrow> AuditPolicyDecision" where
  "plan_audit outcome =
     (case outcome of ValidationOutcome_DENIED \<Rightarrow> DENY | ValidationOutcome_APPROVED \<Rightarrow> ALLOW | _ \<Rightarrow> APPROVAL_REQUIRED)"

text \<open>
  The tokens, the gate with its digest, or the denied task, once the steps are stored.  A
  plan that needs approval always has a gate here (\<open>plan_gate\<close>); the code dereferences it.
\<close>

definition after_insert ::
  "Deps \<Rightarrow> SubmitFaults \<Rightarrow> int \<Rightarrow> string \<Rightarrow> Task \<Rightarrow> string \<Rightarrow> string \<Rightarrow> PlanMsg \<Rightarrow> ValidationOutcome \<Rightarrow> Gate option \<Rightarrow> Db \<Rightarrow>
   (rpc_error, (int \<rightharpoonup> string) \<times> string) result \<times> Db" where
  "after_insert d ft now newID task taskID spiffe plan outcome gate db =
     (case outcome of
        ValidationOutcome_DENIED \<Rightarrow> (Inr (Map.empty, []), denyTask (sf_deny ft) (TenantID task) taskID db)
      | ValidationOutcome_APPROVED \<Rightarrow>
          (case mintStepTokens d spiffe taskID (Task_OnBehalfOf task) (map (\<lambda>s. (st_Seq s, st_ToolId s)) (pl_Steps plan)) of
             Inl _ \<Rightarrow> (Inl (Status Internal ''failed to mint capability tokens''), db)
           | Inr toks \<Rightarrow> (Inr (toks, []), db))
      | _ \<Rightarrow>
          (case gate of
             None \<Rightarrow> (Inl (Status Internal ''failed to create approval request''), db)
           | Some g \<Rightarrow>
               (case create_gate (sf_create ft) now newID (gate_input d task taskID plan outcome) g db of
                  Inl e \<Rightarrow> (Inl e, db)
                | Inr db1 \<Rightarrow>
                    (case ListMintableSteps (sf_list ft) (TenantID task) taskID db1 of
                       Inl _ \<Rightarrow> (Inl (Status Internal ''failed to load plan steps''), db1)
                     | Inr rows \<Rightarrow> (Inr (Map.empty, ArgsDigest (dp_Sha256 d) (map PlanStepRecord.truncate rows)), db1)))))"

definition store_plan ::
  "Deps \<Rightarrow> SubmitFaults \<Rightarrow> int \<Rightarrow> string \<Rightarrow> Task \<Rightarrow> string \<Rightarrow> string \<Rightarrow> PlanMsg \<Rightarrow> string list \<Rightarrow> StepOutcome list \<Rightarrow>
   ValidationOutcome \<times> Gate option \<times> string list \<Rightarrow> Db \<Rightarrow> (rpc_error, PlanValidationResult) result \<times> AuditEvent list \<times> Db" where
  "store_plan d ft now newID task taskID spiffe plan violations os og db =
     (case og of (outcome, gate, extra) \<Rightarrow>
        (case InsertPlanSteps (sf_insert ft) (TenantID task) taskID (map so_record os) (next_state outcome) db of
           Inl _ \<Rightarrow> (Inl (Status Internal ''failed to persist plan steps''), [], db)
         | Inr db1 \<Rightarrow>
             (case after_insert d ft now newID task taskID spiffe plan outcome gate db1 of
                (Inl e, db2) \<Rightarrow> (Inl e, [], db2)
              | (Inr (toks, digest), db2) \<Rightarrow>
                  (Inr \<lparr>vr_PlanId = pl_PlanId plan, vr_Outcome = outcome, vr_StepDecisions = map so_decision os,
                        vr_Violations = violations @ extra, vr_CapabilityTokenIds = toks, vr_ArgsDigest = digest\<rparr>,
                   [plan_event taskID task (plan_audit outcome) (outcome_name outcome)], db2))))"

section \<open>SubmitPlan\<close>

text \<open>A plan refused before its steps are decided: the task is denied with the violations.\<close>

definition denied_plan :: "SubmitFaults \<Rightarrow> Task \<Rightarrow> string \<Rightarrow> PlanMsg \<Rightarrow> string list \<Rightarrow> Db \<Rightarrow> PlanValidationResult \<times> Db" where
  "denied_plan ft task taskID plan violations db =
     (\<lparr>vr_PlanId = pl_PlanId plan, vr_Outcome = ValidationOutcome_DENIED, vr_StepDecisions = [],
       vr_Violations = violations, vr_CapabilityTokenIds = Map.empty, vr_ArgsDigest = []\<rparr>,
      denyTask (sf_deny ft) (TenantID task) taskID db)"

text \<open>The boundaries that need no policy engine; the second component names the one that refused.\<close>

definition plan_boundary :: "Deps \<Rightarrow> Task \<Rightarrow> PlanMsg \<Rightarrow> bool \<Rightarrow> (string \<times> string) option" where
  "plan_boundary d task plan agentBound =
     (let tools = map st_ToolId (pl_Steps plan);
          v1 = (case AgentID task of None \<Rightarrow> [] | Some aid \<Rightarrow> checkAgentSkills d (TenantID task) aid tools (\<not> agentBound));
          v2 = delegationScopeViolation d task tools
      in if v1 \<noteq> [] then Some (v1, ''broker:agent_skills'') else if v2 \<noteq> [] then Some (v2, ''broker:delegation_scope'') else None)"

definition submit_steps ::
  "Deps \<Rightarrow> Identity option \<Rightarrow> SubmitFaults \<Rightarrow> int \<Rightarrow> string \<Rightarrow> PlanMsg \<Rightarrow> Task \<Rightarrow> string \<Rightarrow> string \<Rightarrow> bool \<Rightarrow> string list \<Rightarrow> Db \<Rightarrow>
   (rpc_error, PlanValidationResult) result \<times> AuditEvent list \<times> Db" where
  "submit_steps d ident ft now newID plan task taskID spiffe agentBound violations db =
     (if (case dp_OverlayLoader d of None \<Rightarrow> False | Some loaded \<Rightarrow> \<not> loaded (TenantID task))
      then (Inl (Status Unavailable ''tenant skill settings could not be read; retry''), [], db)
      else case decide_steps d ident task taskID spiffe agentBound (userBoundExemption d (TenantID task) task) (pl_Steps plan) of
        (Inl e, evs) \<Rightarrow> (Inl e, evs, db)
      | (Inr os, evs) \<Rightarrow>
          (case plan_gate d task taskID plan (plan_outcome os) of
             (Inl e, evs') \<Rightarrow> (Inl e, evs @ evs', db)
           | (Inr og, evs') \<Rightarrow>
               (case store_plan d ft now newID task taskID spiffe plan violations os og db of
                  (r, evs'', db') \<Rightarrow> (r, evs @ evs' @ evs'', db'))))"

definition submit_validated ::
  "Deps \<Rightarrow> Identity option \<Rightarrow> SubmitFaults \<Rightarrow> int \<Rightarrow> string \<Rightarrow> PlanMsg \<Rightarrow> Task \<Rightarrow> string \<Rightarrow> string \<Rightarrow> Db \<Rightarrow>
   (rpc_error, PlanValidationResult) result \<times> AuditEvent list \<times> Db" where
  "submit_validated d ident ft now newID plan task taskID spiffe db =
     (let agentBound = (AgentID task \<noteq> None \<and> \<not> isDefaultAgent d (TenantID task) (str_of (AgentID task)));
          ref = ''aikonos:task:'' @ taskID;
          denied = plan_event taskID task DENY (outcome_name ValidationOutcome_DENIED)
      in case plan_boundary d task plan agentBound of
           Some (v, by_rule) \<Rightarrow>
             (let (r, db') = denied_plan ft task taskID plan [v] db in (Inr r, [decision_event ref task DENY by_rule, denied], db'))
         | None \<Rightarrow>
             (case dp_DecidePlan d plan (CostBudget task) spiffe of
                Inl _ \<Rightarrow> (Inl (Status Internal ''policy evaluation failed''), [], db)
              | Inr dec \<Rightarrow>
                  (let ev = decision_event ref task (if pd_Allow dec then ALLOW else DENY) ''opa:aikonos/plan_validation'' in
                   if \<not> pd_Allow dec
                   then (let (r, db') = denied_plan ft task taskID plan (pd_Violations dec) db in (Inr r, [ev, denied], db'))
                   else (case submit_steps d ident ft now newID plan task taskID spiffe agentBound (pd_Violations dec) db of
                           (r, evs, db') \<Rightarrow> (r, ev # evs, db')))))"

definition SubmitPlan ::
  "Deps \<Rightarrow> Identity option \<Rightarrow> SubmitFaults \<Rightarrow> int \<Rightarrow> string \<Rightarrow> SubmitReq \<Rightarrow> Db \<Rightarrow>
   (rpc_error, PlanValidationResult) result \<times> AuditEvent list \<times> Db" where
  "SubmitPlan d ident ft now newID req db =
     (case submit_prechecks d ident (sf_get ft) req db of
        (Inl e, evs) \<Rightarrow> (Inl e, evs, db)
      | (Inr (plan, task, spiffe), evs) \<Rightarrow>
          (case advanceToValidating (sf_planning ft) (sf_validating ft) (TenantID task) (sr_TaskId req) task db of
             (Inl _, db1) \<Rightarrow> (Inl (Status FailedPrecondition ''task not in a plannable state''), evs, db1)
           | (Inr _, db1) \<Rightarrow>
               (case submit_validated d ident ft now newID plan task (sr_TaskId req) spiffe db1 of
                  (r, evs', db2) \<Rightarrow> (r, evs @ evs', db2))))"

end
