(* ===== verification/InvokeTool.thy ===== *)
theory InvokeTool
  imports Sandbox
begin

text \<open>
  broker/internal/broker/service_invoke.go: InvokeTool, the only path to a side effect, with
  its gates in the order of the code, the claim of the plan step, the call of the tool proxy
  and the settlement of the cost; and EmitStatus.  The state is the task store, the rate
  limiter, the audit events and the requests that reached the proxy.  Metrics, logs, traces
  and the behavioural baseline are left out.
\<close>

section \<open>Messages and state\<close>

record InvokeReq =
  rq_TaskId :: string
  rq_TenantId :: string
  rq_UserId :: string
  rq_AgentId :: string
  rq_ToolId :: string
  rq_StepId :: string
  rq_Args :: "json option"
  rq_CapabilityToken :: string

record InvokeResp =
  rs_Success :: bool
  rs_Error :: string
  rs_CostUnitsConsumed :: int

record SbState =
  sb_db :: Db
  sb_limiter :: Limiter
  sb_audit :: "AuditEvent list"
  sb_calls :: "ProxyRequest list"

text \<open>Which of the store's calls fail.\<close>

record InvokeFaults =
  if_get :: bool
  if_reserve :: bool
  if_claim :: bool
  if_release :: bool
  if_transition :: bool
  if_settle :: bool

section \<open>Binding the call to its task\<close>

definition unavailable :: string where
  "unavailable = ''task not available to this caller''"

definition gate_task :: "Deps \<Rightarrow> Identity option \<Rightarrow> bool \<Rightarrow> InvokeReq \<Rightarrow> Db \<Rightarrow> (Task \<times> string) check" where
  "gate_task d ident fail req db =
     (if \<not> dp_TasksWired d then refuse PermissionDenied ''task store not configured'' []
      else case southTask fail ident (dp_TenantID d) (rq_TenantId req) (rq_TaskId req) db of
        Inl (SouthDb ErrNotFound) \<Rightarrow> refuse PermissionDenied unavailable [tool_denied d ident None (rq_ToolId req) ''task_unbound'']
      | Inl (SouthDb _) \<Rightarrow> refuse Unavailable ''task could not be loaded; retry'' []
      | Inl (SouthStatus _) \<Rightarrow> refuse PermissionDenied unavailable [tool_denied d ident None (rq_ToolId req) ''task_unbound'']
      | Inr (task, tenant) \<Rightarrow> pass (task, tenant))"

definition gate_binding :: "Deps \<Rightarrow> Identity option \<Rightarrow> InvokeReq \<Rightarrow> Task \<Rightarrow> unit check" where
  "gate_binding d ident req task =
     (let deny = (\<lambda>reason. [tool_denied d ident (Some task) (rq_ToolId req) reason]);
          reqAgent = TrimPrefix (TrimSpace (rq_AgentId req)) ''agent:''
      in if rq_UserId req \<noteq> [] \<and> rq_UserId req \<noteq> OwnerUserID task
         then refuse PermissionDenied unavailable (deny ''task_owner_mismatch'')
         else if reqAgent \<noteq> [] \<and> \<not> EqualFold reqAgent (str_of (AgentID task))
         then refuse PermissionDenied unavailable (deny ''agent_mismatch'')
         else if State task \<noteq> TaskStateApproved \<and> State task \<noteq> TaskStateExecuting
         then refuse FailedPrecondition unavailable (deny ''task_not_executable'')
         else if CostConsumed task \<ge> CostBudget task
         then refuse ResourceExhausted ''task cost budget exceeded'' (deny ''budget_exceeded'')
         else pass ())"

section \<open>Administrative switches\<close>

definition gate_disabled_tools :: "Deps \<Rightarrow> Identity option \<Rightarrow> InvokeReq \<Rightarrow> Task \<Rightarrow> string \<Rightarrow> unit check" where
  "gate_disabled_tools d ident req task tenant =
     (let deny = (\<lambda>reason. [tool_denied d ident (Some task) (rq_ToolId req) reason]) in
      case dp_Cfg d tenant ''disabled_tools'' of
        Inl _ \<Rightarrow> refuse Unavailable ''tenant settings could not be read'' (deny ''settings_check_failed'')
      | Inr v \<Rightarrow>
          if toolInList (ParseList v) (rq_ToolId req) then refuse PermissionDenied ''tool is disabled'' (deny ''tool_disabled'')
          else pass ())"

definition gate_overlay :: "Deps \<Rightarrow> Identity option \<Rightarrow> InvokeReq \<Rightarrow> Task \<Rightarrow> string \<Rightarrow> unit check" where
  "gate_overlay d ident req task tenant =
     (let deny = (\<lambda>reason. [tool_denied d ident (Some task) (rq_ToolId req) reason]) in
      case dp_OverlayLoader d of
        None \<Rightarrow> pass ()
      | Some ensureLoaded \<Rightarrow>
          if \<not> ensureLoaded tenant
          then refuse Unavailable ''tenant skill settings could not be read'' (deny ''overlay_check_failed'')
          else if IsEnabled (dp_Registry d) tenant (rq_ToolId req) = Some False
          then refuse PermissionDenied ''tool is disabled'' (deny ''skill_disabled'')
          else pass ())"

definition gate_org :: "Deps \<Rightarrow> Identity option \<Rightarrow> InvokeReq \<Rightarrow> Task \<Rightarrow> string \<Rightarrow> unit check" where
  "gate_org d ident req task tenant =
     (let deny = (\<lambda>reason. [tool_denied d ident (Some task) (rq_ToolId req) reason]) in
      case dp_OrgSettings d of
        None \<Rightarrow> pass ()
      | Some get \<Rightarrow>
          (case get tenant of
             Inl _ \<Rightarrow> refuse Internal ''org capability check'' (deny ''capability_check_failed'')
           | Inr settings \<Rightarrow>
               if DisabledEffectClasses settings \<noteq> [] \<and>
                  (case EffectClassForTenant (dp_Registry d) tenant (rq_ToolId req) of
                     None \<Rightarrow> False | Some ec \<Rightarrow> EffectClassDisabled settings (dp_EnumString d ec))
               then refuse PermissionDenied ''tool effect class is disabled for this organization'' (deny ''capability_disabled'')
               else (case connectorForTool (rq_ToolId req) of
                       None \<Rightarrow> pass ()
                     | Some prov \<Rightarrow>
                         if ConnectorAllowed settings prov then pass ()
                         else refuse PermissionDenied ''connector is not permitted by your organization'' (deny ''connector_not_permitted''))))"

section \<open>Revocation and the capability token\<close>

definition gate_revocation :: "Deps \<Rightarrow> Identity option \<Rightarrow> InvokeReq \<Rightarrow> Task \<Rightarrow> string \<Rightarrow> RevState check" where
  "gate_revocation d ident req task tenant =
     (let deny = (\<lambda>reason. [tool_denied d ident (Some task) (rq_ToolId req) reason]); obo = Task_OnBehalfOf task in
      case dp_RevOnBehalfOf d tenant (Subject obo) (Actor obo) of
        Inl _ \<Rightarrow> refuse Unavailable ''access state could not be read; retry'' []
      | Inr st \<Rightarrow>
          if Blocked st then refuse PermissionDenied ''user is blocked'' (deny ''subject_blocked'')
          else if AgentRefusal st \<noteq> [] then (Inl (agentRefusedErr (AgentRefusal st)), deny (AgentRefusal st))
          else pass st)"

definition cap_refusal :: "(string \<Rightarrow> AuditEvent list) \<Rightarrow> cap_error \<Rightarrow> unit check" where
  "cap_refusal deny e =
     (if e = ErrAuthorizeTimeout then refuse Unavailable ''capability check could not complete; retry'' []
      else if e = ErrTokenExpired then refuse PermissionDenied ''capability token expired'' (deny ''capability_expired'')
      else if e = ErrRevoked then refuse PermissionDenied ''capability token revoked'' (deny ''capability_revoked'')
      else if e = ErrTaskMismatch then refuse PermissionDenied ''capability token is not bound to task'' (deny ''capability_task_mismatch'')
      else refuse PermissionDenied ''capability does not grant'' (deny ''capability_denied''))"

definition gate_capability :: "Deps \<Rightarrow> Identity option \<Rightarrow> InvokeReq \<Rightarrow> Task \<Rightarrow> string \<Rightarrow> string \<Rightarrow> RevState \<Rightarrow> unit check" where
  "gate_capability d ident req task tenant scope st =
     (let deny = (\<lambda>reason. [tool_denied d ident (Some task) (rq_ToolId req) reason]) in
      case dp_Authorize d of
        None \<Rightarrow> pass ()
      | Some authorize \<Rightarrow>
          if rq_CapabilityToken req = [] then refuse PermissionDenied ''capability token required'' []
          else (case std_decode (rq_CapabilityToken req) of
                  None \<Rightarrow> refuse InvalidArgument ''malformed capability token'' []
                | Some raw \<Rightarrow>
                    (case authorize raw scope (rq_TaskId req) (Task_OnBehalfOf task) (NotBefore st) of
                       None \<Rightarrow> pass ()
                     | Some e \<Rightarrow>
                         if e = ErrOBOMismatch then
                           (case dp_Cfg d tenant ''identity.obo'' of
                              Inl _ \<Rightarrow> refuse Unavailable ''tenant settings could not be read'' (deny ''settings_check_failed'')
                            | Inr mode \<Rightarrow>
                                if mode = ''enforce''
                                then refuse PermissionDenied ''capability token is not bound to this task's subject and actor'' (deny ''obo_context_mismatch'')
                                else (Inr (), deny ''obo_context_mismatch''))
                         else cap_refusal deny e)))"

section \<open>Skills, connectors, memory\<close>

definition agent_bound :: "Deps \<Rightarrow> Task \<Rightarrow> string \<Rightarrow> bool" where
  "agent_bound d task tenant = (AgentID task \<noteq> None \<and> \<not> isDefaultAgent d tenant (str_of (AgentID task)))"

definition gate_user_skill :: "Deps \<Rightarrow> Identity option \<Rightarrow> InvokeReq \<Rightarrow> Task \<Rightarrow> string \<Rightarrow> unit check" where
  "gate_user_skill d ident req task tenant =
     (if agent_bound d task tenant \<and> userBoundExemption d tenant task \<noteq> [] then pass ()
      else if userSkillDecision d (OwnerUserID task) (rq_ToolId req) = ''allow'' then pass ()
      else (let mode = (if agent_bound d task tenant then userBoundMode d tenant else ''enforce'') in
            if mode = ''enforce''
            then refuse PermissionDenied ''user is not granted tool'' [tool_denied d ident (Some task) (rq_ToolId req) ''skill_grant_revoked'']
            else (Inr (), [would_deny_event tenant (OwnerUserID task) (rq_ToolId req) ''user_skill_would_deny''])))"

definition gate_skills :: "Deps \<Rightarrow> Identity option \<Rightarrow> InvokeReq \<Rightarrow> Task \<Rightarrow> string \<Rightarrow> unit check" where
  "gate_skills d ident req task tenant =
     (if HasPrefix (rq_ToolId req) ''mcp:'' then pass ()
      else if agent_bound d task tenant \<and> checkAgentSkills d tenant (str_of (AgentID task)) [rq_ToolId req] False \<noteq> []
      then refuse PermissionDenied ''tool is outside the agent's skill boundary''
             [tool_denied d ident (Some task) (rq_ToolId req) ''agent_skill_revoked'']
      else gate_user_skill d ident req task tenant)"

definition gate_mcp_user :: "Deps \<Rightarrow> Identity option \<Rightarrow> InvokeReq \<Rightarrow> Task \<Rightarrow> string \<Rightarrow> AccessPolicy \<Rightarrow> string \<Rightarrow> unit check" where
  "gate_mcp_user d ident req task tenant pol object =
     (if userBoundExemption d tenant task \<noteq> [] then pass ()
      else if CheckFGA pol (''user:'' @ OwnerUserID task) ''can_access'' object = Inr True then pass ()
      else if userBoundMode d tenant = ''enforce''
      then refuse PermissionDenied ''user does not have access to mcp_connector''
             [tool_denied d ident (Some task) (rq_ToolId req) ''mcp_user_access_denied'']
      else (Inr (), [would_deny_event tenant (OwnerUserID task) (rq_ToolId req) ''mcp_user_access_would_deny'']))"

definition gate_mcp :: "Deps \<Rightarrow> Identity option \<Rightarrow> InvokeReq \<Rightarrow> Task \<Rightarrow> string \<Rightarrow> unit check" where
  "gate_mcp d ident req task tenant =
     (let deny = (\<lambda>reason. [tool_denied d ident (Some task) (rq_ToolId req) reason]) in
      if \<not> HasPrefix (rq_ToolId req) ''mcp:'' then pass ()
      else case ParseMcpToolID (rq_ToolId req) of
        None \<Rightarrow> refuse InvalidArgument ''malformed mcp tool_id'' []
      | Some (connID, _) \<Rightarrow>
          (let agentID = str_of (AgentID task);
               agentRef = (if HasPrefix agentID ''agent:'' then agentID else ''agent:'' @ agentID);
               object = ''mcp_connector:'' @ connID
           in if agentID = [] then refuse PermissionDenied ''agent_id required for mcp tool calls'' []
              else case dp_Policy d of
                None \<Rightarrow> refuse PermissionDenied ''mcp access check unavailable'' (deny ''mcp_check_error'')
              | Some pol \<Rightarrow>
                  (case CheckFGA pol agentRef ''can_access'' object of
                     Inl _ \<Rightarrow> refuse PermissionDenied ''mcp access check failed'' (deny ''mcp_check_error'')
                   | Inr granted \<Rightarrow>
                       if \<not> granted then refuse PermissionDenied ''agent does not have access to mcp_connector'' (deny ''mcp_access_denied'')
                       else if \<not> agentMcpToolAllowed d tenant agentID (rq_ToolId req)
                       then refuse PermissionDenied ''tool is not in agent's allowed MCP tools'' (deny ''mcp_tool_not_allowed'')
                       else gate_mcp_user d ident req task tenant pol object)))"

definition memoryGroupPreGate :: "Deps \<Rightarrow> Identity option \<Rightarrow> InvokeReq \<Rightarrow> Task \<Rightarrow> unit check" where
  "memoryGroupPreGate d ident req task =
     (let deny = (\<lambda>reason. [tool_denied d ident (Some task) (rq_ToolId req) reason]) in
      if rq_ToolId req \<noteq> ''memory.read'' \<and> rq_ToolId req \<noteq> ''memory.write'' then pass ()
      else if string_field (rq_Args req) ''scope'' \<noteq> ''group'' then pass ()
      else let groupID = TrimSpace (string_field (rq_Args req) ''group_id''); owner = TrimSpace (OwnerUserID task) in
           if groupID = [] then refuse PermissionDenied ''group_id required for a group-scoped memory call'' (deny ''memory_group_id_missing'')
           else if owner = [] then refuse PermissionDenied ''task owner unknown, cannot verify group membership'' (deny ''memory_group_owner_unknown'')
           else case dp_Policy d of
             None \<Rightarrow> refuse PermissionDenied ''group membership check unavailable'' (deny ''memory_group_check_error'')
           | Some pol \<Rightarrow>
               (case CheckFGA pol (''user:'' @ owner) ''member'' (''group:'' @ groupID) of
                  Inl _ \<Rightarrow> refuse PermissionDenied ''group membership check failed'' (deny ''memory_group_check_error'')
                | Inr ok \<Rightarrow>
                    if ok then pass ()
                    else refuse PermissionDenied ''task owner is not a member'' (deny ''memory_group_not_member'')))"

section \<open>The gates before the side effect\<close>

definition invoke_gates :: "Deps \<Rightarrow> Identity option \<Rightarrow> bool \<Rightarrow> InvokeReq \<Rightarrow> Db \<Rightarrow> (Task \<times> string) check" where
  "invoke_gates d ident fail req db =
     andThen (case requireGatewayPeer (dp_GatewaySpiffeID d) (dp_DevMode d) ident of Inl e \<Rightarrow> (Inl e, []) | Inr u \<Rightarrow> pass u) (\<lambda>_.
     andThen (case RequiredScope (dp_Registry d) (rq_ToolId req) of
                None \<Rightarrow> refuse PermissionDenied ''unknown tool'' [tool_denied d ident None (rq_ToolId req) ''unknown_tool'']
              | Some scope \<Rightarrow> pass scope) (\<lambda>scope.
     andThen (gate_task d ident fail req db) (\<lambda>(task, tenant).
     andThen (gate_binding d ident req task) (\<lambda>_.
     andThen (gate_disabled_tools d ident req task tenant) (\<lambda>_.
     andThen (gate_overlay d ident req task tenant) (\<lambda>_.
     andThen (gate_org d ident req task tenant) (\<lambda>_.
     andThen (gate_revocation d ident req task tenant) (\<lambda>st.
     andThen (gate_capability d ident req task tenant scope st) (\<lambda>_.
     andThen (gate_skills d ident req task tenant) (\<lambda>_.
     andThen (gate_mcp d ident req task tenant) (\<lambda>_.
     andThen (memoryGroupPreGate d ident req task) (\<lambda>_. pass (task, tenant)))))))))))))"

section \<open>The plan step\<close>

text \<open>strconv.ParseInt with a bit size of 16.\<close>

definition ParseInt16 :: "string \<Rightarrow> int option" where
  "ParseInt16 s = (case Atoi s of Some v \<Rightarrow> if - 32768 \<le> v \<and> v < 32768 then Some v else None | None \<Rightarrow> None)"

definition matchPlanStep :: "bool \<Rightarrow> string \<Rightarrow> InvokeReq \<Rightarrow> int \<Rightarrow> string list \<Rightarrow> Db \<Rightarrow> (unit, string) result \<times> Db" where
  "matchPlanStep fail tenant req seq hashes db =
     (case ClaimPlanStep fail tenant (rq_TaskId req) seq (rq_ToolId req) hashes db of
        (Inl ErrNotFound, db') \<Rightarrow> (Inr ''step_unbound'', db')
      | (Inl _, db') \<Rightarrow> (Inl (), db')
      | (Inr c, db') \<Rightarrow>
          (Inr (if Claimed c then []
                else if cl_ToolID c \<noteq> rq_ToolId req then ''step_tool_mismatch''
                else if cl_PolicyDecision c = PolicyDeny then ''step_denied''
                else if cl_ArgsHash c \<notin> set hashes then ''step_args_mismatch''
                else ''step_consumed''), db'))"

definition releaseCost :: "bool \<Rightarrow> string \<Rightarrow> string \<Rightarrow> int \<Rightarrow> Db \<Rightarrow> Db" where
  "releaseCost fail tenant taskID units db = snd (IncrementCost fail tenant taskID (- units) db)"

definition arg_hashes :: "(string \<Rightarrow> string) \<Rightarrow> json option \<Rightarrow> string list" where
  "arg_hashes sha256 args =
     (if obj_fields args = [] then [[], argsHash sha256 (Some (JObj []))] else [argsHash sha256 args])"

text \<open>The reserved units, the reason of a refusal, or an error of the store.\<close>

datatype claim_result = StepClaimed int | StepRefused string | StepError

definition claimPlanStep :: "Deps \<Rightarrow> InvokeFaults \<Rightarrow> string \<Rightarrow> InvokeReq \<Rightarrow> Db \<Rightarrow> claim_result \<times> Db" where
  "claimPlanStep d ft tenant req db =
     (case ParseInt16 (TrimSpace (rq_StepId req)) of
        None \<Rightarrow> (StepRefused ''step_unbound'', db)
      | Some seq \<Rightarrow>
          (let hashes = arg_hashes (dp_Sha256 d) (rq_Args req) in
           if obj_fields (rq_Args req) \<noteq> [] \<and> hd hashes = [] then (StepRefused ''step_args_mismatch'', db)
           else case ReserveCost (if_reserve ft) tenant (rq_TaskId req) seq db of
             Inl ErrBudgetExceeded \<Rightarrow> (StepRefused ''budget_exceeded'', db)
           | Inl _ \<Rightarrow> (StepError, db)
           | Inr (reserved, db1) \<Rightarrow>
               (case matchPlanStep (if_claim ft) tenant req seq hashes db1 of
                  (Inl _, db2) \<Rightarrow> (StepError, releaseCost (if_release ft) tenant (rq_TaskId req) reserved db2)
                | (Inr reason, db2) \<Rightarrow>
                    if reason \<noteq> [] then (StepRefused reason, releaseCost (if_release ft) tenant (rq_TaskId req) reserved db2)
                    else (StepClaimed reserved, db2))))"

section \<open>Dispatch and settlement\<close>

definition proxy_request :: "Deps \<Rightarrow> InvokeReq \<Rightarrow> Task \<Rightarrow> string \<Rightarrow> ProxyRequest" where
  "proxy_request d req task tenant =
     \<lparr>px_ToolID = rq_ToolId req, px_Args = rq_Args req, px_TaskID = rq_TaskId req, px_TenantID = tenant,
      px_UserID = OwnerUserID task,
      px_AgentID = (if HasPrefix (rq_ToolId req) ''memory.'' \<and> isDefaultAgent d tenant (str_of (AgentID task)) then []
                    else str_of (AgentID task)),
      px_OBO = Task_OnBehalfOf task\<rparr>"

definition invoked_event :: "InvokeReq \<Rightarrow> Task \<Rightarrow> string \<Rightarrow> ToolResult \<Rightarrow> AuditEvent" where
  "invoked_event req task tenant res =
     \<lparr>ev_Type = ''aikonos.broker.tool.invoked'', ev_TenantID = tenant, ev_ActorUserID = OwnerUserID task,
      ev_ResourceRef = ''aikonos:tool:'' @ rq_ToolId req, ev_Decision = (if tr_Success res then ALLOW else DENY),
      ev_Reason = tr_Error res\<rparr>"

definition flagged_event :: "InvokeReq \<Rightarrow> Task \<Rightarrow> string \<Rightarrow> AuditEvent" where
  "flagged_event req task tenant =
     \<lparr>ev_Type = ''aikonos.tool.result_flagged'', ev_TenantID = tenant, ev_ActorUserID = OwnerUserID task,
      ev_ResourceRef = ''aikonos:tool:'' @ rq_ToolId req, ev_Decision = ALLOW, ev_Reason = []\<rparr>"

definition budget_event :: "InvokeReq \<Rightarrow> Task \<Rightarrow> string \<Rightarrow> AuditEvent" where
  "budget_event req task tenant =
     \<lparr>ev_Type = ''aikonos.broker.task.budget_exceeded'', ev_TenantID = tenant, ev_ActorUserID = OwnerUserID task,
      ev_ResourceRef = ''aikonos:task:'' @ rq_TaskId req, ev_Decision = DENY, ev_Reason = []\<rparr>"

definition settle :: "InvokeFaults \<Rightarrow> InvokeReq \<Rightarrow> Task \<Rightarrow> string \<Rightarrow> int \<Rightarrow> ToolResult \<Rightarrow> Db \<Rightarrow> AuditEvent list \<times> Db" where
  "settle ft req task tenant reserved res db =
     (let delta = (if tr_Success res then tr_CostUnits res else 0) - reserved in
      if delta = 0 then ([], db)
      else case IncrementCost (if_settle ft) tenant (rq_TaskId req) delta db of
             (Inl ErrBudgetExceeded, db') \<Rightarrow> (if delta > 0 then [budget_event req task tenant] else [], db')
           | (_, db') \<Rightarrow> ([], db'))"

definition invoke_answer :: "ToolResult \<Rightarrow> InvokeResp" where
  "invoke_answer res =
     (if tr_Encodes res then \<lparr>rs_Success = tr_Success res, rs_Error = tr_Error res, rs_CostUnitsConsumed = tr_CostUnits res\<rparr>
      else \<lparr>rs_Success = False, rs_Error = ''tool result could not be encoded'', rs_CostUnitsConsumed = tr_CostUnits res\<rparr>)"

text \<open>From the claimed step on: the transition, the side effect, the settlement.\<close>

definition dispatch ::
  "Deps \<Rightarrow> InvokeFaults \<Rightarrow> InvokeReq \<Rightarrow> Task \<Rightarrow> string \<Rightarrow> (ProxyRequest \<Rightarrow> (unit, ToolResult) result) \<Rightarrow> int \<Rightarrow> SbState \<Rightarrow>
   (rpc_error, InvokeResp) result \<times> SbState" where
  "dispatch d ft req task tenant proxy reserved s =
     (let db1 = (if State task = TaskStateApproved
                 then or_same (sb_db s) (Transition (if_transition ft) tenant (rq_TaskId req) TaskStateApproved TaskStateExecuting (sb_db s))
                 else sb_db s);
          px = proxy_request d req task tenant;
          s1 = s\<lparr>sb_db := db1, sb_calls := sb_calls s @ [px]\<rparr>
      in case proxy px of
           Inl _ \<Rightarrow> (Inl (Status Internal ''tool proxy error''),
                     s1\<lparr>sb_db := releaseCost (if_release ft) tenant (rq_TaskId req) reserved db1\<rparr>)
         | Inr res \<Rightarrow>
             (case settle ft req task tenant reserved res db1 of
                (evs, db2) \<Rightarrow>
                  (Inr (invoke_answer res),
                   s1\<lparr>sb_db := db2,
                      sb_audit := sb_audit s1 @ [invoked_event req task tenant res]
                        @ (if tr_Success res \<and> tr_Flagged res then [flagged_event req task tenant] else []) @ evs\<rparr>)))"

definition rate_limited_event :: "InvokeReq \<Rightarrow> Task \<Rightarrow> string \<Rightarrow> AuditEvent" where
  "rate_limited_event req task tenant =
     \<lparr>ev_Type = ''aikonos.broker.rate_limit.enforced'', ev_TenantID = tenant, ev_ActorUserID = OwnerUserID task,
      ev_ResourceRef = ''aikonos:tool:'' @ rq_ToolId req, ev_Decision = DENY, ev_Reason = ''rpm''\<rparr>"

definition invoke_claimed ::
  "Deps \<Rightarrow> Identity option \<Rightarrow> InvokeFaults \<Rightarrow> InvokeReq \<Rightarrow> Task \<Rightarrow> string \<Rightarrow> SbState \<Rightarrow> (rpc_error, InvokeResp) result \<times> SbState" where
  "invoke_claimed d ident ft req task tenant s =
     (case dp_ToolProxy d of
        None \<Rightarrow> (Inr \<lparr>rs_Success = False, rs_Error = ''tool proxy not configured'', rs_CostUnitsConsumed = 0\<rparr>, s)
      | Some proxy \<Rightarrow>
          (case claimPlanStep d ft tenant req (sb_db s) of
             (StepError, db') \<Rightarrow> (Inl (Status Unavailable ''task could not be loaded; retry''), s\<lparr>sb_db := db'\<rparr>)
           | (StepRefused reason, db') \<Rightarrow>
               (Inl (if reason = ''budget_exceeded'' then Status ResourceExhausted ''task cost budget exceeded''
                     else Status PermissionDenied ''call does not match an approved step of task''),
                s\<lparr>sb_db := db', sb_audit := sb_audit s @ [tool_denied d ident (Some task) (rq_ToolId req) reason]\<rparr>)
           | (StepClaimed reserved, db') \<Rightarrow> dispatch d ft req task tenant proxy reserved (s\<lparr>sb_db := db'\<rparr>)))"

definition InvokeTool ::
  "Deps \<Rightarrow> Identity option \<Rightarrow> InvokeFaults \<Rightarrow> int \<Rightarrow> InvokeReq \<Rightarrow> SbState \<Rightarrow> (rpc_error, InvokeResp) result \<times> SbState" where
  "InvokeTool d ident ft now req s =
     (case invoke_gates d ident (if_get ft) req (sb_db s) of
        (Inl e, evs) \<Rightarrow> (Inl e, s\<lparr>sb_audit := sb_audit s @ evs\<rparr>)
      | (Inr (task, tenant), evs) \<Rightarrow>
          (let s1 = s\<lparr>sb_audit := sb_audit s @ evs\<rparr> in
           if \<not> dp_RateLimiter d then invoke_claimed d ident ft req task tenant s1
           else case CheckToolInvocation now tenant (str_of (AgentID task)) (sb_limiter s1) of
                  (Inl e, l') \<Rightarrow> (Inl e, s1\<lparr>sb_limiter := l', sb_audit := sb_audit s1 @ [rate_limited_event req task tenant]\<rparr>)
                | (Inr _, l') \<Rightarrow> invoke_claimed d ident ft req task tenant (s1\<lparr>sb_limiter := l'\<rparr>)))"

section \<open>EmitStatus\<close>

definition EmitStatus ::
  "Deps \<Rightarrow> Identity option \<Rightarrow> bool \<Rightarrow> bool \<Rightarrow> string \<Rightarrow> string \<Rightarrow> TaskStatus \<Rightarrow> Db \<Rightarrow> (rpc_error, unit) result \<times> Db" where
  "EmitStatus d ident failGet failSet reqTenant taskID status db =
     (case requireGatewayPeer (dp_GatewaySpiffeID d) (dp_DevMode d) ident of
        Inl e \<Rightarrow> (Inl e, db)
      | Inr _ \<Rightarrow>
          (case protoStatusToDBState status of
             None \<Rightarrow> (Inl (Status InvalidArgument ''unmappable task status''), db)
           | Some toState \<Rightarrow>
               (case southTask failGet ident (dp_TenantID d) reqTenant taskID db of
                  Inl (SouthStatus e) \<Rightarrow> (Inl e, db)
                | Inl (SouthDb ErrNotFound) \<Rightarrow> (Inl (Status NotFound ''task not found''), db)
                | Inl (SouthDb _) \<Rightarrow> (Inl (Status Unavailable ''task could not be loaded; retry''), db)
                | Inr (t, tenant) \<Rightarrow>
                    (case Transition failSet tenant taskID (State t) toState db of
                       Inl _ \<Rightarrow> (Inl (Status FailedPrecondition ''cannot transition task''), db)
                     | Inr db' \<Rightarrow> (Inr (), db')))))"

end
