(* ===== verification/InvokeSafety.thy ===== *)
theory InvokeSafety
  imports InvokeTool
begin

text \<open>
  What InvokeTool guarantees: its gates admit exactly the permitted calls, a side effect
  happens only behind them and for a stored, unused plan step, at most once per step; a
  refused call leaves the store as it was; the cost ledger is exact.  Each call is a run of
  store calls on its own task, so the guarantees of the store carry over.
\<close>

section \<open>What the gates let through\<close>

text \<open>The specification of a permitted call, clause by clause.\<close>

definition binding_ok :: "InvokeReq \<Rightarrow> Task \<Rightarrow> bool" where
  "binding_ok req task =
     (rq_UserId req \<in> {[], OwnerUserID task}
      \<and> (let claim = TrimPrefix (TrimSpace (rq_AgentId req)) ''agent:'' in claim = [] \<or> EqualFold claim (str_of (AgentID task)))
      \<and> State task \<in> {TaskStateApproved, TaskStateExecuting} \<and> CostConsumed task < CostBudget task)"

definition switches_ok :: "Deps \<Rightarrow> string \<Rightarrow> string \<Rightarrow> bool" where
  "switches_ok d tool tenant =
     ((\<exists>v. dp_Cfg d tenant ''disabled_tools'' = Inr v \<and> tool \<notin> set (ParseList v))
      \<and> (\<forall>loaded. dp_OverlayLoader d = Some loaded \<longrightarrow> loaded tenant \<and> IsEnabled (dp_Registry d) tenant tool \<noteq> Some False)
      \<and> (\<forall>get. dp_OrgSettings d = Some get \<longrightarrow> (\<exists>s. get tenant = Inr s
           \<and> (\<forall>ec. EffectClassForTenant (dp_Registry d) tenant tool = Some ec \<longrightarrow> dp_EnumString d ec \<notin> set (DisabledEffectClasses s))
           \<and> (\<forall>p. connectorForTool tool = Some p \<longrightarrow> ConnectorAllowed s p))))"

definition token_ok :: "Deps \<Rightarrow> InvokeReq \<Rightarrow> Task \<Rightarrow> string \<Rightarrow> string \<Rightarrow> int option \<Rightarrow> bool" where
  "token_ok d req task tenant scope nb =
     (\<forall>authorize. dp_Authorize d = Some authorize \<longrightarrow> rq_CapabilityToken req \<noteq> []
        \<and> (\<exists>raw. std_decode (rq_CapabilityToken req) = Some raw
             \<and> (authorize raw scope (rq_TaskId req) (Task_OnBehalfOf task) nb = None
                \<or> authorize raw scope (rq_TaskId req) (Task_OnBehalfOf task) nb = Some ErrOBOMismatch
                   \<and> (\<exists>m. dp_Cfg d tenant ''identity.obo'' = Inr m \<and> m \<noteq> ''enforce''))))"

definition principals_ok :: "Deps \<Rightarrow> InvokeReq \<Rightarrow> Task \<Rightarrow> string \<Rightarrow> string \<Rightarrow> bool" where
  "principals_ok d req task tenant scope =
     (\<exists>st. dp_RevOnBehalfOf d tenant (Subject (Task_OnBehalfOf task)) (Actor (Task_OnBehalfOf task)) = Inr st
        \<and> \<not> Blocked st \<and> AgentRefusal st = [] \<and> token_ok d req task tenant scope (NotBefore st))"

definition skills_ok :: "Deps \<Rightarrow> string \<Rightarrow> Task \<Rightarrow> string \<Rightarrow> bool" where
  "skills_ok d tool task tenant =
     (\<not> HasPrefix tool ''mcp:'' \<longrightarrow>
        (agent_bound d task tenant \<longrightarrow> checkAgentSkills d tenant (str_of (AgentID task)) [tool] False = [])
        \<and> (userSkillDecision d (OwnerUserID task) tool = ''allow''
           \<or> agent_bound d task tenant \<and> (userBoundExemption d tenant task \<noteq> [] \<or> userBoundMode d tenant \<noteq> ''enforce'')))"

definition mcp_ok :: "Deps \<Rightarrow> string \<Rightarrow> Task \<Rightarrow> string \<Rightarrow> bool" where
  "mcp_ok d tool task tenant =
     (HasPrefix tool ''mcp:'' \<longrightarrow>
        (\<exists>conn name pol. ParseMcpToolID tool = Some (conn, name) \<and> str_of (AgentID task) \<noteq> [] \<and> dp_Policy d = Some pol
           \<and> (let agent = str_of (AgentID task); object = ''mcp_connector:'' @ conn in
              CheckFGA pol (if HasPrefix agent ''agent:'' then agent else ''agent:'' @ agent) ''can_access'' object = Inr True
              \<and> agentMcpToolAllowed d tenant agent tool
              \<and> (userBoundExemption d tenant task \<noteq> []
                 \<or> CheckFGA pol (''user:'' @ OwnerUserID task) ''can_access'' object = Inr True
                 \<or> userBoundMode d tenant \<noteq> ''enforce''))))"

definition memory_ok :: "Deps \<Rightarrow> InvokeReq \<Rightarrow> Task \<Rightarrow> bool" where
  "memory_ok d req task =
     (rq_ToolId req \<in> {''memory.read'', ''memory.write''} \<and> string_field (rq_Args req) ''scope'' = ''group'' \<longrightarrow>
        (\<exists>pol. dp_Policy d = Some pol \<and> TrimSpace (string_field (rq_Args req) ''group_id'') \<noteq> [] \<and> TrimSpace (OwnerUserID task) \<noteq> []
           \<and> CheckFGA pol (''user:'' @ TrimSpace (OwnerUserID task)) ''member''
                (''group:'' @ TrimSpace (string_field (rq_Args req) ''group_id'')) = Inr True))"

definition permitted :: "Deps \<Rightarrow> Identity option \<Rightarrow> InvokeReq \<Rightarrow> Db \<Rightarrow> Task \<Rightarrow> bool" where
  "permitted d ident req db task =
     (requireGatewayPeer (dp_GatewaySpiffeID d) (dp_DevMode d) ident = Inr () \<and> dp_TasksWired d
      \<and> southTask False ident (dp_TenantID d) (rq_TenantId req) (rq_TaskId req) db = Inr (task, TenantID task)
      \<and> binding_ok req task \<and> switches_ok d (rq_ToolId req) (TenantID task)
      \<and> (\<exists>scope. RequiredScope (dp_Registry d) (rq_ToolId req) = Some scope \<and> principals_ok d req task (TenantID task) scope)
      \<and> skills_ok d (rq_ToolId req) task (TenantID task) \<and> mcp_ok d (rq_ToolId req) task (TenantID task)
      \<and> memory_ok d req task)"

lemma gate_binding_iff: "fst (gate_binding d ident req task) = Inr u \<longleftrightarrow> binding_ok req task"
  by (auto simp: gate_binding_def binding_ok_def Let_def)

lemma gate_disabled_tools_iff:
  "fst (gate_disabled_tools d ident req task tenant) = Inr u
     \<longleftrightarrow> (\<exists>v. dp_Cfg d tenant ''disabled_tools'' = Inr v \<and> rq_ToolId req \<notin> set (ParseList v))"
  by (auto simp: gate_disabled_tools_def toolInList_def list_ex_iff Let_def split: sum.splits)

lemma gate_overlay_iff:
  "fst (gate_overlay d ident req task tenant) = Inr u
     \<longleftrightarrow> (\<forall>loaded. dp_OverlayLoader d = Some loaded \<longrightarrow> loaded tenant \<and> IsEnabled (dp_Registry d) tenant (rq_ToolId req) \<noteq> Some False)"
  by (auto simp: gate_overlay_def Let_def split: option.splits)

lemma gate_org_iff:
  "fst (gate_org d ident req task tenant) = Inr u
     \<longleftrightarrow> (\<forall>get. dp_OrgSettings d = Some get \<longrightarrow> (\<exists>s. get tenant = Inr s
           \<and> (\<forall>ec. EffectClassForTenant (dp_Registry d) tenant (rq_ToolId req) = Some ec \<longrightarrow> dp_EnumString d ec \<notin> set (DisabledEffectClasses s))
           \<and> (\<forall>p. connectorForTool (rq_ToolId req) = Some p \<longrightarrow> ConnectorAllowed s p)))"
  by (auto simp: gate_org_def EffectClassDisabled_def list_ex_iff Let_def split: option.splits sum.splits)

lemma gate_capability_iff: "fst (gate_capability d ident req task tenant scope st) = Inr u \<longleftrightarrow> token_ok d req task tenant scope (NotBefore st)"
  by (auto simp: gate_capability_def token_ok_def cap_refusal_def Let_def split: option.splits sum.splits)

lemma gate_revocation_iff:
  "fst (gate_revocation d ident req task tenant) = Inr st
     \<longleftrightarrow> dp_RevOnBehalfOf d tenant (Subject (Task_OnBehalfOf task)) (Actor (Task_OnBehalfOf task)) = Inr st
        \<and> \<not> Blocked st \<and> AgentRefusal st = []"
  by (auto simp: gate_revocation_def Let_def split: sum.splits)

lemma gate_skills_iff: "fst (gate_skills d ident req task tenant) = Inr u \<longleftrightarrow> skills_ok d (rq_ToolId req) task tenant"
  by (auto simp: gate_skills_def gate_user_skill_def skills_ok_def Let_def)

lemma gate_mcp_iff: "fst (gate_mcp d ident req task tenant) = Inr u \<longleftrightarrow> mcp_ok d (rq_ToolId req) task tenant"
  by (auto simp: gate_mcp_def gate_mcp_user_def mcp_ok_def Let_def split: option.splits sum.splits)

lemma memoryGroupPreGate_iff: "fst (memoryGroupPreGate d ident req task) = Inr u \<longleftrightarrow> memory_ok d req task"
  by (auto simp: memoryGroupPreGate_def memory_ok_def Let_def split: option.splits sum.splits)

lemma gate_task_iff:
  "fst (gate_task d ident fail req db) = Inr (task, tenant)
     \<longleftrightarrow> dp_TasksWired d \<and> southTask fail ident (dp_TenantID d) (rq_TenantId req) (rq_TaskId req) db = Inr (task, tenant)"
  by (auto simp: gate_task_def split: sum.splits south_error.splits db_error.splits)

lemma southTask_no_fail:
  "southTask f ident dt rt tid db = Inr (task, tenant) \<longleftrightarrow> \<not> f \<and> tenant = TenantID task \<and> southTask False ident dt rt tid db = Inr (task, TenantID task)"
  by (auto simp: southTask_def Get_def split: sum.splits if_splits option.splits)

lemmas gate_iffs = gate_binding_iff gate_disabled_tools_iff gate_overlay_iff gate_org_iff gate_capability_iff
  gate_revocation_iff gate_skills_iff gate_mcp_iff memoryGroupPreGate_iff gate_task_iff

lemma invoke_gates_exact:
  "fst (invoke_gates d ident fail req db) = Inr (task, tenant)
     \<longleftrightarrow> \<not> fail \<and> tenant = TenantID task \<and> permitted d ident req db task" (is "?L \<longleftrightarrow> ?R")
proof -
  let ?tool = "rq_ToolId req"
  have peer: "fst (case x of Inl e \<Rightarrow> (Inl e, []) | Inr v \<Rightarrow> pass v) = Inr w \<longleftrightarrow> x = Inr w"
    for x :: "(rpc_error, unit) result" and w by (auto split: sum.splits)
  have reg: "fst (case x of None \<Rightarrow> refuse PermissionDenied ''unknown tool'' evs | Some sc \<Rightarrow> pass sc) = Inr scope \<longleftrightarrow> x = Some scope"
    for x :: "string option" and scope evs by (auto split: option.splits)
  have "?L \<longleftrightarrow> requireGatewayPeer (dp_GatewaySpiffeID d) (dp_DevMode d) ident = Inr ()
      \<and> (\<exists>scope. RequiredScope (dp_Registry d) ?tool = Some scope
           \<and> dp_TasksWired d \<and> southTask fail ident (dp_TenantID d) (rq_TenantId req) (rq_TaskId req) db = Inr (task, tenant)
           \<and> binding_ok req task \<and> switches_ok d ?tool tenant \<and> principals_ok d req task tenant scope
           \<and> skills_ok d ?tool task tenant \<and> mcp_ok d ?tool task tenant \<and> memory_ok d req task)"
    unfolding invoke_gates_def andThen_ok peer reg gate_iffs switches_ok_def principals_ok_def
    by (auto simp: andThen_ok gate_iffs)
  also have "\<dots> \<longleftrightarrow> ?R"
    unfolding permitted_def southTask_no_fail [of fail] by auto
  finally show ?thesis .
qed

text \<open>C5.  The gates of InvokeTool are exact: when the store can be read they let a call
  through if and only if it is permitted: the verified gateway calls, the task row exists in
  the tenant and is approved or executing with budget left, no claimed user or agent differs
  from the row's, no administrative switch is set, nobody concerned is blocked or revoked,
  the token grants the tool's scope for this task, the agent's and the user's own grants
  hold, and a group-scoped memory call is made by a member.\<close>

theorem gates_admit_exactly_permitted:
  "(\<exists>tenant. fst (invoke_gates d ident False req db) = Inr (task, tenant)) \<longleftrightarrow> permitted d ident req db task"
  by (simp add: invoke_gates_exact)

section \<open>The store under InvokeTool\<close>

text \<open>Store calls on one task, other than a new plan.\<close>

fun step_op :: "string \<Rightarrow> string \<Rightarrow> store_op \<Rightarrow> bool" where
  "step_op ten tid (OReserve a b _) = (a = ten \<and> b = tid)"
| "step_op ten tid (OIncrement a b _) = (a = ten \<and> b = tid)"
| "step_op ten tid (OClaim a b _ _ _) = (a = ten \<and> b = tid)"
| "step_op ten tid (OTransition a b _ to) = (a = ten \<and> b = tid \<and> to = TaskStateExecuting)"
| "step_op ten tid _ = False"

definition reaches :: "string \<Rightarrow> string \<Rightarrow> Db \<Rightarrow> Db \<Rightarrow> bool" where
  "reaches ten tid db db' = (\<exists>ops. list_all (step_op ten tid) ops \<and> db' = run ops db)"

lemma reaches_refl [simp]: "reaches ten tid db db"
  unfolding reaches_def by (intro exI [of _ "[]"]) simp

lemma reaches_trans: "reaches ten tid a b \<Longrightarrow> reaches ten tid b c \<Longrightarrow> reaches ten tid a c"
  unfolding reaches_def run_def by (metis foldl_append list_all_append)

lemma reaches_op: "step_op ten tid op \<Longrightarrow> db' = exec op db \<Longrightarrow> reaches ten tid db db'"
  unfolding reaches_def by (intro exI [of _ "[op]"]) simp

lemma reaches_increment: "reaches ten tid db (snd (IncrementCost f ten tid u db))"
  by (cases f) (auto simp: IncrementCost_def [of True] intro!: reaches_op [of _ _ "OIncrement ten tid u"])

lemma reaches_release: "reaches ten tid db (releaseCost f ten tid u db)"
  by (simp add: releaseCost_def reaches_increment)

lemma reaches_reserve: "ReserveCost f ten tid seq db = Inr (u, db') \<Longrightarrow> reaches ten tid db db'"
  by (cases f) (auto simp: ReserveCost_def [of True] intro!: reaches_op [of _ _ "OReserve ten tid seq"])

lemma reaches_claim: "reaches ten tid db (snd (ClaimPlanStep f ten tid seq tool hs db))"
  by (cases f) (auto simp: ClaimPlanStep_def [of True] intro!: reaches_op [of _ _ "OClaim ten tid seq tool hs"])

lemma reaches_transition: "reaches ten tid db (or_same db (Transition f ten tid a TaskStateExecuting db))"
  by (cases f) (auto simp: Transition_def [of True] intro!: reaches_op [of _ _ "OTransition ten tid a TaskStateExecuting"])

lemma matchPlanStep_db: "snd (matchPlanStep f ten req seq hs db) = snd (ClaimPlanStep f ten (rq_TaskId req) seq (rq_ToolId req) hs db)"
  by (auto simp: matchPlanStep_def split: prod.splits sum.splits db_error.splits)

lemma claimPlanStep_reaches:
  assumes "claimPlanStep d ft ten req db = (r, db')"
  shows "reaches ten (rq_TaskId req) db db'"
proof (cases "db' = db")
  case False
  from assms False obtain seq u db1 where
    r: "ReserveCost (if_reserve ft) ten (rq_TaskId req) seq db = Inr (u, db1)"
    and m: "db' = snd (matchPlanStep (if_claim ft) ten req seq (arg_hashes (dp_Sha256 d) (rq_Args req)) db1)
      \<or> db' = releaseCost (if_release ft) ten (rq_TaskId req) u
           (snd (matchPlanStep (if_claim ft) ten req seq (arg_hashes (dp_Sha256 d) (rq_Args req)) db1))"
    by (auto simp: claimPlanStep_def Let_def split: option.splits if_splits sum.splits db_error.splits prod.splits)
  let ?db2 = "snd (matchPlanStep (if_claim ft) ten req seq (arg_hashes (dp_Sha256 d) (rq_Args req)) db1)"
  have "reaches ten (rq_TaskId req) db ?db2"
    unfolding matchPlanStep_db using reaches_trans [OF reaches_reserve [OF r] reaches_claim] .
  then show ?thesis using m reaches_trans [OF _ reaches_release] by auto
qed simp

lemma settle_db:
  "snd (settle ft req task ten u res db) =
     (let delta = (if tr_Success res then tr_CostUnits res else 0) - u in
      if delta = 0 then db else snd (IncrementCost (if_settle ft) ten (rq_TaskId req) delta db))"
proof -
  have "snd (case r of (Inl ErrBudgetExceeded, db') \<Rightarrow> (x db', db') | (_, db') \<Rightarrow> (y db', db')) = snd r"
    for r :: "(db_error, unit) result \<times> Db" and x y :: "Db \<Rightarrow> AuditEvent list"
    by (cases r; cases "fst r") (auto split: db_error.splits)
  then show ?thesis by (simp add: settle_def Let_def)
qed

lemma settle_reaches: "reaches ten (rq_TaskId req) db (snd (settle ft req task ten u res db))"
  by (simp add: settle_db Let_def reaches_increment)

lemma dispatch_reaches:
  assumes "dispatch d ft req task ten proxy u s = (r, s')"
  shows "reaches ten (rq_TaskId req) (sb_db s) (sb_db s')"
proof -
  define db1 where "db1 = (if State task = TaskStateApproved
      then or_same (sb_db s) (Transition (if_transition ft) ten (rq_TaskId req) TaskStateApproved TaskStateExecuting (sb_db s)) else sb_db s)"
  have 1: "reaches ten (rq_TaskId req) (sb_db s) db1" using reaches_transition by (simp add: db1_def)
  show ?thesis
  proof (cases "proxy (proxy_request d req task ten)")
    case (Inl e)
    then have "sb_db s' = releaseCost (if_release ft) ten (rq_TaskId req) u db1"
      using assms by (auto simp: dispatch_def Let_def db1_def)
    then show ?thesis using reaches_trans [OF 1 reaches_release] by simp
  next
    case (Inr res)
    then have "sb_db s' = snd (settle ft req task ten u res db1)"
      using assms unfolding dispatch_def Let_def db1_def [symmetric] by (auto split: prod.splits)
    then show ?thesis using reaches_trans [OF 1 settle_reaches] by simp
  qed
qed

lemma invoke_claimed_reaches:
  assumes "invoke_claimed d ident ft req task ten s = (r, s')"
  shows "reaches ten (rq_TaskId req) (sb_db s) (sb_db s')"
  using assms
  by (auto simp: invoke_claimed_def split: option.splits prod.splits claim_result.splits
      dest!: claimPlanStep_reaches dispatch_reaches intro: reaches_trans)

text \<open>Every call is a run of store calls on its own task: whatever the store guarantees for
  all runs, it guarantees under InvokeTool.\<close>

lemma InvokeTool_reaches:
  assumes "InvokeTool d ident ft now req s = (r, s')"
  shows "sb_db s' = sb_db s \<or> (\<exists>task. tasks (sb_db s) (rq_TaskId req) = Some task
     \<and> reaches (TenantID task) (rq_TaskId req) (sb_db s) (sb_db s'))"
proof (cases "fst (invoke_gates d ident (if_get ft) req (sb_db s))")
  case (Inr p)
  obtain task tenant where p: "p = (task, tenant)" by (cases p)
  then have g: "tenant = TenantID task" "permitted d ident req (sb_db s) task"
    using Inr invoke_gates_exact by auto
  then have t: "tasks (sb_db s) (rq_TaskId req) = Some task" using southTask_Inr(1) by (auto simp: permitted_def)
  obtain evs where e: "invoke_gates d ident (if_get ft) req (sb_db s) = (Inr (task, tenant), evs)"
    using Inr p by (metis prod.collapse)
  show ?thesis using assms t g
    by (auto simp: InvokeTool_def e Let_def split: if_splits sum.splits prod.splits dest!: invoke_claimed_reaches)
next
  case (Inl e)
  then obtain evs where "invoke_gates d ident (if_get ft) req (sb_db s) = (Inl e, evs)" by (metis prod.collapse)
  then show ?thesis using assms by (auto simp: InvokeTool_def)
qed

section \<open>Side effects\<close>

lemma claimPlanStep_claimed:
  assumes "claimPlanStep d ft ten req db = (StepClaimed u, db')"
  obtains seq db1 where "ParseInt16 (TrimSpace (rq_StepId req)) = Some seq"
    "ReserveCost (if_reserve ft) ten (rq_TaskId req) seq db = Inr (u, db1)"
    "claim_won (fst (ClaimPlanStep (if_claim ft) ten (rq_TaskId req) seq (rq_ToolId req) (arg_hashes (dp_Sha256 d) (rq_Args req)) db1))"
    "db' = snd (ClaimPlanStep (if_claim ft) ten (rq_TaskId req) seq (rq_ToolId req) (arg_hashes (dp_Sha256 d) (rq_Args req)) db1)"
proof -
  let ?hs = "arg_hashes (dp_Sha256 d) (rq_Args req)"
  from assms obtain seq db1 where s: "ParseInt16 (TrimSpace (rq_StepId req)) = Some seq"
    "ReserveCost (if_reserve ft) ten (rq_TaskId req) seq db = Inr (u, db1)"
    "matchPlanStep (if_claim ft) ten req seq ?hs db1 = (Inr [], db')"
    by (auto simp: claimPlanStep_def Let_def split: option.splits if_splits sum.splits db_error.splits prod.splits)
  have "claim_won (fst (ClaimPlanStep (if_claim ft) ten (rq_TaskId req) seq (rq_ToolId req) ?hs db1))"
    using s(3) by (auto simp: matchPlanStep_def claim_won_def split: prod.splits sum.splits db_error.splits if_splits)
  with s show ?thesis using that matchPlanStep_db [of "if_claim ft" ten req seq ?hs db1] by simp
qed

lemma ClaimPlanStep_lost:
  "\<not> claim_won (fst (ClaimPlanStep f ten tid seq tool hs db)) \<Longrightarrow> snd (ClaimPlanStep f ten tid seq tool hs db) = db"
  by (auto simp: ClaimPlanStep_def claim_won_def Let_def split: option.splits if_splits)

lemma reserve_release:
  assumes "ReserveCost f ten tid seq db = Inr (u, db1)"
  shows "releaseCost False ten tid u db1 = db"
proof -
  obtain t where t: "visible_task db ten tid = Some t" "db1 = db\<lparr>tasks := (tasks db)(tid \<mapsto> t\<lparr>CostConsumed := CostConsumed t + u\<rparr>)\<rparr>"
    using assms by (auto simp: ReserveCost_def Let_def split: if_splits option.splits)
  then have "visible_task db1 ten tid = Some (t\<lparr>CostConsumed := CostConsumed t + u\<rparr>)"
    using visible_task_SomeD [OF t(1)] by (simp add: visible_task_def)
  then have "releaseCost False ten tid u db1 = db1\<lparr>tasks := (tasks db1)(tid \<mapsto> t)\<rparr>"
    by (simp add: releaseCost_def IncrementCost_def Let_def)
  also have "\<dots> = db" using t visible_task_SomeD [OF t(1)] by (simp add: fun_upd_idem)
  finally show ?thesis .
qed

lemma claimPlanStep_refused:
  assumes "claimPlanStep d ft ten req db = (r, db')" "\<And>u. r \<noteq> StepClaimed u" "\<not> if_release ft"
  shows "db' = db"
proof (cases "db' = db")
  case False
  let ?hs = "arg_hashes (dp_Sha256 d) (rq_Args req)"
  from assms(1,2) False obtain seq u db1 m db2 where
    r: "ReserveCost (if_reserve ft) ten (rq_TaskId req) seq db = Inr (u, db1)"
    "matchPlanStep (if_claim ft) ten req seq ?hs db1 = (m, db2)" "m \<noteq> Inr []"
    "db' = releaseCost (if_release ft) ten (rq_TaskId req) u db2"
    by (auto simp: claimPlanStep_def Let_def split: option.splits if_splits sum.splits db_error.splits prod.splits)
  have "\<not> claim_won (fst (ClaimPlanStep (if_claim ft) ten (rq_TaskId req) seq (rq_ToolId req) ?hs db1))"
    using r(2,3) by (auto simp: matchPlanStep_def claim_won_def split: prod.splits sum.splits db_error.splits if_splits)
  then have "db2 = db1" using ClaimPlanStep_lost matchPlanStep_db r(2) by (metis snd_conv)
  then show ?thesis using r(1,4) reserve_release assms(3) by simp
qed simp

lemma dispatch_calls: "sb_calls (snd (dispatch d ft req task ten proxy u s)) = sb_calls s @ [proxy_request d req task ten]"
  by (auto simp: dispatch_def Let_def split: sum.splits prod.splits)

lemma reaches_spent:
  assumes "reaches ten' tid' db db'" "spent ten tid seq db"
  shows "spent ten tid seq db'"
proof -
  have "list_all (step_op ten' tid') ops \<Longrightarrow> spent ten tid seq d \<Longrightarrow> spent ten tid seq (run ops d)" for ops d
  proof (induction ops arbitrary: d)
    case (Cons op ops)
    then have "\<forall>a b c e. op \<noteq> OInsert a b c e" by auto
    then show ?case using Cons exec_spent by simp
  qed simp
  then show ?thesis using assms by (auto simp: reaches_def)
qed

text \<open>The three ways a call can go.\<close>

lemma invoke_claimed_cases:
  assumes "invoke_claimed d ident ft req task ten s = (r, s')"
  shows "(sb_db s' = sb_db s \<and> sb_calls s' = sb_calls s)
    \<or> (\<exists>c. claimPlanStep d ft ten req (sb_db s) = (c, sb_db s') \<and> (\<forall>u. c \<noteq> StepClaimed u) \<and> sb_calls s' = sb_calls s)
    \<or> (\<exists>proxy u db1. dp_ToolProxy d = Some proxy \<and> claimPlanStep d ft ten req (sb_db s) = (StepClaimed u, db1)
         \<and> dispatch d ft req task ten proxy u (s\<lparr>sb_db := db1\<rparr>) = (r, s'))"
  using assms by (auto simp: invoke_claimed_def split: option.splits prod.splits claim_result.splits)

lemma InvokeTool_cases:
  assumes "InvokeTool d ident ft now req s = (r, s')"
  shows "(sb_db s' = sb_db s \<and> sb_calls s' = sb_calls s)
    \<or> (\<exists>task s0. permitted d ident req (sb_db s) task \<and> sb_db s0 = sb_db s \<and> sb_calls s0 = sb_calls s
         \<and> invoke_claimed d ident ft req task (TenantID task) s0 = (r, s'))"
proof (cases "fst (invoke_gates d ident (if_get ft) req (sb_db s))")
  case (Inr p)
  obtain task tenant where p: "p = (task, tenant)" by (cases p)
  then have g: "tenant = TenantID task" "permitted d ident req (sb_db s) task"
    using Inr invoke_gates_exact by auto
  obtain evs where e: "invoke_gates d ident (if_get ft) req (sb_db s) = (Inr (task, TenantID task), evs)"
    using Inr p g(1) by (metis prod.collapse)
  let ?s1 = "s\<lparr>sb_audit := sb_audit s @ evs\<rparr>"
  have "(sb_db s' = sb_db s \<and> sb_calls s' = sb_calls s)
      \<or> invoke_claimed d ident ft req task (TenantID task) ?s1 = (r, s')
      \<or> (\<exists>l. invoke_claimed d ident ft req task (TenantID task) (?s1\<lparr>sb_limiter := l\<rparr>) = (r, s'))"
    using assms by (auto simp: InvokeTool_def e Let_def split: if_splits sum.splits prod.splits)
  then show ?thesis using g(2) by force
next
  case (Inl e)
  then obtain evs where "invoke_gates d ident (if_get ft) req (sb_db s) = (Inl e, evs)" by (metis prod.collapse)
  then show ?thesis using assms by (auto simp: InvokeTool_def)
qed

lemma InvokeTool_dispatched:
  assumes "InvokeTool d ident ft now req s = (r, s')" "sb_calls s' \<noteq> sb_calls s"
  shows "\<exists>task proxy u s1. permitted d ident req (sb_db s) task \<and> dp_ToolProxy d = Some proxy
    \<and> claimPlanStep d ft (TenantID task) req (sb_db s) = (StepClaimed u, sb_db s1) \<and> sb_calls s1 = sb_calls s
    \<and> dispatch d ft req task (TenantID task) proxy u s1 = (r, s')"
proof -
  from InvokeTool_cases [OF assms(1)] assms(2) obtain task s0 where t: "permitted d ident req (sb_db s) task"
    "sb_db s0 = sb_db s" "sb_calls s0 = sb_calls s" "invoke_claimed d ident ft req task (TenantID task) s0 = (r, s')" by auto
  from invoke_claimed_cases [OF t(4)] t(2,3) assms(2) obtain proxy u db1 where
    c: "dp_ToolProxy d = Some proxy" "claimPlanStep d ft (TenantID task) req (sb_db s) = (StepClaimed u, db1)"
    "dispatch d ft req task (TenantID task) proxy u (s0\<lparr>sb_db := db1\<rparr>) = (r, s')" by auto
  then show ?thesis using t(1,3) by (intro exI [of _ task] exI [of _ proxy] exI [of _ u] exI [of _ "s0\<lparr>sb_db := db1\<rparr>"]) simp
qed

lemma side_effect_facts:
  assumes "InvokeTool d ident ft now req s = (r, s')" "sb_calls s' \<noteq> sb_calls s"
  shows "\<exists>task seq. permitted d ident req (sb_db s) task
    \<and> sb_calls s' = sb_calls s @ [proxy_request d req task (TenantID task)]
    \<and> ParseInt16 (TrimSpace (rq_StepId req)) = Some seq
    \<and> (\<exists>row \<in> set (plan_steps (sb_db s)). step_at (TenantID task) (rq_TaskId req) seq row
         \<and> claimable (rq_ToolId req) (arg_hashes (dp_Sha256 d) (rq_Args req)) row)
    \<and> spent (TenantID task) (rq_TaskId req) seq (sb_db s')"
proof -
  from InvokeTool_dispatched [OF assms] obtain task proxy u s1 where
    h: "permitted d ident req (sb_db s) task" "claimPlanStep d ft (TenantID task) req (sb_db s) = (StepClaimed u, sb_db s1)"
    "sb_db s1 = sb_db s1" "sb_calls s1 = sb_calls s" "dispatch d ft req task (TenantID task) proxy u s1 = (r, s')" by auto
  from h(2) show ?thesis
  proof (rule claimPlanStep_claimed)
    fix seq db0
    assume c: "ParseInt16 (TrimSpace (rq_StepId req)) = Some seq"
      "ReserveCost (if_reserve ft) (TenantID task) (rq_TaskId req) seq (sb_db s) = Inr (u, db0)"
      "claim_won (fst (ClaimPlanStep (if_claim ft) (TenantID task) (rq_TaskId req) seq (rq_ToolId req)
         (arg_hashes (dp_Sha256 d) (rq_Args req)) db0))"
      "sb_db s1 = snd (ClaimPlanStep (if_claim ft) (TenantID task) (rq_TaskId req) seq (rq_ToolId req)
         (arg_hashes (dp_Sha256 d) (rq_Args req)) db0)"
    have "plan_steps db0 = plan_steps (sb_db s)" using c(2) by (rule ops_plan_steps(3))
    moreover have "spent (TenantID task) (rq_TaskId req) seq (sb_db s')"
      using reaches_spent [OF dispatch_reaches [OF h(5)]] ClaimPlanStep_won(2) [OF c(3)] c(4) h(3) by simp
    moreover have "sb_calls s' = sb_calls s @ [proxy_request d req task (TenantID task)]"
      using dispatch_calls [of d ft req task "TenantID task" proxy u s1] h(4,5) by simp
    ultimately show ?thesis using h(1) c(1) ClaimPlanStep_won(1) [OF c(3)] by auto
  qed
qed

text \<open>C2.  Complete mediation: a request reaches the tool proxy only through a permitted
  call, in the name of the task row (its tenant, owner, agent and on-behalf-of chain), and
  only for a stored plan step of that task with the same tool and the same argument hash that
  policy did not deny and no call has used; afterwards that step is used up.\<close>

theorem side_effect_mediated:
  assumes "InvokeTool d ident ft now req s = (r, s')" "sb_calls s' \<noteq> sb_calls s"
  shows "\<exists>task seq. permitted d ident req (sb_db s) task
    \<and> sb_calls s' = sb_calls s @ [proxy_request d req task (TenantID task)]
    \<and> ParseInt16 (TrimSpace (rq_StepId req)) = Some seq
    \<and> (\<exists>row \<in> set (plan_steps (sb_db s)). step_at (TenantID task) (rq_TaskId req) seq row
         \<and> claimable (rq_ToolId req) (arg_hashes (dp_Sha256 d) (rq_Args req)) row)
    \<and> spent (TenantID task) (rq_TaskId req) seq (sb_db s')"
  by (rule side_effect_facts [OF assms])


definition ex_deps :: Deps where
  "ex_deps = \<lparr>dp_DevMode = False, dp_GatewaySpiffeID = ''spiffe://gw'', dp_TenantID = ''acme'', dp_TasksWired = True,
     dp_Registry = \<lparr>baseline = [''slack.post'' \<mapsto> ''slack:write''], baselineEffectClass = [''slack.post'' \<mapsto> WRITE_EXTERNAL],
       overlay = Map.empty, tenantOverlay = None\<rparr>,
     dp_EnumString = (\<lambda>_. ''WRITE_EXTERNAL''), dp_Cfg = (\<lambda>_ _. Inr []), dp_CfgInt = (\<lambda>_ _. Inr 1), dp_Policy = None,
     dp_DecidePlan = (\<lambda>_ _ _. Inr \<lparr>pd_Allow = True, pd_Violations = []\<rparr>),
     dp_DecideToolCall = (\<lambda>_. Inr None), dp_ACL = None, dp_UrlHostname = (\<lambda>_. None), dp_Agents = None,
     dp_OverlayLoader = None, dp_OrgSettings = None, dp_RevOnBehalfOf = (\<lambda>_ _ _. Inr zero_State),
     dp_RevAgent = (\<lambda>_ _. Inr zero_State), dp_Mint = None, dp_Authorize = Some (\<lambda>raw scope _ _ _. if raw = scope then None else Some ErrDenied),
     dp_RateLimiter = True,
     dp_ToolProxy = Some (\<lambda>_. Inr \<lparr>tr_Success = True, tr_Error = [], tr_CostUnits = 2, tr_Flagged = False, tr_Encodes = True\<rparr>),
     dp_Sha256 = (\<lambda>s. s)\<rparr>"

definition ex_gateway :: Identity where
  "ex_gateway = \<lparr>id_Subject = [], id_Email = [], id_TenantID = [], id_SpiffeID = ''spiffe://gw'', id_ACR = [], id_ACRS = [], id_AMR = [], id_AuthTime = None\<rparr>"

definition ex_args :: json where
  "ex_args = JObj [(''text'', JStr ''hi'')]"

definition ex_req :: InvokeReq where
  "ex_req = \<lparr>rq_TaskId = ''t1'', rq_TenantId = [], rq_UserId = [], rq_AgentId = [], rq_ToolId = ''slack.post'', rq_StepId = ''1'',
     rq_Args = Some ex_args, rq_CapabilityToken = std_encode ''slack:write''\<rparr>"

definition ex_faults :: InvokeFaults where
  "ex_faults = \<lparr>if_get = False, if_reserve = False, if_claim = False, if_release = False, if_transition = False, if_settle = False\<rparr>"

definition ex_state :: SbState where
  "ex_state = \<lparr>sb_db = empty_Db\<lparr>tasks := [''t1'' \<mapsto> example_task\<lparr>State := TaskStateApproved\<rparr>],
       plan_steps := [example_args_step\<lparr>ps_ArgsHash := json_Marshal ex_args, ps_PolicyDecision := PolicyAllow\<rparr>]\<rparr>,
     sb_limiter = New_Limiter, sb_audit = [], sb_calls = []\<rparr>"

lemma ex_dispatched: "sb_calls (snd (InvokeTool ex_deps (Some ex_gateway) ex_faults 0 ex_req ex_state)) \<noteq> sb_calls ex_state"
  by code_simp

theorem side_effect_mediated_witness:
  "\<exists>task. permitted ex_deps (Some ex_gateway) ex_req (sb_db ex_state) task"
  using side_effect_mediated [OF prod.collapse [symmetric] ex_dispatched] by blast


section \<open>Costs\<close>

lemma IncrementCost_task:
  assumes "visible_task db ten tid = Some t"
  shows "visible_task (snd (IncrementCost False ten tid u db)) ten tid = Some (t\<lparr>CostConsumed := CostConsumed t + u\<rparr>)"
  using visible_task_SomeD [OF assms] assms by (simp add: IncrementCost_def Let_def visible_task_def)

lemma ClaimPlanStep_tasks: "tasks (snd (ClaimPlanStep f ten tid seq tool hs db)) = tasks db"
  by (simp add: ClaimPlanStep_def Let_def split: option.splits)

lemma Transition_task:
  assumes "visible_task db ten tid = Some t"
  shows "\<exists>t'. visible_task (or_same db (Transition f ten tid a b db)) ten tid = Some t' \<and> CostConsumed t' = CostConsumed t \<and> CostBudget t' = CostBudget t"
  using visible_task_SomeD [OF assms] assms
  by (cases "Transition f ten tid a b db") (auto simp: Transition_def transitionExec_def visible_task_def split: if_splits option.splits)

lemma settle_task:
  assumes "visible_task db ten (rq_TaskId req) = Some t" "\<not> if_settle ft"
  shows "\<exists>t'. visible_task (snd (settle ft req task ten u res db)) ten (rq_TaskId req) = Some t'
    \<and> CostConsumed t' = CostConsumed t + (if tr_Success res then tr_CostUnits res else 0) - u"
  using IncrementCost_task [OF assms(1)] assms by (simp add: settle_db Let_def)

lemma release_task:
  assumes "visible_task db ten tid = Some t" "\<not> f"
  shows "\<exists>t'. visible_task (releaseCost f ten tid u db) ten tid = Some t' \<and> CostConsumed t' = CostConsumed t - u"
  using IncrementCost_task [OF assms(1), of "- u"] assms(2) by (simp add: releaseCost_def)

text \<open>What the proxy's answer costs: a failed call is free.\<close>

definition charged :: "(unit, ToolResult) result \<Rightarrow> int" where
  "charged r = (case r of Inl _ \<Rightarrow> 0 | Inr res \<Rightarrow> if tr_Success res then tr_CostUnits res else 0)"

lemma dispatch_task:
  assumes "dispatch d ft req task ten proxy u s = (r, s')" "\<not> if_release ft" "\<not> if_settle ft"
    and "visible_task (sb_db s) ten (rq_TaskId req) = Some t"
  shows "\<exists>t'. visible_task (sb_db s') ten (rq_TaskId req) = Some t'
    \<and> CostConsumed t' = CostConsumed t - u + charged (proxy (proxy_request d req task ten))"
proof -
  define db1 where "db1 = (if State task = TaskStateApproved
      then or_same (sb_db s) (Transition (if_transition ft) ten (rq_TaskId req) TaskStateApproved TaskStateExecuting (sb_db s)) else sb_db s)"
  have "\<exists>t1. visible_task db1 ten (rq_TaskId req) = Some t1 \<and> CostConsumed t1 = CostConsumed t"
    using Transition_task [OF assms(4), of "if_transition ft" TaskStateApproved TaskStateExecuting] assms(4)
    by (auto simp: db1_def)
  then obtain t1 where t1: "visible_task db1 ten (rq_TaskId req) = Some t1" "CostConsumed t1 = CostConsumed t" by blast
  show ?thesis
  proof (cases "proxy (proxy_request d req task ten)")
    case (Inl e)
    then have "sb_db s' = releaseCost (if_release ft) ten (rq_TaskId req) u db1"
      using assms(1) by (auto simp: dispatch_def Let_def db1_def)
    then show ?thesis using release_task [OF t1(1) assms(2), of u] t1(2) Inl by (auto simp: charged_def)
  next
    case (Inr res)
    then have "sb_db s' = snd (settle ft req task ten u res db1)"
      using assms(1) unfolding dispatch_def Let_def db1_def [symmetric] by (auto split: prod.splits)
    then show ?thesis using settle_task [OF t1(1) assms(3), of task u res] t1(2) Inr by (auto simp: charged_def)
  qed
qed

text \<open>The cost ledger is exact: when the store's bookkeeping calls succeed, a call that
  ran adds to the task's consumed cost precisely what the tool reported when it succeeded, and
  nothing when it failed, whatever was reserved for it.\<close>

theorem cost_settled_exactly:
  assumes "InvokeTool d ident ft now req s = (r, s')" "sb_calls s' = sb_calls s @ [px]"
    and "\<not> if_release ft" "\<not> if_settle ft"
  shows "\<exists>task task' proxy. tasks (sb_db s) (rq_TaskId req) = Some task \<and> tasks (sb_db s') (rq_TaskId req) = Some task'
    \<and> dp_ToolProxy d = Some proxy \<and> CostConsumed task' = CostConsumed task + charged (proxy px)"
proof -
  from assms(2) have "sb_calls s' \<noteq> sb_calls s" by simp
  from InvokeTool_dispatched [OF assms(1) this] obtain task proxy u s1 where
    h: "permitted d ident req (sb_db s) task" "dp_ToolProxy d = Some proxy"
    "claimPlanStep d ft (TenantID task) req (sb_db s) = (StepClaimed u, sb_db s1)" "sb_calls s1 = sb_calls s"
    "dispatch d ft req task (TenantID task) proxy u s1 = (r, s')" by blast
  have px: "px = proxy_request d req task (TenantID task)"
    using dispatch_calls [of d ft req task "TenantID task" proxy u s1] h(4,5) assms(2) by simp
  have t: "tasks (sb_db s) (rq_TaskId req) = Some task" "visible_task (sb_db s) (TenantID task) (rq_TaskId req) = Some task"
    using h(1) southTask_Inr(1,3) by (auto simp: permitted_def)
  from h(3) show ?thesis
  proof (rule claimPlanStep_claimed)
    fix seq db0
    assume c: "ReserveCost (if_reserve ft) (TenantID task) (rq_TaskId req) seq (sb_db s) = Inr (u, db0)"
      "sb_db s1 = snd (ClaimPlanStep (if_claim ft) (TenantID task) (rq_TaskId req) seq (rq_ToolId req)
         (arg_hashes (dp_Sha256 d) (rq_Args req)) db0)"
    have "visible_task (sb_db s1) (TenantID task) (rq_TaskId req) = Some (task\<lparr>CostConsumed := CostConsumed task + u\<rparr>)"
      using c t by (auto simp: visible_task_def ClaimPlanStep_tasks ReserveCost_def Let_def split: if_splits)
    from dispatch_task [OF h(5) assms(3,4) this] show ?thesis
      using t(1) h(2) px by (auto dest!: visible_task_SomeD)
  qed
qed

theorem cost_settled_exactly_witness:
  "\<exists>task'. tasks (sb_db (snd (InvokeTool ex_deps (Some ex_gateway) ex_faults 0 ex_req ex_state))) ''t1'' = Some task' \<and> CostConsumed task' = 2"
proof -
  obtain px where px: "sb_calls (snd (InvokeTool ex_deps (Some ex_gateway) ex_faults 0 ex_req ex_state)) = sb_calls ex_state @ [px]"
    using InvokeTool_dispatched [OF prod.collapse [symmetric] ex_dispatched] dispatch_calls by (metis snd_conv)
  from cost_settled_exactly [OF prod.collapse [symmetric] px] show ?thesis
    by (auto simp: ex_faults_def ex_deps_def ex_state_def ex_req_def charged_def example_task_def)
qed

section \<open>Calls in sequence\<close>

text \<open>Calls of InvokeTool, each with its own dependencies' answers, between other store calls.\<close>

datatype sb_step = SbInvoke Deps "Identity option" InvokeFaults int InvokeReq | SbStore store_op

fun sb_exec :: "sb_step \<Rightarrow> SbState \<Rightarrow> SbState" where
  "sb_exec (SbInvoke d ident ft now req) s = snd (InvokeTool d ident ft now req s)"
| "sb_exec (SbStore op) s = s\<lparr>sb_db := exec op (sb_db s)\<rparr>"

text \<open>Whether the step makes a side effect in the name of the plan step (task, seq).\<close>

fun fires :: "string \<Rightarrow> string \<Rightarrow> int \<Rightarrow> sb_step \<Rightarrow> SbState \<Rightarrow> bool" where
  "fires ten tid seq (SbInvoke d ident ft now req) s =
     (rq_TaskId req = tid \<and> ParseInt16 (TrimSpace (rq_StepId req)) = Some seq
      \<and> (\<exists>px. sb_calls (snd (InvokeTool d ident ft now req s)) = sb_calls s @ [px] \<and> px_TenantID px = ten))"
| "fires ten tid seq (SbStore op) s = False"

fun fired :: "string \<Rightarrow> string \<Rightarrow> int \<Rightarrow> sb_step list \<Rightarrow> SbState \<Rightarrow> nat" where
  "fired ten tid seq [] s = 0"
| "fired ten tid seq (x # xs) s = (if fires ten tid seq x s then 1 else 0) + fired ten tid seq xs (sb_exec x s)"

lemma fires_row:
  assumes "fires ten tid seq x s"
  shows "\<not> spent ten tid seq (sb_db s)" "spent ten tid seq (sb_db (sb_exec x s))"
proof -
  obtain d ident ft now req where x: "x = SbInvoke d ident ft now req" using assms by (cases x) auto
  obtain px where p: "rq_TaskId req = tid" "ParseInt16 (TrimSpace (rq_StepId req)) = Some seq"
    "sb_calls (snd (InvokeTool d ident ft now req s)) = sb_calls s @ [px]" "px_TenantID px = ten"
    using assms x by auto
  have "sb_calls (snd (InvokeTool d ident ft now req s)) \<noteq> sb_calls s" using p(3) by simp
  from side_effect_facts [OF prod.collapse [symmetric] this] p show "\<not> spent ten tid seq (sb_db s)" "spent ten tid seq (sb_db (sb_exec x s))"
    by (auto simp: x proxy_request_def spent_def claimable_def)
qed

lemma sb_exec_spent:
  assumes "spent ten tid seq (sb_db s)" "\<forall>a b c d. x \<noteq> SbStore (OInsert a b c d)"
  shows "spent ten tid seq (sb_db (sb_exec x s))"
proof (cases x)
  case (SbInvoke d ident ft now req)
  then show ?thesis
    using InvokeTool_reaches [OF prod.collapse [symmetric], of d ident ft now req s] assms(1) reaches_spent by fastforce
next
  case (SbStore op)
  then show ?thesis using assms exec_spent by auto
qed

lemma spent_not_fired:
  assumes "spent ten tid seq (sb_db s)" "\<forall>x \<in> set xs. \<forall>a b c d. x \<noteq> SbStore (OInsert a b c d)"
  shows "fired ten tid seq xs s = 0"
  using assms
proof (induction xs arbitrary: s)
  case (Cons x xs)
  have "\<not> fires ten tid seq x s" using fires_row(1) Cons.prems(1) by blast
  then show ?case using Cons sb_exec_spent by simp
qed simp

text \<open>C4.  One side effect per approved step: however InvokeTool calls (with any requests,
  tokens and failures) follow each other and other store calls, until a new plan is stored at
  most one of them makes a side effect in the name of a given plan step.\<close>

theorem one_side_effect_per_step:
  assumes "\<forall>x \<in> set xs. \<forall>a b c d. x \<noteq> SbStore (OInsert a b c d)"
  shows "fired ten tid seq xs s \<le> 1"
  using assms
proof (induction xs arbitrary: s)
  case (Cons x xs)
  show ?case
  proof (cases "fires ten tid seq x s")
    case True
    then have "fired ten tid seq xs (sb_exec x s) = 0" using fires_row(2) spent_not_fired Cons.prems by simp
    then show ?thesis by simp
  next
    case False
    then show ?thesis using Cons by simp
  qed
qed simp

theorem one_side_effect_per_step_witness:
  "fired ''acme'' ''t1'' 1 [SbInvoke ex_deps (Some ex_gateway) ex_faults 0 ex_req,
     SbStore (OTransition ''acme'' ''t1'' TaskStateExecuting TaskStatePlanning), SbInvoke ex_deps (Some ex_gateway) ex_faults 0 ex_req] ex_state \<le> 1"
  by (rule one_side_effect_per_step) simp

section \<open>EmitStatus\<close>

text \<open>EmitStatus lets the gateway report progress and nothing else: a report that is
  accepted moves the task along an edge of the state machine, to planning, validating,
  executing, completed or failed, never to a state that stands for a decision; every other
  report changes nothing.\<close>

theorem EmitStatus_never_decides:
  "case EmitStatus d ident f g rt tid st db of
     (Inl e, db') \<Rightarrow> db' = db
   | (Inr _, db') \<Rightarrow> \<exists>t to. tasks db tid = Some t \<and> isValidTransition (State t) to
       \<and> to \<in> {TaskStatePlanning, TaskStateValidating, TaskStateExecuting, TaskStateCompleted, TaskStateFailed}
       \<and> db' = db\<lparr>tasks := (tasks db)(tid \<mapsto> t\<lparr>State := to\<rparr>)\<rparr>"
proof (cases "EmitStatus d ident f g rt tid st db")
  case (Pair r db')
  show ?thesis
  proof (cases r)
    case (Inl e)
    then show ?thesis using Pair
      by (auto simp: EmitStatus_def split: sum.splits option.splits south_error.splits db_error.splits prod.splits)
  next
    case (Inr u)
    then obtain to t tenant where e: "protoStatusToDBState st = Some to"
      "southTask f ident (dp_TenantID d) rt tid db = Inr (t, tenant)" "Transition g tenant tid (State t) to db = Inr db'"
      using Pair by (auto simp: EmitStatus_def split: sum.splits option.splits south_error.splits db_error.splits prod.splits)
    have "to \<in> {TaskStatePlanning, TaskStateValidating, TaskStateExecuting, TaskStateCompleted, TaskStateFailed}"
      using e(1) by (cases st) auto
    moreover have "tasks db tid = Some t" using southTask_Inr(1) [OF e(2)] .
    moreover have "isValidTransition (State t) to" "db' = db\<lparr>tasks := (tasks db)(tid \<mapsto> t\<lparr>State := to\<rparr>)\<rparr>"
      using e(3) southTask_Inr [OF e(2)]
      by (auto simp: Transition_def transitionExec_def split: if_splits option.splits)
    ultimately show ?thesis using Pair Inr by auto
  qed
qed

end
