(* ===== verification/SubmitSafety.thy ===== *)
theory SubmitSafety
  imports SubmitPlan InvokeSafety
begin

text \<open>
  What SubmitPlan guarantees: a plan is approved only when every boundary, the whole-plan
  policy and the routing of every step allow it; a plan that needs a human ends in a pending
  gate planned for it; a denied plan ends its task.
\<close>

section \<open>How a submission can go\<close>

lemma submit_prechecks_ok:
  assumes "fst (submit_prechecks d ident f req db) = Inr (plan, task, peer)"
  shows "sr_Plan req = Some plan \<and> tasks db (sr_TaskId req) = Some task
    \<and> visible_task db (TenantID task) (sr_TaskId req) = Some task
    \<and> requireGatewayPeer (dp_GatewaySpiffeID d) (dp_DevMode d) ident = Inr ()
    \<and> southPeer (dp_DevMode d) ident (sr_SandboxSpiffeId req) = Inr peer
    \<and> length (pl_Steps plan) \<le> maxPlanSteps \<and> (\<forall>s \<in> set (pl_Steps plan). 0 \<le> st_EstimatedCost s)
    \<and> (\<forall>aid. AgentID task = Some aid \<longrightarrow> agentRunRefusal d (TenantID task) aid = Inr [])"
proof -
  from assms obtain t' where g: "sr_Plan req = Some plan" "southTask f ident (dp_TenantID d) (pl_TenantId plan) (sr_TaskId req) db = Inr (task, t')"
    "requireGatewayPeer (dp_GatewaySpiffeID d) (dp_DevMode d) ident = Inr ()"
    "southPeer (dp_DevMode d) ident (sr_SandboxSpiffeId req) = Inr peer"
    "fst (plan_size_ok (sr_TaskId req) task plan) = Inr ()" "fst (agent_may_plan d (sr_TaskId req) task) = Inr ()"
    by (auto simp: submit_prechecks_def andThen_ok submit_task_def split: sum.splits option.splits south_error.splits db_error.splits)
  have "length (pl_Steps plan) \<le> maxPlanSteps \<and> (\<forall>s \<in> set (pl_Steps plan). 0 \<le> st_EstimatedCost s)"
    using g(5) by (auto simp: plan_size_ok_def list_ex_iff not_less split: if_splits)
  moreover have "\<forall>aid. AgentID task = Some aid \<longrightarrow> agentRunRefusal d (TenantID task) aid = Inr []"
    using g(6) by (auto simp: agent_may_plan_def split: option.splits sum.splits if_splits)
  ultimately show ?thesis using g southTask_Inr [OF g(2)] by simp
qed

text \<open>The routing input SubmitPlan builds for a step.\<close>

definition step_input :: "Deps \<Rightarrow> Task \<Rightarrow> string \<Rightarrow> PlanStep \<Rightarrow> routeStepInput" where
  "step_input d task spiffe step = step_route_input d task spiffe step
     (fst (step_fga d task (agent_bound d task (TenantID task)) (userBoundExemption d (TenantID task) task) (st_ToolId step)))"

text \<open>A submission whose steps were decided and stored.\<close>

definition decided :: "Deps \<Rightarrow> Identity option \<Rightarrow> SubmitReq \<Rightarrow> Db \<Rightarrow> PlanMsg \<Rightarrow> Task \<Rightarrow> string \<Rightarrow> StepOutcome list \<Rightarrow> bool" where
  "decided d ident req db plan task spiffe os =
     (sr_Plan req = Some plan \<and> tasks db (sr_TaskId req) = Some task
      \<and> southPeer (dp_DevMode d) ident (sr_SandboxSpiffeId req) = Inr spiffe
      \<and> length (pl_Steps plan) \<le> maxPlanSteps
      \<and> plan_boundary d task plan (agent_bound d task (TenantID task)) = None
      \<and> (\<exists>dec. dp_DecidePlan d plan (CostBudget task) spiffe = Inr dec \<and> pd_Allow dec)
      \<and> fst (decide_steps d ident task (sr_TaskId req) spiffe (agent_bound d task (TenantID task))
           (userBoundExemption d (TenantID task) task) (pl_Steps plan)) = Inr os)"

lemma advance_Inr:
  assumes "advanceToValidating f g (TenantID t) tid t db = (Inr u, db1)" "visible_task db (TenantID t) tid = Some t"
  shows "db1 = db\<lparr>tasks := (tasks db)(tid \<mapsto> t\<lparr>State := TaskStateValidating\<rparr>)\<rparr>"
proof -
  have t: "tasks db tid = Some t" using visible_task_SomeD [OF assms(2)] by simp
  show ?thesis
  proof (cases "State t = TaskStateValidating")
    case True
    then have "db1 = db" "t\<lparr>State := TaskStateValidating\<rparr> = t" using assms by (simp_all add: advanceToValidating_def)
    then show ?thesis using t by (simp add: fun_upd_idem)
  next
    case False
    then show ?thesis using assms t
      by (auto simp: advanceToValidating_def Transition_def transitionExec_def visible_task_def
          split: if_splits option.splits sum.splits)
  qed
qed

lemma submit_steps_Inr:
  assumes "submit_steps d ident ft now nid plan task tid spiffe ab viol db = (Inr v, evs, db')"
  shows "\<exists>os og evs'. fst (decide_steps d ident task tid spiffe ab (userBoundExemption d (TenantID task) task) (pl_Steps plan)) = Inr os
    \<and> fst (plan_gate d task tid plan (plan_outcome os)) = Inr og
    \<and> store_plan d ft now nid task tid spiffe plan viol os og db = (Inr v, evs', db')"
  using assms by (auto simp: submit_steps_def split: if_splits prod.splits sum.splits)

lemma SubmitPlan_Inr:
  assumes "SubmitPlan d ident ft now nid req db = (Inr v, evs, db')"
  shows "\<exists>plan task spiffe db1. sr_Plan req = Some plan \<and> visible_task db (TenantID task) (sr_TaskId req) = Some task
    \<and> db1 = db\<lparr>tasks := (tasks db)(sr_TaskId req \<mapsto> task\<lparr>State := TaskStateValidating\<rparr>)\<rparr>
    \<and> ((\<exists>viol. (v, db') = denied_plan ft task (sr_TaskId req) plan viol db1)
       \<or> (\<exists>os og viol evs'. decided d ident req db plan task spiffe os
            \<and> fst (plan_gate d task (sr_TaskId req) plan (plan_outcome os)) = Inr og
            \<and> store_plan d ft now nid task (sr_TaskId req) spiffe plan viol os og db1 = (Inr v, evs', db')))"
proof -
  from assms obtain plan task spiffe e1 db1 e2 where
    p: "submit_prechecks d ident (sf_get ft) req db = (Inr (plan, task, spiffe), e1)"
    and a: "advanceToValidating (sf_planning ft) (sf_validating ft) (TenantID task) (sr_TaskId req) task db = (Inr (), db1)"
    and s: "submit_validated d ident ft now nid plan task (sr_TaskId req) spiffe db1 = (Inr v, e2, db')"
    by (auto simp: SubmitPlan_def split: prod.splits sum.splits)
  from submit_prechecks_ok [of d ident "sf_get ft" req db plan task spiffe] p
  have q: "sr_Plan req = Some plan" "tasks db (sr_TaskId req) = Some task" "visible_task db (TenantID task) (sr_TaskId req) = Some task"
    "southPeer (dp_DevMode d) ident (sr_SandboxSpiffeId req) = Inr spiffe" "length (pl_Steps plan) \<le> maxPlanSteps" by auto
  let ?ab = "agent_bound d task (TenantID task)"
  have "(\<exists>viol. (v, db') = denied_plan ft task (sr_TaskId req) plan viol db1)
    \<or> (\<exists>dec e3. plan_boundary d task plan ?ab = None \<and> dp_DecidePlan d plan (CostBudget task) spiffe = Inr dec \<and> pd_Allow dec
        \<and> submit_steps d ident ft now nid plan task (sr_TaskId req) spiffe ?ab (pd_Violations dec) db1 = (Inr v, e3, db'))"
    using s by (auto simp: submit_validated_def agent_bound_def Let_def split: option.splits sum.splits if_splits prod.splits) metis+
  then show ?thesis
    using q advance_Inr [OF a q(3)] submit_steps_Inr unfolding decided_def by metis
qed

section \<open>The decisions behind an outcome\<close>

text \<open>How one step was decided.\<close>

definition step_decided :: "Deps \<Rightarrow> Task \<Rightarrow> string \<Rightarrow> string \<Rightarrow> PlanStep \<Rightarrow> StepOutcome \<Rightarrow> bool" where
  "step_decided d task tid spiffe step o1 =
     (\<exists>dec tr. routeStep (dp_EnumString d) (step_input d task spiffe step) = Inr (dec, tr)
        \<and> so_category o1 = classifyDecision dec \<and> so_record o1 = step_record d task tid step dec)"

lemma decide_step_of_ok:
  "fst (decide_step_of d ident task tid spiffe (agent_bound d task (TenantID task)) (userBoundExemption d (TenantID task) task) step) = Inr o1
   \<Longrightarrow> step_decided d task tid spiffe step o1"
  by (auto simp: decide_step_of_def step_decided_def step_input_def split: prod.splits sum.splits)

lemma decide_steps_ok:
  "fst (decide_steps d ident task tid spiffe (agent_bound d task (TenantID task)) (userBoundExemption d (TenantID task) task) steps) = Inr os
   \<Longrightarrow> list_all2 (step_decided d task tid spiffe) steps os"
  by (induction steps arbitrary: os) (auto simp: andThen_ok dest: decide_step_of_ok)

lemma plan_gate_ok:
  assumes "fst (plan_gate d task tid plan out) = Inr (outcome, gate, extra)"
  shows "(outcome = out \<or> outcome = ValidationOutcome_DENIED)
    \<and> (outcome \<in> {ValidationOutcome_NEEDS_HUMAN, ValidationOutcome_NEEDS_STEP_UP} \<longrightarrow>
         (\<exists>g. gate = Some g \<and> fst (Plan (gate_input d task tid plan outcome)) = Inr g))"
  using assms by (auto simp: plan_gate_def split: if_splits prod.splits sum.splits plan_error.splits)

lemma store_plan_ok:
  assumes "store_plan d ft now nid task tid spiffe plan viol os (outcome, gate, extra) db = (Inr v, evs, db')"
  shows "\<exists>db1. InsertPlanSteps (sf_insert ft) (TenantID task) tid (map so_record os) (next_state outcome) db = Inr db1
    \<and> vr_Outcome v = outcome
    \<and> after_insert d ft now nid task tid spiffe plan outcome gate db1 = (Inr (vr_CapabilityTokenIds v, vr_ArgsDigest v), db')"
  using assms by (auto simp: store_plan_def split: sum.splits prod.splits)

lemma policy_decision_of_inject: "policy_decision_of (classifyDecision dec) = PolicyAllow \<longleftrightarrow> classifyDecision dec = stepAllow"
  by (cases "classifyDecision dec") (simp_all add: policy_decision_of_def)

lemma plan_outcome_approved: "plan_outcome os = ValidationOutcome_APPROVED \<longleftrightarrow> (\<forall>x \<in> set os. so_category x = stepAllow)"
proof -
  have "so_category x = stepAllow \<longleftrightarrow> so_category x \<noteq> stepDeny \<and> so_category x \<noteq> stepStepUp \<and> so_category x \<noteq> stepApproval" for x
    by (cases "so_category x") auto
  then show ?thesis by (auto simp: plan_outcome_def list_ex_iff)
qed

lemma InsertPlanSteps_tasks:
  assumes "InsertPlanSteps f ten tid steps to db = Inr db1" "visible_task db ten tid = Some t" "to \<noteq> None \<or> steps \<noteq> []"
  shows "tasks db1 = (case to of None \<Rightarrow> tasks db | Some st \<Rightarrow> (tasks db)(tid \<mapsto> t\<lparr>State := st\<rparr>)) \<and> State t = TaskStateValidating"
proof (cases to)
  case None
  then show ?thesis using assms by (auto simp: InsertPlanSteps_def split: if_splits)
next
  case (Some st)
  then show ?thesis using assms
    by (auto simp: InsertPlanSteps_def bindE_eq_Inr transitionExec_def split: if_splits)
qed

lemma InsertPlanSteps_None:
  assumes "InsertPlanSteps f ten tid steps None db = Inr db1"
  shows "tasks db1 = tasks db"
proof (cases "steps = []")
  case True
  then show ?thesis using assms by (simp add: InsertPlanSteps_def)
next
  case False
  then show ?thesis using assms by (auto simp: InsertPlanSteps_def bindE_eq_Inr split: if_splits option.splits)
qed

lemma list_all2_setD: "list_all2 P xs ys \<Longrightarrow> x \<in> set xs \<Longrightarrow> \<exists>y \<in> set ys. P x y"
  by (induction xs ys rule: list_all2_induct) auto

text \<open>A submission that got as far as storing its steps, from the validating task on.\<close>

definition stored_plan ::
  "Deps \<Rightarrow> Identity option \<Rightarrow> SubmitFaults \<Rightarrow> int \<Rightarrow> string \<Rightarrow> SubmitReq \<Rightarrow> Db \<Rightarrow> PlanValidationResult \<Rightarrow> Db \<Rightarrow>
   PlanMsg \<Rightarrow> Task \<Rightarrow> string \<Rightarrow> StepOutcome list \<Rightarrow> Gate option \<Rightarrow> Db \<Rightarrow> bool" where
  "stored_plan d ident ft now nid req db v db' plan task spiffe os gate db2 =
     (decided d ident req db plan task spiffe os
      \<and> (\<exists>extra. fst (plan_gate d task (sr_TaskId req) plan (plan_outcome os)) = Inr (vr_Outcome v, gate, extra))
      \<and> (let db1 = db\<lparr>tasks := (tasks db)(sr_TaskId req \<mapsto> task\<lparr>State := TaskStateValidating\<rparr>)\<rparr> in
         visible_task db1 (TenantID task) (sr_TaskId req) = Some (task\<lparr>State := TaskStateValidating\<rparr>)
         \<and> InsertPlanSteps (sf_insert ft) (TenantID task) (sr_TaskId req) (map so_record os) (next_state (vr_Outcome v)) db1 = Inr db2)
      \<and> after_insert d ft now nid task (sr_TaskId req) spiffe plan (vr_Outcome v) gate db2
          = (Inr (vr_CapabilityTokenIds v, vr_ArgsDigest v), db'))"

lemma SubmitPlan_stored:
  assumes "SubmitPlan d ident ft now nid req db = (Inr v, evs, db')"
  shows "(\<exists>plan task viol. visible_task db (TenantID task) (sr_TaskId req) = Some task
      \<and> (v, db') = denied_plan ft task (sr_TaskId req) plan viol (db\<lparr>tasks := (tasks db)(sr_TaskId req \<mapsto> task\<lparr>State := TaskStateValidating\<rparr>)\<rparr>))
    \<or> (\<exists>plan task spiffe os gate db2. stored_plan d ident ft now nid req db v db' plan task spiffe os gate db2)"
proof -
  from SubmitPlan_Inr [OF assms] obtain plan task spiffe db1 where
    t: "visible_task db (TenantID task) (sr_TaskId req) = Some task"
      "db1 = db\<lparr>tasks := (tasks db)(sr_TaskId req \<mapsto> task\<lparr>State := TaskStateValidating\<rparr>)\<rparr>"
    and c: "(\<exists>viol. (v, db') = denied_plan ft task (sr_TaskId req) plan viol db1)
       \<or> (\<exists>os og viol evs'. decided d ident req db plan task spiffe os
            \<and> fst (plan_gate d task (sr_TaskId req) plan (plan_outcome os)) = Inr og
            \<and> store_plan d ft now nid task (sr_TaskId req) spiffe plan viol os og db1 = (Inr v, evs', db'))" by blast
  have v1: "visible_task db1 (TenantID task) (sr_TaskId req) = Some (task\<lparr>State := TaskStateValidating\<rparr>)"
    unfolding t(2) visible_task_def by simp
  from c show ?thesis
  proof
    assume "\<exists>viol. (v, db') = denied_plan ft task (sr_TaskId req) plan viol db1"
    then show ?thesis using t by blast
  next
    assume "\<exists>os og viol evs'. decided d ident req db plan task spiffe os
        \<and> fst (plan_gate d task (sr_TaskId req) plan (plan_outcome os)) = Inr og
        \<and> store_plan d ft now nid task (sr_TaskId req) spiffe plan viol os og db1 = (Inr v, evs', db')"
    then obtain os outcome gate extra viol evs' where o: "decided d ident req db plan task spiffe os"
      "fst (plan_gate d task (sr_TaskId req) plan (plan_outcome os)) = Inr (outcome, gate, extra)"
      "store_plan d ft now nid task (sr_TaskId req) spiffe plan viol os (outcome, gate, extra) db1 = (Inr v, evs', db')"
      by (metis prod.exhaust)
    from store_plan_ok [OF o(3)] obtain db2 where
      "InsertPlanSteps (sf_insert ft) (TenantID task) (sr_TaskId req) (map so_record os) (next_state outcome) db1 = Inr db2"
      "vr_Outcome v = outcome"
      "after_insert d ft now nid task (sr_TaskId req) spiffe plan outcome gate db2 = (Inr (vr_CapabilityTokenIds v, vr_ArgsDigest v), db')" by blast
    with o(1,2) v1 have "stored_plan d ident ft now nid req db v db' plan task spiffe os gate db2"
      unfolding stored_plan_def t(2) Let_def by blast
    then show ?thesis by blast
  qed
qed

lemma stored_plan_steps:
  assumes "stored_plan d ident ft now nid req db v db' plan task spiffe os gate db2"
  shows "list_all2 (step_decided d task (sr_TaskId req) spiffe) (pl_Steps plan) os"
  using assms decide_steps_ok by (auto simp: stored_plan_def decided_def)

text \<open>The task after the steps are stored.\<close>

lemma stored_plan_task:
  assumes "stored_plan d ident ft now nid req db v db' plan task spiffe os gate db2" "next_state (vr_Outcome v) = Some st"
  shows "tasks db2 (sr_TaskId req) = Some (task\<lparr>State := st\<rparr>)"
proof -
  let ?db1 = "db\<lparr>tasks := (tasks db)(sr_TaskId req \<mapsto> task\<lparr>State := TaskStateValidating\<rparr>)\<rparr>"
  from assms have i: "InsertPlanSteps (sf_insert ft) (TenantID task) (sr_TaskId req) (map so_record os) (Some st) ?db1 = Inr db2"
    "visible_task ?db1 (TenantID task) (sr_TaskId req) = Some (task\<lparr>State := TaskStateValidating\<rparr>)"
    by (simp_all add: stored_plan_def Let_def)
  from InsertPlanSteps_tasks [OF i] show ?thesis by simp
qed

text \<open>C7.  A plan is approved without a human only when everything allows it: if SubmitPlan
  answers APPROVED, the plan lies inside the agent's and the delegation's boundaries and has at
  most 256 steps, the whole-plan policy allowed it, the five-layer routing of every single
  step ended in a plain allow, and the task is now approved.\<close>

theorem approved_only_if_all_allowed:
  assumes "SubmitPlan d ident ft now nid req db = (Inr v, evs, db')" "vr_Outcome v = ValidationOutcome_APPROVED"
  shows "\<exists>plan task spiffe os. decided d ident req db plan task spiffe os
    \<and> (\<forall>step \<in> set (pl_Steps plan). \<exists>dec tr.
         routeStep (dp_EnumString d) (step_input d task spiffe step) = Inr (dec, tr) \<and> classifyDecision dec = stepAllow)
    \<and> (\<exists>t'. tasks db' (sr_TaskId req) = Some t' \<and> State t' = TaskStateApproved)"
proof -
  have "\<not> (\<exists>plan task viol db1. (v, db') = denied_plan ft task (sr_TaskId req) plan viol db1)"
    using assms(2) by (auto simp: denied_plan_def)
  with SubmitPlan_stored [OF assms(1)] obtain plan task spiffe os gate db2 where
    s: "stored_plan d ident ft now nid req db v db' plan task spiffe os gate db2" by blast
  have "plan_outcome os = ValidationOutcome_APPROVED"
    using s plan_gate_ok [of d task "sr_TaskId req" plan "plan_outcome os"] assms(2) by (fastforce simp: stored_plan_def)
  then have all: "\<forall>x \<in> set os. so_category x = stepAllow" by (simp add: plan_outcome_approved)
  have steps: "\<exists>dec tr. routeStep (dp_EnumString d) (step_input d task spiffe step) = Inr (dec, tr) \<and> classifyDecision dec = stepAllow"
    if m: "step \<in> set (pl_Steps plan)" for step
    using list_all2_setD [OF stored_plan_steps [OF s] m] all unfolding step_decided_def by metis
  have "decided d ident req db plan task spiffe os" using s by (simp add: stored_plan_def)
  have "tasks db2 (sr_TaskId req) = Some (task\<lparr>State := TaskStateApproved\<rparr>)"
    by (rule stored_plan_task [OF s]) (simp add: assms(2) next_state_def)
  moreover have "db' = db2"
    using s by (auto simp: stored_plan_def after_insert_def assms(2) split: sum.splits)
  ultimately have "\<exists>t'. tasks db' (sr_TaskId req) = Some t' \<and> State t' = TaskStateApproved" by simp
  with \<open>decided d ident req db plan task spiffe os\<close> steps show ?thesis by blast
qed

section \<open>Plans that need a human, and denied plans\<close>

lemma create_gate_Inr:
  assumes "create_gate f now nid inp g db = Inr db'"
  shows "plan_steps db' = plan_steps db" "tasks db' = tasks db"
    "\<exists>a. approvals db' = approvals db @ [a] \<and> ApprovalID a = nid \<and> ar_State a = ApprovalPending \<and> RequesterID a = bi_OwnerUserID inp
      \<and> ar_TaskID a = bi_TaskID inp \<and> ar_TenantID a = bi_TenantID inp \<and> ApproverSet a = g_ApproverSet g
      \<and> sum_step_up (Summary a) = (bi_Outcome inp = ValidationOutcome_NEEDS_STEP_UP)"
  using assms by (auto simp: create_gate_def CreateApprovalRequest_def gate_request_def split: if_splits)

text \<open>A plan that needs a human gets one: if SubmitPlan answers NEEDS_HUMAN or
  NEEDS_STEP_UP, no token was minted, the task waits for approval, and a pending gate planned
  for exactly this outcome stands in the store, requested by the task's owner and marked for
  step-up exactly when the outcome is; the digest handed out is the one of the arguments now
  stored.\<close>

theorem human_outcome_creates_gate:
  assumes "SubmitPlan d ident ft now nid req db = (Inr v, evs, db')"
    and "vr_Outcome v \<in> {ValidationOutcome_NEEDS_HUMAN, ValidationOutcome_NEEDS_STEP_UP}"
  shows "vr_CapabilityTokenIds v = Map.empty
    \<and> (\<exists>plan task g a rows. tasks db' (sr_TaskId req) = Some (task\<lparr>State := TaskStateAwaitingApproval\<rparr>)
      \<and> fst (Plan (gate_input d task (sr_TaskId req) plan (vr_Outcome v))) = Inr g
      \<and> a \<in> set (approvals db') \<and> ApprovalID a = nid \<and> ar_State a = ApprovalPending \<and> ar_TaskID a = sr_TaskId req
      \<and> RequesterID a = OwnerUserID task \<and> ApproverSet a = g_ApproverSet g
      \<and> (sum_step_up (Summary a) \<longleftrightarrow> vr_Outcome v = ValidationOutcome_NEEDS_STEP_UP)
      \<and> ListMintableSteps False (TenantID task) (sr_TaskId req) db' = Inr rows
      \<and> vr_ArgsDigest v = ArgsDigest (dp_Sha256 d) (map PlanStepRecord.truncate rows))"
proof -
  have "\<not> (\<exists>plan task viol db1. (v, db') = denied_plan ft task (sr_TaskId req) plan viol db1)"
    using assms(2) by (auto simp: denied_plan_def)
  with SubmitPlan_stored [OF assms(1)] obtain plan task spiffe os gate db2 where
    s: "stored_plan d ident ft now nid req db v db' plan task spiffe os gate db2" by blast
  obtain extra where pg: "fst (plan_gate d task (sr_TaskId req) plan (plan_outcome os)) = Inr (vr_Outcome v, gate, extra)"
    using s by (auto simp: stored_plan_def)
  obtain g where g: "gate = Some g" "fst (Plan (gate_input d task (sr_TaskId req) plan (vr_Outcome v))) = Inr g"
    using plan_gate_ok [OF pg] assms(2) by blast
  have ai: "after_insert d ft now nid task (sr_TaskId req) spiffe plan (vr_Outcome v) gate db2
      = (Inr (vr_CapabilityTokenIds v, vr_ArgsDigest v), db')" using s by (simp add: stored_plan_def)
  obtain db3 rows where c: "create_gate (sf_create ft) now nid (gate_input d task (sr_TaskId req) plan (vr_Outcome v)) g db2 = Inr db3"
    "ListMintableSteps (sf_list ft) (TenantID task) (sr_TaskId req) db3 = Inr rows" "db' = db3" "vr_CapabilityTokenIds v = Map.empty"
    "vr_ArgsDigest v = ArgsDigest (dp_Sha256 d) (map PlanStepRecord.truncate rows)"
    using ai assms(2) by (auto simp: after_insert_def g(1) split: sum.splits)
  have st: "next_state (vr_Outcome v) = Some TaskStateAwaitingApproval" using assms(2) by (auto simp: next_state_def)
  have t: "tasks db' (sr_TaskId req) = Some (task\<lparr>State := TaskStateAwaitingApproval\<rparr>)"
    using stored_plan_task [OF s st] create_gate_Inr(2) [OF c(1)] c(3) by simp
  have l: "ListMintableSteps False (TenantID task) (sr_TaskId req) db' = Inr rows"
    using c(2,3) by (auto simp: ListMintableSteps_def split: if_splits)
  from create_gate_Inr(3) [OF c(1)] obtain a where a: "approvals db3 = approvals db2 @ [a]" "ApprovalID a = nid"
    "ar_State a = ApprovalPending" "RequesterID a = OwnerUserID task" "ar_TaskID a = sr_TaskId req" "ApproverSet a = g_ApproverSet g"
    "sum_step_up (Summary a) = (vr_Outcome v = ValidationOutcome_NEEDS_STEP_UP)" by (auto simp: gate_input_def)
  then have "a \<in> set (approvals db')" using c(3) by simp
  then show ?thesis using c(4,5) t g(2) a(2-7) l by blast
qed

lemma denyTask_approvals: "approvals (denyTask f ten tid db) = approvals db"
  by (cases "Transition f ten tid TaskStateValidating TaskStateDenied db") (simp_all add: denyTask_def ops_approvals(2))

lemma denyTask_state:
  assumes "visible_task db ten tid = Some t" "State t = TaskStateValidating"
  shows "tasks (denyTask False ten tid db) tid = Some (t\<lparr>State := TaskStateDenied\<rparr>)"
  using assms by (simp add: denyTask_def Transition_def transitionExec_def isValidTransition_def)

text \<open>A denied plan ends its task: if SubmitPlan answers DENIED and the store takes the
  transition, no token was minted, no gate was created, and the task is denied, which is
  final.\<close>

theorem denied_plan_ends_task:
  assumes "SubmitPlan d ident ft now nid req db = (Inr v, evs, db')" "vr_Outcome v = ValidationOutcome_DENIED" "\<not> sf_deny ft"
  shows "vr_CapabilityTokenIds v = Map.empty \<and> approvals db' = approvals db
    \<and> (\<exists>t. tasks db' (sr_TaskId req) = Some t \<and> State t = TaskStateDenied)"
  using SubmitPlan_stored [OF assms(1)]
proof
  assume "\<exists>plan task viol. visible_task db (TenantID task) (sr_TaskId req) = Some task
      \<and> (v, db') = denied_plan ft task (sr_TaskId req) plan viol (db\<lparr>tasks := (tasks db)(sr_TaskId req \<mapsto> task\<lparr>State := TaskStateValidating\<rparr>)\<rparr>)"
  then obtain plan task viol where t: "(v, db') = denied_plan ft task (sr_TaskId req) plan viol
      (db\<lparr>tasks := (tasks db)(sr_TaskId req \<mapsto> task\<lparr>State := TaskStateValidating\<rparr>)\<rparr>)" by blast
  let ?db1 = "db\<lparr>tasks := (tasks db)(sr_TaskId req \<mapsto> task\<lparr>State := TaskStateValidating\<rparr>)\<rparr>"
  have "visible_task ?db1 (TenantID task) (sr_TaskId req) = Some (task\<lparr>State := TaskStateValidating\<rparr>)" by (simp add: visible_task_def)
  from denyTask_state [OF this] t assms(3) denyTask_approvals [of False "TenantID task" "sr_TaskId req" ?db1] show ?thesis
    by (simp add: denied_plan_def)
next
  assume "\<exists>plan task spiffe os gate db2. stored_plan d ident ft now nid req db v db' plan task spiffe os gate db2"
  then obtain plan task spiffe os gate db2 where s: "stored_plan d ident ft now nid req db v db' plan task spiffe os gate db2" by blast
  let ?db1 = "db\<lparr>tasks := (tasks db)(sr_TaskId req \<mapsto> task\<lparr>State := TaskStateValidating\<rparr>)\<rparr>"
  have n: "next_state (vr_Outcome v) = None" using assms(2) by (simp add: next_state_def)
  have i: "InsertPlanSteps (sf_insert ft) (TenantID task) (sr_TaskId req) (map so_record os) None ?db1 = Inr db2"
    using s n unfolding stored_plan_def Let_def by simp
  have "after_insert d ft now nid task (sr_TaskId req) spiffe plan ValidationOutcome_DENIED gate db2
      = (Inr (vr_CapabilityTokenIds v, vr_ArgsDigest v), db')" using s assms(2) unfolding stored_plan_def by simp
  then have a: "vr_CapabilityTokenIds v = Map.empty" "db' = denyTask False (TenantID task) (sr_TaskId req) db2"
    using assms(3) by (auto simp: after_insert_def)
  have "tasks db2 = tasks ?db1" by (rule InsertPlanSteps_None [OF i])
  moreover have "approvals db2 = approvals db" using ops_approvals(6) [OF i] by simp
  ultimately have st: "tasks db2 = tasks ?db1" "approvals db2 = approvals db" by blast+
  have "visible_task db2 (TenantID task) (sr_TaskId req) = Some (task\<lparr>State := TaskStateValidating\<rparr>)" using st(1) by (simp add: visible_task_def)
  from denyTask_state [OF this] a st(2) denyTask_approvals [of False "TenantID task" "sr_TaskId req" db2]
  show ?thesis by simp
qed

section \<open>Examples\<close>

text \<open>A one-step plan under a policy engine that answers with the given decision.\<close>

definition ex_decision :: "bool \<Rightarrow> bool \<Rightarrow> Decision" where
  "ex_decision allow human = \<lparr>d_Allow = allow, NeedsApproval = human, NeedsStepUp = False, d_Deny = False, Reason = [], Reasons = [],
     PolicyRuleID = ''r1'', DEvidence = None\<rparr>"

definition ex_plan_deps :: "Decision \<Rightarrow> Deps" where
  "ex_plan_deps dec = ex_deps\<lparr>dp_DecideToolCall := (\<lambda>_. Inr (Some dec)),
     dp_Mint := Some (\<lambda>holder task obo scopes. Inr (concat scopes)), dp_Sha256 := (#) (CHR ''h'')\<rparr>"

definition ex_submit :: SubmitReq where
  "ex_submit = \<lparr>sr_TaskId = ''t1'', sr_SandboxSpiffeId = ''spiffe://gw'',
     sr_Plan = Some \<lparr>pl_PlanId = ''p1'', pl_TenantId = [], pl_Steps = [\<lparr>st_Seq = 1, st_ToolId = ''slack.post'', st_Args = Some ex_args,
       st_EffectClass = WRITE_EXTERNAL, st_Justification = [], st_EstimatedCost = 2, st_ReadsSensitive = False\<rparr>],
       pl_EffectClassCeiling = WRITE_EXTERNAL\<rparr>\<rparr>"

definition ex_no_faults :: SubmitFaults where
  "ex_no_faults = \<lparr>sf_get = False, sf_planning = False, sf_validating = False, sf_insert = False, sf_deny = False,
     sf_create = False, sf_list = False\<rparr>"

definition ex_created :: Db where
  "ex_created = empty_Db\<lparr>tasks := [''t1'' \<mapsto> example_task]\<rparr>"

definition ex_result :: "Decision \<Rightarrow> (rpc_error, PlanValidationResult) result \<times> AuditEvent list \<times> Db" where
  "ex_result dec = SubmitPlan (ex_plan_deps dec) (Some ex_gateway) ex_no_faults 0 ''g1'' ex_submit ex_created"

definition outcome_of :: "(rpc_error, PlanValidationResult) result \<times> AuditEvent list \<times> Db \<Rightarrow> ValidationOutcome option" where
  "outcome_of r = (case fst r of Inr v \<Rightarrow> Some (vr_Outcome v) | Inl _ \<Rightarrow> None)"

lemma outcome_ofD: "outcome_of r = Some o1 \<Longrightarrow> \<exists>v evs db'. r = (Inr v, evs, db') \<and> vr_Outcome v = o1"
  by (cases r; cases "fst r") (auto simp: outcome_of_def)

lemma ex_outcomes:
  "outcome_of (ex_result (ex_decision True False)) = Some ValidationOutcome_APPROVED"
  "outcome_of (ex_result (ex_decision False True)) = Some ValidationOutcome_NEEDS_HUMAN"
  "outcome_of (ex_result (ex_decision False False)) = Some ValidationOutcome_DENIED"
  by code_simp+

theorem approved_only_if_all_allowed_witness:
  "\<exists>t'. tasks (snd (snd (ex_result (ex_decision True False)))) ''t1'' = Some t' \<and> State t' = TaskStateApproved"
proof -
  from outcome_ofD [OF ex_outcomes(1)] obtain v evs db' where
    r: "ex_result (ex_decision True False) = (Inr v, evs, db')" "vr_Outcome v = ValidationOutcome_APPROVED" by blast
  from approved_only_if_all_allowed [OF r(1) [unfolded ex_result_def] r(2)] show ?thesis
    by (auto simp: r(1) ex_submit_def)
qed

theorem human_outcome_creates_gate_witness:
  "\<exists>a. a \<in> set (approvals (snd (snd (ex_result (ex_decision False True))))) \<and> ApprovalID a = ''g1'' \<and> ar_State a = ApprovalPending"
proof -
  from outcome_ofD [OF ex_outcomes(2)] obtain v evs db' where
    r: "ex_result (ex_decision False True) = (Inr v, evs, db')" "vr_Outcome v = ValidationOutcome_NEEDS_HUMAN" by blast
  have "vr_Outcome v \<in> {ValidationOutcome_NEEDS_HUMAN, ValidationOutcome_NEEDS_STEP_UP}" using r(2) by simp
  from human_outcome_creates_gate [OF r(1) [unfolded ex_result_def] this] show ?thesis by (auto simp: r(1))
qed

theorem denied_plan_ends_task_witness:
  "\<exists>t. tasks (snd (snd (ex_result (ex_decision False False)))) ''t1'' = Some t \<and> State t = TaskStateDenied"
proof -
  from outcome_ofD [OF ex_outcomes(3)] obtain v evs db' where
    r: "ex_result (ex_decision False False) = (Inr v, evs, db')" "vr_Outcome v = ValidationOutcome_DENIED" by blast
  from denied_plan_ends_task [OF r(1) [unfolded ex_result_def] r(2)] show ?thesis
    by (auto simp: r(1) ex_submit_def ex_no_faults_def)
qed

section \<open>A gate that could not be created\<close>

text \<open>A task can be left waiting with no gate: the steps and the move to
  AWAITING_APPROVAL are committed before the approval request is created, so when that second
  write fails SubmitPlan answers with an error, the task waits for an approval nobody can
  give, no gate stands, and a second submission of the plan is refused.\<close>

theorem gate_failure_strands_task:
  "let ft = ex_no_faults\<lparr>sf_create := True\<rparr>; d = ex_plan_deps (ex_decision False True);
       (r, _, db1) = SubmitPlan d (Some ex_gateway) ft 0 ''g1'' ex_submit ex_created;
       (r2, _, db2) = SubmitPlan d (Some ex_gateway) ex_no_faults 1 ''g2'' ex_submit db1
   in (case r of Inl e \<Rightarrow> e = Status Internal ''failed to create approval request'' | Inr _ \<Rightarrow> False)
      \<and> map_option State (tasks db1 ''t1'') = Some TaskStateAwaitingApproval \<and> length (approvals db1) = 0
      \<and> (case r2 of Inl e \<Rightarrow> e = Status FailedPrecondition ''task not in a plannable state'' | Inr _ \<Rightarrow> False) \<and> length (approvals db2) = 0"
  by code_simp

end
