(* ===== verification/BrokerRun.thy ===== *)
theory BrokerRun
  imports SubmitSafety
begin

text \<open>
  The broker's south-bound handlers together: a step relation over the whole state whose
  rules are SubmitPlan, InvokeTool, EmitStatus, Resolve and the remaining writers of the task
  store, and what holds in every state such steps reach.
\<close>

section \<open>Rows that carry the hash of their arguments\<close>

text \<open>
  The arguments of a step are a protobuf Struct: an object with distinct keys whose numbers
  print as JSON numbers.
\<close>

definition args_wf :: "json option \<Rightarrow> bool" where
  "args_wf args = (case args of None \<Rightarrow> True | Some j \<Rightarrow> wf_json j \<and> (\<exists>kvs. j = JObj kvs))"

definition row_ok :: "(string \<Rightarrow> string) \<Rightarrow> 'a PlanStepRecord_scheme \<Rightarrow> bool" where
  "row_ok sha r = (ps_ArgsHash r = argsHash sha (ps_Args r) \<and> args_wf (ps_Args r))"

definition rows_ok :: "(string \<Rightarrow> string) \<Rightarrow> Db \<Rightarrow> bool" where
  "rows_ok sha db = list_all (row_ok sha) (plan_steps db)"

fun ok_op :: "(string \<Rightarrow> string) \<Rightarrow> store_op \<Rightarrow> bool" where
  "ok_op sha (OInsert ten tid rows to) = list_all (row_ok sha) rows"
| "ok_op sha _ = True"

lemma row_ok_new: "row_ok sha (new_row c s) = row_ok sha s"
  by (simp add: row_ok_def new_row_def PlanStepRecord.defs)

lemma row_ok_moved [simp]:
  "row_ok sha (r\<lparr>ps_TaskID := a, ps_TenantID := b, ps_Seq := c\<rparr>) = row_ok sha r" "row_ok sha (r\<lparr>consumed := d\<rparr>) = row_ok sha r"
  by (simp_all add: row_ok_def)

lemma upsert_step_ok: "list_all (row_ok sha) rows \<Longrightarrow> row_ok sha s \<Longrightarrow> list_all (row_ok sha) (upsert_step rows s)"
  by (auto simp: upsert_step_def list_all_iff row_ok_new)

lemma insert_batch_ok:
  assumes "list_all (row_ok sha) rows" "list_all (row_ok sha) steps"
  shows "list_all (row_ok sha) (insertPlanStepBatch ten tid steps rows)"
proof -
  have "list_all (row_ok sha) (foldl upsert_step rows steps)" using assms
    by (induction steps arbitrary: rows) (auto simp: upsert_step_ok)
  then show ?thesis by (auto simp: insertPlanStepBatch_def list_all_iff)
qed

lemma InsertPlanSteps_rows:
  assumes "InsertPlanSteps f ten tid steps to db = Inr db'" "rows_ok sha db" "list_all (row_ok sha) steps"
  shows "rows_ok sha db'"
proof -
  have "plan_steps db' = plan_steps db \<or> plan_steps db' = insertPlanStepBatch ten tid steps (plan_steps db)"
    using assms(1) by (auto simp: InsertPlanSteps_def bindE_eq_Inr split: if_splits option.splits dest!: transitionExec_frame)
  then show ?thesis using assms(2,3) insert_batch_ok unfolding rows_ok_def by metis
qed

lemma ClaimPlanStep_rows: "rows_ok sha db \<Longrightarrow> rows_ok sha (snd (ClaimPlanStep f ten tid seq tool hs db))"
  by (auto simp: ClaimPlanStep_def rows_ok_def list_all_iff Let_def split: option.splits)

lemma exec_rows_ok:
  assumes "rows_ok sha db" "ok_op sha op"
  shows "rows_ok sha (exec op db)"
proof (cases op)
  case (OInsert ten tid steps to)
  then show ?thesis using assms InsertPlanSteps_rows by (cases "InsertPlanSteps False ten tid steps to db") auto
next
  case (OClaim ten tid seq tool hs)
  then show ?thesis using assms(1) ClaimPlanStep_rows by simp
next
  case (OCreate t)
  then show ?thesis using assms(1) by (cases "Create False t db") (auto simp: rows_ok_def)
next
  case (OTransition a b c e)
  then show ?thesis using assms(1) by (cases "Transition False a b c e db") (auto simp: rows_ok_def)
next
  case (OReserve a b c)
  then show ?thesis using assms(1) by (cases "ReserveCost False a b c db") (auto simp: rows_ok_def)
next
  case (OResolve a b c e f)
  then show ?thesis using assms(1)
    by (cases "ResolveApproval False a b c e f db") (auto simp: rows_ok_def dest!: ResolveApproval_plan_steps)
qed (use assms(1) in \<open>auto simp: rows_ok_def CreateApprovalRequest_def ExpireApproval_def WithdrawApproval_def Let_def\<close>)

section \<open>Handlers as runs of store calls\<close>

text \<open>Whether the call may approve the task \<open>w\<close>.\<close>

fun approving :: "string \<Rightarrow> store_op \<Rightarrow> bool" where
  "approving w (OTransition _ tid _ to) = (tid = w \<and> to = TaskStateApproved)"
| "approving w (OInsert _ tid _ to) = (tid = w \<and> to = Some TaskStateApproved)"
| "approving w (OResolve _ _ _ _ _) = True"
| "approving w _ = False"

text \<open>A run that stores only hashed rows and approves the task \<open>w\<close> only under the condition \<open>app\<close>.\<close>

definition run_op :: "(string \<Rightarrow> string) \<Rightarrow> string \<Rightarrow> bool \<Rightarrow> store_op \<Rightarrow> bool" where
  "run_op sha w app op = (ok_op sha op \<and> (approving w op \<longrightarrow> app))"

definition db_run :: "(string \<Rightarrow> string) \<Rightarrow> string \<Rightarrow> bool \<Rightarrow> Db \<Rightarrow> Db \<Rightarrow> bool" where
  "db_run sha w app db db' = (\<exists>ops. list_all (run_op sha w app) ops \<and> db' = run ops db)"

lemma db_run_refl [simp, intro]: "db_run sha w app db db"
  unfolding db_run_def by (intro exI [of _ "[]"]) simp

lemma db_run_trans: "db_run sha w app a b \<Longrightarrow> db_run sha w app b c \<Longrightarrow> db_run sha w app a c"
  unfolding db_run_def run_def by (metis foldl_append list_all_append)

lemma db_run_op: "run_op sha w app op \<Longrightarrow> db' = exec op db \<Longrightarrow> db_run sha w app db db'"
  unfolding db_run_def by (intro exI [of _ "[op]"]) simp

lemma db_run_rows: "db_run sha w app db db' \<Longrightarrow> rows_ok sha db \<Longrightarrow> rows_ok sha db'"
proof -
  have "list_all (run_op sha w app) ops \<Longrightarrow> rows_ok sha d \<Longrightarrow> rows_ok sha (run ops d)" for ops d
    by (induction ops arbitrary: d) (auto simp: exec_rows_ok run_op_def)
  then show "db_run sha w app db db' \<Longrightarrow> rows_ok sha db \<Longrightarrow> rows_ok sha db'" by (auto simp: db_run_def)
qed

lemma db_run_gates: "db_run sha w app db db' \<Longrightarrow> gates_wf db \<Longrightarrow> gates_wf db'"
  by (auto simp: db_run_def run_gates_wf)

lemma reaches_db_run: "reaches ten tid db db' \<Longrightarrow> db_run sha w app db db'"
proof -
  have "step_op ten tid op \<Longrightarrow> run_op sha w app op" for op by (cases op) (auto simp: run_op_def)
  then show "reaches ten tid db db' \<Longrightarrow> db_run sha w app db db'" by (auto simp: reaches_def db_run_def list_all_iff)
qed

lemma db_run_transition: "Transition f ten tid a b db = Inr db' \<Longrightarrow> b \<noteq> TaskStateApproved \<Longrightarrow> db_run sha w app db db'"
  by (cases f) (auto simp: Transition_def [of True] run_op_def split: if_splits intro!: db_run_op [of _ _ _ "OTransition ten tid a b"])

lemma advance_db_run: "advanceToValidating f g ten tid t db = (r, db') \<Longrightarrow> db_run sha w app db db'"
  by (auto simp: advanceToValidating_def split: if_splits sum.splits intro: db_run_transition db_run_trans)

lemma denyTask_db_run: "db_run sha w app db (denyTask f ten tid db)"
  by (cases "Transition f ten tid TaskStateValidating TaskStateDenied db") (auto simp: denyTask_def dest: db_run_transition)

lemma insert_db_run:
  "InsertPlanSteps f ten tid steps to db = Inr db' \<Longrightarrow> list_all (row_ok sha) steps \<Longrightarrow> (tid = w \<and> to = Some TaskStateApproved \<longrightarrow> app)
   \<Longrightarrow> db_run sha w app db db'"
proof -
  assume a: "InsertPlanSteps f ten tid steps to db = Inr db'" "list_all (row_ok sha) steps" "tid = w \<and> to = Some TaskStateApproved \<longrightarrow> app"
  then have "InsertPlanSteps False ten tid steps to db = Inr db'" by (auto simp: InsertPlanSteps_def split: if_splits)
  then show ?thesis using a(2,3) by (intro db_run_op [of _ _ _ "OInsert ten tid steps to"]) (simp_all add: run_op_def)
qed

lemma create_gate_db_run: "create_gate f now nid inp g db = Inr db' \<Longrightarrow> db_run sha w app db db'"
  by (intro db_run_op [of _ _ _ "OCreateGate nid (gate_request now inp g)"])
    (auto simp: create_gate_def CreateApprovalRequest_def run_op_def split: if_splits)

lemma after_insert_db_run: "after_insert d ft now nid task tid spiffe plan out gate db = (r, db') \<Longrightarrow> db_run sha w app db db'"
  by (auto simp: after_insert_def denyTask_db_run split: ValidationOutcome.splits sum.splits option.splits dest: create_gate_db_run)

lemma store_plan_db_run:
  assumes "store_plan d ft now nid task tid spiffe plan viol os og db = (r, evs, db')" "list_all (\<lambda>x. row_ok sha (so_record x)) os"
    and app: "tid = w \<and> fst og = ValidationOutcome_APPROVED \<longrightarrow> app"
  shows "db_run sha w app db db'"
proof -
  have rows: "list_all (row_ok sha) (map so_record os)" using assms(2) by (simp add: list_all_iff)
  obtain out gate extra where og: "og = (out, gate, extra)" by (cases og)
  have n: "tid = w \<and> next_state out = Some TaskStateApproved \<longrightarrow> app" using app og by (cases out) (simp_all add: next_state_def)
  show ?thesis
  proof (cases "InsertPlanSteps (sf_insert ft) (TenantID task) tid (map so_record os) (next_state out) db")
    case (Inl e)
    then show ?thesis using assms(1) by (simp add: store_plan_def og)
  next
    case (Inr db1)
    obtain r1 db2 where a: "after_insert d ft now nid task tid spiffe plan out gate db1 = (r1, db2)" by (metis prod.exhaust)
    then have "db' = db2" using assms(1) by (auto simp: store_plan_def og Inr split: sum.splits prod.splits)
    then show ?thesis using db_run_trans [OF insert_db_run [OF Inr rows n] after_insert_db_run [OF a]] by simp
  qed
qed

text \<open>The arguments of every step of the submitted plan are a protobuf Struct.\<close>

definition submit_wf :: "SubmitReq \<Rightarrow> bool" where
  "submit_wf req = (case sr_Plan req of None \<Rightarrow> True | Some plan \<Rightarrow> list_all (\<lambda>s. args_wf (st_Args s)) (pl_Steps plan))"

lemma decided_rows_ok:
  assumes "fst (decide_steps d ident task tid spiffe ab ex steps) = Inr os" "list_all (\<lambda>s. args_wf (st_Args s)) steps"
  shows "list_all (\<lambda>x. row_ok (dp_Sha256 d) (so_record x)) os"
  using assms
proof (induction steps arbitrary: os)
  case (Cons s ss)
  then obtain o1 os' where o: "fst (decide_step_of d ident task tid spiffe ab ex s) = Inr o1"
    "fst (decide_steps d ident task tid spiffe ab ex ss) = Inr os'" "os = o1 # os'" by (auto simp: andThen_ok)
  have "row_ok (dp_Sha256 d) (so_record o1)"
    using o(1) Cons.prems(2) by (auto simp: decide_step_of_def step_record_def row_ok_def split: prod.splits sum.splits)
  then show ?case using Cons o by simp
qed simp

lemma submit_steps_db_run:
  assumes "submit_steps d ident ft now nid plan task tid spiffe ab viol db = (r, evs, db')"
    and "list_all (\<lambda>s. args_wf (st_Args s)) (pl_Steps plan)"
    and app: "\<And>os. fst (decide_steps d ident task tid spiffe ab (userBoundExemption d (TenantID task) task) (pl_Steps plan)) = Inr os
      \<Longrightarrow> plan_outcome os = ValidationOutcome_APPROVED \<Longrightarrow> tid = w \<Longrightarrow> app"
  shows "db_run (dp_Sha256 d) w app db db'"
proof (cases "db' = db")
  case False
  then obtain os og e where o: "fst (decide_steps d ident task tid spiffe ab (userBoundExemption d (TenantID task) task) (pl_Steps plan)) = Inr os"
    "store_plan d ft now nid task tid spiffe plan viol os og db = (r, e, db')"
    "fst (plan_gate d task tid plan (plan_outcome os)) = Inr og"
    using assms(1) by (auto simp: submit_steps_def split: if_splits prod.splits sum.splits)
  obtain out gate extra where og: "og = (out, gate, extra)" by (cases og)
  have "tid = w \<and> fst og = ValidationOutcome_APPROVED \<longrightarrow> app" using plan_gate_ok [OF o(3) [unfolded og]] app [OF o(1)] og by auto
  then show ?thesis by (rule store_plan_db_run [OF o(2) decided_rows_ok [OF o(1) assms(2)]])
qed simp

lemma submit_validated_db_run:
  assumes "submit_validated d ident ft now nid plan task tid spiffe db = (r, evs, db')"
    and "list_all (\<lambda>s. args_wf (st_Args s)) (pl_Steps plan)"
    and app: "\<And>os. plan_boundary d task plan (agent_bound d task (TenantID task)) = None
      \<Longrightarrow> (\<exists>dec. dp_DecidePlan d plan (CostBudget task) spiffe = Inr dec \<and> pd_Allow dec)
      \<Longrightarrow> fst (decide_steps d ident task tid spiffe (agent_bound d task (TenantID task)) (userBoundExemption d (TenantID task) task) (pl_Steps plan)) = Inr os
      \<Longrightarrow> plan_outcome os = ValidationOutcome_APPROVED \<Longrightarrow> tid = w \<Longrightarrow> app"
  shows "db_run (dp_Sha256 d) w app db db'"
proof -
  have "db' = db \<or> db' = denyTask (sf_deny ft) (TenantID task) tid db
    \<or> (\<exists>viol e dec. submit_steps d ident ft now nid plan task tid spiffe (agent_bound d task (TenantID task)) viol db = (r, e, db')
         \<and> plan_boundary d task plan (agent_bound d task (TenantID task)) = None
         \<and> dp_DecidePlan d plan (CostBudget task) spiffe = Inr dec \<and> pd_Allow dec)"
    using assms(1)
    by (auto simp: submit_validated_def denied_plan_def agent_bound_def Let_def split: option.splits sum.splits if_splits prod.splits)
  then show ?thesis
  proof (elim disjE exE conjE)
    fix viol e dec
    assume "submit_steps d ident ft now nid plan task tid spiffe (agent_bound d task (TenantID task)) viol db = (r, e, db')"
      "plan_boundary d task plan (agent_bound d task (TenantID task)) = None"
      "dp_DecidePlan d plan (CostBudget task) spiffe = Inr dec" "pd_Allow dec"
    then show ?thesis using submit_steps_db_run [OF _ assms(2)] app by blast
  qed (simp_all add: denyTask_db_run)
qed

lemma SubmitPlan_db_run:
  assumes "SubmitPlan d ident ft now nid req db = (r, evs, db')" "submit_wf req"
  shows "db_run (dp_Sha256 d) w (sr_TaskId req = w \<and> (\<exists>plan task spiffe os. decided d ident req db plan task spiffe os \<and> plan_outcome os = ValidationOutcome_APPROVED)) db db'"
proof (cases "fst (submit_prechecks d ident (sf_get ft) req db)")
  case (Inr p)
  then obtain plan task spiffe e1 where p: "submit_prechecks d ident (sf_get ft) req db = (Inr (plan, task, spiffe), e1)"
    by (metis prod.exhaust prod.collapse)
  let ?app = "sr_TaskId req = w \<and> (\<exists>plan task spiffe os. decided d ident req db plan task spiffe os \<and> plan_outcome os = ValidationOutcome_APPROVED)"
  have q: "sr_Plan req = Some plan" "tasks db (sr_TaskId req) = Some task" "length (pl_Steps plan) \<le> maxPlanSteps"
    "southPeer (dp_DevMode d) ident (sr_SandboxSpiffeId req) = Inr spiffe"
    using submit_prechecks_ok [of d ident "sf_get ft" req db plan task spiffe] p by simp_all
  then have w: "list_all (\<lambda>s. args_wf (st_Args s)) (pl_Steps plan)" using assms(2) by (simp add: submit_wf_def)
  have sv: "db_run (dp_Sha256 d) w ?app db1 db'" if "submit_validated d ident ft now nid plan task (sr_TaskId req) spiffe db1 = (r, e, db')" for db1 e
    using q by (intro submit_validated_db_run [OF that w]) (auto simp: decided_def)
  obtain a db1 where a: "advanceToValidating (sf_planning ft) (sf_validating ft) (TenantID task) (sr_TaskId req) task db = (a, db1)"
    by (metis prod.exhaust)
  have "db' = db1 \<or> (\<exists>e. submit_validated d ident ft now nid plan task (sr_TaskId req) spiffe db1 = (r, e, db'))"
    using assms(1) by (auto simp: SubmitPlan_def p a split: sum.splits prod.splits)
  then show ?thesis using sv advance_db_run [OF a] db_run_trans by blast
next
  case (Inl e)
  then obtain e1 where "submit_prechecks d ident (sf_get ft) req db = (Inl e, e1)" by (metis prod.collapse)
  then show ?thesis using assms(1) by (auto simp: SubmitPlan_def)
qed

lemma InvokeTool_db_run: "InvokeTool d ident ft now req s = (r, s') \<Longrightarrow> db_run sha w app (sb_db s) (sb_db s')"
  using InvokeTool_reaches reaches_db_run by (metis db_run_refl)

lemma EmitStatus_db_run: "EmitStatus d ident f g rt tid st db = (r, db') \<Longrightarrow> db_run sha w app db db'"
proof -
  assume e: "EmitStatus d ident f g rt tid st db = (r, db')"
  have "to \<noteq> TaskStateApproved" if "protoStatusToDBState st = Some to" for to using that by (cases st) auto
  then show "db_run sha w app db db'" using e
    by (auto simp: EmitStatus_def split: sum.splits option.splits south_error.splits db_error.splits dest: db_run_transition)
qed

lemma Resolve_db_run:
  assumes "Resolve sha256 check mint ft now ident su ten tid who ok reason digest db = (r, db')"
  shows "db_run sha w True db db'"
proof (cases "db' = db")
  case False
  then have "\<exists>aid outcome. ResolveApproval (rf_vote ft) now ten aid who ok db = Inr (outcome, db')"
    using assms unfolding Resolve_def Let_def by (auto split: if_splits sum.splits prod.splits)
  then obtain aid outcome where "ResolveApproval (rf_vote ft) now ten aid who ok db = Inr (outcome, db')" by blast
  then have "ResolveApproval False now ten aid who ok db = Inr (outcome, db')"
    by (auto simp: ResolveApproval_def split: if_splits)
  then show ?thesis by (intro db_run_op [of _ _ _ "OResolve now ten aid who ok"]) (simp_all add: run_op_def)
qed simp

section \<open>The broker as a transition system\<close>

text \<open>
  The remaining writers of the task store: creating a task, cancelling it (with the
  withdrawal of its gate), and the expiry of a gate with the timeout of its task.
\<close>

fun other_writer :: "store_op \<Rightarrow> bool" where
  "other_writer (OCreate t) = True"
| "other_writer (OTransition ten tid from to) = (to \<in> {TaskStateCancelled, TaskStateTimeout})"
| "other_writer (OExpire now ten aid) = True"
| "other_writer (OWithdraw ten tid who) = True"
| "other_writer _ = False"

inductive broker_step :: "(string \<Rightarrow> string) \<Rightarrow> SbState \<Rightarrow> SbState \<Rightarrow> bool" for sha where
  submit: "SubmitPlan d ident ft now nid req (sb_db s) = (r, evs, db') \<Longrightarrow> dp_Sha256 d = sha \<Longrightarrow> submit_wf req
    \<Longrightarrow> broker_step sha s (s\<lparr>sb_db := db', sb_audit := sb_audit s @ evs\<rparr>)"
| invoke: "InvokeTool d ident ft now req s = (r, s') \<Longrightarrow> broker_step sha s s'"
| status: "EmitStatus d ident f g rt tid st (sb_db s) = (r, db') \<Longrightarrow> broker_step sha s (s\<lparr>sb_db := db'\<rparr>)"
| resolve: "Resolve sha check mint ft now ident su ten tid who ok reason digest (sb_db s) = (r, db')
    \<Longrightarrow> broker_step sha s (s\<lparr>sb_db := db'\<rparr>)"
| other: "other_writer op \<Longrightarrow> broker_step sha s (s\<lparr>sb_db := exec op (sb_db s)\<rparr>)"

inductive broker_reach :: "(string \<Rightarrow> string) \<Rightarrow> SbState \<Rightarrow> bool" for sha where
  start: "sb_db s = empty_Db \<Longrightarrow> broker_reach sha s"
| step: "broker_reach sha s \<Longrightarrow> broker_step sha s s' \<Longrightarrow> broker_reach sha s'"

inductive_cases broker_stepE: "broker_step sha s s'"

lemma other_run: "other_writer op \<Longrightarrow> db_run sha w False db (exec op db)"
  by (cases op) (auto simp: run_op_def intro!: db_run_op simp del: exec.simps)

lemma db_run_mono: "db_run sha w app db db' \<Longrightarrow> (app \<longrightarrow> app') \<Longrightarrow> db_run sha w app' db db'"
  by (auto simp: db_run_def run_op_def list_all_iff)

lemma broker_step_run: "broker_step sha s s' \<Longrightarrow> db_run sha w True (sb_db s) (sb_db s')"
  by (erule broker_stepE)
    (auto dest: SubmitPlan_db_run EmitStatus_db_run Resolve_db_run InvokeTool_db_run other_run intro: db_run_mono)

lemma broker_reach_inv: "broker_reach sha s \<Longrightarrow> rows_ok sha (sb_db s) \<and> gates_wf (sb_db s)"
proof (induction rule: broker_reach.induct)
  case (start s)
  then show ?case by (simp add: rows_ok_def empty_gates_wf) (simp add: empty_Db_def)
next
  case (step s s')
  then show ?case using db_run_rows [OF broker_step_run] db_run_gates [OF broker_step_run] by blast
qed

section \<open>How a task becomes approved\<close>

definition not_approved :: "string \<Rightarrow> Db \<Rightarrow> bool" where
  "not_approved tid db = (\<forall>t. tasks db tid = Some t \<longrightarrow> State t \<noteq> TaskStateApproved)"

lemma upd_not_approved:
  "not_approved tid db \<Longrightarrow> (tid = tid' \<longrightarrow> State t \<noteq> TaskStateApproved) \<Longrightarrow> not_approved tid (db\<lparr>tasks := (tasks db)(tid' \<mapsto> t)\<rparr>)"
  by (auto simp: not_approved_def)

lemma transitionExec_not_approved:
  "transitionExec ten tid' a b db = Inr db' \<Longrightarrow> \<not> (tid' = tid \<and> b = TaskStateApproved) \<Longrightarrow> not_approved tid db \<Longrightarrow> not_approved tid db'"
  by (auto simp: transitionExec_def upd_not_approved split: option.splits if_splits)

lemma cost_not_approved:
  assumes "not_approved tid db" "visible_task db ten tid' = Some t"
  shows "not_approved tid (db\<lparr>tasks := (tasks db)(tid' \<mapsto> t\<lparr>CostConsumed := c\<rparr>)\<rparr>)"
  using assms visible_task_SomeD [OF assms(2)] by (intro upd_not_approved) (auto simp: not_approved_def)

lemma InsertPlanSteps_moves:
  "InsertPlanSteps f ten tid steps (Some st) db = Inr db'
   \<Longrightarrow> \<exists>d. transitionExec ten tid TaskStateValidating st db = Inr d \<and> tasks db' = tasks d"
  by (auto simp: InsertPlanSteps_def bindE_eq_Inr split: if_splits)

lemma Create_not_approved: "Create f t db = Inr db' \<Longrightarrow> not_approved tid db \<Longrightarrow> not_approved tid db'"
  unfolding Create_def not_approved_def by (auto split: if_splits option.splits)

lemma exec_not_approved:
  assumes "not_approved tid db" "\<not> approving tid op"
  shows "not_approved tid (exec op db)"
proof (cases op)
  case (OTransition ten tid' a b)
  then show ?thesis using assms transitionExec_not_approved
    by (cases "Transition False ten tid' a b db") (auto simp: Transition_def split: if_splits)
next
  case (OInsert ten tid' steps to)
  show ?thesis
  proof (cases "InsertPlanSteps False ten tid' steps to db")
    case (Inr db')
    show ?thesis
    proof (cases to)
      case None
      then have "tasks db' = tasks db" using InsertPlanSteps_None Inr by blast
      then have "not_approved tid db'" using assms(1) by (simp add: not_approved_def)
      then show ?thesis using Inr OInsert by simp
    next
      case (Some st)
      then obtain d where "transitionExec ten tid' TaskStateValidating st db = Inr d" "tasks db' = tasks d"
        using InsertPlanSteps_moves Inr by blast
      then have "not_approved tid db'"
        using transitionExec_not_approved [of ten tid' TaskStateValidating st db d tid] assms OInsert Some by (simp add: not_approved_def)
      then show ?thesis using Inr OInsert by simp
    qed
  qed (simp add: OInsert assms(1))
next
  case (OCreate t)
  then show ?thesis using assms(1) by (cases "Create False t db") (auto simp: Create_not_approved)
next
  case (OReserve ten tid' seq)
  then show ?thesis using assms(1)
    by (auto simp: ReserveCost_def Let_def cost_not_approved split: option.splits)
next
  case (OIncrement ten tid' u)
  then show ?thesis using assms(1)
    by (auto simp: IncrementCost_def Let_def cost_not_approved split: option.splits)
next
  case (OResolve a b c e f)
  then show ?thesis using assms(2) by simp
qed (use assms(1) in \<open>auto simp: not_approved_def ClaimPlanStep_def CreateApprovalRequest_def ExpireApproval_def WithdrawApproval_def Let_def
    split: option.splits\<close>)

lemma run_not_approved:
  assumes "db_run sha tid app db db'" "\<not> app" "not_approved tid db"
  shows "not_approved tid db'"
proof -
  have "list_all (run_op sha tid app) ops \<Longrightarrow> not_approved tid d \<Longrightarrow> not_approved tid (run ops d)" for ops d
    using assms(2) by (induction ops arbitrary: d) (auto simp: run_op_def exec_not_approved)
  then show ?thesis using assms(1,3) by (auto simp: db_run_def)
qed

text \<open>A vote that approves a task leaves an approved gate of that task behind.\<close>

lemma ResolveApproval_approves:
  assumes "ResolveApproval f now ten aid who ok db = Inr (r, db')" "not_approved tid db" "\<not> not_approved tid db'"
  shows "\<exists>a \<in> set (approvals db'). ar_TaskID a = tid \<and> ar_TenantID a = ten \<and> ar_State a = ApprovalApproved"
proof -
  obtain a where a: "List.find (\<lambda>a. ApprovalID a = aid \<and> ar_TenantID a = ten \<and> ExpiresAt a > now) (approvals db) = Some a"
    using assms(1) by (auto simp: ResolveApproval_def split: if_splits option.splits)
  obtain a' res where v: "vote who ok a = (a', res)" by (metis prod.exhaust)
  let ?db1 = "db\<lparr>approvals := map (\<lambda>x. if ApprovalID x = aid \<and> ar_TenantID x = ten then a' else x) (approvals db)\<rparr>"
  let ?to = "if ar_State a' = ApprovalDenied then TaskStateDenied else TaskStateApproved"
  have "db' = ?db1 \<or> (res \<and> transitionExec ten (ar_TaskID a) TaskStateAwaitingApproval ?to ?db1 = Inr db')"
    using assms(1) a v by (auto simp: ResolveApproval_def Let_def bindE_eq_Inr split: if_splits)
  moreover have n1: "not_approved tid ?db1" using assms(2) by (simp add: not_approved_def)
  ultimately have t: "res" "transitionExec ten (ar_TaskID a) TaskStateAwaitingApproval ?to ?db1 = Inr db'" using assms(3) by auto
  have to: "ar_TaskID a = tid" "?to = TaskStateApproved" using transitionExec_not_approved [OF t(2) _ n1] assms(3) by metis+
  have "ar_State a' = ApprovalApproved" "ar_TaskID a' = ar_TaskID a" "ar_TenantID a' = ar_TenantID a"
    using v t(1) to(2) by (auto simp: vote_def Let_def split: if_splits)
  moreover have "a' \<in> set (approvals db')"
    using transitionExec_approvals [OF t(2)] find_SomeD [OF a] by force
  ultimately show ?thesis using find_SomeD [OF a] to(1) by auto
qed

lemma Resolve_approves:
  assumes "Resolve sha256 check mint ft now ident su ten tid' who ok reason digest db = (r, db')" "not_approved tid db" "\<not> not_approved tid db'"
  shows "\<exists>a \<in> set (approvals db'). ar_TaskID a = tid \<and> ar_State a = ApprovalApproved"
proof -
  have "db' \<noteq> db" using assms(2,3) by auto
  then have "\<exists>aid outcome. ResolveApproval (rf_vote ft) now ten aid who ok db = Inr (outcome, db')"
    using assms(1) unfolding Resolve_def Let_def by (auto split: if_splits sum.splits prod.splits)
  then show ?thesis using ResolveApproval_approves assms(2,3) by blast
qed


definition ex_idle :: "Db \<Rightarrow> SbState" where
  "ex_idle db = \<lparr>sb_db = db, sb_limiter = New_Limiter, sb_audit = [], sb_calls = []\<rparr>"

lemma ex_reach_created: "broker_reach sha (ex_idle ex_created)"
proof -
  have "broker_step sha (ex_idle empty_Db) ((ex_idle empty_Db)\<lparr>sb_db := exec (OCreate example_task) (sb_db (ex_idle empty_Db))\<rparr>)"
    by (rule broker_step.other) simp
  moreover have "(ex_idle empty_Db)\<lparr>sb_db := exec (OCreate example_task) (sb_db (ex_idle empty_Db))\<rparr> = ex_idle ex_created"
    by (simp add: ex_idle_def ex_created_def Create_def empty_Db_def example_task_def)
  moreover have "broker_reach sha (ex_idle empty_Db)" by (rule broker_reach.start) (simp add: ex_idle_def)
  ultimately show ?thesis using broker_reach.step by metis
qed

lemma ex_args_wf: "args_wf (Some ex_args)" "submit_wf ex_submit"
  by (simp_all add: args_wf_def ex_args_def submit_wf_def ex_submit_def)

definition ex_approved :: SbState where
  "ex_approved = (ex_idle ex_created)\<lparr>sb_db := snd (snd (ex_result (ex_decision True False))),
     sb_audit := fst (snd (ex_result (ex_decision True False)))\<rparr>"

lemma ex_approved_step: "broker_step ((#) (CHR ''h'')) (ex_idle ex_created) ex_approved"
proof -
  obtain r evs db' where r: "ex_result (ex_decision True False) = (r, evs, db')" by (metis prod.exhaust)
  have "broker_step ((#) (CHR ''h'')) (ex_idle ex_created) ((ex_idle ex_created)\<lparr>sb_db := db', sb_audit := sb_audit (ex_idle ex_created) @ evs\<rparr>)"
    using r ex_args_wf(2) by (intro broker_step.submit) (auto simp: ex_result_def ex_idle_def ex_plan_deps_def ex_deps_def)
  then show ?thesis by (simp add: ex_approved_def r ex_idle_def)
qed

lemma ex_approved_task: "map_option State (tasks (sb_db ex_approved) ''t1'') = Some TaskStateApproved"
  by code_simp


section \<open>What is dispatched is what was planned\<close>

text \<open>The argument document; a call without arguments means an empty object.\<close>

definition args_obj :: "json option \<Rightarrow> json" where
  "args_obj args = (case args of None \<Rightarrow> JObj [] | Some j \<Rightarrow> j)"

lemma obj_fields_Nil: "args_wf args \<Longrightarrow> obj_fields args = [] \<Longrightarrow> args_obj args = JObj []"
  by (auto simp: args_wf_def args_obj_def split: option.splits)

lemma args_obj_wf: "args_wf args \<Longrightarrow> wf_json (args_obj args)"
  by (auto simp: args_wf_def args_obj_def split: option.splits)

lemma hashed_alike:
  assumes "argsHash sha a \<in> set (arg_hashes sha b)" "args_wf a" "args_wf b" "\<forall>x. sha x \<noteq> []"
  shows "args_obj a = args_obj b \<or> sha (json_Marshal (args_obj a)) = sha (json_Marshal (args_obj b))"
proof (cases "obj_fields b = []")
  case True
  then show ?thesis using assms obj_fields_Nil [OF assms(3) True]
    by (cases a) (auto simp: arg_hashes_def argsHash_def args_obj_def)
next
  case False
  then obtain j where "b = Some j" by (cases b) auto
  then show ?thesis using assms False by (cases a) (auto simp: arg_hashes_def argsHash_def args_obj_def eq_commute [of "[]"])
qed

text \<open>C3.  In every state the broker can reach, a request that goes to the tool proxy carries
  the arguments of a stored plan step of that task: a row with the same tool that policy did
  not deny and no call has used, whose arguments are those of the call up to the order of map
  keys; the only way out would be two different argument texts with the same SHA-256.  The
  hypothesis on the hash is that a digest is never the empty string.\<close>

theorem dispatched_args_are_planned:
  assumes "broker_reach sha s" "InvokeTool d ident ft now req s = (r, s')" "sb_calls s' \<noteq> sb_calls s" "dp_Sha256 d = sha"
    and "args_wf (rq_Args req)" "\<forall>x. sha x \<noteq> []"
  shows "\<exists>row \<in> set (plan_steps (sb_db s)). ps_TaskID row = rq_TaskId req \<and> ps_ToolID row = rq_ToolId req
    \<and> ps_PolicyDecision row \<noteq> PolicyDeny \<and> \<not> consumed row
    \<and> (sort_keys (args_obj (ps_Args row)) = sort_keys (args_obj (rq_Args req))
       \<or> (let x = json_Marshal (args_obj (ps_Args row)); y = json_Marshal (args_obj (rq_Args req)) in x \<noteq> y \<and> sha x = sha y))"
proof -
  from side_effect_facts [OF assms(2,3)] obtain seq and task :: Task and row :: StepRow where
    row: "row \<in> set (plan_steps (sb_db s))" "step_at (TenantID task) (rq_TaskId req) seq row"
      "claimable (rq_ToolId req) (arg_hashes sha (rq_Args req)) row" unfolding assms(4) by blast
  have ok: "ps_ArgsHash row = argsHash sha (ps_Args row)" "args_wf (ps_Args row)"
    using broker_reach_inv [OF assms(1)] row(1) by (auto simp: rows_ok_def list_all_iff row_ok_def)
  have "args_obj (ps_Args row) = args_obj (rq_Args req)
      \<or> sha (json_Marshal (args_obj (ps_Args row))) = sha (json_Marshal (args_obj (rq_Args req)))"
    using hashed_alike [of sha "ps_Args row" "rq_Args req"] ok row(3) assms(5,6) by (auto simp: claimable_def)
  moreover have "json_Marshal (args_obj (ps_Args row)) = json_Marshal (args_obj (rq_Args req))
      \<longleftrightarrow> sort_keys (args_obj (ps_Args row)) = sort_keys (args_obj (rq_Args req))"
    unfolding json_Marshal_def by (rule json_encode_inject [OF args_obj_wf [OF ok(2)] args_obj_wf [OF assms(5)]])
  ultimately show ?thesis using row by (intro bexI [of _ row]) (auto simp: step_at_def claimable_def Let_def)
qed

lemma ex_run_dispatched:
  "sb_calls (snd (InvokeTool (ex_plan_deps (ex_decision True False)) (Some ex_gateway) ex_faults 0 ex_req ex_approved)) \<noteq> sb_calls ex_approved"
  by code_simp

theorem dispatched_args_are_planned_witness:
  "\<exists>row \<in> set (plan_steps (sb_db ex_approved)). ps_ToolID row = ''slack.post'' \<and> \<not> consumed row"
proof -
  have "broker_reach ((#) (CHR ''h'')) ex_approved" using broker_reach.step [OF ex_reach_created ex_approved_step] .
  from dispatched_args_are_planned [OF this prod.collapse [symmetric] ex_run_dispatched] show ?thesis
    by (auto simp: ex_plan_deps_def ex_req_def ex_args_wf(1))
qed

section \<open>Calls that go through\<close>

lemma claimPlanStep_succeeds:
  assumes "ParseInt16 (TrimSpace (rq_StepId req)) = Some seq" "visible_task db ten (rq_TaskId req) = Some t"
    and "CostConsumed t + reserve_units db ten (rq_TaskId req) seq \<le> CostBudget t"
    and "List.find (step_at ten (rq_TaskId req) seq) (plan_steps db) = Some row"
    and "claimable (rq_ToolId req) (arg_hashes (dp_Sha256 d) (rq_Args req)) row"
    and "\<not> if_reserve ft" "\<not> if_claim ft" "\<forall>x. dp_Sha256 d x \<noteq> []"
  shows "\<exists>u db'. claimPlanStep d ft ten req db = (StepClaimed u, db')"
proof -
  let ?u = "reserve_units db ten (rq_TaskId req) seq"
  let ?db1 = "db\<lparr>tasks := (tasks db)(rq_TaskId req \<mapsto> t\<lparr>CostConsumed := CostConsumed t + ?u\<rparr>)\<rparr>"
  let ?hs = "arg_hashes (dp_Sha256 d) (rq_Args req)"
  have r: "ReserveCost (if_reserve ft) ten (rq_TaskId req) seq db = Inr (?u, ?db1)"
    using assms(2,3,6) by (simp add: ReserveCost_def Let_def)
  have m: "\<exists>db'. matchPlanStep (if_claim ft) ten req seq ?hs ?db1 = (Inr [], db')"
    using assms(4,5,7) by (simp add: matchPlanStep_def ClaimPlanStep_def Let_def)
  have "\<not> (obj_fields (rq_Args req) \<noteq> [] \<and> hd ?hs = [])"
    using assms(8) by (cases "rq_Args req") (auto simp: arg_hashes_def argsHash_def)
  then show ?thesis using assms(1) r m by (auto simp: claimPlanStep_def Let_def)
qed

text \<open>C6.  The gates are not stricter than they say: a permitted call that names an unused
  stored step with the same tool and argument hash, whose estimated cost fits the budget and
  which the rate limiter admits, reaches the tool proxy exactly once when the store answers,
  and the caller gets the tool's own result.\<close>

theorem permitted_call_is_dispatched:
  assumes "permitted d ident req (sb_db s) task" "ParseInt16 (TrimSpace (rq_StepId req)) = Some seq"
    and "CostConsumed task + reserve_units (sb_db s) (TenantID task) (rq_TaskId req) seq \<le> CostBudget task"
    and "List.find (step_at (TenantID task) (rq_TaskId req) seq) (plan_steps (sb_db s)) = Some row"
    and "claimable (rq_ToolId req) (arg_hashes (dp_Sha256 d) (rq_Args req)) row"
    and "dp_RateLimiter d \<longrightarrow> check_decide now (TenantID task) (str_of (AgentID task)) (sb_limiter s)"
    and "dp_ToolProxy d = Some proxy" "proxy (proxy_request d req task (TenantID task)) = Inr res"
    and "\<not> if_get ft" "\<not> if_reserve ft" "\<not> if_claim ft" "\<forall>x. dp_Sha256 d x \<noteq> []"
  shows "\<exists>s'. InvokeTool d ident ft now req s = (Inr (invoke_answer res), s')
    \<and> sb_calls s' = sb_calls s @ [proxy_request d req task (TenantID task)]"
proof -
  obtain evs where g: "invoke_gates d ident (if_get ft) req (sb_db s) = (Inr (task, TenantID task), evs)"
    using invoke_gates_exact [of d ident "if_get ft" req "sb_db s" task "TenantID task"] assms(1,9) by (metis prod.collapse)
  have t: "visible_task (sb_db s) (TenantID task) (rq_TaskId req) = Some task"
    using assms(1) southTask_Inr(3) unfolding permitted_def by blast
  obtain u db' where c: "claimPlanStep d ft (TenantID task) req (sb_db s) = (StepClaimed u, db')"
    using claimPlanStep_succeeds [OF assms(2) t assms(3-5,10-12)] by blast
  have ic: "\<exists>s'. invoke_claimed d ident ft req task (TenantID task) s0 = (Inr (invoke_answer res), s')
      \<and> sb_calls s' = sb_calls s @ [proxy_request d req task (TenantID task)]"
    if "sb_db s0 = sb_db s" "sb_calls s0 = sb_calls s" for s0
    using that c assms(7,8) by (auto simp: invoke_claimed_def dispatch_def Let_def split: prod.splits)
  then show ?thesis using assms(6) by (auto simp: InvokeTool_def g CheckToolInvocation_def Let_def)
qed

definition ex_running_task :: Task where
  "ex_running_task = example_task\<lparr>State := TaskStateApproved\<rparr>"

lemma ex_run_permitted: "permitted (ex_plan_deps (ex_decision True False)) (Some ex_gateway) ex_req (sb_db ex_approved) ex_running_task"
proof -
  have "fst (invoke_gates (ex_plan_deps (ex_decision True False)) (Some ex_gateway) False ex_req (sb_db ex_approved))
      = Inr (ex_running_task, ''acme'')" by code_simp
  then show ?thesis by (simp add: invoke_gates_exact)
qed

lemma ex_run_facts:
  "ParseInt16 (TrimSpace (rq_StepId ex_req)) = Some 1"
  "CostConsumed ex_running_task + reserve_units (sb_db ex_approved) (TenantID ex_running_task) (rq_TaskId ex_req) 1 \<le> CostBudget ex_running_task"
  "check_decide 0 (TenantID ex_running_task) (str_of (AgentID ex_running_task)) (sb_limiter ex_approved)"
  "(case List.find (step_at (TenantID ex_running_task) (rq_TaskId ex_req) 1) (plan_steps (sb_db ex_approved)) of
      None \<Rightarrow> False | Some row \<Rightarrow> claimable (rq_ToolId ex_req) (arg_hashes (dp_Sha256 (ex_plan_deps (ex_decision True False))) (rq_Args ex_req)) row)"
  by code_simp+

theorem permitted_call_is_dispatched_witness:
  "\<exists>s' px. InvokeTool (ex_plan_deps (ex_decision True False)) (Some ex_gateway) ex_faults 0 ex_req ex_approved
      = (Inr \<lparr>rs_Success = True, rs_Error = [], rs_CostUnitsConsumed = 2\<rparr>, s') \<and> sb_calls s' = [px]"
proof -
  let ?d = "ex_plan_deps (ex_decision True False)"
  obtain row where r: "List.find (step_at (TenantID ex_running_task) (rq_TaskId ex_req) 1) (plan_steps (sb_db ex_approved)) = Some row"
    "claimable (rq_ToolId ex_req) (arg_hashes (dp_Sha256 ?d) (rq_Args ex_req)) row"
    using ex_run_facts(4) by (auto split: option.splits)
  obtain proxy where p: "dp_ToolProxy ?d = Some proxy"
    "proxy (proxy_request ?d ex_req ex_running_task (TenantID ex_running_task))
       = Inr \<lparr>tr_Success = True, tr_Error = [], tr_CostUnits = 2, tr_Flagged = False, tr_Encodes = True\<rparr>"
    by (simp add: ex_plan_deps_def ex_deps_def)
  have f: "\<not> if_get ex_faults" "\<not> if_reserve ex_faults" "\<not> if_claim ex_faults" "\<forall>x. dp_Sha256 ?d x \<noteq> []"
    by (simp_all add: ex_faults_def ex_plan_deps_def)
  from permitted_call_is_dispatched [OF ex_run_permitted ex_run_facts(1,2) r _ p f, of 0] ex_run_facts(3) show ?thesis
    by (auto simp: invoke_answer_def ex_approved_def ex_idle_def)
qed

end
