(* ===== verification/TaskHandlers.thy ===== *)
theory TaskHandlers
  imports AgentRun GatewayGrant BrokerRun
begin

text \<open>
  The handlers that create, read, approve and cancel tasks: broker/internal/broker/service_tasks.go
  for the north-bound API, gateway_tasks.go for the agent gateway, approval_expiry.go for the sweep
  of expired gates.  A handler takes the task store and answers a result, the OpenFGA tuples and
  audit events it wrote, and the store afterwards.  Events carry the fields of \<open>AuditEvent\<close>; their
  trace, on-behalf-of chain and context are left out, as are the live stream's notifications.
\<close>

section \<open>Dependencies\<close>

datatype EnvelopeState = EnvelopePending | EnvelopeDelivered | EnvelopeAccepted | EnvelopeRejected
  | EnvelopeCompleted | EnvelopeExpired | EnvelopeDismissed

text \<open>
  A row of envelopes: the two keys of its target, the cost limit and the scopes of its delegation
  (\<open>None\<close> when the key is absent), and its expiry (\<open>None\<close> is the zero time).
\<close>

record Envelope =
  env_ID :: string
  env_ParentTaskID :: "string option"
  env_TenantID :: string
  env_FromUserID :: string
  env_ToType :: string
  env_ToID :: string
  env_MaxCostUnits :: int
  env_AttenuatedScopes :: "json option"
  env_State :: EnvelopeState
  env_ExpiresAt :: "int option"

record TaskDeps =
  td_Run :: RunDeps
  td_DevMode :: bool
  td_GatewaySpiffeID :: string
  td_Check :: fga_check
  td_Cfg :: "string \<Rightarrow> string \<Rightarrow> (unit, string) result"
  td_CfgInt :: "string \<Rightarrow> string \<Rightarrow> (unit, int) result"
  td_Minter :: minter
  td_Sha256 :: "string \<Rightarrow> string"
  td_GetEnvelope :: "string \<Rightarrow> string \<Rightarrow> Envelope option"
  td_CountEnvelopeTasks :: "string \<Rightarrow> string \<Rightarrow> string \<Rightarrow> (unit, nat) result"
  td_RevUser :: "string \<Rightarrow> string \<Rightarrow> (unit, RevState) result"
  td_RevOnBehalfOf :: "string \<Rightarrow> string \<Rightarrow> string \<Rightarrow> (unit, RevState) result"
  td_Mac :: mac
  td_GrantKey :: string
  td_AcceptV1 :: bool
  td_GrantTTL :: int

definition td_uuid_ok :: "TaskDeps \<Rightarrow> string \<Rightarrow> bool" where
  "td_uuid_ok d s = (rd_UUID (td_Run d) s \<noteq> None)"

definition td_admin :: "TaskDeps \<Rightarrow> string \<Rightarrow> (rpc_error, unit) result" where
  "td_admin d user = requireTenantAdmin (td_Check d) (''tenant:'' @ rd_TenantID (td_Run d)) user"

definition task_event :: "string \<Rightarrow> string \<Rightarrow> string \<Rightarrow> string \<Rightarrow> AuditPolicyDecision \<Rightarrow> AuditEvent" where
  "task_event tenant taskID actor etype dec =
     \<lparr>ev_Type = etype, ev_TenantID = tenant, ev_ActorUserID = actor, ev_ResourceRef = ''aikonos:task:'' @ taskID,
      ev_Decision = dec, ev_Reason = []\<rparr>"

section \<open>Storing a task (persistManagedTask)\<close>

definition maxPromptBytes :: nat where "maxPromptBytes = 32768"
definition maxClientRequestIDBytes :: nat where "maxClientRequestIDBytes = 512"

definition validateTaskFields :: "Task \<Rightarrow> (rpc_error, unit) result" where
  "validateTaskFields t =
     (if length (Prompt t) > maxPromptBytes then Inl (Status InvalidArgument ''prompt longer than 32768 bytes'')
      else if length (ClientRequestID t) > maxClientRequestIDBytes
      then Inl (Status InvalidArgument ''client_request_id longer than 512 bytes'')
      else Inr ())"

definition task_relations :: "TaskDeps \<Rightarrow> string \<Rightarrow> string \<Rightarrow> tuple3 list" where
  "task_relations d owner taskID =
     [(''user:'' @ owner, ''owner'', ''task:'' @ taskID), (''user:'' @ owner, ''approver'', ''task:'' @ taskID),
      (''tenant:'' @ rd_TenantID (td_Run d), ''tenant'', ''task:'' @ taskID)]"

text \<open>The handle is the task's id and its trace id.\<close>

definition persistManagedTask :: "TaskDeps \<Rightarrow> bool \<Rightarrow> Task \<Rightarrow> string \<Rightarrow> Db
  \<Rightarrow> (rpc_error, string \<times> string) result \<times> effects \<times> Db" where
  "persistManagedTask d fail t traceID db =
     (case validateTaskFields t of
        Inl e \<Rightarrow> (Inl e, ([], []), db)
      | Inr _ \<Rightarrow>
          (case Create fail t db of
             Inl (ErrClientRequestIDExists tid trace) \<Rightarrow> (Inr (tid, trace), (task_relations d (OwnerUserID t) tid, []), db)
           | Inl ErrClientRequestIDConflict \<Rightarrow>
               (Inl (Status AlreadyExists ''client_request_id already in use''),
                ([], [task_event (TenantID t) [] (OwnerUserID t) ''aikonos.broker.task.client_request_id_conflict'' DENY]), db)
           | Inl _ \<Rightarrow> (Inl (Status Internal ''failed to create task''), ([], []), db)
           | Inr db' \<Rightarrow>
               (Inr (TaskID t, traceID),
                (task_relations d (OwnerUserID t) (TaskID t), [task_event (TenantID t) (TaskID t) (OwnerUserID t) ''aikonos.broker.task.created'' ALLOW]),
                db')))"

section \<open>Envelopes\<close>

definition maxEnvelopeTasks :: nat where "maxEnvelopeTasks = 50"

definition envelopeUsable :: "int \<Rightarrow> Envelope \<Rightarrow> bool" where
  "envelopeUsable now env =
     ((case env_ExpiresAt env of None \<Rightarrow> True | Some t \<Rightarrow> \<not> now > t)
      \<and> env_State env \<in> {EnvelopePending, EnvelopeDelivered, EnvelopeAccepted, EnvelopeDismissed})"

definition ignored_event :: "string \<Rightarrow> string \<Rightarrow> string \<Rightarrow> string \<Rightarrow> AuditEvent" where
  "ignored_event tenant owner envelopeID reason =
     \<lparr>ev_Type = ''aikonos.broker.task.delegation_ignored'', ev_TenantID = tenant, ev_ActorUserID = owner,
      ev_ResourceRef = ''envelope:'' @ envelopeID, ev_Decision = DENY, ev_Reason = reason\<rparr>"

text \<open>The envelope, or the reason it is ignored.\<close>

definition envelope_check :: "TaskDeps \<Rightarrow> int \<Rightarrow> string \<Rightarrow> string \<Rightarrow> string \<Rightarrow> (string, Envelope) result" where
  "envelope_check d now tenant owner envelopeID =
     (case (if td_uuid_ok d envelopeID then td_GetEnvelope d tenant envelopeID else None) of
        None \<Rightarrow> Inl ''envelope_not_found''
      | Some env \<Rightarrow>
          if env_TenantID env \<noteq> tenant then Inl ''envelope_not_found''
          else if env_ToType env \<noteq> ''user'' \<or> env_ToID env \<noteq> owner then Inl ''envelope_not_recipient''
          else if \<not> envelopeUsable now env then Inl ''envelope_not_active''
          else (case td_CountEnvelopeTasks d tenant owner envelopeID of
                  Inl _ \<Rightarrow> Inl ''envelope_count_failed''
                | Inr n \<Rightarrow> if n \<ge> maxEnvelopeTasks then Inl ''envelope_task_cap'' else Inr env))"

definition envelopeDelegator :: "TaskDeps \<Rightarrow> int \<Rightarrow> string \<Rightarrow> string \<Rightarrow> string \<Rightarrow> Envelope option \<times> AuditEvent list" where
  "envelopeDelegator d now tenant owner envelopeID =
     (case envelope_check d now tenant owner envelopeID of
        Inl reason \<Rightarrow> (None, [ignored_event tenant owner envelopeID reason])
      | Inr env \<Rightarrow> (Some env, []))"

fun json_strings :: "json \<Rightarrow> string list" where
  "json_strings (JArr xs) = concat (map (\<lambda>x. case x of JStr s \<Rightarrow> [s] | _ \<Rightarrow> []) xs)"
| "json_strings _ = []"

definition delegationScopes :: "Envelope \<Rightarrow> string list option" where
  "delegationScopes env = map_option json_strings (env_AttenuatedScopes env)"

definition applyEnvelopeLimits :: "Task \<Rightarrow> Envelope \<Rightarrow> Task" where
  "applyEnvelopeLimits t env =
     (let c = env_MaxCostUnits env in
      t\<lparr>DelegatedByUserID := Some (env_FromUserID env), OBOKind := Some KindDelegated, EnvelopeID := Some (env_ID env),
        ParentTaskID := (if env_ParentTaskID env \<noteq> None then env_ParentTaskID env else ParentTaskID t),
        CostBudget := (if c > 0 \<and> (CostBudget t \<le> 0 \<or> c < CostBudget t) then c else CostBudget t),
        DelegatedScopes := (case delegationScopes env of Some s \<Rightarrow> Some s | None \<Rightarrow> DelegatedScopes t)\<rparr>)"

section \<open>Creating a task (service_tasks.go)\<close>

definition northActor :: "TaskDeps \<Rightarrow> string \<Rightarrow> string \<Rightarrow> string \<Rightarrow> (rpc_error, string option) result \<times> effects" where
  "northActor d tenant owner agentID =
     (if agentID \<noteq> [] \<and> \<not> td_uuid_ok d agentID then (Inl (Status InvalidArgument ''invalid agent_id''), [], [])
      else case rd_Agents (td_Run d) of
             None \<Rightarrow>
               if agentID = [] then (Inr None, [], [])
               else (Inl (Status PermissionDenied (''you do not have access to agent '' @ agentID)), [],
                     [agent_event tenant owner agentID ''aikonos.broker.task.denied'' ''actor_not_found''])
           | Some st \<Rightarrow>
               (case runAgent (td_Run d) st tenant owner agentID of
                  (RunErr, rels, evs) \<Rightarrow> (Inl (Status Unavailable ''agent could not be resolved; retry''), rels, evs)
                | (RunRefused reason, rels, evs) \<Rightarrow>
                    (Inl (runAgentErr reason agentID), rels, evs @ [agent_event tenant owner agentID ''aikonos.broker.task.denied'' reason])
                | (RunOk a, rels, evs) \<Rightarrow> (Inr (Some (ag_ID a)), rels, evs)))"

definition gatewayExecutionHint :: string where "gatewayExecutionHint = ''aikonos:execution=gateway''"

definition hasGatewayHint :: "string list \<Rightarrow> bool" where
  "hasGatewayHint hints = list_ex (\<lambda>h. h = gatewayExecutionHint) hints"

record CreateTaskReq =
  ct_TenantId :: string
  ct_UserId :: string
  ct_CostBudget :: int
  ct_AgentId :: string
  ct_Prompt :: string
  ct_SkillHints :: "string list"
  ct_ClientRequestId :: string
  ct_Deadline :: "int option"
  ct_ParentTaskId :: string
  ct_EnvelopeId :: string

definition new_task :: "string \<Rightarrow> string \<Rightarrow> string \<Rightarrow> string \<Rightarrow> int \<Rightarrow> string \<Rightarrow> string option \<Rightarrow> string \<Rightarrow> bool \<Rightarrow> Task" where
  "new_task taskID tenant owner prompt budget traceID agentID crid managed =
     \<lparr>TaskID = taskID, ParentTaskID = None, TenantID = tenant, OwnerUserID = owner, State = TaskStateCreated, Prompt = prompt,
      CostBudget = budget, CostConsumed = 0, TraceID = traceID, Deadline = None, GatewayManaged = managed, AgentID = agentID,
      ClientRequestID = crid, DelegatedByUserID = None, ExternalClientID = None, GrantID = None, OBOKind = None, EnvelopeID = None,
      DelegatedScopes = None, ServiceAgent = False\<rparr>"

text \<open>The parent named by the request; the envelope, when it is usable.\<close>

definition with_parent :: "TaskDeps \<Rightarrow> string \<Rightarrow> Task \<Rightarrow> (rpc_error, Task) result" where
  "with_parent d parent t =
     (if parent = [] then Inr t
      else case rd_UUID (td_Run d) parent of
             None \<Rightarrow> Inl (Status InvalidArgument ''invalid parent_task_id'')
           | Some pid \<Rightarrow> Inr (t\<lparr>ParentTaskID := Some pid\<rparr>))"

definition with_envelope :: "TaskDeps \<Rightarrow> int \<Rightarrow> string \<Rightarrow> string \<Rightarrow> string \<Rightarrow> Task \<Rightarrow> Task \<times> AuditEvent list" where
  "with_envelope d now tenant owner envelopeID t =
     (if envelopeID = [] then (t, [])
      else case envelopeDelegator d now tenant owner envelopeID of
             (None, evs) \<Rightarrow> (t, evs)
           | (Some env, evs) \<Rightarrow> (applyEnvelopeLimits t env, evs))"

definition CreateTask :: "TaskDeps \<Rightarrow> Identity option \<Rightarrow> bool \<Rightarrow> int \<Rightarrow> string \<Rightarrow> string \<Rightarrow> CreateTaskReq \<Rightarrow> Db
  \<Rightarrow> (rpc_error, string \<times> string) result \<times> effects \<times> Db" where
  "CreateTask d ident fail now newID traceID req db =
     (case callerIdentity (td_uuid_ok d) ident (ct_TenantId req) (ct_UserId req) of
        Inl e \<Rightarrow> (Inl e, ([], []), db)
      | Inr (tenant, owner) \<Rightarrow>
          (case rd_UUID (td_Run d) tenant of
             None \<Rightarrow> (Inl (Status InvalidArgument ''invalid tenant_id''), ([], []), db)
           | Some tenantID \<Rightarrow>
               (case northActor d tenant owner (ct_AgentId req) of
                  (Inl e, eff) \<Rightarrow> (Inl e, eff, db)
                | (Inr agentID, rels1, evs1) \<Rightarrow>
                    (let budget = (if ct_CostBudget req = 0 then 1000 else ct_CostBudget req);
                         t0 = (new_task newID tenantID owner (ct_Prompt req) budget traceID agentID (ct_ClientRequestId req) (hasGatewayHint (ct_SkillHints req)))
                                \<lparr>OBOKind := Some KindInteractive, Deadline := ct_Deadline req\<rparr>
                     in case with_parent d (ct_ParentTaskId req) t0 of
                          Inl e \<Rightarrow> (Inl e, (rels1, evs1), db)
                        | Inr t1 \<Rightarrow>
                            (case with_envelope d now tenant owner (ct_EnvelopeId req) t1 of
                               (t2, evs2) \<Rightarrow>
                                 (case persistManagedTask d fail t2 traceID db of
                                    (r, (rels3, evs3), db') \<Rightarrow> (r, (rels1 @ rels3, evs1 @ evs2 @ evs3), db')))))))"

section \<open>Reading and approving (service_tasks.go)\<close>

definition readableTask :: "TaskDeps \<Rightarrow> bool \<Rightarrow> string \<Rightarrow> string \<Rightarrow> string \<Rightarrow> Db \<Rightarrow> Task check" where
  "readableTask d fail tenant user taskID db =
     (case Get fail tenant taskID db of
        Inl ErrNotFound \<Rightarrow> refuse NotFound ''task not found'' []
      | Inl _ \<Rightarrow> refuse Internal ''failed to get task'' []
      | Inr t \<Rightarrow>
          if OwnerUserID t = user then pass t
          else
            (let err = (case td_Check d (''user:'' @ user) ''can_approve'' (''task:'' @ taskID) of
                          Inl _ \<Rightarrow> Inl (Status Internal ''authorization check failed'')
                        | Inr True \<Rightarrow> Inr ()
                        | Inr False \<Rightarrow> td_admin d user)
             in case err of
                  Inr _ \<Rightarrow> pass t
                | Inl e \<Rightarrow>
                    (Inl (if code e = PermissionDenied
                          then Status PermissionDenied ''only the task owner, an approver, or a tenant admin may read this task'' else e),
                     [task_event tenant taskID user ''aikonos.broker.task.get_denied'' DENY])))"

definition GetTaskState :: "TaskDeps \<Rightarrow> Identity option \<Rightarrow> bool \<Rightarrow> string \<Rightarrow> string \<Rightarrow> Db \<Rightarrow> Task check" where
  "GetTaskState d ident fail reqTenant taskID db =
     (case callerIdentity (td_uuid_ok d) ident reqTenant [] of
        Inl e \<Rightarrow> (Inl e, [])
      | Inr (tenant, user) \<Rightarrow> readableTask d fail tenant user taskID db)"

definition stepUpRule :: "TaskDeps \<Rightarrow> string \<Rightarrow> (rpc_error, StepUp) result" where
  "stepUpRule d tenant =
     (case td_Cfg d tenant ''approvals.step_up_acr'' of
        Inl _ \<Rightarrow> Inl (Status Internal ''failed to load step-up settings'')
      | Inr acr \<Rightarrow>
          (case td_CfgInt d tenant ''approvals.step_up_max_age_minutes'' of
             Inl _ \<Rightarrow> Inl (Status Internal ''failed to load step-up settings'')
           | Inr mins \<Rightarrow> Inr \<lparr>su_ACR = acr, su_MaxAge = mins * 60 * 1000000000\<rparr>))"

record ApproveReq =
  ap_TenantId :: string
  ap_TaskId :: string
  ap_ApproverUserId :: string
  ap_Approved :: bool
  ap_Reason :: string
  ap_ArgsDigest :: string

definition stepup_event :: "string \<Rightarrow> string \<Rightarrow> string \<Rightarrow> AuditEvent" where
  "stepup_event tenant taskID approver = task_event tenant taskID approver ''aikonos.broker.task.step_up_required'' DENY"

text \<open>What both approve handlers do once tenant and approver are fixed.\<close>

definition approve_as :: "TaskDeps \<Rightarrow> Identity option \<Rightarrow> ResolveFaults \<Rightarrow> int \<Rightarrow> string \<Rightarrow> string \<Rightarrow> string \<Rightarrow> bool \<Rightarrow> string \<Rightarrow> string \<Rightarrow> Db
  \<Rightarrow> (rpc_error, ResolveResult) result \<times> AuditEvent list \<times> Db" where
  "approve_as d ident ft now tenant taskID approver approved reason digest db =
     (case stepUpRule d tenant of
        Inl e \<Rightarrow> (Inl e, [], db)
      | Inr stepUp \<Rightarrow>
          (case Resolve (td_Sha256 d) (td_Check d) (td_Minter d) ft now ident stepUp tenant taskID approver approved reason digest db of
             (Inl e, db') \<Rightarrow> (Inl e, if IsStepUpRequired e then [stepup_event tenant taskID approver] else [], db')
           | (Inr r, db') \<Rightarrow> (Inr r, [task_event tenant taskID approver (eventType r) (rr_decision r)], db')))"

definition ApproveTask :: "TaskDeps \<Rightarrow> Identity option \<Rightarrow> ResolveFaults \<Rightarrow> int \<Rightarrow> ApproveReq \<Rightarrow> Db
  \<Rightarrow> (rpc_error, ResolveResult) result \<times> AuditEvent list \<times> Db" where
  "ApproveTask d ident ft now req db =
     (case callerIdentity (td_uuid_ok d) ident (ap_TenantId req) (ap_ApproverUserId req) of
        Inl e \<Rightarrow> (Inl e, [], db)
      | Inr (tenant, approver) \<Rightarrow>
          if td_Check d (''user:'' @ approver) ''can_approve'' (''task:'' @ ap_TaskId req) \<noteq> Inr True
          then (Inl (Status PermissionDenied ''approver not authorized for task''), [], db)
          else approve_as d ident ft now tenant (ap_TaskId req) approver (ap_Approved req) (ap_Reason req) (ap_ArgsDigest req) db)"

text \<open>A row of the answer: the gate, the steps shown and their digest.\<close>

record PendingApproval =
  pa_Gate :: ApprovalRequest
  pa_Steps :: "StepRow list"
  pa_ArgsDigest :: string

fun pending_rows :: "TaskDeps \<Rightarrow> bool \<Rightarrow> string \<Rightarrow> string \<Rightarrow> Db \<Rightarrow> ApprovalRequest list \<Rightarrow> (rpc_error, PendingApproval list) result" where
  "pending_rows d fail tenant user db [] = Inr []"
| "pending_rows d fail tenant user db (ar # ars) =
     (if td_Check d (''user:'' @ user) ''can_approve'' (''task:'' @ ar_TaskID ar) \<noteq> Inr True then pending_rows d fail tenant user db ars
      else (case ListMintableSteps fail tenant (ar_TaskID ar) db of
              Inl _ \<Rightarrow> Inl (Status Internal ''failed to load plan steps'')
            | Inr steps \<Rightarrow>
                bindE (pending_rows d fail tenant user db ars) (\<lambda>rest.
                  Inr (\<lparr>pa_Gate = ar, pa_Steps = steps, pa_ArgsDigest = ArgsDigest (td_Sha256 d) (map PlanStepRecord.truncate steps)\<rparr> # rest))))"

definition ListPendingApprovals :: "TaskDeps \<Rightarrow> Identity option \<Rightarrow> bool \<Rightarrow> bool \<Rightarrow> int \<Rightarrow> string \<Rightarrow> string \<Rightarrow> Db \<Rightarrow> (rpc_error, PendingApproval list) result" where
  "ListPendingApprovals d ident fail fail_steps now reqTenant reqUser db =
     (case callerIdentity (td_uuid_ok d) ident reqTenant reqUser of
        Inl e \<Rightarrow> Inl e
      | Inr (tenant, user) \<Rightarrow>
          (case ListPendingApprovalsFor fail now tenant user db of
             Inl _ \<Rightarrow> Inl (Status Internal ''failed to list approvals'')
           | Inr rows \<Rightarrow> pending_rows d fail_steps tenant user db rows))"

section \<open>Cancelling\<close>

record CancelFaults =
  cf_get :: bool
  cf_withdraw :: bool
  cf_transition :: bool

definition cancel_allowed :: "TaskDeps \<Rightarrow> string \<Rightarrow> string \<Rightarrow> string \<Rightarrow> Task \<Rightarrow> unit check" where
  "cancel_allowed d tenant user taskID t =
     (if OwnerUserID t = user then pass ()
      else case td_admin d user of
             Inr _ \<Rightarrow> pass ()
           | Inl e \<Rightarrow>
               (Inl (if code e = PermissionDenied
                     then Status PermissionDenied ''only the task owner or a tenant admin may cancel this task'' else e),
                [task_event tenant taskID user ''aikonos.broker.task.cancel_denied'' DENY]))"

text \<open>The gate first, so that no approver can decide a request that is being withdrawn.\<close>

definition cancel_gate :: "CancelFaults \<Rightarrow> string \<Rightarrow> string \<Rightarrow> string \<Rightarrow> Task \<Rightarrow> Db \<Rightarrow> (rpc_error, AuditEvent list) result \<times> Db" where
  "cancel_gate ft tenant user taskID t db =
     (if State t = TaskStateAwaitingApproval
      then (case WithdrawApproval (cf_withdraw ft) tenant taskID user db of
              (Inl _, db') \<Rightarrow> (Inl (Status Internal ''failed to withdraw the pending approval''), db')
            | (Inr withdrawn, db') \<Rightarrow>
                (Inr (if withdrawn then [task_event tenant taskID user ''aikonos.broker.approval.withdrawn'' DENY] else []), db'))
      else (Inr [], db))"

definition CancelTask :: "TaskDeps \<Rightarrow> Identity option \<Rightarrow> CancelFaults \<Rightarrow> string \<Rightarrow> string \<Rightarrow> string \<Rightarrow> Db
  \<Rightarrow> (rpc_error, unit) result \<times> AuditEvent list \<times> Db" where
  "CancelTask d ident ft reqTenant taskID reason db =
     (case callerIdentity (td_uuid_ok d) ident reqTenant [] of
        Inl e \<Rightarrow> (Inl e, [], db)
      | Inr (tenant, user) \<Rightarrow>
          if length reason > MaxReasonBytes then (Inl (Status InvalidArgument ''reason longer than 512 bytes''), [], db)
          else (case Get (cf_get ft) tenant taskID db of
                  Inl ErrNotFound \<Rightarrow> (Inl (Status NotFound ''task not found''), [], db)
                | Inl _ \<Rightarrow> (Inl (Status Internal ''failed to get task''), [], db)
                | Inr t \<Rightarrow>
                    (case cancel_allowed d tenant user taskID t of
                       (Inl e, evs) \<Rightarrow> (Inl e, evs, db)
                     | (Inr _, evs) \<Rightarrow>
                         (case cancel_gate ft tenant user taskID t db of
                            (Inl e, db1) \<Rightarrow> (Inl e, [], db1)
                          | (Inr evs1, db1) \<Rightarrow>
                              (case Transition (cf_transition ft) tenant taskID (State t) TaskStateCancelled db1 of
                                 Inl _ \<Rightarrow> (Inl (Status FailedPrecondition ''cannot cancel task in its state''), evs1, db1)
                               | Inr db2 \<Rightarrow> (Inr (), evs1 @ [task_event tenant taskID user ''aikonos.broker.task.cancelled'' ALLOW], db2))))))"

section \<open>Expired gates (approval_expiry.go)\<close>

text \<open>The rows that approval_requests_expired lists: at most 500 pending gates past their expiry.\<close>

definition ListExpiredApprovals :: "int \<Rightarrow> Db \<Rightarrow> (string \<times> string \<times> string) list" where
  "ListExpiredApprovals now db =
     take 500 (map (\<lambda>a. (ar_TenantID a, ApprovalID a, ar_TaskID a)) (sort_key ExpiresAt (filter (\<lambda>a. ar_State a = ApprovalPending \<and> ExpiresAt a \<le> now) (approvals db))))"

definition expire_row :: "(string \<Rightarrow> bool) \<Rightarrow> (string \<Rightarrow> bool) \<Rightarrow> int \<Rightarrow> string \<times> string \<times> string \<Rightarrow> nat \<times> AuditEvent list \<times> Db \<Rightarrow> nat \<times> AuditEvent list \<times> Db" where
  "expire_row fexp ftrans now = (\<lambda>(tenant, aid, tid) (n, evs, db).
     case ExpireApproval (fexp aid) now tenant aid db of
       (Inr True, db1) \<Rightarrow>
         (n + 1, evs @ [task_event tenant tid [] ''aikonos.broker.approval.expired'' DENY],
          case Transition (ftrans tid) tenant tid TaskStateAwaitingApproval TaskStateTimeout db1 of Inl _ \<Rightarrow> db1 | Inr db2 \<Rightarrow> db2)
     | (_, db1) \<Rightarrow> (n, evs, db1))"

definition SweepExpiredApprovals :: "bool \<Rightarrow> (string \<Rightarrow> bool) \<Rightarrow> (string \<Rightarrow> bool) \<Rightarrow> int \<Rightarrow> Db \<Rightarrow> nat \<times> AuditEvent list \<times> Db" where
  "SweepExpiredApprovals fail fexp ftrans now db =
     (if fail then (0, [], db) else fold (expire_row fexp ftrans now) (ListExpiredApprovals now db) (0, [], db))"

section \<open>Owner grants (gateway_tasks.go)\<close>

definition grant_denied :: "string \<Rightarrow> string \<Rightarrow> string \<Rightarrow> AuditEvent" where
  "grant_denied tenant owner reason =
     \<lparr>ev_Type = ''aikonos.broker.task.denied'', ev_TenantID = tenant, ev_ActorUserID = owner, ev_ResourceRef = [], ev_Decision = DENY, ev_Reason = reason\<rparr>"

definition second :: int where "second = 1000000000"

definition v2GrantMaxTTL :: int where "v2GrantMaxTTL = 24 * 60 * 60 * second"

text \<open>The issue time of a grant in nanoseconds: its own, or as early as its lifetime allows.\<close>

definition grant_issued :: "TaskDeps \<Rightarrow> Grant \<Rightarrow> int" where
  "grant_issued d g =
     (case g_IssuedAt g of
        Some iat \<Rightarrow> iat * second
      | None \<Rightarrow> (case g_Expires g of Some e \<Rightarrow> e * second | None \<Rightarrow> 0) - max (td_GrantTTL d) v2GrantMaxTTL)"

text \<open>Only a grant without an actor needs the tenant's setting.\<close>

definition grant_mode_check :: "TaskDeps \<Rightarrow> string \<Rightarrow> Grant \<Rightarrow> unit check" where
  "grant_mode_check d tenantID g =
     (if g_Kind g = KindLegacy \<or> (g_Kind g = KindScheduled \<and> g_Actor g = [])
      then (case td_Cfg d (g_TenantID g) ''identity.obo'' of
              Inl _ \<Rightarrow> refuse Unavailable ''tenant settings could not be read'' [grant_denied tenantID (Owner g) ''settings_check_failed'']
            | Inr mode \<Rightarrow>
                if mode = ''enforce''
                then refuse PermissionDenied ''owner grant refused: identity.obo=enforce requires a v2 grant naming an actor''
                       [grant_denied tenantID (Owner g) (if g_Kind g = KindScheduled then ''grant_actor_missing'' else ''grant_v1_refused'')]
                else pass ())
      else pass ())"

definition grant_state_check :: "TaskDeps \<Rightarrow> string \<Rightarrow> Grant \<Rightarrow> unit check" where
  "grant_state_check d tenantID g =
     (case td_RevOnBehalfOf d tenantID (g_Subject g) (g_Actor g) of
        Inl _ \<Rightarrow> refuse Unavailable ''access state could not be read; retry'' []
      | Inr st \<Rightarrow>
          if Blocked st then refuse PermissionDenied ''owner grant refused: user is blocked'' [grant_denied tenantID (Owner g) ''subject_blocked'']
          else if Revoked st (Some (grant_issued d g)) then refuse PermissionDenied ''owner grant revoked'' [grant_denied tenantID (Owner g) ''grant_revoked'']
          else if AgentRefusal st \<noteq> [] then (Inl (agentRefusedErr (AgentRefusal st)), [grant_denied tenantID (Owner g) (AgentRefusal st)])
          else pass ())"

definition verifyOwnerGrant :: "TaskDeps \<Rightarrow> int \<Rightarrow> string \<Rightarrow> string \<Rightarrow> Grant check" where
  "verifyOwnerGrant d now tenantID token =
     (if token = [] then refuse PermissionDenied ''owner grant required'' [grant_denied tenantID [] ''grant_missing'']
      else case Verify (td_Mac d) now (td_GrantKey d) token (td_AcceptV1 d) of
             Inl _ \<Rightarrow> refuse PermissionDenied ''invalid owner grant'' [grant_denied tenantID [] ''invalid_grant'']
           | Inr g \<Rightarrow>
               if g_TenantID g \<noteq> tenantID
               then refuse PermissionDenied ''owner grant tenant mismatch'' [grant_denied tenantID (Owner g) ''grant_tenant_mismatch'']
               else andThen (grant_mode_check d tenantID g) (\<lambda>_. andThen (grant_state_check d tenantID g) (\<lambda>_. pass g)))"

definition refuseBlockedUser :: "TaskDeps \<Rightarrow> string \<Rightarrow> string \<Rightarrow> unit check" where
  "refuseBlockedUser d tenantID user =
     (case td_RevUser d tenantID user of
        Inl _ \<Rightarrow> refuse Unavailable ''access state could not be read; retry'' []
      | Inr st \<Rightarrow> if Blocked st then refuse PermissionDenied ''user is blocked'' [grant_denied tenantID user ''subject_blocked''] else pass ())"

definition lift_error :: "(rpc_error, 'a) result \<Rightarrow> 'a check" where
  "lift_error r = (r, [])"

definition gateway_peer :: "TaskDeps \<Rightarrow> Identity option \<Rightarrow> unit check" where
  "gateway_peer d ident = lift_error (requireGatewayPeer (td_GatewaySpiffeID d) (td_DevMode d) ident)"

definition southPrincipal :: "TaskDeps \<Rightarrow> Identity option \<Rightarrow> int \<Rightarrow> string \<Rightarrow> string \<Rightarrow> string \<Rightarrow> (string \<times> string) check" where
  "southPrincipal d ident now tenantID ownerGrant userID =
     andThen (gateway_peer d ident) (\<lambda>_.
       if ownerGrant = [] \<and> td_DevMode d
       then andThen (if userID \<noteq> [] then refuseBlockedUser d tenantID userID else pass ()) (\<lambda>_. pass (tenantID, userID))
       else andThen (verifyOwnerGrant d now tenantID ownerGrant) (\<lambda>g.
              if userID \<noteq> [] \<and> userID \<noteq> Owner g
              then refuse PermissionDenied ''user_id does not match the owner grant'' [grant_denied tenantID (Owner g) ''grant_user_mismatch'']
              else pass (g_TenantID g, Owner g)))"

text \<open>The bearer's expiry, when the identity has one, bounds the lifetime of the session's grant.\<close>

definition session_ttl :: "TaskDeps \<Rightarrow> int option \<Rightarrow> int \<Rightarrow> int" where
  "session_ttl d bearerExpires now =
     (case bearerExpires of None \<Rightarrow> td_GrantTTL d | Some e \<Rightarrow> if e - now < td_GrantTTL d then e - now else td_GrantTTL d)"

definition MintSessionGrant :: "TaskDeps \<Rightarrow> Identity option \<Rightarrow> int option \<Rightarrow> int \<Rightarrow> string \<Rightarrow> string \<Rightarrow> (rpc_error, string) result" where
  "MintSessionGrant d ident bearerExpires now reqTenant reqUser =
     bindE (callerIdentity (td_uuid_ok d) ident reqTenant reqUser) (\<lambda>(tenant, user).
       let ttl = session_ttl d bearerExpires now in
       if ttl \<le> 0 then Inl (Status Unauthenticated ''session token expired; sign in again'')
       else case Mint (td_Mac d) now (td_GrantKey d)
                   \<lparr>g_TenantID = tenant, g_Subject = user, g_Actor = [], g_Kind = KindInteractive, g_GrantID = [], g_Expires = None, g_IssuedAt = None\<rparr> ttl of
              Inl _ \<Rightarrow> Inl (Status Internal ''mint owner grant'')
            | Inr g \<Rightarrow> Inr g)"

section \<open>The gateway's task handlers\<close>

record GatewayTaskReq =
  gt_TenantId :: string
  gt_Prompt :: string
  gt_AgentId :: string
  gt_OwnerGrant :: string
  gt_CostBudget :: int
  gt_ClientRequestId :: string

text \<open>A grant that names an actor fixes the agent, in any spelling of its id.\<close>

definition actor_agrees :: "TaskDeps \<Rightarrow> Grant \<Rightarrow> string \<Rightarrow> bool" where
  "actor_agrees d g agentID =
     (g_Actor g = [] \<or> agentID = []
      \<or> (rd_UUID (td_Run d) agentID \<noteq> None \<and> rd_UUID (td_Run d) agentID = rd_UUID (td_Run d) (g_Actor g)))"

definition gateway_agent :: "TaskDeps \<Rightarrow> string \<Rightarrow> Grant \<Rightarrow> string \<Rightarrow> (rpc_error, string) result \<times> effects" where
  "gateway_agent d tenant g agentID =
     (if g_Actor g \<noteq> [] then (Inr (g_Actor g), [], [])
      else case rd_Agents (td_Run d) of
             None \<Rightarrow> (Inl (Status FailedPrecondition ''agents are not enabled''), [], [])
           | Some st \<Rightarrow>
               (case runAgent (td_Run d) st tenant (Owner g) agentID of
                  (RunErr, eff) \<Rightarrow> (Inl (Status Unavailable ''agent could not be resolved; retry''), eff)
                | (RunRefused reason, rels, evs) \<Rightarrow> (Inl (runAgentErr reason agentID), rels, evs @ [grant_denied tenant (Owner g) reason])
                | (RunOk a, eff) \<Rightarrow> (Inr (ag_ID a), eff)))"

definition stamp_grant :: "TaskDeps \<Rightarrow> Grant \<Rightarrow> Task \<Rightarrow> Task" where
  "stamp_grant d g t =
     (let t1 = (case rd_UUID (td_Run d) (g_GrantID g) of
                  None \<Rightarrow> t
                | Some i \<Rightarrow> if g_Kind g = KindScheduled then t\<lparr>GrantID := Some i\<rparr>
                            else if g_Kind g = KindExternal then t\<lparr>ExternalClientID := Some i\<rparr> else t)
      in if g_Kind g = KindWorkflow \<or> g_Kind g = KindInteractive then t1\<lparr>OBOKind := Some (g_Kind g)\<rparr> else t1)"

definition gateway_checks :: "TaskDeps \<Rightarrow> Identity option \<Rightarrow> int \<Rightarrow> GatewayTaskReq \<Rightarrow> (string \<times> Grant) check" where
  "gateway_checks d ident now req =
     andThen (gateway_peer d ident) (\<lambda>_.
       case rd_UUID (td_Run d) (gt_TenantId req) of
         None \<Rightarrow> refuse InvalidArgument ''invalid tenant_id'' []
       | Some tenantID \<Rightarrow>
           if gt_Prompt req = [] then refuse InvalidArgument ''prompt required'' []
           else if gt_AgentId req \<noteq> [] \<and> \<not> td_uuid_ok d (gt_AgentId req) then refuse InvalidArgument ''invalid agent_id'' []
           else andThen (verifyOwnerGrant d now (gt_TenantId req) (gt_OwnerGrant req)) (\<lambda>g.
                  if \<not> actor_agrees d g (gt_AgentId req)
                  then refuse PermissionDenied ''agent_id does not match owner grant actor'' [grant_denied (gt_TenantId req) (Owner g) ''grant_actor_mismatch'']
                  else pass (tenantID, g)))"

definition CreateGatewayTask :: "TaskDeps \<Rightarrow> Identity option \<Rightarrow> bool \<Rightarrow> int \<Rightarrow> string \<Rightarrow> string \<Rightarrow> GatewayTaskReq \<Rightarrow> Db
  \<Rightarrow> (rpc_error, string \<times> string) result \<times> effects \<times> Db" where
  "CreateGatewayTask d ident fail now newID traceID req db =
     (case gateway_checks d ident now req of
        (Inl e, evs) \<Rightarrow> (Inl e, ([], evs), db)
      | (Inr (tenantID, g), evs0) \<Rightarrow>
          (case gateway_agent d (gt_TenantId req) g (gt_AgentId req) of
             (Inl e, rels, evs) \<Rightarrow> (Inl e, (rels, evs0 @ evs), db)
           | (Inr agentRef, rels, evs) \<Rightarrow>
               (case rd_UUID (td_Run d) agentRef of
                  None \<Rightarrow> (Inl (Status InvalidArgument ''invalid grant actor''), (rels, evs0 @ evs), db)
                | Some agentID \<Rightarrow>
                    (let budget = (if gt_CostBudget req = 0 then 1000 else gt_CostBudget req);
                         t = stamp_grant d g (new_task newID tenantID (Owner g) (gt_Prompt req) budget traceID (Some agentID) (gt_ClientRequestId req) True)
                     in case persistManagedTask d fail t traceID db of
                          (r, (rels3, evs3), db') \<Rightarrow> (r, (rels @ rels3, evs0 @ evs @ evs3), db')))))"

record GatewayApproveReq =
  ga_TenantId :: string
  ga_TaskId :: string
  ga_OwnerGrant :: string
  ga_Approved :: bool
  ga_Reason :: string
  ga_ArgsDigest :: string

text \<open>
  The vote a gateway may cast: for the stored owner of a task it manages, whose grant it holds.
  Any failed load answers like a missing task, since it comes with a nil row; the two handlers
  differ in that answer's code and in auditing a refusal.
\<close>

definition gateway_vote_task :: "TaskDeps \<Rightarrow> bool \<Rightarrow> grpc_code \<Rightarrow> bool \<Rightarrow> string \<Rightarrow> string \<Rightarrow> string \<Rightarrow> Db \<Rightarrow> Task check" where
  "gateway_vote_task d fail missingCode audited tenant grantOwner taskID db =
     (case Get fail tenant taskID db of
        Inl _ \<Rightarrow> refuse missingCode ''task not found'' []
      | Inr task \<Rightarrow>
          (let ev = (if audited then [grant_denied tenant grantOwner ''gateway_vote_refused''] else []) in
           if \<not> GatewayManaged task then refuse FailedPrecondition ''task is not gateway-managed'' ev
           else if grantOwner \<noteq> [] \<and> grantOwner \<noteq> OwnerUserID task
           then refuse PermissionDenied ''owner grant does not name the task owner'' ev
           else pass task))"

definition gateway_vote_gate :: "TaskDeps \<Rightarrow> Identity option \<Rightarrow> bool \<Rightarrow> int \<Rightarrow> GatewayApproveReq \<Rightarrow> Db \<Rightarrow> Task check" where
  "gateway_vote_gate d ident fail now req db =
     andThen (gateway_peer d ident) (\<lambda>_.
       if ga_TaskId req = [] then refuse InvalidArgument ''task_id required'' []
       else if ga_TenantId req = [] then refuse InvalidArgument ''tenant_id required'' []
       else andThen (southPrincipal d ident now (ga_TenantId req) (ga_OwnerGrant req) []) (\<lambda>(_, grantOwner).
         gateway_vote_task d fail FailedPrecondition True (ga_TenantId req) grantOwner (ga_TaskId req) db))"

definition ApproveGatewayTask :: "TaskDeps \<Rightarrow> Identity option \<Rightarrow> ResolveFaults \<Rightarrow> bool \<Rightarrow> int \<Rightarrow> GatewayApproveReq \<Rightarrow> Db
  \<Rightarrow> (rpc_error, ResolveResult) result \<times> AuditEvent list \<times> Db" where
  "ApproveGatewayTask d ident ft fail now req db =
     (case gateway_vote_gate d ident fail now req db of
        (Inl e, evs) \<Rightarrow> (Inl e, evs, db)
      | (Inr task, evs) \<Rightarrow>
          (case approve_as d ident ft now (ga_TenantId req) (ga_TaskId req) (OwnerUserID task) (ga_Approved req) (ga_Reason req) (ga_ArgsDigest req) db of
             (r, evs', db') \<Rightarrow> (r, evs @ evs', db')))"

record GatewayApproval =
  gw_Status :: TaskStatus
  gw_RequiresN :: int
  gw_Approvals :: nat
  gw_StepUp :: bool
  gw_OwnerMayApprove :: bool
  gw_Tokens :: "(int \<rightharpoonup> string) option"

definition gateway_approval_state :: "TaskDeps \<Rightarrow> bool \<Rightarrow> bool \<Rightarrow> int \<Rightarrow> string \<Rightarrow> Task \<Rightarrow> Db \<Rightarrow> (rpc_error, GatewayApproval) result" where
  "gateway_approval_state d fail_gate fail_steps now tenant task db =
     (let out = \<lparr>gw_Status = dbStateToProtoStatus (State task), gw_RequiresN = 0, gw_Approvals = 0, gw_StepUp = False,
                 gw_OwnerMayApprove = False, gw_Tokens = None\<rparr>
      in if State task = TaskStateAwaitingApproval
         then (case GetPendingApprovalByTask fail_gate now tenant (TaskID task) db of
                 Inl ErrNoRows \<Rightarrow> Inr (out\<lparr>gw_Status := TaskStatus_TIMEOUT\<rparr>)
               | Inl _ \<Rightarrow> Inl (Status Internal ''failed to load approval'')
               | Inr ar \<Rightarrow>
                   Inr (out\<lparr>gw_RequiresN := RequiresN ar, gw_Approvals := length (ApprovedBy ar), gw_StepUp := sum_step_up (Summary ar),
                            gw_OwnerMayApprove := MayVote (ApproverSet ar) (RequesterID ar) (RequiresN ar) (OwnerUserID task)\<rparr>))
         else if State task = TaskStateApproved
         then (case ListMintableSteps fail_steps tenant (TaskID task) db of
                 Inl _ \<Rightarrow> Inl (Status Internal ''failed to load plan steps'')
               | Inr steps \<Rightarrow>
                   (case td_Minter d (OwnerUserID task) (TaskID task) (Task_OnBehalfOf task) (map (\<lambda>s. (ps_Seq s, ps_ToolID s)) steps) of
                      Inl _ \<Rightarrow> Inl (Status Internal ''failed to mint capability tokens'')
                    | Inr toks \<Rightarrow> Inr (out\<lparr>gw_Tokens := Some toks\<rparr>)))
         else Inr out)"

definition GetGatewayApproval :: "TaskDeps \<Rightarrow> Identity option \<Rightarrow> bool \<Rightarrow> bool \<Rightarrow> bool \<Rightarrow> int \<Rightarrow> string \<Rightarrow> string \<Rightarrow> string \<Rightarrow> Db \<Rightarrow> GatewayApproval check" where
  "GetGatewayApproval d ident fail fail_gate fail_steps now tenant taskID ownerGrant db =
     andThen (gateway_peer d ident) (\<lambda>_.
       if taskID = [] \<or> tenant = [] then refuse InvalidArgument ''tenant_id and task_id required'' []
       else andThen (southPrincipal d ident now tenant ownerGrant []) (\<lambda>(_, grantOwner).
         andThen (gateway_vote_task d fail NotFound False tenant grantOwner taskID db) (\<lambda>task.
           lift_error (gateway_approval_state d fail_gate fail_steps now tenant task db))))"

end
