(* ===== verification/ScheduleStore.thy ===== *)
theory ScheduleStore
  imports Revocation
begin

text \<open>
  broker/internal/db/scheduled_runs.go: the table of scheduled runs, with its claims.  A row is a
  standing delegation of its owner; the gateway claims due rows, and a run that is handed out is
  stamped until its result is reported.  The table is the list of its rows, each repository method
  a function on it; row level security is the tenant in every condition, and a failure (argument
  \<open>fail\<close>) changes nothing.  The cron library is the argument \<open>cron\<close>, which parses a text to the
  function from a time to the next firing after it (the zero time when there is none).
\<close>

section \<open>Cron expressions\<close>

type_synonym cron_lib = "string \<Rightarrow> (int \<Rightarrow> int) option"

text \<open>Times are nanoseconds since 1970; the zero time is the first instant of year 1.\<close>

definition zeroTime :: int where "zeroTime = - 62135596800000000000"

definition parseCronSpec :: "cron_lib \<Rightarrow> string \<Rightarrow> (int \<Rightarrow> int) option" where
  "parseCronSpec cron expr =
     (if (HasPrefix expr ''TZ='' \<or> HasPrefix expr ''CRON_TZ='') \<and> CHR '' '' \<notin> set expr then None else cron expr)"

definition NextCronFire :: "cron_lib \<Rightarrow> string \<Rightarrow> int \<Rightarrow> int option" where
  "NextCronFire cron expr after = (case parseCronSpec cron expr of None \<Rightarrow> None | Some sched \<Rightarrow> Some (sched after))"

definition ValidCronExpr :: "cron_lib \<Rightarrow> string \<Rightarrow> bool" where
  "ValidCronExpr cron expr = (parseCronSpec cron expr \<noteq> None)"

section \<open>Rows\<close>

datatype ScheduleKind = ScheduleKindCron | ScheduleKindOnce

datatype ScheduledRunState = ScheduledRunActive | ScheduledRunPaused | ScheduledRunCompleted | ScheduledRunFailed

text \<open>
  The columns of scheduled_runs, \<open>sr_ClaimedAt\<close> among them, which the Go struct does not carry.
  An absent text column is the empty text; created_at and updated_at are kept as far as they are
  read.
\<close>

record ScheduledRun =
  sr_ID :: string
  sr_TenantID :: string
  sr_Owner :: string
  sr_Prompt :: string
  sr_Kind :: ScheduleKind
  sr_CronExpr :: string
  sr_NextFireAt :: "int option"
  sr_ApprovedTools :: "string list"
  sr_State :: ScheduledRunState
  sr_LastFireAt :: "int option"
  sr_LastStatus :: string
  sr_LastSummary :: string
  sr_RunCount :: int
  sr_CreatedBy :: string
  sr_CreatedAt :: int
  sr_Lineage :: "string option"
  sr_Inputs :: "(string \<times> string) list"
  sr_WfVersion :: "int option"
  sr_WfSHA :: string
  sr_Actor :: "string option"
  sr_DelegationExpiresAt :: int
  sr_RevokedAt :: "int option"
  sr_RevokedBy :: "string option"
  sr_DelegatedAt :: int
  sr_ClaimedAt :: "int option"

type_synonym SchedDb = "ScheduledRun list"

datatype sched_error = SchedFail | SchedNoRows | ErrScheduledRunNotClaimed

definition nullableCron :: "ScheduleKind \<Rightarrow> string \<Rightarrow> string" where
  "nullableCron kind expr = (if kind = ScheduleKindCron then expr else [])"

section \<open>Statements\<close>

definition sees :: "string \<Rightarrow> string \<Rightarrow> ScheduledRun \<Rightarrow> bool" where
  "sees tenant sid r = (sr_TenantID r = tenant \<and> sr_ID r = sid)"

text \<open>An UPDATE of the rows that satisfy \<open>P\<close>.\<close>

definition updates :: "(ScheduledRun \<Rightarrow> bool) \<Rightarrow> (ScheduledRun \<Rightarrow> ScheduledRun) \<Rightarrow> SchedDb \<Rightarrow> SchedDb" where
  "updates P f db = map (\<lambda>r. if P r then f r else r) db"

text \<open>The same, refused when it touches no row.\<close>

definition exec_update :: "bool \<Rightarrow> (ScheduledRun \<Rightarrow> bool) \<Rightarrow> (ScheduledRun \<Rightarrow> ScheduledRun) \<Rightarrow> SchedDb \<Rightarrow> (sched_error, SchedDb) result" where
  "exec_update fail P f db =
     (if fail then Inl SchedFail else if \<not> list_ex P db then Inl SchedNoRows else Inr (updates P f db))"

section \<open>Repository methods\<close>

definition delegation_default :: int where "delegation_default = 90 * 24 * 3600 * 1000000000"

text \<open>
  Create: the state, the counters, the delegation time and the claim take their column defaults;
  \<open>expires\<close> is \<open>None\<close> for the zero time.  The primary key and the constraint that exactly one of
  prompt and workflow is given can refuse the row.
\<close>

definition sched_Create :: "bool \<Rightarrow> int \<Rightarrow> ScheduledRun \<Rightarrow> int option \<Rightarrow> SchedDb \<Rightarrow> (sched_error, SchedDb) result" where
  "sched_Create fail dbnow s expires db =
     (if fail \<or> list_ex (\<lambda>r. sr_ID r = sr_ID s) db \<or> (sr_Prompt s \<noteq> []) = (sr_Lineage s \<noteq> None) then Inl SchedFail
      else Inr (db @ [s\<lparr>sr_CronExpr := nullableCron (sr_Kind s) (sr_CronExpr s), sr_State := ScheduledRunActive,
                       sr_LastFireAt := None, sr_LastStatus := [], sr_LastSummary := [], sr_RunCount := 0,
                       sr_CreatedAt := dbnow, sr_DelegationExpiresAt := (case expires of None \<Rightarrow> dbnow + delegation_default | Some t \<Rightarrow> t),
                       sr_RevokedAt := None, sr_RevokedBy := None, sr_DelegatedAt := dbnow, sr_ClaimedAt := None\<rparr>]))"

definition sched_Get :: "bool \<Rightarrow> string \<Rightarrow> string \<Rightarrow> SchedDb \<Rightarrow> (sched_error, ScheduledRun) result" where
  "sched_Get fail tenant sid db =
     (if fail then Inl SchedFail else case find (sees tenant sid) db of None \<Rightarrow> Inl SchedNoRows | Some r \<Rightarrow> Inr r)"

text \<open>
  List: the rows of the tenant, of one owner when it is given, newest first and 500 at most.  The
  joined display name is left out.
\<close>

definition sched_List :: "bool \<Rightarrow> string \<Rightarrow> string \<Rightarrow> SchedDb \<Rightarrow> (sched_error, ScheduledRun list) result" where
  "sched_List fail tenant owner db =
     (if fail then Inl SchedFail
      else Inr (take 500 (sort_key (\<lambda>r. - sr_CreatedAt r) (filter (\<lambda>r. sr_TenantID r = tenant \<and> (owner = [] \<or> sr_Owner r = owner)) db))))"

definition live_state :: "ScheduledRunState \<Rightarrow> bool" where
  "live_state st = (st = ScheduledRunActive \<or> st = ScheduledRunPaused)"

definition sched_Update :: "bool \<Rightarrow> string \<Rightarrow> string \<Rightarrow> ScheduledRun \<Rightarrow> SchedDb \<Rightarrow> (sched_error, SchedDb) result" where
  "sched_Update fail tenant sid s db =
     (if \<exists>r \<in> set db. sees tenant sid r \<and> live_state (sr_State r) \<and> (sr_Prompt s \<noteq> []) = (sr_Lineage r \<noteq> None) then Inl SchedFail
      else exec_update fail (\<lambda>r. sees tenant sid r \<and> live_state (sr_State r))
        (\<lambda>r. r\<lparr>sr_Prompt := sr_Prompt s, sr_Kind := sr_Kind s, sr_CronExpr := nullableCron (sr_Kind s) (sr_CronExpr s),
               sr_NextFireAt := sr_NextFireAt s, sr_ApprovedTools := sr_ApprovedTools s, sr_Actor := sr_Actor s,
               sr_WfVersion := sr_WfVersion s, sr_WfSHA := sr_WfSHA s\<rparr>) db)"

definition SetState :: "bool \<Rightarrow> string \<Rightarrow> string \<Rightarrow> ScheduledRunState \<Rightarrow> int option \<Rightarrow> SchedDb \<Rightarrow> (sched_error, SchedDb) result" where
  "SetState fail tenant sid st nextFire db =
     exec_update fail (sees tenant sid) (\<lambda>r. r\<lparr>sr_State := st, sr_NextFireAt := nextFire\<rparr>) db"

definition RevokeDelegation :: "bool \<Rightarrow> int \<Rightarrow> string \<Rightarrow> string \<Rightarrow> string \<Rightarrow> SchedDb \<Rightarrow> (sched_error, SchedDb) result" where
  "RevokeDelegation fail dbnow tenant sid by_user db =
     exec_update fail (sees tenant sid)
       (\<lambda>r. r\<lparr>sr_RevokedAt := Some (case sr_RevokedAt r of Some t \<Rightarrow> t | None \<Rightarrow> dbnow),
              sr_RevokedBy := Some (case sr_RevokedBy r of Some u \<Rightarrow> u | None \<Rightarrow> by_user),
              sr_State := (if live_state (sr_State r) then ScheduledRunPaused else sr_State r), sr_NextFireAt := None\<rparr>) db"

definition ExtendDelegation :: "bool \<Rightarrow> int \<Rightarrow> string \<Rightarrow> string \<Rightarrow> int \<Rightarrow> SchedDb \<Rightarrow> (sched_error, SchedDb) result" where
  "ExtendDelegation fail dbnow tenant sid until db =
     exec_update fail (\<lambda>r. sees tenant sid r \<and> sr_RevokedAt r = None)
       (\<lambda>r. r\<lparr>sr_DelegationExpiresAt := until, sr_DelegatedAt := dbnow\<rparr>) db"

definition Park :: "bool \<Rightarrow> string \<Rightarrow> string \<Rightarrow> string \<Rightarrow> SchedDb \<Rightarrow> (sched_error, SchedDb) result" where
  "Park fail tenant sid reason db =
     exec_update fail (\<lambda>r. sees tenant sid r \<and> live_state (sr_State r))
       (\<lambda>r. r\<lparr>sr_State := ScheduledRunPaused, sr_NextFireAt := None, sr_LastStatus := reason, sr_ClaimedAt := None\<rparr>) db"

definition Reschedule :: "bool \<Rightarrow> string \<Rightarrow> string \<Rightarrow> int \<Rightarrow> SchedDb \<Rightarrow> (sched_error, SchedDb) result" where
  "Reschedule fail tenant sid at db =
     (if fail then Inl SchedFail
      else Inr (updates (\<lambda>r. sees tenant sid r \<and> sr_State r = ScheduledRunActive \<and> sr_NextFireAt r = None)
                  (\<lambda>r. r\<lparr>sr_NextFireAt := Some at\<rparr>) db))"

definition sched_Delete :: "bool \<Rightarrow> string \<Rightarrow> string \<Rightarrow> SchedDb \<Rightarrow> (sched_error, SchedDb) result" where
  "sched_Delete fail tenant sid db =
     (if fail then Inl SchedFail else if \<not> list_ex (sees tenant sid) db then Inl SchedNoRows
      else Inr (filter (\<lambda>r. \<not> sees tenant sid r) db))"

definition MarkClaimed :: "bool \<Rightarrow> int \<Rightarrow> string \<Rightarrow> string \<Rightarrow> SchedDb \<Rightarrow> (sched_error, SchedDb) result" where
  "MarkClaimed fail dbnow tenant sid db = exec_update fail (sees tenant sid) (\<lambda>r. r\<lparr>sr_ClaimedAt := Some dbnow\<rparr>) db"

definition report_status :: "bool \<Rightarrow> string" where
  "report_status ok = (if ok then ''COMPLETED'' else ''FAILED'')"

definition ReportResult :: "bool \<Rightarrow> string \<Rightarrow> string \<Rightarrow> bool \<Rightarrow> string \<Rightarrow> SchedDb \<Rightarrow> (sched_error, SchedDb) result" where
  "ReportResult fail tenant sid ok summary db =
     (if fail then Inl SchedFail
      else case find (sees tenant sid) db of
        None \<Rightarrow> Inl SchedNoRows
      | Some r0 \<Rightarrow>
          (let P = (\<lambda>r. sees tenant sid r \<and> sr_ClaimedAt r \<noteq> None);
               recorded = (\<lambda>r. r\<lparr>sr_LastStatus := report_status ok, sr_LastSummary := summary, sr_ClaimedAt := None\<rparr>)
           in if \<not> list_ex P db then Inl ErrScheduledRunNotClaimed
              else if sr_Kind r0 = ScheduleKindOnce
              then Inr (updates P (\<lambda>r. (recorded r)\<lparr>sr_State := if ok then ScheduledRunCompleted else ScheduledRunFailed,
                                                   sr_NextFireAt := None\<rparr>) db)
              else Inr (updates P recorded db)))"

section \<open>Claiming due runs\<close>

definition scheduledRunClaimTTL :: int where "scheduledRunClaimTTL = 3600 * 1000000000"

text \<open>
  What the claim reads beside the table: the revocation store, and the approved versions of
  workflows (the text of their definition) with the hash over it.
\<close>

record ClaimView =
  cv_Rev :: RevDb
  cv_Workflow :: "string \<Rightarrow> string \<Rightarrow> int \<Rightarrow> string option"
  cv_SHA :: "string \<Rightarrow> string"

definition workflowPinChanged :: "ClaimView \<Rightarrow> ScheduledRun \<Rightarrow> bool" where
  "workflowPinChanged v s =
     (case (sr_Lineage s, sr_WfVersion s) of
        (Some lin, Some ver) \<Rightarrow>
          if sr_WfSHA s = [] then True
          else (case cv_Workflow v (sr_TenantID s) lin ver of None \<Rightarrow> True | Some def \<Rightarrow> cv_SHA v def \<noteq> sr_WfSHA s)
      | _ \<Rightarrow> True)"

definition actor_row :: "ClaimView \<Rightarrow> ScheduledRun \<Rightarrow> (string \<times> int option) option" where
  "actor_row v s = (case sr_Actor s of None \<Rightarrow> None | Some a \<Rightarrow> agents (cv_Rev v) (sr_TenantID s, a))"

definition after_opt :: "int option \<Rightarrow> int \<Rightarrow> bool" where
  "after_opt epoch t = (case epoch of None \<Rightarrow> False | Some e \<Rightarrow> e > t)"

definition skip_reason :: "ClaimView \<Rightarrow> int \<Rightarrow> bool \<Rightarrow> ScheduledRun \<Rightarrow> string" where
  "skip_reason v now requireActor s =
     (let rev = cv_Rev v; key = (sr_TenantID s, sr_Owner s) in
      if sr_RevokedAt s \<noteq> None then ''delegation_revoked''
      else if \<not> now < sr_DelegationExpiresAt s then ''delegation_expired''
      else if requireActor \<and> sr_Actor s = None then ''actor_missing''
      else if tenant_block rev (sr_TenantID s) \<or> user_blocks rev key \<noteq> None then ''subject_blocked''
      else if (case user_directory rev key of None \<Rightarrow> False | Some e \<Rightarrow> after_opt e (sr_DelegatedAt s)) then ''subject_revoked''
      else if (case actor_row v s of None \<Rightarrow> False | Some (_, e) \<Rightarrow> after_opt e (sr_CreatedAt s)) then ''actor_revoked''
      else if (case actor_row v s of None \<Rightarrow> False | Some (status, _) \<Rightarrow> status = ''retired'') then ''actor_retired''
      else if sr_Lineage s \<noteq> None \<and> workflowPinChanged v s then ''workflow_changed''
      else [])"

text \<open>A one-off run handed out and never reported.\<close>

definition abandoned :: "string \<Rightarrow> int \<Rightarrow> ScheduledRun \<Rightarrow> bool" where
  "abandoned tenant now r =
     (sr_TenantID r = tenant \<and> sr_State r = ScheduledRunActive \<and> sr_Kind r = ScheduleKindOnce \<and> sr_NextFireAt r = None
      \<and> (case sr_ClaimedAt r of None \<Rightarrow> False | Some c \<Rightarrow> c < now - scheduledRunClaimTTL))"

definition fail_abandoned :: "string \<Rightarrow> int \<Rightarrow> SchedDb \<Rightarrow> SchedDb" where
  "fail_abandoned tenant now db =
     updates (abandoned tenant now)
       (\<lambda>r. r\<lparr>sr_State := ScheduledRunFailed, sr_LastStatus := ''abandoned'', sr_ClaimedAt := None\<rparr>) db"

definition due :: "string \<Rightarrow> int \<Rightarrow> ScheduledRun \<Rightarrow> bool" where
  "due tenant now r =
     (sr_TenantID r = tenant \<and> sr_State r = ScheduledRunActive
      \<and> (case sr_NextFireAt r of None \<Rightarrow> False | Some t \<Rightarrow> t \<le> now)
      \<and> (case sr_ClaimedAt r of None \<Rightarrow> True | Some c \<Rightarrow> c < now - scheduledRunClaimTTL))"

text \<open>Rows another transaction has locked are skipped.\<close>

definition select_due :: "(string \<Rightarrow> bool) \<Rightarrow> string \<Rightarrow> int \<Rightarrow> nat \<Rightarrow> SchedDb \<Rightarrow> ScheduledRun list" where
  "select_due locked tenant now limit db =
     take limit (sort_key (\<lambda>r. the (sr_NextFireAt r)) (filter (\<lambda>r. due tenant now r \<and> \<not> locked (sr_ID r)) db))"

text \<open>What the claim writes to the row of a selected run.\<close>

definition claim_write :: "cron_lib \<Rightarrow> ClaimView \<Rightarrow> int \<Rightarrow> bool \<Rightarrow> ScheduledRun \<Rightarrow> ScheduledRun \<Rightarrow> ScheduledRun" where
  "claim_write cron v now requireActor s r =
     (let reason = skip_reason v now requireActor s;
          advance = (\<lambda>next. r\<lparr>sr_NextFireAt := next, sr_LastFireAt := Some now, sr_RunCount := sr_RunCount r + 1\<rparr>)
      in if reason \<noteq> [] then r\<lparr>sr_State := ScheduledRunPaused, sr_NextFireAt := None, sr_LastStatus := reason\<rparr>
         else (case sr_Kind s of
                 ScheduleKindOnce \<Rightarrow> advance None
               | ScheduleKindCron \<Rightarrow>
                   (case NextCronFire cron (sr_CronExpr s) now of
                      None \<Rightarrow> r\<lparr>sr_State := ScheduledRunFailed, sr_NextFireAt := None, sr_LastStatus := ''invalid cron''\<rparr>
                    | Some n \<Rightarrow> advance (Some n))))"

definition claim_step :: "cron_lib \<Rightarrow> ClaimView \<Rightarrow> int \<Rightarrow> bool \<Rightarrow> SchedDb \<Rightarrow> ScheduledRun \<Rightarrow> SchedDb" where
  "claim_step cron v now requireActor db s = updates (sees (sr_TenantID s) (sr_ID s)) (claim_write cron v now requireActor s) db"

text \<open>The selected runs as they were read, each with the reason it is skipped, and the table.\<close>

definition ClaimDue :: "bool \<Rightarrow> cron_lib \<Rightarrow> ClaimView \<Rightarrow> (string \<Rightarrow> bool) \<Rightarrow> string \<Rightarrow> int \<Rightarrow> nat \<Rightarrow> bool \<Rightarrow> SchedDb
  \<Rightarrow> (sched_error, (ScheduledRun \<times> string) list \<times> SchedDb) result" where
  "ClaimDue fail cron v locked tenant now limit requireActor db =
     (if fail then Inl SchedFail
      else let db1 = fail_abandoned tenant now db;
               sel = select_due locked tenant now limit db1
           in Inr (map (\<lambda>s. (s, skip_reason v now requireActor s)) sel, foldl (claim_step cron v now requireActor) db1 sel))"

section \<open>Other writers\<close>

text \<open>
  Publishing a workflow version (db/workflows.go) moves the pins of its owner's schedules to the
  new hash; deleting an agent deletes the schedules it acts for.
\<close>

definition repin :: "string \<Rightarrow> string \<Rightarrow> int \<Rightarrow> string \<Rightarrow> string \<Rightarrow> string \<Rightarrow> SchedDb \<Rightarrow> SchedDb" where
  "repin tenant lineage version owner oldSHA newSHA db =
     updates (\<lambda>r. sr_TenantID r = tenant \<and> sr_Lineage r = Some lineage \<and> sr_WfVersion r = Some version \<and> sr_Owner r = owner \<and> sr_WfSHA r = oldSHA)
       (\<lambda>r. r\<lparr>sr_WfSHA := newSHA\<rparr>) db"

definition cascade_agent :: "string \<Rightarrow> SchedDb \<Rightarrow> SchedDb" where
  "cascade_agent agent db = filter (\<lambda>r. sr_Actor r \<noteq> Some agent) db"

end
