(* ===== verification/Scheduler.thy ===== *)
theory Scheduler
  imports TaskHandlers ScheduleStore
begin

text \<open>
  broker/internal/broker/scheduler.go: users create, list, edit, pause, resume, extend, revoke and
  delete scheduled runs north-bound; the gateway claims the due ones, each with an owner grant, and
  reports their results.  A handler that first loads the run takes the table as it was then
  (\<open>db0\<close>) and as it is when it writes (\<open>db\<close>), so that other writers may come between; \<open>now\<close> is the
  broker's clock, \<open>dbnow\<close> the database's.  The session record a report may carry is not modelled.
\<close>

section \<open>Dependencies and messages\<close>

text \<open>The fields of workflowsvc.Get's answer that a schedule pins.\<close>

record WfView =
  wv_Version :: int
  wv_Definition :: string
  wv_BoundAgent :: string

record SchedDeps =
  sd_Task :: TaskDeps
  sd_Cron :: cron_lib
  sd_Registry :: Registry
  sd_MinInterval :: int
  sd_ConfigWired :: bool
  sd_Workflows :: "(string \<Rightarrow> string \<Rightarrow> string \<Rightarrow> (unit, WfView) result) option"
  sd_SHA :: "string \<Rightarrow> string"

definition sd_Run :: "SchedDeps \<Rightarrow> RunDeps" where "sd_Run d = td_Run (sd_Task d)"

text \<open>The definition part of a create or update request; \<open>None\<close> is an unspecified kind.\<close>

record ScheduleDef =
  de_Prompt :: string
  de_Kind :: "ScheduleKind option"
  de_CronExpr :: string
  de_RunAt :: "int option"
  de_Tools :: "string list"
  de_Lineage :: string
  de_Inputs :: "(string \<times> string) list"

record CreateRunReq =
  cr_TenantId :: string
  cr_UserId :: string
  cr_Def :: ScheduleDef
  cr_ActorAgentId :: string

record UpdateRunReq =
  ur_TenantId :: string
  ur_UserId :: string
  ur_Id :: string
  ur_Def :: ScheduleDef
  ur_DesiredState :: "ScheduledRunState option"
  ur_RevokeDelegation :: bool
  ur_ExtendDelegation :: bool
  ur_ActorAgentId :: "string option"

definition schedulerAudit :: "string \<Rightarrow> string \<Rightarrow> string \<Rightarrow> string \<Rightarrow> AuditPolicyDecision \<Rightarrow> AuditEvent" where
  "schedulerAudit tenant actor etype runID dec =
     \<lparr>ev_Type = etype, ev_TenantID = tenant, ev_ActorUserID = actor,
      ev_ResourceRef = (if runID = [] then [] else ''scheduled_run:'' @ runID), ev_Decision = dec, ev_Reason = []\<rparr>"

section \<open>Who may schedule\<close>

definition schedulerSkillGranted :: "SchedDeps \<Rightarrow> string \<Rightarrow> (unit, bool) result" where
  "schedulerSkillGranted d user =
     (case rd_Policy (sd_Run d) of None \<Rightarrow> Inr True | Some p \<Rightarrow> rp_Check p (''user:'' @ user) ''can_invoke'' ''skill:scheduler'')"

definition requireSchedulerSkill :: "SchedDeps \<Rightarrow> string \<Rightarrow> (rpc_error, unit) result" where
  "requireSchedulerSkill d user =
     (case schedulerSkillGranted d user of
        Inl _ \<Rightarrow> Inl (Status Internal ''authorization check failed'')
      | Inr ok \<Rightarrow> if ok then Inr () else Inl (Status PermissionDenied ''scheduler skill required''))"

definition checkWorkflowSkillNorth :: "SchedDeps \<Rightarrow> string \<Rightarrow> (rpc_error, unit) result" where
  "checkWorkflowSkillNorth d user =
     (case rd_Policy (sd_Run d) of
        None \<Rightarrow> Inr ()
      | Some p \<Rightarrow>
          if \<not> rp_Enabled p then Inr ()
          else (case rp_Check p (''user:'' @ user) ''can_invoke'' ''skill:workflows'' of
                  Inl _ \<Rightarrow> Inl (Status PermissionDenied ''skill:workflows check failed'')
                | Inr ok \<Rightarrow> if ok then Inr () else Inl (Status PermissionDenied ''skill:workflows not granted'')))"

definition requireOwnerSchedulerSkill :: "SchedDeps \<Rightarrow> string \<Rightarrow> string \<Rightarrow> ScheduledRun \<Rightarrow> unit check" where
  "requireOwnerSchedulerSkill d tenant user row =
     (case requireSchedulerSkill d (sr_Owner row) of
        Inl e \<Rightarrow> (Inl e, [schedulerAudit tenant user ''aikonos.scheduler.run.skill_denied'' (sr_ID row) DENY])
      | Inr _ \<Rightarrow> pass ())"

definition authorizeRunMutation :: "SchedDeps \<Rightarrow> ScheduledRun \<Rightarrow> string \<Rightarrow> (rpc_error, unit) result" where
  "authorizeRunMutation d row user = (if sr_Owner row = user then Inr () else td_admin (sd_Task d) user)"

definition delegationLive :: "ScheduledRun \<Rightarrow> int \<Rightarrow> bool" where
  "delegationLive r now = (sr_RevokedAt r = None \<and> now < sr_DelegationExpiresAt r)"

section \<open>Validation\<close>

definition maxSchedulePromptLen :: nat where "maxSchedulePromptLen = 8000"
definition maxApprovedTools :: nat where "maxApprovedTools = 32"
definition defaultClaimLimit :: nat where "defaultClaimLimit = 20"
definition delegationTTL :: int where "delegationTTL = 90 * 24 * 3600 * 1000000000"
definition cronFloorSamples :: nat where "cronFloorSamples = 6"

primrec cron_gaps :: "nat \<Rightarrow> cron_lib \<Rightarrow> string \<Rightarrow> int \<Rightarrow> int \<Rightarrow> (rpc_error, unit) result" where
  "cron_gaps 0 cron expr prev minInterval = Inr ()"
| "cron_gaps (Suc n) cron expr prev minInterval =
     (case NextCronFire cron expr prev of
        None \<Rightarrow> Inl (Status InvalidArgument ''invalid cron expression'')
      | Some next \<Rightarrow>
          if next - prev < minInterval
          then Inl (Status InvalidArgument ''cron fires more often than the configured minimum interval'')
          else cron_gaps n cron expr next minInterval)"

definition enforceCronFloor :: "cron_lib \<Rightarrow> string \<Rightarrow> int \<Rightarrow> int \<Rightarrow> (rpc_error, unit) result" where
  "enforceCronFloor cron expr first minInterval =
     (if minInterval \<le> 0 then Inr () else cron_gaps cronFloorSamples cron expr first minInterval)"

text \<open>The kind, the cron expression and the first firing.\<close>

definition validateScheduleTiming :: "SchedDeps \<Rightarrow> ScheduleDef \<Rightarrow> int \<Rightarrow> (rpc_error, ScheduleKind \<times> string \<times> int) result" where
  "validateScheduleTiming d de now =
     (case de_Kind de of
        None \<Rightarrow> Inl (Status InvalidArgument ''schedule kind required (CRON or ONCE)'')
      | Some ScheduleKindCron \<Rightarrow>
          (if \<not> ValidCronExpr (sd_Cron d) (de_CronExpr de)
           then Inl (Status InvalidArgument ''invalid cron expression (expected 5-field crontab)'')
           else case NextCronFire (sd_Cron d) (de_CronExpr de) now of
                  None \<Rightarrow> Inl (Status InvalidArgument ''invalid cron expression'')
                | Some next \<Rightarrow>
                    bindE (enforceCronFloor (sd_Cron d) (de_CronExpr de) next (sd_MinInterval d)) (\<lambda>_.
                      Inr (ScheduleKindCron, de_CronExpr de, next)))
      | Some ScheduleKindOnce \<Rightarrow>
          (case de_RunAt de of
             None \<Rightarrow> Inl (Status InvalidArgument ''run_at required for a one-off schedule'')
           | Some at \<Rightarrow> if at > now then Inr (ScheduleKindOnce, [], at) else Inl (Status InvalidArgument ''run_at must be in the future'')))"

definition validateScheduleDef :: "SchedDeps \<Rightarrow> ScheduleDef \<Rightarrow> int \<Rightarrow> (rpc_error, ScheduleKind \<times> string \<times> int) result" where
  "validateScheduleDef d de now =
     (let prompt = TrimSpace (de_Prompt de) in
      if prompt = [] \<or> length prompt > maxSchedulePromptLen
      then Inl (Status InvalidArgument ''prompt must be non-empty and <= 8000 chars'')
      else if length (de_Tools de) > maxApprovedTools then Inl (Status InvalidArgument ''at most 32 approved tools'')
      else if list_ex (\<lambda>t. RequiredScope (sd_Registry d) t = None) (de_Tools de)
      then Inl (Status InvalidArgument ''unknown tool in approved_tools'')
      else validateScheduleTiming d de now)"

definition pinScheduledWorkflow :: "SchedDeps \<Rightarrow> string \<Rightarrow> string \<Rightarrow> string \<Rightarrow> (rpc_error, int \<times> string) result" where
  "pinScheduledWorkflow d tenant user lineage =
     (case sd_Workflows d of
        None \<Rightarrow> Inl (Status FailedPrecondition ''workflow storage not configured'')
      | Some get \<Rightarrow>
          (case get tenant user lineage of
             Inl _ \<Rightarrow> Inl (Status InvalidArgument ''workflow not found'')
           | Inr wfl \<Rightarrow>
               if wv_BoundAgent wfl \<noteq> [] then Inl (Status InvalidArgument ''cannot schedule an agent-bound workflow'')
               else Inr (wv_Version wfl, sd_SHA d (wv_Definition wfl))))"

text \<open>The timing, the lineage and the pinned version.\<close>

definition validateWorkflowScheduleDef :: "SchedDeps \<Rightarrow> string \<Rightarrow> string \<Rightarrow> ScheduleDef \<Rightarrow> int
  \<Rightarrow> (rpc_error, (ScheduleKind \<times> string \<times> int) \<times> string \<times> int \<times> string) result" where
  "validateWorkflowScheduleDef d tenant user de now =
     (if TrimSpace (de_Prompt de) \<noteq> [] then Inl (Status InvalidArgument ''prompt not allowed on a workflow schedule'')
      else if de_Tools de \<noteq> [] then Inl (Status InvalidArgument ''approved_tools not allowed on a workflow schedule'')
      else case rd_UUID (sd_Run d) (de_Lineage de) of
        None \<Rightarrow> Inl (Status InvalidArgument ''invalid workflow_lineage_id'')
      | Some lineage \<Rightarrow>
          bindE (pinScheduledWorkflow d tenant user lineage) (\<lambda>pin.
            bindE (validateScheduleTiming d de now) (\<lambda>timing. Inr (timing, lineage, pin))))"

section \<open>Actors\<close>

definition requireActorUnderEnforce :: "SchedDeps \<Rightarrow> string \<Rightarrow> string option \<Rightarrow> (rpc_error, unit) result" where
  "requireActorUnderEnforce d tenant actor =
     (if actor \<noteq> None \<or> \<not> sd_ConfigWired d then Inr ()
      else case td_Cfg (sd_Task d) tenant ''identity.obo'' of
             Inl _ \<Rightarrow> Inl (Status Unavailable ''tenant settings could not be read'')
           | Inr mode \<Rightarrow>
               if mode = ''enforce'' then Inl (Status FailedPrecondition ''identity.obo=enforce: a schedule needs actor_agent_id'')
               else Inr ())"

definition scheduleActor :: "SchedDeps \<Rightarrow> string \<Rightarrow> string \<Rightarrow> string \<Rightarrow> (rpc_error, string option) result" where
  "scheduleActor d tenant user agentID =
     (if agentID = [] then bindE (requireActorUnderEnforce d tenant None) (\<lambda>_. Inr None)
      else case rd_UUID (sd_Run d) agentID of
        None \<Rightarrow> Inl (Status InvalidArgument ''invalid actor_agent_id'')
      | Some aid \<Rightarrow>
          (case rd_Agents (sd_Run d) of
             None \<Rightarrow> Inl (Status FailedPrecondition ''agents are not enabled'')
           | Some st \<Rightarrow>
               (case as_Get st tenant agentID of
                  Inl _ \<Rightarrow> Inl (Status NotFound ''actor agent not found'')
                | Inr _ \<Rightarrow>
                    if \<not> mayOperateActor (sd_Run d) user agentID
                    then Inl (Status PermissionDenied (''you do not have access to agent '' @ agentID))
                    else Inr (Some aid))))"

section \<open>Creating\<close>

definition new_run :: "string \<Rightarrow> string \<Rightarrow> string \<Rightarrow> ScheduleDef \<Rightarrow> ScheduleKind \<times> string \<times> int \<Rightarrow> string option \<Rightarrow> (string \<times> int \<times> string) option
  \<Rightarrow> ScheduledRun" where
  "new_run sid tenantUUID user de timing actor wfl =
     (case timing of (kind, cron, next) \<Rightarrow>
        \<lparr>sr_ID = sid, sr_TenantID = tenantUUID, sr_Owner = user, sr_Prompt = TrimSpace (de_Prompt de), sr_Kind = kind, sr_CronExpr = cron,
         sr_NextFireAt = Some next, sr_ApprovedTools = de_Tools de, sr_State = ScheduledRunActive, sr_LastFireAt = None,
         sr_LastStatus = [], sr_LastSummary = [], sr_RunCount = 0, sr_CreatedBy = user, sr_CreatedAt = zeroTime,
         sr_Lineage = map_option fst wfl, sr_Inputs = (case wfl of None \<Rightarrow> [] | Some _ \<Rightarrow> de_Inputs de),
         sr_WfVersion = map_option (fst \<circ> snd) wfl, sr_WfSHA = (case wfl of None \<Rightarrow> [] | Some (_, _, sha) \<Rightarrow> sha),
         sr_Actor = actor, sr_DelegationExpiresAt = zeroTime, sr_RevokedAt = None, sr_RevokedBy = None,
         sr_DelegatedAt = zeroTime, sr_ClaimedAt = None\<rparr>)"

definition validate_new :: "SchedDeps \<Rightarrow> string \<Rightarrow> string \<Rightarrow> ScheduleDef \<Rightarrow> int
  \<Rightarrow> (rpc_error, (ScheduleKind \<times> string \<times> int) \<times> (string \<times> int \<times> string) option) result" where
  "validate_new d tenant user de now =
     (if TrimSpace (de_Lineage de) \<noteq> []
      then bindE (checkWorkflowSkillNorth d user) (\<lambda>_.
             bindE (validateWorkflowScheduleDef d tenant user de now) (\<lambda>(timing, wfl). Inr (timing, Some wfl)))
      else bindE (validateScheduleDef d de now) (\<lambda>timing. Inr (timing, None)))"

definition CreateScheduledRun :: "SchedDeps \<Rightarrow> Identity option \<Rightarrow> string \<Rightarrow> bool \<Rightarrow> bool \<Rightarrow> int \<Rightarrow> int \<Rightarrow> CreateRunReq \<Rightarrow> SchedDb
  \<Rightarrow> (rpc_error, ScheduledRun) result \<times> AuditEvent list \<times> SchedDb" where
  "CreateScheduledRun d ident newID fail_create fail_get now dbnow req db =
     (case bindE (callerIdentity (td_uuid_ok (sd_Task d)) ident (cr_TenantId req) (cr_UserId req)) (\<lambda>(tenant, user).
             bindE (requireSchedulerSkill d user) (\<lambda>_.
               bindE (validate_new d tenant user (cr_Def req) now) (\<lambda>(timing, wfl). Inr (tenant, user, timing, wfl)))) of
        Inl e \<Rightarrow> (Inl e, [], db)
      | Inr (tenant, user, timing, wfl) \<Rightarrow>
          (case rd_UUID (sd_Run d) tenant of
             None \<Rightarrow> (Inl (Status InvalidArgument ''invalid tenant_id''), [], db)
           | Some tenantUUID \<Rightarrow>
               (case scheduleActor d tenant user (cr_ActorAgentId req) of
                  Inl e \<Rightarrow> (Inl e, [schedulerAudit tenant user ''aikonos.scheduler.run.actor_denied'' (cr_ActorAgentId req) DENY], db)
                | Inr actor \<Rightarrow>
                    (case sched_Create fail_create dbnow (new_run newID tenantUUID user (cr_Def req) timing actor wfl) (Some (now + delegationTTL)) db of
                       Inl _ \<Rightarrow> (Inl (Status Internal ''create scheduled run''), [], db)
                     | Inr db' \<Rightarrow>
                         (case sched_Get fail_get tenant newID db' of
                            Inl _ \<Rightarrow> (Inl (Status Internal ''load created run''), [], db')
                          | Inr stored \<Rightarrow> (Inr stored, [schedulerAudit tenant user ''aikonos.scheduler.run.created'' newID ALLOW], db'))))))"

section \<open>Listing\<close>

definition ListScheduledRuns :: "SchedDeps \<Rightarrow> Identity option \<Rightarrow> bool \<Rightarrow> string \<Rightarrow> string \<Rightarrow> string \<Rightarrow> SchedDb
  \<Rightarrow> (rpc_error, ScheduledRun list) result \<times> AuditEvent list" where
  "ListScheduledRuns d ident fail reqTenant reqUser ownerFilter db =
     (case bindE (callerIdentity (td_uuid_ok (sd_Task d)) ident reqTenant reqUser) (\<lambda>(tenant, user).
             if ownerFilter \<noteq> []
             then bindE (td_admin (sd_Task d) user) (\<lambda>_. Inr (tenant, user, if ownerFilter = ''*'' then [] else ownerFilter))
             else Inr (tenant, user, user)) of
        Inl e \<Rightarrow> (Inl e, [])
      | Inr (tenant, user, owner) \<Rightarrow>
          (case sched_List fail tenant owner db of
             Inl _ \<Rightarrow> (Inl (Status Internal ''list scheduled runs''), [])
           | Inr runs \<Rightarrow> (Inr runs, [schedulerAudit tenant user ''aikonos.scheduler.runs.listed'' [] ALLOW])))"

section \<open>Updating and deleting\<close>

text \<open>A write of the update handler: whether it was refused, its events, the table.\<close>

type_synonym run_write = "(rpc_error, unit) result \<times> AuditEvent list \<times> SchedDb"

definition stored :: "string \<Rightarrow> AuditEvent list \<Rightarrow> SchedDb \<Rightarrow> (sched_error, SchedDb) result \<Rightarrow> run_write" where
  "stored msg evs db r = (case r of Inl _ \<Rightarrow> (Inl (Status Internal msg), evs, db) | Inr db' \<Rightarrow> (Inr (), evs, db'))"

definition refused :: "rpc_error \<Rightarrow> AuditEvent list \<Rightarrow> SchedDb \<Rightarrow> run_write" where
  "refused e evs db = (Inl e, evs, db)"

definition after_skill :: "SchedDeps \<Rightarrow> string \<Rightarrow> string \<Rightarrow> ScheduledRun \<Rightarrow> SchedDb \<Rightarrow> run_write \<Rightarrow> run_write" where
  "after_skill d tenant user row db k =
     (case requireOwnerSchedulerSkill d tenant user row of (Inl e, evs) \<Rightarrow> refused e evs db | (Inr _, _) \<Rightarrow> k)"

definition extend_run :: "SchedDeps \<Rightarrow> bool \<Rightarrow> int \<Rightarrow> int \<Rightarrow> string \<Rightarrow> string \<Rightarrow> ScheduledRun \<Rightarrow> string \<Rightarrow> SchedDb \<Rightarrow> run_write" where
  "extend_run d fail now dbnow tenant user row sid db =
     (if sr_Owner row \<noteq> user then refused (Status PermissionDenied ''only the schedule owner can extend its delegation'') [] db
      else if sr_RevokedAt row \<noteq> None
      then refused (Status FailedPrecondition ''schedule delegation is revoked; create a new schedule'') [] db
      else after_skill d tenant user row db (stored ''extend'' [] db (ExtendDelegation fail dbnow tenant sid (now + delegationTTL) db)))"

definition resume_run :: "SchedDeps \<Rightarrow> bool \<Rightarrow> int \<Rightarrow> string \<Rightarrow> string \<Rightarrow> ScheduledRun \<Rightarrow> string \<Rightarrow> SchedDb \<Rightarrow> run_write" where
  "resume_run d fail now tenant user row sid db =
     (if \<not> delegationLive row now
      then refused (Status FailedPrecondition ''schedule delegation is revoked or expired; extend it or create a new schedule'') [] db
      else after_skill d tenant user row db
        (case requireActorUnderEnforce d tenant (sr_Actor row) of
           Inl e \<Rightarrow> refused e [] db
         | Inr _ \<Rightarrow>
             if sr_Kind row = ScheduleKindCron
             then (case NextCronFire (sd_Cron d) (sr_CronExpr row) now of
                     None \<Rightarrow> refused (Status FailedPrecondition ''invalid cron expression'') [] db
                   | Some n \<Rightarrow> stored ''resume'' [] db (SetState fail tenant sid ScheduledRunActive (Some n) db))
             else stored ''resume'' [] db (SetState fail tenant sid ScheduledRunActive (sr_NextFireAt row) db)))"

definition inputs_equal :: "(string \<times> string) list \<Rightarrow> (string \<times> string) list \<Rightarrow> bool" where
  "inputs_equal a b = list_all (\<lambda>k. map_of a k = map_of b k) (map fst a @ map fst b)"

text \<open>The edited columns; the others of the record are not read by \<^const>\<open>sched_Update\<close>.\<close>

definition edited :: "ScheduledRun \<Rightarrow> string \<Rightarrow> ScheduleKind \<times> string \<times> int \<Rightarrow> string list \<Rightarrow> string option \<Rightarrow> (int \<times> string) option \<Rightarrow> ScheduledRun" where
  "edited row prompt timing tools actor pin =
     (case timing of (kind, cron, next) \<Rightarrow>
        row\<lparr>sr_Prompt := prompt, sr_Kind := kind, sr_CronExpr := cron, sr_NextFireAt := Some next, sr_ApprovedTools := tools, sr_Actor := actor,
            sr_WfVersion := map_option fst pin, sr_WfSHA := (case pin of None \<Rightarrow> [] | Some (_, sha) \<Rightarrow> sha)\<rparr>)"

definition validate_edit :: "SchedDeps \<Rightarrow> int \<Rightarrow> string \<Rightarrow> string \<Rightarrow> ScheduledRun \<Rightarrow> ScheduleDef \<Rightarrow> string option \<Rightarrow> (rpc_error, ScheduledRun) result" where
  "validate_edit d now tenant user row de actor =
     (case sr_Lineage row of
        Some lineage \<Rightarrow>
          if TrimSpace (de_Prompt de) \<noteq> [] then Inl (Status InvalidArgument ''cannot set a prompt on a workflow schedule'')
          else if de_Tools de \<noteq> [] then Inl (Status InvalidArgument ''cannot set approved_tools on a workflow schedule'')
          else if de_Lineage de \<noteq> [] \<and> de_Lineage de \<noteq> lineage then Inl (Status InvalidArgument ''workflow binding is immutable'')
          else if de_Inputs de \<noteq> [] \<and> \<not> inputs_equal (de_Inputs de) (sr_Inputs row)
          then Inl (Status InvalidArgument ''workflow inputs are immutable'')
          else bindE (validateScheduleTiming d de now) (\<lambda>timing.
                 bindE (pinScheduledWorkflow d tenant user lineage) (\<lambda>pin. Inr (edited row [] timing [] actor (Some pin))))
      | None \<Rightarrow>
          if de_Lineage de \<noteq> [] then Inl (Status InvalidArgument ''cannot bind an existing prompt schedule to a workflow'')
          else bindE (validateScheduleDef d de now) (\<lambda>timing.
                 Inr (edited row (TrimSpace (de_Prompt de)) timing (de_Tools de) actor None)))"

definition edit_actor :: "SchedDeps \<Rightarrow> string \<Rightarrow> string \<Rightarrow> ScheduledRun \<Rightarrow> string option \<Rightarrow> (rpc_error, string option) result" where
  "edit_actor d tenant user row actorReq =
     (case actorReq of None \<Rightarrow> Inr (sr_Actor row) | Some a \<Rightarrow> scheduleActor d tenant user a)"

definition edit_run :: "SchedDeps \<Rightarrow> bool \<Rightarrow> int \<Rightarrow> string \<Rightarrow> string \<Rightarrow> ScheduledRun \<Rightarrow> UpdateRunReq \<Rightarrow> SchedDb \<Rightarrow> run_write" where
  "edit_run d fail now tenant user row req db =
     (if sr_Owner row \<noteq> user
      then refused (Status PermissionDenied ''only the schedule owner can edit it; an admin may pause, revoke or delete it'')
             [schedulerAudit tenant user ''aikonos.scheduler.run.update_denied'' (ur_Id req) DENY] db
      else after_skill d tenant user row db
        (case edit_actor d tenant user row (ur_ActorAgentId req) of
           Inl e \<Rightarrow> refused e [schedulerAudit tenant user ''aikonos.scheduler.run.actor_denied'' (ur_Id req) DENY] db
         | Inr actor \<Rightarrow>
             (case validate_edit d now tenant user row (ur_Def req) actor of
                Inl e \<Rightarrow> refused e [] db
              | Inr s \<Rightarrow> stored ''update'' [] db (sched_Update fail tenant (ur_Id req) s db))))"

text \<open>The branch of the handler, with the type of the event that records its success.\<close>

definition update_write :: "SchedDeps \<Rightarrow> bool \<Rightarrow> int \<Rightarrow> int \<Rightarrow> string \<Rightarrow> string \<Rightarrow> ScheduledRun \<Rightarrow> UpdateRunReq \<Rightarrow> SchedDb
  \<Rightarrow> run_write \<times> string" where
  "update_write d fail now dbnow tenant user row req db =
     (let sid = ur_Id req in
      if ur_RevokeDelegation req
      then (stored ''revoke'' [] db (RevokeDelegation fail dbnow tenant sid user db), ''aikonos.scheduler.run.delegation_revoked'')
      else if ur_ExtendDelegation req
      then (extend_run d fail now dbnow tenant user row sid db, ''aikonos.scheduler.run.delegation_extended'')
      else (case ur_DesiredState req of
              Some ScheduledRunPaused \<Rightarrow> stored ''pause'' [] db (SetState fail tenant sid ScheduledRunPaused (sr_NextFireAt row) db)
            | Some ScheduledRunActive \<Rightarrow> resume_run d fail now tenant user row sid db
            | _ \<Rightarrow> edit_run d fail now tenant user row req db,
            ''aikonos.scheduler.run.updated''))"

text \<open>
  The caller and the run it may change.  \<open>db0\<close> is the table the handler reads, \<open>db\<close> the one it writes
  to.  Revoking and extending record their event before the row is loaded again, the other branches
  after it.
\<close>

definition load_for_change :: "SchedDeps \<Rightarrow> Identity option \<Rightarrow> bool \<Rightarrow> string \<Rightarrow> string \<Rightarrow> string \<Rightarrow> SchedDb
  \<Rightarrow> (rpc_error, string \<times> string \<times> ScheduledRun) result" where
  "load_for_change d ident fail reqTenant reqUser sid db0 =
     bindE (callerIdentity (td_uuid_ok (sd_Task d)) ident reqTenant reqUser) (\<lambda>(tenant, user).
       if sid = [] then Inl (Status InvalidArgument ''id required'')
       else case sched_Get fail tenant sid db0 of
              Inl _ \<Rightarrow> Inl (Status NotFound ''scheduled run not found'')
            | Inr row \<Rightarrow> bindE (authorizeRunMutation d row user) (\<lambda>_. Inr (tenant, user, row)))"

record RunFaults =
  nf_load :: bool
  nf_write :: bool
  nf_reload :: bool

definition UpdateScheduledRun :: "SchedDeps \<Rightarrow> Identity option \<Rightarrow> RunFaults \<Rightarrow> int \<Rightarrow> int \<Rightarrow> UpdateRunReq \<Rightarrow> SchedDb \<Rightarrow> SchedDb
  \<Rightarrow> (rpc_error, ScheduledRun) result \<times> AuditEvent list \<times> SchedDb" where
  "UpdateScheduledRun d ident ft now dbnow req db0 db =
     (case load_for_change d ident (nf_load ft) (ur_TenantId req) (ur_UserId req) (ur_Id req) db0 of
        Inl e \<Rightarrow> (Inl e, [], db)
      | Inr (tenant, user, row) \<Rightarrow>
          (case update_write d (nf_write ft) now dbnow tenant user row req db of
             ((Inl e, evs, db'), _) \<Rightarrow> (Inl e, evs, db')
           | ((Inr _, evs, db'), etype) \<Rightarrow>
               (let ev = [schedulerAudit tenant user etype (ur_Id req) ALLOW] in
                case sched_Get (nf_reload ft) tenant (ur_Id req) db' of
                  Inl _ \<Rightarrow> (Inl (Status Internal ''load run''),
                            evs @ (if ur_RevokeDelegation req \<or> ur_ExtendDelegation req then ev else []), db')
                | Inr r \<Rightarrow> (Inr r, evs @ ev, db'))))"

definition DeleteScheduledRun :: "SchedDeps \<Rightarrow> Identity option \<Rightarrow> RunFaults \<Rightarrow> string \<Rightarrow> string \<Rightarrow> string \<Rightarrow> SchedDb \<Rightarrow> SchedDb \<Rightarrow> run_write" where
  "DeleteScheduledRun d ident ft reqTenant reqUser sid db0 db =
     (case load_for_change d ident (nf_load ft) reqTenant reqUser sid db0 of
        Inl e \<Rightarrow> (Inl e, [], db)
      | Inr (tenant, user, row) \<Rightarrow>
          (case sched_Delete (nf_write ft) tenant sid db of
             Inl _ \<Rightarrow> (Inl (Status Internal ''delete''), [], db)
           | Inr db' \<Rightarrow> (Inr (), [schedulerAudit tenant user ''aikonos.scheduler.run.deleted'' sid ALLOW], db')))"

section \<open>Claiming (the gateway's ticker)\<close>

definition onceRetryBackoff :: int where "onceRetryBackoff = 30 * 1000000000"

definition skipSkillRevoked :: string where "skipSkillRevoked = ''skill_scheduler_revoked''"

text \<open>Which of the writes for a run fail.\<close>

record ClaimFaults =
  xf_claim :: bool
  xf_settle :: "string \<Rightarrow> bool"
  xf_mark :: "string \<Rightarrow> bool"

definition or_unchanged :: "SchedDb \<Rightarrow> (sched_error, SchedDb) result \<Rightarrow> SchedDb" where
  "or_unchanged db r = (case r of Inl _ \<Rightarrow> db | Inr db' \<Rightarrow> db')"

definition settleOnce :: "ClaimFaults \<Rightarrow> string \<Rightarrow> int \<Rightarrow> ScheduledRun \<Rightarrow> string \<Rightarrow> SchedDb \<Rightarrow> SchedDb" where
  "settleOnce ft tenant now r parkReason db =
     (if sr_Kind r \<noteq> ScheduleKindOnce then db
      else if parkReason = [] then or_unchanged db (Reschedule (xf_settle ft (sr_ID r)) tenant (sr_ID r) (now + onceRetryBackoff) db)
      else or_unchanged db (Park (xf_settle ft (sr_ID r)) tenant (sr_ID r) parkReason db))"

text \<open>The agent a fire acts as; a refusal has a reason, a failed read none.\<close>

datatype pick = PickActor string | PickSkip string | PickRetry

definition claim_actor :: "SchedDeps \<Rightarrow> string \<Rightarrow> ScheduledRun \<Rightarrow> pick \<times> effects" where
  "claim_actor d tenant r =
     (case (sr_Actor r, rd_Agents (sd_Run d)) of
        (None, None) \<Rightarrow> (PickActor [], [], [])
      | (None, Some st) \<Rightarrow>
          (case runAgent (sd_Run d) st tenant (sr_Owner r) [] of
             (RunErr, eff) \<Rightarrow> (PickRetry, eff)
           | (RunRefused reason, eff) \<Rightarrow> (PickSkip (if HasPrefix reason ''agent_'' then reason else ''actor_not_permitted''), eff)
           | (RunOk a, eff) \<Rightarrow> (PickActor (ag_ID a), eff))
      | (Some actor, _) \<Rightarrow>
          (if \<not> mayOperateActor (sd_Run d) (sr_Owner r) actor then PickSkip ''actor_not_permitted''
           else case run_refusal (sd_Run d) tenant actor of
                  Inl _ \<Rightarrow> PickRetry
                | Inr refusal \<Rightarrow> if refusal \<noteq> [] then PickSkip refusal else PickActor actor, [], []))"

record DueRun =
  du_Id :: string
  du_OwnerUserId :: string
  du_Prompt :: string
  du_ApprovedTools :: "string list"
  du_OwnerGrant :: string
  du_WorkflowInputs :: "(string \<times> string) list"
  du_ActorAgentId :: string
  du_WorkflowLineageId :: string

definition owner_grant :: "string \<Rightarrow> ScheduledRun \<Rightarrow> string \<Rightarrow> Grant" where
  "owner_grant tenant r actor =
     \<lparr>g_TenantID = tenant, g_Subject = sr_Owner r, g_Actor = actor, g_Kind = KindScheduled, g_GrantID = sr_ID r, g_Expires = None, g_IssuedAt = None\<rparr>"

definition due_run :: "ScheduledRun \<Rightarrow> string \<Rightarrow> string \<Rightarrow> DueRun" where
  "due_run r actor grant =
     \<lparr>du_Id = sr_ID r, du_OwnerUserId = sr_Owner r, du_Prompt = sr_Prompt r, du_ApprovedTools = sr_ApprovedTools r, du_OwnerGrant = grant,
      du_WorkflowInputs = sr_Inputs r, du_ActorAgentId = actor, du_WorkflowLineageId = (case sr_Lineage r of None \<Rightarrow> [] | Some l \<Rightarrow> l)\<rparr>"

text \<open>
  The loop over the claimed runs carries the skills looked up so far, the runs handed out, the
  tuples and events written, and the table.
\<close>

record ClaimLoop =
  cl_skills :: "(string \<times> bool) list"
  cl_out :: "DueRun list"
  cl_effects :: effects
  cl_db :: SchedDb

definition cl_audit :: "AuditEvent \<Rightarrow> ClaimLoop \<Rightarrow> ClaimLoop" where
  "cl_audit ev L = L\<lparr>cl_effects := (fst (cl_effects L), snd (cl_effects L) @ [ev])\<rparr>"

definition cl_add :: "effects \<Rightarrow> ClaimLoop \<Rightarrow> ClaimLoop" where
  "cl_add eff L = L\<lparr>cl_effects := (fst (cl_effects L) @ fst eff, snd (cl_effects L) @ snd eff)\<rparr>"

definition skipped :: "string \<Rightarrow> ScheduledRun \<Rightarrow> string \<Rightarrow> AuditEvent" where
  "skipped tenant r reason = schedulerAudit tenant (sr_Owner r) (''aikonos.scheduler.run.skipped.'' @ reason) (sr_ID r) DENY"

definition hand_out :: "SchedDeps \<Rightarrow> ClaimFaults \<Rightarrow> string \<Rightarrow> int \<Rightarrow> int \<Rightarrow> ScheduledRun \<Rightarrow> string \<Rightarrow> ClaimLoop \<Rightarrow> ClaimLoop" where
  "hand_out d ft tenant now dbnow r actor L =
     (case Mint (td_Mac (sd_Task d)) now (td_GrantKey (sd_Task d)) (owner_grant tenant r actor) (td_GrantTTL (sd_Task d)) of
        Inl _ \<Rightarrow> L\<lparr>cl_db := settleOnce ft tenant now r [] (cl_db L)\<rparr>
      | Inr grant \<Rightarrow>
          (case MarkClaimed (xf_mark ft (sr_ID r)) dbnow tenant (sr_ID r) (cl_db L) of
             Inl _ \<Rightarrow> L\<lparr>cl_db := settleOnce ft tenant now r [] (cl_db L)\<rparr>
           | Inr db' \<Rightarrow>
               cl_audit (schedulerAudit tenant (sr_Owner r) ''aikonos.scheduler.run.fired'' (sr_ID r) ALLOW)
                 (L\<lparr>cl_db := db', cl_out := cl_out L @ [due_run r actor grant]\<rparr>)))"

definition pick_and_hand_out :: "SchedDeps \<Rightarrow> ClaimFaults \<Rightarrow> string \<Rightarrow> int \<Rightarrow> int \<Rightarrow> ScheduledRun \<Rightarrow> ClaimLoop \<Rightarrow> ClaimLoop" where
  "pick_and_hand_out d ft tenant now dbnow r L =
     (case claim_actor d tenant r of
        (PickRetry, eff) \<Rightarrow> (cl_add eff L)\<lparr>cl_db := settleOnce ft tenant now r [] (cl_db L)\<rparr>
      | (PickSkip reason, eff) \<Rightarrow>
          cl_audit (skipped tenant r reason) ((cl_add eff L)\<lparr>cl_db := settleOnce ft tenant now r reason (cl_db L)\<rparr>)
      | (PickActor actor, eff) \<Rightarrow> hand_out d ft tenant now dbnow r actor (cl_add eff L))"

definition claim_one :: "SchedDeps \<Rightarrow> ClaimFaults \<Rightarrow> string \<Rightarrow> int \<Rightarrow> int \<Rightarrow> ClaimLoop \<Rightarrow> ScheduledRun \<times> string \<Rightarrow> ClaimLoop" where
  "claim_one d ft tenant now dbnow L entry =
     (case entry of (r, reason) \<Rightarrow>
        if reason \<noteq> [] then cl_audit (skipped tenant r reason) L
        else (case (case map_of (cl_skills L) (sr_Owner r) of Some g \<Rightarrow> Inr g | None \<Rightarrow> schedulerSkillGranted d (sr_Owner r)) of
                Inl _ \<Rightarrow> L\<lparr>cl_db := settleOnce ft tenant now r [] (cl_db L)\<rparr>
              | Inr granted \<Rightarrow>
                  (let L1 = L\<lparr>cl_skills := (sr_Owner r, granted) # cl_skills L\<rparr> in
                   if \<not> granted
                   then cl_audit (skipped tenant r skipSkillRevoked)
                          (L1\<lparr>cl_db := or_unchanged (cl_db L) (Park (xf_settle ft (sr_ID r)) tenant (sr_ID r) skipSkillRevoked (cl_db L))\<rparr>)
                   else pick_and_hand_out d ft tenant now dbnow r L1)))"

definition claim_limit :: "int \<Rightarrow> nat" where
  "claim_limit limit = (if limit \<le> 0 \<or> limit > 100 then defaultClaimLimit else nat limit)"

definition ClaimDueScheduledRuns :: "SchedDeps \<Rightarrow> ClaimView \<Rightarrow> Identity option \<Rightarrow> ClaimFaults \<Rightarrow> (string \<Rightarrow> bool) \<Rightarrow> int \<Rightarrow> int \<Rightarrow> string \<Rightarrow> int \<Rightarrow> SchedDb
  \<Rightarrow> (rpc_error, DueRun list) result \<times> effects \<times> SchedDb" where
  "ClaimDueScheduledRuns d v ident ft locked now dbnow tenant limit db =
     (case requireGatewayPeer (td_GatewaySpiffeID (sd_Task d)) (td_DevMode (sd_Task d)) ident of
        Inl e \<Rightarrow> (Inl e, ([], []), db)
      | Inr _ \<Rightarrow>
          if \<not> td_uuid_ok (sd_Task d) tenant then (Inl (Status InvalidArgument ''invalid tenant_id''), ([], []), db)
          else (case td_Cfg (sd_Task d) tenant ''identity.obo'' of
                  Inl _ \<Rightarrow> (Inl (Status Unavailable ''tenant settings could not be read''), ([], []), db)
                | Inr mode \<Rightarrow>
                    (case ClaimDue (xf_claim ft) (sd_Cron d) v locked tenant now (claim_limit limit) (mode = ''enforce'') db of
                       Inl _ \<Rightarrow> (Inl (Status Internal ''claim due''), ([], []), db)
                     | Inr (entries, db1) \<Rightarrow>
                         (let L = foldl (claim_one d ft tenant now dbnow) \<lparr>cl_skills = [], cl_out = [], cl_effects = ([], []), cl_db = db1\<rparr> entries
                          in (Inr (cl_out L), cl_effects L, cl_db L)))))"

section \<open>Reporting\<close>

definition report_event :: "bool \<Rightarrow> string \<times> AuditPolicyDecision" where
  "report_event success = (if success then (''aikonos.scheduler.run.completed'', ALLOW) else (''aikonos.scheduler.run.failed'', DENY))"

definition ReportScheduledRunResult :: "SchedDeps \<Rightarrow> Identity option \<Rightarrow> bool \<Rightarrow> bool \<Rightarrow> string \<Rightarrow> string \<Rightarrow> bool \<Rightarrow> string \<Rightarrow> SchedDb \<Rightarrow> run_write" where
  "ReportScheduledRunResult d ident fail fail_get tenant sid success summary db =
     (case requireGatewayPeer (td_GatewaySpiffeID (sd_Task d)) (td_DevMode (sd_Task d)) ident of
        Inl e \<Rightarrow> (Inl e, [], db)
      | Inr _ \<Rightarrow>
          if \<not> td_uuid_ok (sd_Task d) tenant then (Inl (Status InvalidArgument ''invalid tenant_id''), [], db)
          else if sid = [] then (Inl (Status InvalidArgument ''id required''), [], db)
          else (case ReportResult fail tenant sid success summary db of
                  Inl ErrScheduledRunNotClaimed \<Rightarrow>
                    (Inl (Status FailedPrecondition ''scheduled run has no outstanding claim''),
                     [schedulerAudit tenant [] ''aikonos.scheduler.run.report_denied'' sid DENY], db)
                | Inl _ \<Rightarrow> (Inl (Status Internal ''report result''), [], db)
                | Inr db' \<Rightarrow>
                    (let owner = (case sched_Get fail_get tenant sid db' of Inl _ \<Rightarrow> [] | Inr row \<Rightarrow> sr_Owner row);
                         ev = report_event success
                     in (Inr (), [schedulerAudit tenant owner (fst ev) sid (snd ev)], db'))))"

end
