(* ===== verification/SchedulerSafety.thy ===== *)
theory SchedulerSafety
  imports Scheduler
begin

text \<open>
  What one call of the scheduler's handlers does to the table: which writes an update can end in and
  who may cause them, which rows the claim transaction selects and what the loop over them writes
  and hands out.  Theory \<open>SchedulerRun\<close> puts the calls in sequence.
\<close>

section \<open>Looking up rows\<close>

definition look :: "string \<Rightarrow> SchedDb \<Rightarrow> ScheduledRun option" where
  "look sid db = find (\<lambda>r. sr_ID r = sid) db"

lemma look_Nil [simp]: "look sid [] = None"
  by (simp add: look_def)

lemma look_SomeD: "look sid db = Some r \<Longrightarrow> r \<in> set db \<and> sr_ID r = sid"
  by (auto simp: look_def find_Some_iff in_set_conv_nth)

lemma look_None_iff: "look sid db = None \<longleftrightarrow> sid \<notin> sr_ID ` set db"
  by (auto simp: look_def find_None_iff)

lemma look_append: "look sid (db @ xs) = (case look sid db of None \<Rightarrow> look sid xs | Some r \<Rightarrow> Some r)"
  by (induction db) (auto simp: look_def)

lemma look_single: "look sid [r] = (if sr_ID r = sid then Some r else None)"
  by (simp add: look_def)

lemma look_distinct: "distinct (map sr_ID db) \<Longrightarrow> r \<in> set db \<Longrightarrow> look (sr_ID r) db = Some r"
  by (induction db) (auto simp: look_def)

lemma look_updates:
  "(\<And>r. sr_ID (f r) = sr_ID r) \<Longrightarrow> look sid (updates P f db) = map_option (\<lambda>r. if P r then f r else r) (look sid db)"
  by (induction db) (auto simp: look_def updates_def)

lemma ids_updates: "(\<And>r. sr_ID (f r) = sr_ID r) \<Longrightarrow> map sr_ID (updates P f db) = map sr_ID db"
  by (auto simp: updates_def)

lemma look_filter:
  "distinct (map sr_ID db) \<Longrightarrow> look sid (filter P db) = (case look sid db of Some r \<Rightarrow> if P r then Some r else None | None \<Rightarrow> None)"
proof (induction db)
  case (Cons r db)
  then show ?case
  proof (cases "sr_ID r = sid")
    case True
    then have "look sid db = None" using Cons.prems by (auto simp: look_None_iff)
    then show ?thesis using True Cons by (auto simp: look_def)
  qed (use Cons in \<open>auto simp: look_def\<close>)
qed simp

lemma exec_update_Inr: "exec_update fail P f db = Inr db' \<longleftrightarrow> \<not> fail \<and> list_ex P db \<and> db' = updates P f db"
  by (auto simp: exec_update_def)

lemma find_sees: "distinct (map sr_ID db) \<Longrightarrow> find (sees tenant sid) db = (case look sid db of Some r \<Rightarrow> if sr_TenantID r = tenant then Some r else None | None \<Rightarrow> None)"
proof (induction db)
  case (Cons r db)
  then show ?case
  proof (cases "sr_ID r = sid")
    case True
    then have "sid \<notin> sr_ID ` set db" using Cons.prems by auto
    then have "find (sees tenant sid) db = None" by (auto simp: find_None_iff sees_def)
    then show ?thesis using True by (simp add: look_def sees_def [of tenant sid r])
  qed (use Cons in \<open>auto simp: look_def sees_def [of tenant sid r]\<close>)
qed simp

lemma sched_Get_look:
  assumes "distinct (map sr_ID db)" "sched_Get fail tenant sid db = Inr r"
  shows "look sid db = Some r" "sr_TenantID r = tenant"
  using assms by (auto simp: sched_Get_def find_sees split: if_splits option.splits)

section \<open>What a write keeps of a row\<close>

text \<open>
  An interface for the writers of the table: a reflexive and transitive relation that every write
  of a row respects is respected by every sequence of writes, up to deletion.
\<close>

definition stays :: "(ScheduledRun \<Rightarrow> ScheduledRun \<Rightarrow> bool) \<Rightarrow> SchedDb \<Rightarrow> SchedDb \<Rightarrow> bool" where
  "stays R db db' \<longleftrightarrow> (\<forall>sid r'. look sid db' = Some r' \<longrightarrow> (\<exists>r. look sid db = Some r \<and> R r r'))"

locale row_rel =
  fixes R :: "ScheduledRun \<Rightarrow> ScheduledRun \<Rightarrow> bool"
  assumes R_refl: "R r r"
    and R_trans: "R a b \<Longrightarrow> R b c \<Longrightarrow> R a c"
begin

lemma stays_refl: "stays R db db"
  by (auto simp: stays_def R_refl)

lemma stays_trans: "stays R a b \<Longrightarrow> stays R b c \<Longrightarrow> stays R a c"
  unfolding stays_def using R_trans by blast

lemma stays_updates:
  assumes "\<And>r. sr_ID (f r) = sr_ID r" "\<And>r. r \<in> set db \<Longrightarrow> P r \<Longrightarrow> R r (f r)"
  shows "stays R db (updates P f db)"
  using assms by (auto simp: stays_def look_updates R_refl dest: look_SomeD)

lemma stays_exec:
  assumes "exec_update fail P f db = Inr db'" "\<And>r. sr_ID (f r) = sr_ID r" "\<And>r. r \<in> set db \<Longrightarrow> P r \<Longrightarrow> R r (f r)"
  shows "stays R db db'"
  using assms stays_updates [of f db P] by (simp add: exec_update_Inr)

lemma stays_filter:
  assumes "distinct (map sr_ID db)"
  shows "stays R db (filter P db)"
  using assms by (auto simp: stays_def look_filter R_refl split: option.splits if_splits)

lemma stays_foldl:
  assumes "\<And>db s. stays R db (step db s)"
  shows "stays R db (foldl step db xs)"
  by (induction xs arbitrary: db) (auto intro: stays_refl stays_trans assms)

end

text \<open>Nobody changes whose run it is, where it comes from, or that its delegation was revoked.\<close>

definition kept :: "ScheduledRun \<Rightarrow> ScheduledRun \<Rightarrow> bool" where
  "kept r r' \<longleftrightarrow> sr_ID r' = sr_ID r \<and> sr_TenantID r' = sr_TenantID r \<and> sr_Owner r' = sr_Owner r \<and> sr_CreatedBy r' = sr_CreatedBy r
     \<and> sr_CreatedAt r' = sr_CreatedAt r \<and> sr_Lineage r' = sr_Lineage r \<and> sr_Inputs r' = sr_Inputs r
     \<and> (sr_RevokedAt r \<noteq> None \<longrightarrow> sr_RevokedAt r' = sr_RevokedAt r)"

interpretation kept: row_rel kept
  by unfold_locales (auto simp: kept_def)

text \<open>What only an edit by the owner changes: the definition and the agent; publishing may move the pinned hash.\<close>

definition same_work :: "ScheduledRun \<Rightarrow> ScheduledRun \<Rightarrow> bool" where
  "same_work r r' \<longleftrightarrow> sr_Prompt r' = sr_Prompt r \<and> sr_Kind r' = sr_Kind r \<and> sr_CronExpr r' = sr_CronExpr r
     \<and> sr_ApprovedTools r' = sr_ApprovedTools r \<and> sr_Actor r' = sr_Actor r \<and> sr_WfVersion r' = sr_WfVersion r \<and> sr_WfSHA r' = sr_WfSHA r
     \<and> sr_DelegationExpiresAt r' = sr_DelegationExpiresAt r \<and> sr_DelegatedAt r' = sr_DelegatedAt r"

interpretation work: row_rel same_work
  by unfold_locales (auto simp: same_work_def)

definition same_claim :: "ScheduledRun \<Rightarrow> ScheduledRun \<Rightarrow> bool" where
  "same_claim r r' \<longleftrightarrow> sr_ClaimedAt r' = sr_ClaimedAt r"

interpretation claim: row_rel same_claim
  by unfold_locales (auto simp: same_claim_def)

text \<open>The gateway's calls change neither the work nor the delegation of a run.\<close>

definition untouched :: "ScheduledRun \<Rightarrow> ScheduledRun \<Rightarrow> bool" where
  "untouched r r' \<longleftrightarrow> kept r r' \<and> same_work r r' \<and> sr_RevokedAt r' = sr_RevokedAt r \<and> sr_RevokedBy r' = sr_RevokedBy r \<and> sr_RunCount r' = sr_RunCount r"

interpretation untouched: row_rel untouched
  by unfold_locales (auto simp: untouched_def kept_def same_work_def)

lemmas untouched_defs = untouched_def kept_def same_work_def

section \<open>The writes of the user's handlers\<close>

text \<open>The writes that an update can end in; an edit and an extension only for the owner.\<close>

definition update_outcome :: "SchedDeps \<Rightarrow> int \<Rightarrow> int \<Rightarrow> string \<Rightarrow> string \<Rightarrow> ScheduledRun \<Rightarrow> UpdateRunReq \<Rightarrow> SchedDb \<Rightarrow> SchedDb \<Rightarrow> bool" where
  "update_outcome d now dbnow tenant user row req db db' \<longleftrightarrow>
     db' = db
     \<or> RevokeDelegation False dbnow tenant (ur_Id req) user db = Inr db'
     \<or> (\<exists>st nf. SetState False tenant (ur_Id req) st nf db = Inr db')
     \<or> (sr_Owner row = user \<and> requireSchedulerSkill d user = Inr ()
        \<and> ((\<exists>until. ExtendDelegation False dbnow tenant (ur_Id req) until db = Inr db')
           \<or> (\<exists>actor s. validate_edit d now tenant user row (ur_Def req) actor = Inr s \<and> sched_Update False tenant (ur_Id req) s db = Inr db')))"

lemma stored_cases:
  assumes "stored msg evs db res = (r, evs', db')"
  shows "db' = db \<or> res = Inr db'"
  using assms by (auto simp: stored_def split: sum.splits)

lemma exec_fail [simp]: "exec_update True P f db = Inl SchedFail"
  by (simp add: exec_update_def)

lemma stored_exec:
  assumes "stored msg evs db (if fail then Inl SchedFail else res) = (r, evs', db')"
  shows "db' = db \<or> res = Inr db'"
  using assms by (auto simp: stored_def split: sum.splits if_splits)

lemma op_fail:
  "RevokeDelegation True dbnow tenant sid user db = Inl SchedFail" "SetState True tenant sid st nf db = Inl SchedFail"
  "ExtendDelegation True dbnow tenant sid until db = Inl SchedFail"
  "sched_Update True tenant sid s db = Inl SchedFail"
  by (simp_all add: RevokeDelegation_def SetState_def ExtendDelegation_def sched_Update_def)

lemma stored_op:
  assumes "stored msg evs db (F fail) = (r, evs', db')" "F True = Inl SchedFail"
  shows "db' = db \<or> F False = Inr db'"
  using stored_cases [OF assms(1)] assms(2) by (cases fail) auto

lemma refused_db [simp]: "refused e evs db = (r, evs', db') \<Longrightarrow> db' = db"
  by (simp add: refused_def)

lemma after_skill_cases:
  assumes "after_skill d tenant user row db k = (r, evs, db')"
  shows "db' = db \<or> requireSchedulerSkill d (sr_Owner row) = Inr () \<and> k = (r, evs, db')"
  using assms by (auto simp: after_skill_def refused_def requireOwnerSchedulerSkill_def split: prod.splits sum.splits)

lemma extend_run_cases:
  assumes "extend_run d fail now dbnow tenant user row sid db = (r, evs, db')"
  shows "db' = db \<or> sr_Owner row = user \<and> requireSchedulerSkill d user = Inr () \<and> ExtendDelegation False dbnow tenant sid (now + delegationTTL) db = Inr db'"
proof (cases "sr_Owner row = user \<and> sr_RevokedAt row = None")
  case True
  then show ?thesis
    using assms after_skill_cases stored_op [of _ _ _ "\<lambda>b. ExtendDelegation b dbnow tenant sid (now + delegationTTL) db"] op_fail(3)
    unfolding extend_run_def by (metis (lifting))
next
  case False
  then show ?thesis using assms by (auto simp: extend_run_def refused_def split: if_splits)
qed

lemma resume_run_cases:
  assumes "resume_run d fail now tenant user row sid db = (r, evs, db')"
  shows "db' = db \<or> delegationLive row now \<and> (\<exists>nf. SetState False tenant sid ScheduledRunActive nf db = Inr db')"
proof (cases "delegationLive row now")
  case True
  note ss = stored_op [where F = "\<lambda>b. SetState b tenant sid ScheduledRunActive nf db" for nf, OF _ op_fail(2)]
  let ?k = "case requireActorUnderEnforce d tenant (sr_Actor row) of
           Inl e \<Rightarrow> refused e [] db
         | Inr _ \<Rightarrow>
             if sr_Kind row = ScheduleKindCron
             then (case NextCronFire (sd_Cron d) (sr_CronExpr row) now of
                     None \<Rightarrow> refused (Status FailedPrecondition ''invalid cron expression'') [] db
                   | Some n \<Rightarrow> stored ''resume'' [] db (SetState fail tenant sid ScheduledRunActive (Some n) db))
             else stored ''resume'' [] db (SetState fail tenant sid ScheduledRunActive (sr_NextFireAt row) db)"
  have "?k = (r, evs, db') \<Longrightarrow> db' = db \<or> (\<exists>nf. SetState False tenant sid ScheduledRunActive nf db = Inr db')"
    using ss by (fastforce split: sum.splits if_splits option.splits)
  then show ?thesis using True assms after_skill_cases unfolding resume_run_def by (metis (lifting))
next
  case False
  then show ?thesis using assms by (simp add: resume_run_def refused_def)
qed

lemma edit_run_cases:
  assumes "edit_run d fail now tenant user row req db = (r, evs, db')"
  shows "db' = db \<or> sr_Owner row = user \<and> requireSchedulerSkill d user = Inr () \<and> (\<exists>actor s. validate_edit d now tenant user row (ur_Def req) actor = Inr s
     \<and> edit_actor d tenant user row (ur_ActorAgentId req) = Inr actor \<and> sched_Update False tenant (ur_Id req) s db = Inr db')"
proof (cases "sr_Owner row = user")
  case True
  note ss = stored_op [where F = "\<lambda>b. sched_Update b tenant (ur_Id req) s db" for s, OF _ op_fail(4)]
  let ?k = "case edit_actor d tenant user row (ur_ActorAgentId req) of
           Inl e \<Rightarrow> refused e [schedulerAudit tenant user ''aikonos.scheduler.run.actor_denied'' (ur_Id req) DENY] db
         | Inr actor \<Rightarrow>
             (case validate_edit d now tenant user row (ur_Def req) actor of
                Inl e \<Rightarrow> refused e [] db
              | Inr s \<Rightarrow> stored ''update'' [] db (sched_Update fail tenant (ur_Id req) s db))"
  have "?k = (r, evs, db') \<Longrightarrow> db' = db \<or> (\<exists>actor s. validate_edit d now tenant user row (ur_Def req) actor = Inr s
     \<and> edit_actor d tenant user row (ur_ActorAgentId req) = Inr actor \<and> sched_Update False tenant (ur_Id req) s db = Inr db')"
    using ss by (fastforce split: sum.splits)
  then show ?thesis using True assms after_skill_cases unfolding edit_run_def by (metis (lifting))
next
  case False
  then show ?thesis using assms by (simp add: edit_run_def refused_def)
qed

lemma update_write_cases:
  assumes "update_write d fail now dbnow tenant user row req db = ((r, evs, db'), etype)"
  shows "update_outcome d now dbnow tenant user row req db db'"
proof -
  consider (revoke) "ur_RevokeDelegation req" | (extend) "\<not> ur_RevokeDelegation req" "ur_ExtendDelegation req"
    | (state) "\<not> ur_RevokeDelegation req" "\<not> ur_ExtendDelegation req" by blast
  then show ?thesis
  proof cases
    case revoke
    then have "stored ''revoke'' [] db (RevokeDelegation fail dbnow tenant (ur_Id req) user db) = (r, evs, db')"
      using assms by (simp add: update_write_def Let_def)
    from stored_op [where F = "\<lambda>b. RevokeDelegation b dbnow tenant (ur_Id req) user db", OF this op_fail(1)]
    show ?thesis by (auto simp: update_outcome_def)
  next
    case extend
    then have "extend_run d fail now dbnow tenant user row (ur_Id req) db = (r, evs, db')"
      using assms by (simp add: update_write_def Let_def)
    then show ?thesis using extend_run_cases unfolding update_outcome_def by blast
  next
    case state
    note ss = stored_op [where F = "\<lambda>b. SetState b tenant (ur_Id req) st nf db" for st nf, OF _ op_fail(2)]
    show ?thesis
    proof (cases "ur_DesiredState req = Some ScheduledRunPaused \<or> ur_DesiredState req = Some ScheduledRunActive")
      case True
      then have "stored ''pause'' [] db (SetState fail tenant (ur_Id req) ScheduledRunPaused (sr_NextFireAt row) db) = (r, evs, db')
          \<or> resume_run d fail now tenant user row (ur_Id req) db = (r, evs, db')"
        using state assms by (auto simp: update_write_def Let_def)
      then have "db' = db \<or> (\<exists>st nf. SetState False tenant (ur_Id req) st nf db = Inr db')"
        by (metis ss resume_run_cases)
      then show ?thesis unfolding update_outcome_def by blast
    next
      case False
      then have "edit_run d fail now tenant user row req db = (r, evs, db')"
        using state assms by (auto simp: update_write_def Let_def split: option.splits ScheduledRunState.splits)
      then show ?thesis using edit_run_cases unfolding update_outcome_def by blast
    qed
  qed
qed

lemma UpdateScheduledRun_cases:
  assumes "UpdateScheduledRun d ident ft now dbnow req db0 db = (r, evs, db')"
  shows "db' = db \<or> (\<exists>tenant user row. load_for_change d ident (nf_load ft) (ur_TenantId req) (ur_UserId req) (ur_Id req) db0 = Inr (tenant, user, row)
     \<and> update_outcome d now dbnow tenant user row req db db')"
proof (cases "load_for_change d ident (nf_load ft) (ur_TenantId req) (ur_UserId req) (ur_Id req) db0")
  case (Inl e)
  then show ?thesis using assms by (simp add: UpdateScheduledRun_def)
next
  case (Inr x)
  obtain tenant user row where x: "x = (tenant, user, row)" by (cases x)
  obtain r1 evs1 db1 etype where w: "update_write d (nf_write ft) now dbnow tenant user row req db = ((r1, evs1, db1), etype)"
    by (metis surj_pair)
  have "db1 = db'" using assms Inr x w by (auto simp: UpdateScheduledRun_def Let_def split: sum.splits)
  then show ?thesis using Inr x update_write_cases [OF w] by blast
qed

lemma DeleteScheduledRun_cases:
  assumes "DeleteScheduledRun d ident ft reqTenant reqUser sid db0 db = (r, evs, db')"
  shows "db' = db \<or> (\<exists>tenant. db' = filter (\<lambda>r. \<not> sees tenant sid r) db)"
  using assms by (auto simp: DeleteScheduledRun_def sched_Delete_def split: sum.splits if_splits prod.splits)

lemma kept_outcome:
  assumes "update_outcome d now dbnow tenant user row req db db'"
  shows "stays kept db db'"
  using assms unfolding update_outcome_def
proof (elim disjE exE conjE)
  show "db' = db \<Longrightarrow> ?thesis" by (simp add: kept.stays_refl)
qed (auto simp: RevokeDelegation_def SetState_def ExtendDelegation_def sched_Update_def kept_def split: if_splits intro!: kept.stays_exec)

lemma claim_outcome:
  assumes "update_outcome d now dbnow tenant user row req db db'"
  shows "stays same_claim db db'"
  using assms unfolding update_outcome_def
proof (elim disjE exE conjE)
  show "db' = db \<Longrightarrow> ?thesis" by (simp add: claim.stays_refl)
qed (auto simp: RevokeDelegation_def SetState_def ExtendDelegation_def sched_Update_def same_claim_def split: if_splits intro!: claim.stays_exec)

lemma ids_exec: "exec_update fail P f db = Inr db' \<Longrightarrow> (\<And>r. sr_ID (f r) = sr_ID r) \<Longrightarrow> map sr_ID db' = map sr_ID db"
  by (simp add: exec_update_Inr ids_updates)

lemma ids_outcome:
  assumes "update_outcome d now dbnow tenant user row req db db'"
  shows "map sr_ID db' = map sr_ID db"
  using assms unfolding update_outcome_def
  by (elim disjE exE conjE)
     (auto simp: RevokeDelegation_def SetState_def ExtendDelegation_def sched_Update_def split: if_splits dest: ids_exec)

text \<open>Only the owner rewrites a run or renews its delegation.\<close>

lemma work_outcome:
  assumes "update_outcome d now dbnow tenant user row req db db'" "sr_Owner row \<noteq> user"
  shows "stays same_work db db'"
  using assms unfolding update_outcome_def
proof (elim disjE exE conjE)
  show "db' = db \<Longrightarrow> ?thesis" by (simp add: work.stays_refl)
qed (auto simp: RevokeDelegation_def SetState_def same_work_def split: if_splits intro!: work.stays_exec)

lemma load_for_change_Inr:
  assumes "load_for_change d ident fail reqTenant reqUser sid db0 = Inr (tenant, user, row)"
  shows "callerIdentity (td_uuid_ok (sd_Task d)) ident reqTenant reqUser = Inr (tenant, user)"
    "sched_Get fail tenant sid db0 = Inr row" "authorizeRunMutation d row user = Inr ()" "sid \<noteq> []"
  using assms by (auto simp: load_for_change_def bindE_eq_Inr split: if_splits sum.splits)

section \<open>The claim transaction\<close>

lemma fail_abandoned_look:
  "look sid (fail_abandoned tenant now db)
    = map_option (\<lambda>r. if abandoned tenant now r then r\<lparr>sr_State := ScheduledRunFailed, sr_LastStatus := ''abandoned'', sr_ClaimedAt := None\<rparr> else r) (look sid db)"
  by (simp add: fail_abandoned_def look_updates)

lemma ids_fail_abandoned: "map sr_ID (fail_abandoned tenant now db) = map sr_ID db"
  by (simp add: fail_abandoned_def ids_updates)

lemma claim_write_ID [simp]: "sr_ID (claim_write cron v now req s r) = sr_ID r"
  by (simp add: claim_write_def Let_def split: option.splits ScheduleKind.splits)

lemma claim_write_claim: "sr_ClaimedAt (claim_write cron v now req s r) = sr_ClaimedAt r"
  by (simp add: claim_write_def Let_def split: option.splits ScheduleKind.splits)

lemma claim_write_kept: "kept r (claim_write cron v now req s r)"
  by (auto simp: kept_def claim_write_def Let_def split: option.splits ScheduleKind.splits)

lemma claim_steps_ids: "map sr_ID (foldl (claim_step cron v now req) db sel) = map sr_ID db"
  by (induction sel arbitrary: db) (simp_all add: claim_step_def ids_updates)

lemma claim_steps_kept: "stays kept db (foldl (claim_step cron v now req) db sel)"
  by (rule kept.stays_foldl) (simp add: claim_step_def kept.stays_updates claim_write_kept)

lemma claim_steps_claim: "stays same_claim db (foldl (claim_step cron v now req) db sel)"
  by (rule claim.stays_foldl) (simp add: claim_step_def claim.stays_updates claim_write_claim same_claim_def)

text \<open>A run whose last hand-out is not open, or older than the claim's lifetime.\<close>

definition claim_free :: "int \<Rightarrow> ScheduledRun \<Rightarrow> bool" where
  "claim_free now r = (case sr_ClaimedAt r of None \<Rightarrow> True | Some c \<Rightarrow> c < now - scheduledRunClaimTTL)"

lemma selected:
  assumes "distinct (map sr_ID db)" "s \<in> set (select_due locked tenant now limit (fail_abandoned tenant now db))"
  shows "look (sr_ID s) db = Some s" "sr_TenantID s = tenant" "claim_free now s" "due tenant now s"
proof -
  have s: "s \<in> set (fail_abandoned tenant now db)" "due tenant now s"
    using assms(2) by (auto simp: select_due_def dest!: in_set_takeD)
  then obtain r where r: "r \<in> set db" "s = (if abandoned tenant now r
      then r\<lparr>sr_State := ScheduledRunFailed, sr_LastStatus := ''abandoned'', sr_ClaimedAt := None\<rparr> else r)"
    by (auto simp: fail_abandoned_def updates_def)
  have "\<not> abandoned tenant now r"
  proof
    assume "abandoned tenant now r"
    then have "sr_State s = ScheduledRunFailed" using r(2) by simp
    then show False using s(2) by (simp add: due_def)
  qed
  then have "s = r" using r(2) by simp
  then show "look (sr_ID s) db = Some s" using look_distinct [OF assms(1) r(1)] by simp
  show "sr_TenantID s = tenant" "claim_free now s" "due tenant now s"
    using s(2) by (auto simp: due_def claim_free_def split: option.splits)
qed

lemma sort_key_ids: "distinct (map f xs) \<Longrightarrow> distinct (map f (sort_key g xs))"
  by (metis distinct_map distinct_sort set_sort)

lemma select_due_distinct:
  assumes "distinct (map sr_ID db)"
  shows "distinct (map sr_ID (select_due locked tenant now limit (fail_abandoned tenant now db)))"
proof -
  have "distinct (map sr_ID (fail_abandoned tenant now db))" using assms by (simp add: ids_fail_abandoned)
  then show ?thesis by (simp add: select_due_def take_map [symmetric] distinct_take sort_key_ids distinct_map_filter)
qed

section \<open>The loop over the claimed runs\<close>

text \<open>A write that settles the run \<open>sid\<close> without handing it out.\<close>

definition settles :: "string \<Rightarrow> SchedDb \<Rightarrow> SchedDb \<Rightarrow> bool" where
  "settles sid db db' \<longleftrightarrow> map sr_ID db' = map sr_ID db \<and> (\<forall>x. x \<noteq> sid \<longrightarrow> look x db' = look x db)
     \<and> (\<forall>r. look sid db = Some r \<longrightarrow> (\<exists>r'. look sid db' = Some r' \<and> untouched r r' \<and> sr_ClaimedAt r' \<in> {sr_ClaimedAt r, None}))"

lemma settles_refl: "settles sid db db"
  by (auto simp: settles_def untouched.R_refl)

lemma settles_updates:
  assumes "\<And>r. sr_ID (f r) = sr_ID r" "\<And>r. P r \<Longrightarrow> sr_ID r = sid" "\<And>r. untouched r (f r) \<and> sr_ClaimedAt (f r) \<in> {sr_ClaimedAt r, None}"
  shows "settles sid db (updates P f db)"
proof -
  have "look x (updates P f db) = look x db" if "x \<noteq> sid" for x
    using assms(1,2) that by (cases "look x db") (auto simp: look_updates dest: look_SomeD)
  then show ?thesis using assms(1,3) by (auto simp: settles_def ids_updates look_updates untouched.R_refl)
qed

lemma settles_Park: "settles sid db (or_unchanged db (Park fail tenant sid reason db))"
  by (auto simp: or_unchanged_def Park_def exec_update_def sees_def untouched_defs settles_refl intro!: settles_updates)

lemma settles_Reschedule: "settles sid db (or_unchanged db (Reschedule fail tenant sid at db))"
  by (auto simp: or_unchanged_def Reschedule_def sees_def untouched_defs settles_refl intro!: settles_updates)

lemma settles_settleOnce: "settles (sr_ID r) db (settleOnce ft tenant now r reason db)"
  by (simp add: settleOnce_def settles_refl settles_Park settles_Reschedule)

text \<open>What is known of a run that is handed out to act as \<open>actor\<close>.\<close>

definition handed_ok :: "SchedDeps \<Rightarrow> string \<Rightarrow> int \<Rightarrow> ScheduledRun \<Rightarrow> string \<Rightarrow> string \<Rightarrow> bool" where
  "handed_ok d tenant now r actor grant \<longleftrightarrow> schedulerSkillGranted d (sr_Owner r) = Inr True \<and> fst (claim_actor d tenant r) = PickActor actor
     \<and> Mint (td_Mac (sd_Task d)) now (td_GrantKey (sd_Task d)) (owner_grant tenant r actor) (td_GrantTTL (sd_Task d)) = Inr grant"

definition handed :: "SchedDeps \<Rightarrow> string \<Rightarrow> int \<Rightarrow> int \<Rightarrow> ScheduledRun \<Rightarrow> ClaimLoop \<Rightarrow> ClaimLoop \<Rightarrow> bool" where
  "handed d tenant now dbnow r L L' \<longleftrightarrow> (\<exists>actor grant. handed_ok d tenant now r actor grant
     \<and> cl_out L' = cl_out L @ [due_run r actor grant] \<and> MarkClaimed False dbnow tenant (sr_ID r) (cl_db L) = Inr (cl_db L'))"

definition not_handed :: "ScheduledRun \<Rightarrow> ClaimLoop \<Rightarrow> ClaimLoop \<Rightarrow> bool" where
  "not_handed r L L' \<longleftrightarrow> cl_out L' = cl_out L \<and> settles (sr_ID r) (cl_db L) (cl_db L')"

definition skills_ok :: "SchedDeps \<Rightarrow> ClaimLoop \<Rightarrow> bool" where
  "skills_ok d L \<longleftrightarrow> (\<forall>(owner, g) \<in> set (cl_skills L). schedulerSkillGranted d owner = Inr g)"

lemma cl_simps [simp]:
  "cl_db (cl_audit ev L) = cl_db L" "cl_out (cl_audit ev L) = cl_out L" "cl_skills (cl_audit ev L) = cl_skills L"
  "cl_db (cl_add eff L) = cl_db L" "cl_out (cl_add eff L) = cl_out L" "cl_skills (cl_add eff L) = cl_skills L"
  by (simp_all add: cl_audit_def cl_add_def)

lemma hand_out_cases:
  assumes "schedulerSkillGranted d (sr_Owner r) = Inr True" "fst (claim_actor d tenant r) = PickActor actor"
  shows "cl_skills (hand_out d ft tenant now dbnow r actor L) = cl_skills L
    \<and> (not_handed r L (hand_out d ft tenant now dbnow r actor L) \<or> handed d tenant now dbnow r L (hand_out d ft tenant now dbnow r actor L))"
proof (cases "Mint (td_Mac (sd_Task d)) now (td_GrantKey (sd_Task d)) (owner_grant tenant r actor) (td_GrantTTL (sd_Task d))")
  case (Inr grant)
  then show ?thesis
  proof (cases "MarkClaimed (xf_mark ft (sr_ID r)) dbnow tenant (sr_ID r) (cl_db L)")
    case (Inr db')
    then have "MarkClaimed False dbnow tenant (sr_ID r) (cl_db L) = Inr db'"
      by (cases "xf_mark ft (sr_ID r)") (auto simp: MarkClaimed_def)
    then show ?thesis using Inr \<open>Mint _ _ _ _ _ = Inr grant\<close> assms by (auto simp: hand_out_def handed_def handed_ok_def)
  qed (simp add: hand_out_def not_handed_def settles_settleOnce)
qed (simp add: hand_out_def not_handed_def settles_settleOnce)

lemma pick_cases:
  assumes "schedulerSkillGranted d (sr_Owner r) = Inr True"
  shows "cl_skills (pick_and_hand_out d ft tenant now dbnow r L) = cl_skills L
    \<and> (not_handed r L (pick_and_hand_out d ft tenant now dbnow r L) \<or> handed d tenant now dbnow r L (pick_and_hand_out d ft tenant now dbnow r L))"
proof -
  obtain pk eff where c: "claim_actor d tenant r = (pk, eff)" by (cases "claim_actor d tenant r")
  show ?thesis
  proof (cases pk)
    case (PickActor actor)
    have "not_handed r (cl_add eff L) M = not_handed r L M" "handed d tenant now dbnow r (cl_add eff L) M = handed d tenant now dbnow r L M" for M
      by (simp_all add: not_handed_def handed_def)
    then show ?thesis using hand_out_cases [OF assms, of tenant actor ft now dbnow "cl_add eff L"] c PickActor
      by (simp add: pick_and_hand_out_def)
  qed (use c in \<open>simp_all add: pick_and_hand_out_def not_handed_def settles_settleOnce\<close>)
qed

lemma claim_one_cases:
  assumes "skills_ok d L"
  shows "skills_ok d (claim_one d ft tenant now dbnow L (r, reason))
    \<and> (not_handed r L (claim_one d ft tenant now dbnow L (r, reason))
       \<or> reason = [] \<and> handed d tenant now dbnow r L (claim_one d ft tenant now dbnow L (r, reason)))"
proof (cases "reason = []")
  case False
  then show ?thesis using assms by (simp add: claim_one_def skills_ok_def not_handed_def settles_refl)
next
  case True
  let ?sk = "case map_of (cl_skills L) (sr_Owner r) of Some g \<Rightarrow> Inr g | None \<Rightarrow> schedulerSkillGranted d (sr_Owner r)"
  have sk: "?sk = schedulerSkillGranted d (sr_Owner r)"
    using assms by (auto simp: skills_ok_def split: option.splits dest!: map_of_SomeD)
  show ?thesis
  proof (cases "schedulerSkillGranted d (sr_Owner r)")
    case (Inl e)
    then show ?thesis using True assms sk by (simp add: claim_one_def skills_ok_def not_handed_def settles_settleOnce)
  next
    case (Inr g)
    let ?L = "L\<lparr>cl_skills := (sr_Owner r, g) # cl_skills L\<rparr>"
    have ok: "skills_ok d ?L" using assms Inr by (auto simp: skills_ok_def)
    show ?thesis
    proof (cases g)
      case False
      then show ?thesis using True ok sk Inr by (simp add: claim_one_def Let_def skills_ok_def not_handed_def settles_Park)
    next
      case g: True
      have "not_handed r ?L M = not_handed r L M" "handed d tenant now dbnow r ?L M = handed d tenant now dbnow r L M" for M
        by (simp_all add: not_handed_def handed_def)
      then show ?thesis using pick_cases [of d r ft tenant now dbnow ?L] True g ok sk Inr
        by (simp add: claim_one_def Let_def skills_ok_def)
    qed
  qed
qed

text \<open>What the loop makes of the table and of the runs it hands out.\<close>

definition loop_post :: "SchedDeps \<Rightarrow> string \<Rightarrow> int \<Rightarrow> int \<Rightarrow> (ScheduledRun \<times> string) list \<Rightarrow> SchedDb \<Rightarrow> DueRun list \<Rightarrow> SchedDb \<Rightarrow> bool" where
  "loop_post d tenant now dbnow entries db out db' \<longleftrightarrow>
     map sr_ID db' = map sr_ID db \<and> distinct (map du_Id out)
     \<and> (\<forall>du \<in> set out. \<exists>r actor grant. (r, []) \<in> set entries \<and> handed_ok d tenant now r actor grant \<and> du = due_run r actor grant)
     \<and> (\<forall>sid r. look sid db = Some r \<longrightarrow> (\<exists>r'. look sid db' = Some r' \<and> untouched r r'
          \<and> (if sid \<in> du_Id ` set out then sr_ClaimedAt r' = Some dbnow
             else sr_ClaimedAt r' \<in> {sr_ClaimedAt r, None} \<and> (sid \<notin> (sr_ID \<circ> fst) ` set entries \<longrightarrow> r' = r))))"

lemma du_Id_due_run [simp]: "du_Id (due_run r actor grant) = sr_ID r"
  by (simp add: due_run_def)

lemma MarkClaimed_look:
  assumes "MarkClaimed False dbnow tenant sid db = Inr db'"
  shows "map sr_ID db' = map sr_ID db" "x \<noteq> sid \<Longrightarrow> look x db' = look x db"
    "look sid db = Some r \<Longrightarrow> distinct (map sr_ID db) \<Longrightarrow> look sid db' = Some (r\<lparr>sr_ClaimedAt := Some dbnow\<rparr>)"
proof -
  have u: "db' = updates (sees tenant sid) (\<lambda>r. r\<lparr>sr_ClaimedAt := Some dbnow\<rparr>) db" "list_ex (sees tenant sid) db"
    using assms by (auto simp: MarkClaimed_def exec_update_Inr)
  show "map sr_ID db' = map sr_ID db" using u by (simp add: ids_updates)
  show "x \<noteq> sid \<Longrightarrow> look x db' = look x db"
    using u by (cases "look x db") (auto simp: look_updates sees_def dest: look_SomeD)
  assume r: "look sid db = Some r" "distinct (map sr_ID db)"
  obtain r0 where "r0 \<in> set db" "sees tenant sid r0" using u(2) by (auto simp: list_ex_iff)
  then have "sees tenant sid r" using look_distinct [OF r(2), of r0] r(1) by (auto simp: sees_def)
  then show "look sid db' = Some (r\<lparr>sr_ClaimedAt := Some dbnow\<rparr>)" using u(1) r(1) by (simp add: look_updates)
qed

lemma loop_post_ids:
  assumes "loop_post d tenant now dbnow entries db out db'"
  shows "du_Id ` set out \<subseteq> (sr_ID \<circ> fst) ` set entries"
proof
  fix sid assume "sid \<in> du_Id ` set out"
  then obtain du where "du \<in> set out" "sid = du_Id du" by blast
  then obtain r actor grant where "(r, []) \<in> set entries" "du = due_run r actor grant" using assms unfolding loop_post_def by meson
  then show "sid \<in> (sr_ID \<circ> fst) ` set entries" using \<open>sid = du_Id du\<close> by force
qed

lemma loop_postD:
  assumes "loop_post d tenant now dbnow entries db out db'" "look sid db = Some r"
  obtains r' where "look sid db' = Some r'" "untouched r r'" "sid \<in> du_Id ` set out \<longrightarrow> sr_ClaimedAt r' = Some dbnow"
    "sid \<notin> du_Id ` set out \<longrightarrow> sr_ClaimedAt r' \<in> {sr_ClaimedAt r, None}" "sid \<notin> (sr_ID \<circ> fst) ` set entries \<longrightarrow> r' = r"
proof -
  obtain r' where "look sid db' = Some r'" "untouched r r'"
    "if sid \<in> du_Id ` set out then sr_ClaimedAt r' = Some dbnow
     else sr_ClaimedAt r' \<in> {sr_ClaimedAt r, None} \<and> (sid \<notin> (sr_ID \<circ> fst) ` set entries \<longrightarrow> r' = r)"
    using assms unfolding loop_post_def by meson
  then show ?thesis using that [of r'] loop_post_ids [OF assms(1)] by (auto split: if_splits)
qed

lemma loop_post_skip:
  assumes "settles (sr_ID r) db db1" "loop_post d tenant now dbnow es db1 out db'" "sr_ID r \<notin> (sr_ID \<circ> fst) ` set es"
  shows "loop_post d tenant now dbnow ((r, reason) # es) db out db'"
proof -
  have "\<exists>r'. look sid db' = Some r' \<and> untouched x r' \<and> (if sid \<in> du_Id ` set out then sr_ClaimedAt r' = Some dbnow
      else sr_ClaimedAt r' \<in> {sr_ClaimedAt x, None} \<and> (sid \<notin> (sr_ID \<circ> fst) ` set ((r, reason) # es) \<longrightarrow> r' = x))"
    if x: "look sid db = Some x" for sid x
  proof (cases "sid = sr_ID r")
    case True
    then obtain x1 where x1: "look sid db1 = Some x1" "untouched x x1" "sr_ClaimedAt x1 \<in> {sr_ClaimedAt x, None}"
      using assms(1) x unfolding settles_def by blast
    obtain r' where "look sid db' = Some r'" "r' = x1"
      using assms(3) True by (metis loop_postD [OF assms(2) x1(1)])
    then show ?thesis using x1 True assms(3) loop_post_ids [OF assms(2)] by auto
  next
    case False
    then have "look sid db1 = Some x" using assms(1) x unfolding settles_def by simp
    then obtain r' where "look sid db' = Some r'" "untouched x r'" "sid \<in> du_Id ` set out \<longrightarrow> sr_ClaimedAt r' = Some dbnow"
      "sid \<notin> du_Id ` set out \<longrightarrow> sr_ClaimedAt r' \<in> {sr_ClaimedAt x, None}" "sid \<notin> (sr_ID \<circ> fst) ` set es \<longrightarrow> r' = x"
      by (rule loop_postD [OF assms(2)])
    then show ?thesis using False by auto
  qed
  moreover have "map sr_ID db' = map sr_ID db" using assms(1,2) by (simp add: loop_post_def settles_def)
  ultimately show ?thesis using assms(2) unfolding loop_post_def by fastforce
qed

lemma loop_post_hand:
  assumes "handed_ok d tenant now r actor grant" "MarkClaimed False dbnow tenant (sr_ID r) db = Inr db1" "distinct (map sr_ID db)"
    "loop_post d tenant now dbnow es db1 out db'" "sr_ID r \<notin> (sr_ID \<circ> fst) ` set es"
  shows "loop_post d tenant now dbnow ((r, []) # es) db (due_run r actor grant # out) db'"
proof -
  have new: "sr_ID r \<notin> du_Id ` set out" using assms(5) loop_post_ids [OF assms(4)] by blast
  have "\<exists>r'. look sid db' = Some r' \<and> untouched x r' \<and> (if sid \<in> du_Id ` set (due_run r actor grant # out) then sr_ClaimedAt r' = Some dbnow
      else sr_ClaimedAt r' \<in> {sr_ClaimedAt x, None} \<and> (sid \<notin> (sr_ID \<circ> fst) ` set ((r, []) # es) \<longrightarrow> r' = x))"
    if x: "look sid db = Some x" for sid x
  proof (cases "sid = sr_ID r")
    case True
    have "look sid db1 = Some (x\<lparr>sr_ClaimedAt := Some dbnow\<rparr>)" using MarkClaimed_look(3) [OF assms(2)] x True assms(3) by simp
    from loop_postD [OF assms(4) this] obtain r' where "look sid db' = Some r'" "r' = x\<lparr>sr_ClaimedAt := Some dbnow\<rparr>"
      using assms(5) True by metis
    then show ?thesis using True by (simp add: untouched_defs)
  next
    case False
    then have "look sid db1 = Some x" using MarkClaimed_look(2) [OF assms(2)] x by simp
    then obtain r' where "look sid db' = Some r'" "untouched x r'" "sid \<in> du_Id ` set out \<longrightarrow> sr_ClaimedAt r' = Some dbnow"
      "sid \<notin> du_Id ` set out \<longrightarrow> sr_ClaimedAt r' \<in> {sr_ClaimedAt x, None}" "sid \<notin> (sr_ID \<circ> fst) ` set es \<longrightarrow> r' = x"
      by (rule loop_postD [OF assms(4)])
    then show ?thesis using False by auto
  qed
  moreover have "map sr_ID db' = map sr_ID db" using MarkClaimed_look(1) [OF assms(2)] assms(4) by (simp add: loop_post_def)
  ultimately show ?thesis using assms(1,4) new unfolding loop_post_def by fastforce
qed

lemma claim_loop:
  assumes "distinct (map (sr_ID \<circ> fst) entries)" "skills_ok d L" "distinct (map sr_ID (cl_db L))"
  shows "\<exists>out. cl_out (foldl (claim_one d ft tenant now dbnow) L entries) = cl_out L @ out
    \<and> loop_post d tenant now dbnow entries (cl_db L) out (cl_db (foldl (claim_one d ft tenant now dbnow) L entries))"
  using assms
proof (induction entries arbitrary: L)
  case Nil
  then show ?case by (auto simp: loop_post_def untouched.R_refl)
next
  case (Cons e es)
  obtain r reason where e: "e = (r, reason)" by (cases e)
  let ?L = "claim_one d ft tenant now dbnow L e"
  have new: "sr_ID r \<notin> (sr_ID \<circ> fst) ` set es" using Cons.prems(1) e by simp
  note c = claim_one_cases [OF Cons.prems(2), of ft tenant now dbnow r reason, folded e]
  have d: "distinct (map sr_ID (cl_db ?L))"
    using c Cons.prems(3) MarkClaimed_look(1) by (fastforce simp: not_handed_def handed_def settles_def)
  obtain out where out: "cl_out (foldl (claim_one d ft tenant now dbnow) ?L es) = cl_out ?L @ out"
    "loop_post d tenant now dbnow es (cl_db ?L) out (cl_db (foldl (claim_one d ft tenant now dbnow) ?L es))"
    using Cons.IH [of ?L] Cons.prems(1) c d by auto
  from c consider (skip) "not_handed r L ?L" | (hand) "reason = []" "handed d tenant now dbnow r L ?L" by blast
  then show ?case
  proof cases
    case skip
    then show ?thesis using out loop_post_skip [OF _ out(2) new] e by (auto simp: not_handed_def)
  next
    case hand
    then obtain actor grant where "handed_ok d tenant now r actor grant" "cl_out ?L = cl_out L @ [due_run r actor grant]"
      "MarkClaimed False dbnow tenant (sr_ID r) (cl_db L) = Inr (cl_db ?L)" unfolding handed_def by blast
    then show ?thesis using out loop_post_hand [OF _ _ Cons.prems(3) out(2) new] hand e by auto
  qed
qed

text \<open>The whole handler.\<close>

lemma ClaimDueScheduledRuns_Inr:
  assumes "ClaimDueScheduledRuns d v ident ft locked now dbnow tenant limit db = (Inr out, eff, db')" "distinct (map sr_ID db)"
  obtains mode sel where "td_Cfg (sd_Task d) tenant ''identity.obo'' = Inr mode"
    "sel = select_due locked tenant now (claim_limit limit) (fail_abandoned tenant now db)"
    "loop_post d tenant now dbnow (map (\<lambda>s. (s, skip_reason v now (mode = ''enforce'') s)) sel)
       (foldl (claim_step (sd_Cron d) v now (mode = ''enforce'')) (fail_abandoned tenant now db) sel) out db'"
proof -
  from assms(1) obtain mode entries db1 where m: "td_Cfg (sd_Task d) tenant ''identity.obo'' = Inr mode"
    "ClaimDue (xf_claim ft) (sd_Cron d) v locked tenant now (claim_limit limit) (mode = ''enforce'') db = Inr (entries, db1)"
    "out = cl_out (foldl (claim_one d ft tenant now dbnow) \<lparr>cl_skills = [], cl_out = [], cl_effects = ([], []), cl_db = db1\<rparr> entries)"
    "db' = cl_db (foldl (claim_one d ft tenant now dbnow) \<lparr>cl_skills = [], cl_out = [], cl_effects = ([], []), cl_db = db1\<rparr> entries)"
    by (auto simp: ClaimDueScheduledRuns_def Let_def split: sum.splits if_splits prod.splits)
  let ?sel = "select_due locked tenant now (claim_limit limit) (fail_abandoned tenant now db)"
  have e: "entries = map (\<lambda>s. (s, skip_reason v now (mode = ''enforce'') s)) ?sel"
    "db1 = foldl (claim_step (sd_Cron d) v now (mode = ''enforce'')) (fail_abandoned tenant now db) ?sel"
    using m(2) by (auto simp: ClaimDue_def Let_def split: if_splits)
  have "distinct (map (sr_ID \<circ> fst) entries)" using select_due_distinct [OF assms(2)] e(1) by (simp add: comp_def)
  moreover have "distinct (map sr_ID db1)" using assms(2) e(2) by (simp add: claim_steps_ids ids_fail_abandoned)
  ultimately have "loop_post d tenant now dbnow entries db1 out db'"
    using claim_loop [of entries d "\<lparr>cl_skills = [], cl_out = [], cl_effects = ([], []), cl_db = db1\<rparr>" ft tenant now dbnow] m(3,4)
    by (auto simp: skills_ok_def)
  then show ?thesis using that [OF m(1) refl] e by simp
qed

end
