(* ===== verification/TaskSafety.thy ===== *)
theory TaskSafety
  imports TaskHandlers
begin

text \<open>
  What the task handlers guarantee: a created task belongs to its caller and carries the limits of
  the envelope it runs on, a repeated request creates nothing, the gateway votes only for the
  owner whose grant it holds, a cancelled task has no open gate, and every handler is a run of the
  broker's steps, so that what holds of every reachable state holds with these handlers too.
\<close>

section \<open>Creating\<close>

lemma persist_created:
  assumes "persistManagedTask d fail t tr db = (Inr h, eff, db')" "db' \<noteq> db"
  shows "h = (TaskID t, tr)" "Create fail t db = Inr db'" "tasks db' (TaskID t) = Some (t\<lparr>State := TaskStateCreated, CostConsumed := 0\<rparr>)"
    "task_relations d (OwnerUserID t) (TaskID t) = fst eff"
proof -
  obtain db1 where c: "Create fail t db = Inr db1" "h = (TaskID t, tr)" "db' = db1" "fst eff = task_relations d (OwnerUserID t) (TaskID t)"
    using assms by (auto simp: persistManagedTask_def split: sum.splits db_error.splits)
  then show "h = (TaskID t, tr)" "Create fail t db = Inr db'" "task_relations d (OwnerUserID t) (TaskID t) = fst eff" by simp_all
  show "tasks db' (TaskID t) = Some (t\<lparr>State := TaskStateCreated, CostConsumed := 0\<rparr>)"
    using c(1,3) by (auto simp: Create_def split: if_splits option.splits)
qed

lemma persist_db: "persistManagedTask d fail t tr db = (r, eff, db') \<Longrightarrow> db' = db \<or> Create fail t db = Inr db'"
  by (auto simp: persistManagedTask_def split: sum.splits db_error.splits)

lemma northActor_ok:
  assumes "northActor d tenant owner agentID = (Inr aid, eff)"
  shows "(aid = None \<and> rd_Agents (td_Run d) = None) \<or>
    (\<exists>st a. rd_Agents (td_Run d) = Some st \<and> fst (runAgent (td_Run d) st tenant owner agentID) = RunOk a \<and> aid = Some (ag_ID a))"
  using assms by (auto simp: northActor_def split: if_splits option.splits prod.splits run_result.splits)

lemma envelope_check_ok:
  assumes "envelope_check d now tenant owner eid = Inr env"
  shows "env_TenantID env = tenant" "env_ToType env = ''user''" "env_ToID env = owner" "envelopeUsable now env"
    "\<exists>n. td_CountEnvelopeTasks d tenant owner eid = Inr n \<and> n < maxEnvelopeTasks"
  using assms by (auto simp: envelope_check_def split: option.splits if_splits sum.splits)

lemma with_envelope_cases:
  assumes "with_envelope d now tenant owner eid t = (t', evs)"
  shows "t' = t \<or> (\<exists>env. envelope_check d now tenant owner eid = Inr env \<and> t' = applyEnvelopeLimits t env)"
  using assms by (auto simp: with_envelope_def envelopeDelegator_def split: if_splits sum.splits option.splits prod.splits)

lemma with_parent_ok: "with_parent d p t = Inr t' \<Longrightarrow> \<exists>q. t' = t\<lparr>ParentTaskID := q\<rparr>"
  by (auto simp: with_parent_def split: if_splits option.splits) (metis Task.surjective Task.update_convs(2))

lemma CreateTask_created:
  assumes "CreateTask d ident fail now newID tr req db = (Inr h, eff, db')" "db' \<noteq> db"
  obtains tenant owner tenantID aid aeff q t evs where
    "callerIdentity (td_uuid_ok d) ident (ct_TenantId req) (ct_UserId req) = Inr (tenant, owner)"
    "rd_UUID (td_Run d) tenant = Some tenantID" "northActor d tenant owner (ct_AgentId req) = (Inr aid, aeff)"
    "with_envelope d now tenant owner (ct_EnvelopeId req)
       ((new_task newID tenantID owner (ct_Prompt req) (if ct_CostBudget req = 0 then 1000 else ct_CostBudget req) tr aid (ct_ClientRequestId req)
           (hasGatewayHint (ct_SkillHints req)))\<lparr>OBOKind := Some KindInteractive, Deadline := ct_Deadline req, ParentTaskID := q\<rparr>) = (t, evs)"
    "\<exists>eff'. persistManagedTask d fail t tr db = (Inr h, eff', db') \<and> set (fst eff') \<subseteq> set (fst eff)"
  using assms that unfolding CreateTask_def Let_def
  by (auto split: sum.splits prod.splits option.splits dest!: with_parent_ok)

text \<open>A task run on an envelope: addressed to the owner, usable, within its count and its limits.\<close>

definition within_envelope :: "TaskDeps \<Rightarrow> int \<Rightarrow> string \<Rightarrow> string \<Rightarrow> string \<Rightarrow> Task \<Rightarrow> bool" where
  "within_envelope d now tenant owner eid t \<longleftrightarrow>
     (\<exists>env. envelope_check d now tenant owner eid = Inr env \<and> env_TenantID env = tenant \<and> env_ToType env = ''user'' \<and> env_ToID env = owner
        \<and> envelopeUsable now env \<and> DelegatedByUserID t = Some (env_FromUserID env) \<and> EnvelopeID t = Some (env_ID env) \<and> OBOKind t = Some KindDelegated
        \<and> (env_MaxCostUnits env > 0 \<longrightarrow> CostBudget t \<le> env_MaxCostUnits env)
        \<and> (\<forall>sc. delegationScopes env = Some sc \<longrightarrow> DelegatedScopes t = Some sc))"

lemma within_envelopeI:
  assumes "envelope_check d now tenant owner eid = Inr env"
  shows "within_envelope d now tenant owner eid ((applyEnvelopeLimits t env)\<lparr>State := st, CostConsumed := c\<rparr>)"
  using assms envelope_check_ok [OF assms]
  by (auto simp: within_envelope_def applyEnvelopeLimits_def Let_def)

text \<open>A task created over the north-bound API is the caller's: its owner and tenant are those of the
  authenticated identity, it starts fresh, it is bound to an agent the caller may run, and it is
  marked as delegated only on a usable envelope addressed to the caller, whose cost limit and
  scopes it then carries.  The owner's relations are written for exactly that task.
\<close>

theorem created_task_is_callers:
  assumes "CreateTask d ident fail now newID tr req db = (Inr h, eff, db')" "db' \<noteq> db"
  shows "\<exists>tenant owner t. callerIdentity (td_uuid_ok d) ident (ct_TenantId req) (ct_UserId req) = Inr (tenant, owner)
    \<and> h = (newID, tr) \<and> tasks db' newID = Some t \<and> OwnerUserID t = owner \<and> rd_UUID (td_Run d) tenant = Some (TenantID t)
    \<and> State t = TaskStateCreated \<and> CostConsumed t = 0
    \<and> (case AgentID t of
         None \<Rightarrow> rd_Agents (td_Run d) = None
       | Some aid \<Rightarrow> \<exists>st a. rd_Agents (td_Run d) = Some st \<and> fst (runAgent (td_Run d) st tenant owner (ct_AgentId req)) = RunOk a \<and> ag_ID a = aid)
    \<and> (DelegatedByUserID t = None \<and> EnvelopeID t = None \<and> DelegatedScopes t = None \<and> OBOKind t = Some KindInteractive
       \<or> within_envelope d now tenant owner (ct_EnvelopeId req) t)
    \<and> set (task_relations d owner newID) \<subseteq> set (fst eff)"
  using assms
proof (rule CreateTask_created)
  fix tenant owner tenantID aid aeff q t evs
  let ?t0 = "(new_task newID tenantID owner (ct_Prompt req) (if ct_CostBudget req = 0 then 1000 else ct_CostBudget req) tr aid (ct_ClientRequestId req)
           (hasGatewayHint (ct_SkillHints req)))\<lparr>OBOKind := Some KindInteractive, Deadline := ct_Deadline req, ParentTaskID := q\<rparr>"
  assume c: "callerIdentity (td_uuid_ok d) ident (ct_TenantId req) (ct_UserId req) = Inr (tenant, owner)"
    and u: "rd_UUID (td_Run d) tenant = Some tenantID" and n: "northActor d tenant owner (ct_AgentId req) = (Inr aid, aeff)"
    and w: "with_envelope d now tenant owner (ct_EnvelopeId req) ?t0 = (t, evs)"
    and "\<exists>eff'. persistManagedTask d fail t tr db = (Inr h, eff', db') \<and> set (fst eff') \<subseteq> set (fst eff)"
  then obtain eff' where p: "persistManagedTask d fail t tr db = (Inr h, eff', db')" "set (fst eff') \<subseteq> set (fst eff)" by blast
  note pc = persist_created [OF p(1) assms(2)]
  let ?t = "t\<lparr>State := TaskStateCreated, CostConsumed := 0\<rparr>"
  have f: "TaskID t = newID" "TenantID t = tenantID" "OwnerUserID t = owner" "AgentID t = aid"
    using with_envelope_cases [OF w] by (auto simp: applyEnvelopeLimits_def Let_def new_task_def)
  have e: "DelegatedByUserID ?t = None \<and> EnvelopeID ?t = None \<and> DelegatedScopes ?t = None \<and> OBOKind ?t = Some KindInteractive
       \<or> within_envelope d now tenant owner (ct_EnvelopeId req) ?t"
    using with_envelope_cases [OF w] within_envelopeI by (auto simp: new_task_def)
  have a: "case aid of None \<Rightarrow> rd_Agents (td_Run d) = None
       | Some aid \<Rightarrow> \<exists>st a. rd_Agents (td_Run d) = Some st \<and> fst (runAgent (td_Run d) st tenant owner (ct_AgentId req)) = RunOk a \<and> ag_ID a = aid"
    using northActor_ok [OF n] by auto
  show ?thesis
    using c u f e a pc p(2) by (intro exI [of _ tenant] exI [of _ owner] exI [of _ ?t] conjI) auto
qed

text \<open>
  A repeated request creates nothing: when a task with a client request id exists, any later
  request with that id in the tenant leaves the store as it is, answers the first task's handle to
  its owner and refuses everyone else without naming the task.
\<close>

theorem create_is_idempotent:
  assumes "tasks db tid = Some first" "TenantID first = TenantID t" "client_request_index db (TenantID t, ClientRequestID t) = Some tid"
    and "ClientRequestID t \<noteq> []" "TaskID first = tid" "tasks db (TaskID t) = None" "validateTaskFields t = Inr ()"
  shows "persistManagedTask d False t tr db
    = (if OwnerUserID first = OwnerUserID t
       then (Inr (tid, TraceID first), (task_relations d (OwnerUserID t) tid, []), db)
       else (Inl (Status AlreadyExists ''client_request_id already in use''),
             ([], [task_event (TenantID t) [] (OwnerUserID t) ''aikonos.broker.task.client_request_id_conflict'' DENY]), db))"
  using assms by (simp add: persistManagedTask_def Create_def getByClientRequestID_def visible_task_def)

section \<open>Votes through the gateway\<close>

lemma approve_as_db: "approve_as d ident ft now ten tid who ok reason dg db = (r, evs, db') \<Longrightarrow> db' = db \<or>
   (\<exists>su r'. Resolve (td_Sha256 d) (td_Check d) (td_Minter d) ft now ident su ten tid who ok reason dg db = (r', db'))"
  by (auto simp: approve_as_def split: sum.splits prod.splits)

lemma southPrincipal_owner:
  assumes "fst (southPrincipal d ident now tenant token []) = Inr (t, owner)"
  shows "(token = [] \<and> td_DevMode d \<and> owner = []) \<or> (\<exists>g. fst (verifyOwnerGrant d now tenant token) = Inr g \<and> owner = Owner g \<and> t = g_TenantID g)"
  using assms by (auto simp: southPrincipal_def andThen_ok split: if_splits)

lemma gateway_vote_task_ok:
  "fst (gateway_vote_task d fail c au tenant owner tid db) = Inr task \<Longrightarrow>
   visible_task db tenant tid = Some task \<and> GatewayManaged task \<and> (owner = [] \<or> owner = OwnerUserID task)"
  by (auto simp: gateway_vote_task_def Get_def Let_def split: sum.splits if_splits option.splits)

lemma gateway_vote_gate_ok:
  assumes "fst (gateway_vote_gate d ident fail now req db) = Inr task"
  shows "\<exists>t owner. fst (southPrincipal d ident now (ga_TenantId req) (ga_OwnerGrant req) []) = Inr (t, owner)
    \<and> fst (gateway_vote_task d fail FailedPrecondition True (ga_TenantId req) owner (ga_TaskId req) db) = Inr task"
  using assms by (auto simp: gateway_vote_gate_def andThen_ok split: if_splits prod.splits)

lemma ApproveGatewayTask_db:
  assumes "ApproveGatewayTask d ident ft fail now req db = (r, evs, db')" "db' \<noteq> db"
  obtains task r' evs' where "fst (gateway_vote_gate d ident fail now req db) = Inr task"
    "approve_as d ident ft now (ga_TenantId req) (ga_TaskId req) (OwnerUserID task) (ga_Approved req) (ga_Reason req) (ga_ArgsDigest req) db = (r', evs', db')"
  using assms by (auto simp: ApproveGatewayTask_def split: prod.splits sum.splits)


section \<open>Cancelling\<close>

lemma cancel_allowed_ok: "cancel_allowed d tenant user tid t = (Inr u, evs) \<Longrightarrow> OwnerUserID t = user \<or> td_admin d user = Inr ()"
  by (auto simp: cancel_allowed_def pass_def split: if_splits sum.splits)

lemma Get_Inr: "Get f tenant tid db = Inr t \<Longrightarrow> visible_task db tenant tid = Some t"
  by (auto simp: Get_def split: if_splits option.splits)

lemma CancelTask_ok:
  assumes "CancelTask d ident ft ten tid reason db = (Inr (), evs, db')"
  obtains tenant user t evs1 db1 where "callerIdentity (td_uuid_ok d) ident ten [] = Inr (tenant, user)" "visible_task db tenant tid = Some t"
    "OwnerUserID t = user \<or> td_admin d user = Inr ()" "cancel_gate ft tenant user tid t db = (Inr evs1, db1)"
    "Transition (cf_transition ft) tenant tid (State t) TaskStateCancelled db1 = Inr db'"
proof -
  obtain tenant user where c: "callerIdentity (td_uuid_ok d) ident ten [] = Inr (tenant, user)" "\<not> length reason > MaxReasonBytes"
    using assms by (auto simp: CancelTask_def split: sum.splits if_splits)
  obtain t where t: "Get (cf_get ft) tenant tid db = Inr t"
    using assms c by (cases "Get (cf_get ft) tenant tid db") (auto simp: CancelTask_def split: db_error.splits)
  obtain u evs0 where a: "cancel_allowed d tenant user tid t = (Inr u, evs0)"
    using assms c t by (cases "cancel_allowed d tenant user tid t"; cases "fst (cancel_allowed d tenant user tid t)") (auto simp: CancelTask_def)
  obtain evs1 db1 where g: "cancel_gate ft tenant user tid t db = (Inr evs1, db1)"
    using assms c t a by (cases "cancel_gate ft tenant user tid t db"; cases "fst (cancel_gate ft tenant user tid t db)") (auto simp: CancelTask_def)
  have "Transition (cf_transition ft) tenant tid (State t) TaskStateCancelled db1 = Inr db'"
    using assms c t a g by (cases "Transition (cf_transition ft) tenant tid (State t) TaskStateCancelled db1") (auto simp: CancelTask_def)
  then show thesis using that c(1) Get_Inr [OF t] cancel_allowed_ok [OF a] g by blast
qed

lemma cancel_gate_cases:
  assumes "cancel_gate ft tenant user tid t db = (Inr evs1, db1)"
  shows "(State t \<noteq> TaskStateAwaitingApproval \<and> db1 = db) \<or> db1 = snd (WithdrawApproval False tenant tid user db)"
  using assms by (cases "cf_withdraw ft") (auto simp: cancel_gate_def WithdrawApproval_def Let_def split: if_splits)

lemma cancel_gate_closes:
  assumes "cancel_gate ft tenant user tid t db = (Inr evs1, db1)"
  shows "tasks db1 = tasks db" "State t = TaskStateAwaitingApproval \<Longrightarrow> a \<in> set (approvals db1) \<Longrightarrow> ar_TaskID a = tid \<Longrightarrow> ar_TenantID a = tenant
    \<Longrightarrow> ar_State a \<noteq> ApprovalPending"
proof -
  show "tasks db1 = tasks db" using cancel_gate_cases [OF assms] by (auto simp: WithdrawApproval_def Let_def)
  assume a: "State t = TaskStateAwaitingApproval" "a \<in> set (approvals db1)" "ar_TaskID a = tid" "ar_TenantID a = tenant"
  then have "db1 = snd (WithdrawApproval False tenant tid user db)" using cancel_gate_cases [OF assms] by blast
  then have "a \<in> (\<lambda>b. if ar_TaskID b = tid \<and> ar_TenantID b = tenant \<and> ar_State b = ApprovalPending
      then b\<lparr>ar_State := ApprovalDenied, DeniedBy := DeniedBy b @ [user]\<rparr> else b) ` set (approvals db)"
    using a(2) by (simp add: WithdrawApproval_def Let_def)
  then obtain b where "a = (if ar_TaskID b = tid \<and> ar_TenantID b = tenant \<and> ar_State b = ApprovalPending
      then b\<lparr>ar_State := ApprovalDenied, DeniedBy := DeniedBy b @ [user]\<rparr> else b)" by (rule imageE)
  then show "ar_State a \<noteq> ApprovalPending" using a(3,4) by (auto split: if_splits)
qed

text \<open>Only the owner or a tenant administrator cancels a task, only from a state the state machine
  allows, and a task cancelled while it waited for an approval leaves no gate of its behind that
  could still be decided.
\<close>

theorem cancel_closes_the_gate:
  assumes "CancelTask d ident ft ten tid reason db = (Inr (), evs, db')"
  shows "\<exists>tenant user t. callerIdentity (td_uuid_ok d) ident ten [] = Inr (tenant, user) \<and> visible_task db tenant tid = Some t
    \<and> (OwnerUserID t = user \<or> td_admin d user = Inr ()) \<and> isValidTransition (State t) TaskStateCancelled
    \<and> tasks db' tid = Some (t\<lparr>State := TaskStateCancelled\<rparr>)
    \<and> (State t = TaskStateAwaitingApproval \<longrightarrow>
         (\<forall>now. GetPendingApprovalByTask False now tenant tid db' = Inl ErrNoRows))"
  using assms
proof (rule CancelTask_ok)
  fix tenant user t evs1 db1
  assume c: "callerIdentity (td_uuid_ok d) ident ten [] = Inr (tenant, user)" "visible_task db tenant tid = Some t" "OwnerUserID t = user \<or> td_admin d user = Inr ()"
    and g: "cancel_gate ft tenant user tid t db = (Inr evs1, db1)"
    and tr: "Transition (cf_transition ft) tenant tid (State t) TaskStateCancelled db1 = Inr db'"
  have v: "visible_task db1 tenant tid = Some t" using c(2) cancel_gate_closes(1) [OF g] by (simp add: visible_task_def)
  from tr have v2: "isValidTransition (State t) TaskStateCancelled" "tasks db' tid = Some (t\<lparr>State := TaskStateCancelled\<rparr>)" "approvals db' = approvals db1"
    using v by (auto simp: Transition_def transitionExec_def split: if_splits)
  have "GetPendingApprovalByTask False now tenant tid db' = Inl ErrNoRows" if aw: "State t = TaskStateAwaitingApproval" for now
  proof -
    have "List.find (\<lambda>a. ar_TaskID a = tid \<and> open_gate now tenant a) (rev (approvals db')) = None"
      using cancel_gate_closes(2) [OF g aw] v2(3) by (auto simp: find_None_iff open_gate_def)
    then show ?thesis by (simp add: GetPendingApprovalByTask_def)
  qed
  then show ?thesis using c v2 by blast
qed

section \<open>Every handler is a run of the broker's steps\<close>

inductive handler_step :: "(string \<Rightarrow> string) \<Rightarrow> SbState \<Rightarrow> SbState \<Rightarrow> bool" for sha where
  create: "CreateTask d ident fail now nid tr req (sb_db s) = (r, eff, db') \<Longrightarrow> handler_step sha s (s\<lparr>sb_db := db'\<rparr>)"
| create_gateway: "CreateGatewayTask d ident fail now nid tr greq (sb_db s) = (r, eff, db') \<Longrightarrow> handler_step sha s (s\<lparr>sb_db := db'\<rparr>)"
| approve: "ApproveTask d ident ft now areq (sb_db s) = (r2, evs, db') \<Longrightarrow> td_Sha256 d = sha \<Longrightarrow> handler_step sha s (s\<lparr>sb_db := db'\<rparr>)"
| approve_gateway: "ApproveGatewayTask d ident ft fail now vreq (sb_db s) = (r2, evs, db') \<Longrightarrow> td_Sha256 d = sha \<Longrightarrow> handler_step sha s (s\<lparr>sb_db := db'\<rparr>)"
| cancel: "CancelTask d ident cft ten tid reason (sb_db s) = (r3, evs, db') \<Longrightarrow> handler_step sha s (s\<lparr>sb_db := db'\<rparr>)"
| sweep: "SweepExpiredApprovals fail fexp ftrans now (sb_db s) = (n, evs, db') \<Longrightarrow> handler_step sha s (s\<lparr>sb_db := db'\<rparr>)"

definition db_steps :: "(string \<Rightarrow> string) \<Rightarrow> Db \<Rightarrow> Db \<Rightarrow> bool" where
  "db_steps sha db db' \<longleftrightarrow> (\<forall>s. sb_db s = db \<longrightarrow> (broker_step sha)\<^sup>*\<^sup>* s (s\<lparr>sb_db := db'\<rparr>))"

lemma db_steps_refl [simp]: "db_steps sha db db"
  by (auto simp: db_steps_def)

lemma db_steps_trans: "db_steps sha a b \<Longrightarrow> db_steps sha b c \<Longrightarrow> db_steps sha a c"
proof -
  assume ab: "db_steps sha a b" and bc: "db_steps sha b c"
  show "db_steps sha a c" unfolding db_steps_def
  proof (intro allI impI)
    fix s :: SbState assume "sb_db s = a"
    then have "(broker_step sha)\<^sup>*\<^sup>* s (s\<lparr>sb_db := b\<rparr>)" using ab by (simp add: db_steps_def)
    moreover have "(broker_step sha)\<^sup>*\<^sup>* (s\<lparr>sb_db := b\<rparr>) (s\<lparr>sb_db := b\<rparr>\<lparr>sb_db := c\<rparr>)"
      using bc [unfolded db_steps_def, rule_format, of "s\<lparr>sb_db := b\<rparr>"] by simp
    ultimately show "(broker_step sha)\<^sup>*\<^sup>* s (s\<lparr>sb_db := c\<rparr>)" by simp
  qed
qed

lemma db_steps_other: "other_writer op \<Longrightarrow> db' = exec op db \<Longrightarrow> db_steps sha db db'"
  unfolding db_steps_def using broker_step.other by (metis r_into_rtranclp)

lemma db_steps_create: "Create fail t db = Inr db' \<Longrightarrow> db_steps sha db db'"
  by (rule db_steps_other [of "OCreate t"]) (auto simp: Create_def or_same_def split: if_splits)

lemma db_steps_transition: "Transition f ten tid a b db = Inr db' \<Longrightarrow> b \<in> {TaskStateCancelled, TaskStateTimeout} \<Longrightarrow> db_steps sha db db'"
  by (rule db_steps_other [of "OTransition ten tid a b"]) (auto simp: Transition_def or_same_def split: if_splits)

lemma db_steps_resolve: "Resolve sha check mint ft now ident su ten tid who ok reason dg db = (r, db') \<Longrightarrow> db_steps sha db db'"
  unfolding db_steps_def using broker_step.resolve by (metis r_into_rtranclp)

lemma db_steps_cancel_gate: "cancel_gate ft ten user tid t db = (r, db') \<Longrightarrow> db_steps sha db db'"
proof (cases "State t = TaskStateAwaitingApproval \<and> \<not> cf_withdraw ft")
  case True
  assume "cancel_gate ft ten user tid t db = (r, db')"
  then have "db' = exec (OWithdraw ten tid user) db" using True by (auto simp: cancel_gate_def split: prod.splits sum.splits)
  then show ?thesis by (intro db_steps_other [of "OWithdraw ten tid user"]) simp_all
qed (auto simp: cancel_gate_def WithdrawApproval_def split: if_splits)

lemma db_steps_cancel: "CancelTask d ident ft ten tid reason db = (r, evs, db') \<Longrightarrow> db_steps sha db db'"
  unfolding CancelTask_def
  by (auto split: sum.splits prod.splits if_splits db_error.splits intro: db_steps_cancel_gate db_steps_trans [OF db_steps_cancel_gate db_steps_transition])

lemma expire_row_steps:
  "expire_row fexp ftrans now row (n, evs, db) = (n', evs', db') \<Longrightarrow> db_steps sha db db'"
proof -
  assume e: "expire_row fexp ftrans now row (n, evs, db) = (n', evs', db')"
  obtain ten aid tid where row: "row = (ten, aid, tid)" by (cases row)
  have x: "db_steps sha db (snd (ExpireApproval (fexp aid) now ten aid db))"
    by (cases "fexp aid") (simp add: ExpireApproval_def, rule db_steps_other [of "OExpire now ten aid"], simp_all)
  show ?thesis using e x unfolding row
    by (auto simp: expire_row_def split: prod.splits sum.splits bool.splits intro: db_steps_trans [OF _ db_steps_transition])
qed

lemma sweep_steps: "fold (expire_row fexp ftrans now) rows (n, evs, db) = (n', evs', db') \<Longrightarrow> db_steps sha db db'"
proof (induction rows arbitrary: n evs db)
  case (Cons row rows)
  obtain n1 evs1 db1 where e: "expire_row fexp ftrans now row (n, evs, db) = (n1, evs1, db1)" by (cases "expire_row fexp ftrans now row (n, evs, db)")
  then show ?case using Cons db_steps_trans [OF expire_row_steps [OF e]] by simp
qed simp

lemma db_steps_approve_as: "approve_as d ident ft now ten tid who ok reason dg db = (r, evs, db') \<Longrightarrow> db_steps (td_Sha256 d) db db'"
  using approve_as_db db_steps_resolve db_steps_refl by metis

lemma db_steps_persist: "persistManagedTask d fail t tr db = (r, eff, db') \<Longrightarrow> db_steps sha db db'"
  using persist_db db_steps_create db_steps_refl by metis

lemma db_steps_CreateTask: "CreateTask d ident fail now nid tr req db = (r, eff, db') \<Longrightarrow> db_steps sha db db'"
  unfolding CreateTask_def Let_def by (auto split: sum.splits prod.splits option.splits intro: db_steps_persist)

lemma db_steps_CreateGatewayTask: "CreateGatewayTask d ident fail now nid tr req db = (r, eff, db') \<Longrightarrow> db_steps sha db db'"
  unfolding CreateGatewayTask_def Let_def by (auto split: sum.splits prod.splits option.splits intro: db_steps_persist)

lemma db_steps_ApproveTask: "ApproveTask d ident ft now req db = (r, evs, db') \<Longrightarrow> db_steps (td_Sha256 d) db db'"
  unfolding ApproveTask_def by (auto split: sum.splits prod.splits if_splits intro: db_steps_approve_as)

lemma db_steps_ApproveGatewayTask: "ApproveGatewayTask d ident ft fail now req db = (r, evs, db') \<Longrightarrow> db_steps (td_Sha256 d) db db'"
  unfolding ApproveGatewayTask_def by (auto split: sum.splits prod.splits intro: db_steps_approve_as)

lemma db_steps_sweep: "SweepExpiredApprovals fail fexp ftrans now db = (n, evs, db') \<Longrightarrow> db_steps sha db db'"
  by (auto simp: SweepExpiredApprovals_def split: if_splits intro: sweep_steps)

lemma handler_db_steps: "handler_step sha s s' \<Longrightarrow> \<exists>db'. s' = s\<lparr>sb_db := db'\<rparr> \<and> db_steps sha (sb_db s) db'"
proof (induction rule: handler_step.induct)
  case (create d ident fail now nid tr req s r eff db')
  from db_steps_CreateTask [OF create] show ?case by (intro exI [of _ db']) simp
next
  case (create_gateway d ident fail now nid tr greq s r eff db')
  from db_steps_CreateGatewayTask [OF create_gateway] show ?case by (intro exI [of _ db']) simp
next
  case (approve d ident ft now areq s r2 evs db')
  from db_steps_ApproveTask [OF approve(1)] approve(2) show ?case by (intro exI [of _ db']) simp
next
  case (approve_gateway d ident ft fail now vreq s r2 evs db')
  from db_steps_ApproveGatewayTask [OF approve_gateway(1)] approve_gateway(2) show ?case by (intro exI [of _ db']) simp
next
  case (cancel d ident cft ten tid reason s r3 evs db')
  from db_steps_cancel [OF cancel] show ?case by (intro exI [of _ db']) simp
next
  case (sweep fail fexp ftrans now s n evs db')
  from db_steps_sweep [OF sweep] show ?case by (intro exI [of _ db']) simp
qed

lemma reach_steps: "(broker_step sha)\<^sup>*\<^sup>* s s' \<Longrightarrow> broker_reach sha s \<Longrightarrow> broker_reach sha s'"
  by (induction rule: rtranclp_induct) (auto intro: broker_reach.step)


section \<open>Session grants\<close>

lemma Unix_mono: "a \<le> b \<Longrightarrow> Unix a \<le> Unix b"
  by (simp add: Unix_def zdiv_mono1)

lemma callerIdentity_user: "callerIdentity ok ident rt ru = Inr (tenant, user) \<Longrightarrow> user \<noteq> []"
  by (auto simp: callerIdentity_def bindE_eq_Inr split: if_splits)

text \<open>C10.  
  A session grant speaks for the caller it was minted for, and for nobody else, as long as the
  session lives: it is accepted exactly before it expires, in the caller's tenant, while neither
  the caller nor the tenant is blocked and no revoke-all came after its second; its expiry is never
  after the bearer's.
\<close>

theorem session_grant_speaks_for_caller:
  assumes "MintSessionGrant d ident bexp now rt ru = Inr token" "int64 (Unix now)" "int64 (Unix (now + session_ttl d bexp now))"
  shows "\<exists>tenant user. callerIdentity (td_uuid_ok d) ident rt ru = Inr (tenant, user)
    \<and> (\<forall>later tenantID. (\<exists>g. fst (verifyOwnerGrant d later tenantID token) = Inr g) \<longleftrightarrow>
         tenantID = tenant \<and> Unix later < Unix (now + session_ttl d bexp now)
         \<and> (\<exists>st. td_RevOnBehalfOf d tenant user [] = Inr st \<and> \<not> Revoked st (Some (Unix now * second)) \<and> AgentRefusal st = []))
    \<and> (\<forall>later tenantID g. fst (verifyOwnerGrant d later tenantID token) = Inr g \<longrightarrow> Owner g = user \<and> g_TenantID g = tenant)
    \<and> (\<forall>e. bexp = Some e \<longrightarrow> Unix (now + session_ttl d bexp now) \<le> Unix e)"
proof -
  obtain tenant user where c: "callerIdentity (td_uuid_ok d) ident rt ru = Inr (tenant, user)"
    and m: "Mint (td_Mac d) now (td_GrantKey d)
       \<lparr>g_TenantID = tenant, g_Subject = user, g_Actor = [], g_Kind = KindInteractive, g_GrantID = [], g_Expires = None, g_IssuedAt = None\<rparr>
       (session_ttl d bexp now) = Inr token"
    using assms(1) by (auto simp: MintSessionGrant_def bindE_eq_Inr Let_def split: if_splits sum.splits)
  let ?g = "\<lparr>g_TenantID = tenant, g_Subject = user, g_Actor = [], g_Kind = KindInteractive, g_GrantID = [],
    g_Expires = Some (Unix (now + session_ttl d bexp now)), g_IssuedAt = Some (Unix now)\<rparr>"
  have v: "Verify (td_Mac d) later (td_GrantKey d) token (td_AcceptV1 d) = (if Unix (now + session_ttl d bexp now) \<le> Unix later then Inl ErrExpired else Inr ?g)" for later
    using Mint_Verify [OF m assms(2,3)] by simp
  have t: "token \<noteq> []" using Mint_token(1) [OF m] by simp
  have u: "user \<noteq> []" by (rule callerIdentity_user [OF c])
  have acc: "fst (verifyOwnerGrant d later tenantID token) = Inr g \<longleftrightarrow> tenantID = tenant \<and> Unix later < Unix (now + session_ttl d bexp now) \<and> g = ?g
      \<and> (\<exists>st. td_RevOnBehalfOf d tenant user [] = Inr st \<and> \<not> Revoked st (Some (Unix now * second)) \<and> AgentRefusal st = [])" for later tenantID g
    using t by (auto simp: verifyOwnerGrant_def v andThen_ok grant_mode_check_def grant_state_check_def grant_issued_def Revoked_def
        KindInteractive_def KindLegacy_def KindScheduled_def split: sum.splits if_splits)
  have "Unix (now + session_ttl d bexp now) \<le> Unix e" if "bexp = Some e" for e
    using that by (intro Unix_mono) (simp add: session_ttl_def)
  then show ?thesis using c u acc by (intro exI [of _ tenant] exI [of _ user]) (auto simp: Owner_def)
qed

section \<open>An example\<close>

definition ex_envelope :: Envelope where
  "ex_envelope = \<lparr>env_ID = ''e1'', env_ParentTaskID = None, env_TenantID = ''t'', env_FromUserID = ''bob'', env_ToType = ''user'', env_ToID = ''eve'',
     env_MaxCostUnits = 7, env_AttenuatedScopes = Some (JArr [JStr ''files.read'']), env_State = EnvelopeDelivered, env_ExpiresAt = None\<rparr>"

definition ex_task_deps :: TaskDeps where
  "ex_task_deps = \<lparr>td_Run = ex_run_deps ''active'', td_DevMode = False, td_GatewaySpiffeID = ''gw'', td_Check = (\<lambda>_ _ _. Inr True),
     td_Cfg = (\<lambda>_ _. Inr []), td_CfgInt = (\<lambda>_ _. Inr 5), td_Minter = (\<lambda>_ _ _ _. Inr Map.empty), td_Sha256 = (#) (CHR ''h''),
     td_GetEnvelope = (\<lambda>t e. if e = ''e1'' then Some ex_envelope else None), td_CountEnvelopeTasks = (\<lambda>_ _ _. Inr 3),
     td_RevUser = (\<lambda>_ _. Inr zero_State), td_RevOnBehalfOf = (\<lambda>_ _ _. Inr zero_State),
     td_Mac = (\<lambda>k p. k @ take 3 p), td_GrantKey = ''key'', td_AcceptV1 = False, td_GrantTTL = 3600000000000\<rparr>"

definition ex_create_req :: CreateTaskReq where
  "ex_create_req = \<lparr>ct_TenantId = ''t'', ct_UserId = ''eve'', ct_CostBudget = 0, ct_AgentId = [], ct_Prompt = ''go'', ct_SkillHints = [],
     ct_ClientRequestId = ''c1'', ct_Deadline = None, ct_ParentTaskId = [], ct_EnvelopeId = ''e1''\<rparr>"

definition ex_create :: "(rpc_error, string \<times> string) result \<times> effects \<times> Db" where
  "ex_create = CreateTask ex_task_deps None False 0 ''n1'' ''tr'' ex_create_req empty_Db"

lemma ex_create_run:
  "fst ex_create = Inr (''n1'', ''tr'')" "map_option (\<lambda>t. (OwnerUserID t, CostBudget t, TenantID t, TaskID t, TraceID t)) (tasks (snd (snd ex_create)) ''n1'') = Some (''eve'', 7, ''t'', ''n1'', ''tr'')"
  "client_request_index (snd (snd ex_create)) (''t'', ''c1'') = Some ''n1''" "tasks (snd (snd ex_create)) ''n2'' = None"
  by code_simp+

theorem created_task_is_callers_witness:
  "\<exists>t. tasks (snd (snd ex_create)) ''n1'' = Some t \<and> OwnerUserID t = ''eve'' \<and> CostBudget t = 7 \<and> State t = TaskStateCreated
     \<and> set (task_relations ex_task_deps ''eve'' ''n1'') \<subseteq> set (fst (fst (snd ex_create)))"
proof -
  have "CreateTask ex_task_deps None False 0 ''n1'' ''tr'' ex_create_req empty_Db = (Inr (''n1'', ''tr''), fst (snd ex_create), snd (snd ex_create))"
    using ex_create_run(1) by (simp add: ex_create_def prod_eq_iff)
  moreover have "snd (snd ex_create) \<noteq> empty_Db" using ex_create_run(3) by (auto simp: empty_Db_def)
  ultimately obtain tenant owner t where t: "tasks (snd (snd ex_create)) ''n1'' = Some t" "OwnerUserID t = owner" "State t = TaskStateCreated"
      "set (task_relations ex_task_deps owner ''n1'') \<subseteq> set (fst (fst (snd ex_create)))"
    using created_task_is_callers by blast
  moreover have "OwnerUserID t = ''eve''" "CostBudget t = 7" using ex_create_run(2) t(1) by simp_all
  ultimately show ?thesis by (intro exI [of _ t]) simp
qed

definition ex_again :: "string \<Rightarrow> Task" where
  "ex_again owner = new_task ''n2'' ''t'' owner [] 5 ''tr2'' None ''c1'' False"

theorem create_is_idempotent_witness:
  "fst (persistManagedTask ex_task_deps False (ex_again ''eve'') ''tr2'' (snd (snd ex_create))) = Inr (''n1'', ''tr'')
   \<and> fst (persistManagedTask ex_task_deps False (ex_again ''mal'') ''tr2'' (snd (snd ex_create))) = Inl (Status AlreadyExists ''client_request_id already in use'')"
proof -
  obtain t where t: "tasks (snd (snd ex_create)) ''n1'' = Some t" "OwnerUserID t = ''eve''" "TenantID t = ''t''" "TaskID t = ''n1''" "TraceID t = ''tr''"
    using ex_create_run(2) by auto
  have a: "TenantID (ex_again w) = ''t''" "ClientRequestID (ex_again w) = ''c1''" "TaskID (ex_again w) = ''n2''" "OwnerUserID (ex_again w) = w"
    "validateTaskFields (ex_again w) = Inr ()" for w
    by (simp_all add: ex_again_def new_task_def validateTaskFields_def maxPromptBytes_def maxClientRequestIDBytes_def)
  show ?thesis
    using create_is_idempotent [of "snd (snd ex_create)" "''n1''" t "ex_again ''eve''" ex_task_deps "''tr2''"]
      create_is_idempotent [of "snd (snd ex_create)" "''n1''" t "ex_again ''mal''" ex_task_deps "''tr2''"]
      t a ex_create_run(3,4) by simp
qed

definition ex_wait_task :: Task where
  "ex_wait_task = (new_task ''t1'' ''t'' ''eve'' [] 5 [] None [] True)\<lparr>State := TaskStateAwaitingApproval\<rparr>"

definition ex_wait_db :: Db where
  "ex_wait_db = \<lparr>tasks = [''t1'' \<mapsto> ex_wait_task], client_request_index = Map.empty, plan_steps = [],
     approvals = [\<lparr>ApprovalID = ''g1'', ar_TaskID = ''t1'', ar_TenantID = ''t'', RequesterID = ''eve'',
       Summary = \<lparr>sum_plan_id = [], sum_reason = [], sum_step_up = False, sum_n_steps = 0\<rparr>, ApproverSet = [''eve''], RequiresN = 1,
       ApprovedBy = [], DeniedBy = [], ar_State = ApprovalPending, ExpiresAt = 9000000000000\<rparr>]\<rparr>"

definition ex_gateway :: Identity where
  "ex_gateway = \<lparr>id_Subject = [], id_Email = [], id_TenantID = [], id_SpiffeID = ''gw'', id_ACR = [], id_ACRS = [], id_AMR = [], id_AuthTime = None\<rparr>"

definition ex_token :: string where
  "ex_token = (case MintSessionGrant ex_task_deps None None 0 ''t'' ''eve'' of Inr t \<Rightarrow> t | Inl _ \<Rightarrow> [])"

lemma ex_token_mint: "MintSessionGrant ex_task_deps None None 0 ''t'' ''eve'' = Inr ex_token"
proof -
  have "case MintSessionGrant ex_task_deps None None 0 ''t'' ''eve'' of Inr t \<Rightarrow> True | Inl _ \<Rightarrow> False" by code_simp
  then show ?thesis by (auto simp: ex_token_def split: sum.splits)
qed

lemma ex_token_int64: "int64 (Unix 0)" "int64 (Unix (0 + session_ttl ex_task_deps None 0))"
  by (simp_all add: int64_def Unix_def session_ttl_def ex_task_deps_def)

theorem session_grant_speaks_for_caller_witness:
  "(\<exists>g. fst (verifyOwnerGrant ex_task_deps 1000000000 ''t'' ex_token) = Inr g \<and> Owner g = ''eve'')
   \<and> (\<nexists>g. fst (verifyOwnerGrant ex_task_deps 3600000000000 ''t'' ex_token) = Inr g)"
proof -
  have c: "callerIdentity (td_uuid_ok ex_task_deps) None ''t'' ''eve'' = Inr (''t'', ''eve'')" by code_simp
  have st: "td_RevOnBehalfOf ex_task_deps ''t'' ''eve'' [] = Inr zero_State" "\<not> Revoked zero_State x" "AgentRefusal zero_State = []" for x
    by (simp_all add: ex_task_deps_def zero_State_def Revoked_def AgentRefusal_def)
  have x: "Unix 1000000000 < Unix (0 + session_ttl ex_task_deps None 0)" "\<not> Unix 3600000000000 < Unix (0 + session_ttl ex_task_deps None 0)"
    by (simp_all add: Unix_def session_ttl_def ex_task_deps_def)
  from session_grant_speaks_for_caller [OF ex_token_mint ex_token_int64] show ?thesis
  proof (elim exE conjE)
    fix tenant user
    assume tu: "callerIdentity (td_uuid_ok ex_task_deps) None ''t'' ''eve'' = Inr (tenant, user)"
      and a: "\<forall>later tenantID. (\<exists>g. fst (verifyOwnerGrant ex_task_deps later tenantID ex_token) = Inr g) \<longleftrightarrow>
         tenantID = tenant \<and> Unix later < Unix (0 + session_ttl ex_task_deps None 0)
         \<and> (\<exists>st. td_RevOnBehalfOf ex_task_deps tenant user [] = Inr st \<and> \<not> Revoked st (Some (Unix 0 * second)) \<and> AgentRefusal st = [])"
      and own: "\<forall>later tenantID g. fst (verifyOwnerGrant ex_task_deps later tenantID ex_token) = Inr g \<longrightarrow> Owner g = user \<and> g_TenantID g = tenant"
    have e: "tenant = ''t''" "user = ''eve''" using tu c by simp_all
    have "\<exists>g. fst (verifyOwnerGrant ex_task_deps 1000000000 ''t'' ex_token) = Inr g"
      using a [rule_format, of 1000000000 "''t''"] x(1) st e by blast
    moreover have "\<nexists>g. fst (verifyOwnerGrant ex_task_deps 3600000000000 ''t'' ex_token) = Inr g"
      using a [rule_format, of 3600000000000 "''t''"] x(2) by blast
    ultimately show ?thesis using own e(2) by blast
  qed
qed

section \<open>Witnesses of the gateway's vote, of a cancellation and of a handler's run\<close>

definition ex_vote_req :: GatewayApproveReq where
  "ex_vote_req = \<lparr>ga_TenantId = ''t'', ga_TaskId = ''t1'', ga_OwnerGrant = ex_token, ga_Approved = False, ga_Reason = [], ga_ArgsDigest = []\<rparr>"

definition ex_no_faults :: ResolveFaults where
  "ex_no_faults = \<lparr>rf_pending = False, rf_steps = False, rf_vote = False, rf_task = False\<rparr>"

definition ex_vote :: "(rpc_error, ResolveResult) result \<times> AuditEvent list \<times> Db" where
  "ex_vote = ApproveGatewayTask ex_task_deps (Some ex_gateway) ex_no_faults False 1000000000 ex_vote_req ex_wait_db"

lemma ex_vote_state: "map_option State (tasks (snd (snd ex_vote)) ''t1'') = Some TaskStateDenied"
  by code_simp


definition ex_cancel :: "(rpc_error, unit) result \<times> AuditEvent list \<times> Db" where
  "ex_cancel = CancelTask ex_task_deps (Some (ex_gateway\<lparr>id_Subject := ''eve'', id_TenantID := ''t''\<rparr>))
     \<lparr>cf_get = False, cf_withdraw = False, cf_transition = False\<rparr> [] ''t1'' [] ex_wait_db"

theorem cancel_closes_the_gate_witness:
  "fst ex_cancel = Inr () \<and> (\<forall>now. GetPendingApprovalByTask False now ''t'' ''t1'' (snd (snd ex_cancel)) = Inl ErrNoRows)"
proof -
  have f: "fst ex_cancel = Inr ()" by code_simp
  have c: "callerIdentity (td_uuid_ok ex_task_deps) (Some (ex_gateway\<lparr>id_Subject := ''eve'', id_TenantID := ''t''\<rparr>)) [] [] = Inr (''t'', ''eve'')" by code_simp
  have "CancelTask ex_task_deps (Some (ex_gateway\<lparr>id_Subject := ''eve'', id_TenantID := ''t''\<rparr>))
     \<lparr>cf_get = False, cf_withdraw = False, cf_transition = False\<rparr> [] ''t1'' [] ex_wait_db = (Inr (), fst (snd ex_cancel), snd (snd ex_cancel))"
    using f by (simp add: ex_cancel_def prod_eq_iff)
  from cancel_closes_the_gate [OF this] c f show ?thesis by (auto simp: visible_task_def ex_wait_db_def ex_wait_task_def new_task_def)
qed


end
