(* ===== verification/SchedulerRun.thy ===== *)
theory SchedulerRun
  imports SchedulerSafety TaskSafety
begin

text \<open>
  The scheduler over time.  A run is handed to the gateway only under a live delegation and for an
  agent its owner may run, with a grant that names both; it is held back while it is out, reported at
  most as often as it was handed out, and never handed out again once its delegation is revoked;
  only its owner rewrites it.  The handlers interleave: histories of the table let every update use
  a row read at any earlier moment.
\<close>

section \<open>Histories\<close>

text \<open>
  A history is the list of the table's states, the last one first, each with what the step that
  led to it did with claims: runs were handed out, a result was accepted, or neither.  Identifiers
  of new runs are fresh, and a handler that changes a run may have read it in any earlier state.
\<close>

datatype sched_label = Handed string int int "string list" | Reported string string | Written

type_synonym history = "(sched_label \<times> SchedDb) list"

definition used_ids :: "history \<Rightarrow> string set" where
  "used_ids h = (\<Union>x \<in> set h. sr_ID ` set (snd x))"

inductive sched_hist :: "history \<Rightarrow> bool" where
  start: "sched_hist [(Written, [])]"
| create: "sched_hist ((l, db) # h) \<Longrightarrow> newID \<notin> used_ids ((l, db) # h)
    \<Longrightarrow> CreateScheduledRun d ident newID f1 f2 now dbnow req db = (r, evs, db') \<Longrightarrow> sched_hist ((Written, db') # (l, db) # h)"
| update: "sched_hist ((l, db) # h) \<Longrightarrow> db0 \<in> snd ` set ((l, db) # h)
    \<Longrightarrow> UpdateScheduledRun d ident ft now dbnow ureq db0 db = (r, evs, db') \<Longrightarrow> sched_hist ((Written, db') # (l, db) # h)"
| delete: "sched_hist ((l, db) # h) \<Longrightarrow> db0 \<in> snd ` set ((l, db) # h)
    \<Longrightarrow> DeleteScheduledRun d ident ft reqTenant reqUser sid db0 db = (u, evs, db') \<Longrightarrow> sched_hist ((Written, db') # (l, db) # h)"
| claim: "sched_hist ((l, db) # h) \<Longrightarrow> ClaimDueScheduledRuns d v ident cft locked now dbnow tenant limit db = (Inr out, eff, db')
    \<Longrightarrow> sched_hist ((Handed tenant now dbnow (map du_Id out), db') # (l, db) # h)"
| report: "sched_hist ((l, db) # h) \<Longrightarrow> ReportScheduledRunResult d ident f1 f2 tenant sid ok summary db = (Inr (), evs, db')
    \<Longrightarrow> sched_hist ((Reported tenant sid, db') # (l, db) # h)"
| publish: "sched_hist ((l, db) # h) \<Longrightarrow> sched_hist ((Written, repin tenant lineage version owner oldSHA newSHA db) # (l, db) # h)"
| cascade: "sched_hist ((l, db) # h) \<Longrightarrow> sched_hist ((Written, cascade_agent agent db) # (l, db) # h)"

inductive_cases sched_histE: "sched_hist ((l', db') # (l, db) # h)"

declare sched_hist.intros [step_intros]

lemma sched_hist_nonempty: "\<not> sched_hist []"
  by (auto elim: sched_hist.cases)

lemma sched_hist_suffix: "sched_hist (x # y # h) \<Longrightarrow> sched_hist (y # h)"
  by (cases y, cases x) (auto elim: sched_histE)

lemma sched_hist_drop: "sched_hist (h @ x # h') \<Longrightarrow> sched_hist (x # h')"
proof (induction h)
  case (Cons y h)
  then show ?case by (cases h) (auto dest: sched_hist_suffix)
qed simp

text \<open>What a step does, as the rest of the theory uses it.\<close>

definition claims_by :: "sched_label \<Rightarrow> string \<Rightarrow> ScheduledRun \<Rightarrow> ScheduledRun \<Rightarrow> bool" where
  "claims_by l sid r r' =
     (case l of
        Written \<Rightarrow> sr_ClaimedAt r' = sr_ClaimedAt r
      | Reported _ s \<Rightarrow> if s = sid then sr_ClaimedAt r \<noteq> None \<and> sr_ClaimedAt r' = None else sr_ClaimedAt r' = sr_ClaimedAt r
      | Handed _ now c ids \<Rightarrow>
          if sid \<in> set ids then sr_ClaimedAt r' = Some c \<and> claim_free now r \<and> sr_RevokedAt r = None
          else sr_ClaimedAt r' = sr_ClaimedAt r \<or> sr_ClaimedAt r' = None \<and> claim_free now r)"

definition touched :: "sched_label \<Rightarrow> string set" where
  "touched l = (case l of Written \<Rightarrow> {} | Reported _ s \<Rightarrow> {s} | Handed _ _ _ ids \<Rightarrow> set ids)"

text \<open>
  Ids stay distinct; a row that survives keeps what it has to; a new row has a fresh id and no claim;
  a run that is handed out or reported was there.
\<close>

definition step_effect :: "sched_label \<Rightarrow> string set \<Rightarrow> SchedDb \<Rightarrow> SchedDb \<Rightarrow> bool" where
  "step_effect l used db db' \<longleftrightarrow>
     distinct (map sr_ID db')
     \<and> (\<forall>sid r'. look sid db' = Some r' \<longrightarrow> (case look sid db of
          Some r \<Rightarrow> kept r r' \<and> claims_by l sid r r'
        | None \<Rightarrow> sid \<notin> used \<and> sr_ClaimedAt r' = None \<and> sr_RevokedAt r' = None))
     \<and> (\<forall>sid \<in> touched l. look sid db \<noteq> None \<and> look sid db' \<noteq> None)"

lemma touched_simps [simp]: "touched Written = {}" "touched (Reported t s) = {s}" "touched (Handed t n c ids) = set ids"
  by (simp_all add: touched_def)

lemma step_effect_rows:
  assumes "step_effect l used db db'" "look sid db = Some r" "look sid db' = Some r'"
  shows "kept r r' \<and> claims_by l sid r r'"
proof -
  have "case look sid db of Some r \<Rightarrow> kept r r' \<and> claims_by l sid r r' | None \<Rightarrow> sid \<notin> used \<and> sr_ClaimedAt r' = None \<and> sr_RevokedAt r' = None"
    using assms(1,3) unfolding step_effect_def by blast
  then show ?thesis using assms(2) by simp
qed

lemma step_effect_new:
  assumes "step_effect l used db db'" "look sid db = None" "look sid db' = Some r'"
  shows "sid \<notin> used" "sr_ClaimedAt r' = None" "sr_RevokedAt r' = None"
proof -
  have "case look sid db of Some r \<Rightarrow> kept r r' \<and> claims_by l sid r r' | None \<Rightarrow> sid \<notin> used \<and> sr_ClaimedAt r' = None \<and> sr_RevokedAt r' = None"
    using assms(1,3) unfolding step_effect_def by blast
  then show "sid \<notin> used" "sr_ClaimedAt r' = None" "sr_RevokedAt r' = None" using assms(2) by simp_all
qed

lemma step_effect_touched:
  assumes "step_effect l used db db'" "sid \<in> touched l"
  obtains r r' where "look sid db = Some r" "look sid db' = Some r'" "kept r r'" "claims_by l sid r r'"
proof -
  obtain r r' where "look sid db = Some r" "look sid db' = Some r'" using assms unfolding step_effect_def by blast
  then show ?thesis using that step_effect_rows [OF assms(1)] by blast
qed

lemma claims_by_Written: "claims_by Written sid r r' \<longleftrightarrow> same_claim r r'"
  by (simp add: claims_by_def same_claim_def)

lemma step_effect_kept:
  assumes "stays kept db db'" "stays same_claim db db'" "distinct (map sr_ID db')"
  shows "step_effect Written used db db'"
proof -
  have "case look sid db of Some r \<Rightarrow> kept r r' \<and> claims_by Written sid r r' | None \<Rightarrow> sid \<notin> used \<and> sr_ClaimedAt r' = None \<and> sr_RevokedAt r' = None"
    if r': "look sid db' = Some r'" for sid r'
  proof -
    obtain r where r: "look sid db = Some r" "kept r r'" using assms(1) r' unfolding stays_def by meson
    moreover obtain r2 where "look sid db = Some r2" "same_claim r2 r'" using assms(2) r' unfolding stays_def by meson
    ultimately show ?thesis by (simp add: claims_by_Written)
  qed
  then show ?thesis using assms(3) by (simp add: step_effect_def touched_def)
qed

lemma CreateScheduledRun_cases:
  assumes "CreateScheduledRun d ident newID f1 f2 now dbnow req db = (r, evs, db')"
  shows "db' = db \<or> (\<exists>tenant user timing wfl tenantUUID actor.
     validate_new d tenant user (cr_Def req) now = Inr (timing, wfl) \<and> callerIdentity (td_uuid_ok (sd_Task d)) ident (cr_TenantId req) (cr_UserId req) = Inr (tenant, user)
     \<and> requireSchedulerSkill d user = Inr () \<and> scheduleActor d tenant user (cr_ActorAgentId req) = Inr actor
     \<and> sched_Create False dbnow (new_run newID tenantUUID user (cr_Def req) timing actor wfl) (Some (now + delegationTTL)) db = Inr db')"
proof -
  have c: "sched_Create f1 dbnow s e db = Inr x \<Longrightarrow> sched_Create False dbnow s e db = Inr x" for s e x
    by (cases f1) (simp_all add: sched_Create_def)
  show ?thesis using assms
    by (auto simp: CreateScheduledRun_def bindE_eq_Inr dest!: c split: sum.splits option.splits)
qed

lemma sched_Create_Inr:
  assumes "sched_Create False dbnow s e db = Inr db'"
  obtains row where "db' = db @ [row]" "sr_ID row = sr_ID s" "sr_ClaimedAt row = None" "sr_RevokedAt row = None" "look (sr_ID s) db = None"
proof -
  have "look (sr_ID s) db = None" using assms by (auto simp: look_None_iff sched_Create_def list_ex_iff split: if_splits)
  then show ?thesis using assms that by (auto simp: sched_Create_def split: if_splits)
qed

lemma new_run_ID [simp]: "sr_ID (new_run sid t u de timing a w) = sid"
  by (simp add: new_run_def split: prod.splits)

lemma step_effect_create:
  assumes "CreateScheduledRun d ident newID f1 f2 now dbnow req db = (r, evs, db')" "distinct (map sr_ID db)" "newID \<notin> used"
  shows "step_effect Written used db db'"
  using CreateScheduledRun_cases [OF assms(1)]
proof (elim disjE exE conjE)
  assume "db' = db"
  then show ?thesis using assms(2) by (simp add: step_effect_kept kept.stays_refl claim.stays_refl)
next
  fix user timing wfl tenantUUID actor
  assume "sched_Create False dbnow (new_run newID tenantUUID user (cr_Def req) timing actor wfl) (Some (now + delegationTTL)) db = Inr db'"
  then obtain row where row: "db' = db @ [row]" "sr_ID row = newID" "sr_ClaimedAt row = None" "sr_RevokedAt row = None" "look newID db = None"
    by (elim sched_Create_Inr) simp
  have "look sid db' = (case look sid db of Some r \<Rightarrow> Some r | None \<Rightarrow> if sid = newID then Some row else None)" for sid
    using row by (auto simp: look_append look_single split: option.splits)
  moreover have "distinct (map sr_ID db')" using row assms(2) by (simp add: look_None_iff)
  ultimately show ?thesis using row assms(3)
    by (auto simp: step_effect_def touched_def claims_by_def kept.R_refl split: option.splits if_splits)
qed

lemma step_effect_update:
  assumes "UpdateScheduledRun d ident ft now dbnow ureq db0 db = (r, evs, db')" "distinct (map sr_ID db)"
  shows "step_effect Written used db db'"
  using UpdateScheduledRun_cases [OF assms(1)]
proof (elim disjE exE conjE)
  assume "db' = db"
  then show ?thesis using assms(2) by (simp add: step_effect_kept kept.stays_refl claim.stays_refl)
next
  fix tenant user row
  assume "update_outcome d now dbnow tenant user row ureq db db'"
  then show ?thesis using assms(2) ids_outcome by (simp add: step_effect_kept kept_outcome claim_outcome)
qed

lemma step_effect_filter: "distinct (map sr_ID db) \<Longrightarrow> step_effect Written used db (filter P db)"
  by (simp add: step_effect_kept kept.stays_filter claim.stays_filter distinct_map_filter)

lemma step_effect_delete:
  assumes "DeleteScheduledRun d ident ft reqTenant reqUser sid db0 db = (u, evs, db')" "distinct (map sr_ID db)"
  shows "step_effect Written used db db'"
  using DeleteScheduledRun_cases [OF assms(1)] assms(2) step_effect_filter
  by (auto simp: step_effect_kept kept.stays_refl claim.stays_refl)

lemma step_effect_publish: "distinct (map sr_ID db) \<Longrightarrow> step_effect Written used db (repin tenant lineage version owner oldSHA newSHA db)"
  by (simp add: step_effect_kept repin_def ids_updates kept.stays_updates claim.stays_updates kept_def same_claim_def)

lemma ReportResult_Inr:
  assumes "ReportResult fail tenant sid ok summary db = Inr db'" "distinct (map sr_ID db)"
  obtains f r where "db' = updates (\<lambda>r. sees tenant sid r \<and> sr_ClaimedAt r \<noteq> None) f db" "look sid db = Some r" "sees tenant sid r" "sr_ClaimedAt r \<noteq> None"
    "\<forall>x. kept x (f x) \<and> sr_ClaimedAt (f x) = None"
proof -
  let ?P = "\<lambda>r. sees tenant sid r \<and> sr_ClaimedAt r \<noteq> None"
  have "list_ex ?P db" using assms(1) by (auto simp: ReportResult_def Let_def split: if_splits option.splits)
  then obtain r where r: "r \<in> set db" "?P r" by (auto simp: list_ex_iff)
  then have l: "look sid db = Some r" using look_distinct [OF assms(2)] by (auto simp: sees_def)
  let ?rec = "\<lambda>r. r\<lparr>sr_LastStatus := report_status ok, sr_LastSummary := summary, sr_ClaimedAt := None\<rparr>"
  let ?fin = "\<lambda>r. (?rec r)\<lparr>sr_State := if ok then ScheduledRunCompleted else ScheduledRunFailed, sr_NextFireAt := None\<rparr>"
  have "db' = updates ?P ?fin db \<or> db' = updates ?P ?rec db"
    using assms(1) by (simp add: ReportResult_def Let_def split: if_splits option.splits)
  moreover have "kept x (?fin x) \<and> sr_ClaimedAt (?fin x) = None" "kept x (?rec x) \<and> sr_ClaimedAt (?rec x) = None" for x
    by (simp_all add: kept_def)
  ultimately show ?thesis using that [of ?fin r] that [of ?rec r] l r(2) by blast
qed

lemma ReportScheduledRunResult_Inr:
  assumes "ReportScheduledRunResult d ident f1 f2 tenant sid ok summary db = (Inr (), evs, db')"
  shows "ReportResult f1 tenant sid ok summary db = Inr db'"
  using assms by (auto simp: ReportScheduledRunResult_def Let_def split: sum.splits if_splits sched_error.splits)

lemma step_effect_report:
  assumes "ReportScheduledRunResult d ident f1 f2 tenant sid ok summary db = (Inr (), evs, db')" "distinct (map sr_ID db)"
  shows "step_effect (Reported tenant sid) used db db'"
proof -
  obtain f r where f: "db' = updates (\<lambda>r. sees tenant sid r \<and> sr_ClaimedAt r \<noteq> None) f db" "look sid db = Some r" "sees tenant sid r" "sr_ClaimedAt r \<noteq> None"
    "\<forall>x. kept x (f x) \<and> sr_ClaimedAt (f x) = None"
    by (rule ReportResult_Inr [OF ReportScheduledRunResult_Inr [OF assms(1)] assms(2)])
  have i: "sr_ID (f x) = sr_ID x" for x using f(5) by (simp add: kept_def)
  have "look x db' = map_option (\<lambda>y. if x = sid then f y else y) (look x db)" for x
  proof (cases "look x db")
    case (Some y)
    have "sees tenant sid y \<and> sr_ClaimedAt y \<noteq> None \<longleftrightarrow> x = sid"
    proof (cases "x = sid")
      case True
      then have "y = r" using Some f(2) by simp
      then show ?thesis using True f(3,4) by simp
    next
      case False
      then show ?thesis using look_SomeD [OF Some] by (simp add: sees_def)
    qed
    then show ?thesis using Some i by (simp add: f(1) look_updates)
  qed (simp add: f(1) look_updates i)
  moreover have "f r \<noteq> r" using f(4,5) by metis
  ultimately show ?thesis using assms(2) f i
    by (auto simp: step_effect_def touched_def claims_by_def ids_updates kept.R_refl)
qed

lemma skip_reason_empty:
  assumes "skip_reason v now req s = []"
  shows "sr_RevokedAt s = None" "now < sr_DelegationExpiresAt s" "req \<longrightarrow> sr_Actor s \<noteq> None"
    "\<not> fst (UserState (cv_Rev v) (sr_TenantID s) (sr_Owner s))"
    "\<not> after_opt (snd (UserState (cv_Rev v) (sr_TenantID s) (sr_Owner s))) (sr_DelegatedAt s)"
    "sr_Actor s = Some a \<Longrightarrow> fst (AgentState (cv_Rev v) (sr_TenantID s) a) \<noteq> ''retired''"
    "sr_Actor s = Some a \<Longrightarrow> \<not> after_opt (snd (AgentState (cv_Rev v) (sr_TenantID s) a)) (sr_CreatedAt s)"
    "sr_Lineage s \<noteq> None \<longrightarrow> \<not> workflowPinChanged v s"
  using assms
  by (auto simp: skip_reason_def Let_def UserState_def AgentState_def actor_row_def after_opt_def split: if_splits option.splits prod.splits)

lemma abandon_row:
  assumes "look sid db = Some r"
  obtains x where "look sid (fail_abandoned tenant now db) = Some x" "kept r x" "sr_ClaimedAt x = sr_ClaimedAt r \<or> sr_ClaimedAt x = None \<and> claim_free now r"
proof (cases "abandoned tenant now r")
  case True
  then have "claim_free now r" by (auto simp: abandoned_def claim_free_def split: option.splits)
  then show ?thesis using that assms True by (simp add: fail_abandoned_look kept_def)
next
  case False
  then show ?thesis using that assms by (simp add: fail_abandoned_look kept.R_refl)
qed

lemma stays_look:
  assumes "stays R db db'" "map sr_ID db' = map sr_ID db" "look sid db = Some r"
  obtains r' where "look sid db' = Some r'" "R r r'"
proof -
  have "set (map sr_ID db') = set (map sr_ID db)" using assms(2) by simp
  then have "look sid db' \<noteq> None" using assms(3) look_None_iff [of sid db] look_None_iff [of sid db'] by auto
  then obtain r' where "look sid db' = Some r'" by blast
  moreover then obtain r0 where "look sid db = Some r0" "R r0 r'" using assms(1) unfolding stays_def by meson
  ultimately show ?thesis using that assms(3) by simp
qed

lemma step_effect_claim:
  assumes "ClaimDueScheduledRuns d v ident ft locked now dbnow tenant limit db = (Inr out, eff, db')" "distinct (map sr_ID db)"
  shows "step_effect (Handed tenant now dbnow (map du_Id out)) used db db'"
proof -
  obtain mode sel where m0: "td_Cfg (sd_Task d) tenant ''identity.obo'' = Inr mode" and m: "sel = select_due locked tenant now (claim_limit limit) (fail_abandoned tenant now db)"
    "loop_post d tenant now dbnow (map (\<lambda>s. (s, skip_reason v now (mode = ''enforce'') s)) sel)
       (foldl (claim_step (sd_Cron d) v now (mode = ''enforce'')) (fail_abandoned tenant now db) sel) out db'"
    by (rule ClaimDueScheduledRuns_Inr [OF assms])
  let ?db1 = "fail_abandoned tenant now db" and ?db2 = "foldl (claim_step (sd_Cron d) v now (mode = ''enforce'')) (fail_abandoned tenant now db) sel"
    and ?es = "map (\<lambda>s. (s, skip_reason v now (mode = ''enforce'') s)) sel"
  have ids: "map sr_ID db' = map sr_ID db" using m(2) by (simp add: loop_post_def claim_steps_ids ids_fail_abandoned)
  then have idset: "sr_ID ` set db' = sr_ID ` set db" by (metis list.set_map)
  have sel_free: "claim_free now r" if "sid \<in> sr_ID ` set sel" "look sid db = Some r" for sid r
    using selected [OF assms(2)] that m(1) by auto
  have row: "kept r r' \<and> claims_by (Handed tenant now dbnow (map du_Id out)) sid r r'" if l: "look sid db' = Some r'" "look sid db = Some r" for sid r r'
  proof -
    obtain x1 where x1: "look sid ?db1 = Some x1" "kept r x1" "sr_ClaimedAt x1 = sr_ClaimedAt r \<or> sr_ClaimedAt x1 = None \<and> claim_free now r"
      using abandon_row [OF l(2)] by metis
    obtain x2 where x2: "look sid ?db2 = Some x2" "kept x1 x2" using stays_look [OF claim_steps_kept claim_steps_ids x1(1)] .
    have "same_claim x1 x2" using stays_look [OF claim_steps_claim claim_steps_ids x1(1)] x2(1) by (metis option.inject)
    then have c2: "sr_ClaimedAt x2 = sr_ClaimedAt x1" by (simp add: same_claim_def)
    obtain r2 where r2: "look sid db' = Some r2" "untouched x2 r2" "sid \<in> du_Id ` set out \<longrightarrow> sr_ClaimedAt r2 = Some dbnow"
      "sid \<notin> du_Id ` set out \<longrightarrow> sr_ClaimedAt r2 \<in> {sr_ClaimedAt x2, None}" "sid \<notin> (sr_ID \<circ> fst) ` set ?es \<longrightarrow> r2 = x2"
      by (rule loop_postD [OF m(2) x2(1)])
    have k: "kept r r'" using x1(2) x2(2) r2(1,2) l(1) kept.R_trans by (metis option.inject untouched_def)
    have eids: "(sr_ID \<circ> fst) ` set ?es = sr_ID ` set sel" by (auto simp: image_image)
    show ?thesis
    proof (cases "sid \<in> du_Id ` set out")
      case True
      then obtain s actor grant where s: "(s, []) \<in> set ?es" "sid = sr_ID s" using m(2) unfolding loop_post_def by (metis (no_types, lifting) du_Id_due_run imageE)
      then have "s \<in> set sel" "skip_reason v now (mode = ''enforce'') s = []" by auto
      then have "s = r" "sr_RevokedAt s = None" "claim_free now s" using selected [OF assms(2)] m(1) l(2) s(2) skip_reason_empty(1) by auto
      then show ?thesis using True k r2 l(1) by (simp add: claims_by_def)
    next
      case False
      then show ?thesis using k r2 l eids x1(3) c2 sel_free [of sid r] by (auto simp: claims_by_def)
    qed
  qed
  have "look sid db \<noteq> None \<and> look sid db' \<noteq> None" if "sid \<in> du_Id ` set out" for sid
  proof -
    have "sid \<in> (sr_ID \<circ> fst) ` set ?es" using loop_post_ids [OF m(2)] that by blast
    then obtain s where "s \<in> set sel" "sid = sr_ID s" by auto
    then have "look sid db = Some s" using selected(1) [OF assms(2)] m(1) by simp
    then show ?thesis using look_None_iff [of sid db] look_None_iff [of sid db'] idset by auto
  qed
  then have "\<forall>sid \<in> touched (Handed tenant now dbnow (map du_Id out)). look sid db \<noteq> None \<and> look sid db' \<noteq> None"
    by (simp add: touched_def)
  moreover have "look sid db = None \<Longrightarrow> look sid db' = None" for sid using idset by (simp add: look_None_iff)
  ultimately show ?thesis using row assms(2) ids unfolding step_effect_def by (metis (no_types, lifting) option.case_eq_if option.collapse option.discI)
qed

section \<open>Properties of histories\<close>

lemma hist_distinct: "sched_hist h \<Longrightarrow> h \<noteq> [] \<and> distinct (map sr_ID (snd (hd h)))"
proof (induction rule: sched_hist.induct)
  case (create l db h newID d ident f1 f2 now dbnow req r evs db')
  then show ?case using step_effect_create [OF create.hyps(3), of "{}"] by (simp add: step_effect_def)
next
  case (update l db h db0 d ident ft now dbnow ureq r evs db')
  then show ?case using step_effect_update [OF update.hyps(3), of "{}"] by (simp add: step_effect_def)
next
  case (delete l db h db0 d ident ft reqTenant reqUser sid u evs db')
  then show ?case using step_effect_delete [OF delete.hyps(3), of "{}"] by (simp add: step_effect_def)
next
  case (claim l db h d v ident cft locked now dbnow tenant limit out eff db')
  then show ?case using step_effect_claim [OF claim.hyps(2), of "{}"] by (simp add: step_effect_def)
next
  case (report l db h d ident f1 f2 tenant sid ok summary evs db')
  then show ?case using step_effect_report [OF report.hyps(2), of "{}"] by (simp add: step_effect_def)
next
  case (publish l db h tenant lineage version owner oldSHA newSHA)
  then show ?case using step_effect_publish [of db "{}"] by (simp add: step_effect_def)
next
  case (cascade l db h agent)
  then show ?case using step_effect_filter [of db "{}"] by (simp add: step_effect_def cascade_agent_def)
qed simp

lemma hist_step_effect:
  assumes "sched_hist ((l', db') # (l, db) # h)"
  shows "step_effect l' (used_ids ((l, db) # h)) db db'"
proof -
  have "distinct (map sr_ID db)" using hist_distinct [OF sched_hist_suffix [OF assms]] by simp
  with assms show ?thesis
    by (auto elim!: sched_histE simp: cascade_agent_def intro: step_effect_create step_effect_update step_effect_delete step_effect_claim
        step_effect_report step_effect_publish step_effect_filter)
qed

lemma look_used: "look sid db = Some r \<Longrightarrow> (l, db) \<in> set h \<Longrightarrow> sid \<in> used_ids h"
  using look_SomeD [of sid db r] by (force simp: used_ids_def)

text \<open>A property of the row \<open>sid\<close> that the steps of a history keep holds as long as the row exists.\<close>

lemma hist_rows:
  assumes "sched_hist (h2 @ (l, db) # h1)" "look sid db = Some r0" "Q r0"
    and "\<And>l' r r'. l' \<in> fst ` set h2 \<Longrightarrow> Q r \<Longrightarrow> kept r r' \<Longrightarrow> claims_by l' sid r r' \<Longrightarrow> Q r'"
  shows "(\<forall>r'. look sid (snd (hd (h2 @ [(l, db)]))) = Some r' \<longrightarrow> Q r')
    \<and> (\<forall>l' \<in> fst ` set h2. sid \<in> touched l' \<longrightarrow> (\<exists>r r'. Q r \<and> kept r r' \<and> claims_by l' sid r r'))"
  using assms
proof (induction h2)
  case Nil
  then show ?case by simp
next
  case (Cons x h2)
  obtain l' db' where x: "x = (l', db')" by (cases x)
  obtain lp dbp hp where p: "h2 @ (l, db) # h1 = (lp, dbp) # hp" by (cases h2) auto
  have hd: "snd (hd (h2 @ [(l, db)])) = dbp" using p by (cases h2) auto
  have eff: "step_effect l' (used_ids ((lp, dbp) # hp)) dbp db'"
    using hist_step_effect [of l' db' lp dbp hp] Cons.prems(1) x p by simp
  have IH: "(\<forall>r'. look sid dbp = Some r' \<longrightarrow> Q r')
      \<and> (\<forall>l' \<in> fst ` set h2. sid \<in> touched l' \<longrightarrow> (\<exists>r r'. Q r \<and> kept r r' \<and> claims_by l' sid r r'))"
    using Cons.IH Cons.prems sched_hist_suffix [of x "(lp, dbp)" hp] p hd by (metis append_Cons image_insert insert_iff list.simps(15))
  have "(l, db) \<in> set ((lp, dbp) # hp)" using p by (metis in_set_conv_decomp)
  then have used: "sid \<in> used_ids ((lp, dbp) # hp)" using Cons.prems(2) look_used by blast
  have step: "\<exists>r. look sid dbp = Some r \<and> kept r r' \<and> claims_by l' sid r r'" if "look sid db' = Some r'" for r'
    using step_effect_new(1) [OF eff _ that] step_effect_rows [OF eff _ that] used by (cases "look sid dbp") auto
  have "Q r'" if q: "look sid db' = Some r'" for r'
  proof -
    obtain r where "look sid dbp = Some r" "kept r r'" "claims_by l' sid r r'" using step q by blast
    then show ?thesis using Cons.prems(4) [of l' r r'] IH x by simp
  qed
  moreover have "\<exists>r r'. Q r \<and> kept r r' \<and> claims_by l' sid r r'" if t: "sid \<in> touched l'"
  proof -
    from step_effect_touched [OF eff t] obtain r r' where "look sid dbp = Some r" "kept r r'" "claims_by l' sid r r'" .
    then show ?thesis using IH by blast
  qed
  ultimately show ?case using IH x by simp
qed

definition handed_ids :: "sched_label \<Rightarrow> string set" where
  "handed_ids l = (case l of Handed _ _ _ ids \<Rightarrow> set ids | _ \<Rightarrow> {})"

lemma handed_touched: "handed_ids l \<subseteq> touched l"
  by (simp add: handed_ids_def touched_def split: sched_label.splits)


lemma hist_handed:
  assumes "sched_hist ((Handed tenant now c ids, db) # h)" "sid \<in> set ids"
  shows "\<exists>r. look sid db = Some r \<and> sr_ClaimedAt r = Some c"
proof -
  obtain l dbp h' where h: "h = (l, dbp) # h'" using assms(1) by (cases h) (auto elim: sched_hist.cases)
  have eff: "step_effect (Handed tenant now c ids) (used_ids h) dbp db" using hist_step_effect assms(1) h by simp
  have "sid \<in> touched (Handed tenant now c ids)" using assms(2) by simp
  from step_effect_touched [OF eff this] obtain rp r where "look sid db = Some r" "claims_by (Handed tenant now c ids) sid rp r" .
  then show ?thesis using assms(2) by (simp add: claims_by_def)
qed


section \<open>Reports\<close>

definition handouts :: "string \<Rightarrow> history \<Rightarrow> nat" where
  "handouts sid h = length (filter (\<lambda>x. sid \<in> handed_ids (fst x)) h)"

definition reports :: "string \<Rightarrow> history \<Rightarrow> nat" where
  "reports sid h = length (filter (\<lambda>x. \<exists>t. fst x = Reported t sid) h)"

definition out_now :: "string \<Rightarrow> SchedDb \<Rightarrow> nat" where
  "out_now sid db = (case look sid db of None \<Rightarrow> 0 | Some r \<Rightarrow> if sr_ClaimedAt r = None then 0 else 1)"

lemma out_now_le: "out_now sid db \<le> 1"
  by (simp add: out_now_def split: option.splits)

lemma out_now_mono:
  assumes "step_effect l used db db'" "\<And>r r'. claims_by l sid r r' \<Longrightarrow> sr_ClaimedAt r' = None \<or> sr_ClaimedAt r' = sr_ClaimedAt r"
  shows "out_now sid db' \<le> out_now sid db"
proof (cases "look sid db'")
  case (Some r')
  show ?thesis
  proof (cases "look sid db")
    case None
    then show ?thesis using step_effect_new(2) [OF assms(1) None Some] Some by (simp add: out_now_def)
  next
    case (Some r)
    then have "claims_by l sid r r'" using step_effect_rows [OF assms(1) Some \<open>look sid db' = Some r'\<close>] by simp
    then show ?thesis using assms(2) Some \<open>look sid db' = Some r'\<close> by (fastforce simp: out_now_def)
  qed
qed (simp add: out_now_def)

text \<open>An open hand-out has not been reported yet.\<close>

lemma step_counts:
  assumes "step_effect l used db db'"
  shows "(if \<exists>t. l = Reported t sid then 1 else 0) + out_now sid db' \<le> (if sid \<in> handed_ids l then 1 else 0) + out_now sid db"
proof (cases "sid \<in> touched l")
  case False
  then have "out_now sid db' \<le> out_now sid db"
    by (intro out_now_mono [OF assms]) (auto simp: claims_by_def split: sched_label.splits)
  then show ?thesis using False by auto
next
  case True
  show ?thesis
  proof (cases l)
    case (Reported t s)
    from step_effect_touched [OF assms True] obtain r r' where "look sid db = Some r" "look sid db' = Some r'" "kept r r'" "claims_by l sid r r'" .
    then show ?thesis using Reported True by (simp add: out_now_def handed_ids_def claims_by_def)
  next
    case (Handed t n c ids)
    then show ?thesis using True out_now_le [of sid db'] by (simp add: handed_ids_def)
  qed (use True in simp)
qed

lemma hist_counts: "sched_hist h \<Longrightarrow> reports sid h + out_now sid (snd (hd h)) \<le> handouts sid h"
proof (induction h)
  case Nil
  then show ?case using sched_hist_nonempty by simp
next
  case (Cons x h)
  show ?case
  proof (cases h)
    case Nil
    then have "x = (Written, [])" using Cons.prems by (auto elim: sched_hist.cases)
    then show ?thesis using Nil by (simp add: reports_def handouts_def handed_ids_def out_now_def)
  next
    case (Cons y h')
    obtain l' db' l db where xy: "x = (l', db')" "y = (l, db)" by (cases x; cases y)
    have eff: "step_effect l' (used_ids h) db db'" using hist_step_effect Cons.prems Cons xy by simp
    have "reports sid h + out_now sid db \<le> handouts sid h" using Cons.IH Cons.prems Cons xy sched_hist_suffix by simp
    moreover have "reports sid (x # h) = (if \<exists>t. l' = Reported t sid then 1 else 0) + reports sid h"
      "handouts sid (x # h) = (if sid \<in> handed_ids l' then 1 else 0) + handouts sid h"
      using xy by (simp_all add: reports_def handouts_def)
    ultimately show ?thesis using step_counts [OF eff, of sid] xy by simp
  qed
qed

text \<open>
  C17.  Results are reported only for runs that are out: in every history the accepted reports of a run
  are at most as many as its hand-outs, so no result is recorded for a run that was not handed to
  the gateway, and none twice for one hand-out.
\<close>

theorem reports_follow_handouts:
  assumes "sched_hist h"
  shows "reports sid h \<le> handouts sid h"
  using hist_counts [OF assms, of sid] by simp

section \<open>Who changes what a run does\<close>

text \<open>
  C19.  What a scheduled run does is its owner's to decide: when an update changes the prompt, the
  timing, the approved tools, the agent, the pinned workflow version or the term of the delegation,
  the caller is the verified owner of the run and holds the scheduler skill, even when the row it
  checked was read in an earlier state than the one it writes to.
\<close>

theorem only_owner_rewrites:
  assumes "sched_hist (h2 @ (l, db0) # h1)" "db = snd (hd (h2 @ [(l, db0)]))"
    and "UpdateScheduledRun d ident ft now dbnow req db0 db = (res, evs, db')"
    and "look sid db = Some r" "look sid db' = Some r'" "\<not> same_work r r'"
  shows "\<exists>tenant. callerIdentity (td_uuid_ok (sd_Task d)) ident (ur_TenantId req) (ur_UserId req) = Inr (tenant, sr_Owner r)
    \<and> requireSchedulerSkill d (sr_Owner r) = Inr () \<and> sid = ur_Id req \<and> sr_TenantID r = tenant"
proof -
  have ne: "db' \<noteq> db" using assms(4-6) work.R_refl by auto
  obtain tenant user row where u: "load_for_change d ident (nf_load ft) (ur_TenantId req) (ur_UserId req) (ur_Id req) db0 = Inr (tenant, user, row)"
    "update_outcome d now dbnow tenant user row req db db'"
    using UpdateScheduledRun_cases [OF assms(3)] ne by blast
  note lc = load_for_change_Inr [OF u(1)]
  have "\<not> stays same_work db db'" using assms(4-6) unfolding stays_def by (metis option.inject)
  then have own: "sr_Owner row = user" using work_outcome [OF u(2)] by blast
  have upd: "requireSchedulerSkill d user = Inr () \<and> sid = ur_Id req"
    using u(2) ne assms(4-6) work.R_refl own unfolding update_outcome_def
    by (auto simp: RevokeDelegation_def SetState_def ExtendDelegation_def sched_Update_def exec_update_Inr look_updates sees_def same_work_def
        split: if_splits dest: look_SomeD)
  have dist0: "distinct (map sr_ID db0)" using hist_distinct [OF sched_hist_drop [OF assms(1)]] by simp
  have row: "look sid db0 = Some row" "sr_TenantID row = tenant" using sched_Get_look [OF dist0 lc(2)] upd by auto
  let ?Q = "\<lambda>x. sr_Owner x = sr_Owner row \<and> sr_TenantID x = sr_TenantID row"
  have "?Q x'" if "?Q x" "kept x x'" for x x' using that by (simp add: kept_def)
  then have "?Q r" using hist_rows [OF assms(1) row(1), of ?Q] assms(2,4) by blast
  then show ?thesis using lc(1) own upd row by auto
qed

section \<open>What is handed out\<close>

definition permitted_actor :: "SchedDeps \<Rightarrow> string \<Rightarrow> ScheduledRun \<Rightarrow> string \<Rightarrow> bool" where
  "permitted_actor d tenant r actor \<longleftrightarrow>
     (sr_Actor r = None \<and> rd_Agents (sd_Run d) = None \<and> actor = [])
     \<or> (sr_Actor r \<in> {None, Some actor} \<and> mayOperateActor (sd_Run d) (sr_Owner r) actor \<and> run_refusal (sd_Run d) tenant actor = Inr [])"

text \<open>The agent table answers a lookup by id with a row of that id.\<close>

definition agents_keyed :: "SchedDeps \<Rightarrow> bool" where
  "agents_keyed d \<longleftrightarrow> (\<forall>st. rd_Agents (sd_Run d) = Some st
     \<longrightarrow> (\<forall>tenant user pref row. as_UserDefault st tenant user = Inr pref \<and> as_Get st tenant pref = Inr row \<longrightarrow> ag_ID row = pref))"

lemma claim_actor_permitted:
  assumes "fst (claim_actor d tenant r) = PickActor actor" "agents_keyed d"
  shows "permitted_actor d tenant r actor"
proof (cases "sr_Actor r")
  case (Some a)
  then show ?thesis using assms(1) by (auto simp: claim_actor_def permitted_actor_def split: if_splits sum.splits)
next
  case None
  show ?thesis
  proof (cases "rd_Agents (sd_Run d)")
    case (Some st)
    obtain res eff where run: "runAgent (sd_Run d) st tenant (sr_Owner r) [] = (res, eff)" by (cases "runAgent (sd_Run d) st tenant (sr_Owner r) []")
    then obtain a where a: "res = RunOk a" "actor = ag_ID a"
      using assms(1) None Some by (cases res) (auto simp: claim_actor_def)
    obtain aid where "aid = ag_ID a \<or> as_UserDefault st tenant (sr_Owner r) = Inr aid \<and> as_Get st tenant aid = Inr a"
      "mayOperateActor (sd_Run d) (sr_Owner r) aid" "run_refusal (sd_Run d) tenant aid = Inr []"
      using runAgent_permitted [of "sd_Run d" st tenant "sr_Owner r" "[]" a] run a by auto
    then have "mayOperateActor (sd_Run d) (sr_Owner r) actor" "run_refusal (sd_Run d) tenant actor = Inr []" using assms(2) Some a(2) unfolding agents_keyed_def by blast+
    then show ?thesis using None by (simp add: permitted_actor_def)
  qed (use None assms(1) in \<open>simp add: claim_actor_def permitted_actor_def\<close>)
qed

text \<open>
  C15.  Every run the gateway is handed was due, ACTIVE, not out, under a delegation that is neither
  revoked nor expired, of an owner who is not blocked, has not revoked their sessions since they
  delegated and holds the scheduler skill; its workflow pin is unchanged; it acts as the agent of the
  schedule (or the owner's default agent) that the owner may run and that is active; the grant that
  comes with it names exactly this tenant, owner, agent and run; and the hand-out is stamped.
\<close>

theorem handed_out_sound:
  assumes "sched_hist ((l, db) # h)"
    and "ClaimDueScheduledRuns d v ident ft locked now dbnow tenant limit db = (Inr out, eff, db')" "du \<in> set out" "agents_keyed d"
  shows "\<exists>r actor. look (du_Id du) db = Some r \<and> due tenant now r \<and> delegationLive r now
    \<and> \<not> fst (UserState (cv_Rev v) tenant (sr_Owner r)) \<and> \<not> after_opt (snd (UserState (cv_Rev v) tenant (sr_Owner r))) (sr_DelegatedAt r)
    \<and> schedulerSkillGranted d (sr_Owner r) = Inr True \<and> (sr_Lineage r \<noteq> None \<longrightarrow> \<not> workflowPinChanged v r)
    \<and> permitted_actor d tenant r actor
    \<and> Mint (td_Mac (sd_Task d)) now (td_GrantKey (sd_Task d)) (owner_grant tenant r actor) (td_GrantTTL (sd_Task d)) = Inr (du_OwnerGrant du)
    \<and> du = due_run r actor (du_OwnerGrant du) \<and> map_option sr_ClaimedAt (look (du_Id du) db') = Some (Some dbnow)"
proof -
  have dist: "distinct (map sr_ID db)" using hist_distinct [OF assms(1)] by simp
  obtain mode sel where "td_Cfg (sd_Task d) tenant ''identity.obo'' = Inr mode" and sel: "sel = select_due locked tenant now (claim_limit limit) (fail_abandoned tenant now db)"
    and lp: "loop_post d tenant now dbnow (map (\<lambda>s. (s, skip_reason v now (mode = ''enforce'') s)) sel)
       (foldl (claim_step (sd_Cron d) v now (mode = ''enforce'')) (fail_abandoned tenant now db) sel) out db'"
    by (rule ClaimDueScheduledRuns_Inr [OF assms(2) dist])
  obtain r actor grant where r: "(r, []) \<in> set (map (\<lambda>s. (s, skip_reason v now (mode = ''enforce'') s)) sel)" "handed_ok d tenant now r actor grant" "du = due_run r actor grant"
    using lp assms(3) unfolding loop_post_def by meson
  have rs: "r \<in> set sel" "skip_reason v now (mode = ''enforce'') r = []" using r(1) by auto
  note s = selected [OF dist rs(1) [unfolded sel]] and sk = skip_reason_empty [OF rs(2)]
  have "step_effect (Handed tenant now dbnow (map du_Id out)) {} db db'" by (rule step_effect_claim [OF assms(2) dist])
  moreover have "du_Id du \<in> touched (Handed tenant now dbnow (map du_Id out))" using assms(3) by simp
  ultimately obtain x x' where "look (du_Id du) db' = Some x'" "claims_by (Handed tenant now dbnow (map du_Id out)) (du_Id du) x x'"
    by (rule step_effect_touched)
  then have "map_option sr_ClaimedAt (look (du_Id du) db') = Some (Some dbnow)" using assms(3) by (simp add: claims_by_def)
  moreover have "permitted_actor d tenant r actor" using claim_actor_permitted [of d tenant r actor] r(2) assms(4) by (auto simp: handed_ok_def)
  moreover have "delegationLive r now" using sk(1,2) by (simp add: delegationLive_def)
  moreover have "du_Id du = sr_ID r" "du_OwnerGrant du = grant" using r(3) by (simp_all add: due_run_def)
  ultimately show ?thesis using s sk(4,5,8) r(2,3) unfolding handed_ok_def by (intro exI [of _ r] exI [of _ actor]) simp
qed

section \<open>Well-formed rows\<close>

definition row_wf :: "ScheduledRun \<Rightarrow> bool" where
  "row_wf r \<longleftrightarrow> (sr_Prompt r \<noteq> []) = (sr_Lineage r = None) \<and> length (sr_Prompt r) \<le> maxSchedulePromptLen
     \<and> length (sr_ApprovedTools r) \<le> maxApprovedTools \<and> (sr_Kind r = ScheduleKindOnce \<longrightarrow> sr_CronExpr r = [])
     \<and> (sr_Lineage r = None \<longrightarrow> sr_WfVersion r = None \<and> sr_WfSHA r = []) \<and> (sr_Lineage r \<noteq> None \<longrightarrow> sr_ApprovedTools r = [] \<and> sr_WfVersion r \<noteq> None)
     \<and> (sr_RevokedAt r = None) = (sr_RevokedBy r = None) \<and> 0 \<le> sr_RunCount r"

definition keeps_wf :: "ScheduledRun \<Rightarrow> ScheduledRun \<Rightarrow> bool" where
  "keeps_wf r r' \<longleftrightarrow> (row_wf r \<longrightarrow> row_wf r')"

interpretation wf: row_rel keeps_wf
  by unfold_locales (auto simp: keeps_wf_def)

lemma untouched_wf: "untouched r r' \<Longrightarrow> keeps_wf r r'"
  by (simp add: untouched_defs keeps_wf_def row_wf_def)

lemma claim_write_wf: "keeps_wf r (claim_write cron v now req s r)"
  by (auto simp: keeps_wf_def row_wf_def claim_write_def Let_def split: option.splits ScheduleKind.splits)

lemma wf_claim:
  assumes "ClaimDueScheduledRuns d v ident ft locked now dbnow tenant limit db = (Inr out, eff, db')" "distinct (map sr_ID db)"
  shows "stays keeps_wf db db'"
proof -
  obtain mode sel where "td_Cfg (sd_Task d) tenant ''identity.obo'' = Inr mode" and "sel = select_due locked tenant now (claim_limit limit) (fail_abandoned tenant now db)"
    and lp: "loop_post d tenant now dbnow (map (\<lambda>s. (s, skip_reason v now (mode = ''enforce'') s)) sel)
       (foldl (claim_step (sd_Cron d) v now (mode = ''enforce'')) (fail_abandoned tenant now db) sel) out db'"
    by (rule ClaimDueScheduledRuns_Inr [OF assms])
  let ?db1 = "fail_abandoned tenant now db" and ?db2 = "foldl (claim_step (sd_Cron d) v now (mode = ''enforce'')) (fail_abandoned tenant now db) sel"
  have "stays keeps_wf db ?db1" unfolding fail_abandoned_def by (rule wf.stays_updates) (simp_all add: keeps_wf_def row_wf_def)
  moreover have "stays keeps_wf ?db1 ?db2"
    by (rule wf.stays_foldl) (simp add: claim_step_def wf.stays_updates claim_write_wf)
  moreover have "stays keeps_wf ?db2 db'"
    unfolding stays_def
  proof (intro allI impI)
    fix sid r' assume r': "look sid db' = Some r'"
    have "map sr_ID db' = map sr_ID ?db2" using lp unfolding loop_post_def by blast
    then have "sr_ID ` set db' = sr_ID ` set ?db2" by (metis list.set_map)
    then obtain r where r: "look sid ?db2 = Some r" using r' look_None_iff [of sid ?db2] look_None_iff [of sid db'] by (cases "look sid ?db2") auto
    from loop_postD [OF lp r] obtain r2 where "look sid db' = Some r2" "untouched r r2" .
    then show "\<exists>r. look sid ?db2 = Some r \<and> keeps_wf r r'" using r r' untouched_wf by auto
  qed
  ultimately show ?thesis using wf.stays_trans by blast
qed

lemma wf_report:
  assumes "ReportResult fail tenant sid ok summary db = Inr db'"
  shows "stays keeps_wf db db'"
proof -
  let ?P = "\<lambda>r. sees tenant sid r \<and> sr_ClaimedAt r \<noteq> None"
  let ?rec = "\<lambda>r. r\<lparr>sr_LastStatus := report_status ok, sr_LastSummary := summary, sr_ClaimedAt := None\<rparr>"
  let ?fin = "\<lambda>r. (?rec r)\<lparr>sr_State := if ok then ScheduledRunCompleted else ScheduledRunFailed, sr_NextFireAt := None\<rparr>"
  have "db' = updates ?P ?fin db \<or> db' = updates ?P ?rec db"
    using assms by (simp add: ReportResult_def Let_def split: if_splits option.splits)
  moreover have "stays keeps_wf db (updates ?P ?fin db)" "stays keeps_wf db (updates ?P ?rec db)"
    by (rule wf.stays_updates; simp add: keeps_wf_def row_wf_def)+
  ultimately show ?thesis by blast
qed

text \<open>What validation leaves of a definition.\<close>

lemma validateScheduleTiming_kind:
  assumes "validateScheduleTiming d de now = Inr (kind, cron, next)"
  shows "kind = ScheduleKindOnce \<longrightarrow> cron = []"
  using assms by (auto simp: validateScheduleTiming_def bindE_eq_Inr split: option.splits ScheduleKind.splits if_splits)

lemma validateScheduleDef_ok:
  assumes "validateScheduleDef d de now = Inr timing"
  shows "validateScheduleTiming d de now = Inr timing" "TrimSpace (de_Prompt de) \<noteq> []" "length (TrimSpace (de_Prompt de)) \<le> maxSchedulePromptLen"
    "length (de_Tools de) \<le> maxApprovedTools"
  using assms by (auto simp: validateScheduleDef_def Let_def split: if_splits)

lemma edit_wf:
  assumes "validate_edit d now tenant user row de actor = Inr s"
  shows "length (sr_Prompt s) \<le> maxSchedulePromptLen" "length (sr_ApprovedTools s) \<le> maxApprovedTools"
    "sr_Kind s = ScheduleKindOnce \<longrightarrow> sr_CronExpr s = []" "(sr_Prompt s \<noteq> []) = (sr_Lineage row = None)"
    "sr_Lineage row = None \<longrightarrow> sr_WfVersion s = None \<and> sr_WfSHA s = []" "sr_Lineage row \<noteq> None \<longrightarrow> sr_ApprovedTools s = [] \<and> sr_WfVersion s \<noteq> None"
proof -
  have "length (sr_Prompt s) \<le> maxSchedulePromptLen \<and> length (sr_ApprovedTools s) \<le> maxApprovedTools
    \<and> (sr_Kind s = ScheduleKindOnce \<longrightarrow> sr_CronExpr s = []) \<and> (sr_Prompt s \<noteq> []) = (sr_Lineage row = None)
    \<and> (sr_Lineage row = None \<longrightarrow> sr_WfVersion s = None \<and> sr_WfSHA s = []) \<and> (sr_Lineage row \<noteq> None \<longrightarrow> sr_ApprovedTools s = [] \<and> sr_WfVersion s \<noteq> None)"
  proof (cases "sr_Lineage row")
    case None
    then obtain timing where t: "validateScheduleDef d de now = Inr timing" "s = edited row (TrimSpace (de_Prompt de)) timing (de_Tools de) actor None"
      using assms by (auto simp: validate_edit_def bindE_eq_Inr split: if_splits)
    obtain kind cron nx where k: "timing = (kind, cron, nx)" by (cases timing)
    show ?thesis using validateScheduleDef_ok [OF t(1)] validateScheduleTiming_kind [of d de now kind cron nx] t(2) k None by (simp add: edited_def)
  next
    case (Some lin)
    then obtain timing pin where t: "validateScheduleTiming d de now = Inr timing" "s = edited row [] timing [] actor (Some pin)"
      using assms by (auto simp: validate_edit_def bindE_eq_Inr split: if_splits)
    obtain kind cron nx where k: "timing = (kind, cron, nx)" by (cases timing)
    show ?thesis using validateScheduleTiming_kind [of d de now kind cron nx] t k Some by (simp add: edited_def)
  qed
  then show "length (sr_Prompt s) \<le> maxSchedulePromptLen" "length (sr_ApprovedTools s) \<le> maxApprovedTools"
    "sr_Kind s = ScheduleKindOnce \<longrightarrow> sr_CronExpr s = []" "(sr_Prompt s \<noteq> []) = (sr_Lineage row = None)"
    "sr_Lineage row = None \<longrightarrow> sr_WfVersion s = None \<and> sr_WfSHA s = []" "sr_Lineage row \<noteq> None \<longrightarrow> sr_ApprovedTools s = [] \<and> sr_WfVersion s \<noteq> None"
    by blast+
qed

lemma wf_outcome:
  assumes "update_outcome d now dbnow tenant user row req db db'" "distinct (map sr_ID db)" "\<And>r. look (ur_Id req) db = Some r \<Longrightarrow> sr_Lineage r = sr_Lineage row"
  shows "stays keeps_wf db db'"
  using assms(1) unfolding update_outcome_def
proof (elim disjE exE conjE)
  show "db' = db \<Longrightarrow> ?thesis" by (simp add: wf.stays_refl)
next
  fix actor s
  assume s: "validate_edit d now tenant user row (ur_Def req) actor = Inr s" "sched_Update False tenant (ur_Id req) s db = Inr db'"
  let ?f = "\<lambda>r. r\<lparr>sr_Prompt := sr_Prompt s, sr_Kind := sr_Kind s, sr_CronExpr := nullableCron (sr_Kind s) (sr_CronExpr s), sr_NextFireAt := sr_NextFireAt s,
     sr_ApprovedTools := sr_ApprovedTools s, sr_Actor := sr_Actor s, sr_WfVersion := sr_WfVersion s, sr_WfSHA := sr_WfSHA s\<rparr>"
  have x: "exec_update False (\<lambda>r. sees tenant (ur_Id req) r \<and> live_state (sr_State r)) ?f db = Inr db'"
    using s(2) by (simp add: sched_Update_def split: if_splits)
  have "keeps_wf r (?f r)" if "r \<in> set db" "sees tenant (ur_Id req) r \<and> live_state (sr_State r)" for r
  proof -
    have "sr_Lineage r = sr_Lineage row" using assms(3) look_distinct [OF assms(2) that(1)] that(2) by (simp add: sees_def)
    then show ?thesis using edit_wf [OF s(1)] by (simp add: keeps_wf_def row_wf_def nullableCron_def)
  qed
  then show ?thesis using wf.stays_exec [OF x] by simp
qed (auto simp: RevokeDelegation_def SetState_def ExtendDelegation_def keeps_wf_def row_wf_def split: option.splits intro!: wf.stays_exec)

lemma stays_wf:
  assumes "stays keeps_wf db db'" "\<forall>r \<in> set db. row_wf r" "distinct (map sr_ID db')" "r' \<in> set db'"
  shows "row_wf r'"
proof -
  have "look (sr_ID r') db' = Some r'" using look_distinct assms(3,4) by blast
  then obtain r where "look (sr_ID r') db = Some r" "keeps_wf r r'" using assms(1) unfolding stays_def by blast
  then show ?thesis using assms(2) look_SomeD by (auto simp: keeps_wf_def)
qed

lemma create_wf:
  assumes "validate_new d tenant user de now = Inr (timing, wfl)" "sched_Create False dbnow (new_run sid t user de timing actor wfl) e db = Inr db'" "\<forall>r \<in> set db. row_wf r"
  shows "\<forall>r \<in> set db'. row_wf r"
proof -
  obtain kind cron nx where k: "timing = (kind, cron, nx)" by (cases timing)
  have v: "if wfl = None then validateScheduleDef d de now = Inr timing
    else TrimSpace (de_Prompt de) = [] \<and> de_Tools de = [] \<and> validateScheduleTiming d de now = Inr timing"
    using assms(1) by (auto simp: validate_new_def validateWorkflowScheduleDef_def bindE_eq_Inr split: if_splits option.splits)
  have "kind = ScheduleKindOnce \<longrightarrow> cron = []"
    using v validateScheduleDef_ok(1) validateScheduleTiming_kind k by (metis (full_types))
  then show ?thesis using assms(2,3) v validateScheduleDef_ok(2-4) [of d de now timing]
    by (auto simp: sched_Create_def new_run_def k row_wf_def nullableCron_def split: if_splits option.splits prod.splits)
qed

text \<open>
  C20.  Every row of every state the scheduler reaches is well formed: it has a prompt or a workflow and
  not both, the prompt and the list of approved tools are within their bounds, a one-off run has no
  cron expression, a workflow run has a pinned version and no approved tools, a prompt run has no pin,
  and the time of a revocation goes with its author.
\<close>

theorem scheduled_rows_well_formed:
  assumes "sched_hist h" "r \<in> set (snd (hd h))"
  shows "row_wf r"
proof -
  have "\<forall>r \<in> set (snd (hd h)). row_wf r" using assms(1)
  proof (induction rule: sched_hist.induct)
    case (create l db h newID d ident f1 f2 now dbnow req r evs db')
    then show ?case using CreateScheduledRun_cases [OF create.hyps(3)] create_wf by (fastforce split: if_splits)
  next
    case (update l db h db0 d ident ft now dbnow ureq r evs db')
    have dist: "distinct (map sr_ID db)" using hist_distinct [OF update.hyps(1)] by simp
    consider "db' = db" | (upd) tenant user row where "load_for_change d ident (nf_load ft) (ur_TenantId ureq) (ur_UserId ureq) (ur_Id ureq) db0 = Inr (tenant, user, row)"
      "update_outcome d now dbnow tenant user row ureq db db'" using UpdateScheduledRun_cases [OF update.hyps(3)] by blast
    then show ?case
    proof cases
      case upd
      obtain l0 where "(l0, db0) \<in> set ((l, db) # h)" using update.hyps(2) by force
      then obtain h2 h1 where sp: "(l, db) # h = h2 @ (l0, db0) # h1" by (meson split_list)
      have hd: "db = snd (hd (h2 @ [(l0, db0)]))" using sp by (cases h2) auto
      have h: "sched_hist (h2 @ (l0, db0) # h1)" using update.hyps(1) sp by simp
      have "look (ur_Id ureq) db0 = Some row"
        using sched_Get_look(1) [OF _ load_for_change_Inr(2) [OF upd(1)]] hist_distinct [OF sched_hist_drop [OF h]] by simp
      from hist_rows [OF h this, of "\<lambda>x. sr_Lineage x = sr_Lineage row"]
      have "sr_Lineage x = sr_Lineage row" if "look (ur_Id ureq) db = Some x" for x using hd that by (simp add: kept_def)
      from wf_outcome [OF upd(2) dist this] have "stays keeps_wf db db'" .
      then show ?thesis using stays_wf [of db db'] update.IH ids_outcome [OF upd(2)] dist by auto
    qed (use update.IH in simp)
  next
    case (delete l db h db0 d ident ft reqTenant reqUser sid u evs db')
    then show ?case using DeleteScheduledRun_cases [OF delete.hyps(3)] by auto
  next
    case (claim l db h d v ident cft locked now dbnow tenant limit out eff db')
    have dist: "distinct (map sr_ID db)" using hist_distinct [OF claim.hyps(1)] by simp
    have "distinct (map sr_ID db')" using step_effect_claim [OF claim.hyps(2) dist, of "{}"] by (simp add: step_effect_def)
    then show ?case using stays_wf [OF wf_claim [OF claim.hyps(2) dist]] claim.IH by simp
  next
    case (report l db h d ident f1 f2 tenant sid ok summary evs db')
    have dist: "distinct (map sr_ID db)" using hist_distinct [OF report.hyps(1)] by simp
    have "distinct (map sr_ID db')" using step_effect_report [OF report.hyps(2) dist, of "{}"] by (simp add: step_effect_def)
    then show ?case using stays_wf [OF wf_report [OF ReportScheduledRunResult_Inr [OF report.hyps(2)]]] report.IH by simp
  next
    case (publish l db h tenant lineage version owner oldSHA newSHA)
    then show ?case by (auto simp: repin_def updates_def row_wf_def)
  qed (auto simp: cascade_agent_def)
  then show ?thesis using assms(2) by blast
qed

section \<open>Behaviour at the edges\<close>

text \<open>
  A one-off run that was parked has no next fire; resuming it makes it ACTIVE without one, and such a
  run is never due again.
\<close>

lemma resumed_one_off_never_due:
  assumes "resume_run d fail now tenant user row sid db = (Inr (), evs, db')" "sr_Kind row = ScheduleKindOnce" "sr_NextFireAt row = None"
    and "look sid db = Some r" "sr_TenantID r = tenant" "look sid db' = Some r'"
  shows "sr_State r' = ScheduledRunActive \<and> (\<forall>later. \<not> due tenant later r')"
proof -
  have "stored ''resume'' [] db (SetState fail tenant sid ScheduledRunActive None db) = (Inr (), evs, db')"
    using assms(1-3) by (auto simp: resume_run_def after_skill_def refused_def split: if_splits sum.splits prod.splits)
  then have "db' = updates (sees tenant sid) (\<lambda>r. r\<lparr>sr_State := ScheduledRunActive, sr_NextFireAt := None\<rparr>) db"
    by (simp add: stored_def SetState_def exec_update_def split: if_splits)
  then have "r' = r\<lparr>sr_State := ScheduledRunActive, sr_NextFireAt := None\<rparr>"
    using assms(4-6) look_SomeD [OF assms(4)] by (simp add: look_updates sees_def)
  then show ?thesis by (simp add: due_def)
qed

section \<open>An example\<close>

text \<open>A library that knows one expression firing every minute and one that never fires.\<close>

definition ex_cron :: cron_lib where
  "ex_cron s = (if s = ''* * * * *'' then Some (\<lambda>t. t + 60000000000) else if s = ''0 0 30 2 *'' then Some (\<lambda>t. zeroTime) else None)"

definition ex_sched :: SchedDeps where
  "ex_sched = \<lparr>sd_Task = ex_task_deps, sd_Cron = ex_cron, sd_Registry = NewRegistry, sd_MinInterval = 0, sd_ConfigWired = True, sd_Workflows = None,
     sd_SHA = (#) (CHR ''h'')\<rparr>"

definition ex_view :: ClaimView where
  "ex_view = \<lparr>cv_Rev = \<lparr>tenant_block = (\<lambda>_. False), user_blocks = Map.empty, user_directory = Map.empty, agents = Map.empty\<rparr>,
     cv_Workflow = (\<lambda>_ _ _. None), cv_SHA = (#) (CHR ''h'')\<rparr>"

definition ex_sdef :: "string \<Rightarrow> ScheduleDef" where
  "ex_sdef cron = \<lparr>de_Prompt = ''report'', de_Kind = Some ScheduleKindCron, de_CronExpr = cron, de_RunAt = None, de_Tools = [], de_Lineage = [], de_Inputs = []\<rparr>"

definition ex_screate :: "string \<Rightarrow> CreateRunReq" where
  "ex_screate cron = \<lparr>cr_TenantId = ''t'', cr_UserId = ''eve'', cr_Def = ex_sdef cron, cr_ActorAgentId = ''a1''\<rparr>"

definition ex_no_claim_faults :: ClaimFaults where
  "ex_no_claim_faults = \<lparr>xf_claim = False, xf_settle = (\<lambda>_. False), xf_mark = (\<lambda>_. False)\<rparr>"

definition ex_no_run_faults :: RunFaults where
  "ex_no_run_faults = \<lparr>nf_load = False, nf_write = False, nf_reload = False\<rparr>"

definition ex_supdate :: "bool \<Rightarrow> UpdateRunReq" where
  "ex_supdate revoke = \<lparr>ur_TenantId = ''t'', ur_UserId = ''eve'', ur_Id = ''s1'', ur_Def = (ex_sdef ''* * * * *'')\<lparr>de_Prompt := ''other''\<rparr>, ur_DesiredState = None,
     ur_RevokeDelegation = revoke, ur_ExtendDelegation = False, ur_ActorAgentId = None\<rparr>"

definition ex_srow :: "int option \<Rightarrow> int \<Rightarrow> int option \<Rightarrow> int option \<Rightarrow> string \<Rightarrow> ScheduledRun" where
  "ex_srow lf count nxt claimed status =
     \<lparr>sr_ID = ''s1'', sr_TenantID = ''t'', sr_Owner = ''eve'', sr_Prompt = ''report'', sr_Kind = ScheduleKindCron, sr_CronExpr = ''* * * * *'',
      sr_NextFireAt = nxt, sr_ApprovedTools = [], sr_State = ScheduledRunActive, sr_LastFireAt = lf, sr_LastStatus = status,
      sr_LastSummary = (if status = [] then [] else ''done''), sr_RunCount = count, sr_CreatedBy = ''eve'', sr_CreatedAt = 0, sr_Lineage = None, sr_Inputs = [],
      sr_WfVersion = None, sr_WfSHA = [], sr_Actor = Some ''a1'', sr_DelegationExpiresAt = 7776000000000000, sr_RevokedAt = None, sr_RevokedBy = None,
      sr_DelegatedAt = 0, sr_ClaimedAt = claimed\<rparr>"

text \<open>Created, handed out, reported, handed out again, revoked.\<close>

definition ex_sdb1 :: SchedDb where "ex_sdb1 = [ex_srow None 0 (Some 60000000000) None []]"
definition ex_sdb2 :: SchedDb where "ex_sdb2 = [ex_srow (Some 61000000000) 1 (Some 121000000000) (Some 61000000000) []]"
definition ex_sdb3 :: SchedDb where "ex_sdb3 = [ex_srow (Some 61000000000) 1 (Some 121000000000) None ''COMPLETED'']"
definition ex_sdb4 :: SchedDb where "ex_sdb4 = [ex_srow (Some 200000000000) 2 (Some 260000000000) (Some 200000000000) ''COMPLETED'']"
definition ex_sdb5 :: SchedDb where
  "ex_sdb5 = [(ex_srow (Some 200000000000) 2 None (Some 200000000000) ''COMPLETED'')\<lparr>sr_State := ScheduledRunPaused,
     sr_RevokedAt := Some 300000000000, sr_RevokedBy := Some ''eve''\<rparr>]"

definition ex_claim :: "int \<Rightarrow> SchedDb \<Rightarrow> (rpc_error, DueRun list) result \<times> effects \<times> SchedDb" where
  "ex_claim t db = ClaimDueScheduledRuns ex_sched ex_view (Some ex_gateway) ex_no_claim_faults (\<lambda>_. False) t t ''t'' 0 db"

definition ex_update_run :: "bool \<Rightarrow> SchedDb \<Rightarrow> (rpc_error, ScheduledRun) result \<times> AuditEvent list \<times> SchedDb" where
  "ex_update_run revoke db = UpdateScheduledRun ex_sched None ex_no_run_faults 300000000000 300000000000 (ex_supdate revoke) ex_sdb1 db"

lemma ex_create_step: "snd (snd (CreateScheduledRun ex_sched None ''s1'' False False 0 0 (ex_screate ''* * * * *'') [])) = ex_sdb1"
  by code_simp

lemma ex_claim_step1: "case ex_claim 61000000000 ex_sdb1 of (Inr out, _, db') \<Rightarrow> map du_Id out = [''s1''] \<and> db' = ex_sdb2 | _ \<Rightarrow> False"
  by code_simp

lemma ex_report_step: "case ReportScheduledRunResult ex_sched (Some ex_gateway) False False ''t'' ''s1'' True ''done'' ex_sdb2 of (r, _, db') \<Rightarrow> r = Inr () \<and> db' = ex_sdb3"
  by code_simp

lemma ex_claim_step2: "case ex_claim 200000000000 ex_sdb3 of (Inr out, _, db') \<Rightarrow> map du_Id out = [''s1''] \<and> db' = ex_sdb4 | _ \<Rightarrow> False"
  by code_simp

lemma ex_revoke_step: "snd (snd (ex_update_run True ex_sdb4)) = ex_sdb5"
  by code_simp

definition ex_hist3 :: history where
  "ex_hist3 = [(Reported ''t'' ''s1'', ex_sdb3), (Handed ''t'' 61000000000 61000000000 [''s1''], ex_sdb2), (Written, ex_sdb1), (Written, [])]"

definition ex_hist5 :: history where
  "ex_hist5 = (Written, ex_sdb5) # (Handed ''t'' 200000000000 200000000000 [''s1''], ex_sdb4) # ex_hist3"

lemma ex_claimE:
  assumes "case ex_claim t db of (Inr out, _, db') \<Rightarrow> map du_Id out = ids \<and> db' = db2 | _ \<Rightarrow> False"
  obtains out eff where "ClaimDueScheduledRuns ex_sched ex_view (Some ex_gateway) ex_no_claim_faults (\<lambda>_. False) t t ''t'' 0 db = (Inr out, eff, db2)" "map du_Id out = ids"
proof -
  obtain res eff db' where e: "ex_claim t db = (res, eff, db')" by (cases "ex_claim t db")
  then obtain out where "res = Inr out" using assms by (cases res) simp_all
  then show ?thesis using that [of out eff] assms e by (simp add: ex_claim_def)
qed

lemma ex_hist3_run: "sched_hist ex_hist3"
proof -
  obtain r evs where cr: "CreateScheduledRun ex_sched None ''s1'' False False 0 0 (ex_screate ''* * * * *'') [] = (r, evs, ex_sdb1)"
    using ex_create_step by (metis prod.collapse)
  have 1: "sched_hist [(Written, ex_sdb1), (Written, [])]"
    by (rule sched_hist.create [OF sched_hist.start _ cr]) (simp add: used_ids_def)
  obtain out eff where c: "ClaimDueScheduledRuns ex_sched ex_view (Some ex_gateway) ex_no_claim_faults (\<lambda>_. False) 61000000000 61000000000 ''t'' 0 ex_sdb1 = (Inr out, eff, ex_sdb2)"
    "map du_Id out = [''s1'']" using ex_claimE [OF ex_claim_step1] .
  have 2: "sched_hist [(Handed ''t'' 61000000000 61000000000 [''s1''], ex_sdb2), (Written, ex_sdb1), (Written, [])]"
    using sched_hist.claim [OF 1 c(1)] c(2) by simp
  obtain evs where "ReportScheduledRunResult ex_sched (Some ex_gateway) False False ''t'' ''s1'' True ''done'' ex_sdb2 = (Inr (), evs, ex_sdb3)"
    using ex_report_step by (auto split: prod.splits)
  then show ?thesis unfolding ex_hist3_def by (rule sched_hist.report [OF 2])
qed

lemma ex_hist4_run: "sched_hist ((Handed ''t'' 200000000000 200000000000 [''s1''], ex_sdb4) # ex_hist3)"
proof -
  obtain out eff where c: "ClaimDueScheduledRuns ex_sched ex_view (Some ex_gateway) ex_no_claim_faults (\<lambda>_. False) 200000000000 200000000000 ''t'' 0 ex_sdb3 = (Inr out, eff, ex_sdb4)"
    "map du_Id out = [''s1'']" using ex_claimE [OF ex_claim_step2] .
  show ?thesis using sched_hist.claim [OF ex_hist3_run [unfolded ex_hist3_def] c(1)] c(2) by (simp add: ex_hist3_def)
qed

lemma ex_hist5_run: "sched_hist ex_hist5"
proof -
  obtain r evs where "ex_update_run True ex_sdb4 = (r, evs, ex_sdb5)" using ex_revoke_step by (metis prod.collapse)
  then show ?thesis unfolding ex_hist5_def ex_update_run_def
    by (rule sched_hist.update [OF ex_hist4_run, rotated]) (simp add: ex_hist3_def)
qed

lemma ex_claim_step3: "case ex_claim 400000000000 ex_sdb5 of (Inr out, _, db') \<Rightarrow> map du_Id out = [] \<and> db' = ex_sdb5 | _ \<Rightarrow> False"
  by code_simp

lemma ex_hist6_run: "sched_hist ((Handed ''t'' 400000000000 400000000000 [], ex_sdb5) # ex_hist5)"
proof -
  obtain out eff where c: "ClaimDueScheduledRuns ex_sched ex_view (Some ex_gateway) ex_no_claim_faults (\<lambda>_. False) 400000000000 400000000000 ''t'' 0 ex_sdb5 = (Inr out, eff, ex_sdb5)"
    "map du_Id out = []" using ex_claimE [OF ex_claim_step3] .
  show ?thesis using sched_hist.claim [OF ex_hist5_run [unfolded ex_hist5_def] c(1)] c(2) by (simp add: ex_hist5_def)
qed



theorem reports_follow_handouts_witness:
  "reports ''s1'' ex_hist5 \<le> handouts ''s1'' ex_hist5 \<and> reports ''s1'' ex_hist5 = 1 \<and> handouts ''s1'' ex_hist5 = 2"
  using reports_follow_handouts [OF ex_hist5_run, of "''s1''"]
  by (simp add: reports_def handouts_def handed_ids_def ex_hist5_def ex_hist3_def)

lemma ex_edit_step: "map_option sr_Prompt (look ''s1'' (snd (snd (ex_update_run False ex_sdb4)))) = Some ''other''"
  by code_simp

theorem only_owner_rewrites_witness:
  "\<exists>tenant. callerIdentity (td_uuid_ok (sd_Task ex_sched)) None (ur_TenantId (ex_supdate False)) (ur_UserId (ex_supdate False)) = Inr (tenant, ''eve'')
     \<and> requireSchedulerSkill ex_sched ''eve'' = Inr () \<and> ''s1'' = ur_Id (ex_supdate False) \<and> ''t'' = tenant"
proof -
  let ?h2 = "[(Handed ''t'' 200000000000 200000000000 [''s1''], ex_sdb4), (Reported ''t'' ''s1'', ex_sdb3), (Handed ''t'' 61000000000 61000000000 [''s1''], ex_sdb2)]"
  have h: "sched_hist (?h2 @ (Written, ex_sdb1) # [(Written, [])])" using ex_hist4_run by (simp add: ex_hist3_def)
  obtain res evs db' where u: "UpdateScheduledRun ex_sched None ex_no_run_faults 300000000000 300000000000 (ex_supdate False) ex_sdb1 ex_sdb4 = (res, evs, db')"
    by (metis surj_pair)
  obtain r' where r': "look ''s1'' db' = Some r'" "sr_Prompt r' = ''other''" using ex_edit_step u by (auto simp: ex_update_run_def)
  have r: "look ''s1'' ex_sdb4 = Some (hd ex_sdb4)" "sr_Prompt (hd ex_sdb4) = ''report''" "sr_Owner (hd ex_sdb4) = ''eve''" "sr_TenantID (hd ex_sdb4) = ''t''"
    by (simp_all add: ex_sdb4_def ex_srow_def look_def)
  have "\<not> same_work (hd ex_sdb4) r'" using r' r(2) by (simp add: same_work_def)
  from only_owner_rewrites [OF h _ u r(1) r'(1) this] show ?thesis using r(3,4) by simp
qed

theorem handed_out_sound_witness:
  "\<exists>du r actor. du_Id du = ''s1'' \<and> look ''s1'' ex_sdb3 = Some r \<and> due ''t'' 200000000000 r \<and> delegationLive r 200000000000
     \<and> permitted_actor ex_sched ''t'' r actor \<and> du = due_run r actor (du_OwnerGrant du)"
proof -
  obtain out eff where c: "ClaimDueScheduledRuns ex_sched ex_view (Some ex_gateway) ex_no_claim_faults (\<lambda>_. False) 200000000000 200000000000 ''t'' 0 ex_sdb3 = (Inr out, eff, ex_sdb4)"
    "map du_Id out = [''s1'']" using ex_claimE [OF ex_claim_step2] .
  then obtain du where du: "du \<in> set out" "du_Id du = ''s1''" by auto
  have ids: "agents_keyed ex_sched"
    by (auto simp: agents_keyed_def sd_Run_def ex_sched_def ex_task_deps_def ex_run_deps_def ex_store_def ex_row_def split: if_splits)
  from handed_out_sound [OF ex_hist3_run [unfolded ex_hist3_def] c(1) du(1) ids] obtain r actor where
    "look (du_Id du) ex_sdb3 = Some r" "due ''t'' 200000000000 r" "delegationLive r 200000000000" "permitted_actor ex_sched ''t'' r actor" "du = due_run r actor (du_OwnerGrant du)"
    by blast
  then show ?thesis using du(2) by auto
qed

theorem scheduled_rows_well_formed_witness: "row_wf (hd ex_sdb5)"
  using scheduled_rows_well_formed [OF ex_hist5_run, of "hd ex_sdb5"] by (simp add: ex_hist5_def ex_sdb5_def)

text \<open>
  Two edges of the code.  A row whose cron expression no longer parses is marked FAILED by the claim
  and still handed out by it.  A cron expression without any firing is answered with the zero time,
  which is accepted when no minimum interval is set; such a run is due at every claim.
\<close>

definition ex_badcron :: SchedDb where
  "ex_badcron = [(ex_srow None 0 (Some 60000000000) None [])\<lparr>sr_CronExpr := ''@bad''\<rparr>]"

lemma unparsable_cron_run_is_fired:
  "case ex_claim 61000000000 ex_badcron of
     (Inr out, _, db') \<Rightarrow> map du_Id out = [''s1''] \<and> map sr_State db' = [ScheduledRunFailed] \<and> map sr_LastStatus db' = [''invalid cron'']
   | _ \<Rightarrow> False"
  by code_simp

lemma impossible_cron_is_always_due:
  "validateScheduleTiming ex_sched (ex_sdef ''0 0 30 2 *'') 0 = Inr (ScheduleKindCron, ''0 0 30 2 *'', zeroTime)"
  "zeroTime \<le> now \<Longrightarrow> due ''t'' now ((ex_srow None 0 (Some zeroTime) None [])\<lparr>sr_CronExpr := ''0 0 30 2 *''\<rparr>)"
  by code_simp (simp add: due_def ex_srow_def)

end
