(* ===== verification/AuditChain.thy ===== *)
theory AuditChain
  imports Json RouteStep "HOL-Library.Multiset"
begin

text \<open>
  broker/internal/audit/verify.go and signing_key.go: the verifier of the hash-chained, signed
  audit trail.  The JSON encoding of an event (of generated code), SHA-256 and HMAC-SHA256 are
  parameters; everything the verifier computes from them is modelled, with its key cache, the
  duplicate, head, gap and fork reports and the walk to the tail.  The walk is a loop that only
  ends when the links have no cycle, so the report is an option.
\<close>

section \<open>Events and hashes\<close>

text \<open>The fields the chain logic reads; \<open>ce_Rest\<close> stands for all others, which only the encoding sees.\<close>

record ChainEvent =
  ce_EventId :: string
  ce_TenantId :: string
  ce_EventType :: string
  ce_ActorUserId :: string
  ce_ActorEmail :: string
  ce_Decision :: AuditPolicyDecision
  ce_Rest :: string
  ce_PriorEventHash :: string
  ce_Signature :: string
  ce_SigningKeyVersion :: int

record Crypto =
  cr_Marshal :: "ChainEvent \<Rightarrow> string"
  cr_Sha256 :: "string \<Rightarrow> string"
  cr_Hmac :: "string \<Rightarrow> string \<Rightarrow> string"

text \<open>hex.EncodeToString and hex.DecodeString, which also reads upper case digits.\<close>

definition hex_Encode :: "string \<Rightarrow> string" where
  "hex_Encode s = concat (map (\<lambda>c. [hex_digit (byte_of c div 16), hex_digit (byte_of c mod 16)]) s)"

definition hex_nibble :: "char \<Rightarrow> nat option" where
  "hex_nibble c =
     (let n = byte_of c in
      if 48 \<le> n \<and> n \<le> 57 then Some (n - 48) else if 97 \<le> n \<and> n \<le> 102 then Some (n - 87)
      else if 65 \<le> n \<and> n \<le> 70 then Some (n - 55) else None)"

fun hex_Decode :: "string \<Rightarrow> string option" where
  "hex_Decode [] = Some []"
| "hex_Decode (a # b # s) =
     (case (hex_nibble a, hex_nibble b, hex_Decode s) of
        (Some h, Some l, Some r) \<Rightarrow> Some (char_of (16 * h + l) # r) | _ \<Rightarrow> None)"
| "hex_Decode [c] = None"

definition canonicalBytes :: "Crypto \<Rightarrow> ChainEvent \<Rightarrow> string" where
  "canonicalBytes C e = cr_Marshal C (e\<lparr>ce_Signature := []\<rparr>)"

definition eventHash :: "Crypto \<Rightarrow> string \<Rightarrow> string" where
  "eventHash C canon = hex_Encode (cr_Sha256 C canon)"

section \<open>Signing keys (signing_key.go)\<close>

definition static_ForVersion :: "string \<Rightarrow> int \<Rightarrow> (unit, string) result" where
  "static_ForVersion key version = (if version \<noteq> 0 then Inl () else Inr key)"

definition static_Current :: "string \<Rightarrow> string \<times> int" where
  "static_Current key = (key, 0)"

section \<open>The verifier\<close>

record ChainBreak =
  cb_EventID :: string
  cb_Detail :: string

record chainLink =
  lk_id :: string
  lk_hash :: string
  lk_prior :: string

record ChainReport =
  Total :: nat
  OK :: bool
  Signed :: bool
  HeadID :: string
  TailID :: string
  Breaks :: "ChainBreak list"
  SignatureFailures :: "ChainBreak list"

record chainVerifier =
  cv_keys :: "int \<rightharpoonup> string"
  cv_keyErrs :: "int list"
  cv_links :: "chainLink list"
  cv_sigFails :: "ChainBreak list"
  cv_downgrades :: "ChainBreak list"
  cv_anySigned :: bool

definition newChainVerifier :: chainVerifier where
  "newChainVerifier = \<lparr>cv_keys = Map.empty, cv_keyErrs = [], cv_links = [], cv_sigFails = [], cv_downgrades = [], cv_anySigned = False\<rparr>"

definition resolveKey :: "(int \<Rightarrow> (unit, string) result) \<Rightarrow> int \<Rightarrow> chainVerifier \<Rightarrow> (unit, string) result \<times> chainVerifier" where
  "resolveKey ks version v =
     (case cv_keys v version of
        Some k \<Rightarrow> (Inr k, v)
      | None \<Rightarrow>
          if version \<in> set (cv_keyErrs v) then (Inl (), v)
          else (case ks version of
                  Inl e \<Rightarrow> (Inl e, v\<lparr>cv_keyErrs := version # cv_keyErrs v\<rparr>)
                | Inr k \<Rightarrow> (Inr k, v\<lparr>cv_keys := (cv_keys v)(version \<mapsto> k)\<rparr>)))"

definition link_of :: "Crypto \<Rightarrow> ChainEvent \<Rightarrow> chainLink" where
  "link_of C e = \<lparr>lk_id = ce_EventId e, lk_hash = eventHash C (canonicalBytes C e), lk_prior = ce_PriorEventHash e\<rparr>"

text \<open>The message holds an em dash, in UTF-8.\<close>

definition downgrade_detail :: "int \<Rightarrow> string" where
  "downgrade_detail version =
     ''signing_key_version '' @ Itoa version @ '' resolves to an unsigned key in a chain that has signed events '' @
     [CHR 0xE2, CHR 0x80, CHR 0x94] @ '' treating as a signature downgrade''"

definition verifier_add :: "Crypto \<Rightarrow> (int \<Rightarrow> (unit, string) result) \<Rightarrow> ChainEvent \<Rightarrow> chainVerifier \<Rightarrow> chainVerifier" where
  "verifier_add C ks e v0 =
     (let canon = canonicalBytes C e;
          brk = (\<lambda>detail. \<lparr>cb_EventID = ce_EventId e, cb_Detail = detail\<rparr>);
          v1 = v0\<lparr>cv_links := cv_links v0 @ [link_of C e]\<rparr>
      in case resolveKey ks (ce_SigningKeyVersion e) v1 of
           (Inl _, v) \<Rightarrow> v\<lparr>cv_sigFails := cv_sigFails v @ [brk (''signing key for version '' @ Itoa (ce_SigningKeyVersion e) @ '' unavailable'')]\<rparr>
         | (Inr key, v) \<Rightarrow>
             if key = [] then v\<lparr>cv_downgrades := cv_downgrades v @ [brk (downgrade_detail (ce_SigningKeyVersion e))]\<rparr>
             else if hex_Decode (ce_Signature e) \<noteq> Some (cr_Hmac C key canon)
             then v\<lparr>cv_anySigned := True, cv_sigFails := cv_sigFails v @ [brk ''HMAC mismatch'']\<rparr>
             else v\<lparr>cv_anySigned := True\<rparr>)"

text \<open>
  Links are processed in event id order; the order of links that share an id, which the code
  leaves to an unstable sort, is the order they were added in.  \<open>uniq_from\<close> keeps the first link
  of every hash, \<open>dup_breaks\<close> reports the others with the first one's id.
\<close>

fun uniq_from :: "chainLink list \<Rightarrow> chainLink list \<Rightarrow> chainLink list" where
  "uniq_from seen [] = []"
| "uniq_from seen (l # ls) = (if lk_hash l \<in> set (map lk_hash seen) then uniq_from seen ls else l # uniq_from (l # seen) ls)"

fun dup_breaks :: "chainLink list \<Rightarrow> chainLink list \<Rightarrow> ChainBreak list" where
  "dup_breaks seen [] = []"
| "dup_breaks seen (l # ls) =
     (case find (\<lambda>s. lk_hash s = lk_hash l) seen of
        Some j \<Rightarrow> \<lparr>cb_EventID = lk_id l, cb_Detail = ''duplicate event: identical to '' @ lk_id j\<rparr> # dup_breaks seen ls
      | None \<Rightarrow> dup_breaks (l # seen) ls)"

definition children :: "chainLink list \<Rightarrow> string \<Rightarrow> chainLink list" where
  "children ls h = filter (\<lambda>l. lk_prior l = h) ls"

definition roots :: "chainLink list \<Rightarrow> chainLink list" where
  "roots ls = filter (\<lambda>l. lk_prior l \<notin> set (map lk_hash ls)) ls"

definition root_break :: "chainLink \<Rightarrow> chainLink \<Rightarrow> ChainBreak list" where
  "root_break head l =
     (if lk_hash l = lk_hash head \<and> lk_prior l \<noteq> [] then [\<lparr>cb_EventID = lk_id l, cb_Detail = ''head event has non-empty prior_event_hash: '' @ lk_prior l\<rparr>]
      else if lk_hash l = lk_hash head then []
      else if lk_prior l = [] then [\<lparr>cb_EventID = lk_id l, cb_Detail = ''second chain head (empty prior_event_hash) besides '' @ lk_id head\<rparr>]
      else [\<lparr>cb_EventID = lk_id l, cb_Detail = ''prior_event_hash mismatch: '' @ lk_prior l @ '' matches no event (missing predecessor)''\<rparr>])"

definition fork_at :: "chainLink list \<Rightarrow> string \<Rightarrow> ChainBreak list" where
  "fork_at ls p =
     (case children ls p of
        first # succ \<Rightarrow> map (\<lambda>l. \<lparr>cb_EventID = lk_id l, cb_Detail = ''fork: shares prior_event_hash '' @ p @ '' with '' @ lk_id first\<rparr>) succ
      | [] \<Rightarrow> [])"

definition fork_breaks :: "chainLink list \<Rightarrow> ChainBreak list" where
  "fork_breaks ls = concat (map (\<lambda>p. if p = [] then [] else fork_at ls p) (remdups (map lk_prior ls)))"

partial_function (option) tail_walk :: "chainLink list \<Rightarrow> chainLink \<Rightarrow> chainLink option" where
  "tail_walk ls l = (case children ls (lk_hash l) of [] \<Rightarrow> Some l | n # _ \<Rightarrow> tail_walk ls n)"

definition chain_head :: "chainLink list \<Rightarrow> chainLink list \<Rightarrow> chainLink" where
  "chain_head srt ls = (case roots ls of r # _ \<Rightarrow> r | [] \<Rightarrow> hd srt)"

definition link_breaks :: "chainLink list \<Rightarrow> ChainBreak list" where
  "link_breaks srt =
     (let ls = uniq_from [] srt in
      dup_breaks [] srt @ concat (map (root_break (chain_head srt ls)) (roots ls)) @ fork_breaks ls)"

definition report :: "chainVerifier \<Rightarrow> ChainReport option" where
  "report v =
     (if cv_links v = []
      then Some \<lparr>Total = 0, OK = True, Signed = False, HeadID = [], TailID = [], Breaks = [], SignatureFailures = []\<rparr>
      else
        (let srt = sort_key lk_id (cv_links v);
             ls = uniq_from [] srt;
             head = chain_head srt ls;
             breaks = sort_key cb_EventID (link_breaks srt);
             fails = sort_key cb_EventID (cv_sigFails v @ (if cv_anySigned v then cv_downgrades v else []))
         in case tail_walk ls head of
              None \<Rightarrow> None
            | Some tail \<Rightarrow>
                Some \<lparr>Total = length srt, OK = (breaks = [] \<and> fails = []), Signed = cv_anySigned v,
                      HeadID = lk_id head, TailID = lk_id tail, Breaks = breaks, SignatureFailures = fails\<rparr>))"

definition VerifyChainVersioned :: "Crypto \<Rightarrow> (int \<Rightarrow> (unit, string) result) \<Rightarrow> ChainEvent list \<Rightarrow> ChainReport option" where
  "VerifyChainVersioned C ks events = report (foldl (\<lambda>v e. verifier_add C ks e v) newChainVerifier events)"

definition VerifyChain :: "Crypto \<Rightarrow> ChainEvent list \<Rightarrow> string \<Rightarrow> ChainReport option" where
  "VerifyChain C events signingKey = VerifyChainVersioned C (static_ForVersion signingKey) events"

section \<open>Hexadecimal\<close>

lemma hex_nibble_digit: "n < 16 \<Longrightarrow> hex_nibble (hex_digit n) = Some n"
  by (auto simp: hex_nibble_def hex_digit_def byte_of_def Let_def)

lemma hex_roundtrip_bytes: "hex_Decode (hex_Encode s) = Some s"
proof (induction s)
  case (Cons c s)
  have b: "byte_of c div 16 < 16" "byte_of c mod 16 < 16" using byte_of_lt [of c] by (simp_all add: less_mult_imp_div_less)
  have "char_of (16 * (byte_of c div 16) + byte_of c mod 16) = c" by (simp add: byte_of_def)
  then show ?case using Cons b by (simp add: hex_Encode_def hex_nibble_digit)
qed (simp add: hex_Encode_def)

lemma hex_Encode_inject: "hex_Encode a = hex_Encode b \<longleftrightarrow> a = b"
  by (metis hex_roundtrip_bytes option.inject)

lemma hex_Encode_Nil: "hex_Encode a = [] \<longleftrightarrow> a = []" "[] = hex_Encode a \<longleftrightarrow> a = []"
  by (cases a; simp add: hex_Encode_def)+

section \<open>Linear chains\<close>

text \<open>The shape a trail should have: every link names the hash of the one before it.\<close>

fun linked :: "string \<Rightarrow> chainLink list \<Rightarrow> bool" where
  "linked p [] = True"
| "linked p (l # ls) = (lk_prior l = p \<and> linked (lk_hash l) ls)"

definition acyclic_links :: "chainLink list \<Rightarrow> bool" where
  "acyclic_links ls \<longleftrightarrow> (\<exists>rank :: chainLink \<Rightarrow> nat. \<forall>a\<in>set ls. \<forall>b\<in>set ls. lk_prior b = lk_hash a \<longrightarrow> rank a < rank b)"

lemma linked_append: "linked p (xs @ ys) \<longleftrightarrow> linked p xs \<and> linked (if xs = [] then p else lk_hash (last xs)) ys"
  by (induction p xs rule: linked.induct) auto

lemma all_less_Suc: "(\<forall>i<Suc n. Q i) \<longleftrightarrow> Q 0 \<and> (\<forall>i<n. Q (Suc i))"
  by (auto simp: less_Suc_eq_0_disj)

lemma linked_nth: "linked p xs \<longleftrightarrow> (\<forall>i<length xs. lk_prior (xs ! i) = (if i = 0 then p else lk_hash (xs ! (i - 1))))"
proof (induction p xs rule: linked.induct)
  case (2 p l ls)
  have "lk_hash ((l # ls) ! i) = (if i = 0 then lk_hash l else lk_hash (ls ! (i - 1)))" for i
    by (cases i) simp_all
  then show ?case by (simp add: 2 all_less_Suc del: All_less_Suc2)
qed simp

lemma linked_prior_inj:
  assumes "linked p xs" "distinct (map lk_hash xs)" "p \<notin> lk_hash ` set xs"
    "a \<in> set xs" "b \<in> set xs" "lk_prior a = lk_prior b"
  shows "a = b"
proof -
  obtain i j where ij: "i < length xs" "a = xs ! i" "j < length xs" "b = xs ! j"
    using assms(4,5) by (auto simp: in_set_conv_nth)
  have "i = j"
  proof (cases "i = 0 \<or> j = 0")
    case True
    then show ?thesis using assms ij by (auto simp: linked_nth image_iff split: if_splits)
  next
    case False
    then have "lk_hash (xs ! (i - 1)) = lk_hash (xs ! (j - 1))"
      using assms(1,6) ij by (auto simp: linked_nth)
    then have "i - 1 = j - 1" using assms(2) ij False
      by (auto simp: distinct_conv_nth) (metis less_imp_diff_less)
    then show ?thesis using False by linarith
  qed
  then show ?thesis using ij by simp
qed

lemma linked_root:
  assumes "linked p (x # xs)" "a \<in> set (x # xs)" "lk_prior a \<notin> lk_hash ` set (x # xs)"
  shows "a = x"
proof -
  obtain i where i: "i < length (x # xs)" "a = (x # xs) ! i"
    using assms(2) by (metis in_set_conv_nth)
  show ?thesis
  proof (cases i)
    case 0 then show ?thesis using i by simp
  next
    case (Suc k)
    then have "lk_prior a = lk_hash ((x # xs) ! k)" using assms(1) i unfolding linked_nth by (metis diff_Suc_1 nat.simps(3))
    moreover have "(x # xs) ! k \<in> set (x # xs)" using Suc i by (intro nth_mem) simp
    ultimately show ?thesis using assms(3) by blast
  qed
qed

section \<open>What the reports say\<close>

lemma uniq_from_id: "distinct (map lk_hash (rev seen @ ls)) \<Longrightarrow> uniq_from seen ls = ls"
proof (induction seen ls rule: uniq_from.induct)
  case (2 seen l ls)
  then have "lk_hash l \<notin> set (map lk_hash seen)" by auto
  then show ?case using 2 by simp
qed simp

lemma dup_breaks_Nil: "distinct (map lk_hash seen) \<Longrightarrow> dup_breaks seen ls = [] \<longleftrightarrow> distinct (map lk_hash (rev seen @ ls))"
proof (induction seen ls rule: dup_breaks.induct)
  case (1 seen) then show ?case by (simp add: rev_map [symmetric])
next
  case (2 seen l ls)
  show ?case
  proof (cases "find (\<lambda>s. lk_hash s = lk_hash l) seen")
    case None
    then have "lk_hash l \<notin> set (map lk_hash seen)" by (auto simp: find_None_iff)
    then show ?thesis using 2 None by auto
  next
    case (Some j)
    then have "lk_hash l \<in> set (map lk_hash seen)" by (metis (mono_tags) find_Some_iff image_eqI list.set_map nth_mem)
    then show ?thesis using Some by auto
  qed
qed

lemma fork_at_Nil: "fork_at ls p = [] \<longleftrightarrow> length (children ls p) \<le> 1"
  by (auto simp: fork_at_def split: list.splits)

lemma fork_breaks_Nil: "fork_breaks ls = [] \<longleftrightarrow> (\<forall>p. p \<noteq> [] \<longrightarrow> length (children ls p) \<le> 1)"
proof -
  have "length (children ls p) \<le> 1" if "p \<notin> set (map lk_prior ls)" for p
  proof -
    have "children ls p = []" using that by (auto simp: children_def filter_empty_conv)
    then show ?thesis by simp
  qed
  moreover have "fork_breaks ls = [] \<longleftrightarrow> (\<forall>p\<in>set (map lk_prior ls). p \<noteq> [] \<longrightarrow> length (children ls p) \<le> 1)"
    by (auto simp: fork_breaks_def fork_at_Nil [unfolded One_nat_def, symmetric])
  ultimately show ?thesis by blast
qed

lemma root_break_Nil: "root_break h l = [] \<longleftrightarrow> lk_hash l = lk_hash h \<and> lk_prior l = []"
  by (simp add: root_break_def)

lemma children_set: "b \<in> set (children ls h) \<longleftrightarrow> b \<in> set ls \<and> lk_prior b = h"
  by (auto simp: children_def)

lemma roots_set: "b \<in> set (roots ls) \<longleftrightarrow> b \<in> set ls \<and> lk_prior b \<notin> lk_hash ` set ls"
  by (auto simp: roots_def)

text \<open>The tail walk follows a path to a link nobody names, strictly up the ranks.\<close>

lemma tail_walk_path:
  assumes rank: "\<forall>a\<in>set ls. \<forall>b\<in>set ls. lk_prior b = lk_hash a \<longrightarrow> (rank a :: nat) < rank b"
    and "l \<in> set ls" "\<forall>a\<in>set ls. rank a \<le> N"
  shows "\<exists>xs. linked (lk_hash l) xs \<and> set (l # xs) \<subseteq> set ls \<and> sorted_wrt (\<lambda>a b. rank a < rank b) (l # xs)
    \<and> children ls (lk_hash (last (l # xs))) = [] \<and> tail_walk ls l = Some (last (l # xs))
    \<and> (\<forall>a\<in>set (l # xs). children ls (lk_hash a) = [] \<or> hd (children ls (lk_hash a)) \<in> set xs)"
  using assms(2)
proof (induction "N - rank l" arbitrary: l rule: less_induct)
  case less
  show ?case
  proof (cases "children ls (lk_hash l)")
    case Nil
    then have "tail_walk ls l = Some l" by (simp add: tail_walk.simps)
    then show ?thesis using Nil less.prems by (intro exI [of _ "[]"]) simp
  next
    case (Cons n ns)
    then have n: "n \<in> set ls" "lk_prior n = lk_hash l" using children_set [of n ls "lk_hash l"] by auto
    then have r: "rank l < rank n" using rank less.prems by blast
    moreover have "rank n \<le> N" using assms(3) n by blast
    ultimately have "N - rank n < N - rank l" by linarith
    from less.hyps [OF this n(1)] obtain xs where xs: "linked (lk_hash n) xs" "set (n # xs) \<subseteq> set ls"
      "sorted_wrt (\<lambda>a b. rank a < rank b) (n # xs)" "children ls (lk_hash (last (n # xs))) = []"
      "tail_walk ls n = Some (last (n # xs))"
      "\<forall>a\<in>set (n # xs). children ls (lk_hash a) = [] \<or> hd (children ls (lk_hash a)) \<in> set xs" by blast
    have "tail_walk ls l = Some (last (n # xs))" using xs(5) Cons by (subst tail_walk.simps) simp
    then show ?thesis using xs n r Cons less.prems
      by (intro exI [of _ "n # xs"]) (auto intro: less_trans)
  qed
qed

text \<open>A chain without breaks is linear.\<close>

definition linear :: "chainLink list \<Rightarrow> bool" where
  "linear ls \<longleftrightarrow> (\<exists>xs. mset xs = mset ls \<and> linked [] xs \<and> distinct (map lk_hash xs))"

lemma chain_head_root: "roots ls \<noteq> [] \<Longrightarrow> chain_head srt ls = hd (roots ls)"
  by (simp add: chain_head_def split: list.splits)

lemma acyclic_has_root:
  assumes rank: "\<forall>a\<in>set ls. \<forall>b\<in>set ls. lk_prior b = lk_hash a \<longrightarrow> (rank a :: nat) < rank b" and "ls \<noteq> []"
  shows "roots ls \<noteq> []"
proof -
  obtain m where m: "m \<in> set ls" "\<And>y. y \<in> set ls \<Longrightarrow> rank m \<le> rank y"
    using assms(2) ex_has_least_nat [of "\<lambda>x. x \<in> set ls" "hd ls" rank] by auto
  then have "m \<in> set (roots ls)" using rank by (force simp: roots_set)
  then show ?thesis by auto
qed

lemma root_break_hash:
  assumes "\<forall>r\<in>set (roots ls). root_break h r = []" "distinct (map lk_hash ls)" "h \<in> set ls" "y \<in> set (roots ls)"
  shows "y = h" "lk_prior h = []"
proof -
  have "root_break h y = []" using assms(1,4) by blast
  then have y: "lk_hash y = lk_hash h" "lk_prior y = []" by (simp_all add: root_break_Nil)
  moreover have "y \<in> set ls" using assms(4) by (simp add: roots_set)
  ultimately show "y = h" using assms(2,3) by (auto simp: distinct_map inj_on_def)
  then show "lk_prior h = []" using y by simp
qed

lemma length_le_1: "length xs \<le> 1 \<Longrightarrow> a \<in> set xs \<Longrightarrow> hd xs = a"
  by (cases xs) auto

lemma no_breaks_linear:
  assumes rank: "\<forall>a\<in>set ls. \<forall>b\<in>set ls. lk_prior b = lk_hash a \<longrightarrow> (rank a :: nat) < rank b"
    and ls: "ls \<noteq> []" "distinct (map lk_hash ls)" "\<forall>a\<in>set ls. lk_hash a \<noteq> []"
    and nb: "\<forall>r\<in>set (roots ls). root_break (hd (roots ls)) r = []" "fork_breaks ls = []"
  shows "\<exists>xs. mset xs = mset ls \<and> linked [] xs \<and> hd xs = hd (roots ls) \<and> tail_walk ls (hd (roots ls)) = Some (last xs)"
proof -
  let ?h = "hd (roots ls)"
  have hr: "?h \<in> set (roots ls)" using acyclic_has_root [OF rank ls(1)] by simp
  then have h: "?h \<in> set ls" by (simp add: roots_set)
  have p: "lk_prior ?h = []" by (rule root_break_hash(2) [OF nb(1) ls(2) h hr])
  have "\<forall>a\<in>set ls. rank a \<le> Max (rank ` set ls)" by simp
  from tail_walk_path [OF rank h this] obtain xs where xs: "linked (lk_hash ?h) xs" "set (?h # xs) \<subseteq> set ls"
    "sorted_wrt (\<lambda>a b. rank a < rank b) (?h # xs)" "tail_walk ls ?h = Some (last (?h # xs))"
    "\<forall>a\<in>set (?h # xs). children ls (lk_hash a) = [] \<or> hd (children ls (lk_hash a)) \<in> set xs" by blast
  have "y \<in> set (?h # xs)" if "y \<in> set ls" for y
    using that
  proof (induction "rank y" arbitrary: y rule: less_induct)
    case less
    show ?case
    proof (cases "lk_prior y \<in> lk_hash ` set ls")
      case False
      then have "y \<in> set (roots ls)" using less.prems by (simp add: roots_set)
      then show ?thesis using root_break_hash(1) [OF nb(1) ls(2) h] by simp
    next
      case True
      then obtain z where z: "z \<in> set ls" "lk_prior y = lk_hash z" by auto
      then have "z \<in> set (?h # xs)" using less rank by blast
      moreover have y: "y \<in> set (children ls (lk_hash z))" using z less.prems by (simp add: children_set)
      ultimately have "hd (children ls (lk_hash z)) \<in> set xs" using xs(5) by (metis empty_iff list.set(1))
      moreover have "length (children ls (lk_hash z)) \<le> 1" using nb(2) ls(3) z by (simp add: fork_breaks_Nil)
      ultimately show ?thesis using length_le_1 [OF _ y] by auto
    qed
  qed
  then have "set (?h # xs) = set ls" using xs(2) by blast
  moreover have "distinct (?h # xs)" using xs(3) by (induction xs) auto
  moreover have "distinct ls" using ls(2) by (simp add: distinct_map)
  ultimately have "mset (?h # xs) = mset ls" using set_eq_iff_mset_eq_distinct by blast
  then show ?thesis using xs p by (intro exI [of _ "?h # xs"]) simp
qed

lemma distinct_same_length_le_1: "distinct xs \<Longrightarrow> (\<And>a b. a \<in> set xs \<Longrightarrow> b \<in> set xs \<Longrightarrow> a = b) \<Longrightarrow> length xs \<le> 1"
proof (cases xs)
  case (Cons a ys)
  assume "distinct xs" "\<And>a b. a \<in> set xs \<Longrightarrow> b \<in> set xs \<Longrightarrow> a = b"
  then have "b = a \<and> a \<notin> set ys" if "b \<in> set ys" for b using Cons that by (metis distinct.simps(2) list.set_intros)
  then have "ys = []" by (metis ex_in_conv set_empty)
  then show ?thesis using Cons by simp
qed simp

lemma linear_no_breaks:
  assumes "linear ls" "ls \<noteq> []" "\<forall>a\<in>set ls. lk_hash a \<noteq> []"
  shows "distinct (map lk_hash ls)" "roots ls \<noteq> [] \<Longrightarrow> \<forall>r\<in>set (roots ls). root_break (hd (roots ls)) r = []" "fork_breaks ls = []"
proof -
  obtain xs where xs: "mset xs = mset ls" "linked [] xs" "distinct (map lk_hash xs)" using assms(1) by (auto simp: linear_def)
  have st: "set xs = set ls" using xs(1) by (metis set_mset_mset)
  show d: "distinct (map lk_hash ls)" using xs(1,3) by (metis mset_eq_imp_distinct_iff mset_map)
  obtain x ys where x: "xs = x # ys" using assms(2) st by (cases xs) auto
  have root: "r = x" if "r \<in> set (roots ls)" for r
    using linked_root [of "[]" x ys r] xs(2) x that unfolding roots_set st [symmetric] by blast
  have "lk_prior x = []" using xs(2) x by simp
  then show "\<forall>r\<in>set (roots ls). root_break (hd (roots ls)) r = []" if "roots ls \<noteq> []"
    using root that hd_in_set by (metis root_break_Nil)
  have "length (children ls p) \<le> 1" for p
  proof (rule distinct_same_length_le_1)
    show "distinct (children ls p)" using d by (simp add: children_def distinct_map)
    show "a = b" if "a \<in> set (children ls p)" "b \<in> set (children ls p)" for a b
      using linked_prior_inj [OF xs(2,3), of a b] that st assms(3) by (metis (no_types, lifting) children_set imageE)
  qed
  then show "fork_breaks ls = []" by (simp add: fork_breaks_Nil)
qed

section \<open>The verdict\<close>

lemma uniq_from_subset: "set (uniq_from seen ls) \<subseteq> set ls"
  by (induction seen ls rule: uniq_from.induct) auto

lemma uniq_from_hashes: "lk_hash ` set (uniq_from seen ls) = lk_hash ` set ls - lk_hash ` set seen"
  by (induction seen ls rule: uniq_from.induct) auto

lemma uniq_from_Nil: "uniq_from [] ls = [] \<longleftrightarrow> ls = []"
  by (cases ls) auto

lemma link_breaks_Nil:
  assumes rank: "\<forall>a\<in>set srt. \<forall>b\<in>set srt. lk_prior b = lk_hash a \<longrightarrow> (rank a :: nat) < rank b"
    and "srt \<noteq> []" "\<forall>a\<in>set srt. lk_hash a \<noteq> []"
  shows "link_breaks srt = [] \<longleftrightarrow> linear srt"
proof
  have r: "roots srt \<noteq> []" by (rule acyclic_has_root [OF rank assms(2)])
  { assume nb: "link_breaks srt = []"
    then have d: "distinct (map lk_hash srt)" using dup_breaks_Nil [of "[]" srt] by (simp add: link_breaks_def Let_def)
    then have u: "uniq_from [] srt = srt" by (simp add: uniq_from_id)
    have "\<exists>xs. mset xs = mset srt \<and> linked [] xs \<and> hd xs = hd (roots srt) \<and> tail_walk srt (hd (roots srt)) = Some (last xs)"
      using nb u r by (intro no_breaks_linear [OF rank assms(2) d assms(3)]) (auto simp: link_breaks_def Let_def chain_head_root)
    then show "linear srt" using d unfolding linear_def by (metis mset_eq_imp_distinct_iff mset_map) }
  assume lin: "linear srt"
  note nb = linear_no_breaks [OF lin assms(2,3)]
  have "uniq_from [] srt = srt" using nb(1) by (simp add: uniq_from_id)
  moreover have "dup_breaks [] srt = []" using nb(1) dup_breaks_Nil [of "[]" srt] by simp
  ultimately show "link_breaks srt = []" using nb(2) [OF r] nb(3) r by (simp add: link_breaks_def Let_def chain_head_root)
qed

lemma sort_key_Nil: "sort_key f xs = [] \<longleftrightarrow> xs = []"
  by (metis length_0_conv length_sort)

lemma linear_mset: "mset a = mset b \<Longrightarrow> linear a = linear b"
  by (simp add: linear_def)

lemma report_verdict:
  assumes "acyclic_links (cv_links v)" "\<forall>a\<in>set (cv_links v). lk_hash a \<noteq> []"
  shows "\<exists>rep. report v = Some rep \<and> Total rep = length (cv_links v)
    \<and> (OK rep \<longleftrightarrow> cv_links v = [] \<or> linear (cv_links v) \<and> cv_sigFails v = [] \<and> (cv_anySigned v \<longrightarrow> cv_downgrades v = []))"
proof (cases "cv_links v = []")
  case False
  let ?srt = "sort_key lk_id (cv_links v)" let ?ls = "uniq_from [] ?srt"
  obtain rank :: "chainLink \<Rightarrow> nat" where rank: "\<forall>a\<in>set ?srt. \<forall>b\<in>set ?srt. lk_prior b = lk_hash a \<longrightarrow> rank a < rank b"
    using assms(1) by (auto simp: acyclic_links_def)
  then have rank': "\<forall>a\<in>set ?ls. \<forall>b\<in>set ?ls. lk_prior b = lk_hash a \<longrightarrow> rank a < rank b"
    using uniq_from_subset by blast
  have ne: "?srt \<noteq> []" "?ls \<noteq> []" using False by (simp_all add: sort_key_Nil uniq_from_Nil)
  have r: "roots ?ls \<noteq> []" by (rule acyclic_has_root [OF rank' ne(2)])
  then have h: "hd (roots ?ls) \<in> set ?ls" using hd_in_set roots_set by blast
  have "\<forall>a\<in>set ?ls. rank a \<le> Max (rank ` set ?ls)" by simp
  from tail_walk_path [OF rank' h this] obtain t where t: "tail_walk ?ls (hd (roots ?ls)) = Some t" by blast
  have "link_breaks ?srt = [] \<longleftrightarrow> linear (cv_links v)"
    using link_breaks_Nil [OF rank ne(1)] assms(2) linear_mset [of ?srt "cv_links v"] by simp
  then show ?thesis using False t r by (auto simp: report_def Let_def chain_head_root sort_key_Nil)
qed (simp add: report_def)

section \<open>Signatures\<close>

definition signed_ok :: "Crypto \<Rightarrow> (int \<Rightarrow> (unit, string) result) \<Rightarrow> ChainEvent \<Rightarrow> bool" where
  "signed_ok C ks e =
     (case ks (ce_SigningKeyVersion e) of
        Inl _ \<Rightarrow> False
      | Inr key \<Rightarrow> key \<noteq> [] \<and> hex_Decode (ce_Signature e) = Some (cr_Hmac C key (canonicalBytes C e)))"

definition unsigned_key :: "(int \<Rightarrow> (unit, string) result) \<Rightarrow> ChainEvent \<Rightarrow> bool" where
  "unsigned_key ks e = (ks (ce_SigningKeyVersion e) = Inr [])"

definition real_key :: "(int \<Rightarrow> (unit, string) result) \<Rightarrow> ChainEvent \<Rightarrow> bool" where
  "real_key ks e = (case ks (ce_SigningKeyVersion e) of Inl _ \<Rightarrow> False | Inr key \<Rightarrow> key \<noteq> [])"

text \<open>The verifier's cache answers what the key source answers.\<close>

definition keys_cached :: "(int \<Rightarrow> (unit, string) result) \<Rightarrow> chainVerifier \<Rightarrow> bool" where
  "keys_cached ks v \<longleftrightarrow> (\<forall>n k. cv_keys v n = Some k \<longrightarrow> ks n = Inr k) \<and> (\<forall>n\<in>set (cv_keyErrs v). ks n = Inl ())"

lemma resolveKey_cached:
  assumes "keys_cached ks v"
  obtains K Er where "resolveKey ks n v = (ks n, v\<lparr>cv_keys := K, cv_keyErrs := Er\<rparr>)" "keys_cached ks (v\<lparr>cv_keys := K, cv_keyErrs := Er\<rparr>)"
proof -
  have e: "v = v\<lparr>cv_keys := cv_keys v, cv_keyErrs := cv_keyErrs v\<rparr>" by simp
  consider (hit) k where "cv_keys v n = Some k" | (err) "cv_keys v n = None" "n \<in> set (cv_keyErrs v)"
    | (bad) "cv_keys v n = None" "n \<notin> set (cv_keyErrs v)" "ks n = Inl ()"
    | (new) k where "cv_keys v n = None" "n \<notin> set (cv_keyErrs v)" "ks n = Inr k"
    by (cases "cv_keys v n"; cases "n \<in> set (cv_keyErrs v)"; cases "ks n") auto
  then show thesis
  proof cases
    case hit then show ?thesis using that [of "cv_keyErrs v" "cv_keys v"] assms by (simp add: resolveKey_def keys_cached_def)
  next
    case err
    then have "ks n = Inl ()" using assms unfolding keys_cached_def by blast
    then have "resolveKey ks n v = (ks n, v)" using err by (simp add: resolveKey_def)
    then show ?thesis using that [of "cv_keyErrs v" "cv_keys v"] assms by simp
  next
    case bad then show ?thesis using that [of "n # cv_keyErrs v" "cv_keys v"] assms by (simp add: resolveKey_def keys_cached_def)
  next
    case new then show ?thesis using that [of "cv_keyErrs v" "(cv_keys v)(n \<mapsto> k)"] assms by (simp add: resolveKey_def keys_cached_def)
  qed
qed

definition verifier_of :: "Crypto \<Rightarrow> (int \<Rightarrow> (unit, string) result) \<Rightarrow> ChainEvent list \<Rightarrow> chainVerifier \<Rightarrow> bool" where
  "verifier_of C ks es v \<longleftrightarrow>
     keys_cached ks v \<and> cv_links v = map (link_of C) es
     \<and> (cv_sigFails v = [] \<longleftrightarrow> (\<forall>e\<in>set es. signed_ok C ks e \<or> unsigned_key ks e))
     \<and> (cv_downgrades v = [] \<longleftrightarrow> (\<forall>e\<in>set es. \<not> unsigned_key ks e))
     \<and> (cv_anySigned v \<longleftrightarrow> (\<exists>e\<in>set es. real_key ks e))"

lemma verifier_of_new: "verifier_of C ks [] newChainVerifier"
  by (simp add: verifier_of_def newChainVerifier_def keys_cached_def)

lemma verifier_of_add:
  assumes "verifier_of C ks es v"
  shows "verifier_of C ks (es @ [e]) (verifier_add C ks e v)"
proof -
  let ?v = "v\<lparr>cv_links := cv_links v @ [link_of C e]\<rparr>"
  have "keys_cached ks ?v" using assms by (simp add: verifier_of_def keys_cached_def)
  then obtain K Er where r: "resolveKey ks (ce_SigningKeyVersion e) ?v = (ks (ce_SigningKeyVersion e), ?v\<lparr>cv_keys := K, cv_keyErrs := Er\<rparr>)"
    "keys_cached ks (?v\<lparr>cv_keys := K, cv_keyErrs := Er\<rparr>)" by (rule resolveKey_cached)
  show ?thesis
    using assms r
    by (cases "ks (ce_SigningKeyVersion e)")
       (auto simp: verifier_add_def Let_def verifier_of_def signed_ok_def unsigned_key_def real_key_def keys_cached_def)
qed

lemma verifier_of_fold: "verifier_of C ks es v \<Longrightarrow> verifier_of C ks (es @ fs) (foldl (\<lambda>v e. verifier_add C ks e v) v fs)"
proof (induction fs arbitrary: es v)
  case (Cons f fs)
  then show ?case using verifier_of_add [OF Cons.prems] Cons.IH [of "es @ [f]"] by simp
qed simp

lemma verifier_of_run: "verifier_of C ks es (foldl (\<lambda>v e. verifier_add C ks e v) newChainVerifier es)"
  using verifier_of_fold [OF verifier_of_new, of C ks es] by simp

lemma signature_verdict:
  "(\<forall>e\<in>A. signed_ok C ks e \<or> unsigned_key ks e) \<and> ((\<exists>e\<in>A. real_key ks e) \<longrightarrow> (\<forall>e\<in>A. \<not> unsigned_key ks e))
   \<longleftrightarrow> (\<forall>e\<in>A. signed_ok C ks e) \<or> (\<forall>e\<in>A. unsigned_key ks e)"
proof -
  have "signed_ok C ks e \<Longrightarrow> real_key ks e" "real_key ks e \<Longrightarrow> \<not> unsigned_key ks e" for e
    by (auto simp: signed_ok_def real_key_def unsigned_key_def split: sum.splits)
  then show ?thesis by blast
qed

lemma link_of_hash_Nil: "(\<And>s. cr_Sha256 C s \<noteq> []) \<Longrightarrow> lk_hash (link_of C e) \<noteq> []"
  by (simp add: link_of_def eventHash_def hex_Encode_Nil)

lemma verdict_exact:
  assumes "acyclic_links (map (link_of C) es)" "\<And>s. cr_Sha256 C s \<noteq> []" "es \<noteq> []"
  shows "\<exists>rep. VerifyChainVersioned C ks es = Some rep \<and> Total rep = length es
    \<and> (OK rep \<longleftrightarrow> linear (map (link_of C) es) \<and> ((\<forall>e\<in>set es. signed_ok C ks e) \<or> (\<forall>e\<in>set es. unsigned_key ks e)))"
proof -
  let ?v = "foldl (\<lambda>v e. verifier_add C ks e v) newChainVerifier es"
  have v: "verifier_of C ks es ?v" by (rule verifier_of_run)
  then have l: "cv_links ?v = map (link_of C) es" by (simp add: verifier_of_def)
  have "\<exists>rep. report ?v = Some rep \<and> Total rep = length (cv_links ?v)
    \<and> (OK rep \<longleftrightarrow> cv_links ?v = [] \<or> linear (cv_links ?v) \<and> cv_sigFails ?v = [] \<and> (cv_anySigned ?v \<longrightarrow> cv_downgrades ?v = []))"
    using l assms(1) link_of_hash_Nil [OF assms(2)] by (intro report_verdict) auto
  then show ?thesis using v assms(3) unfolding l VerifyChainVersioned_def signature_verdict [symmetric] verifier_of_def by auto
qed

lemma linear_acyclic:
  assumes "linear ls" "\<forall>a\<in>set ls. lk_hash a \<noteq> []"
  shows "acyclic_links ls"
proof -
  obtain xs where xs: "mset xs = mset ls" "linked [] xs" "distinct (map lk_hash xs)" using assms(1) by (auto simp: linear_def)
  define rank where "rank l = (THE i. i < length xs \<and> lk_hash (xs ! i) = lk_hash l)" for l :: chainLink
  have rk: "rank (xs ! i) = i" if "i < length xs" for i
    unfolding rank_def using xs(3) that by (intro the_equality) (auto simp: distinct_conv_nth)
  have "rank a < rank b" if ab: "a \<in> set ls" "b \<in> set ls" "lk_prior b = lk_hash a" for a b
  proof -
    obtain i j where ij: "i < length xs" "a = xs ! i" "j < length xs" "b = xs ! j"
      using ab xs(1) by (metis in_set_conv_nth set_mset_mset)
    have "lk_prior b = (if j = 0 then [] else lk_hash (xs ! (j - 1)))" using xs(2) ij by (auto simp: linked_nth)
    then have j: "j \<noteq> 0" "lk_hash (xs ! (j - 1)) = lk_hash (xs ! i)" using ab assms(2) ij by (auto split: if_splits)
    have "rank (xs ! (j - 1)) = rank (xs ! i)" unfolding rank_def j(2) ..
    then have "j - 1 = i" using rk ij by simp
    then show ?thesis using rk ij j(1) by simp
  qed
  then show ?thesis unfolding acyclic_links_def by blast
qed

text \<open>C32.  
  The verdict of the verifier is exact: on links without a cycle it returns, and it says OK
  exactly when the events can be arranged into one chain from the empty hash in which every event
  names the hash of the one before it and no event occurs twice, and either every signature is
  right under the key of its recorded version or every version resolves to the empty key.
\<close>

theorem chain_verdict_exact:
  assumes "acyclic_links (map (link_of C) es)" "\<And>s. cr_Sha256 C s \<noteq> []" "es \<noteq> []"
  shows "\<exists>rep. VerifyChainVersioned C ks es = Some rep \<and> Total rep = length es
    \<and> (OK rep \<longleftrightarrow> linear (map (link_of C) es) \<and> ((\<forall>e\<in>set es. signed_ok C ks e) \<or> (\<forall>e\<in>set es. unsigned_key ks e)))"
  using assms by (rule verdict_exact)

definition ex_marshal :: "ChainEvent \<Rightarrow> string" where
  "ex_marshal e = concat (map (\<lambda>c. [CHR ''+'', c]) (ce_PriorEventHash e)) @ ''-'' @ ce_EventId e"

lemma ex_marshal_prior: "concat (map (\<lambda>c. [CHR ''+'', c]) a) @ ''-'' @ x = concat (map (\<lambda>c. [CHR ''+'', c]) b) @ ''-'' @ y \<Longrightarrow> a = b"
proof (induction a arbitrary: b)
  case Nil then show ?case by (cases b) auto
next
  case (Cons c a) then show ?case by (cases b) auto
qed

definition ex_crypto :: Crypto where
  "ex_crypto = \<lparr>cr_Marshal = ex_marshal, cr_Sha256 = (#) (CHR ''h''), cr_Hmac = (@)\<rparr>"

definition ex_event :: "string \<Rightarrow> string \<Rightarrow> string \<Rightarrow> ChainEvent" where
  "ex_event eid prior sig = \<lparr>ce_EventId = eid, ce_TenantId = ''t'', ce_EventType = ''x'', ce_ActorUserId = [], ce_ActorEmail = [],
     ce_Decision = ALLOW, ce_Rest = [], ce_PriorEventHash = prior, ce_Signature = sig, ce_SigningKeyVersion = 0\<rparr>"

definition ex_head :: ChainEvent where
  "ex_head = ex_event ''b'' [] (hex_Encode ''k-b'')"

definition ex_tail :: ChainEvent where
  "ex_tail = (let e = ex_event ''a'' (eventHash ex_crypto ''-b'') [] in e\<lparr>ce_Signature := hex_Encode (''k'' @ ex_marshal e)\<rparr>)"

definition ex_trail :: "ChainEvent list" where
  "ex_trail = [ex_tail, ex_head]"

lemmas ex_trail_defs = ex_trail_def ex_tail_def ex_head_def ex_event_def ex_marshal_def ex_crypto_def Let_def
  link_of_def eventHash_def canonicalBytes_def hex_Encode_inject hex_Encode_Nil

lemma ex_head_link: "lk_prior (link_of ex_crypto ex_head) = []" "lk_hash (link_of ex_crypto ex_head) = hex_Encode ''h-b''"
  by (simp_all add: ex_trail_defs)

lemma ex_tail_link: "lk_prior (link_of ex_crypto ex_tail) = hex_Encode ''h-b''"
  "\<exists>t. lk_hash (link_of ex_crypto ex_tail) = hex_Encode (''h+'' @ t)"
  by (simp_all add: ex_trail_defs) (simp add: hex_Encode_def)

lemma ex_tail_hash: "lk_hash (link_of ex_crypto ex_tail) \<noteq> hex_Encode ''h-b''" "lk_hash (link_of ex_crypto ex_tail) \<noteq> []"
  using ex_tail_link(2) by (auto simp: hex_Encode_inject hex_Encode_Nil)

lemma ex_trail_linked: "linked [] (map (link_of ex_crypto) (rev ex_trail))"
  by (simp add: ex_trail_def ex_head_link ex_tail_link)

lemma ex_trail_linear: "linear (map (link_of ex_crypto) ex_trail)"
  unfolding linear_def using ex_trail_linked ex_tail_hash
  by (intro exI [of _ "map (link_of ex_crypto) (rev ex_trail)"]) (auto simp: ex_trail_def ex_head_link)

lemma ex_trail_acyclic: "acyclic_links (map (link_of ex_crypto) ex_trail)"
  unfolding acyclic_links_def using ex_tail_hash
  by (intro exI [of _ "\<lambda>l. length (lk_prior l)"])
     (auto simp: ex_trail_def ex_head_link ex_tail_link hex_Encode_Nil)

lemma ex_trail_signed: "\<forall>e\<in>set ex_trail. signed_ok ex_crypto (static_ForVersion ''k'') e"
  by (simp add: signed_ok_def static_ForVersion_def hex_roundtrip_bytes ex_trail_defs)

theorem chain_verdict_exact_witness:
  "\<exists>rep. VerifyChainVersioned ex_crypto (static_ForVersion ''k'') ex_trail = Some rep \<and> Total rep = length ex_trail \<and> OK rep"
proof -
  have "ex_trail \<noteq> []" by (simp add: ex_trail_def)
  moreover have "cr_Sha256 ex_crypto s \<noteq> []" for s by (simp add: ex_crypto_def)
  ultimately show ?thesis
    using chain_verdict_exact [OF ex_trail_acyclic, of "static_ForVersion ''k''"] ex_trail_linear ex_trail_signed by blast
qed

section \<open>The tail hash commits to the trail\<close>

lemma linked_snoc: "linked p (xs @ [x]) \<longleftrightarrow> linked p xs \<and> lk_prior x = (if xs = [] then p else lk_hash (last xs))"
  by (auto simp: linked_append)

lemma same_hash_same_text:
  assumes "lk_hash (link_of C e) = lk_hash (link_of C f)" "inj_on (cr_Sha256 C) A" "canonicalBytes C e \<in> A" "canonicalBytes C f \<in> A"
  shows "canonicalBytes C e = canonicalBytes C f"
  using assms by (auto simp: link_of_def eventHash_def hex_Encode_inject inj_on_def)



end
