(* ===== verification/PathLib.thy ===== *)
theory PathLib
  imports Prelude
begin

text \<open>Go's package path, as the components that build object keys and workspace paths use it.\<close>

text \<open>One element against the cleaned elements so far, last first.\<close>

definition clean_step :: "bool \<Rightarrow> string list \<Rightarrow> string \<Rightarrow> string list" where
  "clean_step rooted stack seg =
     (if seg = [] \<or> seg = ''.'' then stack
      else if seg = ''..''
      then (case stack of
              [] \<Rightarrow> if rooted then [] else [''..'']
            | t # rest \<Rightarrow> if t = ''..'' then ''..'' # stack else rest)
      else seg # stack)"

definition path_Clean :: "string \<Rightarrow> string" where
  "path_Clean s =
     (let rooted = HasPrefix s ''/'';
          body = Join (rev (foldl (clean_step rooted) [] (Split s (CHR ''/'')))) ''/''
      in if rooted then ''/'' @ body else if body = [] then ''.'' else body)"

text \<open>path.Dir: everything up to the last slash, cleaned.\<close>

definition up_to_last_slash :: "string \<Rightarrow> string" where
  "up_to_last_slash s = rev (dropWhile (\<lambda>c. c \<noteq> CHR ''/'') (rev s))"

definition path_Dir :: "string \<Rightarrow> string" where
  "path_Dir s = path_Clean (up_to_last_slash s)"

text \<open>The cleaned elements: \<open>..\<close> only at the front of a relative path, never an empty element or a dot.\<close>

definition clean_stack :: "bool \<Rightarrow> string list \<Rightarrow> bool" where
  "clean_stack rooted stack \<longleftrightarrow>
     (\<exists>n names. stack = names @ replicate n ''..'' \<and> (rooted \<longrightarrow> n = 0)
        \<and> (\<forall>s\<in>set names. s \<notin> {[], ''.'', ''..''}))"

lemma clean_stack_step: "clean_stack rooted stack \<Longrightarrow> clean_stack rooted (clean_step rooted stack seg)"
proof -
  assume "clean_stack rooted stack"
  then obtain n names where st: "stack = names @ replicate n ''..''" "rooted \<longrightarrow> n = 0" "\<forall>s\<in>set names. s \<notin> {[], ''.'', ''..''}"
    by (auto simp: clean_stack_def)
  consider (skip) "seg = [] \<or> seg = ''.''" | (up) "seg = ''..''" | (name) "seg \<notin> {[], ''.'', ''..''}" by auto
  then show ?thesis
  proof cases
    case skip then show ?thesis using st by (auto simp: clean_step_def clean_stack_def)
  next
    case up
    show ?thesis
    proof (cases names)
      case Nil
      have "clean_step rooted stack seg = (if rooted then [] else replicate (Suc n) ''..'')"
        using up st Nil by (cases n) (auto simp: clean_step_def)
      then show ?thesis using st unfolding clean_stack_def
        by (intro exI [of _ "if rooted then 0 else Suc n"] exI [of _ "[]"]) simp
    next
      case (Cons a ns)
      then have "clean_step rooted stack seg = ns @ replicate n ''..''" using up st by (auto simp: clean_step_def)
      then show ?thesis using st Cons unfolding clean_stack_def by (intro exI [of _ n] exI [of _ ns]) simp
    qed
  next
    case name
    then have "clean_step rooted stack seg = (seg # names) @ replicate n ''..''" using st by (simp add: clean_step_def)
    then show ?thesis using st name unfolding clean_stack_def by (intro exI [of _ n] exI [of _ "seg # names"]) simp
  qed
qed

lemma clean_stack_fold: "clean_stack rooted stack \<Longrightarrow> clean_stack rooted (foldl (clean_step rooted) stack segs)"
  by (induction segs arbitrary: stack) (auto intro: clean_stack_step)

end
