(* ===== verification/AuditEmitter.thy ===== *)
theory AuditEmitter
  imports AuditChain PathLib "HOL-Library.AList"
begin

text \<open>
  broker/internal/audit/emitter.go: the emitter that chains, signs and stores audit events.  The
  state is the emitter's per-tenant chain heads, its bounded queue, the objects of its bucket and
  the lines of its log.  \<open>Emit\<close>, one turn of the worker and \<open>Close\<close> are the steps; what the object
  store does to each write attempt (acknowledged, landed without an acknowledgement, lost), what
  the confirming read finds, and the key source's current key are inputs of the step.  The JSON
  text of a stored object is represented by its event.
\<close>

section \<open>Object keys\<close>

text \<open>url.PathEscape: which bytes of a path segment are escaped, with upper case digits.\<close>

definition shouldEscape :: "char \<Rightarrow> bool" where
  "shouldEscape c =
     (let n = byte_of c in
      \<not> ((97 \<le> n \<and> n \<le> 122) \<or> (65 \<le> n \<and> n \<le> 90) \<or> (48 \<le> n \<and> n \<le> 57) \<or> c \<in> set ''-_.~$&+:=@''))"

definition hex_upper :: "nat \<Rightarrow> char" where
  "hex_upper n = (if n < 10 then char_of (48 + n) else char_of (55 + n))"

definition escape_byte :: "char \<Rightarrow> string" where
  "escape_byte c = [CHR ''%'', hex_upper (byte_of c div 16), hex_upper (byte_of c mod 16)]"

definition PathEscape :: "string \<Rightarrow> string" where
  "PathEscape s = concat (map (\<lambda>c. if shouldEscape c then escape_byte c else [c]) s)"

definition keySegment :: "string \<Rightarrow> string" where
  "keySegment s =
     (case PathEscape s of
        [] \<Rightarrow> []
      | c # r \<Rightarrow> if c = CHR ''_'' \<or> c = CHR ''.'' then escape_byte c @ r else c # r)"

fun PathUnescape :: "string \<Rightarrow> string option" where
  "PathUnescape [] = Some []"
| "PathUnescape (c # s) =
     (if c = CHR ''%''
      then (case s of
              h # l # r \<Rightarrow> (case (hex_nibble h, hex_nibble l, PathUnescape r) of
                               (Some a, Some b, Some t) \<Rightarrow> Some (char_of (16 * a + b) # t) | _ \<Rightarrow> None)
            | _ \<Rightarrow> None)
      else map_option ((#) c) (PathUnescape s))"

text \<open>A timestamp is its UTC year, month and day.\<close>

definition pad :: "nat \<Rightarrow> int \<Rightarrow> string" where
  "pad w n = (let d = Itoa (abs n); w' = (if n < 0 then w - 1 else w)
              in (if n < 0 then ''-'' else []) @ replicate (w' - length d) (CHR ''0'') @ d)"

definition date_dir :: "int \<times> int \<times> int \<Rightarrow> string" where
  "date_dir = (\<lambda>(y, m, d). pad 4 y @ ''/'' @ pad 2 m @ ''/'' @ pad 2 d)"

definition objectKey :: "int \<times> int \<times> int \<Rightarrow> ChainEvent \<Rightarrow> string" where
  "objectKey ts e = keySegment (ce_TenantId e) @ ''/'' @ date_dir ts @ ''/'' @ keySegment (ce_EventId e) @ ''.json''"

section \<open>The emitter\<close>

record Obj =
  ob_event :: ChainEvent
  ob_hash :: string

type_synonym objects = "(string \<times> Obj) list"

record Emitter =
  em_lastHash :: "string \<rightharpoonup> string"
  em_queue :: "ChainEvent list option"
  em_cap :: nat
  em_closed :: bool
  em_objects :: objects
  em_log :: "ChainEvent list"

definition head_of :: "Emitter \<Rightarrow> string \<Rightarrow> string" where
  "head_of E seg = (case em_lastHash E seg of None \<Rightarrow> [] | Some h \<Rightarrow> h)"

definition Durable :: "Emitter \<Rightarrow> bool" where
  "Durable E = (em_queue E \<noteq> None)"

definition chainLocked :: "Crypto \<Rightarrow> string \<times> int \<Rightarrow> Emitter \<Rightarrow> ChainEvent \<Rightarrow> ChainEvent \<times> string" where
  "chainLocked C cur E event =
     (let event1 = event\<lparr>ce_PriorEventHash := head_of E (keySegment (ce_TenantId event)), ce_SigningKeyVersion := snd cur\<rparr>;
          canonical = canonicalBytes C event1
      in (if fst cur \<noteq> [] then event1\<lparr>ce_Signature := hex_Encode (cr_Hmac C (fst cur) canonical)\<rparr> else event1,
          hex_Encode (cr_Sha256 C canonical)))"

definition record_event :: "ChainEvent \<Rightarrow> Emitter \<Rightarrow> Emitter" where
  "record_event event E = E\<lparr>em_log := em_log E @ [event]\<rparr>"

text \<open>
  What happens to one write attempt, and whether the emitter is closing after it.  Attempts
  beyond the listed ones are lost.
\<close>

datatype PutOutcome = Acked | Landed | Lost

type_synonym attempts = "(PutOutcome \<times> bool) list"

text \<open>The attempts left; the result says whether one was acknowledged and whether the worker's context is done.\<close>

fun put_attempts :: "nat \<Rightarrow> attempts \<Rightarrow> string \<Rightarrow> Obj \<Rightarrow> objects \<Rightarrow> bool \<times> bool \<times> objects" where
  "put_attempts 0 env key ob objs = (False, False, objs)"
| "put_attempts (Suc n) [] key ob objs = put_attempts n [] key ob objs"
| "put_attempts (Suc n) ((out, closing) # env) key ob objs =
     (case out of
        Acked \<Rightarrow> (True, closing, AList.update key ob objs)
      | Landed \<Rightarrow> (if closing then (False, True, AList.update key ob objs)
                   else put_attempts n env key ob (AList.update key ob objs))
      | Lost \<Rightarrow> (if closing then (False, True, objs) else put_attempts n env key ob objs))"

text \<open>The confirming read runs under the worker's context, so it fails once the emitter is closing.\<close>

definition put :: "attempts \<Rightarrow> bool \<Rightarrow> string \<Rightarrow> Obj \<Rightarrow> objects \<Rightarrow> bool \<times> objects" where
  "put env stat_ok key ob objs =
     (case put_attempts 3 env key ob objs of
        (acked, closed, objs') \<Rightarrow>
          (acked \<or> (stat_ok \<and> \<not> closed \<and> map_option ob_hash (map_of objs' key) = Some (ob_hash ob)), objs'))"

datatype EmitError = ErrFields | ErrQueueFull | ErrPersist | ErrUnconfirmed | ErrClosed

definition persist :: "Crypto \<Rightarrow> string \<times> int \<Rightarrow> attempts \<Rightarrow> bool \<Rightarrow> int \<times> int \<times> int \<Rightarrow> ChainEvent \<Rightarrow> Emitter
  \<Rightarrow> (EmitError, unit) result \<times> Emitter" where
  "persist C cur env stat_ok ts event E =
     (case chainLocked C cur E event of
        (event', hash) \<Rightarrow>
          (let E1 = record_event event' E in
           case put env stat_ok (objectKey ts event') \<lparr>ob_event = event', ob_hash = hash\<rparr> (em_objects E1) of
             (False, objs) \<Rightarrow> (Inl ErrPersist, E1\<lparr>em_objects := objs\<rparr>)
           | (True, objs) \<Rightarrow> (Inr (), E1\<lparr>em_objects := objs, em_lastHash := (em_lastHash E1)(keySegment (ce_TenantId event') \<mapsto> hash)\<rparr>)))"

text \<open>One turn of the worker's loop: the result of the job it took, if any.\<close>

definition worker :: "Crypto \<Rightarrow> string \<times> int \<Rightarrow> attempts \<Rightarrow> bool \<Rightarrow> int \<times> int \<times> int \<Rightarrow> Emitter
  \<Rightarrow> (EmitError, unit) result option \<times> Emitter" where
  "worker C cur env stat_ok ts E =
     (if em_closed E then (None, E)
      else (case em_queue E of
              Some (job # q) \<Rightarrow> (case persist C cur env stat_ok ts job (E\<lparr>em_queue := Some q\<rparr>) of (r, E') \<Rightarrow> (Some r, E'))
            | _ \<Rightarrow> (None, E)))"

definition drop_event :: "ChainEvent \<Rightarrow> Emitter \<Rightarrow> Emitter" where
  "drop_event event E = record_event event E"

definition enqueue :: "ChainEvent \<Rightarrow> Emitter \<Rightarrow> bool \<times> Emitter" where
  "enqueue job E =
     (case em_queue E of
        Some q \<Rightarrow> if length q < em_cap E then (True, E\<lparr>em_queue := Some (q @ [job])\<rparr>) else (False, drop_event job E)
      | None \<Rightarrow> (False, E))"

definition RPCEventType :: string where
  "RPCEventType = ''aikonos.broker.rpc''"

datatype EmitStatus = EmitDone | EmitWaits

definition missing_fields :: "ChainEvent \<Rightarrow> bool" where
  "missing_fields event = (ce_EventId event = [] \<or> ce_TenantId event = [] \<or> ce_EventType event = [])"

definition enrich :: "(string \<Rightarrow> string \<Rightarrow> string) option \<Rightarrow> ChainEvent \<Rightarrow> ChainEvent" where
  "enrich emailResolver event =
     (if ce_ActorEmail event = [] \<and> ce_ActorUserId event \<noteq> []
      then (case emailResolver of None \<Rightarrow> event | Some email \<Rightarrow> event\<lparr>ce_ActorEmail := email (ce_TenantId event) (ce_ActorUserId event)\<rparr>)
      else event)"

text \<open>Emit up to the point where it waits for the worker; a nil event is \<open>None\<close>.\<close>

definition Emit :: "Crypto \<Rightarrow> string \<times> int \<Rightarrow> (string \<Rightarrow> string \<Rightarrow> string) option \<Rightarrow> ChainEvent option \<Rightarrow> Emitter
  \<Rightarrow> (EmitError, EmitStatus) result \<times> Emitter" where
  "Emit C cur emailResolver ev E =
     (case ev of
        None \<Rightarrow> (Inr EmitDone, E)
      | Some event0 \<Rightarrow>
          if missing_fields event0 then (Inl ErrFields, E)
          else
            (let event = enrich emailResolver event0 in
             if em_queue E = None
             then (case chainLocked C cur E event of
                     (event', hash) \<Rightarrow> (Inr EmitDone, record_event event' (E\<lparr>em_lastHash := (em_lastHash E)(keySegment (ce_TenantId event') \<mapsto> hash)\<rparr>)))
             else (case enqueue event E of
                     (False, E') \<Rightarrow> (Inl ErrQueueFull, E')
                   | (True, E') \<Rightarrow>
                       (Inr (if ce_EventType event = RPCEventType \<and> ce_Decision event \<noteq> DENY then EmitDone else EmitWaits), E'))))"

text \<open>What a waiting Emit returns: the job's outcome, the caller's context ending first, or the emitter closing.\<close>

datatype EmitWait = JobDone "(EmitError, unit) result" | CtxDone | WorkerDone "(EmitError, unit) result option"

definition emit_await :: "EmitWait \<Rightarrow> (EmitError, unit) result" where
  "emit_await w =
     (case w of JobDone r \<Rightarrow> r | CtxDone \<Rightarrow> Inl ErrUnconfirmed
      | WorkerDone (Some r) \<Rightarrow> r | WorkerDone None \<Rightarrow> Inl ErrClosed)"

text \<open>Close, after the bounded wait for the queue to drain: what is still queued is dropped.\<close>

definition Close :: "Emitter \<Rightarrow> (EmitError, unit) result list \<times> Emitter" where
  "Close E =
     (case em_queue E of
        None \<Rightarrow> ([], E)
      | Some q \<Rightarrow> (map (\<lambda>_. Inl ErrClosed) q, fold drop_event q (E\<lparr>em_closed := True, em_queue := Some []\<rparr>)))"

section \<open>Resuming a chain after a restart\<close>

definition chainTail :: "Crypto \<Rightarrow> ChainEvent list \<Rightarrow> string \<times> bool" where
  "chainTail C events =
     (let referenced = map ce_PriorEventHash events;
          ends = filter (\<lambda>h. h \<notin> set referenced) (map (\<lambda>e. eventHash C (canonicalBytes C e)) events)
      in case foldl (\<lambda>t h. case t of None \<Rightarrow> None | Some tail \<Rightarrow> if tail \<noteq> [] \<and> tail \<noteq> h then None else Some h) (Some []) ends of
           None \<Rightarrow> ([], False)
         | Some tail \<Rightarrow> (tail, tail \<noteq> []))"

text \<open>The object store's listing, reading and decoding calls; times are in nanoseconds.\<close>

record objMeta =
  om_key :: string
  om_lastModified :: int

record chainStore =
  cs_listLevel :: "string \<Rightarrow> (unit, string list \<times> objMeta list) result"
  cs_list :: "string \<Rightarrow> (unit, objMeta list) result"
  cs_get :: "string \<Rightarrow> (unit, string) result"
  cs_chainHash :: "string \<Rightarrow> (unit, string) result"
  cs_unmarshal :: "string \<Rightarrow> ChainEvent option"

definition str_max :: "string list \<Rightarrow> string" where
  "str_max ds = foldl (\<lambda>m d. if m < d then d else m) [] ds"

definition newest_of :: "objMeta list \<Rightarrow> objMeta" where
  "newest_of objs =
     foldl (\<lambda>n m. if om_key n = [] \<or> om_lastModified n < om_lastModified m then m else n) \<lparr>om_key = [], om_lastModified = 0\<rparr> objs"

fun newest_from :: "nat \<Rightarrow> chainStore \<Rightarrow> string \<Rightarrow> (unit, string) result" where
  "newest_from 0 S cur = Inr []"
| "newest_from (Suc n) S cur =
     (case cs_listLevel S cur of
        Inl e \<Rightarrow> Inl e
      | Inr (dirs, objs) \<Rightarrow>
          let maxDir = str_max dirs in
          if maxDir \<noteq> [] then newest_from n S maxDir else Inr (om_key (newest_of objs)))"

definition newestUnder :: "chainStore \<Rightarrow> string \<Rightarrow> (unit, string) result" where
  "newestUnder S pfx = newest_from 8 S pfx"

definition is_leap :: "int \<Rightarrow> bool" where
  "is_leap y = (y mod 4 = 0 \<and> (y mod 100 \<noteq> 0 \<or> y mod 400 = 0))"

definition days_in :: "int \<Rightarrow> int \<Rightarrow> int" where
  "days_in m y = (if m = 2 then (if is_leap y then 29 else 28) else if m \<in> {4, 6, 9, 11} then 30 else 31)"

text \<open>time.Parse of the layout 2006/01/02 on the three elements, and the day before.\<close>

definition parse_date :: "string list \<Rightarrow> (int \<times> int \<times> int) option" where
  "parse_date parts =
     (case parts of
        [ys, ms, ds] \<Rightarrow>
          if length ys = 4 \<and> length ms = 2 \<and> length ds = 2 \<and> list_all is_digit (ys @ ms @ ds)
          then (let y = int (digits_val ys); m = int (digits_val ms); d = int (digits_val ds)
                in if 1 \<le> m \<and> m \<le> 12 \<and> 1 \<le> d \<and> d \<le> days_in m y then Some (y, m, d) else None)
          else None
      | _ \<Rightarrow> None)"

definition day_before :: "int \<times> int \<times> int \<Rightarrow> int \<times> int \<times> int" where
  "day_before = (\<lambda>(y, m, d). if 1 < d then (y, m, d - 1) else if 1 < m then (y, m - 1, days_in (m - 1) y) else (y - 1, 12, 31))"

definition resume_dirs :: "string \<Rightarrow> string list" where
  "resume_dirs newestKey =
     (let dir = path_Dir newestKey; parts = Split dir (CHR ''/'') in
      (dir @ ''/'') # (if length parts = 4
        then (case parse_date (tl parts) of None \<Rightarrow> [] | Some d \<Rightarrow> [hd parts @ ''/'' @ date_dir (day_before d) @ ''/''])
        else []))"

definition resumeWindow :: int where
  "resumeWindow = 60000000000"

definition resumeMaxCandidates :: nat where
  "resumeMaxCandidates = 256"

fun list_all_dirs :: "chainStore \<Rightarrow> string list \<Rightarrow> (unit, objMeta list) result" where
  "list_all_dirs S [] = Inr []"
| "list_all_dirs S (d # ds) =
     (case cs_list S d of
        Inl e \<Rightarrow> Inl e
      | Inr m \<Rightarrow> (case list_all_dirs S ds of Inl e \<Rightarrow> Inl e | Inr ms \<Rightarrow> Inr (m @ ms)))"

text \<open>The candidates, newest first; a text that does not parse is \<open>Inr None\<close>, a failed read an error.\<close>

fun get_cands :: "chainStore \<Rightarrow> objMeta list \<Rightarrow> (unit, ChainEvent list option) result" where
  "get_cands S [] = Inr (Some [])"
| "get_cands S (m # ms) =
     (case cs_get S (om_key m) of
        Inl e \<Rightarrow> Inl e
      | Inr data \<Rightarrow>
          (case cs_unmarshal S data of
             None \<Rightarrow> Inr None
           | Some ev \<Rightarrow> (case get_cands S ms of Inl e \<Rightarrow> Inl e | Inr r \<Rightarrow> Inr (map_option ((#) ev) r))))"

definition resumeTail :: "Crypto \<Rightarrow> chainStore \<Rightarrow> string \<Rightarrow> (unit, string \<times> bool) result" where
  "resumeTail C S newestKey =
     (case list_all_dirs S (resume_dirs newestKey) of
        Inl e \<Rightarrow> Inl e
      | Inr metas0 \<Rightarrow>
          if metas0 = [] then Inr ([], False)
          else
            (let metas = sort_key (\<lambda>m. - om_lastModified m) metas0;
                 recent = takeWhile (\<lambda>m. om_lastModified (hd metas) - om_lastModified m \<le> resumeWindow) (take resumeMaxCandidates metas)
             in case get_cands S recent of
                  Inl e \<Rightarrow> Inl e
                | Inr None \<Rightarrow> Inr ([], False)
                | Inr (Some cands) \<Rightarrow> Inr (chainTail C cands)))"

text \<open>One tenant prefix of loadChainHeads: the head it sets, if any.\<close>

definition resume_tenant :: "Crypto \<Rightarrow> chainStore \<Rightarrow> string \<Rightarrow> (unit, string) result" where
  "resume_tenant C S pfx =
     (case newestUnder S pfx of
        Inl e \<Rightarrow> Inl e
      | Inr key \<Rightarrow>
          if key = [] then Inr []
          else
            (case resumeTail C S key of
               Inl e \<Rightarrow> Inl e
             | Inr (h, True) \<Rightarrow> Inr h
             | Inr (_, False) \<Rightarrow> cs_chainHash S key))"

fun load_tenants :: "Crypto \<Rightarrow> chainStore \<Rightarrow> string list \<Rightarrow> (string \<rightharpoonup> string) \<Rightarrow> (unit, string \<rightharpoonup> string) result" where
  "load_tenants C S [] heads = Inr heads"
| "load_tenants C S (pfx # ps) heads =
     (if HasPrefix pfx ''_'' then load_tenants C S ps heads
      else (case resume_tenant C S pfx of
              Inl e \<Rightarrow> Inl e
            | Inr h \<Rightarrow> load_tenants C S ps (if h = [] then heads else heads(TrimSuffix pfx ''/'' \<mapsto> h))))"

definition loadChainHeads :: "Crypto \<Rightarrow> chainStore \<Rightarrow> Emitter \<Rightarrow> (unit, Emitter) result" where
  "loadChainHeads C S E =
     (case cs_listLevel S [] of
        Inl e \<Rightarrow> Inl e
      | Inr (tenants, _) \<Rightarrow>
          (case load_tenants C S tenants (em_lastHash E) of Inl e \<Rightarrow> Inl e | Inr heads \<Rightarrow> Inr (E\<lparr>em_lastHash := heads\<rparr>)))"

definition startSink :: "Crypto \<Rightarrow> chainStore \<Rightarrow> nat \<Rightarrow> Emitter \<Rightarrow> (unit, Emitter) result" where
  "startSink C S queueSize E =
     (case loadChainHeads C S E of
        Inl e \<Rightarrow> Inl e
      | Inr E' \<Rightarrow> Inr (E'\<lparr>em_queue := Some [], em_cap := queueSize, em_closed := False\<rparr>))"

section \<open>Object keys keep tenants and events apart\<close>

lemma hex_nibble_upper: "n < 16 \<Longrightarrow> hex_nibble (hex_upper n) = Some n"
  by (auto simp: hex_nibble_def hex_upper_def byte_of_def Let_def)

lemma escape_byte_unescape: "PathUnescape (escape_byte c @ s) = map_option ((#) c) (PathUnescape s)"
proof -
  have b: "byte_of c div 16 < 16" "byte_of c mod 16 < 16" using byte_of_lt [of c] by (simp_all add: less_mult_imp_div_less)
  have "char_of (16 * (byte_of c div 16) + byte_of c mod 16) = c" by (simp add: byte_of_def)
  then show ?thesis using b by (simp add: escape_byte_def hex_nibble_upper split: option.splits)
qed

lemma shouldEscape_percent: "shouldEscape (CHR ''%'')" "shouldEscape (CHR ''/'')"
  by (simp_all add: shouldEscape_def byte_of_def Let_def)

lemma PathEscape_unescape: "PathUnescape (PathEscape s) = Some s"
proof (induction s)
  case (Cons c s)
  then show ?case using shouldEscape_percent
    by (cases "shouldEscape c") (auto simp: PathEscape_def escape_byte_unescape)
qed (simp add: PathEscape_def)

lemma keySegment_unescape: "PathUnescape (keySegment s) = Some s"
proof (cases "PathEscape s")
  case (Cons c r)
  show ?thesis
  proof (cases "c = CHR ''_'' \<or> c = CHR ''.''")
    case True
    then have "PathUnescape (c # r) = map_option ((#) c) (PathUnescape r)" by auto
    then show ?thesis using True Cons PathEscape_unescape [of s] by (simp add: keySegment_def escape_byte_unescape)
  qed (use Cons PathEscape_unescape [of s] in \<open>simp add: keySegment_def\<close>)
qed (use PathEscape_unescape [of s] in \<open>simp add: keySegment_def\<close>)

lemma keySegment_inject: "keySegment s = keySegment t \<longleftrightarrow> s = t"
  by (metis keySegment_unescape option.inject)

lemma hex_upper_not_slash: "n < 16 \<Longrightarrow> hex_upper n \<noteq> CHR ''/''"
proof -
  have "hex_nibble (CHR ''/'') = None" by code_simp
  then show "n < 16 \<Longrightarrow> ?thesis" using hex_nibble_upper by (metis option.distinct(1))
qed

lemma escape_byte_no_slash: "CHR ''/'' \<notin> set (escape_byte c)"
proof -
  have "byte_of c div 16 < 16" "byte_of c mod 16 < 16" using byte_of_lt [of c] by (simp_all add: less_mult_imp_div_less)
  then show ?thesis using hex_upper_not_slash [THEN not_sym] by (simp add: escape_byte_def)
qed

lemma PathEscape_no_slash: "CHR ''/'' \<notin> set (PathEscape s)"
  using shouldEscape_percent escape_byte_no_slash by (auto simp: PathEscape_def split: if_splits)

lemma keySegment_no_slash: "CHR ''/'' \<notin> set (keySegment s)"
  using PathEscape_no_slash [of s] escape_byte_no_slash by (cases "PathEscape s") (simp_all add: keySegment_def)

lemma keySegment_hd: "keySegment s \<noteq> [] \<Longrightarrow> hd (keySegment s) \<noteq> CHR ''_'' \<and> hd (keySegment s) \<noteq> CHR ''.''"
  by (auto simp: keySegment_def escape_byte_def split: list.splits)

lemma append_sep_cancel: "a @ c # b = a' @ c # b' \<Longrightarrow> c \<notin> set a \<Longrightarrow> c \<notin> set a' \<Longrightarrow> a = a' \<and> b = b'"
proof (induction a arbitrary: a')
  case Nil then show ?case by (cases a') auto
next
  case (Cons x a) then show ?case by (cases a') auto
qed

lemma objectKey_inject:
  assumes eq: "objectKey ts e = objectKey ts' e'"
  shows "ce_TenantId e = ce_TenantId e' \<and> ce_EventId e = ce_EventId e'"
proof -
  have "keySegment (ce_TenantId e) @ CHR ''/'' # (date_dir ts @ ''/'' @ keySegment (ce_EventId e) @ ''.json'')
    = keySegment (ce_TenantId e') @ CHR ''/'' # (date_dir ts' @ ''/'' @ keySegment (ce_EventId e') @ ''.json'')"
    using eq by (simp add: objectKey_def)
  from append_sep_cancel [OF this keySegment_no_slash keySegment_no_slash]
  have t: "ce_TenantId e = ce_TenantId e'"
    and r: "date_dir ts @ CHR ''/'' # (keySegment (ce_EventId e) @ ''.json'') = date_dir ts' @ CHR ''/'' # (keySegment (ce_EventId e') @ ''.json'')"
    by (simp_all add: keySegment_inject)
  have ns: "CHR ''/'' \<notin> set (rev (keySegment i @ ''.json''))" for i using keySegment_no_slash by simp
  have "rev (keySegment (ce_EventId e) @ ''.json'') @ CHR ''/'' # rev (date_dir ts) = rev (keySegment (ce_EventId e') @ ''.json'') @ CHR ''/'' # rev (date_dir ts')"
    using arg_cong [OF r, of rev] by simp
  then have "rev (keySegment (ce_EventId e) @ ''.json'') = rev (keySegment (ce_EventId e') @ ''.json'')"
    using append_sep_cancel [OF _ ns ns] by blast
  then have "keySegment (ce_EventId e) @ ''.json'' = keySegment (ce_EventId e') @ ''.json''" by (metis rev_rev_ident)
  then show ?thesis using t by (simp add: keySegment_inject)
qed

text \<open>An object key determines the tenant and the event id it was made from; a key segment decodes to
  what it encodes, and never reaches another tenant's prefix, the reserved \<open>_policy/\<close> space or a
  parent directory.
\<close>

theorem object_keys_separate:
  "(objectKey ts e = objectKey ts' e' \<longrightarrow> ce_TenantId e = ce_TenantId e' \<and> ce_EventId e = ce_EventId e')
   \<and> PathUnescape (keySegment s) = Some s \<and> CHR ''/'' \<notin> set (keySegment s)
   \<and> (s \<noteq> [] \<longrightarrow> keySegment s \<noteq> [] \<and> hd (keySegment s) \<notin> {CHR ''_'', CHR ''.''})"
proof -
  have "keySegment s = [] \<Longrightarrow> s = []" using keySegment_unescape [of s] by simp
  then show ?thesis using keySegment_unescape keySegment_no_slash keySegment_hd objectKey_inject by blast
qed

theorem object_keys_separate_witness:
  "keySegment ''../x_%'' = ''%2E.%2Fx_%25'' \<and> PathUnescape ''%2E.%2Fx_%25'' = Some ''../x_%'' \<and> hd ''%2E.%2Fx_%25'' \<notin> {CHR ''_'', CHR ''.''}"
proof -
  have k: "keySegment ''../x_%'' = ''%2E.%2Fx_%25''" by code_simp
  show ?thesis using object_keys_separate [of "(0, 0, 0)" "ex_event ''a'' [] []" "(0, 0, 0)" "ex_event ''a'' [] []" "''../x_%''"] k by simp
qed

section \<open>The stored trail\<close>

definition event_ident :: "ChainEvent \<Rightarrow> string \<times> string" where
  "event_ident e = (ce_TenantId e, ce_EventId e)"

definition stored :: "objects \<Rightarrow> ChainEvent list" where
  "stored objs = map (ob_event \<circ> snd) objs"

definition tenant_trail :: "string \<Rightarrow> objects \<Rightarrow> ChainEvent list" where
  "tenant_trail t objs = filter (\<lambda>e. ce_TenantId e = t) (stored objs)"

definition queued :: "Emitter \<Rightarrow> ChainEvent list" where
  "queued E = (case em_queue E of None \<Rightarrow> [] | Some q \<Rightarrow> q)"

definition tail_hash :: "Crypto \<Rightarrow> ChainEvent list \<Rightarrow> string" where
  "tail_hash C es = (if es = [] then [] else lk_hash (link_of C (last es)))"

definition trail_inv :: "Crypto \<Rightarrow> (int \<Rightarrow> (unit, string) result) \<Rightarrow> Emitter \<Rightarrow> bool" where
  "trail_inv C ks E \<longleftrightarrow>
     Durable E
     \<and> (\<forall>t. linked [] (map (link_of C) (tenant_trail t (em_objects E)))
          \<and> head_of E (keySegment t) = tail_hash C (tenant_trail t (em_objects E)))
     \<and> (\<forall>e\<in>set (stored (em_objects E)). signed_ok C ks e)
     \<and> (\<forall>(k, ob)\<in>set (em_objects E). \<exists>ts. k = objectKey ts (ob_event ob))
     \<and> distinct (map event_ident (stored (em_objects E) @ queued E))"

definition new_emitter :: "nat \<Rightarrow> Emitter" where
  "new_emitter cap = \<lparr>em_lastHash = Map.empty, em_queue = Some [], em_cap = cap, em_closed = False, em_objects = [], em_log = []\<rparr>"

text \<open>
  Every interleaving of Emit calls, worker turns and Close on an empty bucket, under what the
  environment provides: event ids are new, the current key is the one its version resolves to,
  and a write that was reported as failed left no object behind.
\<close>

inductive emitter_reach :: "Crypto \<Rightarrow> (int \<Rightarrow> (unit, string) result) \<Rightarrow> Emitter \<Rightarrow> bool" for C ks where
  start: "emitter_reach C ks (new_emitter cap)"
| emit: "emitter_reach C ks E \<Longrightarrow> event_ident e \<notin> event_ident ` set (stored (em_objects E) @ queued E)
    \<Longrightarrow> emitter_reach C ks (snd (Emit C cur resolver (Some e) E))"
| work: "emitter_reach C ks E \<Longrightarrow> worker C (key, n) env stat_ok ts E = (r, E') \<Longrightarrow> ks n = Inr key \<Longrightarrow> key \<noteq> []
    \<Longrightarrow> r = Some (Inl ErrPersist) \<longrightarrow> em_objects E' = em_objects E \<Longrightarrow> emitter_reach C ks E'"
| close: "emitter_reach C ks E \<Longrightarrow> emitter_reach C ks (snd (Close E))"

lemma update_new: "k \<notin> fst ` set al \<Longrightarrow> AList.update k v al = al @ [(k, v)]"
  by (induction al) auto

lemma update_twice: "AList.update k v (AList.update k v al) = AList.update k v al"
  by (induction al) auto

lemma put_attempts_objects:
  "put_attempts n env k ob objs = (acked, closed, objs') \<Longrightarrow>
     (objs' = objs \<or> objs' = AList.update k ob objs) \<and> (acked \<longrightarrow> objs' = AList.update k ob objs)"
  by (induction n env k ob objs rule: put_attempts.induct)
     (auto simp: update_twice split: PutOutcome.splits if_splits)

lemma put_success:
  assumes "put env stat_ok k ob objs = (True, objs')" "k \<notin> fst ` set objs"
  shows "objs' = objs @ [(k, ob)]"
proof -
  obtain acked closed where p: "put_attempts 3 env k ob objs = (acked, closed, objs')"
    "acked \<or> map_option ob_hash (map_of objs' k) = Some (ob_hash ob)"
    using assms(1) by (auto simp: put_def split: prod.splits)
  have "map_of objs k = None" using assms(2) by (simp add: map_of_eq_None_iff)
  then have "objs' = AList.update k ob objs" using put_attempts_objects [OF p(1)] p(2) by auto
  then show ?thesis using assms(2) by (simp add: update_new)
qed

lemma chainLocked_fields:
  assumes "chainLocked C (key, n) E event = (event', hash)" "key \<noteq> []"
  shows "event_ident event' = event_ident event" "ce_TenantId event' = ce_TenantId event"
    "ce_PriorEventHash event' = head_of E (keySegment (ce_TenantId event))"
    "hash = lk_hash (link_of C event')" "ks n = Inr key \<Longrightarrow> signed_ok C ks event'"
  using assms by (auto simp: chainLocked_def Let_def event_ident_def link_of_def eventHash_def canonicalBytes_def
      signed_ok_def hex_roundtrip_bytes)

lemma head_of_update: "head_of (E\<lparr>em_lastHash := (em_lastHash E)(s \<mapsto> h)\<rparr>) s' = (if s' = s then h else head_of E s')"
  by (simp add: head_of_def)

lemma tenant_trail_snoc: "tenant_trail t (objs @ [(k, ob)]) = tenant_trail t objs @ (if ce_TenantId (ob_event ob) = t then [ob_event ob] else [])"
  by (simp add: tenant_trail_def stored_def)

lemma trail_inv_same:
  assumes "trail_inv C ks E" "em_objects E' = em_objects E" "em_lastHash E' = em_lastHash E" "Durable E'"
    "distinct (map event_ident (stored (em_objects E') @ queued E'))"
  shows "trail_inv C ks E'"
  using assms by (simp add: trail_inv_def head_of_def)

text \<open>A landed write extends its tenant's trail by one event that names the old head.\<close>

lemma trail_inv_persist:
  assumes inv: "trail_inv C ks E" and q: "em_queue E = Some (job # q)" and key: "ks n = Inr key" "key \<noteq> []"
    and p: "persist C (key, n) env stat_ok ts job (E\<lparr>em_queue := Some q\<rparr>) = (Inr (), E')"
  shows "trail_inv C ks E'"
proof -
  obtain event' hash where c: "chainLocked C (key, n) (E\<lparr>em_queue := Some q\<rparr>) job = (event', hash)" by fastforce
  let ?k = "objectKey ts event'" let ?ob = "\<lparr>ob_event = event', ob_hash = hash\<rparr>"
  note f = chainLocked_fields [OF c key(2)]
  have d: "distinct (map event_ident (stored (em_objects E) @ job # q))" using inv q by (simp add: trail_inv_def queued_def)
  have "?k \<notin> fst ` set (em_objects E)"
  proof
    assume "?k \<in> fst ` set (em_objects E)"
    then obtain ob where ob: "(?k, ob) \<in> set (em_objects E)" by auto
    then obtain ts' where "?k = objectKey ts' (ob_event ob)" using inv unfolding trail_inv_def by blast
    then have "event_ident event' = event_ident (ob_event ob)" by (simp add: event_ident_def objectKey_inject [of ts event' ts' "ob_event ob"])
    moreover have "ob_event ob \<in> set (stored (em_objects E))" using ob by (force simp: stored_def)
    ultimately show False using d f(1) by (auto simp: image_iff)
  qed
  then have E': "E' = record_event event' (E\<lparr>em_queue := Some q\<rparr>)\<lparr>em_objects := em_objects E @ [(?k, ?ob)],
      em_lastHash := (em_lastHash E)(keySegment (ce_TenantId event') \<mapsto> hash)\<rparr>"
    using p c put_success [of env stat_ok ?k ?ob "em_objects E"]
    by (auto simp: persist_def record_event_def Let_def split: prod.splits bool.splits)
  have objs: "em_objects E' = em_objects E @ [(?k, ?ob)]" and qd: "queued E' = q" "Durable E'"
    using E' by (simp_all add: record_event_def queued_def Durable_def)
  have hd: "head_of E' (keySegment t) = (if t = ce_TenantId event' then hash else head_of E (keySegment t))" for t
    using E' by (simp add: head_of_def record_event_def keySegment_inject)
  have trail: "linked [] (map (link_of C) (tenant_trail t (em_objects E')))
    \<and> head_of E' (keySegment t) = tail_hash C (tenant_trail t (em_objects E'))" for t
  proof (cases "t = ce_TenantId event'")
    case True
    have "lk_prior (link_of C event') = tail_hash C (tenant_trail t (em_objects E))"
      using f(2,3) inv True by (simp add: link_of_def trail_inv_def head_of_def)
    then show ?thesis using inv True f(4)
      by (simp add: hd objs tenant_trail_snoc linked_snoc tail_hash_def last_map trail_inv_def)
  next
    case False
    then have "tenant_trail t (em_objects E') = tenant_trail t (em_objects E)" by (simp add: objs tenant_trail_snoc)
    then show ?thesis using inv False hd by (simp add: trail_inv_def)
  qed
  have sg: "\<forall>e\<in>set (stored (em_objects E')). signed_ok C ks e"
    using inv f(5) [of ks, OF key(1)] by (auto simp: objs stored_def trail_inv_def)
  have ks: "\<forall>(k, ob)\<in>set (em_objects E'). \<exists>ts. k = objectKey ts (ob_event ob)"
    using inv by (auto simp: objs trail_inv_def simp del: split_paired_Ex)
  have "map event_ident (stored (em_objects E') @ queued E') = map event_ident (stored (em_objects E) @ job # q)"
    using qd f(1) by (simp add: objs stored_def)
  then have "distinct (map event_ident (stored (em_objects E') @ queued E'))" using d by (simp only:)
  then show ?thesis using trail sg ks qd unfolding trail_inv_def by blast
qed

lemma trail_inv_worker:
  assumes inv: "trail_inv C ks E" and w: "worker C (key, n) env stat_ok ts E = (r, E')" and key: "ks n = Inr key" "key \<noteq> []"
    and conf: "r = Some (Inl ErrPersist) \<longrightarrow> em_objects E' = em_objects E"
  shows "trail_inv C ks E'"
proof (cases "em_closed E \<or> (\<nexists>job q. em_queue E = Some (job # q))")
  case True
  then have "E' = E" using w by (auto simp: worker_def split: option.splits list.splits)
  then show ?thesis using inv by simp
next
  case False
  then obtain job q where q: "em_queue E = Some (job # q)" "\<not> em_closed E" by blast
  obtain r' where p: "persist C (key, n) env stat_ok ts job (E\<lparr>em_queue := Some q\<rparr>) = (r', E')" "r = Some r'"
    using w q by (auto simp: worker_def split: prod.splits)
  show ?thesis
  proof (cases r')
    case (Inr u)
    then show ?thesis using trail_inv_persist [OF inv q(1) key] p by simp
  next
    case (Inl e)
    then have "e = ErrPersist" "em_lastHash E' = em_lastHash E" "em_queue E' = Some q"
      using p by (auto simp: persist_def record_event_def Let_def split: prod.splits bool.splits)
    moreover have "distinct (map event_ident (stored (em_objects E) @ job # q))" using inv q by (simp add: trail_inv_def queued_def)
    ultimately show ?thesis using conf p Inl by (intro trail_inv_same [OF inv]) (auto simp: Durable_def queued_def)
  qed
qed

lemma enrich_ident: "event_ident (enrich resolver e) = event_ident e"
  by (simp add: enrich_def event_ident_def split: option.splits)

lemma trail_inv_emit:
  assumes inv: "trail_inv C ks E" and new: "event_ident e \<notin> event_ident ` set (stored (em_objects E) @ queued E)"
  shows "trail_inv C ks (snd (Emit C cur resolver (Some e) E))"
proof -
  obtain q where q: "em_queue E = Some q" using inv by (auto simp: trail_inv_def Durable_def)
  have d: "distinct (map event_ident (stored (em_objects E) @ queued E))" using inv by (simp add: trail_inv_def)
  consider (fields) "missing_fields e"
    | (full) "\<not> missing_fields e" "\<not> length q < em_cap E" | (queued) "\<not> missing_fields e" "length q < em_cap E" by blast
  then show ?thesis
  proof cases
    case fields then show ?thesis using inv by (simp add: Emit_def)
  next
    case full
    then have "snd (Emit C cur resolver (Some e) E) = record_event (enrich resolver e) E"
      using q by (simp add: Emit_def enqueue_def drop_event_def Let_def)
    then show ?thesis using d q by (intro trail_inv_same [OF inv]) (simp_all add: record_event_def Durable_def queued_def)
  next
    case queued
    then have "snd (Emit C cur resolver (Some e) E) = E\<lparr>em_queue := Some (q @ [enrich resolver e])\<rparr>"
      using q by (simp add: Emit_def enqueue_def Let_def)
    then show ?thesis using d q new
      by (intro trail_inv_same [OF inv]) (auto simp: Durable_def queued_def enrich_ident)
  qed
qed

lemma drop_events: "fold drop_event q E = E\<lparr>em_log := em_log E @ q\<rparr>"
  by (induction q arbitrary: E) (simp_all add: drop_event_def record_event_def)

lemma trail_inv_close: "trail_inv C ks E \<Longrightarrow> trail_inv C ks (snd (Close E))"
proof -
  assume inv: "trail_inv C ks E"
  then obtain q where q: "em_queue E = Some q" by (auto simp: trail_inv_def Durable_def)
  have "distinct (map event_ident (stored (em_objects E) @ queued E))" using inv by (simp add: trail_inv_def)
  then show ?thesis using q by (intro trail_inv_same [OF inv]) (auto simp: Close_def drop_events Durable_def queued_def)
qed

lemma emitter_reach_inv: "emitter_reach C ks E \<Longrightarrow> trail_inv C ks E"
proof (induction rule: emitter_reach.induct)
  case (start cap)
  then show ?case by (simp add: trail_inv_def new_emitter_def Durable_def tenant_trail_def stored_def head_of_def tail_hash_def queued_def)
qed (auto intro: trail_inv_emit trail_inv_worker trail_inv_close)

lemma tenant_trail_ids:
  assumes "trail_inv C ks E"
  shows "distinct (map ce_EventId (tenant_trail t (em_objects E)))"
proof -
  have "distinct (stored (em_objects E))" "inj_on event_ident (set (stored (em_objects E)))"
    using assms by (simp_all add: trail_inv_def distinct_map)
  then show ?thesis by (auto simp: tenant_trail_def distinct_map inj_on_def event_ident_def)
qed


text \<open>Two events, the second after a write that landed without an acknowledgement and was confirmed.\<close>

definition ex_emitter1 :: Emitter where
  "ex_emitter1 = snd (worker ex_crypto (''k'', 0) [(Acked, False)] True (2025, 1, 2)
     (snd (Emit ex_crypto (''k'', 0) None (Some (ex_event ''b'' [] [])) (new_emitter 2))))"

definition ex_emitter2 :: Emitter where
  "ex_emitter2 = snd (worker ex_crypto (''k'', 0) [(Landed, False)] True (2025, 1, 3)
     (snd (Emit ex_crypto (''k'', 0) None (Some (ex_event ''a'' [] [])) ex_emitter1)))"

lemma ex_reach_step:
  assumes "emitter_reach C (static_ForVersion key) E" "key \<noteq> []"
    and "event_ident e \<notin> event_ident ` set (stored (em_objects E) @ queued E)"
    and "fst (worker C (key, 0) env st ts (snd (Emit C cur er (Some e) E))) = Some (Inr ())"
  shows "emitter_reach C (static_ForVersion key) (snd (worker C (key, 0) env st ts (snd (Emit C cur er (Some e) E))))"
proof (rule emitter_reach.work)
  show "emitter_reach C (static_ForVersion key) (snd (Emit C cur er (Some e) E))" by (rule emitter_reach.emit [OF assms(1,3)])
qed (use assms in \<open>auto simp: static_ForVersion_def prod_eq_iff\<close>)

lemma put_landed: "put [(Landed, False)] True k ob objs = (True, AList.update k ob objs)"
  by (simp add: put_def eval_nat_numeral update_conv)

lemma worker_landed:
  assumes "em_queue E = Some []" "\<not> em_closed E" "em_cap E = 2" "\<not> missing_fields e"
  shows "fst (worker C cur [(Landed, False)] True ts (snd (Emit C cur None (Some e) E))) = Some (Inr ())"
  using assms by (simp add: worker_def Emit_def enqueue_def persist_def put_landed Let_def split: prod.splits)

lemma ex_emitter2_reach: "emitter_reach ex_crypto (static_ForVersion ''k'') ex_emitter2"
proof -
  have r1: "emitter_reach ex_crypto (static_ForVersion ''k'') ex_emitter1"
    unfolding ex_emitter1_def by (rule ex_reach_step [OF emitter_reach.start]; code_simp)
  have e1: "em_queue ex_emitter1 = Some []" "\<not> em_closed ex_emitter1" "em_cap ex_emitter1 = 2"
    "map event_ident (stored (em_objects ex_emitter1)) = [(''t'', ''b'')]" by code_simp+
  have i: "event_ident (ex_event ''a'' [] []) = (''t'', ''a'')" "\<not> missing_fields (ex_event ''a'' [] [])" by code_simp+
  show ?thesis unfolding ex_emitter2_def
  proof (rule ex_reach_step [OF r1])
    show "event_ident (ex_event ''a'' [] []) \<notin> event_ident ` set (stored (em_objects ex_emitter1) @ queued ex_emitter1)"
      using arg_cong [OF e1(4), of set] e1(1) i by (simp add: queued_def)
  qed (use worker_landed [OF e1(1,2,3) i(2)] in simp_all)
qed

lemma ex_crypto_id: "canonicalBytes ex_crypto e = canonicalBytes ex_crypto f \<Longrightarrow> ce_EventId e = ce_EventId f"
  using ex_marshal_prior [of "ce_PriorEventHash e" "ce_EventId e" "ce_PriorEventHash f" "ce_EventId f"]
  by (auto simp: canonicalBytes_def ex_crypto_def ex_marshal_def)


section \<open>A restart continues the chain\<close>

lemma chainTail_unique:
  assumes "\<forall>x\<in>set es. x = h \<or> x \<in> R" "h \<notin> R" "h \<noteq> []" "acc = [] \<or> acc = h"
  shows "foldl (\<lambda>t h. case t of None \<Rightarrow> None | Some tail \<Rightarrow> if tail \<noteq> [] \<and> tail \<noteq> h then None else Some h) (Some acc) (filter (\<lambda>h. h \<notin> R) es)
    = Some (if h \<in> set es then h else acc)"
  using assms(1,4)
proof (induction es arbitrary: acc)
  case (Cons x es)
  then show ?case using assms(2,3) by auto
qed simp

text \<open>On any candidates that are the last events of a stored trail, in any order, the resumed head is
  the hash of the trail's last event, so a restarted emitter continues the chain it left.
\<close>

theorem resume_at_head:
  assumes "emitter_reach C ks E" "tenant_trail t (em_objects E) = pre @ recent" "recent \<noteq> []" "mset cands = mset recent"
    and "inj_on (cr_Sha256 C) (canonicalBytes C ` set (tenant_trail t (em_objects E)))" "\<And>s. cr_Sha256 C s \<noteq> []"
    and "\<And>e f. canonicalBytes C e = canonicalBytes C f \<Longrightarrow> ce_EventId e = ce_EventId f"
  shows "chainTail C cands = (head_of E (keySegment t), True)"
proof -
  let ?es = "tenant_trail t (em_objects E)" let ?H = "\<lambda>e. lk_hash (link_of C e)"
  have inv: "trail_inv C ks E" by (rule emitter_reach_inv [OF assms(1)])
  define h where "h = ?H (last recent)"
  have hd: "head_of E (keySegment t) = h"
    using inv assms(2,3) by (simp add: trail_inv_def tail_hash_def h_def)
  have hn: "?H e \<noteq> []" for e by (rule link_of_hash_Nil [OF assms(6)])
  have st: "set cands = set recent" using assms(4) by (metis set_mset_mset)
  have lk: "linked [] (map (link_of C) ?es)" using inv by (simp add: trail_inv_def)
  have inj: "e = f" if "e \<in> set ?es" "f \<in> set ?es" "?H e = ?H f" for e f
  proof -
    have "ce_EventId e = ce_EventId f" using same_hash_same_text [OF that(3) assms(5)] that(1,2) by (intro assms(7)) blast
    then show "e = f" using tenant_trail_ids [OF inv, of t] that(1,2) by (auto simp: distinct_map inj_on_def)
  qed
  have prior: "ce_PriorEventHash (?es ! i) = (if i = 0 then [] else ?H (?es ! (i - 1)))" if "i < length ?es" for i
    using lk that by (auto simp: linked_nth link_of_def)
  have dist: "distinct ?es" using tenant_trail_ids [OF inv, of t] by (simp add: distinct_map)
  have last: "last recent = ?es ! (length ?es - 1)" using assms(2,3) by (metis append_is_Nil_conv last_appendR last_conv_nth)
  let ?R = "ce_PriorEventHash ` set recent"
  have nr: "h \<notin> ?R"
  proof
    assume "h \<in> ?R"
    then obtain e where e: "e \<in> set recent" "h = ce_PriorEventHash e" by auto
    then obtain i where i: "i < length ?es" "e = ?es ! i" using assms(2) by (metis in_set_conv_nth UnCI set_append)
    then have "i \<noteq> 0" "?H (?es ! (i - 1)) = ?H (?es ! (length ?es - 1))" using prior e hn h_def last by (auto split: if_splits)
    then have "?es ! (i - 1) = ?es ! (length ?es - 1)" using i by (intro inj) auto
    then have "i - 1 = length ?es - 1" using dist i by (simp add: nth_eq_iff_index_eq less_imp_diff_less)
    then show False using i \<open>i \<noteq> 0\<close> by linarith
  qed
  have "?H e = h \<or> ?H e \<in> ?R" if e: "e \<in> set recent" for e
  proof -
    obtain i where i: "i < length recent" "e = recent ! i" using e by (metis in_set_conv_nth)
    show ?thesis
    proof (cases "Suc i < length recent")
      case True
      then have "ce_PriorEventHash (recent ! Suc i) = ?H e"
        using prior [of "length pre + Suc i"] assms(2) i by (simp add: nth_append)
      then show ?thesis using True by (metis image_eqI nth_mem)
    next
      case False
      then have "i = length recent - 1" using i by linarith
      then show ?thesis using i assms(3) by (simp add: h_def last_conv_nth)
    qed
  qed
  then have "\<forall>x\<in>set (map ?H cands). x = h \<or> x \<in> ?R" using st by auto
  note u = chainTail_unique [OF this nr, of "[]", simplified]
  have "h \<in> set (map ?H cands)" using assms(3) st by (simp add: h_def)
  then show ?thesis using u hn hd st by (simp add: chainTail_def Let_def h_def link_of_def comp_def)
qed

theorem resume_at_head_witness:
  "chainTail ex_crypto (rev (tenant_trail ''t'' (em_objects ex_emitter2))) = (head_of ex_emitter2 (keySegment ''t''), True)"
proof (rule resume_at_head [OF ex_emitter2_reach, where pre = "[]"])
  have "length (tenant_trail ''t'' (em_objects ex_emitter2)) = 2" by code_simp
  then show "tenant_trail ''t'' (em_objects ex_emitter2) \<noteq> []" by auto
  show "ce_EventId e = ce_EventId f" if "canonicalBytes ex_crypto e = canonicalBytes ex_crypto f" for e f
    using that by (rule ex_crypto_id)
qed (simp_all add: ex_crypto_def inj_on_def)

end
