(* ===== verification/EnvelopeStore.thy ===== *)
theory EnvelopeStore
  imports TaskHandlers
begin

text \<open>
  broker/internal/db/envelopes.go: the table of delegation envelopes.  A row extends the columns a
  task is limited by (theory TaskHandlers) with the task specification, the recorded capability
  token and the columns only the table reads.  The table is the list of its rows in the order of
  insertion; row level security is the tenant in every condition, and a failure (argument \<open>fail\<close>)
  changes nothing.  An envelope id is text that the database reads as a UUID: \<open>uuid\<close> is its
  canonical form, \<open>None\<close> when it is none, in which case the statement fails.
\<close>

section \<open>Rows\<close>

record EnvelopeRow = Envelope +
  env_TaskSpec :: "(string \<times> json) list"
  env_CapabilityToken :: string
  env_Depth :: int
  env_TraceID :: string
  env_CreatedAt :: int

text \<open>A key of the task specification that holds a string; anything else reads as the empty string.\<close>

definition spec_string :: "(string \<times> json) list \<Rightarrow> string \<Rightarrow> string" where
  "spec_string spec k = (case map_of spec k of Some (JStr s) \<Rightarrow> s | _ \<Rightarrow> [])"

definition envelope_open :: "EnvelopeState \<Rightarrow> bool" where
  "envelope_open s = (s = EnvelopePending \<or> s = EnvelopeDelivered)"

text \<open>expires_at > NOW(); the zero time lies before every instant the database knows as NOW().\<close>

definition unexpired :: "int \<Rightarrow> EnvelopeRow \<Rightarrow> bool" where
  "unexpired now e = (case env_ExpiresAt e of None \<Rightarrow> False | Some t \<Rightarrow> t > now)"

definition addressed_to :: "string \<Rightarrow> EnvelopeRow \<Rightarrow> bool" where
  "addressed_to user e = (env_ToType e = ''user'' \<and> env_ToID e = user)"

section \<open>The repository\<close>

text \<open>
  The id is generated by the database; the primary key refuses one that is taken, the foreign key
  a parent task that does not exist.
\<close>

definition CreateEnvelope :: "bool \<Rightarrow> string \<Rightarrow> int \<Rightarrow> Db \<Rightarrow> EnvelopeRow \<Rightarrow> EnvelopeState \<Rightarrow> EnvelopeRow list
  \<Rightarrow> (db_error, string \<times> EnvelopeRow list) result" where
  "CreateEnvelope fail newID now db e initial envs =
     (if fail \<or> newID \<in> env_ID ` set envs
         \<or> (case env_ParentTaskID e of None \<Rightarrow> False | Some p \<Rightarrow> tasks db p = None)
      then Inl DbFault
      else Inr (newID, envs @ [e\<lparr>env_ID := newID, env_State := initial, env_Depth := max 1 (env_Depth e), env_CreatedAt := now\<rparr>]))"

definition inbox_states :: "bool \<Rightarrow> EnvelopeState list" where
  "inbox_states includeResolved =
     (if includeResolved
      then [EnvelopePending, EnvelopeDelivered, EnvelopeAccepted, EnvelopeRejected, EnvelopeCompleted, EnvelopeDismissed]
      else [EnvelopePending, EnvelopeDelivered])"

definition in_inbox :: "int \<Rightarrow> string \<Rightarrow> string \<Rightarrow> bool \<Rightarrow> EnvelopeRow \<Rightarrow> bool" where
  "in_inbox now tenant user includeResolved e =
     (env_TenantID e = tenant \<and> addressed_to user e \<and> env_State e \<in> set (inbox_states includeResolved)
      \<and> (\<not> envelope_open (env_State e) \<or> unexpired now e))"

text \<open>ORDER BY created_at DESC LIMIT 100; rows of one instant are taken in the order of insertion.\<close>

definition ListInbox :: "bool \<Rightarrow> int \<Rightarrow> string \<Rightarrow> string \<Rightarrow> bool \<Rightarrow> EnvelopeRow list \<Rightarrow> (db_error, EnvelopeRow list) result" where
  "ListInbox fail now tenant user includeResolved envs =
     (if fail then Inl DbFault
      else Inr (take 100 (sort_key (\<lambda>e. - env_CreatedAt e) (filter (in_inbox now tenant user includeResolved) envs))))"

definition GetEnvelope :: "(string \<Rightarrow> string option) \<Rightarrow> bool \<Rightarrow> string \<Rightarrow> string \<Rightarrow> EnvelopeRow list \<Rightarrow> (db_error, EnvelopeRow) result" where
  "GetEnvelope uuid fail tenant envelopeID envs =
     (if fail then Inl DbFault
      else case uuid envelopeID of
             None \<Rightarrow> Inl DbFault
           | Some eid \<Rightarrow>
               (case filter (\<lambda>e. env_TenantID e = tenant \<and> env_ID e = eid) envs of
                  [] \<Rightarrow> Inl ErrNotFound
                | e # _ \<Rightarrow> Inr e))"

text \<open>The UPDATE statements: the rows that meet the condition get the state; none met is an error.\<close>

definition settle_rows :: "(EnvelopeRow \<Rightarrow> bool) \<Rightarrow> EnvelopeState \<Rightarrow> EnvelopeRow list \<Rightarrow> (db_error, EnvelopeState \<times> EnvelopeRow list) result" where
  "settle_rows p s envs =
     (if list_ex p envs then Inr (s, map (\<lambda>e. if p e then e\<lparr>env_State := s\<rparr> else e) envs) else Inl NotInState)"

definition answerable :: "string \<Rightarrow> string \<Rightarrow> string \<Rightarrow> EnvelopeRow \<Rightarrow> bool" where
  "answerable tenant eid user e =
     (env_TenantID e = tenant \<and> env_ID e = eid \<and> addressed_to user e \<and> envelope_open (env_State e))"

definition RespondEnvelope :: "(string \<Rightarrow> string option) \<Rightarrow> bool \<Rightarrow> int \<Rightarrow> string \<Rightarrow> string \<Rightarrow> string \<Rightarrow> bool \<Rightarrow> EnvelopeRow list
  \<Rightarrow> (db_error, EnvelopeState \<times> EnvelopeRow list) result" where
  "RespondEnvelope uuid fail now tenant envelopeID user accepted envs =
     (if fail then Inl DbFault
      else case uuid envelopeID of
             None \<Rightarrow> Inl DbFault
           | Some eid \<Rightarrow>
               settle_rows (\<lambda>e. answerable tenant eid user e \<and> unexpired now e)
                 (if accepted then EnvelopeAccepted else EnvelopeRejected) envs)"

definition db_DismissEnvelope :: "(string \<Rightarrow> string option) \<Rightarrow> bool \<Rightarrow> string \<Rightarrow> string \<Rightarrow> string \<Rightarrow> EnvelopeRow list
  \<Rightarrow> (db_error, EnvelopeState \<times> EnvelopeRow list) result" where
  "db_DismissEnvelope uuid fail tenant envelopeID user envs =
     (if fail then Inl DbFault
      else case uuid envelopeID of
             None \<Rightarrow> Inl DbFault
           | Some eid \<Rightarrow> settle_rows (answerable tenant eid user) EnvelopeDismissed envs)"

definition CountEnvelopesByPayloadRef :: "bool \<Rightarrow> string \<Rightarrow> string \<Rightarrow> EnvelopeRow list \<Rightarrow> (db_error, nat) result" where
  "CountEnvelopesByPayloadRef fail tenant payloadRef envs =
     (if fail then Inl DbFault
      else Inr (length (filter (\<lambda>e. env_TenantID e = tenant \<and> map_of (env_TaskSpec e) ''payload_ref'' = Some (JStr payloadRef)
                                    \<and> envelope_open (env_State e)) envs)))"

section \<open>Lemmas\<close>

text \<open>The columns that no statement but the insertion writes.\<close>

definition env_fixed :: "EnvelopeRow \<Rightarrow> EnvelopeRow" where
  "env_fixed e = e\<lparr>env_State := EnvelopePending\<rparr>"

definition ids_distinct :: "EnvelopeRow list \<Rightarrow> bool" where
  "ids_distinct envs = distinct (map env_ID envs)"

lemma CreateEnvelope_ok:
  assumes "CreateEnvelope fail newID now db e s envs = Inr (eid, envs')"
  shows "eid = newID" "newID \<notin> env_ID ` set envs"
    "envs' = envs @ [e\<lparr>env_ID := newID, env_State := s, env_Depth := max 1 (env_Depth e), env_CreatedAt := now\<rparr>]"
  using assms by (simp_all add: CreateEnvelope_def split: if_splits option.splits)

lemma CreateEnvelope_distinct:
  "CreateEnvelope fail newID now db e s envs = Inr (eid, envs') \<Longrightarrow> ids_distinct envs \<Longrightarrow> ids_distinct envs'"
  using CreateEnvelope_ok [of fail newID now db e s envs eid envs'] by (auto simp: ids_distinct_def)

lemma GetEnvelope_ok:
  assumes "GetEnvelope uuid fail tenant eid0 envs = Inr e"
  obtains eid where "uuid eid0 = Some eid" "e \<in> set envs" "env_TenantID e = tenant" "env_ID e = eid"
proof -
  from assms obtain eid es where u: "uuid eid0 = Some eid"
    and f: "filter (\<lambda>e. env_TenantID e = tenant \<and> env_ID e = eid) envs = e # es"
    by (simp add: GetEnvelope_def split: if_splits option.splits list.splits)
  have "e \<in> set (filter (\<lambda>e. env_TenantID e = tenant \<and> env_ID e = eid) envs)" using f by simp
  then show ?thesis using that u by simp
qed

lemma settle_rows_ok:
  assumes "settle_rows p s envs = Inr (s', envs')"
  shows "s' = s" "envs' = map (\<lambda>e. if p e then e\<lparr>env_State := s\<rparr> else e) envs" "\<exists>e \<in> set envs. p e"
  using assms by (simp_all add: settle_rows_def list_ex_iff split: if_splits)

lemma settle_rows_fixed: "settle_rows p s envs = Inr (s', envs') \<Longrightarrow> map env_fixed envs' = map env_fixed envs"
  by (auto dest: settle_rows_ok(2) simp: env_fixed_def)

lemma env_fixed_fields:
  assumes "env_fixed e = env_fixed e'"
  shows "env_ID e = env_ID e'" "env_TenantID e = env_TenantID e'" "env_FromUserID e = env_FromUserID e'"
    "env_ToType e = env_ToType e'" "env_ToID e = env_ToID e'" "env_MaxCostUnits e = env_MaxCostUnits e'"
    "env_AttenuatedScopes e = env_AttenuatedScopes e'" "env_ExpiresAt e = env_ExpiresAt e'"
    "env_CreatedAt e = env_CreatedAt e'" "env_TaskSpec e = env_TaskSpec e'" "env_ParentTaskID e = env_ParentTaskID e'"
    "env_CapabilityToken e = env_CapabilityToken e'"
  using assms by (cases e; cases e'; simp add: env_fixed_def)+

lemma ids_distinct_fixed:
  assumes "map env_fixed envs' = map env_fixed envs"
  shows "ids_distinct envs' = ids_distinct envs"
proof -
  have "env_ID \<circ> env_fixed = env_ID" by (rule ext) (simp add: env_fixed_def)
  then have "map env_ID envs' = map env_ID envs"
    using arg_cong [OF assms, of "map env_ID"] by simp
  then show ?thesis by (simp add: ids_distinct_def)
qed

text \<open>
  An answer: one row of the table, open and addressed to the user, gets a final state; every
  other row stays as it is.
\<close>

definition answers :: "string \<Rightarrow> string \<Rightarrow> string \<Rightarrow> EnvelopeState \<Rightarrow> EnvelopeRow list \<Rightarrow> EnvelopeRow list \<Rightarrow> bool" where
  "answers tenant eid user s envs envs' \<longleftrightarrow>
     (\<exists>e \<in> set envs. answerable tenant eid user e)
     \<and> envs' = map (\<lambda>e. if answerable tenant eid user e then e\<lparr>env_State := s\<rparr> else e) envs"

lemma same_id: "ids_distinct envs \<Longrightarrow> e \<in> set envs \<Longrightarrow> e' \<in> set envs \<Longrightarrow> env_ID e = env_ID e' \<Longrightarrow> e = e'"
  by (simp add: ids_distinct_def distinct_map inj_on_def)

lemma RespondEnvelope_ok:
  assumes "RespondEnvelope uuid fail now tenant eid0 user accepted envs = Inr (s, envs')" "ids_distinct envs"
  obtains eid e where "uuid eid0 = Some eid" "s = (if accepted then EnvelopeAccepted else EnvelopeRejected)"
    "answers tenant eid user s envs envs'" "e \<in> set envs" "answerable tenant eid user e" "unexpired now e"
proof -
  let ?s = "if accepted then EnvelopeAccepted else EnvelopeRejected"
  from assms(1) obtain eid where u: "uuid eid0 = Some eid"
    and st: "settle_rows (\<lambda>e. answerable tenant eid user e \<and> unexpired now e) ?s envs = Inr (s, envs')"
    by (simp add: RespondEnvelope_def split: if_splits option.splits)
  note ok = settle_rows_ok [OF st]
  from ok(3) obtain e where e: "e \<in> set envs" "answerable tenant eid user e" "unexpired now e" by blast
  have only: "x = e" if "x \<in> set envs" "answerable tenant eid user x" for x
    by (rule same_id [OF assms(2) that(1) e(1)]) (use that(2) e(2) in \<open>simp add: answerable_def\<close>)
  have "(answerable tenant eid user x \<and> unexpired now x) = answerable tenant eid user x" if "x \<in> set envs" for x
    using only [OF that] e(3) by blast
  then have "envs' = map (\<lambda>x. if answerable tenant eid user x then x\<lparr>env_State := s\<rparr> else x) envs"
    unfolding ok(1,2) by (intro map_cong refl) simp
  then have "answers tenant eid user s envs envs'"
    unfolding answers_def using e by blast
  then show ?thesis using that u ok(1) e by blast
qed

lemma DismissEnvelope_ok:
  assumes "db_DismissEnvelope uuid fail tenant eid0 user envs = Inr (s, envs')"
  obtains eid where "uuid eid0 = Some eid" "s = EnvelopeDismissed" "answers tenant eid user s envs envs'"
proof -
  from assms obtain eid where u: "uuid eid0 = Some eid"
    and st: "settle_rows (answerable tenant eid user) EnvelopeDismissed envs = Inr (s, envs')"
    by (simp add: db_DismissEnvelope_def split: if_splits option.splits)
  have "answers tenant eid user s envs envs'"
    unfolding answers_def using settle_rows_ok [OF st] by blast
  then show ?thesis using that u settle_rows_ok(1) [OF st] by blast
qed

lemma answers_fixed: "answers tenant eid user s envs envs' \<Longrightarrow> map env_fixed envs' = map env_fixed envs"
  by (auto simp: answers_def env_fixed_def)

lemma answers_nth:
  assumes "answers tenant eid user s envs envs'" "i < length envs"
  shows "envs' ! i = envs ! i
    \<or> answerable tenant eid user (envs ! i) \<and> envs' ! i = (envs ! i)\<lparr>env_State := s\<rparr>"
  using assms by (auto simp: answers_def)

lemma ListInbox_ok:
  assumes "ListInbox fail now tenant user inc envs = Inr es" "e \<in> set es"
  shows "e \<in> set envs" "in_inbox now tenant user inc e"
proof -
  have "e \<in> set (sort_key (\<lambda>e. - env_CreatedAt e) (filter (in_inbox now tenant user inc) envs))"
    using assms by (auto simp: ListInbox_def split: if_splits dest: in_set_takeD)
  then show "e \<in> set envs" "in_inbox now tenant user inc e" by simp_all
qed

end
