(* ===== verification/Envelopes.thy ===== *)
theory Envelopes
  imports EnvelopeStore
begin

text \<open>
  Sending and answering delegation envelopes: broker/internal/broker/service_envelopes.go,
  delegation_scopes.go, the group members of service_delegatable_users.go and DecideEnvelopeSend
  of policy/engine.go.  A handler takes the task store, the envelope table and the workspace and
  answers a result, the OpenFGA tuples and audit events it wrote, and the three afterwards.
  Identifiers, clock readings and database failures are arguments.  The workspace is only touched
  by collecting a transfer's staging segment, which is the argument \<open>ed_GcSegment\<close>.
\<close>

section \<open>Dependencies\<close>

text \<open>The input document of aikonos/envelope\_send and the document it answers.\<close>

record EnvelopeInput =
  in_fga_send_decision :: string
  in_relationship :: string
  in_effect_class :: string
  in_depth :: int
  in_attenuated_scopes :: "string list"
  in_max_cost_units :: int
  in_capability_scopes :: "string list"
  in_risk_score :: int
  in_remaining_cost_budget :: int
  in_is_suspended :: bool
  in_sender_group :: string
  in_recipient_group :: string

record EnvelopeDecision =
  ed_Allow :: bool
  ed_AutoAccept :: bool
  ed_RequireManualAccept :: bool
  ed_ScopeViolations :: "string list"
  ed_DenyReasons :: "string list"

record ('tok, 'az, 'w) EnvelopeDeps =
  ed_Task :: TaskDeps
  ed_fga_enabled :: bool
  ed_fga_list :: "string \<Rightarrow> string \<Rightarrow> string \<Rightarrow> (unit, string list) result"
  ed_fga_read :: "string \<Rightarrow> string \<Rightarrow> string \<Rightarrow> (unit, tuple3 list \<times> string) result"
  ed_ToolRegistry :: "Registry option"
  ed_OPA :: "EnvelopeInput \<Rightarrow> EnvelopeDecision opa_response"
  ed_Bundle :: string
  ed_Biscuit :: "('tok, 'az) biscuit_lib"
  ed_Capability :: "Minter option"
  ed_GcSegment :: "string \<Rightarrow> string \<Rightarrow> 'w \<Rightarrow> 'w"

record 'w EnvWorld =
  ew_Db :: Db
  ew_Envelopes :: "EnvelopeRow list"
  ew_Workspace :: 'w

text \<open>What one delivery draws from outside: fresh ids, the two clocks, and which statements fail.\<close>

record Draw =
  dr_EnvelopeID :: string
  dr_TaskID :: string
  dr_Now :: int
  dr_DbNow :: int
  dr_FailEnvelope :: bool
  dr_FailTask :: bool

section \<open>Policy (policy/engine.go)\<close>

definition ListObjects :: "('tok, 'az, 'w) EnvelopeDeps \<Rightarrow> string \<Rightarrow> string \<Rightarrow> string \<Rightarrow> (unit, string list) result" where
  "ListObjects d user rel otype = (if \<not> ed_fga_enabled d then Inr [] else ed_fga_list d user rel otype)"

text \<open>The pages of a read follow one another by the continuation token, up to the page cap.\<close>

definition fgaReadMaxPages :: nat where "fgaReadMaxPages = 20"

fun read_pages :: "(string \<Rightarrow> (unit, tuple3 list \<times> string) result) \<Rightarrow> nat \<Rightarrow> string \<Rightarrow> (unit, tuple3 list) result" where
  "read_pages read 0 cont = Inr []"
| "read_pages read (Suc n) cont =
     (case read cont of
        Inl e \<Rightarrow> Inl e
      | Inr (keys, follow) \<Rightarrow>
          if follow = [] then Inr keys
          else (case read_pages read n follow of Inl e \<Rightarrow> Inl e | Inr rest \<Rightarrow> Inr (keys @ rest)))"

definition ReadTuples :: "('tok, 'az, 'w) EnvelopeDeps \<Rightarrow> string \<Rightarrow> string \<Rightarrow> (unit, tuple3 list) result" where
  "ReadTuples d rel obj = (if \<not> ed_fga_enabled d then Inr [] else read_pages (ed_fga_read d rel obj) fgaReadMaxPages [])"

record EnvelopeSendContext =
  sc_FGASendDecision :: string
  sc_Depth :: int
  sc_EffectClass :: string
  sc_SenderScopes :: "string list"
  sc_SenderRiskScore :: int
  sc_SenderRemainingCost :: int
  sc_SenderSuspended :: bool
  sc_SenderGroupID :: string
  sc_RecipientGroupID :: string
  sc_Relationship :: string

definition envelope_input :: "int \<Rightarrow> string list \<Rightarrow> EnvelopeSendContext \<Rightarrow> EnvelopeInput" where
  "envelope_input maxCost attenuated sc =
     \<lparr>in_fga_send_decision = (if sc_FGASendDecision sc = [] then ''allow'' else sc_FGASendDecision sc),
      in_relationship = sc_Relationship sc, in_effect_class = sc_EffectClass sc,
      in_depth = (if sc_Depth sc < 1 then 1 else sc_Depth sc), in_attenuated_scopes = attenuated, in_max_cost_units = maxCost,
      in_capability_scopes = sc_SenderScopes sc, in_risk_score = sc_SenderRiskScore sc,
      in_remaining_cost_budget = sc_SenderRemainingCost sc, in_is_suspended = sc_SenderSuspended sc,
      in_sender_group = sc_SenderGroupID sc, in_recipient_group = sc_RecipientGroupID sc\<rparr>"

definition zero_EnvelopeDecision :: EnvelopeDecision where
  "zero_EnvelopeDecision =
     \<lparr>ed_Allow = False, ed_AutoAccept = False, ed_RequireManualAccept = False, ed_ScopeViolations = [], ed_DenyReasons = []\<rparr>"

definition DecideEnvelopeSend :: "('tok, 'az, 'w) EnvelopeDeps \<Rightarrow> int \<Rightarrow> string list \<Rightarrow> EnvelopeSendContext
  \<Rightarrow> (policy_error, EnvelopeDecision) result" where
  "DecideEnvelopeSend d maxCost attenuated sc =
     (case queryOPA (ed_Bundle d) (ed_OPA d (envelope_input maxCost attenuated sc)) of
        (Inl e, _) \<Rightarrow> Inl e
      | (Inr None, _) \<Rightarrow> Inr zero_EnvelopeDecision
      | (Inr (Some dec), _) \<Rightarrow> Inr dec)"

text \<open>
  The repository's own policy (policies/opa/envelope\_send.rego), as the function from the input
  to the document: the sets of messages are answered in order, an undefined rule reads as false.
\<close>

definition scope_violations :: "EnvelopeInput \<Rightarrow> string list" where
  "scope_violations i =
     sort (remdups (map (\<lambda>s. ''Scope '' @ [CHR 0x27] @ s @ [CHR 0x27] @ '' is not in sender's capability set and cannot be delegated.'')
       (filter (\<lambda>s. s \<notin> set (in_capability_scopes i)) (in_attenuated_scopes i))))"

definition deny_reasons :: "EnvelopeInput \<Rightarrow> string list" where
  "deny_reasons i =
     sort ((if in_max_cost_units i > in_remaining_cost_budget i then [''Delegation cost budget exceeds sender's remaining budget.''] else []) @
           (if in_risk_score i > 70 then [''Sender's risk score is elevated. Delegation is suspended.''] else []) @
           (if in_depth i \<ge> 5 then [''Maximum delegation depth (5) reached. No further delegation permitted.''] else []))"

definition envelope_send_policy :: "EnvelopeInput \<Rightarrow> EnvelopeDecision" where
  "envelope_send_policy i =
     \<lparr>ed_Allow = (in_fga_send_decision i = ''allow'' \<and> in_depth i < 5 \<and> scope_violations i = [] \<and> deny_reasons i = []),
      ed_AutoAccept = (in_relationship i = ''direct_report'' \<and> in_effect_class i \<in> {''read_only'', ''write_local''}
        \<and> in_max_cost_units i \<le> 100 \<and> in_risk_score i < 40 \<and> \<not> in_is_suspended i),
      ed_RequireManualAccept = (in_sender_group i \<noteq> in_recipient_group i),
      ed_ScopeViolations = scope_violations i, ed_DenyReasons = deny_reasons i\<rparr>"

section \<open>Delegable scopes (delegation\_scopes.go)\<close>

definition stubDelegationScopes :: "string list" where
  "stubDelegationScopes = [''siem:read'', ''slack:write'', ''doc:write'', ''workspace:read'']"

definition scopes_of_skills :: "Registry \<Rightarrow> string list \<Rightarrow> string list" where
  "scopes_of_skills reg objects = List.map_filter (\<lambda>obj. RequiredScope reg (TrimPrefix obj ''skill:'')) objects"

definition senderDelegableScopes :: "('tok, 'az, 'w) EnvelopeDeps \<Rightarrow> string \<Rightarrow> (unit, string list \<times> string) result" where
  "senderDelegableScopes d user =
     (if \<not> ed_fga_enabled d then Inr (stubDelegationScopes, ''dev-stub'')
      else case ed_ToolRegistry d of
             None \<Rightarrow> Inl ()
           | Some reg \<Rightarrow>
               (case ListObjects d (''user:'' @ user) ''can_invoke'' ''skill'' of
                  Inl e \<Rightarrow> Inl e
                | Inr objects \<Rightarrow> Inr (sort (remdups (scopes_of_skills reg objects)), ''fga-derived'')))"

section \<open>Groups (service\_envelopes.go, service\_delegatable\_users.go)\<close>

definition sharedAny :: "string list \<Rightarrow> string list \<Rightarrow> bool" where
  "sharedAny a b = (if a = [] \<or> b = [] then False else list_ex (\<lambda>v. v \<in> set a) b)"

definition sharesDelegatableGroup :: "('tok, 'az, 'w) EnvelopeDeps \<Rightarrow> string \<Rightarrow> string \<Rightarrow> bool" where
  "sharesDelegatableGroup d from to =
     (case ListObjects d (''user:'' @ from) ''delegatable_member'' ''group'' of
        Inl _ \<Rightarrow> False
      | Inr fromGroups \<Rightarrow>
          (case ListObjects d (''user:'' @ to) ''delegatable_member'' ''group'' of
             Inl _ \<Rightarrow> False
           | Inr toGroups \<Rightarrow> sharedAny fromGroups toGroups))"

definition member_subject :: "string \<Rightarrow> tuple3 \<Rightarrow> string option" where
  "member_subject excludeUser tpl =
     (case tpl of (u, rel, _) \<Rightarrow>
        if rel \<noteq> ''member'' then None
        else case CutPrefix u ''user:'' of
               None \<Rightarrow> None
             | Some subj \<Rightarrow> if subj = [] \<or> EqualFold subj excludeUser then None else Some subj)"

definition groupMembersExcluding :: "('tok, 'az, 'w) EnvelopeDeps \<Rightarrow> string \<Rightarrow> string \<Rightarrow> (unit, string list) result" where
  "groupMembersExcluding d groupID excludeUser =
     (case ReadTuples d ''member'' groupID of
        Inl e \<Rightarrow> Inl e
      | Inr tuples \<Rightarrow> Inr (List.map_filter (member_subject excludeUser) tuples))"

section \<open>The capability recorded on an envelope\<close>

text \<open>72 hours.\<close>

definition envelopeTTL :: int where "envelopeTTL = 259200000000000"

datatype token_error = TokDecode | TokCapability cap_error

definition subject_only :: "string \<Rightarrow> OnBehalfOf" where
  "subject_only user =
     \<lparr>Subject = user, Actor = [], ServiceRun = False, obo_ServiceAgent = False, DelegatedBy = [], obo_EnvelopeID = [],
      obo_ExternalClientID = [], obo_GrantID = [], obo_Kind = []\<rparr>"

definition cap_err :: "(cap_error, 'a) result \<Rightarrow> (token_error, 'a) result" where
  "cap_err r = (case r of Inl e \<Rightarrow> Inl (TokCapability e) | Inr a \<Rightarrow> Inr a)"

definition buildDelegationToken :: "('tok, 'az, 'w) EnvelopeDeps \<Rightarrow> int \<Rightarrow> string \<Rightarrow> string \<Rightarrow> string list \<Rightarrow> string list
  \<Rightarrow> (token_error, string) result" where
  "buildDelegationToken d now recipient parentB64 attenuated senderScopes =
     (case ed_Capability d of
        None \<Rightarrow> Inr []
      | Some m \<Rightarrow>
          if attenuated = [] then Inr []
          else bindE
            (if parentB64 \<noteq> []
             then (case std_decode parentB64 of
                     None \<Rightarrow> Inl TokDecode
                   | Some parent \<Rightarrow> cap_err (Attenuate (ed_Biscuit d) parent attenuated))
             else bindE (cap_err (MintTTL (ed_Biscuit d) m now recipient [] (subject_only recipient) senderScopes envelopeTTL))
                    (\<lambda>minted. cap_err (Attenuate (ed_Biscuit d) minted attenuated)))
            (\<lambda>raw. Inr (std_encode raw)))"

section \<open>Spawning the recipient's task\<close>

definition delegated_task :: "string \<Rightarrow> EnvelopeRow \<Rightarrow> string \<Rightarrow> string \<Rightarrow> Task" where
  "delegated_task taskID env owner traceID =
     applyEnvelopeLimits (new_task taskID (env_TenantID env) owner (spec_string (env_TaskSpec env) ''intent'') 1000 traceID None [] False)
       (Envelope.truncate env)"

definition spawnDelegatedTask :: "('tok, 'az, 'w) EnvelopeDeps \<Rightarrow> bool \<Rightarrow> string \<Rightarrow> EnvelopeRow \<Rightarrow> string \<Rightarrow> string \<Rightarrow> Db
  \<Rightarrow> (db_error, string) result \<times> effects \<times> Db" where
  "spawnDelegatedTask d fail taskID env owner traceID db =
     (case Create fail (delegated_task taskID env owner traceID) db of
        Inl e \<Rightarrow> (Inl e, ([], []), db)
      | Inr db' \<Rightarrow> (Inr taskID, (task_relations (ed_Task d) owner taskID, []), db'))"

section \<open>Sending (SendEnvelope)\<close>

record EnvelopeTask =
  et_Intent :: string
  et_PayloadRef :: string
  et_RequiredSkills :: "string list"
  et_Priority :: string

record EnvelopeDelegation =
  dl_CapabilityToken :: string
  dl_AttenuatedScopes :: "string list"
  dl_MaxCostUnits :: int

datatype EnvelopeRecipient = To_user string | To_group string | To_role string | To_nobody

text \<open>A missing task reads as one of empty fields, which its record stands for.\<close>

record SendEnvelopeReq =
  se_TenantId :: string
  se_FromUserId :: string
  se_Recipient :: EnvelopeRecipient
  se_Task :: EnvelopeTask
  se_Delegation :: "EnvelopeDelegation option"

definition maxEnvelopePayloadRefBytes :: nat where "maxEnvelopePayloadRefBytes = 512"
definition maxEnvelopeListItems :: nat where "maxEnvelopeListItems = 64"
definition maxEnvelopeListItemBytes :: nat where "maxEnvelopeListItemBytes = 256"
definition maxEnvelopeFanOut :: nat where "maxEnvelopeFanOut = 50"
definition defaultDelegationBudget :: int where "defaultDelegationBudget = 1000"

definition req_scopes :: "SendEnvelopeReq \<Rightarrow> string list" where
  "req_scopes req = (case se_Delegation req of None \<Rightarrow> [] | Some dl \<Rightarrow> dl_AttenuatedScopes dl)"

definition req_max_cost :: "SendEnvelopeReq \<Rightarrow> int" where
  "req_max_cost req = (case se_Delegation req of None \<Rightarrow> 0 | Some dl \<Rightarrow> dl_MaxCostUnits dl)"

definition req_token :: "SendEnvelopeReq \<Rightarrow> string" where
  "req_token req = (case se_Delegation req of None \<Rightarrow> [] | Some dl \<Rightarrow> dl_CapabilityToken dl)"

definition validate_list :: "string \<Rightarrow> string list \<Rightarrow> (rpc_error, unit) result" where
  "validate_list name items =
     (if length items > maxEnvelopeListItems then Inl (Status InvalidArgument (name @ '' has more than 64 entries''))
      else if list_ex (\<lambda>i. length i > maxEnvelopeListItemBytes) items
      then Inl (Status InvalidArgument (name @ '' entry longer than 256 bytes''))
      else Inr ())"

text \<open>Go visits the two lists in map order; here the required skills first.\<close>

definition validateEnvelopeFields :: "SendEnvelopeReq \<Rightarrow> (rpc_error, unit) result" where
  "validateEnvelopeFields req =
     (if length (et_Intent (se_Task req)) > maxPromptBytes then Inl (Status InvalidArgument ''intent longer than 32768 bytes'')
      else if length (et_PayloadRef (se_Task req)) > maxEnvelopePayloadRefBytes
      then Inl (Status InvalidArgument ''payload_ref longer than 512 bytes'')
      else bindE (validate_list ''required_skills'' (et_RequiredSkills (se_Task req)))
             (\<lambda>_. validate_list ''attenuated_scopes'' (req_scopes req)))"

definition envelope_event :: "string \<Rightarrow> string \<Rightarrow> string \<Rightarrow> AuditPolicyDecision \<Rightarrow> AuditEvent" where
  "envelope_event tenant actor etype dec =
     \<lparr>ev_Type = etype, ev_TenantID = tenant, ev_ActorUserID = actor, ev_ResourceRef = [], ev_Decision = dec, ev_Reason = []\<rparr>"

definition send_decision_event :: "string \<Rightarrow> string \<Rightarrow> string \<Rightarrow> bool \<Rightarrow> AuditEvent" where
  "send_decision_event tenant from recipient allow =
     \<lparr>ev_Type = ''aikonos.broker.policy.decision'', ev_TenantID = tenant, ev_ActorUserID = from,
      ev_ResourceRef = ''user:'' @ recipient, ev_Decision = (if allow then ALLOW else DENY), ev_Reason = []\<rparr>"

definition joinReasons :: "string list \<Rightarrow> string" where
  "joinReasons rs = (if rs = [] then ''policy denied'' else Join rs ''; '')"

text \<open>May the sender delegate to the recipient: a direct edge, or a group they share.\<close>

definition fga_direct :: "('tok, 'az, 'w) EnvelopeDeps \<Rightarrow> string \<Rightarrow> string \<Rightarrow> bool" where
  "fga_direct d from recipient =
     (case td_Check (ed_Task d) (''user:'' @ from) ''can_delegate_to_user'' (''user:'' @ recipient) of Inr ok \<Rightarrow> ok | Inl _ \<Rightarrow> False)"

definition may_delegate :: "('tok, 'az, 'w) EnvelopeDeps \<Rightarrow> string \<Rightarrow> string \<Rightarrow> bool" where
  "may_delegate d from recipient = (fga_direct d from recipient \<or> sharesDelegatableGroup d from recipient)"

definition send_context :: "bool \<Rightarrow> string list \<Rightarrow> EnvelopeSendContext" where
  "send_context fgaOK senderScopes =
     \<lparr>sc_FGASendDecision = (if fgaOK then ''allow'' else ''deny''), sc_Depth = 1, sc_EffectClass = ''write_external'',
      sc_SenderScopes = senderScopes, sc_SenderRiskScore = 0, sc_SenderRemainingCost = defaultDelegationBudget,
      sc_SenderSuspended = False, sc_SenderGroupID = [], sc_RecipientGroupID = [], sc_Relationship = ''peer''\<rparr>"

definition scopes_json :: "string list \<Rightarrow> json" where
  "scopes_json ss = (if ss = [] then JNull else JArr (map JStr ss))"

text \<open>The row handed to CreateEnvelope, which sets its id, state and creation time.\<close>

definition new_envelope :: "SendEnvelopeReq \<Rightarrow> string \<Rightarrow> string \<Rightarrow> string \<Rightarrow> string \<Rightarrow> string \<Rightarrow> int \<Rightarrow> EnvelopeRow" where
  "new_envelope req tenantUUID from recipient capToken traceID now =
     \<lparr>env_ID = [], env_ParentTaskID = None, env_TenantID = tenantUUID, env_FromUserID = from, env_ToType = ''user'', env_ToID = recipient,
      env_MaxCostUnits = req_max_cost req, env_AttenuatedScopes = Some (scopes_json (req_scopes req)), env_State = EnvelopePending,
      env_ExpiresAt = Some (now + envelopeTTL),
      env_TaskSpec = [(''intent'', JStr (et_Intent (se_Task req))), (''payload_ref'', JStr (et_PayloadRef (se_Task req))),
        (''required_skills'', scopes_json (et_RequiredSkills (se_Task req))), (''priority'', JStr (et_Priority (se_Task req)))],
      env_CapabilityToken = capToken, env_Depth = 1, env_TraceID = traceID, env_CreatedAt = 0\<rparr>"

type_synonym 'w send_result = "(rpc_error, string \<times> string) result \<times> effects \<times> 'w EnvWorld"

text \<open>The delivery once the policy allowed it: the token, the row, and the task of an auto-accept.\<close>

definition deliver :: "('tok, 'az, 'w) EnvelopeDeps \<Rightarrow> Draw \<Rightarrow> SendEnvelopeReq \<Rightarrow> string \<Rightarrow> string \<Rightarrow> string \<Rightarrow> string \<Rightarrow> string
  \<Rightarrow> string list \<Rightarrow> bool \<Rightarrow> 'w EnvWorld \<Rightarrow> 'w send_result" where
  "deliver d dr req tenant tenantUUID from recipient traceID senderScopes autoAccept w =
     (let decided = send_decision_event tenant from recipient True in
      case buildDelegationToken d (dr_Now dr) recipient (req_token req) (req_scopes req) senderScopes of
        Inl _ \<Rightarrow> (Inl (Status Internal ''failed to build capability token''), ([], [decided]), w)
      | Inr capToken \<Rightarrow>
          (let initial = (if autoAccept then EnvelopeAccepted else EnvelopeDelivered);
               env = new_envelope req tenantUUID from recipient capToken traceID (dr_Now dr)
           in case CreateEnvelope (dr_FailEnvelope dr) (dr_EnvelopeID dr) (dr_DbNow dr) (ew_Db w) env initial (ew_Envelopes w) of
                Inl _ \<Rightarrow> (Inl (Status Internal ''failed to create envelope''), ([], [decided]), w)
              | Inr (envID, envs) \<Rightarrow>
                  (case (if autoAccept
                         then spawnDelegatedTask d (dr_FailTask dr) (dr_TaskID dr) (env\<lparr>env_ID := envID\<rparr>) recipient traceID (ew_Db w)
                         else (Inr [], ([], []), ew_Db w)) of
                     (_, (rels, evs), db) \<Rightarrow>
                       (Inr (envID, traceID),
                        (rels, [decided] @ evs @ [envelope_event tenant from ''aikonos.broker.envelope.sent'' ALLOW]),
                        w\<lparr>ew_Db := db, ew_Envelopes := envs\<rparr>))))"

definition sendEnvelopeToUser :: "('tok, 'az, 'w) EnvelopeDeps \<Rightarrow> Draw \<Rightarrow> SendEnvelopeReq \<Rightarrow> string \<Rightarrow> string \<Rightarrow> string \<Rightarrow> string
  \<Rightarrow> 'w EnvWorld \<Rightarrow> 'w send_result" where
  "sendEnvelopeToUser d dr req tenant from recipient traceID w =
     (let denied = envelope_event tenant from ''aikonos.broker.envelope.denied'' DENY in
      if EqualFold from recipient then (Inl (Status PermissionDenied ''self-delegation not permitted''), ([], [denied]), w)
      else case rd_UUID (td_Run (ed_Task d)) tenant of
             None \<Rightarrow> (Inl (Status InvalidArgument ''invalid tenant_id''), ([], []), w)
           | Some tenantUUID \<Rightarrow>
               (case senderDelegableScopes d from of
                  Inl _ \<Rightarrow> (Inl (Status Internal ''delegation scope resolution failed''), ([], [denied]), w)
                | Inr (senderScopes, _) \<Rightarrow>
                    (case DecideEnvelopeSend d (req_max_cost req) (req_scopes req) (send_context (may_delegate d from recipient) senderScopes) of
                       Inl _ \<Rightarrow> (Inl (Status Internal ''policy evaluation failed''), ([], []), w)
                     | Inr dec \<Rightarrow>
                         if \<not> ed_Allow dec
                         then (Inl (Status PermissionDenied (''delegation denied: '' @ joinReasons (ed_ScopeViolations dec @ ed_DenyReasons dec))),
                               ([], [send_decision_event tenant from recipient False, denied]), w)
                         else deliver d dr req tenant tenantUUID from recipient traceID senderScopes (ed_AutoAccept dec) w)))"

text \<open>The fan-out: a member that cannot be delivered to is skipped; the number delivered is counted.\<close>

fun send_members :: "('tok, 'az, 'w) EnvelopeDeps \<Rightarrow> (nat \<Rightarrow> Draw) \<Rightarrow> nat \<Rightarrow> SendEnvelopeReq \<Rightarrow> string \<Rightarrow> string \<Rightarrow> string
  \<Rightarrow> string list \<Rightarrow> 'w EnvWorld \<Rightarrow> nat \<times> effects \<times> 'w EnvWorld" where
  "send_members d draws k req tenant from traceID [] w = (0, ([], []), w)"
| "send_members d draws k req tenant from traceID (m # ms) w =
     (case sendEnvelopeToUser d (draws k) req tenant from m traceID w of
        (r, (rels1, evs1), w1) \<Rightarrow>
          (case send_members d draws (Suc k) req tenant from traceID ms w1 of
             (n, (rels2, evs2), w2) \<Rightarrow> ((if is_ok r then Suc n else n), (rels1 @ rels2, evs1 @ evs2), w2)))"

definition sendEnvelopeToGroup :: "('tok, 'az, 'w) EnvelopeDeps \<Rightarrow> (nat \<Rightarrow> Draw) \<Rightarrow> SendEnvelopeReq \<Rightarrow> string \<Rightarrow> string \<Rightarrow> string \<Rightarrow> string
  \<Rightarrow> 'w EnvWorld \<Rightarrow> 'w send_result" where
  "sendEnvelopeToGroup d draws req tenant from groupID traceID w =
     (let refuse = (\<lambda>c msg evs. (Inl (Status c msg), ([], evs), w)) in
      case ListObjects d (''user:'' @ from) ''delegatable_member'' ''group'' of
        Inl _ \<Rightarrow> refuse PermissionDenied ''delegation denied: could not verify group membership'' []
      | Inr senderGroups \<Rightarrow>
          if \<not> list_ex (\<lambda>g. g = groupID) senderGroups
          then refuse PermissionDenied (''delegation denied: sender is not a member of '' @ groupID) []
          else (case groupMembersExcluding d groupID from of
                  Inl _ \<Rightarrow> refuse PermissionDenied ''delegation denied: could not resolve group members'' []
                | Inr members \<Rightarrow>
                    if length members > maxEnvelopeFanOut
                    then refuse ResourceExhausted (''group has '' @ Itoa (int (length members)) @ '' members; one send reaches at most 50'')
                           [envelope_event tenant from ''aikonos.broker.envelope.denied'' DENY]
                    else (case send_members d draws 0 req tenant from traceID members w of
                            (delivered, eff, w') \<Rightarrow>
                              if delivered = 0
                              then (Inl (Status PermissionDenied ''delegation denied: no deliverable group members''), eff, w')
                              else (Inr ([], traceID), eff, w'))))"

definition SendEnvelope :: "('tok, 'az, 'w) EnvelopeDeps \<Rightarrow> Identity option \<Rightarrow> (nat \<Rightarrow> Draw) \<Rightarrow> string \<Rightarrow> SendEnvelopeReq
  \<Rightarrow> 'w EnvWorld \<Rightarrow> 'w send_result" where
  "SendEnvelope d ident draws traceID req w =
     (case callerIdentity (td_uuid_ok (ed_Task d)) ident (se_TenantId req) (se_FromUserId req) of
        Inl e \<Rightarrow> (Inl e, ([], []), w)
      | Inr (tenant, from) \<Rightarrow>
          (case validateEnvelopeFields req of
             Inl e \<Rightarrow> (Inl e, ([], []), w)
           | Inr _ \<Rightarrow>
               (let none = (Inl (Status InvalidArgument ''recipient must specify user_id, group_id, or role''), ([], []), w) in
                case se_Recipient req of
                  To_user u \<Rightarrow> if u \<noteq> [] then sendEnvelopeToUser d (draws 0) req tenant from u traceID w else none
                | To_group g \<Rightarrow> if g \<noteq> [] then sendEnvelopeToGroup d draws req tenant from g traceID w else none
                | To_role r \<Rightarrow>
                    if r \<noteq> [] then (Inl (Status Unimplemented ''role recipient targeting is not supported''), ([], []), w) else none
                | To_nobody \<Rightarrow> none)))"

section \<open>Answering (RespondToEnvelope, DismissEnvelope)\<close>

definition skillTransferEnvelopeKind :: string where "skillTransferEnvelopeKind = ''skill_transfer''"

definition spec_kind :: "EnvelopeRow \<Rightarrow> string" where
  "spec_kind e = spec_string (env_TaskSpec e) ''kind''"

definition load_envelope :: "('tok, 'az, 'w) EnvelopeDeps \<Rightarrow> bool \<Rightarrow> string \<Rightarrow> string \<Rightarrow> EnvelopeRow list \<Rightarrow> (rpc_error, EnvelopeRow) result" where
  "load_envelope d fail tenant envelopeID envs =
     (case GetEnvelope (rd_UUID (td_Run (ed_Task d))) fail tenant envelopeID envs of
        Inl ErrNotFound \<Rightarrow> Inl (Status NotFound (''envelope '' @ envelopeID @ '' not found''))
      | Inl _ \<Rightarrow> Inl (Status Internal ''failed to load envelope'')
      | Inr e \<Rightarrow> Inr e)"

record RespondReq =
  re_TenantId :: string
  re_UserId :: string
  re_EnvelopeId :: string
  re_Accepted :: bool

text \<open>
  The first half of RespondToEnvelope: the caller, the loaded row and the checks on it.  Other
  calls may run before the second half, which updates the row and spawns the task.
\<close>

definition respond_check :: "('tok, 'az, 'w) EnvelopeDeps \<Rightarrow> Identity option \<Rightarrow> bool \<Rightarrow> int \<Rightarrow> RespondReq \<Rightarrow> EnvelopeRow list
  \<Rightarrow> (string \<times> string \<times> EnvelopeRow) check" where
  "respond_check d ident failGet now req envs =
     (case callerIdentity (td_uuid_ok (ed_Task d)) ident (re_TenantId req) (re_UserId req) of
        Inl e \<Rightarrow> (Inl e, [])
      | Inr (tenant, user) \<Rightarrow>
          (case load_envelope d failGet tenant (re_EnvelopeId req) envs of
             Inl e \<Rightarrow> (Inl e, [])
           | Inr env \<Rightarrow>
               if spec_kind env = skillTransferEnvelopeKind
               then (Inl (Status FailedPrecondition ''a skill transfer envelope must be accepted via AcceptSkillTransfer''), [])
               else if \<not> re_Accepted req then (Inr (tenant, user, env), [])
               else if (case env_ExpiresAt env of None \<Rightarrow> False | Some t \<Rightarrow> \<not> now < t)
               then (Inl (Status FailedPrecondition (''envelope '' @ re_EnvelopeId req @ '' has expired'')), [])
               else (case td_RevUser (ed_Task d) tenant (env_FromUserID env) of
                       Inl _ \<Rightarrow> (Inl (Status Unavailable ''access state could not be read; retry''), [])
                     | Inr st \<Rightarrow>
                         if Revoked st (Some (env_CreatedAt env))
                         then (Inl (Status PermissionDenied ''the sender's access was revoked after this envelope was sent''),
                               [envelope_event tenant user ''aikonos.broker.envelope.sender_revoked'' DENY])
                         else (Inr (tenant, user, env), []))))"

definition respond_commit :: "('tok, 'az, 'w) EnvelopeDeps \<Rightarrow> bool \<Rightarrow> bool \<Rightarrow> int \<Rightarrow> string \<Rightarrow> string \<Rightarrow> RespondReq
  \<Rightarrow> string \<times> string \<times> EnvelopeRow \<Rightarrow> 'w EnvWorld \<Rightarrow> (rpc_error, unit) result \<times> effects \<times> 'w EnvWorld" where
  "respond_commit d failRespond failTask dbNow taskID traceID req loaded w =
     (case loaded of (tenant, user, env) \<Rightarrow>
        (case RespondEnvelope (rd_UUID (td_Run (ed_Task d))) failRespond dbNow tenant (re_EnvelopeId req) user (re_Accepted req) (ew_Envelopes w) of
           Inl NotInState \<Rightarrow> (Inl (Status FailedPrecondition (''envelope '' @ re_EnvelopeId req @ '' not pending for user '' @ user)), ([], []), w)
         | Inl _ \<Rightarrow> (Inl (Status FailedPrecondition ''respond envelope''), ([], []), w)
         | Inr (_, envs) \<Rightarrow>
             if re_Accepted req
             then (case spawnDelegatedTask d failTask taskID env user traceID (ew_Db w) of
                     (_, (rels, evs), db) \<Rightarrow>
                       (Inr (), (rels, evs @ [envelope_event tenant user ''aikonos.broker.envelope.accepted'' ALLOW]),
                        w\<lparr>ew_Db := db, ew_Envelopes := envs\<rparr>))
             else (Inr (), ([], [envelope_event tenant user ''aikonos.broker.envelope.rejected'' DENY]), w\<lparr>ew_Envelopes := envs\<rparr>)))"

definition RespondToEnvelope :: "('tok, 'az, 'w) EnvelopeDeps \<Rightarrow> Identity option \<Rightarrow> bool \<Rightarrow> bool \<Rightarrow> bool \<Rightarrow> int \<Rightarrow> int \<Rightarrow> string \<Rightarrow> string
  \<Rightarrow> RespondReq \<Rightarrow> 'w EnvWorld \<Rightarrow> (rpc_error, unit) result \<times> effects \<times> 'w EnvWorld" where
  "RespondToEnvelope d ident failGet failRespond failTask now dbNow taskID traceID req w =
     (case respond_check d ident failGet now req (ew_Envelopes w) of
        (Inl e, evs) \<Rightarrow> (Inl e, ([], evs), w)
      | (Inr loaded, _) \<Rightarrow> respond_commit d failRespond failTask dbNow taskID traceID req loaded w)"

definition gcStagingIfUnreferenced :: "('tok, 'az, 'w) EnvelopeDeps \<Rightarrow> bool \<Rightarrow> string \<Rightarrow> string \<Rightarrow> 'w EnvWorld \<Rightarrow> 'w EnvWorld" where
  "gcStagingIfUnreferenced d failCount tenant stagingSeg w =
     (if stagingSeg = [] then w
      else case CountEnvelopesByPayloadRef failCount tenant stagingSeg (ew_Envelopes w) of
             Inl _ \<Rightarrow> w
           | Inr n \<Rightarrow> if n = 0 then w\<lparr>ew_Workspace := ed_GcSegment d tenant stagingSeg (ew_Workspace w)\<rparr> else w)"

definition DismissEnvelope :: "('tok, 'az, 'w) EnvelopeDeps \<Rightarrow> Identity option \<Rightarrow> bool \<Rightarrow> bool \<Rightarrow> bool \<Rightarrow> string \<Rightarrow> string \<Rightarrow> string
  \<Rightarrow> 'w EnvWorld \<Rightarrow> (rpc_error, unit) result \<times> AuditEvent list \<times> 'w EnvWorld" where
  "DismissEnvelope d ident failGet failDismiss failCount reqTenant reqUser envelopeID w =
     (case callerIdentity (td_uuid_ok (ed_Task d)) ident reqTenant reqUser of
        Inl e \<Rightarrow> (Inl e, [], w)
      | Inr (tenant, user) \<Rightarrow>
          (case load_envelope d failGet tenant envelopeID (ew_Envelopes w) of
             Inl e \<Rightarrow> (Inl e, [], w)
           | Inr env \<Rightarrow>
               (case db_DismissEnvelope (rd_UUID (td_Run (ed_Task d))) failDismiss tenant envelopeID user (ew_Envelopes w) of
                  Inl NotInState \<Rightarrow> (Inl (Status FailedPrecondition (''envelope '' @ envelopeID @ '' not pending for user '' @ user)), [], w)
                | Inl _ \<Rightarrow> (Inl (Status FailedPrecondition ''dismiss envelope''), [], w)
                | Inr (_, envs) \<Rightarrow>
                    (let w1 = w\<lparr>ew_Envelopes := envs\<rparr>; payloadRef = spec_string (env_TaskSpec env) ''payload_ref'' in
                     (Inr (), [envelope_event tenant user ''aikonos.broker.envelope.dismissed'' POLICY_DECISION_UNSPECIFIED],
                      (if spec_kind env = skillTransferEnvelopeKind \<and> payloadRef \<noteq> []
                       then gcStagingIfUnreferenced d failCount tenant payloadRef w1 else w1))))))"

end
