(* ===== verification/EnvelopeSafety.thy ===== *)
theory EnvelopeSafety
  imports Envelopes TaskSafety
begin

text \<open>
  What one call of the envelope handlers does: which rows a send adds and on whose authority, what
  the recorded capability is good for, and what an answer changes.
\<close>

section \<open>The spawned task\<close>

lemma json_strings_scopes [simp]: "json_strings (scopes_json ss) = ss"
  by (induction ss) (simp_all add: scopes_json_def split: if_splits)

text \<open>A task stays within an envelope: owner, delegator, scopes and budget.\<close>

definition task_within :: "EnvelopeRow \<Rightarrow> Task \<Rightarrow> bool" where
  "task_within env t \<longleftrightarrow>
     TenantID t = env_TenantID env \<and> DelegatedByUserID t = Some (env_FromUserID env) \<and> EnvelopeID t = Some (env_ID env)
     \<and> OBOKind t = Some KindDelegated \<and> State t = TaskStateCreated \<and> DelegatedScopes t = map_option json_strings (env_AttenuatedScopes env)
     \<and> 0 < CostBudget t \<and> CostBudget t \<le> 1000 \<and> (0 < env_MaxCostUnits env \<longrightarrow> CostBudget t \<le> env_MaxCostUnits env)
     \<and> CostConsumed t = 0 \<and> Prompt t = spec_string (env_TaskSpec env) ''intent''"

lemma truncate_fields [simp]:
  "env_ID (Envelope.truncate e) = env_ID e" "env_FromUserID (Envelope.truncate e) = env_FromUserID e"
  "env_MaxCostUnits (Envelope.truncate e) = env_MaxCostUnits e" "env_ParentTaskID (Envelope.truncate e) = env_ParentTaskID e"
  "env_AttenuatedScopes (Envelope.truncate e) = env_AttenuatedScopes e"
  by (simp_all add: Envelope.truncate_def)

lemma delegated_task_fields:
  "TaskID (delegated_task tid env owner tr) = tid" "OwnerUserID (delegated_task tid env owner tr) = owner"
  "ClientRequestID (delegated_task tid env owner tr) = []"
  by (simp_all add: delegated_task_def applyEnvelopeLimits_def new_task_def Let_def)

lemma delegated_task_within: "task_within env ((delegated_task tid env owner tr)\<lparr>State := TaskStateCreated, CostConsumed := 0\<rparr>)"
  by (simp add: task_within_def delegated_task_def applyEnvelopeLimits_def new_task_def delegationScopes_def Let_def not_less
      split: option.splits)

lemma spawn_cases:
  assumes "spawnDelegatedTask d fail tid env owner tr db = (r, eff, db')"
  obtains e where "r = Inl e" "eff = ([], [])" "db' = db"
  | t where "r = Inr tid" "db' = db\<lparr>tasks := (tasks db)(tid \<mapsto> t)\<rparr>" "tasks db tid = None" "OwnerUserID t = owner" "task_within env t"
proof (cases "Create fail (delegated_task tid env owner tr) db")
  case (Inl e)
  then show ?thesis using assms that(1) by (auto simp: spawnDelegatedTask_def)
next
  case (Inr db1)
  let ?t = "(delegated_task tid env owner tr)\<lparr>State := TaskStateCreated, CostConsumed := 0\<rparr>"
  from Inr have "db1 = db\<lparr>tasks := (tasks db)(tid \<mapsto> ?t)\<rparr>" "tasks db tid = None"
    by (simp_all add: Create_def delegated_task_fields split: if_splits)
  then show ?thesis
    using assms Inr that(2) [of ?t] delegated_task_within by (simp add: spawnDelegatedTask_def delegated_task_fields)
qed

section \<open>Sending\<close>

text \<open>A row that a send of \<open>from\<close> may add.\<close>

definition sent_row :: "('tok, 'az, 'w) EnvelopeDeps \<Rightarrow> SendEnvelopeReq \<Rightarrow> string \<Rightarrow> string \<Rightarrow> EnvelopeRow \<Rightarrow> bool" where
  "sent_row d req tenantUUID from e \<longleftrightarrow>
     env_TenantID e = tenantUUID \<and> env_FromUserID e = from \<and> env_ToType e = ''user'' \<and> \<not> EqualFold from (env_ToID e)
     \<and> env_MaxCostUnits e = req_max_cost req \<and> env_AttenuatedScopes e = Some (scopes_json (req_scopes req))
     \<and> (\<exists>scopes src dec now.
          senderDelegableScopes d from = Inr (scopes, src)
          \<and> DecideEnvelopeSend d (req_max_cost req) (req_scopes req) (send_context (may_delegate d from (env_ToID e)) scopes) = Inr dec
          \<and> ed_Allow dec \<and> env_State e = (if ed_AutoAccept dec then EnvelopeAccepted else EnvelopeDelivered)
          \<and> buildDelegationToken d now (env_ToID e) (req_token req) (req_scopes req) scopes = Inr (env_CapabilityToken e)
          \<and> env_ExpiresAt e = Some (now + envelopeTTL))"

definition adds :: "'w EnvWorld \<Rightarrow> EnvelopeRow list \<Rightarrow> 'w EnvWorld \<Rightarrow> bool" where
  "adds w news w' \<longleftrightarrow>
     ew_Envelopes w' = ew_Envelopes w @ news \<and> ew_Workspace w' = ew_Workspace w
     \<and> (ids_distinct (ew_Envelopes w) \<longrightarrow> ids_distinct (ew_Envelopes w'))
     \<and> ((\<forall>e \<in> set news. env_State e \<noteq> EnvelopeAccepted) \<longrightarrow> ew_Db w' = ew_Db w)"

lemma adds_Nil [simp]: "adds w [] w"
  by (simp add: adds_def)

lemma adds_append: "adds w n1 w1 \<Longrightarrow> adds w1 n2 w2 \<Longrightarrow> adds w (n1 @ n2) w2"
  by (auto simp: adds_def)

lemma deliver_cases:
  assumes "deliver d dr req tenant tu from rcp tr scopes auto w = (r, eff, w')"
  obtains e where "r = Inl e" "w' = w"
  | row where "r = Inr (dr_EnvelopeID dr, tr)" "adds w [row] w'"
    "env_TenantID row = tu" "env_FromUserID row = from" "env_ToType row = ''user''" "env_ToID row = rcp"
    "env_MaxCostUnits row = req_max_cost req" "env_AttenuatedScopes row = Some (scopes_json (req_scopes req))"
    "env_State row = (if auto then EnvelopeAccepted else EnvelopeDelivered)"
    "buildDelegationToken d (dr_Now dr) rcp (req_token req) (req_scopes req) scopes = Inr (env_CapabilityToken row)"
    "env_ExpiresAt row = Some (dr_Now dr + envelopeTTL)"
proof (cases "buildDelegationToken d (dr_Now dr) rcp (req_token req) (req_scopes req) scopes")
  case (Inl e)
  then show ?thesis using assms that(1) by (auto simp: deliver_def Let_def)
next
  case (Inr tok)
  let ?s = "if auto then EnvelopeAccepted else EnvelopeDelivered"
  let ?env = "new_envelope req tu from rcp tok tr (dr_Now dr)"
  show ?thesis
  proof (cases "CreateEnvelope (dr_FailEnvelope dr) (dr_EnvelopeID dr) (dr_DbNow dr) (ew_Db w) ?env ?s (ew_Envelopes w)")
    case (Inl e)
    then show ?thesis using assms Inr that(1) by (auto simp: deliver_def Let_def)
  next
    case c: (Inr p)
    obtain eid envs where p: "p = (eid, envs)" by (cases p)
    note ok = CreateEnvelope_ok [OF c [unfolded p]]
    let ?row = "?env\<lparr>env_ID := dr_EnvelopeID dr, env_State := ?s, env_Depth := max 1 (env_Depth ?env), env_CreatedAt := dr_DbNow dr\<rparr>"
    from assms Inr c p ok have r: "r = Inr (dr_EnvelopeID dr, tr)" "ew_Envelopes w' = ew_Envelopes w @ [?row]"
      "ew_Workspace w' = ew_Workspace w" "\<not> auto \<Longrightarrow> ew_Db w' = ew_Db w"
      by (auto simp: deliver_def Let_def split: prod.splits)
    have "adds w [?row] w'"
      using r CreateEnvelope_distinct [OF c [unfolded p]] ok(3) by (auto simp: adds_def)
    then show ?thesis
      by (rule that(2) [OF r(1)]) (simp_all add: new_envelope_def Inr)
  qed
qed

lemma sendEnvelopeToUser_adds:
  assumes "sendEnvelopeToUser d dr req tenant from rcp tr w = (r, eff, w')"
  obtains e where "r = Inl e" "w' = w"
  | tu row where "r = Inr (dr_EnvelopeID dr, tr)" "rd_UUID (td_Run (ed_Task d)) tenant = Some tu" "adds w [row] w'"
    "sent_row d req tu from row" "env_ToID row = rcp"
proof (cases "\<exists>e. r = Inl e \<and> w' = w")
  case True
  then show ?thesis using that(1) by blast
next
  case False
  from assms False obtain tu scopes src dec where
    u: "rd_UUID (td_Run (ed_Task d)) tenant = Some tu" and ne: "\<not> EqualFold from rcp"
    and sc: "senderDelegableScopes d from = Inr (scopes, src)"
    and dec: "DecideEnvelopeSend d (req_max_cost req) (req_scopes req) (send_context (may_delegate d from rcp) scopes) = Inr dec"
    and al: "ed_Allow dec"
    and del: "deliver d dr req tenant tu from rcp tr scopes (ed_AutoAccept dec) w = (r, eff, w')"
    by (auto simp: sendEnvelopeToUser_def Let_def split: if_splits option.splits sum.splits)
  from del show ?thesis
  proof (cases rule: deliver_cases)
    case (1 e)
    then show ?thesis using False by blast
  next
    case (2 row)
    have "sent_row d req tu from row"
      unfolding sent_row_def using 2 ne sc dec al by blast
    then show ?thesis using that(2) 2 u by blast
  qed
qed

text \<open>The fan-out adds one row for each delivery, to members only.\<close>

lemma send_members_adds:
  assumes "send_members d draws k req tenant from tr ms w = (n, eff, w')"
  shows "\<exists>news. adds w news w' \<and> length news = n \<and> n \<le> length ms
    \<and> (\<forall>e \<in> set news. env_ToID e \<in> set ms \<and> (\<exists>tu. rd_UUID (td_Run (ed_Task d)) tenant = Some tu \<and> sent_row d req tu from e))"
  using assms
proof (induction ms arbitrary: k w n eff w')
  case Nil
  then show ?case by (intro exI [of _ "[]"]) simp
next
  case (Cons m ms)
  obtain r rels1 evs1 w1 where u: "sendEnvelopeToUser d (draws k) req tenant from m tr w = (r, (rels1, evs1), w1)"
    by (cases "sendEnvelopeToUser d (draws k) req tenant from m tr w") auto
  obtain n2 rels2 evs2 w2 where rest: "send_members d draws (Suc k) req tenant from tr ms w1 = (n2, (rels2, evs2), w2)"
    by (cases "send_members d draws (Suc k) req tenant from tr ms w1") auto
  have n: "n = (if is_ok r then Suc n2 else n2)" "w' = w2" using Cons.prems u rest by auto
  from Cons.IH [OF rest] obtain news where news: "adds w1 news w2" "length news = n2" "n2 \<le> length ms"
    "\<forall>e \<in> set news. env_ToID e \<in> set ms \<and> (\<exists>tu. rd_UUID (td_Run (ed_Task d)) tenant = Some tu \<and> sent_row d req tu from e)"
    by blast
  from u show ?case
  proof (cases rule: sendEnvelopeToUser_adds)
    case (1 e)
    then show ?thesis using news n by (intro exI [of _ news]) auto
  next
    case (2 tu row)
    have "adds w (row # news) w'" using adds_append [OF 2(3) news(1)] n(2) by simp
    then show ?thesis using 2 news n by (intro exI [of _ "row # news"]) auto
  qed
qed

text \<open>Whom the recipient of a request reaches_user.\<close>

fun reaches_user :: "('tok, 'az, 'w) EnvelopeDeps \<Rightarrow> string \<Rightarrow> EnvelopeRecipient \<Rightarrow> string \<Rightarrow> bool" where
  "reaches_user d from (To_user u) x = (x = u)"
| "reaches_user d from (To_group g) x =
     (\<exists>gs ms. ListObjects d (''user:'' @ from) ''delegatable_member'' ''group'' = Inr gs \<and> g \<in> set gs
        \<and> groupMembersExcluding d g from = Inr ms \<and> x \<in> set ms)"
| "reaches_user d from _ x = False"

lemma sendEnvelopeToGroup_adds:
  assumes "sendEnvelopeToGroup d draws req tenant from g tr w = (r, eff, w')"
  shows "\<exists>news. adds w news w' \<and> (is_ok r \<longleftrightarrow> news \<noteq> []) \<and> length news \<le> maxEnvelopeFanOut
    \<and> (\<forall>e \<in> set news. reaches_user d from (To_group g) (env_ToID e)
         \<and> (\<exists>tu. rd_UUID (td_Run (ed_Task d)) tenant = Some tu \<and> sent_row d req tu from e))"
proof (cases "\<exists>e. r = Inl e \<and> w' = w")
  case True
  then show ?thesis by (intro exI [of _ "[]"]) auto
next
  case False
  with assms obtain gs ms n where
    gs: "ListObjects d (''user:'' @ from) ''delegatable_member'' ''group'' = Inr gs" "g \<in> set gs"
    and ms: "groupMembersExcluding d g from = Inr ms" "length ms \<le> maxEnvelopeFanOut"
    and sm: "send_members d draws 0 req tenant from tr ms w = (n, eff, w')" and r: "is_ok r \<longleftrightarrow> n \<noteq> 0"
    by (auto simp: sendEnvelopeToGroup_def Let_def list_ex_iff not_less split: if_splits sum.splits prod.splits)
  from send_members_adds [OF sm] obtain news where news: "adds w news w'" "length news = n" "n \<le> length ms"
    "\<forall>e \<in> set news. env_ToID e \<in> set ms \<and> (\<exists>tu. rd_UUID (td_Run (ed_Task d)) tenant = Some tu \<and> sent_row d req tu from e)"
    by blast
  then show ?thesis using gs ms r by (intro exI [of _ news]) auto
qed

lemma SendEnvelope_adds:
  assumes "SendEnvelope d ident draws tr req w = (r, eff, w')"
  shows "\<exists>news. adds w news w' \<and> (is_ok r \<longleftrightarrow> news \<noteq> []) \<and> length news \<le> maxEnvelopeFanOut
    \<and> (\<forall>e \<in> set news. \<exists>tenant from tu.
         callerIdentity (td_uuid_ok (ed_Task d)) ident (se_TenantId req) (se_FromUserId req) = Inr (tenant, from)
         \<and> rd_UUID (td_Run (ed_Task d)) tenant = Some tu \<and> sent_row d req tu from e \<and> reaches_user d from (se_Recipient req) (env_ToID e))"
proof (cases "\<exists>e. r = Inl e \<and> w' = w")
  case True
  then show ?thesis by (intro exI [of _ "[]"]) auto
next
  case False
  have "callerIdentity (td_uuid_ok (ed_Task d)) ident (se_TenantId req) (se_FromUserId req) \<noteq> Inl e" for e
  proof
    assume "callerIdentity (td_uuid_ok (ed_Task d)) ident (se_TenantId req) (se_FromUserId req) = Inl e"
    with assms have "r = Inl e \<and> w' = w" by (simp add: SendEnvelope_def)
    then show False using False by blast
  qed
  then obtain tenant frm where
    c: "callerIdentity (td_uuid_ok (ed_Task d)) ident (se_TenantId req) (se_FromUserId req) = Inr (tenant, frm)"
    by (metis obj_sumE surj_pair)
  have alts: "(\<exists>u. se_Recipient req = To_user u \<and> sendEnvelopeToUser d (draws 0) req tenant frm u tr w = (r, eff, w'))
      \<or> (\<exists>g. se_Recipient req = To_group g \<and> sendEnvelopeToGroup d draws req tenant frm g tr w = (r, eff, w'))"
    using assms False c by (cases "se_Recipient req") (auto simp: SendEnvelope_def Let_def split: sum.splits if_splits)
  from alts show ?thesis
  proof (elim disjE exE conjE)
    fix u
    assume u: "se_Recipient req = To_user u" "sendEnvelopeToUser d (draws 0) req tenant frm u tr w = (r, eff, w')"
    from u(2) show ?thesis
    proof (cases rule: sendEnvelopeToUser_adds)
      case (1 e)
      then have "\<exists>e. r = Inl e \<and> w' = w" by (intro exI [of _ e]) simp
      then show ?thesis using False by (rule notE [rotated])
    next
      case (2 tu row)
      have "reaches_user d frm (se_Recipient req) (env_ToID row)" using 2(5) u(1) by simp
      then have "\<forall>e \<in> set [row]. \<exists>tenant from tu.
         callerIdentity (td_uuid_ok (ed_Task d)) ident (se_TenantId req) (se_FromUserId req) = Inr (tenant, from)
         \<and> rd_UUID (td_Run (ed_Task d)) tenant = Some tu \<and> sent_row d req tu from e \<and> reaches_user d from (se_Recipient req) (env_ToID e)"
        using 2(2,4) c by auto
      moreover have "is_ok r \<longleftrightarrow> [row] \<noteq> []" "length [row] \<le> maxEnvelopeFanOut"
        using 2(1) by (simp_all add: maxEnvelopeFanOut_def)
      ultimately show ?thesis using 2(3) by blast
    qed
  next
    fix g
    assume g: "se_Recipient req = To_group g" "sendEnvelopeToGroup d draws req tenant frm g tr w = (r, eff, w')"
    from sendEnvelopeToGroup_adds [OF g(2)] show ?thesis unfolding g(1) using c by blast
  qed
qed

text \<open>A scope the user may delegate: it backs a tool the user may invoke.\<close>

definition delegable :: "('tok, 'az, 'w) EnvelopeDeps \<Rightarrow> string \<Rightarrow> string \<Rightarrow> bool" where
  "delegable d user s \<longleftrightarrow>
     (if ed_fga_enabled d
      then \<exists>reg objs ob. ed_ToolRegistry d = Some reg \<and> ed_fga_list d (''user:'' @ user) ''can_invoke'' ''skill'' = Inr objs
        \<and> ob \<in> set objs \<and> RequiredScope reg (TrimPrefix ob ''skill:'') = Some s
      else s \<in> set stubDelegationScopes)"

lemma set_scopes_of_skills:
  "s \<in> set (scopes_of_skills reg objs) \<longleftrightarrow> (\<exists>ob \<in> set objs. RequiredScope reg (TrimPrefix ob ''skill:'') = Some s)"
  by (induction objs) (auto simp: scopes_of_skills_def map_filter_simps split: option.splits)

lemma senderDelegableScopes_delegable:
  "senderDelegableScopes d user = Inr (scopes, src) \<Longrightarrow> s \<in> set scopes \<Longrightarrow> delegable d user s"
  by (auto simp: senderDelegableScopes_def delegable_def ListObjects_def set_scopes_of_skills split: if_splits option.splits sum.splits)

text \<open>The endpoint evaluates the repository's policy: a document it answers is that policy's.\<close>

definition runs_policy :: "('tok, 'az, 'w) EnvelopeDeps \<Rightarrow> bool" where
  "runs_policy d \<longleftrightarrow> (\<forall>i dec. fst (queryOPA (ed_Bundle d) (ed_OPA d i)) = Inr (Some dec) \<longrightarrow> dec = envelope_send_policy i)"

lemma sort_eq_Nil [simp]: "sort xs = [] \<longleftrightarrow> xs = []"
  by (metis set_empty set_sort)

lemma policy_allows:
  assumes "runs_policy d" "DecideEnvelopeSend d c att (send_context ok scopes) = Inr dec" "ed_Allow dec"
  shows "ok" "set att \<subseteq> set scopes" "c \<le> defaultDelegationBudget" "\<not> ed_AutoAccept dec"
proof -
  let ?i = "envelope_input c att (send_context ok scopes)"
  obtain x meta where q: "queryOPA (ed_Bundle d) (ed_OPA d ?i) = (x, meta)" by (cases "queryOPA (ed_Bundle d) (ed_OPA d ?i)")
  from assms(2,3) q have "x = Inr (Some dec)"
    by (auto simp: DecideEnvelopeSend_def zero_EnvelopeDecision_def split: sum.splits option.splits)
  then have dec: "dec = envelope_send_policy ?i" using assms(1) q by (metis fst_conv runs_policy_def)
  have "in_fga_send_decision ?i = ''allow''" "scope_violations ?i = []" "deny_reasons ?i = []"
    using assms(3) by (simp_all add: dec envelope_send_policy_def)
  moreover have "filter (\<lambda>s. s \<notin> set (in_capability_scopes ?i)) (in_attenuated_scopes ?i) = []"
    using \<open>scope_violations ?i = []\<close> by (simp add: scope_violations_def)
  moreover have "\<not> in_max_cost_units ?i > in_remaining_cost_budget ?i"
    using \<open>deny_reasons ?i = []\<close> by (simp add: deny_reasons_def split: if_splits)
  ultimately show "ok" "set att \<subseteq> set scopes" "c \<le> defaultDelegationBudget"
    by (auto simp: envelope_input_def send_context_def filter_empty_conv split: if_splits)
  show "\<not> ed_AutoAccept dec"
    by (simp add: dec envelope_send_policy_def envelope_input_def send_context_def)
qed

text \<open>
  C21.  A send delegates no more than the sender holds.  With the repository's policy behind the
  policy endpoint, every envelope a call adds is from the authenticated caller, to a recipient other
  than the caller whom the request names or whose group the caller shares, whom the caller may
  delegate to; each scope on it backs a tool the caller may invoke, its cost limit lies within the
  sender's budget, and it waits for an answer: no task is started.  A call reaches_user at most fifty
  recipients, and succeeds exactly when it reached one.
\<close>

theorem delegation_is_attenuated:
  assumes "SendEnvelope d ident draws tr req w = (r, eff, w')" "runs_policy d"
  shows "ew_Db w' = ew_Db w \<and>
    (\<exists>news. ew_Envelopes w' = ew_Envelopes w @ news \<and> (is_ok r \<longleftrightarrow> news \<noteq> []) \<and> length news \<le> 50
      \<and> (\<forall>e \<in> set news. \<exists>tenant from.
           callerIdentity (td_uuid_ok (ed_Task d)) ident (se_TenantId req) (se_FromUserId req) = Inr (tenant, from)
           \<and> env_FromUserID e = from \<and> rd_UUID (td_Run (ed_Task d)) tenant = Some (env_TenantID e)
           \<and> env_ToID e \<noteq> from \<and> reaches_user d from (se_Recipient req) (env_ToID e) \<and> may_delegate d from (env_ToID e)
           \<and> env_State e = EnvelopeDelivered \<and> env_MaxCostUnits e \<le> 1000
           \<and> delegationScopes (Envelope.truncate e) = Some (req_scopes req) \<and> (\<forall>s \<in> set (req_scopes req). delegable d from s)))"
proof -
  from SendEnvelope_adds [OF assms(1)] obtain news where news: "adds w news w'" "is_ok r \<longleftrightarrow> news \<noteq> []" "length news \<le> maxEnvelopeFanOut"
    "\<forall>e \<in> set news. \<exists>tenant from tu.
       callerIdentity (td_uuid_ok (ed_Task d)) ident (se_TenantId req) (se_FromUserId req) = Inr (tenant, from)
       \<and> rd_UUID (td_Run (ed_Task d)) tenant = Some tu \<and> sent_row d req tu from e \<and> reaches_user d from (se_Recipient req) (env_ToID e)"
    by blast
  have row: "env_FromUserID e = frm \<and> env_TenantID e = tu \<and> env_ToID e \<noteq> frm \<and> may_delegate d frm (env_ToID e)
      \<and> env_State e = EnvelopeDelivered \<and> env_MaxCostUnits e \<le> 1000
      \<and> delegationScopes (Envelope.truncate e) = Some (req_scopes req) \<and> (\<forall>s \<in> set (req_scopes req). delegable d frm s)"
    if sent: "sent_row d req tu frm e" for e tu frm
  proof -
    from sent obtain scopes src dec where dec: "senderDelegableScopes d frm = Inr (scopes, src)" "ed_Allow dec"
      "DecideEnvelopeSend d (req_max_cost req) (req_scopes req) (send_context (may_delegate d frm (env_ToID e)) scopes) = Inr dec"
      "env_State e = (if ed_AutoAccept dec then EnvelopeAccepted else EnvelopeDelivered)"
      unfolding sent_row_def by blast
    note pol = policy_allows [OF assms(2) dec(3,2)]
    have "\<forall>s \<in> set (req_scopes req). delegable d frm s"
      using pol(2) senderDelegableScopes_delegable [OF dec(1)] by blast
    then show ?thesis
      using sent pol dec(4) by (auto simp: sent_row_def delegationScopes_def defaultDelegationBudget_def)
  qed
  have "\<forall>e \<in> set news. env_State e \<noteq> EnvelopeAccepted" using news(4) row by fastforce
  then have db: "ew_Db w' = ew_Db w" using news(1) by (simp add: adds_def)
  have each: "\<forall>e \<in> set news. \<exists>tenant from.
           callerIdentity (td_uuid_ok (ed_Task d)) ident (se_TenantId req) (se_FromUserId req) = Inr (tenant, from)
           \<and> env_FromUserID e = from \<and> rd_UUID (td_Run (ed_Task d)) tenant = Some (env_TenantID e)
           \<and> env_ToID e \<noteq> from \<and> reaches_user d from (se_Recipient req) (env_ToID e) \<and> may_delegate d from (env_ToID e)
           \<and> env_State e = EnvelopeDelivered \<and> env_MaxCostUnits e \<le> 1000
           \<and> delegationScopes (Envelope.truncate e) = Some (req_scopes req) \<and> (\<forall>s \<in> set (req_scopes req). delegable d from s)"
  proof
    fix e assume e: "e \<in> set news"
    with news(4) obtain tenant frm tu where
      c: "callerIdentity (td_uuid_ok (ed_Task d)) ident (se_TenantId req) (se_FromUserId req) = Inr (tenant, frm)"
        "rd_UUID (td_Run (ed_Task d)) tenant = Some tu" "sent_row d req tu frm e" "reaches_user d frm (se_Recipient req) (env_ToID e)"
      by blast
    show "\<exists>tenant from.
           callerIdentity (td_uuid_ok (ed_Task d)) ident (se_TenantId req) (se_FromUserId req) = Inr (tenant, from)
           \<and> env_FromUserID e = from \<and> rd_UUID (td_Run (ed_Task d)) tenant = Some (env_TenantID e)
           \<and> env_ToID e \<noteq> from \<and> reaches_user d from (se_Recipient req) (env_ToID e) \<and> may_delegate d from (env_ToID e)
           \<and> env_State e = EnvelopeDelivered \<and> env_MaxCostUnits e \<le> 1000
           \<and> delegationScopes (Envelope.truncate e) = Some (req_scopes req) \<and> (\<forall>s \<in> set (req_scopes req). delegable d from s)"
      using c row [OF c(3)] by (intro exI [of _ tenant] exI [of _ frm]) simp
  qed
  have "ew_Envelopes w' = ew_Envelopes w @ news" "length news \<le> 50"
    using news(1,3) by (simp_all add: adds_def maxEnvelopeFanOut_def)
  with db each news(2) show ?thesis by blast
qed

section \<open>The recorded capability\<close>

text \<open>What a freshly minted capability contains: the sender's scopes as rights, no task, and the two checks.\<close>

lemma buildDelegationToken_view:
  assumes "biscuit (ed_Biscuit d) view az_view pub_of" "ed_Capability d = Some m" "attenuated \<noteq> []"
    and "buildDelegationToken d now recipient [] attenuated scopes = Inr tok64"
  obtains raw tok where "std_decode tok64 = Some raw" "bl_Unmarshal (ed_Biscuit d) raw = Some tok"
    "view tok = (authority_facts now (now + envelopeTTL) recipient [] (subject_only recipient) scopes,
       [CheckTimeBefore (Date (now + envelopeTTL)), CheckOperationIn (dedupe attenuated)])"
proof -
  let ?lib = "ed_Biscuit d"
  from assms(2-4) obtain minted raw where
    mint: "MintTTL ?lib m now recipient [] (subject_only recipient) scopes envelopeTTL = Inr minted"
    and att: "Attenuate ?lib minted attenuated = Inr raw" and enc: "tok64 = std_encode raw"
    by (auto simp: buildDelegationToken_def cap_err_def bindE_eq_Inr split: sum.splits)
  let ?fs = "authority_facts now (now + envelopeTTL) recipient [] (subject_only recipient) scopes"
  have "\<not> envelopeTTL \<le> 0" by (simp add: envelopeTTL_def)
  with MintTTL_Inr [OF mint] have "bl_Build ?lib (priv m) ?fs [CheckTimeBefore (Date (now + envelopeTTL))] = Some minted"
    by simp
  from biscuit.build [OF assms(1) this] obtain ptok where
    p: "bl_Unmarshal ?lib minted = Some ptok" "view ptok = (?fs, [CheckTimeBefore (Date (now + envelopeTTL))])" by blast
  from att p(1) have "bl_Append ?lib ptok (CheckOperationIn (dedupe attenuated)) = Some raw"
    by (simp add: Attenuate_def split: if_splits option.splits)
  from biscuit.append [OF assms(1) this] obtain tok where
    t: "bl_Unmarshal ?lib raw = Some tok" "view tok = (fst (view ptok), snd (view ptok) @ [CheckOperationIn (dedupe attenuated)])"
    by blast
  show ?thesis
    by (rule that [of raw tok]) (use t p enc std_roundtrip in simp_all)
qed


section \<open>Answering\<close>

lemma respond_check_ok:
  assumes "respond_check d ident failGet now req envs = (Inr (tenant, user, env), evs)"
  shows "callerIdentity (td_uuid_ok (ed_Task d)) ident (re_TenantId req) (re_UserId req) = Inr (tenant, user)"
    "GetEnvelope (rd_UUID (td_Run (ed_Task d))) failGet tenant (re_EnvelopeId req) envs = Inr env"
    "spec_kind env \<noteq> skillTransferEnvelopeKind"
    "re_Accepted req \<Longrightarrow> \<exists>st. td_RevUser (ed_Task d) tenant (env_FromUserID env) = Inr st \<and> \<not> Revoked st (Some (env_CreatedAt env))"
  using assms
  by (auto simp: respond_check_def load_envelope_def split: sum.splits db_error.splits if_splits option.splits prod.splits)

lemma respond_commit_ok:
  assumes "respond_commit d fr ft dbNow tid tr req (tenant, user, env) w = (r, eff, w')"
  obtains e where "r = Inl e" "w' = w"
  | s envs where "r = Inr ()" "ew_Envelopes w' = envs" "ew_Workspace w' = ew_Workspace w"
    "RespondEnvelope (rd_UUID (td_Run (ed_Task d))) fr dbNow tenant (re_EnvelopeId req) user (re_Accepted req) (ew_Envelopes w) = Inr (s, envs)"
    "\<not> re_Accepted req \<longrightarrow> ew_Db w' = ew_Db w"
    "re_Accepted req \<longrightarrow> (\<exists>r2 eff2. spawnDelegatedTask d ft tid env user tr (ew_Db w) = (r2, eff2, ew_Db w'))"
proof (cases "RespondEnvelope (rd_UUID (td_Run (ed_Task d))) fr dbNow tenant (re_EnvelopeId req) user (re_Accepted req) (ew_Envelopes w)")
  case (Inl e)
  then have "\<exists>e. r = Inl e \<and> w' = w" using assms by (cases e) (auto simp: respond_commit_def)
  then show ?thesis using that(1) by (elim exE conjE)
next
  case (Inr p)
  obtain s envs where p: "p = (s, envs)" by (cases p)
  obtain r2 rels evs db where sp: "spawnDelegatedTask d ft tid env user tr (ew_Db w) = (r2, (rels, evs), db)"
    by (cases "spawnDelegatedTask d ft tid env user tr (ew_Db w)") auto
  show ?thesis
    by (rule that(2) [of envs s]) (use assms Inr p sp in \<open>auto simp: respond_commit_def split: if_splits\<close>)
qed

text \<open>
  C23.  An envelope is answered only by the user it is addressed to, while it is open and unexpired.
  An answer that fails changes nothing.  One that succeeds gives the envelope its final state and
  leaves every other envelope as it is; an acceptance moreover needs a sender whose access was not
  revoked since the envelope was sent, and starts at most one task: owned by the recipient,
  attributed to the sender, and held to the envelope's scopes and to its cost limit.
\<close>

theorem answers_are_the_recipients:
  assumes "RespondToEnvelope d ident failGet failRespond failTask now dbNow tid tr req w = (r, eff, w')"
    "ids_distinct (ew_Envelopes w)"
  shows "(\<not> is_ok r \<longrightarrow> w' = w) \<and>
    (is_ok r \<longrightarrow> (\<exists>tenant user env s.
       callerIdentity (td_uuid_ok (ed_Task d)) ident (re_TenantId req) (re_UserId req) = Inr (tenant, user)
       \<and> env \<in> set (ew_Envelopes w) \<and> rd_UUID (td_Run (ed_Task d)) (re_EnvelopeId req) = Some (env_ID env)
       \<and> env_TenantID env = tenant \<and> addressed_to user env \<and> envelope_open (env_State env) \<and> unexpired dbNow env
       \<and> s = (if re_Accepted req then EnvelopeAccepted else EnvelopeRejected)
       \<and> ew_Envelopes w' = map (\<lambda>e. if e = env then e\<lparr>env_State := s\<rparr> else e) (ew_Envelopes w)
       \<and> (if re_Accepted req
          then (\<exists>st. td_RevUser (ed_Task d) tenant (env_FromUserID env) = Inr st \<and> \<not> Revoked st (Some (env_CreatedAt env)))
            \<and> (ew_Db w' = ew_Db w
               \<or> (\<exists>t. ew_Db w' = (ew_Db w)\<lparr>tasks := (tasks (ew_Db w))(tid \<mapsto> t)\<rparr> \<and> tasks (ew_Db w) tid = None
                      \<and> OwnerUserID t = user \<and> task_within env t))
          else ew_Db w' = ew_Db w)))"
proof (cases "respond_check d ident failGet now req (ew_Envelopes w)")
  case (Pair c evs)
  show ?thesis
  proof (cases c)
    case (Inl e)
    then have "\<not> is_ok r \<and> w' = w" using assms(1) Pair by (auto simp: RespondToEnvelope_def)
    then show ?thesis by simp
  next
    case (Inr loaded)
    obtain tenant user env0 where l: "loaded = (tenant, user, env0)" by (cases loaded)
    note chk = respond_check_ok [OF Pair [unfolded Inr l]]
    have cm: "respond_commit d failRespond failTask dbNow tid tr req (tenant, user, env0) w = (r, eff, w')"
      using assms(1) Pair Inr l by (simp add: RespondToEnvelope_def)
    from cm show ?thesis
    proof (cases rule: respond_commit_ok)
      case (1 e)
      then show ?thesis by simp
    next
      case (2 s envs)
      from RespondEnvelope_ok [OF 2(4) assms(2)] obtain eid env where
        eid: "rd_UUID (td_Run (ed_Task d)) (re_EnvelopeId req) = Some eid"
        and s: "s = (if re_Accepted req then EnvelopeAccepted else EnvelopeRejected)"
        and ans: "answers tenant eid user s (ew_Envelopes w) envs"
        and env: "env \<in> set (ew_Envelopes w)" "answerable tenant eid user env" "unexpired dbNow env" by blast
      from GetEnvelope_ok [OF chk(2)] eid have "env0 \<in> set (ew_Envelopes w)" "env_ID env0 = eid" by auto
      then have same: "env0 = env" using env(1,2) same_id [OF assms(2)] by (simp add: answerable_def)
      have "answerable tenant eid user e \<longleftrightarrow> e = env" if "e \<in> set (ew_Envelopes w)" for e
        using same_id [OF assms(2) that env(1)] env(2) by (auto simp: answerable_def)
      then have upd: "ew_Envelopes w' = map (\<lambda>e. if e = env then e\<lparr>env_State := s\<rparr> else e) (ew_Envelopes w)"
        using ans 2(2) by (simp add: answers_def)
      have task: "ew_Db w' = ew_Db w \<or> (\<exists>t. ew_Db w' = (ew_Db w)\<lparr>tasks := (tasks (ew_Db w))(tid \<mapsto> t)\<rparr> \<and> tasks (ew_Db w) tid = None
          \<and> OwnerUserID t = user \<and> task_within env t)" if acc: "re_Accepted req"
      proof -
        from 2(6) acc obtain r2 eff2 where "spawnDelegatedTask d failTask tid env user tr (ew_Db w) = (r2, eff2, ew_Db w')"
          unfolding same by blast
        then show ?thesis by (cases rule: spawn_cases) auto
      qed
      have "env_TenantID env = tenant" "env_ID env = eid" "addressed_to user env" "envelope_open (env_State env)"
        using env(2) by (simp_all add: answerable_def)
      then show ?thesis
        using 2(1,5) chk(1,4) eid env(1,3) s upd task unfolding same by (intro conjI impI exI [of _ tenant] exI [of _ user] exI [of _ env] exI [of _ s]) auto
    qed
  qed
qed

section \<open>An example\<close>

text \<open>Ann delegates a read scope to the two other members of her group; bob accepts.\<close>

definition ex_env_deps :: "(token_view, token_view, unit) EnvelopeDeps" where
  "ex_env_deps = \<lparr>ed_Task = ex_task_deps, ed_fga_enabled = True,
     ed_fga_list = (\<lambda>u rel ty. if ty = ''skill'' then Inr [''skill:siem.query'', ''skill:vision''] else Inr [''group:soc'']),
     ed_fga_read = (\<lambda>rel obj cont. Inr ([(''user:ann'', rel, obj), (''user:bob'', rel, obj), (''user:cam'', rel, obj)], [])),
     ed_ToolRegistry = Some NewRegistry,
     ed_OPA = (\<lambda>i. Response 200 (Some \<lparr>ob_decision_id = [], ob_revision = [], ob_result = Result_doc (envelope_send_policy i)\<rparr>)),
     ed_Bundle = [], ed_Biscuit = ref_lib, ed_Capability = None, ed_GcSegment = (\<lambda>_ _ w. w)\<rparr>"

definition ex_env_req :: SendEnvelopeReq where
  "ex_env_req = \<lparr>se_TenantId = ''t'', se_FromUserId = ''ann'', se_Recipient = To_group ''group:soc'',
     se_Task = \<lparr>et_Intent = ''triage'', et_PayloadRef = [], et_RequiredSkills = [], et_Priority = ''normal''\<rparr>,
     se_Delegation = Some \<lparr>dl_CapabilityToken = [], dl_AttenuatedScopes = [''siem:read''], dl_MaxCostUnits = 40\<rparr>\<rparr>"

definition ex_draws :: "nat \<Rightarrow> Draw" where
  "ex_draws k = \<lparr>dr_EnvelopeID = CHR ''e'' # nat_digits k, dr_TaskID = CHR ''k'' # nat_digits k, dr_Now = 10, dr_DbNow = 10,
     dr_FailEnvelope = False, dr_FailTask = False\<rparr>"

definition ex_world :: "unit EnvWorld" where
  "ex_world = \<lparr>ew_Db = empty_Db, ew_Envelopes = [], ew_Workspace = ()\<rparr>"

definition ex_env_row :: "string \<Rightarrow> string \<Rightarrow> EnvelopeState \<Rightarrow> EnvelopeRow" where
  "ex_env_row eid to st = (new_envelope ex_env_req ''t'' ''ann'' to [] ''tr'' 10)\<lparr>env_ID := eid, env_State := st, env_CreatedAt := 10\<rparr>"

definition ex_sent :: "unit EnvWorld" where
  "ex_sent = \<lparr>ew_Db = empty_Db, ew_Envelopes = [ex_env_row ''e0'' ''bob'' EnvelopeDelivered, ex_env_row ''e1'' ''cam'' EnvelopeDelivered],
     ew_Workspace = ()\<rparr>"

lemma ex_policy:
  "senderDelegableScopes ex_env_deps ''ann'' = Inr ([''siem:read''], ''fga-derived'')"
  "groupMembersExcluding ex_env_deps ''group:soc'' ''ann'' = Inr [''bob'', ''cam'']"
  "validateEnvelopeFields ex_env_req = Inr ()" "req_max_cost ex_env_req = 40" "req_scopes ex_env_req = [''siem:read'']"
  "\<exists>dec. DecideEnvelopeSend ex_env_deps 40 [''siem:read''] (send_context True [''siem:read'']) = Inr dec \<and> ed_Allow dec \<and> \<not> ed_AutoAccept dec"
proof -
  let ?i = "envelope_input 40 [''siem:read''] (send_context True [''siem:read''])"
  have "ed_Allow (envelope_send_policy ?i)" "\<not> ed_AutoAccept (envelope_send_policy ?i)" by code_simp+
  moreover have "DecideEnvelopeSend ex_env_deps 40 [''siem:read''] (send_context True [''siem:read'']) = Inr (envelope_send_policy ?i)"
    by (simp add: DecideEnvelopeSend_def ex_env_deps_def queryOPA_def Let_def)
  ultimately show "\<exists>dec. DecideEnvelopeSend ex_env_deps 40 [''siem:read''] (send_context True [''siem:read'']) = Inr dec \<and> ed_Allow dec \<and> \<not> ed_AutoAccept dec"
    by blast
qed code_simp+

lemma ex_send_one:
  assumes "\<not> EqualFold ''ann'' to" "dr_EnvelopeID (ex_draws k) \<notin> env_ID ` set (ew_Envelopes w)"
  shows "\<exists>eff. sendEnvelopeToUser ex_env_deps (ex_draws k) ex_env_req ''t'' ''ann'' to ''tr'' w =
    (Inr (dr_EnvelopeID (ex_draws k), ''tr''), eff, w\<lparr>ew_Envelopes := ew_Envelopes w @ [ex_env_row (dr_EnvelopeID (ex_draws k)) to EnvelopeDelivered]\<rparr>)"
proof -
  have "may_delegate ex_env_deps ''ann'' to" by (simp add: may_delegate_def fga_direct_def ex_env_deps_def ex_task_deps_def)
  moreover have "rd_UUID (td_Run (ed_Task ex_env_deps)) ''t'' = Some ''t''" "ed_Capability ex_env_deps = None"
    by (simp_all add: ex_env_deps_def ex_task_deps_def ex_run_deps_def)
  moreover have "dr_FailEnvelope (ex_draws k) = False" "dr_Now (ex_draws k) = 10" "dr_DbNow (ex_draws k) = 10" by (simp_all add: ex_draws_def)
  ultimately show ?thesis
    using assms ex_policy
    by (auto simp: sendEnvelopeToUser_def deliver_def buildDelegationToken_def CreateEnvelope_def ex_env_row_def new_envelope_def Let_def)
qed

lemma ex_send:
  "\<exists>eff. SendEnvelope ex_env_deps None ex_draws ''tr'' ex_env_req ex_world = (Inr ([], ''tr''), eff, ex_sent)"
proof -
  have dr: "dr_EnvelopeID (ex_draws 0) = ''e0''" "dr_EnvelopeID (ex_draws (Suc 0)) = ''e1''" by code_simp+
  have ne: "\<not> EqualFold ''ann'' ''bob''" "\<not> EqualFold ''ann'' ''cam''" by code_simp+
  let ?w1 = "ex_world\<lparr>ew_Envelopes := [ex_env_row ''e0'' ''bob'' EnvelopeDelivered]\<rparr>"
  obtain eff1 where 1: "sendEnvelopeToUser ex_env_deps (ex_draws 0) ex_env_req ''t'' ''ann'' ''bob'' ''tr'' ex_world = (Inr (''e0'', ''tr''), eff1, ?w1)"
    using ex_send_one [OF ne(1), of 0 ex_world] unfolding dr by (auto simp: ex_world_def)
  obtain eff2 where 2: "sendEnvelopeToUser ex_env_deps (ex_draws (Suc 0)) ex_env_req ''t'' ''ann'' ''cam'' ''tr'' ?w1 = (Inr (''e1'', ''tr''), eff2, ex_sent)"
    using ex_send_one [OF ne(2), of "Suc 0" ?w1] unfolding dr by (auto simp: ex_world_def ex_sent_def ex_env_row_def)
  have "\<exists>eff. send_members ex_env_deps ex_draws 0 ex_env_req ''t'' ''ann'' ''tr'' [''bob'', ''cam''] ex_world = (2, eff, ex_sent)"
    using 1 2 by (cases eff1; cases eff2) simp
  moreover have "callerIdentity (td_uuid_ok (ed_Task ex_env_deps)) None (se_TenantId ex_env_req) (se_FromUserId ex_env_req) = Inr (''t'', ''ann'')"
    by code_simp
  moreover have "ListObjects ex_env_deps (''user:'' @ ''ann'') ''delegatable_member'' ''group'' = Inr [''group:soc'']" by code_simp
  moreover have "se_Recipient ex_env_req = To_group ''group:soc''" by (simp add: ex_env_req_def)
  ultimately show ?thesis
    using ex_policy(2,3) by (auto simp: SendEnvelope_def sendEnvelopeToGroup_def maxEnvelopeFanOut_def Let_def)
qed

lemma ex_runs_policy: "runs_policy ex_env_deps"
  by (simp add: runs_policy_def ex_env_deps_def queryOPA_def Let_def)

theorem delegation_is_attenuated_witness:
  "env_State (ew_Envelopes ex_sent ! 0) = EnvelopeDelivered \<and> env_ToID (ew_Envelopes ex_sent ! 0) = ''bob''
   \<and> may_delegate ex_env_deps ''ann'' ''bob'' \<and> delegable ex_env_deps ''ann'' ''siem:read''"
proof -
  obtain eff where "SendEnvelope ex_env_deps None ex_draws ''tr'' ex_env_req ex_world = (Inr ([], ''tr''), eff, ex_sent)"
    using ex_send by blast
  from delegation_is_attenuated [OF this ex_runs_policy] obtain news where
    news: "ew_Envelopes ex_sent = ew_Envelopes ex_world @ news" "\<forall>e \<in> set news. \<exists>tenant from.
           callerIdentity (td_uuid_ok (ed_Task ex_env_deps)) None (se_TenantId ex_env_req) (se_FromUserId ex_env_req) = Inr (tenant, from)
           \<and> may_delegate ex_env_deps from (env_ToID e) \<and> env_State e = EnvelopeDelivered
           \<and> (\<forall>s \<in> set (req_scopes ex_env_req). delegable ex_env_deps from s)"
    by blast
  have "ew_Envelopes ex_sent ! 0 \<in> set (ew_Envelopes ex_sent)" by (simp add: ex_sent_def)
  then have "ew_Envelopes ex_sent ! 0 \<in> set news" unfolding news(1) by (simp add: ex_world_def)
  moreover have "callerIdentity (td_uuid_ok (ed_Task ex_env_deps)) None (se_TenantId ex_env_req) (se_FromUserId ex_env_req) = Inr (''t'', ''ann'')"
    by code_simp
  moreover have "env_ToID (ew_Envelopes ex_sent ! 0) = ''bob''" by code_simp
  ultimately show ?thesis using news(2) ex_policy(5) by fastforce
qed

text \<open>Bob accepts: his envelope is settled and his task starts.\<close>

definition ex_accept :: "bool \<Rightarrow> RespondReq" where
  "ex_accept yes = \<lparr>re_TenantId = ''t'', re_UserId = ''bob'', re_EnvelopeId = ''e0'', re_Accepted = yes\<rparr>"

definition ex_answered :: "bool \<Rightarrow> (rpc_error, unit) result \<times> effects \<times> unit EnvWorld" where
  "ex_answered failTask = RespondToEnvelope ex_env_deps None False False failTask 20 20 ''k0'' ''tr'' (ex_accept True) ex_sent"

lemma ex_answered_run:
  "fst (ex_answered False) = Inr ()"
  "map env_State (ew_Envelopes (snd (snd (ex_answered False)))) = [EnvelopeAccepted, EnvelopeDelivered]"
  "map_option (\<lambda>t. (OwnerUserID t, CostBudget t, DelegatedScopes t)) (tasks (ew_Db (snd (snd (ex_answered False)))) ''k0'')
     = Some (''bob'', 40, Some [''siem:read''])"
  by code_simp+

lemma ex_sent_distinct: "ids_distinct (ew_Envelopes ex_sent)"
  by code_simp

theorem answers_are_the_recipients_witness:
  "(\<exists>t. tasks (ew_Db (snd (snd (ex_answered False)))) ''k0'' = Some t \<and> OwnerUserID t = ''bob'' \<and> CostBudget t = 40)
   \<and> envelope_open (env_State (ew_Envelopes ex_sent ! 0)) \<and> map env_State (ew_Envelopes (snd (snd (ex_answered False)))) = [EnvelopeAccepted, EnvelopeDelivered]"
proof -
  have run: "RespondToEnvelope ex_env_deps None False False False 20 20 ''k0'' ''tr'' (ex_accept True) ex_sent
      = (Inr (), fst (snd (ex_answered False)), snd (snd (ex_answered False)))"
    using ex_answered_run(1) by (simp add: ex_answered_def prod_eq_iff)
  from answers_are_the_recipients [OF run ex_sent_distinct] obtain env where
    env: "env \<in> set (ew_Envelopes ex_sent)" "rd_UUID (td_Run (ed_Task ex_env_deps)) (re_EnvelopeId (ex_accept True)) = Some (env_ID env)"
      "envelope_open (env_State env)"
    by auto
  have "rd_UUID (td_Run (ed_Task ex_env_deps)) (re_EnvelopeId (ex_accept True)) = Some ''e0''" by code_simp
  with env(2) have "env_ID env = env_ID (ew_Envelopes ex_sent ! 0)" by (simp add: ex_sent_def ex_env_row_def)
  then have "env = ew_Envelopes ex_sent ! 0" by (intro same_id [OF ex_sent_distinct env(1)]) (simp_all add: ex_sent_def)
  with env(3) ex_answered_run(2,3) show ?thesis by auto
qed

text \<open>A token table that holds the one capability of an envelope for bob.\<close>

definition rec_facts :: "Fact list" where
  "rec_facts = authority_facts 0 envelopeTTL ''bob'' [] (subject_only ''bob'') [''siem:read'']"

definition rec_lib :: "(token_view, token_view) biscuit_lib" where
  "rec_lib = (let root = (rec_facts, [CheckTimeBefore (Date envelopeTTL)]);
                  child = (rec_facts, [CheckTimeBefore (Date envelopeTTL), CheckOperationIn [''siem:read'']]) in
     \<lparr>bl_Build = (\<lambda>k fs cs. if (fs, cs) = root then Some ''root'' else None),
      bl_Unmarshal = (\<lambda>b. if b = ''root'' then Some root else if b = ''child'' then Some child else None),
      bl_Append = (\<lambda>tok c. if tok = root \<and> c = CheckOperationIn [''siem:read''] then Some ''child'' else None),
      bl_Authorizer = (\<lambda>tok k. if k = ''pub'' then Some tok else None),
      bl_Authorize = (\<lambda>az p. if program_grants az p then Granted else Refused),
      bl_Query = (\<lambda>az p pred. Inr (facts_of pred (fst az)))\<rparr>)"

lemma rec_biscuit: "biscuit rec_lib (\<lambda>v. v) (\<lambda>v. v) (\<lambda>_. ''pub'')"
  by unfold_locales (auto simp: rec_lib_def Let_def split: if_splits)

definition rec_deps :: "(token_view, token_view, unit) EnvelopeDeps" where
  "rec_deps = ex_env_deps\<lparr>ed_Biscuit := rec_lib, ed_Capability := Some ref_minter\<rparr>"


text \<open>
  When the task cannot be stored, the acceptance still succeeds: the envelope is settled, no task
  exists, and the answer cannot be given again.
\<close>

lemma acceptance_can_lose_the_task:
  "fst (ex_answered True) = Inr ()" "tasks (ew_Db (snd (snd (ex_answered True)))) ''k0'' = None"
  "env_State (ew_Envelopes (snd (snd (ex_answered True))) ! 0) = EnvelopeAccepted"
  "fst (RespondToEnvelope ex_env_deps None False False False 30 30 ''k1'' ''tr'' (ex_accept True) (snd (snd (ex_answered True))))
     = Inl (Status FailedPrecondition ''envelope e0 not pending for user bob'')"
  by code_simp+

text \<open>A tool of an MCP connector has a scope and is delegable, unlike what delegation\_scopes.go says of it.\<close>

lemma mcp_tools_are_delegable:
  "senderDelegableScopes (ex_env_deps\<lparr>ed_fga_list := \<lambda>_ _ _. Inr [''skill:mcp:github:search'']\<rparr>) ''ann'' = Inr ([''mcp:github''], ''fga-derived'')"
  by code_simp

end
