(* ===== verification/EnvelopeRun.thy ===== *)
theory EnvelopeRun
  imports EnvelopeSafety
begin

text \<open>
  Histories of the envelope table: sends, answers and dismissals in any order, with the two halves
  of an answer taken as separate steps so that other calls may come between them; the other code
  that inserts envelopes (workflow proposals, skill transfers) and the rest of the broker, which
  leaves the table alone, are steps of their own.
\<close>

section \<open>Steps\<close>

text \<open>
  Calls that have loaded and checked their envelope but not yet answered it, and the ids of the
  envelopes for which a task was started.
\<close>

record 'w env_run =
  er_world :: "'w EnvWorld"
  er_loaded :: "(RespondReq \<times> string \<times> string \<times> EnvelopeRow) set"
  er_started :: "string list"

definition started_by :: "'w EnvWorld \<Rightarrow> 'w EnvWorld \<Rightarrow> string list" where
  "started_by w w' =
     map env_ID (filter (\<lambda>e. env_State e = EnvelopeAccepted) (drop (length (ew_Envelopes w)) (ew_Envelopes w')))"

inductive env_step :: "('tok, 'az, 'w) EnvelopeDeps \<Rightarrow> 'w env_run \<Rightarrow> 'w env_run \<Rightarrow> bool" for d where
  send: "SendEnvelope d ident draws tr req (er_world s) = (r, eff, w') \<Longrightarrow>
    env_step d s (s\<lparr>er_world := w', er_started := started_by (er_world s) w' @ er_started s\<rparr>)"
| load: "respond_check d ident failGet now req (ew_Envelopes (er_world s)) = (Inr loaded, evs) \<Longrightarrow>
    env_step d s (s\<lparr>er_loaded := insert (req, loaded) (er_loaded s)\<rparr>)"
| answer: "(req, tenant, user, env) \<in> er_loaded s \<Longrightarrow>
    respond_commit d fr ft dbNow tid tr req (tenant, user, env) (er_world s) = (r, eff, w') \<Longrightarrow>
    env_step d s (s\<lparr>er_world := w', er_started := (if is_ok r \<and> re_Accepted req then [env_ID env] else []) @ er_started s\<rparr>)"
| dismiss: "DismissEnvelope d ident failGet failDismiss failCount t u eid (er_world s) = (r2, evs, w') \<Longrightarrow>
    env_step d s (s\<lparr>er_world := w'\<rparr>)"
| other_insert: "CreateEnvelope fail newID now (ew_Db (er_world s)) e EnvelopeDelivered (ew_Envelopes (er_world s)) = Inr (eid, envs') \<Longrightarrow>
    env_step d s (s\<lparr>er_world := (er_world s)\<lparr>ew_Envelopes := envs'\<rparr>\<rparr>)"
| elsewhere: "ew_Envelopes w' = ew_Envelopes (er_world s) \<Longrightarrow> env_step d s (s\<lparr>er_world := w'\<rparr>)"

inductive_cases env_stepE: "env_step d s s'"

text \<open>A row changes only by an answer, which closes it; rows are never removed.\<close>

definition row_evolves :: "EnvelopeRow \<Rightarrow> EnvelopeRow \<Rightarrow> bool" where
  "row_evolves e e' \<longleftrightarrow>
     e' = e \<or> envelope_open (env_State e) \<and> (\<exists>s \<in> {EnvelopeAccepted, EnvelopeRejected, EnvelopeDismissed}. e' = e\<lparr>env_State := s\<rparr>)"

definition table_evolves :: "EnvelopeRow list \<Rightarrow> EnvelopeRow list \<Rightarrow> bool" where
  "table_evolves envs envs' \<longleftrightarrow> list_all2 row_evolves envs (take (length envs) envs')"

locale row_order =
  fixes R :: "'a \<Rightarrow> 'a \<Rightarrow> bool"
  assumes R_refl: "R a a"
    and R_trans: "R a b \<Longrightarrow> R b c \<Longrightarrow> R a c"
begin

lemma grows_refl: "list_all2 R xs (take (length xs) xs)"
  by (simp add: list_all2_same R_refl)

lemma grows_append: "list_all2 R xs (take (length xs) (xs @ ys))"
  by (simp add: list_all2_same R_refl)

lemma grows_trans:
  assumes "list_all2 R xs (take (length xs) ys)" "list_all2 R ys (take (length ys) zs)"
  shows "list_all2 R xs (take (length xs) zs)"
proof -
  have len: "length xs \<le> length ys" "length ys \<le> length zs" using assms by (auto dest!: list_all2_lengthD)
  show ?thesis
  proof (rule list_all2_all_nthI)
    show "length xs = length (take (length xs) zs)" using len by simp
    fix i assume i: "i < length xs"
    have "R (xs ! i) (ys ! i)" using list_all2_nthD [OF assms(1) i] i by simp
    moreover have "R (ys ! i) (zs ! i)" using list_all2_nthD [OF assms(2), of i] i len by simp
    ultimately show "R (xs ! i) (take (length xs) zs ! i)" using i R_trans by simp
  qed
qed

lemma grows_map: "(\<And>x. x \<in> set xs \<Longrightarrow> R x (f x)) \<Longrightarrow> list_all2 R xs (take (length xs) (map f xs))"
  by (simp add: list.rel_map list_all2_same)

lemma grows_nth:
  assumes "list_all2 R xs (take (length xs) ys)" "i < length xs"
  shows "i < length ys" "R (xs ! i) (ys ! i)"
  using list_all2_nthD [OF assms(1,2)] list_all2_lengthD [OF assms(1)] assms(2) by auto

end

interpretation ev: row_order row_evolves
  by unfold_locales (auto simp: row_evolves_def envelope_open_def)

lemmas table_evolves_rules = ev.grows_refl [folded table_evolves_def] ev.grows_append [folded table_evolves_def]
  ev.grows_trans [folded table_evolves_def] ev.grows_map [folded table_evolves_def]

lemma answers_evolves:
  assumes "answers tenant eid user s envs envs'" "s \<in> {EnvelopeAccepted, EnvelopeRejected, EnvelopeDismissed}"
  shows "table_evolves envs envs'"
proof -
  have "row_evolves x (if answerable tenant eid user x then x\<lparr>env_State := s\<rparr> else x)" for x
    using assms(2) by (auto simp: row_evolves_def answerable_def)
  then show ?thesis
    using assms(1) table_evolves_rules(4) [of envs "\<lambda>x. if answerable tenant eid user x then x\<lparr>env_State := s\<rparr> else x"]
    by (simp add: answers_def)
qed

lemma row_evolves_fixed: "row_evolves e e' \<Longrightarrow> env_fixed e' = env_fixed e"
  by (auto simp: row_evolves_def env_fixed_def)

lemma row_evolves_accepted: "row_evolves e e' \<Longrightarrow> env_State e = EnvelopeAccepted \<Longrightarrow> e' = e"
  by (auto simp: row_evolves_def envelope_open_def)

section \<open>The invariant\<close>

definition has_row :: "EnvelopeRow list \<Rightarrow> (EnvelopeRow \<Rightarrow> bool) \<Rightarrow> bool" where
  "has_row envs P \<longleftrightarrow> (\<exists>e \<in> set envs. P e)"

definition env_inv :: "('tok, 'az, 'w) EnvelopeDeps \<Rightarrow> 'w env_run \<Rightarrow> bool" where
  "env_inv d s \<longleftrightarrow>
     (let envs = ew_Envelopes (er_world s) in
      ids_distinct envs \<and> distinct (er_started s)
      \<and> (\<forall>i \<in> set (er_started s). has_row envs (\<lambda>e. env_ID e = i \<and> env_State e = EnvelopeAccepted))
      \<and> (\<forall>(req, tenant, user, env) \<in> er_loaded s.
           rd_UUID (td_Run (ed_Task d)) (re_EnvelopeId req) = Some (env_ID env) \<and> has_row envs (\<lambda>e. env_fixed e = env_fixed env)))"

lemma evolves_has_row:
  assumes "table_evolves envs envs'" "has_row envs P" "\<And>e e'. P e \<Longrightarrow> row_evolves e e' \<Longrightarrow> Q e'"
  shows "has_row envs' Q"
proof -
  from assms(2) obtain i where i: "i < length envs" "P (envs ! i)" by (auto simp: has_row_def in_set_conv_nth)
  from ev.grows_nth [OF assms(1) [unfolded table_evolves_def] i(1)] have "i < length envs'" "row_evolves (envs ! i) (envs' ! i)" .
  then have "envs' ! i \<in> set envs'" "Q (envs' ! i)" using assms(3) [OF i(2)] by simp_all
  then show ?thesis unfolding has_row_def ..
qed

lemma evolves_keeps:
  assumes "table_evolves envs envs'"
  shows "has_row envs (\<lambda>e. env_ID e = i \<and> env_State e = EnvelopeAccepted) \<Longrightarrow> has_row envs' (\<lambda>e. env_ID e = i \<and> env_State e = EnvelopeAccepted)"
    and "has_row envs (\<lambda>e. env_fixed e = f) \<Longrightarrow> has_row envs' (\<lambda>e. env_fixed e = f)"
proof -
  assume "has_row envs (\<lambda>e. env_ID e = i \<and> env_State e = EnvelopeAccepted)"
  then show "has_row envs' (\<lambda>e. env_ID e = i \<and> env_State e = EnvelopeAccepted)"
    by (rule evolves_has_row [OF assms]) (auto dest: row_evolves_accepted)
next
  assume "has_row envs (\<lambda>e. env_fixed e = f)"
  then show "has_row envs' (\<lambda>e. env_fixed e = f)"
    by (rule evolves_has_row [OF assms]) (auto dest: row_evolves_fixed)
qed

text \<open>What a step does to the table, and which envelopes it starts tasks for.\<close>

lemma env_inv_step:
  assumes "env_inv d s" "table_evolves (ew_Envelopes (er_world s)) (ew_Envelopes w')" "ids_distinct (ew_Envelopes w')"
    and "distinct new" "set new \<inter> set (er_started s) = {}"
    and "\<And>i. i \<in> set new \<Longrightarrow> has_row (ew_Envelopes w') (\<lambda>e. env_ID e = i \<and> env_State e = EnvelopeAccepted)"
  shows "env_inv d (s\<lparr>er_world := w', er_started := new @ er_started s\<rparr>)"
proof -
  note keep = evolves_keeps [OF assms(2)]
  have "\<forall>i \<in> set (new @ er_started s). has_row (ew_Envelopes w') (\<lambda>e. env_ID e = i \<and> env_State e = EnvelopeAccepted)"
    using assms(1,6) keep(1) by (auto simp: env_inv_def Let_def)
  moreover have "\<forall>(req, tenant, user, env) \<in> er_loaded s.
      rd_UUID (td_Run (ed_Task d)) (re_EnvelopeId req) = Some (env_ID env) \<and> has_row (ew_Envelopes w') (\<lambda>e. env_fixed e = env_fixed env)"
    using assms(1) keep(2) unfolding env_inv_def Let_def by fast
  moreover have "distinct (new @ er_started s)" using assms(1,4,5) by (auto simp: env_inv_def Let_def)
  ultimately show ?thesis using assms(3) by (simp add: env_inv_def Let_def)
qed

lemma answered_row:
  assumes "ids_distinct envs" "answers tenant eid user s envs envs'"
  shows "has_row envs' (\<lambda>e. env_ID e = eid \<and> env_State e = s)" "ids_distinct envs'"
    "\<not> has_row envs (\<lambda>e. env_ID e = eid \<and> env_State e = EnvelopeAccepted)"
proof -
  from assms(2) obtain e where e: "e \<in> set envs" "answerable tenant eid user e" by (auto simp: answers_def)
  have "e\<lparr>env_State := s\<rparr> \<in> set envs'"
    using assms(2) e by (auto simp: answers_def intro!: rev_image_eqI)
  then show "has_row envs' (\<lambda>e. env_ID e = eid \<and> env_State e = s)"
    unfolding has_row_def using e(2) by (intro bexI [of _ "e\<lparr>env_State := s\<rparr>"]) (simp_all add: answerable_def)
  show "ids_distinct envs'" using ids_distinct_fixed [OF answers_fixed [OF assms(2)]] assms(1) by simp
  show "\<not> has_row envs (\<lambda>e. env_ID e = eid \<and> env_State e = EnvelopeAccepted)"
  proof
    assume "has_row envs (\<lambda>e. env_ID e = eid \<and> env_State e = EnvelopeAccepted)"
    then obtain x where x: "x \<in> set envs" "env_ID x = eid" "env_State x = EnvelopeAccepted" by (auto simp: has_row_def)
    have "x = e" by (rule same_id [OF assms(1) x(1) e(1)]) (use x(2) e(2) in \<open>simp add: answerable_def\<close>)
    then show False using x(3) e(2) by (simp add: answerable_def envelope_open_def)
  qed
qed

text \<open>Each kind of step, as what it does to the table.\<close>

lemma send_step:
  assumes "SendEnvelope d ident draws tr req w = (r, eff, w')" "ids_distinct (ew_Envelopes w)"
  obtains news where "ew_Envelopes w' = ew_Envelopes w @ news" "ids_distinct (ew_Envelopes w')"
    "started_by w w' = map env_ID (filter (\<lambda>e. env_State e = EnvelopeAccepted) news)"
proof -
  obtain news where "adds w news w'" using SendEnvelope_adds [OF assms(1)] by blast
  then have n: "ew_Envelopes w' = ew_Envelopes w @ news" "ids_distinct (ew_Envelopes w')" using assms(2) unfolding adds_def by blast+
  show ?thesis by (rule that [OF n]) (simp add: started_by_def n(1))
qed

lemma dismiss_step:
  assumes "DismissEnvelope d ident fg fd fc t u eid0 w = (r, evs, w')"
  shows "ew_Envelopes w' = ew_Envelopes w \<or> (\<exists>tenant eid user. answers tenant eid user EnvelopeDismissed (ew_Envelopes w) (ew_Envelopes w'))"
proof (cases "ew_Envelopes w' = ew_Envelopes w")
  case False
  then obtain tenant user env s envs where
    ds: "db_DismissEnvelope (rd_UUID (td_Run (ed_Task d))) fd tenant eid0 user (ew_Envelopes w) = Inr (s, envs)"
    and w': "ew_Envelopes w' = envs"
    using assms
    by (auto simp: DismissEnvelope_def gcStagingIfUnreferenced_def Let_def split: sum.splits prod.splits if_splits db_error.splits)
  obtain eid where "s = EnvelopeDismissed" "answers tenant eid user s (ew_Envelopes w) envs"
    by (rule DismissEnvelope_ok [OF ds])
  then show ?thesis using w' by blast
qed simp

lemma answer_step:
  assumes "respond_commit d fr ft dbNow tid tr req (tenant, user, env) w = (r, eff, w')" "ids_distinct (ew_Envelopes w)"
  shows "ew_Envelopes w' = ew_Envelopes w \<and> \<not> is_ok r
    \<or> (\<exists>eid s. rd_UUID (td_Run (ed_Task d)) (re_EnvelopeId req) = Some eid \<and> answers tenant eid user s (ew_Envelopes w) (ew_Envelopes w')
         \<and> s = (if re_Accepted req then EnvelopeAccepted else EnvelopeRejected))"
  using assms(1)
proof (cases rule: respond_commit_ok)
  case (1 e)
  then show ?thesis by simp
next
  case (2 s envs)
  obtain eid e where "rd_UUID (td_Run (ed_Task d)) (re_EnvelopeId req) = Some eid"
    "s = (if re_Accepted req then EnvelopeAccepted else EnvelopeRejected)" "answers tenant eid user s (ew_Envelopes w) envs"
    by (rule RespondEnvelope_ok [OF 2(4) assms(2)])
  then show ?thesis using 2(2) by blast
qed

lemma env_step_safe:
  assumes "env_step d s s'" "env_inv d s"
  shows "env_inv d s' \<and> table_evolves (ew_Envelopes (er_world s)) (ew_Envelopes (er_world s'))"
proof -
  have ids: "ids_distinct (ew_Envelopes (er_world s))" using assms(2) by (simp add: env_inv_def Let_def)
  have old: "has_row (ew_Envelopes (er_world s)) (\<lambda>e. env_ID e = i \<and> env_State e = EnvelopeAccepted)" if "i \<in> set (er_started s)" for i
    using assms(2) that by (simp add: env_inv_def Let_def)
  have quiet: "env_inv d (s\<lparr>er_world := w'\<rparr>)"
    if "table_evolves (ew_Envelopes (er_world s)) (ew_Envelopes w')" "ids_distinct (ew_Envelopes w')" for w'
    using env_inv_step [OF assms(2) that, of "[]"] by simp
  from assms(1) show ?thesis
  proof cases
    case (send ident draws tr req r eff w')
    from send_step [OF send(2) ids] obtain news where
      n: "ew_Envelopes w' = ew_Envelopes (er_world s) @ news" "ids_distinct (ew_Envelopes w')"
        "started_by (er_world s) w' = map env_ID (filter (\<lambda>e. env_State e = EnvelopeAccepted) news)" .
    have ev: "table_evolves (ew_Envelopes (er_world s)) (ew_Envelopes w')" unfolding n(1) by (rule table_evolves_rules(2))
    have fresh: "env_ID x \<noteq> env_ID y" if "x \<in> set (ew_Envelopes (er_world s))" "y \<in> set news" for x y
      using n(2) that unfolding n(1) ids_distinct_def map_append distinct_append by auto
    have "distinct (started_by (er_world s) w')"
      using n(2) unfolding n(1,3) ids_distinct_def by (simp add: distinct_map_filter)
    moreover have "set (started_by (er_world s) w') \<inter> set (er_started s) = {}"
      using old fresh unfolding n(3) has_row_def by fastforce
    moreover have "has_row (ew_Envelopes w') (\<lambda>e. env_ID e = i \<and> env_State e = EnvelopeAccepted)"
      if "i \<in> set (started_by (er_world s) w')" for i using that unfolding n(1,3) has_row_def by auto
    ultimately show ?thesis using env_inv_step [OF assms(2) ev n(2)] ev send(1) by simp
  next
    case (load ident failGet now req loaded evs)
    obtain tenant user env where l: "loaded = (tenant, user, env)" by (cases loaded)
    obtain eid where "rd_UUID (td_Run (ed_Task d)) (re_EnvelopeId req) = Some eid"
      "env \<in> set (ew_Envelopes (er_world s))" "env_TenantID env = tenant" "env_ID env = eid"
      by (rule GetEnvelope_ok [OF respond_check_ok(2) [OF load(2) [unfolded l]]])
    then have "env_inv d s'" using assms(2) unfolding load(1) l env_inv_def has_row_def Let_def by auto
    then show ?thesis using table_evolves_rules(1) load(1) by simp
  next
    case (answer req tenant user env fr ft dbNow tid tr r eff w')
    from answer_step [OF answer(3) ids] show ?thesis
    proof (elim disjE conjE exE)
      assume e: "ew_Envelopes w' = ew_Envelopes (er_world s)" "\<not> is_ok r"
      have "table_evolves (ew_Envelopes (er_world s)) (ew_Envelopes w')" unfolding e(1) by (rule table_evolves_rules(1))
      then show ?thesis using quiet [of w'] ids e answer(1) by simp
    next
      fix eid st
      assume a: "rd_UUID (td_Run (ed_Task d)) (re_EnvelopeId req) = Some eid"
        "answers tenant eid user st (ew_Envelopes (er_world s)) (ew_Envelopes w')"
        "st = (if re_Accepted req then EnvelopeAccepted else EnvelopeRejected)"
      note row = answered_row [OF ids a(2)]
      have ev: "table_evolves (ew_Envelopes (er_world s)) (ew_Envelopes w')"
        by (rule answers_evolves [OF a(2)]) (use a(3) in simp)
      have "eid = env_ID env" using assms(2) answer(2) a(1) unfolding env_inv_def Let_def by fastforce
      moreover have "eid \<notin> set (er_started s)" using row(3) old by blast
      ultimately show ?thesis
        using env_inv_step [OF assms(2) ev row(2), of "if is_ok r \<and> re_Accepted req then [env_ID env] else []"] ev row(1) a(3) answer(1)
        by (simp split: if_splits)
    qed
  next
    case (dismiss ident fg fd fc t u eid r2 evs w')
    from dismiss_step [OF dismiss(2)] have
      "table_evolves (ew_Envelopes (er_world s)) (ew_Envelopes w') \<and> ids_distinct (ew_Envelopes w')"
    proof (elim disjE exE)
      assume "ew_Envelopes w' = ew_Envelopes (er_world s)"
      then show ?thesis using ids table_evolves_rules(1) by simp
    next
      fix tenant eid user
      assume a: "answers tenant eid user EnvelopeDismissed (ew_Envelopes (er_world s)) (ew_Envelopes w')"
      then show ?thesis using answers_evolves [OF a] answered_row(2) [OF ids a] by simp
    qed
    then show ?thesis using quiet dismiss(1) by simp
  next
    case (other_insert fail newID now e eid envs')
    note ok = CreateEnvelope_ok(3) [OF other_insert(2)]
    have "table_evolves (ew_Envelopes (er_world s)) envs'" unfolding ok by (rule table_evolves_rules(2))
    then show ?thesis
      using quiet [of "(er_world s)\<lparr>ew_Envelopes := envs'\<rparr>"] CreateEnvelope_distinct [OF other_insert(2) ids] other_insert(1) by simp
  next
    case (elsewhere w')
    have "table_evolves (ew_Envelopes (er_world s)) (ew_Envelopes w')" unfolding elsewhere(2) by (rule table_evolves_rules(1))
    then show ?thesis using quiet [of w'] ids elsewhere by simp
  qed
qed

section \<open>Properties\<close>

definition env_start :: "'w EnvWorld \<Rightarrow> 'w env_run" where
  "env_start w = \<lparr>er_world = w, er_loaded = {}, er_started = []\<rparr>"

lemma env_inv_start: "ids_distinct (ew_Envelopes w) \<Longrightarrow> env_inv d (env_start w)"
  by (simp add: env_inv_def env_start_def)

lemma env_hist_safe:
  assumes "(env_step d)\<^sup>*\<^sup>* s s'" "env_inv d s"
  shows "env_inv d s' \<and> table_evolves (ew_Envelopes (er_world s)) (ew_Envelopes (er_world s'))"
  using assms
proof (induction rule: rtranclp_induct)
  case base
  then show ?case using table_evolves_rules(1) by blast
next
  case (step s1 s2)
  then show ?case using env_step_safe [OF step.hyps(2)] table_evolves_rules(3) by blast
qed

lemma count_distinct: "distinct xs \<Longrightarrow> count_list xs x \<le> 1"
  by (induction xs) (auto simp: count_list_0_iff)



end
