(* ===== verification/Workspace.thy ===== *)
theory Workspace
  imports AuditChain PathLib "HOL-Library.AList" "HOL-Library.List_Lexorder" "HOL-Library.Char_ord" "HOL-Library.Product_Lexorder"
begin

text \<open>
  broker/internal/workspacefs/store.go and workspacepath/sanitize.go: the files of a user, kept
  under root/tenant/user on one volume.  The volume is the list of its user directories, a user
  directory the list of its entries, each a path (the list of its names) with a file or a
  directory.  An operation of the store runs under the lock of its user and is a function from the
  volume to a result and the volume afterwards; which system calls fail is an argument.  SHA-256
  and HMAC-SHA256 are parameters of the store.  The volume holds no symbolic link (the store makes
  none), so the containment check for links is left out; the migration of the directories of older
  releases (MigrateLegacy) and modification times, except those the sweep of staging segments
  compares, are not modelled.
\<close>

section \<open>Names of directories (workspacepath)\<close>

text \<open>The first rune of a text as range reads it: its length in bytes; a byte that starts none is one.\<close>

definition cont_byte :: "nat \<Rightarrow> nat \<Rightarrow> char \<Rightarrow> bool" where
  "cont_byte lo hi c = (lo \<le> byte_of c \<and> byte_of c \<le> hi)"

definition rune_len :: "string \<Rightarrow> nat" where
  "rune_len s =
     (case s of
        [] \<Rightarrow> 1
      | c # t \<Rightarrow>
          (let b = byte_of c; second = (\<lambda>lo hi. t \<noteq> [] \<and> cont_byte lo hi (hd t));
               more = (\<lambda>k. length t > k \<and> cont_byte 128 191 (t ! k)) in
           if b < 194 \<or> b > 244 then 1
           else if b < 224 then (if second 128 191 then 2 else 1)
           else if b < 240
           then (if second (if b = 224 then 160 else 128) (if b = 237 then 159 else 191) \<and> more 1 then 3 else 1)
           else (if second (if b = 240 then 144 else 128) (if b = 244 then 143 else 191) \<and> more 1 \<and> more 2 then 4 else 1)))"

lemma rune_len_pos: "s \<noteq> [] \<Longrightarrow> 0 < rune_len s"
  by (simp add: rune_len_def Let_def split: list.splits)

definition seg_char :: "char \<Rightarrow> bool" where
  "seg_char c =
     (97 \<le> byte_of c \<and> byte_of c \<le> 122 \<or> 65 \<le> byte_of c \<and> byte_of c \<le> 90 \<or> is_digit c \<or> c = CHR ''-'' \<or> c = CHR ''_'')"

function legacySeg :: "string \<Rightarrow> string" where
  "legacySeg s =
     (if s = [] then []
      else if seg_char (hd s) then hd s # legacySeg (tl s)
      else CHR ''_'' # legacySeg (drop (rune_len s) s))"
  by pat_completeness auto
termination
  by (relation "measure length") (auto simp: rune_len_pos)

declare legacySeg.simps [simp del]

record WsStore =
  st_sessionKey :: string
  st_allowUnsigned :: bool
  st_quotaBytes :: int
  st_quotaEntries :: int
  st_Sha256 :: "string \<Rightarrow> string"
  st_Hmac :: "string \<Rightarrow> string \<Rightarrow> string"

definition SanitizeSeg :: "(string \<Rightarrow> string) \<Rightarrow> string \<Rightarrow> string" where
  "SanitizeSeg sha seg =
     (if seg = [] then ''_''
      else let lossy = legacySeg seg in
           if lossy = seg then seg else lossy @ ''.'' @ hex_Encode (take 8 (sha seg)))"

definition Hashed :: "string \<Rightarrow> bool" where
  "Hashed seg =
     (case IndexByte seg (CHR ''.'') of
        None \<Rightarrow> False
      | Some i \<Rightarrow>
          (let lossy = take i seg; sum = drop (Suc i) seg in
           length sum = 16 \<and> legacySeg lossy = lossy \<and> hex_Decode sum \<noteq> None))"

section \<open>The volume\<close>

type_synonym fpath = "string list"

datatype node = NFile string | NDir

type_synonym tree = "(fpath \<times> node) list"

text \<open>The entry at root/tenant/user: a directory, or a file in its place.\<close>

datatype segment = SegDir tree | SegFile string

type_synonym volume = "((string \<times> string) \<times> segment) list"

datatype ws_error = ErrInvalidPath | ErrTooLarge | ErrExists | ErrNotEmpty | ErrQuota | ErrListTruncated
  | ErrIntegrityMismatch | ErrUnavailable | ErrReconnectRequired | ErrForbidden | ErrNotExist | OsError

definition seg_key :: "WsStore \<Rightarrow> string \<Rightarrow> string \<Rightarrow> string \<times> string" where
  "seg_key st tenant user = (SanitizeSeg (st_Sha256 st) tenant, SanitizeSeg (st_Sha256 st) user)"

text \<open>A name the file system takes.\<close>

definition os_name :: "string \<Rightarrow> bool" where
  "os_name s =
     (s \<noteq> [] \<and> s \<noteq> ''.'' \<and> s \<noteq> ''..'' \<and> CHR ''/'' \<notin> set s \<and> CHR 0x00 \<notin> set s \<and> length s \<le> 255)"

text \<open>The paths above a path, the outermost first, without the root.\<close>

definition parents :: "fpath \<Rightarrow> fpath list" where
  "parents p = map (\<lambda>k. take k p) [1..<length p]"

text \<open>The system calls that fail: by the path, relative to the user directory, they work on.\<close>

record Io =
  io_mkdir :: "fpath \<Rightarrow> bool"
  io_write :: "fpath \<Rightarrow> bool"
  io_read :: "fpath \<Rightarrow> bool"
  io_remove :: "fpath \<Rightarrow> bool"
  io_rename :: "fpath \<Rightarrow> bool"
  io_walk :: bool
  io_partial :: "fpath \<Rightarrow> nat option"

definition seg_names :: "string \<times> string \<Rightarrow> bool" where
  "seg_names k = (os_name (fst k) \<and> os_name (snd k))"

text \<open>A path that leads through a file.\<close>

definition through_file :: "tree \<Rightarrow> fpath \<Rightarrow> bool" where
  "through_file tr p = list_ex (\<lambda>q. case map_of tr q of Some (NFile _) \<Rightarrow> True | _ \<Rightarrow> False) (parents p)"

text \<open>os.Lstat of a path in the user directory \<open>k\<close>.\<close>

definition lstat :: "volume \<Rightarrow> string \<times> string \<Rightarrow> fpath \<Rightarrow> (ws_error, node) result" where
  "lstat vol k p =
     (if \<not> seg_names k then Inl OsError
      else case map_of vol k of
        None \<Rightarrow> Inl ErrNotExist
      | Some (SegFile d) \<Rightarrow> if p = [] then Inr (NFile d) else Inl OsError
      | Some (SegDir tr) \<Rightarrow>
          if p = [] then Inr NDir
          else if through_file tr p \<or> \<not> list_all os_name p then Inl OsError
          else (case map_of tr p of None \<Rightarrow> Inl ErrNotExist | Some n \<Rightarrow> Inr n))"

text \<open>os.MkdirAll below a user directory, the outermost first: the flag tells whether all exist afterwards.\<close>

fun mk_dirs :: "Io \<Rightarrow> fpath list \<Rightarrow> tree \<Rightarrow> bool \<times> tree" where
  "mk_dirs io [] tr = (True, tr)"
| "mk_dirs io (q # qs) tr =
     (case map_of tr q of
        Some NDir \<Rightarrow> mk_dirs io qs tr
      | Some (NFile _) \<Rightarrow> (False, tr)
      | None \<Rightarrow> if os_name (last q) \<and> \<not> io_mkdir io q then mk_dirs io qs (AList.update q NDir tr) else (False, tr))"

section \<open>Paths (store.go)\<close>

definition MaxFileBytes :: int where "MaxFileBytes = 10485760"
definition MaxListEntries :: int where "MaxListEntries = 5000"
definition stagingPrefix :: string where "stagingPrefix = ''xfer-''"
definition sigSuffix :: string where "sigSuffix = ''.sig''"

text \<open>strings.TrimSpace on UTF-8: the length of the white space a text starts with, and the same text backwards.\<close>

definition wide_spaces :: "nat list list" where
  "wide_spaces =
     [[194, 133], [194, 160], [225, 154, 128], [226, 128, 168], [226, 128, 169], [226, 128, 175], [226, 129, 159], [227, 128, 128]]
     @ map (\<lambda>n. [226, 128, n]) [128..<139]"

definition space_len :: "nat list list \<Rightarrow> string \<Rightarrow> nat" where
  "space_len wide s =
     (case s of
        [] \<Rightarrow> 0
      | c # _ \<Rightarrow>
          if is_space c then 1
          else (case find (\<lambda>w. map byte_of (take (length w) s) = w) wide of None \<Rightarrow> 0 | Some w \<Rightarrow> length w))"

function trim_spaces :: "nat list list \<Rightarrow> string \<Rightarrow> string" where
  "trim_spaces wide s = (if space_len wide s = 0 then s else trim_spaces wide (drop (space_len wide s) s))"
  by pat_completeness auto
termination
  by (relation "measure (length \<circ> snd)") (auto simp: space_len_def split: list.splits)

declare trim_spaces.simps [simp del]

definition TrimSpaceUtf8 :: "string \<Rightarrow> string" where
  "TrimSpaceUtf8 s = rev (trim_spaces (map rev wide_spaces) (rev (trim_spaces wide_spaces s)))"

text \<open>
  strings.ToLower as far as a comparison with ASCII words sees it: besides the ASCII letters it
  takes the dotted capital I and the Kelvin sign to ASCII letters.
\<close>

fun ToLowerAscii :: "string \<Rightarrow> string" where
  "ToLowerAscii (a # b # s) =
     (if map byte_of [a, b] = [196, 176] then CHR ''i'' # ToLowerAscii s
      else if map byte_of (a # b # take 1 s) = [226, 132, 170] then CHR ''k'' # ToLowerAscii (drop 1 s)
      else lower_char a # ToLowerAscii (b # s))"
| "ToLowerAscii s = ToLower s"

definition CleanRel :: "string \<Rightarrow> (ws_error, string) result" where
  "CleanRel rel0 =
     (let rel = TrimSpaceUtf8 rel0 in
      if rel = [] then Inl ErrInvalidPath
      else if HasPrefix rel ''/'' then Inl ErrInvalidPath
      else let clean = path_Clean rel in
           if clean = ''..'' \<or> HasPrefix clean ''../'' then Inl ErrInvalidPath else Inr clean)"

definition firstSegment :: "string \<Rightarrow> string" where
  "firstSegment clean = (if clean = ''.'' then [] else takeWhile (\<lambda>c. c \<noteq> CHR ''/'') clean)"

definition isReservedTop :: "string \<Rightarrow> bool" where
  "isReservedTop tp = (ToLowerAscii tp = ''config'')"

text \<open>The names of a cleaned path; the root has none.\<close>

definition path_names :: "string \<Rightarrow> fpath" where
  "path_names clean = (if clean = ''.'' then [] else Split clean (CHR ''/''))"

definition resolve :: "string \<Rightarrow> (ws_error, fpath) result" where
  "resolve rel =
     bindE (CleanRel rel) (\<lambda>clean. if isReservedTop (firstSegment clean) then Inl ErrInvalidPath else Inr (path_names clean))"

definition is_session :: "fpath \<Rightarrow> bool" where
  "is_session p = (length p > 2 \<and> take 2 p = [''.agent'', ''Sessions''])"

definition is_sig :: "fpath \<Rightarrow> bool" where
  "is_sig p = (p \<noteq> [] \<and> HasSuffix (last p) sigSuffix)"

definition sig_path :: "fpath \<Rightarrow> fpath" where
  "sig_path p = butlast p @ [last p @ sigSuffix]"

definition guardClean :: "string \<Rightarrow> string option" where
  "guardClean rel = (case CleanRel rel of Inl _ \<Rightarrow> None | Inr clean \<Rightarrow> Some clean)"

definition UnderAgentDir :: "string \<Rightarrow> bool" where
  "UnderAgentDir rel =
     (case guardClean rel of
        None \<Rightarrow> False
      | Some clean0 \<Rightarrow> (let clean = ToLowerAscii clean0 in clean = ''.agent'' \<or> HasPrefix clean ''.agent/''))"

definition UnderSessionsDir :: "string \<Rightarrow> bool" where
  "UnderSessionsDir rel =
     (case guardClean rel of
        None \<Rightarrow> False
      | Some clean \<Rightarrow> clean = ''.agent/Sessions'' \<or> HasPrefix clean ''.agent/Sessions/'')"

section \<open>Signatures\<close>

definition signingEnabled :: "WsStore \<Rightarrow> bool" where
  "signingEnabled st = (st_sessionKey st \<noteq> [])"

definition sign_payload :: "string \<Rightarrow> string \<Rightarrow> string \<Rightarrow> string \<Rightarrow> string" where
  "sign_payload tenantSeg userSeg rel data =
     tenantSeg @ [CHR 0x00] @ userSeg @ [CHR 0x00] @ rel @ [CHR 0x00] @ data"

definition signSegs :: "WsStore \<Rightarrow> string \<times> string \<Rightarrow> string \<Rightarrow> string \<Rightarrow> string" where
  "signSegs st k rel data = hex_Encode (st_Hmac st (st_sessionKey st) (sign_payload (fst k) (snd k) rel data))"

definition Store_sign :: "WsStore \<Rightarrow> string \<times> string \<Rightarrow> fpath \<Rightarrow> string \<Rightarrow> string" where
  "Store_sign st k p data = signSegs st k (Join p ''/'') data"

definition signLegacy :: "WsStore \<Rightarrow> string \<Rightarrow> string" where
  "signLegacy st data = hex_Encode (st_Hmac st (st_sessionKey st) data)"

section \<open>Reading\<close>

definition readAtClean :: "Io \<Rightarrow> volume \<Rightarrow> string \<times> string \<Rightarrow> fpath \<Rightarrow> (ws_error, string) result" where
  "readAtClean io vol k p =
     (case lstat vol k p of
        Inl e \<Rightarrow> Inl e
      | Inr NDir \<Rightarrow> Inl ErrInvalidPath
      | Inr (NFile d) \<Rightarrow> if int (length d) > MaxFileBytes then Inl ErrTooLarge else if io_read io p then Inl OsError else Inr d)"

definition readAndVerify :: "WsStore \<Rightarrow> Io \<Rightarrow> string \<Rightarrow> string \<Rightarrow> string \<Rightarrow> volume \<Rightarrow> (ws_error, string \<times> bool) result" where
  "readAndVerify st io tenant user rel vol =
     bindE (resolve rel) (\<lambda>p.
       let k = seg_key st tenant user in
       bindE (readAtClean io vol k p) (\<lambda>data.
         if \<not> is_session p \<or> is_sig p then Inr (data, False)
         else
           (let sg = readAtClean io vol k (sig_path p) in
            if signingEnabled st \<and> sg = Inr (Store_sign st k p data) then Inr (data, False)
            else if \<not> st_allowUnsigned st then Inl ErrIntegrityMismatch
            else if \<not> is_ok sg \<or> \<not> signingEnabled st then Inr (data, True)
            else if sg = Inr (signLegacy st data) then Inr (data, True)
            else Inl ErrIntegrityMismatch)))"

definition Store_Read :: "WsStore \<Rightarrow> Io \<Rightarrow> string \<Rightarrow> string \<Rightarrow> string \<Rightarrow> volume \<Rightarrow> (ws_error, string) result" where
  "Store_Read st io tenant user rel vol = bindE (readAndVerify st io tenant user rel vol) (\<lambda>r. Inr (fst r))"

text \<open>The listing of a directory, in the order of the walk; \<open>True\<close> when it was cut short.\<close>

record FileInfo =
  fi_Path :: string
  fi_Size :: int
  fi_IsDir :: bool

definition file_info :: "fpath \<times> node \<Rightarrow> FileInfo" where
  "file_info e =
     (case e of
        (p, NDir) \<Rightarrow> \<lparr>fi_Path = Join p ''/'', fi_Size = 0, fi_IsDir = True\<rparr>
      | (p, NFile d) \<Rightarrow> \<lparr>fi_Path = Join p ''/'', fi_Size = int (length d), fi_IsDir = False\<rparr>)"

definition listed :: "fpath \<Rightarrow> bool \<Rightarrow> fpath \<times> node \<Rightarrow> bool" where
  "listed root recursive e =
     (case e of (q, n) \<Rightarrow>
        take (length root) q = root \<and> length q > length root \<and> \<not> isReservedTop (hd q)
        \<and> (recursive \<or> length q = Suc (length root)) \<and> (n = NDir \<or> \<not> is_sig q))"

definition walk :: "tree \<Rightarrow> fpath \<Rightarrow> bool \<Rightarrow> FileInfo list" where
  "walk tr root recursive = map file_info (sort_key fst (filter (listed root recursive) tr))"

definition ListDir :: "WsStore \<Rightarrow> Io \<Rightarrow> string \<Rightarrow> string \<Rightarrow> string \<Rightarrow> bool \<Rightarrow> volume \<Rightarrow> (ws_error, FileInfo list \<times> bool) result" where
  "ListDir st io tenant user dir recursive vol =
     bindE (if dir \<noteq> [] \<and> dir \<noteq> ''.'' then resolve dir else Inr []) (\<lambda>root.
       let k = seg_key st tenant user in
       case lstat vol k root of
         Inl ErrNotExist \<Rightarrow> Inr ([], False)
       | Inl e \<Rightarrow> Inl e
       | Inr (NFile _) \<Rightarrow> Inr ([], False)
       | Inr NDir \<Rightarrow>
           if io_walk io then Inl OsError
           else (case map_of vol k of
                   Some (SegDir tr) \<Rightarrow>
                     (let out = walk tr root recursive; limit = nat (max MaxListEntries (st_quotaEntries st)) in
                      Inr (take limit out, length out > limit))
                 | _ \<Rightarrow> Inr ([], False)))"

definition List_all :: "WsStore \<Rightarrow> Io \<Rightarrow> string \<Rightarrow> string \<Rightarrow> volume \<Rightarrow> (ws_error, FileInfo list \<times> bool) result" where
  "List_all st io tenant user vol = ListDir st io tenant user [] True vol"

section \<open>The quota\<close>

definition ownerTag :: "(string \<Rightarrow> string) \<Rightarrow> string \<Rightarrow> string" where
  "ownerTag sha dirName = hex_Encode (take 8 (sha dirName))"

definition StagingSeg :: "(string \<Rightarrow> string) \<Rightarrow> string \<Rightarrow> string \<Rightarrow> string" where
  "StagingSeg sha newUuid owner = stagingPrefix @ ownerTag sha (SanitizeSeg sha owner) @ ''-'' @ newUuid"

definition stagingOwnerTag :: "string \<Rightarrow> string option" where
  "stagingOwnerTag user =
     (case CutPrefix user stagingPrefix of
        None \<Rightarrow> None
      | Some rest \<Rightarrow>
          if length rest < 17 \<or> rest ! 16 \<noteq> CHR ''-'' then None
          else if hex_Decode (take 16 rest) = None then None
          else Some (take 16 rest))"

definition quota_tag :: "WsStore \<Rightarrow> string \<Rightarrow> string \<Rightarrow> string" where
  "quota_tag st tenant user =
     (case stagingOwnerTag user of
        Some tag \<Rightarrow> tag
      | None \<Rightarrow> ownerTag (st_Sha256 st) (snd (seg_key st tenant user)))"

definition in_pool :: "(string \<Rightarrow> string) \<Rightarrow> string \<Rightarrow> string \<Rightarrow> string \<times> string \<Rightarrow> bool" where
  "in_pool sha tenantDir tag k =
     (fst k = tenantDir \<and> (HasPrefix (snd k) (stagingPrefix @ tag @ ''-'') \<or> ownerTag sha (snd k) = tag))"

text \<open>The user directories that share the quota of \<open>tag\<close>: the trees of those that are directories.\<close>

definition seg_tree :: "segment \<Rightarrow> tree" where
  "seg_tree s = (case s of SegDir tr \<Rightarrow> tr | SegFile _ \<Rightarrow> [])"

definition quotaPool :: "(string \<Rightarrow> string) \<Rightarrow> string \<Rightarrow> string \<Rightarrow> volume \<Rightarrow> tree list" where
  "quotaPool sha tenantDir tag vol = map (seg_tree \<circ> snd) (filter (\<lambda>e. in_pool sha tenantDir tag (fst e)) vol)"

definition node_size :: "node \<Rightarrow> int" where
  "node_size n = (case n of NFile d \<Rightarrow> int (length d) | NDir \<Rightarrow> 0)"

definition tree_bytes :: "tree \<Rightarrow> int" where
  "tree_bytes tr = sum_list (map (node_size \<circ> snd) tr)"

definition usedBytes :: "tree list \<Rightarrow> int" where
  "usedBytes dirs = sum_list (map tree_bytes dirs)"

definition usedEntries :: "tree list \<Rightarrow> int" where
  "usedEntries dirs = sum_list (map (int \<circ> length) dirs)"

definition newEntries :: "volume \<Rightarrow> string \<times> string \<Rightarrow> fpath \<Rightarrow> int" where
  "newEntries vol k p =
     (if is_ok (lstat vol k p) then 0
      else int (length (takeWhile (\<lambda>q. \<not> is_ok (lstat vol k q)) (rev (map (\<lambda>n. take n p) [1..<Suc (length p)])))))"

definition net_size :: "volume \<Rightarrow> string \<times> string \<Rightarrow> fpath \<Rightarrow> int \<Rightarrow> int" where
  "net_size vol k p sz = (case lstat vol k p of Inr (NFile d) \<Rightarrow> sz - int (length d) | _ \<Rightarrow> sz)"

definition checkQuota :: "WsStore \<Rightarrow> Io \<Rightarrow> string \<Rightarrow> string \<Rightarrow> fpath \<Rightarrow> int \<Rightarrow> volume \<Rightarrow> ws_error option" where
  "checkQuota st io tenant user p sz vol =
     (if st_quotaBytes st \<le> 0 \<and> st_quotaEntries st \<le> 0 then None
      else if io_walk io then Some OsError
      else
        (let k = seg_key st tenant user;
             dirs = quotaPool (st_Sha256 st) (fst k) (quota_tag st tenant user) vol in
         if st_quotaBytes st > 0 \<and> usedBytes dirs + net_size vol k p sz > st_quotaBytes st then Some ErrQuota
         else if st_quotaEntries st > 0 \<and> usedEntries dirs + newEntries vol k p > st_quotaEntries st then Some ErrQuota
         else None))"

section \<open>Writing\<close>

definition mkdirAll :: "Io \<Rightarrow> string \<times> string \<Rightarrow> fpath list \<Rightarrow> volume \<Rightarrow> bool \<times> volume" where
  "mkdirAll io k qs vol =
     (case map_of vol k of
        Some (SegFile _) \<Rightarrow> (False, vol)
      | Some (SegDir tr) \<Rightarrow> (case mk_dirs io qs tr of (ok, tr') \<Rightarrow> (ok, AList.update k (SegDir tr') vol))
      | None \<Rightarrow>
          if \<not> seg_names k \<or> io_mkdir io [] then (False, vol)
          else (case mk_dirs io qs [] of (ok, tr') \<Rightarrow> (ok, AList.update k (SegDir tr') vol)))"

text \<open>
  The rename of a written temporary file to its place, and os.WriteFile: neither replaces a
  directory, and the parent is a directory already.  The user directory itself can be the place.
\<close>

definition put_file :: "string \<times> string \<Rightarrow> fpath \<Rightarrow> string \<Rightarrow> volume \<Rightarrow> bool \<times> volume" where
  "put_file k p data vol =
     (case map_of vol k of
        Some (SegDir tr) \<Rightarrow>
          if p = [] \<or> \<not> os_name (last p) \<or> map_of tr p = Some NDir then (False, vol)
          else (True, AList.update k (SegDir (AList.update p (NFile data) tr)) vol)
      | _ \<Rightarrow> if p = [] \<and> seg_names k then (True, AList.update k (SegFile data) vol) else (False, vol))"

definition writeAtClean :: "Io \<Rightarrow> string \<times> string \<Rightarrow> fpath \<Rightarrow> string \<Rightarrow> volume \<Rightarrow> (ws_error, FileInfo) result \<times> volume" where
  "writeAtClean io k p data vol =
     (case (if p = [] then (True, vol) else mkdirAll io k (parents p) vol) of
        (False, vol1) \<Rightarrow> (Inl OsError, vol1)
      | (True, vol1) \<Rightarrow>
          if io_write io p then (Inl OsError, vol1)
          else (case put_file k p data vol1 of
                  (False, vol2) \<Rightarrow> (Inl OsError, vol2)
                | (True, vol2) \<Rightarrow>
                    (Inr \<lparr>fi_Path = (if p = [] then ''.'' else Join p ''/''), fi_Size = int (length data), fi_IsDir = False\<rparr>, vol2)))"

definition Store_Write :: "WsStore \<Rightarrow> Io \<Rightarrow> string \<Rightarrow> string \<Rightarrow> string \<Rightarrow> string \<Rightarrow> volume \<Rightarrow> (ws_error, FileInfo) result \<times> volume" where
  "Store_Write st io tenant user rel data vol =
     (if int (length data) > MaxFileBytes then (Inl ErrTooLarge, vol)
      else case resolve rel of
        Inl e \<Rightarrow> (Inl e, vol)
      | Inr p \<Rightarrow>
          (let k = seg_key st tenant user in
           if is_session p \<and> is_sig p then (Inl ErrInvalidPath, vol)
           else if is_session p \<and> \<not> signingEnabled st \<and> \<not> st_allowUnsigned st then (Inl ErrUnavailable, vol)
           else case checkQuota st io tenant user p (int (length data)) vol of
             Some e \<Rightarrow> (Inl e, vol)
           | None \<Rightarrow>
               (case writeAtClean io k p data vol of
                  (Inl e, vol1) \<Rightarrow> (Inl e, vol1)
                | (Inr info, vol1) \<Rightarrow>
                    if is_session p \<and> signingEnabled st
                    then (case writeAtClean io k (sig_path p) (Store_sign st k p data) vol1 of
                            (Inl e, vol2) \<Rightarrow> (Inl e, vol2)
                          | (Inr _, vol2) \<Rightarrow> (Inr info, vol2))
                    else (Inr info, vol1))))"

definition mkdir_paths :: "fpath \<Rightarrow> fpath list" where
  "mkdir_paths p = map (\<lambda>n. take n p) [1..<Suc (length p)]"

definition Store_Mkdir :: "WsStore \<Rightarrow> Io \<Rightarrow> string \<Rightarrow> string \<Rightarrow> string \<Rightarrow> volume \<Rightarrow> (ws_error, unit) result \<times> volume" where
  "Store_Mkdir st io tenant user rel vol =
     (case resolve rel of
        Inl e \<Rightarrow> (Inl e, vol)
      | Inr p \<Rightarrow>
          (let k = seg_key st tenant user in
           if is_ok (lstat vol k p) then (Inl ErrExists, vol)
           else case checkQuota st io tenant user p 0 vol of
             Some e \<Rightarrow> (Inl e, vol)
           | None \<Rightarrow>
               (case mkdirAll io k (mkdir_paths p) vol of
                  (ok, vol1) \<Rightarrow> (if ok then Inr () else Inl OsError, vol1))))"

section \<open>Deleting and moving\<close>

definition entries_below :: "tree \<Rightarrow> fpath \<Rightarrow> tree" where
  "entries_below tr p = filter (\<lambda>e. take (length p) (fst e) = p \<and> length (fst e) > length p) tr"

text \<open>os.Remove: a file or an empty directory.\<close>

definition os_remove :: "Io \<Rightarrow> string \<times> string \<Rightarrow> fpath \<Rightarrow> volume \<Rightarrow> bool \<times> volume" where
  "os_remove io k p vol =
     (if io_remove io p then (False, vol)
      else case lstat vol k p of
        Inl _ \<Rightarrow> (False, vol)
      | Inr n \<Rightarrow>
          (case map_of vol k of
             Some (SegDir tr) \<Rightarrow>
               if n = NDir \<and> entries_below tr p \<noteq> [] then (False, vol)
               else if p = [] then (True, AList.delete k vol)
               else (True, AList.update k (SegDir (AList.delete p tr)) vol)
           | _ \<Rightarrow> (True, AList.delete k vol)))"

definition dir_children :: "string \<times> string \<Rightarrow> fpath \<Rightarrow> volume \<Rightarrow> tree" where
  "dir_children k p vol = (case map_of vol k of Some s \<Rightarrow> entries_below (seg_tree s) p | None \<Rightarrow> [])"

definition Store_Delete :: "WsStore \<Rightarrow> Io \<Rightarrow> string \<Rightarrow> string \<Rightarrow> string \<Rightarrow> volume \<Rightarrow> (ws_error, unit) result \<times> volume" where
  "Store_Delete st io tenant user rel vol =
     (case resolve rel of
        Inl e \<Rightarrow> (Inl e, vol)
      | Inr p \<Rightarrow>
          (let k = seg_key st tenant user in
           if is_session p \<and> is_sig p then (Inl ErrInvalidPath, vol)
           else case lstat vol k p of
             Inl e \<Rightarrow> (Inl e, vol)
           | Inr NDir \<Rightarrow>
               if io_read io p then (Inl OsError, vol)
               else if dir_children k p vol \<noteq> [] then (Inl ErrNotEmpty, vol)
               else (case os_remove io k p vol of (ok, vol1) \<Rightarrow> (if ok then Inr () else Inl OsError, vol1))
           | Inr (NFile _) \<Rightarrow>
               (case os_remove io k p vol of
                  (False, vol1) \<Rightarrow> (Inl OsError, vol1)
                | (True, vol1) \<Rightarrow> (Inr (), if is_session p then snd (os_remove io k (sig_path p) vol1) else vol1))))"

text \<open>os.Rename within a user directory to a place that does not exist, below a directory that does.\<close>

definition move_entry :: "fpath \<Rightarrow> fpath \<Rightarrow> fpath \<times> node \<Rightarrow> fpath \<times> node" where
  "move_entry p q e = (if take (length p) (fst e) = p then (q @ drop (length p) (fst e), snd e) else e)"

definition os_rename :: "Io \<Rightarrow> string \<times> string \<Rightarrow> fpath \<Rightarrow> fpath \<Rightarrow> volume \<Rightarrow> bool \<times> volume" where
  "os_rename io k p q vol =
     (case map_of vol k of
        Some (SegDir tr) \<Rightarrow>
          if io_rename io p \<or> take (length p) q = p \<or> q = [] \<or> \<not> os_name (last q) then (False, vol)
          else (True, AList.update k (SegDir (map (move_entry p q) tr)) vol)
      | _ \<Rightarrow> (False, vol))"

text \<open>os.WriteFile; when it fails the file may hold the first bytes only.\<close>

definition os_WriteFile :: "Io \<Rightarrow> string \<times> string \<Rightarrow> fpath \<Rightarrow> string \<Rightarrow> volume \<Rightarrow> bool \<times> volume" where
  "os_WriteFile io k p data vol =
     (if io_write io p
      then (case io_partial io p of None \<Rightarrow> (False, vol) | Some n \<Rightarrow> (False, snd (put_file k p (take n data) vol)))
      else put_file k p data vol)"

definition sign_moved :: "WsStore \<Rightarrow> Io \<Rightarrow> string \<times> string \<Rightarrow> fpath \<Rightarrow> volume \<Rightarrow> ws_error option \<times> volume" where
  "sign_moved st io k p vol =
     (if is_session p \<and> signingEnabled st
      then (case readAtClean io vol k p of
              Inl e \<Rightarrow> (Some e, vol)
            | Inr data \<Rightarrow>
                (case os_WriteFile io k (sig_path p) (Store_sign st k p data) vol of
                   (ok, vol1) \<Rightarrow> (if ok then None else Some OsError, vol1)))
      else (None, snd (os_remove io k (sig_path p) vol)))"

definition node_info :: "fpath \<Rightarrow> node \<Rightarrow> FileInfo" where
  "node_info p n = \<lparr>fi_Path = Join p ''/'', fi_Size = node_size n, fi_IsDir = (n = NDir)\<rparr>"

text \<open>After the rename of \<open>n\<close> from \<open>p\<close> to \<open>q\<close>: its sidecar.\<close>

definition finish_move :: "WsStore \<Rightarrow> Io \<Rightarrow> string \<times> string \<Rightarrow> fpath \<Rightarrow> fpath \<Rightarrow> node \<Rightarrow> volume \<Rightarrow> (ws_error, FileInfo) result \<times> volume" where
  "finish_move st io k p q n vol2 =
     (if n = NDir then (Inr (node_info q n), vol2)
      else
        (let vol3 = (if is_session p then snd (os_remove io k (sig_path p) vol2) else vol2) in
         case sign_moved st io k q vol3 of
           (Some e, vol4) \<Rightarrow> (Inl e, vol4)
         | (None, vol4) \<Rightarrow> (Inr (node_info q n), vol4)))"

definition Store_Move :: "WsStore \<Rightarrow> Io \<Rightarrow> string \<Rightarrow> string \<Rightarrow> string \<Rightarrow> string \<Rightarrow> volume \<Rightarrow> (ws_error, FileInfo) result \<times> volume" where
  "Store_Move st io tenant user frm to vol =
     (case bindE (resolve frm) (\<lambda>p. bindE (resolve to) (\<lambda>q. Inr (p, q))) of
        Inl e \<Rightarrow> (Inl e, vol)
      | Inr (p, q) \<Rightarrow>
          (let k = seg_key st tenant user in
           if is_session p \<and> is_sig p \<or> is_session q \<and> is_sig q then (Inl ErrInvalidPath, vol)
           else if is_session q \<and> \<not> signingEnabled st \<and> \<not> st_allowUnsigned st then (Inl ErrUnavailable, vol)
           else case lstat vol k p of
             Inl e \<Rightarrow> (Inl e, vol)
           | Inr n \<Rightarrow>
               if n = NDir \<and> (is_session p \<or> is_session q) then (Inl ErrInvalidPath, vol)
               else case (if is_session p then readAndVerify st io tenant user frm vol else Inr ([], False)) of
                 Inl e \<Rightarrow> (Inl e, vol)
               | Inr _ \<Rightarrow>
                   if is_ok (lstat vol k q) then (Inl ErrExists, vol)
                   else (case (if q = [] then (True, vol) else mkdirAll io k (parents q) vol) of
                     (False, vol1) \<Rightarrow> (Inl OsError, vol1)
                   | (True, vol1) \<Rightarrow>
                       (case os_rename io k p q vol1 of
                          (False, vol2) \<Rightarrow> (Inl OsError, vol2)
                        | (True, vol2) \<Rightarrow> finish_move st io k p q n vol2))))"

section \<open>Maintenance at startup\<close>

text \<open>\<open>uuid_ok\<close> is uuid.Parse accepting.\<close>

definition isStagingSeg :: "(string \<Rightarrow> bool) \<Rightarrow> string \<Rightarrow> bool" where
  "isStagingSeg uuid_ok name =
     (case CutPrefix name stagingPrefix of
        None \<Rightarrow> False
      | Some rest0 \<Rightarrow>
          (let rest = (if stagingOwnerTag name \<noteq> None then drop 17 rest0 else rest0) in
           length rest = 36 \<and> uuid_ok rest))"

text \<open>
  os.RemoveAll of the segments in order; \<open>rmerr\<close> gives for a segment it cannot remove the tree it
  leaves there, and \<open>readerr\<close> the tenant directories (the root for the empty name) that cannot be read.
\<close>

fun sweep_segs :: "(string \<times> string \<Rightarrow> tree option) \<Rightarrow> (string \<Rightarrow> bool) \<Rightarrow> (string \<times> string \<Rightarrow> bool)
  \<Rightarrow> (string \<times> string) list \<Rightarrow> nat \<Rightarrow> volume \<Rightarrow> nat \<times> bool \<times> volume" where
  "sweep_segs rmerr readerr stale [] n vol = (n, True, vol)"
| "sweep_segs rmerr readerr stale (k # ks) n vol =
     (if readerr (fst k) then (n, False, vol)
      else if \<not> stale k then sweep_segs rmerr readerr stale ks n vol
      else case rmerr k of
        Some tr \<Rightarrow> (n, False, AList.update k (SegDir tr) vol)
      | None \<Rightarrow> sweep_segs rmerr readerr stale ks (Suc n) (AList.delete k vol))"

definition SweepStaging :: "(string \<Rightarrow> bool) \<Rightarrow> (string \<times> string \<Rightarrow> tree option) \<Rightarrow> (string \<Rightarrow> bool) \<Rightarrow> (string \<times> string \<Rightarrow> int)
  \<Rightarrow> int \<Rightarrow> volume \<Rightarrow> nat \<times> bool \<times> volume" where
  "SweepStaging uuid_ok rmerr readerr mtime cutoff vol =
     (if readerr [] then (0, False, vol)
      else sweep_segs rmerr readerr
       (\<lambda>k. (case map_of vol k of Some (SegDir _) \<Rightarrow> True | _ \<Rightarrow> False) \<and> isStagingSeg uuid_ok (snd k) \<and> mtime k < cutoff)
       (sort (map fst vol)) 0 vol)"

text \<open>One session record under ResignLegacySessions: the counts of re-signed and unverified ones, and whether it went on.\<close>

definition resign_file :: "WsStore \<Rightarrow> Io \<Rightarrow> string \<times> string \<Rightarrow> fpath \<Rightarrow> volume \<Rightarrow> nat \<times> nat \<times> bool \<times> volume" where
  "resign_file st io k p vol =
     (case (readAtClean io vol k p, readAtClean io vol k (sig_path p)) of
        (Inr data, Inr sg) \<Rightarrow>
          if sg = Store_sign st k p data then (0, 0, True, vol)
          else if sg = signLegacy st data
          then (case os_WriteFile io k (sig_path p) (Store_sign st k p data) vol of
                  (False, vol1) \<Rightarrow> (0, 0, False, vol1)
                | (True, vol1) \<Rightarrow> (1, 0, True, vol1))
          else (0, 1, True, vol)
      | _ \<Rightarrow> (0, 1, True, vol))"

fun resign_files :: "WsStore \<Rightarrow> Io \<Rightarrow> ((string \<times> string) \<times> fpath) list \<Rightarrow> nat \<times> nat \<Rightarrow> volume \<Rightarrow> (nat \<times> nat) \<times> bool \<times> volume" where
  "resign_files st io [] c vol = (c, True, vol)"
| "resign_files st io ((k, p) # ps) c vol =
     (case resign_file st io k p vol of
        (r, u, ok, vol1) \<Rightarrow>
          if ok then resign_files st io ps (fst c + r, snd c + u) vol1 else ((fst c + r, snd c + u), False, vol1))"

definition session_files :: "volume \<Rightarrow> ((string \<times> string) \<times> fpath) list" where
  "session_files vol =
     concat (map (\<lambda>(k, s). map (\<lambda>e. (k, fst e))
       (filter (\<lambda>(p, n). take 2 p = [''.agent'', ''Sessions''] \<and> n \<noteq> NDir \<and> \<not> is_sig p) (sort_key fst (seg_tree s))))
       (sort_key fst vol))"

definition ResignLegacySessions :: "WsStore \<Rightarrow> Io \<Rightarrow> volume \<Rightarrow> (nat \<times> nat) \<times> bool \<times> volume" where
  "ResignLegacySessions st io vol =
     (if \<not> signingEnabled st \<or> io_walk io then ((0, 0), False, vol)
      else resign_files st io (session_files vol) (0, 0) vol)"

end
