(* ===== verification/WorkspaceFacts.thy ===== *)
theory WorkspaceFacts
  imports Workspace
begin

text \<open>
  The operations of the workspace store as one function \<open>ws_exec\<close>, and what each keeps: the locale
  \<open>volume_rel\<close> lifts a relation that every system call of the store keeps to whole operations.
\<close>

section \<open>Association lists\<close>

lemma sum_update:
  fixes f :: "'k \<times> 'v \<Rightarrow> int"
  shows "sum_list (map f (AList.update k v xs)) = sum_list (map f xs) - (case map_of xs k of None \<Rightarrow> 0 | Some w \<Rightarrow> f (k, w)) + f (k, v)"
  by (induction xs) (auto split: option.splits)

lemma length_update: "length (AList.update k v xs) = length xs + (if map_of xs k = None then 1 else 0)"
  by (induction xs) auto

lemma map_of_update: "map_of (AList.update k v xs) j = (if j = k then Some v else map_of xs j)"
  by (simp add: update_conv')

lemma map_of_delete: "map_of (AList.delete k xs) j = (if j = k then None else map_of xs j)"
  by (simp add: delete_conv')

lemma distinct_update: "distinct (map fst xs) \<Longrightarrow> distinct (map fst (AList.update k v xs))"
  by (rule AList.distinct_update)

lemma distinct_delete: "distinct (map fst xs) \<Longrightarrow> distinct (map fst (AList.delete k xs))"
  by (simp add: AList.distinct_delete)

lemmas alist_simps = map_of_update map_of_delete

section \<open>Operations\<close>

datatype ws_op = OpWrite string string | OpMkdir string | OpDelete string | OpMove string string

definition ws_exec :: "WsStore \<Rightarrow> Io \<Rightarrow> string \<Rightarrow> string \<Rightarrow> ws_op \<Rightarrow> volume \<Rightarrow> volume" where
  "ws_exec st io tenant user op vol =
     (case op of
        OpWrite rel data \<Rightarrow> snd (Store_Write st io tenant user rel data vol)
      | OpMkdir rel \<Rightarrow> snd (Store_Mkdir st io tenant user rel vol)
      | OpDelete rel \<Rightarrow> snd (Store_Delete st io tenant user rel vol)
      | OpMove frm to \<Rightarrow> snd (Store_Move st io tenant user frm to vol))"

section \<open>Sound volumes\<close>

definition wf_entry :: "tree \<Rightarrow> fpath \<Rightarrow> bool" where
  "wf_entry tr p = (p \<noteq> [] \<and> list_all os_name p \<and> list_all (\<lambda>q. map_of tr q = Some NDir) (parents p))"

definition wf_tree :: "tree \<Rightarrow> bool" where
  "wf_tree tr = (distinct (map fst tr) \<and> list_all (\<lambda>e. wf_entry tr (fst e)) tr)"

definition wf_volume :: "volume \<Rightarrow> bool" where
  "wf_volume vol = (distinct (map fst vol) \<and> list_all (\<lambda>e. seg_names (fst e) \<and> wf_tree (seg_tree (snd e))) vol)"

lemma wf_tree_entry: "wf_tree tr \<Longrightarrow> map_of tr p = Some n \<Longrightarrow> wf_entry tr p"
  by (auto simp: wf_tree_def list_all_iff dest!: map_of_SomeD)

lemma wf_volume_seg: "wf_volume vol \<Longrightarrow> map_of vol k = Some s \<Longrightarrow> seg_names k \<and> wf_tree (seg_tree s)"
  by (auto simp: wf_volume_def list_all_iff dest!: map_of_SomeD)

lemma wf_treeI:
  assumes "distinct (map fst tr)" "\<And>p n. map_of tr p = Some n \<Longrightarrow> wf_entry tr p"
  shows "wf_tree tr"
  unfolding wf_tree_def list_all_iff
proof (intro conjI ballI)
  fix e assume "e \<in> set tr"
  then have "map_of tr (fst e) = Some (snd e)" using assms(1) by (simp add: map_of_eq_Some_iff)
  then show "wf_entry tr (fst e)" by (rule assms(2))
qed (rule assms(1))

lemma parents_iff: "q \<in> set (parents p) \<longleftrightarrow> (\<exists>n. 1 \<le> n \<and> n < length p \<and> q = take n p)"
  by (auto simp: parents_def)

lemma not_own_parent: "p \<notin> set (parents p)"
proof
  assume "p \<in> set (parents p)"
  then obtain n where n: "n < length p" "p = take n p" unfolding parents_iff by blast
  from n(2) have "length p = length (take n p)" by (rule arg_cong)
  then show False using n(1) by simp
qed

lemma parents_sig_path [simp]: "p \<noteq> [] \<Longrightarrow> parents (sig_path p) = parents p"
  by (auto simp: parents_def sig_path_def take_butlast)

lemma sig_path_neq [simp]: "sig_path p \<noteq> []" "last (sig_path p) = last p @ sigSuffix"
  by (simp_all add: sig_path_def)

text \<open>In a sound volume lstat sees exactly the entries.\<close>

lemma lstat_entry:
  assumes "wf_volume vol" "map_of vol k = Some (SegDir tr)" "map_of tr p = Some n"
  shows "lstat vol k p = Inr n"
proof -
  have "wf_tree tr" "seg_names k" using wf_volume_seg [OF assms(1,2)] by (auto simp: seg_tree_def)
  then have w: "wf_entry tr p" using assms(3) wf_tree_entry by blast
  then have "\<not> through_file tr p" by (auto simp: through_file_def wf_entry_def list_all_iff list_ex_iff split: option.splits node.splits)
  then show ?thesis using assms(2,3) w \<open>seg_names k\<close> by (simp add: lstat_def wf_entry_def)
qed

lemma lstat_ok:
  assumes "lstat vol k p = Inr n" "p \<noteq> []"
  obtains tr where "map_of vol k = Some (SegDir tr)" "map_of tr p = Some n" "list_all os_name p" "\<not> through_file tr p" "seg_names k"
  using assms by (auto simp: lstat_def split: if_splits option.splits segment.splits)

section \<open>Making directories\<close>

fun dir_chain :: "fpath set \<Rightarrow> fpath list \<Rightarrow> bool" where
  "dir_chain S [] \<longleftrightarrow> True"
| "dir_chain S (q # qs) \<longleftrightarrow> q \<noteq> [] \<and> set (parents q) \<subseteq> S \<and> dir_chain (insert q S) qs"

lemma dir_chain_mono: "dir_chain S qs \<Longrightarrow> S \<subseteq> T \<Longrightarrow> dir_chain T qs"
  by (induction qs arbitrary: S T) (auto, metis insert_mono)

lemma dir_chain_takes:
  "1 \<le> i \<Longrightarrow> n \<le> Suc (length p) \<Longrightarrow> (\<And>j. 1 \<le> j \<Longrightarrow> j < i \<Longrightarrow> take j p \<in> S) \<Longrightarrow> dir_chain S (map (\<lambda>j. take j p) [i..<n])"
proof (induction "n - i" arbitrary: i S)
  case (Suc d)
  then have "i < n" by simp
  have "set (parents (take i p)) \<subseteq> S"
  proof
    fix r assume "r \<in> set (parents (take i p))"
    then obtain m where "1 \<le> m" "m < length (take i p)" "r = take m (take i p)" unfolding parents_iff by blast
    then show "r \<in> S" using Suc.prems(3) [of m] by simp
  qed
  moreover have "dir_chain (insert (take i p) S) (map (\<lambda>j. take j p) [Suc i..<n])"
    using Suc.prems Suc.hyps(2) by (intro Suc.hyps(1)) (auto simp: less_Suc_eq)
  ultimately show ?case using \<open>i < n\<close> Suc.prems by (auto simp: upt_conv_Cons)
qed simp

lemma dir_chain_parents: "dir_chain S (parents p)" "dir_chain S (mkdir_paths p)"
  unfolding parents_def mkdir_paths_def by (rule dir_chain_takes; simp)+

text \<open>One directory of the walk: it is there, or made, or the walk stops.\<close>

lemma mk_dirs_ConsE:
  assumes "mk_dirs io (q # qs) tr = (ok, tr')"
  obtains (stop) "\<not> ok" "tr' = tr" | (there) "map_of tr q = Some NDir" "mk_dirs io qs tr = (ok, tr')"
    | (made) "map_of tr q = None" "os_name (last q)" "mk_dirs io qs (AList.update q NDir tr) = (ok, tr')"
  using assms by (auto split: option.splits node.splits if_splits)

lemma mk_dirs_keeps: "mk_dirs io qs tr = (ok, tr') \<Longrightarrow> map_of tr q = Some n \<Longrightarrow> map_of tr' q = Some n"
proof (induction qs arbitrary: tr)
  case (Cons r qs)
  from Cons.prems(1) show ?case
  proof (cases rule: mk_dirs_ConsE)
    case made
    then have "map_of (AList.update r NDir tr) q = Some n" using Cons.prems(2) by (auto simp: map_of_update)
    then show ?thesis by (rule Cons.IH [OF made(3)])
  qed (use Cons in auto)
qed simp

lemma mk_dirs_new:
  "mk_dirs io qs tr = (ok, tr') \<Longrightarrow> map_of tr' q = Some n \<Longrightarrow> map_of tr q = Some n \<or> (q \<in> set qs \<and> n = NDir \<and> map_of tr q = None)"
proof (induction qs arbitrary: tr)
  case (Cons r qs)
  from Cons.prems(1) show ?case
  proof (cases rule: mk_dirs_ConsE)
    case there
    then show ?thesis using Cons.IH [of tr] Cons.prems(2) by auto
  next
    case made
    then show ?thesis using Cons.IH [of "AList.update r NDir tr"] Cons.prems(2) by (auto simp: map_of_update split: if_splits)
  qed (use Cons.prems in auto)
qed simp

lemma mk_dirs_ok: "mk_dirs io qs tr = (True, tr') \<Longrightarrow> q \<in> set qs \<Longrightarrow> map_of tr' q = Some NDir"
proof (induction qs arbitrary: tr)
  case (Cons r qs)
  from Cons.prems(1) show ?case
  proof (cases rule: mk_dirs_ConsE)
    case there
    then show ?thesis using Cons mk_dirs_keeps [of io qs tr True tr' r] by auto
  next
    case made
    then have "map_of tr' r = Some NDir" by (auto intro: mk_dirs_keeps simp: map_of_update)
    then show ?thesis using Cons.IH [OF made(3)] Cons.prems(2) by auto
  qed simp
qed simp

lemma wf_entry_mono:
  assumes "wf_entry tr p" "\<And>q. map_of tr q = Some NDir \<Longrightarrow> map_of tr' q = Some NDir"
  shows "wf_entry tr' p"
  using assms by (auto simp: wf_entry_def list_all_iff)

lemma wf_entry_new:
  assumes "wf_tree tr" "q \<noteq> []" "\<And>r. r \<in> set (parents q) \<Longrightarrow> map_of tr r = Some NDir" "os_name (last q)"
  shows "wf_entry tr q"
proof -
  have "list_all os_name (butlast q)"
  proof (cases "butlast q = []")
    case False
    then have "butlast q \<in> set (parents q)"
      by (cases q rule: rev_cases) (auto simp: parents_iff intro!: exI [of _ "length q - 1"] simp: Suc_le_eq)
    then show ?thesis using assms(1,3) wf_tree_entry by (auto simp: wf_entry_def)
  qed simp
  then have "list_all os_name (butlast q @ [last q])" using assms(4) by simp
  then show ?thesis using assms(2,3) by (simp add: wf_entry_def list_all_iff)
qed

text \<open>Setting a file or directory below directories that exist.\<close>

lemma wf_tree_update:
  assumes "wf_tree tr" "wf_entry tr q" "map_of tr q = Some NDir \<Longrightarrow> n = NDir"
  shows "wf_tree (AList.update q n tr)"
proof (rule wf_treeI)
  show "distinct (map fst (AList.update q n tr))" using assms(1) by (simp add: wf_tree_def distinct_update)
  fix p m assume m: "map_of (AList.update q n tr) p = Some m"
  have w: "wf_entry tr p" using m assms(1,2) wf_tree_entry by (cases "p = q") (auto simp: map_of_update)
  show "wf_entry (AList.update q n tr) p" using assms(3) by (intro wf_entry_mono [OF w]) (auto simp: map_of_update)
qed

lemma mk_dirs_wf:
  "wf_tree tr \<Longrightarrow> dir_chain {q. map_of tr q = Some NDir} qs \<Longrightarrow> mk_dirs io qs tr = (ok, tr') \<Longrightarrow> wf_tree tr'"
proof (induction qs arbitrary: tr)
  case (Cons q qs)
  from Cons.prems(3) show ?case
  proof (cases rule: mk_dirs_ConsE)
    case there
    then have "dir_chain {r. map_of tr r = Some NDir} qs" using Cons.prems(2) by (simp add: insert_absorb)
    then show ?thesis using Cons.IH Cons.prems(1) there(2) by blast
  next
    case made
    have "wf_entry tr q" using Cons.prems(1,2) made(2) by (intro wf_entry_new) auto
    then have w: "wf_tree (AList.update q NDir tr)" using Cons.prems(1) wf_tree_update by blast
    have "dir_chain {r. map_of (AList.update q NDir tr) r = Some NDir} qs"
      using Cons.prems(2) by (auto simp: map_of_update elim!: dir_chain_mono)
    then show ?thesis using Cons.IH [OF w] made(3) by blast
  qed (use Cons.prems in auto)
qed simp

section \<open>A moved file\<close>

lemma mkdirAll_dir:
  assumes "map_of vol k = Some (SegDir tr)" "mkdirAll io k qs vol = (ok, vol')"
  obtains tr' where "mk_dirs io qs tr = (ok, tr')" "vol' = AList.update k (SegDir tr') vol"
  using assms by (auto simp: mkdirAll_def split: prod.splits)

lemma mkdirAll_true:
  assumes "mkdirAll io k qs vol = (True, vol')"
  obtains tr tr' where "map_of vol k = Some (SegDir tr) \<or> map_of vol k = None \<and> tr = []" "mk_dirs io qs tr = (True, tr')"
    "vol' = AList.update k (SegDir tr') vol"
  using assms by (auto simp: mkdirAll_def split: prod.splits option.splits segment.splits if_splits)

lemma os_rename_true:
  assumes "os_rename io k p q vol = (True, vol')" "map_of vol k = Some (SegDir tr)"
  shows "vol' = AList.update k (SegDir (map (move_entry p q) tr)) vol" "take (length p) q \<noteq> p" "p \<noteq> []" "q \<noteq> []" "os_name (last q)"
  using assms by (auto simp: os_rename_def split: if_splits)

lemma os_remove_lookup:
  assumes "map_of (snd (os_remove io k s vol)) j = Some (SegDir tr')" "map_of tr' p = Some n"
  obtains tr where "map_of vol j = Some (SegDir tr)" "map_of tr p = Some n"
proof (cases "snd (os_remove io k s vol) = vol")
  case False
  then show ?thesis using assms that
    by (auto simp: os_remove_def alist_simps split: if_splits sum.splits option.splits segment.splits)
qed (use assms that in auto)

text \<open>What the file at the new place holds is what the file at the old place held.\<close>

lemma moved_content:
  assumes wf: "wf_volume v" and p: "lstat v k p = Inr n" and q: "\<not> is_ok (lstat v k q)"
    and m: "mkdirAll io k (parents q) v = (True, v1)" and r: "os_rename io k p q v1 = (True, v2)"
    and v3: "v3 = v2 \<or> v3 = snd (os_remove io k s v2)" and d: "lstat v3 k q = Inr (NFile d)"
  shows "n = NFile d"
proof -
  from m obtain tr tr1 where tr: "map_of v k = Some (SegDir tr) \<or> map_of v k = None \<and> tr = []"
    and mk: "mk_dirs io (parents q) tr = (True, tr1)" and v1: "v1 = AList.update k (SegDir tr1) v" by (rule mkdirAll_true)
  have some: "map_of v k = Some (SegDir tr)" using tr p by (auto simp: lstat_def split: if_splits)
  have wt: "wf_tree tr" using wf_volume_seg [OF wf some] by (simp add: seg_tree_def)
  have wt1: "wf_tree tr1" using mk_dirs_wf [OF wt dir_chain_parents(1) mk] .
  have "map_of v1 k = Some (SegDir tr1)" by (simp add: v1 map_of_update)
  note rn = os_rename_true [OF r this]
  from d rn(4) obtain tr3 where t3: "map_of v3 k = Some (SegDir tr3)" "map_of tr3 q = Some (NFile d)" by (rule lstat_ok)
  have "map_of v2 k = Some (SegDir (map (move_entry p q) tr1))" using rn(1) by (simp add: map_of_update)
  moreover obtain tr2 where "map_of v2 k = Some (SegDir tr2)" "map_of tr2 q = Some (NFile d)"
    using v3 t3 os_remove_lookup [of io k s v2 k tr3 q "NFile d"] by blast
  ultimately have "(q, NFile d) \<in> set (map (move_entry p q) tr1)" by (auto dest: map_of_SomeD)
  then obtain e where e: "e \<in> set tr1" "move_entry p q e = (q, NFile d)" by auto
  have nq: "map_of tr q = None" using q lstat_entry [OF wf some, of q] by (cases "map_of tr q") auto
  have "fst e \<noteq> q"
  proof
    assume "fst e = q"
    then have "map_of tr1 q = Some (snd e)" using e(1) wt1 by (auto simp: wf_tree_def)
    then show False using mk_dirs_new [OF mk, of q "snd e"] nq not_own_parent [of q] by simp
  qed
  then have "take (length p) (fst e) = p" "drop (length p) (fst e) = []" "snd e = NFile d"
    using e(2) by (auto simp: move_entry_def split: if_splits)
  then have "e = (p, NFile d)" by (cases e) (metis append_Nil2 append_take_drop_id fst_conv snd_conv)
  then have "map_of tr1 p = Some (NFile d)" using e(1) wt1 by (auto simp: wf_tree_def)
  then have "map_of tr p = Some (NFile d)" using mk_dirs_new [OF mk] by blast
  then show ?thesis using lstat_entry [OF wf some] p by fastforce
qed

section \<open>Operations touch one user directory\<close>

definition touches :: "string \<times> string \<Rightarrow> volume \<Rightarrow> volume \<Rightarrow> bool" where
  "touches k v v' \<longleftrightarrow> (\<forall>j. j \<noteq> k \<longrightarrow> map_of v' j = map_of v j)"

lemma mkdirAll_touches: "touches k v (snd (mkdirAll io k qs v))"
  by (auto simp: mkdirAll_def touches_def map_of_update split: option.splits segment.splits prod.splits)

lemma put_file_touches: "touches k v (snd (put_file k p d v))"
  by (auto simp: put_file_def touches_def map_of_update split: option.splits segment.splits)

lemma touches_trans: "touches k a b \<Longrightarrow> touches k b c \<Longrightarrow> touches k a c"
  by (simp add: touches_def)

lemma os_WriteFile_put: "snd (os_WriteFile io k p d v) = v \<or> (\<exists>n. snd (os_WriteFile io k p d v) = snd (put_file k p (take n d) v))"
proof (cases "io_write io p")
  case False
  then have "snd (os_WriteFile io k p d v) = snd (put_file k p (take (length d) d) v)" by (simp add: os_WriteFile_def)
  then show ?thesis by blast
qed (auto simp: os_WriteFile_def split: option.splits)

text \<open>What a write does: directories, then perhaps the file.\<close>

lemma writeAtClean_cases:
  obtains v1 where "p = [] \<and> v1 = v \<or> p \<noteq> [] \<and> v1 = snd (mkdirAll io k (parents p) v)"
    "snd (writeAtClean io k p d v) = v1 \<or> (p \<noteq> [] \<longrightarrow> mkdirAll io k (parents p) v = (True, v1)) \<and> snd (writeAtClean io k p d v) = snd (put_file k p d v1)"
proof -
  let ?m = "if p = [] then (True, v) else mkdirAll io k (parents p) v"
  have "snd (writeAtClean io k p d v) = snd ?m \<or> fst ?m \<and> snd (writeAtClean io k p d v) = snd (put_file k p d (snd ?m))"
    by (cases ?m; cases "fst ?m"; cases "put_file k p d (snd ?m)"; cases "fst (put_file k p d (snd ?m))")
      (simp_all add: writeAtClean_def)
  then show ?thesis by (intro that [of "snd ?m"]) (cases "mkdirAll io k (parents p) v", auto split: if_splits)+
qed

lemma write_touches: "touches k v (snd (writeAtClean io k p d v))"
proof -
  obtain v1 where m: "p = [] \<and> v1 = v \<or> p \<noteq> [] \<and> v1 = snd (mkdirAll io k (parents p) v)"
    and w: "snd (writeAtClean io k p d v) = v1 \<or> (p \<noteq> [] \<longrightarrow> mkdirAll io k (parents p) v = (True, v1)) \<and> snd (writeAtClean io k p d v) = snd (put_file k p d v1)"
    by (rule writeAtClean_cases)
  have "touches k v v1" using m mkdirAll_touches [of k v io "parents p"] by (auto simp: touches_def [of k v v])
  then show ?thesis using w put_file_touches [of k v1 p d] touches_trans [of k v v1 "snd (put_file k p d v1)"] by auto
qed

lemma remove_touches: "touches k v (snd (os_remove io k p v))"
  by (auto simp: os_remove_def touches_def alist_simps split: sum.splits option.splits segment.splits)

lemma rename_touches: "touches k v (snd (os_rename io k p q v))"
  by (auto simp: os_rename_def touches_def map_of_update split: option.splits segment.splits)

lemma WriteFile_touches: "touches k v (snd (os_WriteFile io k p d v))"
  using os_WriteFile_put [of io k p d v]
proof (elim disjE exE)
  assume "snd (os_WriteFile io k p d v) = v"
  then show ?thesis by (simp add: touches_def)
qed (simp add: put_file_touches)

section \<open>Operations keep a volume sound\<close>

lemma wf_volumeI:
  assumes "distinct (map fst vol)" "\<And>k s. map_of vol k = Some s \<Longrightarrow> seg_names k \<and> wf_tree (seg_tree s)"
  shows "wf_volume vol"
  unfolding wf_volume_def list_all_iff
proof (intro conjI ballI)
  fix e assume "e \<in> set vol"
  then have e: "map_of vol (fst e) = Some (snd e)" using assms(1) by (simp add: map_of_eq_Some_iff)
  show "seg_names (fst e)" "wf_tree (seg_tree (snd e))" using assms(2) [OF e] by simp_all
qed (rule assms(1))

lemma wf_volume_update:
  assumes "wf_volume vol" "seg_names k" "wf_tree (seg_tree s)"
  shows "wf_volume (AList.update k s vol)"
proof (rule wf_volumeI)
  show "distinct (map fst (AList.update k s vol))" using assms(1) by (simp add: wf_volume_def distinct_update)
  show "seg_names j \<and> wf_tree (seg_tree t)" if "map_of (AList.update k s vol) j = Some t" for j t
    using that assms wf_volume_seg [OF assms(1)] by (auto simp: map_of_update split: if_splits)
qed

lemma wf_volume_delete: "wf_volume vol \<Longrightarrow> wf_volume (AList.delete k vol)"
proof (rule wf_volumeI)
  assume wf: "wf_volume vol"
  then show "distinct (map fst (AList.delete k vol))" by (simp add: wf_volume_def distinct_delete)
  show "seg_names j \<and> wf_tree (seg_tree t)" if "map_of (AList.delete k vol) j = Some t" for j t
    using that wf_volume_seg [OF wf] by (auto simp: map_of_delete split: if_splits)
qed

lemma wf_tree_Nil [simp]: "wf_tree []"
  by (simp add: wf_tree_def)

lemma seg_tree_simps [simp]: "seg_tree (SegDir tr) = tr" "seg_tree (SegFile d) = []"
  by (simp_all add: seg_tree_def)

lemma mkdirAll_wf:
  assumes "wf_volume v" "dir_chain {} qs"
  shows "wf_volume (snd (mkdirAll io k qs v))"
proof -
  have chain: "dir_chain S qs" for S using assms(2) dir_chain_mono by blast
  show ?thesis
  proof (cases "map_of v k")
    case None
    obtain ok tr' where m: "mk_dirs io qs [] = (ok, tr')" by (cases "mk_dirs io qs []")
    have "wf_tree tr'" using mk_dirs_wf [OF wf_tree_Nil chain m] .
    then show ?thesis using None m assms(1) by (simp add: mkdirAll_def wf_volume_update)
  next
    case (Some s)
    show ?thesis
    proof (cases s)
      case (SegDir tr)
      obtain ok tr' where m: "mk_dirs io qs tr = (ok, tr')" by (cases "mk_dirs io qs tr")
      have w: "seg_names k" "wf_tree tr" using wf_volume_seg [OF assms(1) Some] SegDir by simp_all
      have "wf_tree tr'" using mk_dirs_wf [OF w(2) chain m] .
      then show ?thesis using Some SegDir m assms(1) w(1) by (simp add: mkdirAll_def wf_volume_update)
    qed (use Some assms in \<open>simp add: mkdirAll_def\<close>)
  qed
qed

lemma put_file_wf:
  assumes "wf_volume v" "\<And>tr r. map_of v k = Some (SegDir tr) \<Longrightarrow> r \<in> set (parents p) \<Longrightarrow> map_of tr r = Some NDir"
  shows "wf_volume (snd (put_file k p d v))"
proof (cases "map_of v k")
  case (Some s)
  note w = wf_volume_seg [OF assms(1) Some]
  show ?thesis
  proof (cases s)
    case (SegDir tr)
    show ?thesis
    proof (cases "p = [] \<or> \<not> os_name (last p) \<or> map_of tr p = Some NDir")
      case False
      then have "wf_entry tr p" using w assms(2) Some SegDir by (intro wf_entry_new) auto
      then have "wf_tree (AList.update p (NFile d) tr)" by (intro wf_tree_update) (use w SegDir False in auto)
      then show ?thesis using Some SegDir False w assms(1) by (simp add: put_file_def wf_volume_update)
    qed (use Some SegDir assms in \<open>auto simp: put_file_def\<close>)
  qed (use Some assms w in \<open>simp add: put_file_def wf_volume_update\<close>)
qed (use assms in \<open>simp add: put_file_def wf_volume_update\<close>)

lemma mkdirAll_parents_dirs:
  assumes "mkdirAll io k qs v = (True, v1)" "map_of v1 k = Some (SegDir tr)" "r \<in> set qs"
  shows "map_of tr r = Some NDir"
proof -
  from assms(1) obtain tr0 tr1 where "mk_dirs io qs tr0 = (True, tr1)" "v1 = AList.update k (SegDir tr1) v" by (rule mkdirAll_true)
  then show ?thesis using assms(2,3) mk_dirs_ok by (auto simp: map_of_update)
qed

lemma write_wf:
  assumes "wf_volume v"
  shows "wf_volume (snd (writeAtClean io k p d v))"
proof -
  obtain v1 where m: "p = [] \<and> v1 = v \<or> p \<noteq> [] \<and> v1 = snd (mkdirAll io k (parents p) v)"
    and w: "snd (writeAtClean io k p d v) = v1 \<or> (p \<noteq> [] \<longrightarrow> mkdirAll io k (parents p) v = (True, v1)) \<and> snd (writeAtClean io k p d v) = snd (put_file k p d v1)"
    by (rule writeAtClean_cases)
  have v1: "wf_volume v1" using m mkdirAll_wf [OF assms dir_chain_parents(1), of io k p] assms by auto
  have "wf_volume (snd (put_file k p d v1))" if "p \<noteq> [] \<longrightarrow> mkdirAll io k (parents p) v = (True, v1)"
  proof (rule put_file_wf [OF v1])
    fix tr r assume "map_of v1 k = Some (SegDir tr)" "r \<in> set (parents p)"
    then show "map_of tr r = Some NDir" using that mkdirAll_parents_dirs by (cases "p = []") (auto simp: parents_def)
  qed
  then show ?thesis using w v1 by auto
qed

lemma sidecar_wf:
  assumes "wf_volume v" "q \<noteq> []" "is_ok (lstat v k q)"
  shows "wf_volume (snd (os_WriteFile io k (sig_path q) d v))"
proof -
  from assms(3) obtain n where "lstat v k q = Inr n" by (rule is_okE)
  then obtain tr where tr: "map_of v k = Some (SegDir tr)" "map_of tr q = Some n" using assms(2) by (rule lstat_ok)
  have "wf_entry tr q" using wf_volume_seg [OF assms(1) tr(1)] wf_tree_entry [OF _ tr(2)] by simp
  then have "wf_volume (snd (put_file k (sig_path q) x v))" for x
    using tr(1) assms(1,2) by (intro put_file_wf) (auto simp: wf_entry_def list_all_iff)
  then show ?thesis using os_WriteFile_put [of io k "sig_path q" d v] assms(1) by auto
qed

text \<open>Deleting an entry that has none below it.\<close>

lemma wf_tree_delete:
  assumes "wf_tree tr" "map_of tr p \<noteq> Some NDir \<or> entries_below tr p = []"
  shows "wf_tree (AList.delete p tr)"
proof (rule wf_treeI)
  show "distinct (map fst (AList.delete p tr))" using assms(1) by (simp add: wf_tree_def distinct_delete)
  fix q n assume q: "map_of (AList.delete p tr) q = Some n"
  then have s: "map_of tr q = Some n" "q \<noteq> p" by (auto simp: map_of_delete split: if_splits)
  have w: "wf_entry tr q" using wf_tree_entry [OF assms(1) s(1)] .
  have "p \<notin> set (parents q)"
  proof
    assume p: "p \<in> set (parents q)"
    then have "map_of tr p = Some NDir" using w by (simp add: wf_entry_def list_all_iff)
    then have "entries_below tr p = []" using assms(2) by simp
    moreover have "(q, n) \<in> set (entries_below tr p)" using p map_of_SomeD [OF s(1)] by (auto simp: parents_iff entries_below_def)
    ultimately show False by simp
  qed
  then show "wf_entry (AList.delete p tr) q" using w by (auto simp: wf_entry_def list_all_iff map_of_delete)
qed

lemma remove_wf:
  assumes "wf_volume v"
  shows "wf_volume (snd (os_remove io k p v))"
proof (cases "snd (os_remove io k p v) = v")
  case False
  then obtain n where n: "lstat v k p = Inr n" "\<not> io_remove io p" by (auto simp: os_remove_def split: if_splits sum.splits)
  show ?thesis
  proof (cases "p = [] \<or> (\<nexists>tr. map_of v k = Some (SegDir tr))")
    case True
    then have "snd (os_remove io k p v) \<in> {v, AList.delete k v}"
      using n by (auto simp: os_remove_def split: option.splits segment.splits)
    then show ?thesis using assms wf_volume_delete [of v k] by auto
  next
    case False
    then obtain tr where tr: "map_of v k = Some (SegDir tr)" "p \<noteq> []" by blast
    have ln: "map_of tr p = Some n" using lstat_ok [OF n(1) tr(2)] tr(1) by (metis option.inject segment.inject(1))
    have w: "seg_names k" "wf_tree tr" using wf_volume_seg [OF assms tr(1)] by simp_all
    show ?thesis
    proof (cases "n = NDir \<and> entries_below tr p \<noteq> []")
      case False
      then have "wf_tree (AList.delete p tr)" using ln by (intro wf_tree_delete [OF w(2)]) auto
      then show ?thesis using n tr w assms False by (simp add: os_remove_def wf_volume_update)
    qed (use n tr assms in \<open>simp add: os_remove_def\<close>)
  qed
qed (use assms in simp)

text \<open>The tree after a rename of \<open>p\<close> to a free place \<open>q\<close> that is not below \<open>p\<close>.\<close>

lemma under_iff: "take (length p) r = p \<longleftrightarrow> (\<exists>x. r = p @ x)"
  by (metis append_eq_conv_conj append_take_drop_id)

lemma moved_entries:
  "(r, n) \<in> set (map (move_entry p q) tr) \<longleftrightarrow>
     (\<exists>x. r = q @ x \<and> (p @ x, n) \<in> set tr) \<or> take (length p) r \<noteq> p \<and> (r, n) \<in> set tr" (is "?l \<longleftrightarrow> ?r")
proof
  assume ?l
  then obtain e where e: "e \<in> set tr" "(r, n) = move_entry p q e" by auto
  obtain s m where sm: "e = (s, m)" by (cases e)
  show ?r
  proof (cases "take (length p) s = p")
    case True
    then obtain x where "s = p @ x" by (auto simp: under_iff)
    then show ?thesis using e sm by (auto simp: move_entry_def)
  next
    case False
    then show ?thesis using e sm by (auto simp: move_entry_def)
  qed
next
  assume ?r
  then show ?l
  proof (elim disjE exE conjE)
    fix x assume "r = q @ x" "(p @ x, n) \<in> set tr"
    then have "(r, n) = move_entry p q (p @ x, n)" by (simp add: move_entry_def)
    then show ?l using \<open>(p @ x, n) \<in> set tr\<close> unfolding set_map by (rule image_eqI)
  next
    assume "take (length p) r \<noteq> p" "(r, n) \<in> set tr"
    then have "(r, n) = move_entry p q (r, n)" by (simp add: move_entry_def)
    then show ?l using \<open>(r, n) \<in> set tr\<close> unfolding set_map by (rule image_eqI)
  qed
qed

lemma free_subtree:
  assumes "wf_tree tr" "map_of tr q = None" "q \<noteq> []"
  shows "(q @ x, n) \<notin> set tr"
proof
  assume m: "(q @ x, n) \<in> set tr"
  then have s: "map_of tr (q @ x) = Some n" using assms(1) by (simp add: wf_tree_def)
  then have "x \<noteq> []" using assms(2) by auto
  then have "q \<in> set (parents (q @ x))"
    using assms(3) by (auto simp: parents_iff intro!: exI [of _ "length q"] simp: Suc_le_eq)
  then show False using wf_tree_entry [OF assms(1) s] assms(2) by (simp add: wf_entry_def list_all_iff)
qed

lemma moved_distinct:
  assumes "wf_tree tr" "map_of tr q = None" "q \<noteq> []"
  shows "distinct (map fst (map (move_entry p q) tr))"
proof -
  have "inj_on (fst \<circ> move_entry p q) (set tr)"
  proof (rule inj_onI)
    fix e e' assume m: "e \<in> set tr" "e' \<in> set tr" and eq: "(fst \<circ> move_entry p q) e = (fst \<circ> move_entry p q) e'"
    have free: "fst e \<noteq> q @ x" "fst e' \<noteq> q @ x" for x using free_subtree [OF assms] m by (metis prod.collapse)+
    have "fst e = fst e'"
    proof (cases "take (length p) (fst e) = p"; cases "take (length p) (fst e') = p")
      assume u: "take (length p) (fst e) = p" "take (length p) (fst e') = p"
      then have "drop (length p) (fst e) = drop (length p) (fst e')" using eq by (simp add: move_entry_def)
      then show ?thesis using u by (metis append_take_drop_id)
    next
      assume "take (length p) (fst e) = p" "take (length p) (fst e') \<noteq> p"
      then have "fst e' = q @ drop (length p) (fst e)" using eq by (simp add: move_entry_def)
      then show ?thesis using free(2) by blast
    qed (use eq free in \<open>auto simp: move_entry_def\<close>)
    then show "e = e'" using m assms(1) by (metis eq_key_imp_eq_value prod.collapse wf_tree_def)
  qed
  moreover have "distinct tr" using assms(1) distinct_map [of fst tr] by (simp add: wf_tree_def)
  ultimately show ?thesis by (simp add: distinct_map inj_on_def)
qed

lemma parents_append:
  "r \<in> set (parents (q @ x)) \<Longrightarrow> q \<noteq> [] \<Longrightarrow> r \<in> set (parents q) \<or> (\<exists>j. j < length x \<and> r = q @ take j x)"
proof -
  assume "r \<in> set (parents (q @ x))" "q \<noteq> []"
  then obtain n where n: "1 \<le> n" "n < length (q @ x)" "r = take n (q @ x)" unfolding parents_iff by blast
  show ?thesis
  proof (cases "n < length q")
    case False
    then have "r = q @ take (n - length q) x" "n - length q < length x" using n by auto
    then show ?thesis by blast
  qed (use n in \<open>auto simp: parents_iff\<close>)
qed

lemma parents_of_append: "j < length x \<Longrightarrow> p \<noteq> [] \<Longrightarrow> p @ take j x \<in> set (parents (p @ x))"
  by (auto simp: parents_iff Suc_le_eq intro!: exI [of _ "length p + j"])

lemma move_wf:
  assumes wf: "wf_tree tr" and q: "map_of tr q = None" "q \<noteq> []" and p: "p \<noteq> []" and pq: "take (length p) q \<noteq> p"
    and dirs: "\<And>r. r \<in> set (parents q) \<Longrightarrow> map_of tr r = Some NDir" and nm: "os_name (last q)"
  shows "wf_tree (map (move_entry p q) tr)"
proof (rule wf_treeI)
  let ?tr = "map (move_entry p q) tr"
  show dist: "distinct (map fst ?tr)" by (rule moved_distinct [OF wf q])
  have wq: "wf_entry tr q" using wf_entry_new [OF wf q(2) dirs nm] .
  have look: "map_of ?tr r = Some n" if "(r, n) \<in> set ?tr" for r n
    using that dist by (subst map_of_eq_Some_iff) auto
  have stay: "map_of ?tr r = Some NDir" if "map_of tr r = Some NDir" "take (length p) r \<noteq> p" for r
    using that map_of_SomeD [of tr r NDir] by (intro look) (simp add: moved_entries del: set_map)
  fix r n assume "map_of ?tr r = Some n"
  then have "(r, n) \<in> set ?tr" by (rule map_of_SomeD)
  then consider (moved) x where "r = q @ x" "(p @ x, n) \<in> set tr" | (kept) "take (length p) r \<noteq> p" "(r, n) \<in> set tr"
    unfolding moved_entries by blast
  then show "wf_entry ?tr r"
  proof cases
    case moved
    have wx: "wf_entry tr (p @ x)" using moved(2) wf by (auto simp: wf_tree_def list_all_iff)
    have "map_of ?tr s = Some NDir" if s: "s \<in> set (parents r)" for s
    proof -
      from s consider (above) "s \<in> set (parents q)" | (below) j where "j < length x" "s = q @ take j x"
        using parents_append q(2) moved(1) by blast
      then show ?thesis
      proof cases
        case above
        then have "take (length p) s \<noteq> p" using pq by (auto simp: parents_iff under_iff) (metis append_assoc append_take_drop_id)
        then show ?thesis using stay dirs [OF above] by blast
      next
        case below
        then have "map_of tr (p @ take j x) = Some NDir"
          using parents_of_append [of j x p] p wx by (simp add: wf_entry_def list_all_iff)
        then have "(p @ take j x, NDir) \<in> set tr" by (rule map_of_SomeD)
        then show ?thesis using below by (intro look) (auto simp: moved_entries simp del: set_map)
      qed
    qed
    moreover have "list_all os_name r" using wq wx moved(1) by (simp add: wf_entry_def)
    ultimately show ?thesis using moved(1) q(2) by (simp add: wf_entry_def list_all_iff)
  next
    case kept
    have wr: "wf_entry tr r" using kept(2) wf by (auto simp: wf_tree_def list_all_iff)
    have "map_of ?tr s = Some NDir" if s: "s \<in> set (parents r)" for s
    proof -
      have "take (length p) s \<noteq> p" using s kept(1) by (auto simp: parents_iff under_iff) (metis append_assoc append_take_drop_id)
      then show ?thesis using stay wr s by (simp add: wf_entry_def list_all_iff)
    qed
    then show ?thesis using wr by (simp add: wf_entry_def list_all_iff)
  qed
qed

lemma rename_wf:
  assumes wf: "wf_volume v" and p: "lstat v k p = Inr n" and q: "\<not> is_ok (lstat v k q)"
    and m: "mkdirAll io k (parents q) v = (True, v1)"
  shows "wf_volume (snd (os_rename io k p q v1))"
proof (cases "fst (os_rename io k p q v1)")
  case False
  moreover have "wf_volume v1" using mkdirAll_wf [OF wf dir_chain_parents(1), of io k q] m by simp
  ultimately show ?thesis by (auto simp: os_rename_def split: option.splits segment.splits if_splits)
next
  case True
  then obtain v2 where r: "os_rename io k p q v1 = (True, v2)" by (cases "os_rename io k p q v1") auto
  from m obtain tr tr1 where tr: "map_of v k = Some (SegDir tr) \<or> map_of v k = None \<and> tr = []"
    and mk: "mk_dirs io (parents q) tr = (True, tr1)" and v1: "v1 = AList.update k (SegDir tr1) v" by (rule mkdirAll_true)
  have some: "map_of v k = Some (SegDir tr)" using tr p by (auto simp: lstat_def split: if_splits)
  have w: "seg_names k" "wf_tree tr" using wf_volume_seg [OF wf some] by simp_all
  have wt1: "wf_tree tr1" using mk_dirs_wf [OF w(2) dir_chain_parents(1) mk] .
  have "map_of v1 k = Some (SegDir tr1)" by (simp add: v1 map_of_update)
  note rn = os_rename_true [OF r this]
  have "map_of tr q = None" using q lstat_entry [OF wf some, of q] by (cases "map_of tr q") auto
  then have "map_of tr1 q = None" using mk_dirs_new [OF mk, of q] not_own_parent [of q] by (cases "map_of tr1 q") auto
  then have "wf_tree (map (move_entry p q) tr1)" using rn mk_dirs_ok [OF mk] by (intro move_wf [OF wt1]) auto
  moreover have "wf_volume v1" using v1 wf_volume_update [OF wf w(1)] wt1 by simp
  ultimately show ?thesis using r rn(1) w(1) by (simp add: wf_volume_update)
qed

section \<open>Files\<close>

definition file_at :: "volume \<Rightarrow> string \<times> string \<Rightarrow> fpath \<Rightarrow> string option" where
  "file_at vol k p =
     (case map_of vol k of
        None \<Rightarrow> None
      | Some (SegFile d) \<Rightarrow> if p = [] then Some d else None
      | Some (SegDir tr) \<Rightarrow> (case map_of tr p of Some (NFile d) \<Rightarrow> Some d | _ \<Rightarrow> None))"

lemma mkdirAll_file_at: "mkdirAll io k qs v = (ok, v') \<Longrightarrow> file_at v' j p = file_at v j p"
proof -
  assume m: "mkdirAll io k qs v = (ok, v')"
  have ff: "(case map_of tr' p of Some (NFile d) \<Rightarrow> Some d | _ \<Rightarrow> None) = (case map_of tr p of Some (NFile d) \<Rightarrow> Some d | _ \<Rightarrow> None)"
    if mk: "mk_dirs io qs tr = (ok, tr')" for tr tr'
  proof (cases "map_of tr p")
    case None
    then show ?thesis using mk_dirs_new [OF mk, of p] by (cases "map_of tr' p") auto
  qed (use mk_dirs_keeps [OF mk] in simp)
  show ?thesis
  proof (cases "map_of v k")
    case None
    then show ?thesis using m ff [of "[]"] by (auto simp: mkdirAll_def file_at_def map_of_update split: if_splits prod.splits)
  next
    case (Some s)
    then show ?thesis using m ff by (cases s) (auto simp: mkdirAll_def file_at_def map_of_update split: prod.splits)
  qed
qed

lemma put_file_file_at:
  "fst (put_file k p d v) \<Longrightarrow> file_at (snd (put_file k p d v)) j q = (if j = k \<and> q = p then Some d else file_at v j q)"
  by (auto simp: put_file_def file_at_def map_of_update split: option.splits segment.splits if_splits)

lemma put_file_cases:
  obtains (same) "snd (put_file k p d v) = v" | (put) "\<And>j q. file_at (snd (put_file k p d v)) j q = (if j = k \<and> q = p then Some d else file_at v j q)"
proof (cases "fst (put_file k p d v)")
  case True
  then show ?thesis by (intro put put_file_file_at)
next
  case False
  then show ?thesis by (intro same) (auto simp: put_file_def split: option.splits segment.splits if_splits)
qed

lemma write_ok:
  assumes "writeAtClean io k p d v = (Inr info, v')"
  shows "file_at v' k p = Some d" "\<And>q. q \<noteq> p \<Longrightarrow> file_at v' k q = file_at v k q"
proof -
  let ?m = "if p = [] then (True, v) else mkdirAll io k (parents p) v"
  obtain ok v1 where m: "?m = (ok, v1)" by (cases ?m)
  obtain ok2 v2 where w: "put_file k p d v1 = (ok2, v2)" by (cases "put_file k p d v1")
  have t: "ok" "ok2" "v2 = v'"
    using assms m w by (cases ok; cases ok2; simp add: writeAtClean_def split: if_splits)+
  have keep: "file_at v1 j q = file_at v j q" for j q using m mkdirAll_file_at [of io k "parents p" v ok v1] by (auto split: if_splits)
  have "file_at v' j q = (if j = k \<and> q = p then Some d else file_at v1 j q)" for j q
    using put_file_file_at [of k p d v1 j q] w t by simp
  then show "file_at v' k p = Some d" "\<And>q. q \<noteq> p \<Longrightarrow> file_at v' k q = file_at v k q" using keep by simp_all
qed

lemma lstat_file_at: "wf_volume v \<Longrightarrow> file_at v k p = Some d \<Longrightarrow> lstat v k p = Inr (NFile d)"
proof -
  assume wf: "wf_volume v" and f: "file_at v k p = Some d"
  show ?thesis
  proof (cases "map_of v k")
    case (Some s)
    show ?thesis
    proof (cases s)
      case (SegDir tr)
      then have "map_of tr p = Some (NFile d)" using f Some by (auto simp: file_at_def split: option.splits node.splits)
      then show ?thesis using lstat_entry [OF wf] Some SegDir by blast
    next
      case (SegFile x)
      then show ?thesis using f Some wf_volume_seg [OF wf Some] by (auto simp: file_at_def lstat_def split: if_splits)
    qed
  qed (use f in \<open>simp add: file_at_def\<close>)
qed

lemma write_names:
  assumes "wf_volume v" "writeAtClean io k p d v = (Inr info, v')" "p \<noteq> []"
  shows "list_all os_name p"
proof -
  have "wf_volume v'" using write_wf [OF assms(1), of io k p d] assms(2) by simp
  then have "lstat v' k p = Inr (NFile d)" using lstat_file_at write_ok(1) [OF assms(2)] by blast
  then show ?thesis using assms(3) by (rule lstat_ok)
qed

section \<open>Lifting relations to operations\<close>

locale volume_rel =
  fixes st :: WsStore
    and R :: "string \<times> string \<Rightarrow> volume \<Rightarrow> volume \<Rightarrow> bool"
    and okp okt :: "fpath \<Rightarrow> bool"
    and okd :: "string \<Rightarrow> bool"
  assumes refl: "R k v v"
    and trans: "R k a b \<Longrightarrow> R k b c \<Longrightarrow> R k a c"
    and mkdir: "okp p \<Longrightarrow> R k v (snd (mkdirAll io k (mkdir_paths p) v))"
    and wrote: "okp p \<Longrightarrow> okd d \<Longrightarrow> R k v (snd (writeAtClean io k p d v))"
    and sidecar: "okp (sig_path q) \<Longrightarrow> okd (Store_sign st k q d) \<Longrightarrow> q \<noteq> [] \<Longrightarrow> is_ok (lstat v k q)
      \<Longrightarrow> R k v (snd (os_WriteFile io k (sig_path q) (Store_sign st k q d) v))"
    and remove: "okp p \<Longrightarrow> R k v (snd (os_remove io k p v))"
    and rename: "okt p \<Longrightarrow> okt q \<Longrightarrow> lstat v k p = Inr n \<Longrightarrow> \<not> is_ok (lstat v k q) \<Longrightarrow> q \<noteq> []
      \<Longrightarrow> mkdirAll io k (parents q) v = (ok, v1) \<Longrightarrow> R k v v1 \<and> (ok \<longrightarrow> R k v (snd (os_rename io k p q v1)))"
begin

text \<open>What an operation may write: its paths, their subtrees and the data.\<close>

definition admits :: "string \<times> string \<Rightarrow> volume \<Rightarrow> ws_op \<Rightarrow> bool" where
  "admits k vol op \<longleftrightarrow>
     (case op of
        OpWrite rel data \<Rightarrow> \<forall>p. resolve rel = Inr p \<longrightarrow> okp p \<and> okd data \<and> (is_session p \<longrightarrow> okp (sig_path p) \<and> (list_all os_name p \<longrightarrow> okd (Store_sign st k p data)))
      | OpMkdir rel \<Rightarrow> \<forall>p. resolve rel = Inr p \<longrightarrow> okp p
      | OpDelete rel \<Rightarrow> \<forall>p. resolve rel = Inr p \<longrightarrow> okp p \<and> (is_session p \<longrightarrow> okp (sig_path p))
      | OpMove frm to \<Rightarrow>
          \<forall>p q. resolve frm = Inr p \<longrightarrow> resolve to = Inr q \<longrightarrow>
            okt p \<and> okt q \<and> okp (sig_path q) \<and> (is_session p \<longrightarrow> okp (sig_path p))
            \<and> (\<forall>d. is_session q \<longrightarrow> list_all os_name q \<longrightarrow> lstat vol k p = Inr (NFile d) \<longrightarrow> okd (Store_sign st k q d)))"

lemma Write_rel:
  assumes wf: "wf_volume v" and "admits (seg_key st tenant user) v (OpWrite rel data)"
  shows "R (seg_key st tenant user) v (snd (Store_Write st io tenant user rel data v))"
proof (cases "resolve rel")
  case (Inr p)
  let ?k = "seg_key st tenant user"
  obtain r1 v1 where w1: "writeAtClean io ?k p data v = (r1, v1)" by (cases "writeAtClean io ?k p data v")
  obtain r2 v2 where w2: "writeAtClean io ?k (sig_path p) (Store_sign st ?k p data) v1 = (r2, v2)"
    by (cases "writeAtClean io ?k (sig_path p) (Store_sign st ?k p data) v1")
  have a: "okp p" "okd data" "is_session p \<Longrightarrow> okp (sig_path p)"
    "is_session p \<Longrightarrow> list_all os_name p \<Longrightarrow> okd (Store_sign st ?k p data)"
    using assms(2) Inr by (auto simp: admits_def)
  have r1: "R ?k v v1" using wrote [OF a(1,2), of ?k v io] w1 by simp
  have r2: "R ?k v v2" if "is_session p" "r1 = Inr info" for info
  proof -
    have "list_all os_name p" using write_names [OF wf] w1 that by (cases "p = []") auto
    then have "R ?k v1 v2" using wrote [OF a(3,4)] that w2 by (metis snd_conv)
    then show ?thesis by (rule trans [OF r1])
  qed
  show ?thesis using Inr w1 w2 r1 r2 refl
    by (simp add: Store_Write_def Let_def split: option.splits sum.splits)
qed (simp add: Store_Write_def refl)

lemma Mkdir_rel:
  assumes "admits (seg_key st tenant user) v (OpMkdir rel)"
  shows "R (seg_key st tenant user) v (snd (Store_Mkdir st io tenant user rel v))"
proof (cases "resolve rel")
  case (Inr p)
  let ?k = "seg_key st tenant user"
  obtain ok v1 where m: "mkdirAll io ?k (mkdir_paths p) v = (ok, v1)" by (cases "mkdirAll io ?k (mkdir_paths p) v")
  have "R ?k v v1" using mkdir [of p ?k v io] m assms Inr by (simp add: admits_def)
  then show ?thesis using Inr m refl
    by (simp add: Store_Mkdir_def Let_def split: option.splits)
qed (simp add: Store_Mkdir_def refl)

lemma Delete_rel:
  assumes "admits (seg_key st tenant user) v (OpDelete rel)"
  shows "R (seg_key st tenant user) v (snd (Store_Delete st io tenant user rel v))"
proof (cases "resolve rel")
  case (Inr p)
  let ?k = "seg_key st tenant user"
  obtain ok v1 where m: "os_remove io ?k p v = (ok, v1)" by (cases "os_remove io ?k p v")
  have a: "okp p" "is_session p \<Longrightarrow> okp (sig_path p)" using assms Inr by (auto simp: admits_def)
  have r1: "R ?k v v1" using remove [OF a(1), of ?k v io] m by simp
  have "is_session p \<Longrightarrow> R ?k v1 (snd (os_remove io ?k (sig_path p) v1))" using a(2) remove by blast
  then have r2: "is_session p \<Longrightarrow> R ?k v (snd (os_remove io ?k (sig_path p) v1))" using trans r1 by blast
  show ?thesis using Inr m r1 r2 refl
    by (simp add: Store_Delete_def Let_def split: sum.splits node.splits bool.splits)
qed (simp add: Store_Delete_def refl)

lemma sign_moved_rel:
  assumes "okp (sig_path q)" "q \<noteq> []"
    "\<And>d. is_session q \<Longrightarrow> list_all os_name q \<Longrightarrow> lstat v k q = Inr (NFile d) \<Longrightarrow> okd (Store_sign st k q d)"
  shows "R k v (snd (sign_moved st io k q v))"
proof (cases "is_session q \<and> signingEnabled st")
  case True
  show ?thesis
  proof (cases "readAtClean io v k q")
    case (Inr d)
    then have l: "lstat v k q = Inr (NFile d)" by (auto simp: readAtClean_def split: sum.splits node.splits if_splits)
    have "list_all os_name q" by (rule lstat_ok [OF l assms(2)])
    then have "R k v (snd (os_WriteFile io k (sig_path q) (Store_sign st k q d) v))"
      using sidecar [of q k d v io] assms True l by simp
    then show ?thesis using True Inr by (simp add: sign_moved_def case_prod_unfold)
  qed (use True refl in \<open>simp add: sign_moved_def\<close>)
next
  case False
  then have "snd (sign_moved st io k q v) = snd (os_remove io k (sig_path q) v)" by (auto simp: sign_moved_def)
  then show ?thesis using remove [OF assms(1)] by simp
qed

lemma Move_rel:
  assumes wf: "wf_volume v" and adm: "admits (seg_key st tenant user) v (OpMove frm to)"
  shows "R (seg_key st tenant user) v (snd (Store_Move st io tenant user frm to v))"
proof (cases "\<exists>p q. resolve frm = Inr p \<and> resolve to = Inr q")
  case True
  let ?k = "seg_key st tenant user"
  from True obtain p q where res: "resolve frm = Inr p" "resolve to = Inr q" by blast
  have a: "okt p" "okt q" "okp (sig_path q)" "is_session p \<Longrightarrow> okp (sig_path p)"
    "\<And>d. is_session q \<Longrightarrow> list_all os_name q \<Longrightarrow> lstat v ?k p = Inr (NFile d) \<Longrightarrow> okd (Store_sign st ?k q d)"
    using adm res by (auto simp: admits_def)
  show ?thesis
  proof (cases "\<exists>n. lstat v ?k p = Inr n \<and> \<not> is_ok (lstat v ?k q)")
    case True
    then obtain n where n: "lstat v ?k p = Inr n" and q: "\<not> is_ok (lstat v ?k q)" by blast
    obtain ok v1 where m: "mkdirAll io ?k (parents q) v = (ok, v1)" by (cases "mkdirAll io ?k (parents q) v")
    obtain ok2 v2 where r: "os_rename io ?k p q v1 = (ok2, v2)" by (cases "os_rename io ?k p q v1")
    have ne: "q \<noteq> []" using q n by (auto simp: lstat_def split: if_splits option.splits segment.splits)
    have r1: "R ?k v v1" and r2: "ok \<Longrightarrow> R ?k v v2" using rename [OF a(1,2) n q ne m] r by auto
    define v3 where "v3 = (if is_session p then snd (os_remove io ?k (sig_path p) v2) else v2)"
    have r3: "ok \<Longrightarrow> R ?k v v3" using r2 trans remove [OF a(4)] by (auto simp: v3_def)
    have "ok \<and> ok2 \<Longrightarrow> R ?k v3 (snd (sign_moved st io ?k q v3))"
    proof (rule sign_moved_rel [OF a(3) ne])
      fix d assume "ok \<and> ok2" "is_session q" "list_all os_name q" "lstat v3 ?k q = Inr (NFile d)"
      moreover have "v3 = v2 \<or> v3 = snd (os_remove io ?k (sig_path p) v2)" by (simp add: v3_def)
      ultimately have "n = NFile d" using m r by (intro moved_content [OF wf n q, of io v1 v2 v3 "sig_path p"]) simp_all
      then show "okd (Store_sign st ?k q d)" using a(5) n \<open>is_session q\<close> \<open>list_all os_name q\<close> by blast
    qed
    then have r4: "ok \<and> ok2 \<Longrightarrow> R ?k v (snd (sign_moved st io ?k q v3))" using r3 trans by blast
    obtain r5 v5 where fm: "finish_move st io ?k p q n v2 = (r5, v5)" by (cases "finish_move st io ?k p q n v2")
    have "v5 = v2 \<or> v5 = snd (sign_moved st io ?k q v3)"
      using fm by (auto simp: finish_move_def Let_def v3_def [symmetric] split: if_splits prod.splits option.splits)
    then have r5: "ok \<and> ok2 \<Longrightarrow> R ?k v v5" using r2 r4 by blast
    have "snd (Store_Move st io tenant user frm to v) = v \<or> snd (Store_Move st io tenant user frm to v) = v1
        \<or> ok \<and> snd (Store_Move st io tenant user frm to v) = v2 \<or> ok \<and> ok2 \<and> snd (Store_Move st io tenant user frm to v) = v5"
      using res n q ne m r fm by (simp add: Store_Move_def Let_def split: sum.split bool.split)
    then show ?thesis using r1 r2 r5 refl by metis
  qed (use res refl in \<open>auto simp: Store_Move_def Let_def split: sum.splits\<close>)
qed (use refl in \<open>auto simp: Store_Move_def bindE_def split: sum.splits\<close>)

lemma exec_rel:
  assumes "wf_volume v" "admits (seg_key st tenant user) v op"
  shows "R (seg_key st tenant user) v (ws_exec st io tenant user op v)"
  using assms by (cases op) (simp_all add: ws_exec_def Write_rel Mkdir_rel Delete_rel Move_rel)

end

interpretation own: volume_rel st touches "\<lambda>_. True" "\<lambda>_. True" "\<lambda>_. True" for st
proof
  show "touches k v v1 \<and> (ok \<longrightarrow> touches k v (snd (os_rename io k p q v1)))"
    if "mkdirAll io k (parents q) v = (ok, v1)" for k v v1 ok io p q
    using mkdirAll_touches [of k v io "parents q"] that touches_trans [OF _ rename_touches] by simp
qed (auto intro: touches_trans mkdirAll_touches write_touches remove_touches WriteFile_touches simp: touches_def [of _ v v for v])

lemma exec_touches: "wf_volume v \<Longrightarrow> touches (seg_key st tenant user) v (ws_exec st io tenant user op v)"
  by (rule own.exec_rel) (simp_all add: own.admits_def split: ws_op.splits)

interpretation sound: volume_rel st "\<lambda>_ v v'. wf_volume v \<longrightarrow> wf_volume v'" "\<lambda>_. True" "\<lambda>_. True" "\<lambda>_. True" for st
proof
  show "(wf_volume v \<longrightarrow> wf_volume v1) \<and> (ok \<longrightarrow> wf_volume v \<longrightarrow> wf_volume (snd (os_rename io k p q v1)))"
    if "mkdirAll io k (parents q) v = (ok, v1)" "lstat v k p = Inr n" "\<not> is_ok (lstat v k q)" for k v v1 ok io p q n
    using mkdirAll_wf [OF _ dir_chain_parents(1), of v io k q] that rename_wf [of v k p n q io v1] by auto
qed (auto intro: mkdirAll_wf dir_chain_parents write_wf sidecar_wf remove_wf)

lemma exec_wf: "wf_volume v \<Longrightarrow> wf_volume (ws_exec st io tenant user op v)"
  using sound.exec_rel [of v st tenant user op io] by (simp add: sound.admits_def split: ws_op.splits)

end
