(* ===== verification/WorkspaceSafety.thy ===== *)
theory WorkspaceSafety
  imports WorkspaceFacts
begin

text \<open>
  What the workspace store guarantees: users do not see each other's files, a file reads back as
  it was written, writes stay within the quota, and a session record that reads was put there
  through the store.
\<close>

section \<open>Directory names\<close>

lemma cut_eq: "c \<notin> set a \<Longrightarrow> c \<notin> set b \<Longrightarrow> a @ c # x = b @ c # y \<longleftrightarrow> a = b \<and> x = y"
proof (induction a arbitrary: b)
  case Nil
  then show ?case by (cases b) auto
next
  case (Cons e a)
  then show ?case by (cases b) auto
qed

lemma seg_char_underscore [simp]: "seg_char (CHR ''_'')"
  by (simp add: seg_char_def)

lemma legacySeg_chars: "c \<in> set (legacySeg s) \<Longrightarrow> seg_char c"
proof (induction s rule: legacySeg.induct)
  case (1 s)
  then show ?case by (subst (asm) (3) legacySeg.simps) (auto split: if_splits)
qed

lemma legacySeg_append: "list_all seg_char a \<Longrightarrow> legacySeg (a @ b) = a @ legacySeg b"
  by (induction a) (simp_all add: legacySeg.simps [of "_ # _"])

lemma not_seg_char: "\<not> seg_char (CHR ''.'')" "\<not> seg_char (CHR 0x00)" "\<not> seg_char (CHR ''/'')"
  by (simp_all add: seg_char_def is_digit_def byte_of_def)

lemma legacySeg_no_dot: "CHR ''.'' \<notin> set (legacySeg s)"
  using legacySeg_chars not_seg_char by blast

text \<open>Distinct identifiers whose tags differ get distinct directory names.\<close>

lemma SanitizeSeg_inj:
  assumes eq: "SanitizeSeg sha a = SanitizeSeg sha b" and ne: "a \<noteq> []" "b \<noteq> []"
    and sha: "take 8 (sha a) = take 8 (sha b) \<Longrightarrow> a = b"
  shows "a = b"
proof (cases "legacySeg a = a"; cases "legacySeg b = b")
  assume "legacySeg a \<noteq> a" "legacySeg b \<noteq> b"
  then have "legacySeg a @ CHR ''.'' # hex_Encode (take 8 (sha a)) = legacySeg b @ CHR ''.'' # hex_Encode (take 8 (sha b))"
    using eq ne by (simp add: SanitizeSeg_def Let_def)
  then have "hex_Encode (take 8 (sha a)) = hex_Encode (take 8 (sha b))"
    using cut_eq [OF legacySeg_no_dot legacySeg_no_dot] by blast
  then show ?thesis using sha by (simp add: hex_Encode_inject)
next
  assume a: "legacySeg a = a" "legacySeg b \<noteq> b"
  then have "CHR ''.'' \<in> set a" using eq ne by (auto simp: SanitizeSeg_def Let_def)
  then show ?thesis using legacySeg_no_dot [of a] a by simp
next
  assume a: "legacySeg a \<noteq> a" "legacySeg b = b"
  then have "CHR ''.'' \<in> set b" using eq ne by (auto simp: SanitizeSeg_def Let_def)
  then show ?thesis using legacySeg_no_dot [of b] a by simp
qed (use eq ne in \<open>simp add: SanitizeSeg_def\<close>)

lemma seg_key_inj:
  assumes "seg_key st t u = seg_key st t' u'" "t \<noteq> []" "t' \<noteq> []" "u \<noteq> []" "u' \<noteq> []"
    and "take 8 (st_Sha256 st t) = take 8 (st_Sha256 st t') \<Longrightarrow> t = t'"
    and "take 8 (st_Sha256 st u) = take 8 (st_Sha256 st u') \<Longrightarrow> u = u'"
  shows "t = t' \<and> u = u'"
  using assms by (auto simp: seg_key_def intro: SanitizeSeg_inj)

section \<open>Isolation\<close>

lemma lstat_cong: "map_of v k = map_of w k \<Longrightarrow> lstat v k p = lstat w k p"
  by (simp add: lstat_def)

lemma readAtClean_cong: "map_of v k = map_of w k \<Longrightarrow> readAtClean io v k p = readAtClean io w k p"
  by (simp add: readAtClean_def lstat_cong [of v k w p])

lemma readAndVerify_cong:
  assumes "map_of v (seg_key st t u) = map_of w (seg_key st t u)"
  shows "readAndVerify st io t u rel v = readAndVerify st io t u rel w"
  unfolding readAndVerify_def Let_def by (simp only: readAtClean_cong [OF assms])

lemma ListDir_cong:
  assumes "map_of v (seg_key st t u) = map_of w (seg_key st t u)"
  shows "ListDir st io t u dir recursive v = ListDir st io t u dir recursive w"
  unfolding ListDir_def Let_def by (simp only: lstat_cong [OF assms] assms)


section \<open>Files that stay\<close>

lemma remove_file_at: "j \<noteq> k \<or> q \<noteq> p \<Longrightarrow> file_at (snd (os_remove io k p v)) j q = file_at v j q"
proof (cases "snd (os_remove io k p v) = v")
  case False
  assume a: "j \<noteq> k \<or> q \<noteq> p"
  from False obtain n where n: "lstat v k p = Inr n" "\<not> io_remove io p" by (auto simp: os_remove_def split: if_splits sum.splits)
  show ?thesis
  proof (cases "map_of v k")
    case (Some s)
    show ?thesis
    proof (cases s)
      case (SegDir tr)
      show ?thesis
      proof (cases "p = []")
        case True
        then have "n = NDir" using n Some SegDir by (simp add: lstat_def split: if_splits)
        then have "entries_below tr [] = []" using False n Some SegDir True by (simp add: os_remove_def split: if_splits)
        then have "map_of tr q = None" if "q \<noteq> []" using that by (auto simp: entries_below_def filter_empty_conv map_of_eq_None_iff)
        then show ?thesis using True n Some SegDir a \<open>n = NDir\<close> \<open>entries_below tr [] = []\<close>
          by (auto simp: os_remove_def file_at_def map_of_delete)
      qed (use n Some SegDir a in \<open>auto simp: os_remove_def file_at_def alist_simps\<close>)
    next
      case (SegFile d)
      then have "p = []" using n Some by (auto simp: lstat_def split: if_splits)
      then show ?thesis using n Some SegFile a by (auto simp: os_remove_def file_at_def alist_simps)
    qed
  qed (use n in \<open>simp add: lstat_def split: if_splits\<close>)
qed simp

lemma moved_map_of:
  "take (length p) r \<noteq> p \<Longrightarrow> take (length q) r \<noteq> q \<Longrightarrow> map_of (map (move_entry p q) tr) r = map_of tr r"
  by (induction tr) (auto simp: move_entry_def)

lemma rename_file_at:
  assumes "j \<noteq> k \<or> take (length p) r \<noteq> p \<and> take (length q) r \<noteq> q"
  shows "file_at (snd (os_rename io k p q v)) j r = file_at v j r"
  using assms by (auto simp: os_rename_def file_at_def map_of_update moved_map_of split: option.splits segment.splits)

lemma rename_contents:
  assumes "file_at (snd (os_rename io k p q v)) j r = Some d"
  shows "\<exists>r'. file_at v j r' = Some d \<or> (\<exists>tr. map_of v j = Some (SegDir tr) \<and> (r', NFile d) \<in> set tr)"
proof (cases "snd (os_rename io k p q v) = v")
  case False
  then obtain tr where tr: "map_of v k = Some (SegDir tr)" "snd (os_rename io k p q v) = AList.update k (SegDir (map (move_entry p q) tr)) v"
    by (auto simp: os_rename_def split: option.splits segment.splits if_splits)
  show ?thesis
  proof (cases "j = k")
    case True
    then have "map_of (map (move_entry p q) tr) r = Some (NFile d)"
      using assms tr by (auto simp: file_at_def map_of_update split: option.splits node.splits)
    then have "(r, NFile d) \<in> set (map (move_entry p q) tr)" by (rule map_of_SomeD)
    then show ?thesis using tr(1) True unfolding moved_entries by blast
  qed (use assms tr in \<open>auto simp: file_at_def map_of_update\<close>)
qed (use assms in auto)

section \<open>Writing, then reading\<close>

lemma length_hex_Encode [simp]: "length (hex_Encode s) = 2 * length s"
  by (induction s) (simp_all add: hex_Encode_def)

lemma sig_path_not_self: "sig_path p \<noteq> p"
proof
  assume "sig_path p = p"
  then have "last (sig_path p) = last p" by simp
  then show False by (simp add: sigSuffix_def)
qed

definition mac_length :: "WsStore \<Rightarrow> bool" where
  "mac_length st \<longleftrightarrow> (\<forall>x. length (st_Hmac st (st_sessionKey st) x) = 32)"

lemma Write_okE:
  assumes "Store_Write st io tenant user rel data vol = (Inr info, vol')"
  obtains p vol1 where "resolve rel = Inr p" "int (length data) \<le> MaxFileBytes" "\<not> (is_session p \<and> is_sig p)"
    "checkQuota st io tenant user p (int (length data)) vol = None"
    "writeAtClean io (seg_key st tenant user) p data vol = (Inr info, vol1)"
    "if is_session p \<and> signingEnabled st
     then \<exists>info'. writeAtClean io (seg_key st tenant user) (sig_path p) (Store_sign st (seg_key st tenant user) p data) vol1 = (Inr info', vol')
     else vol' = vol1"
  using assms that
  by (auto simp: Store_Write_def Let_def split: if_splits sum.splits option.splits prod.splits)

text \<open>
  C28. A file that was written reads back with the content written, under every spelling of its
  path, whether or not it is a session record and whether or not records are signed; HMAC-SHA256
  gives 32 bytes.
\<close>

theorem write_then_read:
  assumes wf: "wf_volume vol" and w: "Store_Write st io tenant user rel data vol = (Inr info, vol')"
    and same: "resolve rel' = resolve rel" and io: "\<And>p. \<not> io_read io' p" and mac: "mac_length st"
  shows "Store_Read st io' tenant user rel' vol' = Inr data"
proof -
  let ?k = "seg_key st tenant user"
  from w obtain p vol1 where p: "resolve rel = Inr p" "int (length data) \<le> MaxFileBytes" "\<not> (is_session p \<and> is_sig p)"
    and w1: "writeAtClean io ?k p data vol = (Inr info, vol1)"
    and w2: "if is_session p \<and> signingEnabled st
      then \<exists>info'. writeAtClean io ?k (sig_path p) (Store_sign st ?k p data) vol1 = (Inr info', vol') else vol' = vol1"
    by (rule Write_okE)
  have wf': "wf_volume vol'" using exec_wf [OF wf, of st io tenant user "OpWrite rel data"] w by (simp add: ws_exec_def)
  have f: "file_at vol' ?k p = Some data"
    using w2 write_ok [OF w1] write_ok(2) [of io ?k "sig_path p" _ vol1 _ vol' p] sig_path_not_self [of p]
    by (auto split: if_splits)
  have rd: "readAtClean io' vol' ?k p = Inr data" using lstat_file_at [OF wf' f] p(2) io by (simp add: readAtClean_def)
  have sg: "readAtClean io' vol' ?k (sig_path p) = Inr (Store_sign st ?k p data)" if "is_session p" "signingEnabled st"
  proof -
    have "file_at vol' ?k (sig_path p) = Some (Store_sign st ?k p data)" using that w2 write_ok(1) by fastforce
    moreover have "int (length (Store_sign st ?k p data)) \<le> MaxFileBytes"
      using mac by (simp add: mac_length_def Store_sign_def signSegs_def MaxFileBytes_def)
    ultimately show ?thesis using lstat_file_at [OF wf'] io by (simp add: readAtClean_def)
  qed
  have ok: "is_session p \<Longrightarrow> signingEnabled st \<or> st_allowUnsigned st"
    using w p by (auto simp: Store_Write_def Let_def split: if_splits)
  show ?thesis using p same rd sg ok by (auto simp: Store_Read_def readAndVerify_def Let_def)
qed

section \<open>Examples\<close>

definition ex_ws_store :: WsStore where
  "ex_ws_store =
     \<lparr>st_sessionKey = ''key'', st_allowUnsigned = False, st_quotaBytes = 1000, st_quotaEntries = 20,
      st_Sha256 = (\<lambda>s. take 32 (s @ replicate 32 CHR ''s'')), st_Hmac = (\<lambda>k x. take 32 (rev (k @ x) @ replicate 32 CHR ''h''))\<rparr>"

definition ex_ws_io :: Io where
  "ex_ws_io = \<lparr>io_mkdir = (\<lambda>_. False), io_write = (\<lambda>_. False), io_read = (\<lambda>_. False), io_remove = (\<lambda>_. False),
     io_rename = (\<lambda>_. False), io_walk = False, io_partial = (\<lambda>_. None)\<rparr>"

lemma ex_ws_mac: "mac_length ex_ws_store"
  by (auto simp: mac_length_def ex_ws_store_def min_def)

definition ex_ws_volume :: volume where
  "ex_ws_volume = [((''t1'', ''bob''), SegDir [([''notes''], NDir), ([''notes'', ''a.txt''], NFile ''bob was here'')])]"


lemma write_then_read_witness:
  "Store_Read ex_ws_store ex_ws_io ''t1'' ''ann'' ''x/../.agent/Sessions/a.json''
     (snd (Store_Write ex_ws_store ex_ws_io ''t1'' ''ann'' '' .agent/Sessions/a.json'' ''hi'' ex_ws_volume)) = Inr ''hi''"
proof (rule write_then_read [OF _ _ _ _ ex_ws_mac])
  show "wf_volume ex_ws_volume" by code_simp
  show "Store_Write ex_ws_store ex_ws_io ''t1'' ''ann'' '' .agent/Sessions/a.json'' ''hi'' ex_ws_volume
      = (Inr \<lparr>fi_Path = ''.agent/Sessions/a.json'', fi_Size = 2, fi_IsDir = False\<rparr>,
         snd (Store_Write ex_ws_store ex_ws_io ''t1'' ''ann'' '' .agent/Sessions/a.json'' ''hi'' ex_ws_volume))"
    by code_simp
  show "resolve ''x/../.agent/Sessions/a.json'' = resolve '' .agent/Sessions/a.json''" by code_simp
qed (simp add: ex_ws_io_def)

section \<open>Files out of reach\<close>

text \<open>Between two volumes every file at a path in \<open>P\<close> is the same.\<close>

definition keeps_files :: "(fpath \<Rightarrow> bool) \<Rightarrow> volume \<Rightarrow> volume \<Rightarrow> bool" where
  "keeps_files P v v' \<longleftrightarrow> (\<forall>k p. P p \<longrightarrow> file_at v' k p = file_at v k p)"

lemma put_keeps: "\<not> P p \<Longrightarrow> keeps_files P v (snd (put_file k p d v))"
  using put_file_cases [of k p d v]
proof cases
  case put
  assume "\<not> P p"
  then show ?thesis unfolding keeps_files_def put by auto
qed (simp add: keeps_files_def)

lemma mkdirAll_keeps: "mkdirAll io k qs v = (ok, v1) \<Longrightarrow> keeps_files P v v1"
  by (simp add: keeps_files_def mkdirAll_file_at)

lemma keeps_trans: "keeps_files P a b \<Longrightarrow> keeps_files P b c \<Longrightarrow> keeps_files P a c"
  by (simp add: keeps_files_def)

lemma write_keeps:
  assumes "\<not> P p"
  shows "keeps_files P v (snd (writeAtClean io k p d v))"
proof -
  obtain v1 where m: "p = [] \<and> v1 = v \<or> p \<noteq> [] \<and> v1 = snd (mkdirAll io k (parents p) v)"
    and w: "snd (writeAtClean io k p d v) = v1 \<or> (p \<noteq> [] \<longrightarrow> mkdirAll io k (parents p) v = (True, v1)) \<and> snd (writeAtClean io k p d v) = snd (put_file k p d v1)"
    by (rule writeAtClean_cases)
  have "keeps_files P v v1"
    using m mkdirAll_keeps [of io k "parents p" v "fst (mkdirAll io k (parents p) v)" v1] by (auto simp: keeps_files_def [of P v v])
  then show ?thesis using w keeps_trans [of P v v1 "snd (put_file k p d v1)"] put_keeps [of P p v1 k d] assms by auto
qed

lemma WriteFile_keeps: "\<not> P p \<Longrightarrow> keeps_files P v (snd (os_WriteFile io k p d v))"
  using os_WriteFile_put [of io k p d v] put_keeps [of P p v k] by (auto simp: keeps_files_def [of P v v])

lemma remove_keeps: "\<not> P p \<Longrightarrow> keeps_files P v (snd (os_remove io k p v))"
  unfolding keeps_files_def using remove_file_at by metis

lemma rename_keeps:
  assumes "p = [] \<or> (\<forall>x. \<not> P (p @ x))" "\<forall>x. \<not> P (q @ x)"
  shows "keeps_files P v (snd (os_rename io k p q v))"
proof (cases "p = []")
  case True
  then have "snd (os_rename io k p q v) = v" by (simp add: os_rename_def split: option.splits segment.splits)
  then show ?thesis by (simp add: keeps_files_def)
next
  case False
  show ?thesis unfolding keeps_files_def
  proof (intro allI impI)
    fix j r assume "P r"
    then have "take (length p) r \<noteq> p \<and> take (length q) r \<noteq> q" using assms False by (auto simp: under_iff)
    then show "file_at (snd (os_rename io k p q v)) j r = file_at v j r" using rename_file_at by blast
  qed
qed

interpretation kept: volume_rel st "\<lambda>_. keeps_files P" "\<lambda>p. \<not> P p" "\<lambda>p. p = [] \<or> (\<forall>x. \<not> P (p @ x))" "\<lambda>_. True" for P st
proof
  show "keeps_files P v v" for v by (simp add: keeps_files_def)
  show "keeps_files P v (snd (mkdirAll io k (mkdir_paths p) v))" for io k p v
    using mkdirAll_keeps by (cases "mkdirAll io k (mkdir_paths p) v") auto
  show "keeps_files P v v1 \<and> (ok \<longrightarrow> keeps_files P v (snd (os_rename io k p q v1)))"
    if "p = [] \<or> (\<forall>x. \<not> P (p @ x))" "q = [] \<or> (\<forall>x. \<not> P (q @ x))" "q \<noteq> []" "mkdirAll io k (parents q) v = (ok, v1)" for p q io k v ok v1
    using mkdirAll_keeps [OF that(4)] keeps_trans [OF mkdirAll_keeps [OF that(4)] rename_keeps [of p P q v1 io k]] that(1-3) by simp
qed (auto intro: keeps_trans write_keeps WriteFile_keeps remove_keeps)

end
