(* ===== verification/WorkspaceSessions.thy ===== *)
theory WorkspaceSessions
  imports WorkspaceSafety
begin

text \<open>
  Session records.  Besides the store, anyone with access to the volume may change it at any time;
  they do not have the session key, so they cannot make a MAC the store has not issued.
\<close>

declare split_paired_All [simp del] split_paired_Ex [simp del]

section \<open>What the store vouches for\<close>

type_synonym ws_event = "string \<times> string \<times> ws_op \<times> volume"

text \<open>The place and content an operation on a volume signs, should it come to that.\<close>

definition endorsed :: "WsStore \<Rightarrow> ws_event \<Rightarrow> ((string \<times> string) \<times> fpath \<times> string) option" where
  "endorsed st e =
     (case e of (tenant, user, op, vol) \<Rightarrow>
        (case op of
           OpWrite rel data \<Rightarrow>
             (case resolve rel of
                Inr p \<Rightarrow> if list_all os_name p then Some (seg_key st tenant user, p, data) else None
              | Inl _ \<Rightarrow> None)
         | OpMove frm to \<Rightarrow>
             (case (resolve frm, resolve to) of
                (Inr p, Inr q) \<Rightarrow>
                  (case lstat vol (seg_key st tenant user) p of
                     Inr (NFile d) \<Rightarrow> if list_all os_name q then Some (seg_key st tenant user, q, d) else None
                   | _ \<Rightarrow> None)
              | _ \<Rightarrow> None)
         | _ \<Rightarrow> None))"

definition issued :: "WsStore \<Rightarrow> ws_event list \<Rightarrow> string \<Rightarrow> bool" where
  "issued st es mac = list_ex (\<lambda>e. case endorsed st e of Some (k, p, d) \<Rightarrow> Store_sign st k p d = mac | None \<Rightarrow> False) es"

text \<open>A text that is a MAC under the session key is one the store issued.\<close>

definition unforged :: "WsStore \<Rightarrow> ws_event list \<Rightarrow> string \<Rightarrow> bool" where
  "unforged st es d \<longleftrightarrow> (\<forall>payload. d = hex_Encode (st_Hmac st (st_sessionKey st) payload) \<longrightarrow> issued st es d)"

definition unforged_volume :: "WsStore \<Rightarrow> ws_event list \<Rightarrow> volume \<Rightarrow> bool" where
  "unforged_volume st es vol \<longleftrightarrow> (\<forall>k p d. file_at vol k p = Some d \<longrightarrow> unforged st es d)"

inductive ws_history :: "WsStore \<Rightarrow> ws_event list \<Rightarrow> volume \<Rightarrow> bool" for st where
  start: "ws_history st [] []"
| operation: "ws_history st es vol \<Longrightarrow> (\<And>rel data. op = OpWrite rel data \<Longrightarrow> unforged st es data)
    \<Longrightarrow> ws_history st (es @ [(tenant, user, op, vol)]) (ws_exec st io tenant user op vol)"
| tampering: "ws_history st es vol \<Longrightarrow> wf_volume vol' \<Longrightarrow> unforged_volume st es vol' \<Longrightarrow> ws_history st es vol'"

section \<open>The store makes no other MAC\<close>

lemma unforged_mono: "unforged st es d \<Longrightarrow> unforged st (es @ es') d"
  by (auto simp: unforged_def issued_def)

text \<open>A sound volume whose files all hold admitted texts.\<close>

definition holds_only :: "(string \<Rightarrow> bool) \<Rightarrow> volume \<Rightarrow> bool" where
  "holds_only D v \<longleftrightarrow> wf_volume v \<and> (\<forall>k p d. file_at v k p = Some d \<longrightarrow> D d)"

definition mac_text :: "WsStore \<Rightarrow> string \<Rightarrow> bool" where
  "mac_text st d \<longleftrightarrow> (\<exists>payload. d = hex_Encode (st_Hmac st (st_sessionKey st) payload))"

lemma put_file_admitted:
  assumes "\<forall>k p d. file_at v k p = Some d \<longrightarrow> D d" "D x" "file_at (snd (put_file k p x v)) j q = Some d"
  shows "D d"
  using put_file_cases [of k p x v]
proof cases
  case same
  then show ?thesis using assms by auto
next
  case put
  then show ?thesis using assms by (auto split: if_splits)
qed

lemma write_admitted:
  assumes "\<forall>k p d. file_at v k p = Some d \<longrightarrow> D d" "D x" "file_at (snd (writeAtClean io k p x v)) j q = Some d"
  shows "D d"
proof -
  obtain v1 where m: "p = [] \<and> v1 = v \<or> p \<noteq> [] \<and> v1 = snd (mkdirAll io k (parents p) v)"
    and w: "snd (writeAtClean io k p x v) = v1 \<or> (p \<noteq> [] \<longrightarrow> mkdirAll io k (parents p) v = (True, v1)) \<and> snd (writeAtClean io k p x v) = snd (put_file k p x v1)"
    by (rule writeAtClean_cases)
  have "file_at v1 j q = file_at v j q" for j q
    using m mkdirAll_file_at [of io k "parents p" v "fst (mkdirAll io k (parents p) v)" v1 j q] by auto
  then have v1: "\<forall>k p d. file_at v1 k p = Some d \<longrightarrow> D d" using assms(1) by simp
  show ?thesis using w put_file_admitted [OF v1 assms(2), of k p j q d] v1 assms(3) by auto
qed

lemma contents_entry: "wf_volume v \<Longrightarrow> map_of v j = Some (SegDir tr) \<Longrightarrow> (r, NFile d) \<in> set tr \<Longrightarrow> file_at v j r = Some d"
proof -
  assume "wf_volume v" "map_of v j = Some (SegDir tr)" "(r, NFile d) \<in> set tr"
  moreover have "wf_tree tr" using wf_volume_seg [of v j "SegDir tr"] calculation by simp
  ultimately have "map_of tr r = Some (NFile d)" by (simp add: wf_tree_def)
  then show ?thesis using \<open>map_of v j = Some (SegDir tr)\<close> by (simp add: file_at_def)
qed

lemma rename_admitted:
  assumes "wf_volume v" "\<forall>k p d. file_at v k p = Some d \<longrightarrow> D d" "file_at (snd (os_rename io k p q v)) j r = Some d"
  shows "D d"
  using rename_contents [OF assms(3)] contents_entry [OF assms(1)] assms(2) by blast

lemma remove_admitted:
  assumes "file_at (snd (os_remove io k p v)) j q = Some d"
  shows "file_at v j q = Some d"
proof (cases "j \<noteq> k \<or> q \<noteq> p")
  case True
  then show ?thesis using assms remove_file_at by metis
next
  case False
  show ?thesis
  proof (cases "snd (os_remove io k p v) = v")
    case changed: False
    then have "file_at (snd (os_remove io k p v)) k p = None"
      by (auto simp: os_remove_def file_at_def alist_simps split: if_splits sum.splits option.splits segment.splits)
    then show ?thesis using assms False by simp
  qed (use assms in simp)
qed

text \<open>A part of a MAC is none.\<close>

definition mac_closed :: "WsStore \<Rightarrow> (string \<Rightarrow> bool) \<Rightarrow> bool" where
  "mac_closed st D \<longleftrightarrow> (\<forall>d. \<not> mac_text st d \<longrightarrow> D d)"

lemma mac_part:
  assumes "mac_length st" "mac_text st (take n (Store_sign st k p d))"
  shows "take n (Store_sign st k p d) = Store_sign st k p d"
proof -
  from assms(2) obtain x where "take n (Store_sign st k p d) = hex_Encode (st_Hmac st (st_sessionKey st) x)" unfolding mac_text_def by blast
  then have "length (take n (Store_sign st k p d)) = 64" using assms(1) by (simp only: mac_length_def length_hex_Encode)
  moreover have "length (Store_sign st k p d) = 64" using assms(1) by (simp add: mac_length_def Store_sign_def signSegs_def)
  ultimately show ?thesis by simp
qed

lemma sidecar_admitted:
  assumes "mac_length st" "mac_closed st D" "\<forall>k p d. file_at v k p = Some d \<longrightarrow> D d" "D (Store_sign st k p x)"
    "file_at (snd (os_WriteFile io k q (Store_sign st k p x) v)) j r = Some d"
  shows "D d"
  using os_WriteFile_put [of io k q "Store_sign st k p x" v]
proof (elim disjE exE)
  assume "snd (os_WriteFile io k q (Store_sign st k p x) v) = v"
  then show ?thesis using assms(3,5) by simp
next
  fix n assume e: "snd (os_WriteFile io k q (Store_sign st k p x) v) = snd (put_file k q (take n (Store_sign st k p x)) v)"
  have "D (take n (Store_sign st k p x))"
    using assms(2,4) mac_part [OF assms(1), of n k p x] by (cases "mac_text st (take n (Store_sign st k p x))") (auto simp: mac_closed_def)
  then show ?thesis using put_file_admitted [OF assms(3)] assms(5) e by simp
qed

definition contents_rel :: "WsStore \<Rightarrow> (string \<Rightarrow> bool) \<Rightarrow> volume \<Rightarrow> volume \<Rightarrow> bool" where
  "contents_rel st D v v' \<longleftrightarrow> (mac_length st \<longrightarrow> mac_closed st D \<longrightarrow> holds_only D v \<longrightarrow> holds_only D v')"

lemma contents_relI:
  assumes "\<And>k p d. mac_length st \<Longrightarrow> mac_closed st D \<Longrightarrow> wf_volume v \<Longrightarrow> \<forall>k p d. file_at v k p = Some d \<longrightarrow> D d \<Longrightarrow> file_at v' k p = Some d \<Longrightarrow> D d"
    and "wf_volume v \<Longrightarrow> wf_volume v'"
  shows "contents_rel st D v v'"
  unfolding contents_rel_def holds_only_def using assms by blast

lemma contents_rel_same:
  assumes "\<And>k p. file_at v' k p = file_at v k p" "wf_volume v \<Longrightarrow> wf_volume v'"
  shows "contents_rel st D v v'"
  using assms by (simp add: contents_rel_def holds_only_def)

lemma mkdirAll_file_at_snd: "file_at (snd (mkdirAll io k qs v)) j p = file_at v j p"
  by (rule mkdirAll_file_at [of io k qs v "fst (mkdirAll io k qs v)"]) simp

interpretation held: volume_rel st "\<lambda>_. contents_rel st D" "\<lambda>_. True" "\<lambda>_. True" D for st D
proof
  show "contents_rel st D v v" for v by (simp add: contents_rel_def)
  show "contents_rel st D a c" if "contents_rel st D a b" "contents_rel st D b c" for a b c
    using that by (simp add: contents_rel_def)
  show "contents_rel st D v (snd (mkdirAll io k (mkdir_paths p) v))" for k v io p
    by (intro contents_rel_same mkdirAll_file_at_snd mkdirAll_wf dir_chain_parents)
  show "contents_rel st D v (snd (writeAtClean io k p d v))" if "D d" for k v io p d
    by (rule contents_relI [OF write_admitted [where D = D and x = d] write_wf]) (use that in simp_all)
  show "contents_rel st D v (snd (os_WriteFile io k (sig_path q) (Store_sign st k q d) v))"
    if "D (Store_sign st k q d)" "q \<noteq> []" "is_ok (lstat v k q)" for k q d v io
    by (rule contents_relI [OF sidecar_admitted [where D = D] sidecar_wf]) (use that in simp_all)
  show "contents_rel st D v (snd (os_remove io k p v))" for k v io p
  proof (rule contents_relI [OF _ remove_wf])
    fix j q d assume "\<forall>k p d. file_at v k p = Some d \<longrightarrow> D d" "file_at (snd (os_remove io k p v)) j q = Some d"
    then show "D d" using remove_admitted by blast
  qed
  show "contents_rel st D v v1 \<and> (ok \<longrightarrow> contents_rel st D v (snd (os_rename io k p q v1)))"
    if m: "mkdirAll io k (parents q) v = (ok, v1)" and p: "lstat v k p = Inr n" and q: "\<not> is_ok (lstat v k q)" for k p q v v1 n io ok
  proof
    have wf: "wf_volume v \<Longrightarrow> wf_volume v1" using mkdirAll_wf [OF _ dir_chain_parents(1), of v io k q] m by simp
    show "contents_rel st D v v1" by (intro contents_rel_same mkdirAll_file_at [OF m] wf)
    show "ok \<longrightarrow> contents_rel st D v (snd (os_rename io k p q v1))"
    proof
      assume ok
      then have "wf_volume v \<Longrightarrow> wf_volume (snd (os_rename io k p q v1))" using rename_wf [OF _ p q] m by simp
      then show "contents_rel st D v (snd (os_rename io k p q v1))"
        using rename_admitted [of v1 D io k p q] wf mkdirAll_file_at [OF m] by (intro contents_relI) simp_all
    qed
  qed
qed

section \<open>Records that read\<close>

lemma resolve_names: "resolve rel = Inr p \<Longrightarrow> n \<in> set p \<Longrightarrow> CHR ''/'' \<notin> set n"
  by (auto simp: resolve_def path_names_def bindE_eq_Inr Split_parts split: if_splits)

lemma endorsed_names:
  assumes "endorsed st e = Some (k, p, d)"
  shows "list_all os_name p" "\<And>n. n \<in> set p \<Longrightarrow> CHR ''/'' \<notin> set n" "\<exists>t u. k = seg_key st t u"
  using assms by (auto simp: endorsed_def split: prod.splits ws_op.splits sum.splits node.splits if_splits dest: resolve_names)

text \<open>An operation endorses what it signs.\<close>

lemma exec_unforged:
  assumes wf: "wf_volume vol" and un: "unforged_volume st es vol" and mac: "mac_length st"
    and data: "\<And>rel data. op = OpWrite rel data \<Longrightarrow> unforged st es data"
  shows "unforged_volume st (es @ [(tenant, user, op, vol)]) (ws_exec st io tenant user op vol)"
proof -
  let ?k = "seg_key st tenant user" and ?es = "es @ [(tenant, user, op, vol)]"
  let ?D = "unforged st ?es"
  have closed: "mac_closed st ?D" by (auto simp: mac_closed_def mac_text_def unforged_def)
  have signs: "?D (Store_sign st ?k p d)" if "endorsed st (tenant, user, op, vol) = Some (?k, p, d)" for p d
    using that by (simp add: unforged_def issued_def)
  have dat: "\<And>rel data. op = OpWrite rel data \<Longrightarrow> ?D data" using data unforged_mono by blast
  have "held.admits st ?D ?k vol op"
  proof (cases op)
    case (OpWrite rel data)
    have "?D (Store_sign st ?k p data)" if "resolve rel = Inr p" "list_all os_name p" for p
      using that OpWrite by (intro signs) (simp add: endorsed_def)
    then show ?thesis using dat OpWrite by (simp add: held.admits_def)
  next
    case (OpMove frm to)
    have "?D (Store_sign st ?k q d)"
      if "resolve frm = Inr p" "resolve to = Inr q" "list_all os_name q" "lstat vol ?k p = Inr (NFile d)" for p q d
      using that OpMove by (intro signs) (simp add: endorsed_def)
    then show ?thesis using OpMove by (simp add: held.admits_def)
  qed (simp_all add: held.admits_def)
  then have "contents_rel st ?D vol (ws_exec st io tenant user op vol)" by (rule held.exec_rel [OF wf])
  moreover have "holds_only ?D vol" using wf un unforged_mono by (auto simp: holds_only_def unforged_volume_def)
  ultimately show ?thesis using mac closed by (simp add: contents_rel_def holds_only_def unforged_volume_def)
qed

lemma history_sound:
  assumes "ws_history st es vol" "mac_length st"
  shows "wf_volume vol \<and> unforged_volume st es vol"
  using assms
proof (induction rule: ws_history.induct)
  case start
  then show ?case by (simp add: wf_volume_def unforged_volume_def file_at_def)
next
  case (operation es vol op tenant user io)
  then show ?case using exec_wf exec_unforged by blast
qed auto

lemma SanitizeSeg_no_nul: "CHR 0x00 \<notin> set (SanitizeSeg sha s)"
proof -
  have hex: "CHR 0x00 \<notin> set (hex_Encode x)" for x :: string
  proof -
    have "hex_nibble (CHR 0x00) = None" by (simp add: hex_nibble_def byte_of_def)
    then have "hex_digit n \<noteq> CHR 0x00" if "n < 16" for n using hex_nibble_digit [OF that] by auto
    moreover have "byte_of c div 16 < 16" "byte_of c mod 16 < 16" for c by (rule less_mult_imp_div_less, simp) simp
    ultimately have "hex_digit (byte_of c div 16) \<noteq> CHR 0x00" "hex_digit (byte_of c mod 16) \<noteq> CHR 0x00" for c by blast+
    then show ?thesis by (induction x) (simp_all add: hex_Encode_def not_sym)
  qed
  have "CHR 0x00 \<notin> set (legacySeg s)" using legacySeg_chars not_seg_char by blast
  then show ?thesis using hex by (auto simp: SanitizeSeg_def Let_def)
qed

lemma Join_no_nul: "list_all os_name p \<Longrightarrow> CHR 0x00 \<notin> set (Join p ''/'')"
  by (induction p "''/''" rule: Join.induct) (auto simp: os_name_def)

text \<open>The signed text determines the place and the content.\<close>

lemma sign_payload_inj:
  assumes "sign_payload a b r d = sign_payload a' b' r' d'"
    "CHR 0x00 \<notin> set a" "CHR 0x00 \<notin> set b" "CHR 0x00 \<notin> set r" "CHR 0x00 \<notin> set a'" "CHR 0x00 \<notin> set b'" "CHR 0x00 \<notin> set r'"
  shows "a = a' \<and> b = b' \<and> r = r' \<and> d = d'"
  using assms by (simp add: sign_payload_def cut_eq)

lemma names_inj:
  assumes "Join p ''/'' = Join q ''/''" "\<And>n. n \<in> set p \<Longrightarrow> CHR ''/'' \<notin> set n" "\<And>n. n \<in> set q \<Longrightarrow> CHR ''/'' \<notin> set n"
    "Join p ''/'' \<noteq> []"
  shows "p = q"
proof -
  have "p \<noteq> []" "q \<noteq> []" using assms(1,4) by auto
  then show ?thesis using Split_Join [of p "CHR ''/''"] Split_Join [of q "CHR ''/''"] assms(1-3) by metis
qed


section \<open>Examples\<close>

definition ex_ws_record :: ws_event where
  "ex_ws_record = (''t1'', ''ann'', OpWrite ''.agent/Sessions/a.json'' ''hi'', [])"

lemma ex_ws_history:
  "ws_history ex_ws_store [ex_ws_record] (ws_exec ex_ws_store ex_ws_io ''t1'' ''ann'' (OpWrite ''.agent/Sessions/a.json'' ''hi'') [])"
proof -
  have "hex_Encode (st_Hmac ex_ws_store (st_sessionKey ex_ws_store) x) \<noteq> ''hi''" for x
  proof
    assume "hex_Encode (st_Hmac ex_ws_store (st_sessionKey ex_ws_store) x) = ''hi''"
    then have "length (hex_Encode (st_Hmac ex_ws_store (st_sessionKey ex_ws_store) x)) = 2" by simp
    then show False using ex_ws_mac by (simp add: mac_length_def)
  qed
  then have "unforged ex_ws_store [] ''hi''" unfolding unforged_def by metis
  then show ?thesis
    using ws_history.operation [OF ws_history.start, of "OpWrite ''.agent/Sessions/a.json'' ''hi''" ex_ws_store "''t1''" "''ann''" ex_ws_io]
    by (simp add: ex_ws_record_def)
qed


end
