(* ===== verification/WorkspaceQuota.thy ===== *)
theory WorkspaceQuota
  imports WorkspaceSafety
begin

text \<open>The quota of a user: their directory and the staging segments of their transfers together.\<close>

section \<open>The pool\<close>

definition pool_bytes :: "WsStore \<Rightarrow> string \<Rightarrow> string \<Rightarrow> volume \<Rightarrow> int" where
  "pool_bytes st tenant user vol =
     usedBytes (quotaPool (st_Sha256 st) (fst (seg_key st tenant user)) (quota_tag st tenant user) vol)"

definition pool_entries :: "WsStore \<Rightarrow> string \<Rightarrow> string \<Rightarrow> volume \<Rightarrow> int" where
  "pool_entries st tenant user vol =
     usedEntries (quotaPool (st_Sha256 st) (fst (seg_key st tenant user)) (quota_tag st tenant user) vol)"

lemma hex_nibble_seg_char: "hex_nibble c \<noteq> None \<Longrightarrow> seg_char c"
  by (auto simp: hex_nibble_def seg_char_def is_digit_def Let_def split: if_splits)

lemma hex_Decode_seg_chars: "hex_Decode s \<noteq> None \<Longrightarrow> list_all seg_char s"
proof (induction s rule: hex_Decode.induct)
  case (2 a b s)
  then show ?case using hex_nibble_seg_char by (auto split: option.splits)
qed simp_all

lemma SanitizeSeg_prefix: "list_all seg_char p \<Longrightarrow> p \<noteq> [] \<Longrightarrow> HasPrefix (SanitizeSeg sha (p @ s)) p"
  by (auto simp: SanitizeSeg_def Let_def legacySeg_append HasPrefix_def)

text \<open>The directory an operation writes to is in the pool it is charged to.\<close>

lemma own_in_pool: "in_pool (st_Sha256 st) (fst (seg_key st tenant user)) (quota_tag st tenant user) (seg_key st tenant user)"
proof (cases "stagingOwnerTag user")
  case (Some tag)
  then obtain rest where c: "CutPrefix user stagingPrefix = Some rest"
    by (cases "CutPrefix user stagingPrefix") (simp_all add: stagingOwnerTag_def)
  then have r: "user = stagingPrefix @ rest" "16 < length rest" "rest ! 16 = CHR ''-''" "hex_Decode (take 16 rest) \<noteq> None" "tag = take 16 rest"
    using Some by (simp_all add: CutPrefix_eq_Some) (simp_all add: stagingOwnerTag_def split: if_splits)
  have "rest = take 16 rest @ rest ! 16 # drop (Suc 16) rest" by (rule id_take_nth_drop [OF r(2)])
  then have "rest = tag @ ''-'' @ drop 17 rest" using r(3,5) by simp
  then have u: "user = (stagingPrefix @ tag @ ''-'') @ drop 17 rest" using r(1) by simp
  have "list_all seg_char tag" using r(4,5) hex_Decode_seg_chars by simp
  then have "list_all seg_char (stagingPrefix @ tag @ ''-'')" by (simp add: stagingPrefix_def seg_char_def is_digit_def byte_of_def)
  then have "HasPrefix (SanitizeSeg (st_Sha256 st) user) (stagingPrefix @ tag @ ''-'')"
    using SanitizeSeg_prefix [of "stagingPrefix @ tag @ ''-''" "st_Sha256 st" "drop 17 rest"] u by (simp add: stagingPrefix_def)
  then show ?thesis using Some by (simp add: in_pool_def quota_tag_def seg_key_def)
qed (simp add: in_pool_def quota_tag_def)

lemma pool_sum:
  fixes g :: "tree \<Rightarrow> int"
  shows "sum_list (map g (quotaPool sha td tag vol))
    = sum_list (map (\<lambda>e. if in_pool sha td tag (fst e) then g (seg_tree (snd e)) else 0) vol)"
  by (induction vol) (auto simp: quotaPool_def)

definition seg_of :: "volume \<Rightarrow> string \<times> string \<Rightarrow> tree" where
  "seg_of vol k = (case map_of vol k of None \<Rightarrow> [] | Some s \<Rightarrow> seg_tree s)"

lemma pool_update:
  fixes g :: "tree \<Rightarrow> int"
  assumes "in_pool sha td tag k" "g [] = 0"
  shows "sum_list (map g (quotaPool sha td tag (AList.update k s vol)))
    = sum_list (map g (quotaPool sha td tag vol)) - g (seg_of vol k) + g (seg_tree s)"
  using assms by (simp add: pool_sum sum_update seg_of_def split: option.splits)

lemma pool_update_used:
  assumes "k = seg_key st tenant user"
  shows "pool_bytes st tenant user (AList.update k s vol) = pool_bytes st tenant user vol - tree_bytes (seg_of vol k) + tree_bytes (seg_tree s)"
    "pool_entries st tenant user (AList.update k s vol) = pool_entries st tenant user vol - int (length (seg_of vol k)) + int (length (seg_tree s))"
  using pool_update [OF own_in_pool, of tree_bytes st tenant user s vol] pool_update [OF own_in_pool, of "int \<circ> length" st tenant user s vol] assms
  by (simp_all add: pool_bytes_def pool_entries_def usedBytes_def usedEntries_def tree_bytes_def)

section \<open>What a write adds\<close>

lemma tree_bytes_update: "tree_bytes (AList.update p n tr) = tree_bytes tr - (case map_of tr p of None \<Rightarrow> 0 | Some m \<Rightarrow> node_size m) + node_size n"
  by (simp add: tree_bytes_def sum_update comp_def split: option.splits)

lemma mk_dirs_bytes: "mk_dirs io qs tr = (ok, tr') \<Longrightarrow> tree_bytes tr' = tree_bytes tr"
proof (induction qs arbitrary: tr)
  case (Cons q qs)
  from Cons.prems show ?case
  proof (cases rule: mk_dirs_ConsE)
    case made
    then show ?thesis using Cons.IH [OF made(3)] by (simp add: tree_bytes_update node_size_def)
  qed (use Cons.IH in auto)
qed simp

definition missing :: "tree \<Rightarrow> fpath list \<Rightarrow> nat" where
  "missing tr qs = length (filter (\<lambda>q. map_of tr q = None) qs)"

lemma missing_update: "missing (AList.update p n tr) qs \<le> missing tr qs"
  by (induction qs) (auto simp: missing_def map_of_update)

lemma mk_dirs_entries: "mk_dirs io qs tr = (ok, tr') \<Longrightarrow> length tr' \<le> length tr + missing tr qs"
proof (induction qs arbitrary: tr)
  case (Cons q qs)
  from Cons.prems show ?case
  proof (cases rule: mk_dirs_ConsE)
    case there
    then show ?thesis using Cons.IH by (force simp: missing_def)
  next
    case made
    have "length tr' \<le> length (AList.update q NDir tr) + missing (AList.update q NDir tr) qs" using Cons.IH [OF made(3)] .
    also have "\<dots> \<le> length tr + 1 + missing tr qs" using made(1) missing_update [of q NDir tr qs] by (simp add: length_update)
    finally show ?thesis using made(1) by (simp add: missing_def)
  qed simp
qed simp

lemma filter_takeWhile_rev:
  "sorted_wrt (\<lambda>a b. \<not> P b \<longrightarrow> \<not> M a) xs \<Longrightarrow> (\<And>x. x \<in> set xs \<Longrightarrow> M x \<Longrightarrow> P x)
   \<Longrightarrow> length (filter M xs) \<le> length (takeWhile P (rev xs))"
proof (induction xs rule: rev_induct)
  case (snoc x xs)
  show ?case
  proof (cases "P x")
    case True
    then show ?thesis using snoc by (auto simp: sorted_wrt_append)
  next
    case False
    then have "filter M (xs @ [x]) = []" using snoc.prems by (auto simp: sorted_wrt_append filter_empty_conv)
    then show ?thesis by simp
  qed
qed simp

lemma mkdir_paths_parents: "p \<noteq> [] \<Longrightarrow> mkdir_paths p = parents p @ [p]"
  by (simp add: mkdir_paths_def parents_def upt_Suc_append Suc_leI)

lemma seg_of_dir: "map_of vol k = Some (SegDir tr) \<Longrightarrow> seg_of vol k = tr"
  by (simp add: seg_of_def)

text \<open>What is charged for new entries is at least what is missing.\<close>

lemma newEntries_missing:
  assumes wf: "wf_volume vol"
  shows "int (missing (seg_of vol k) (mkdir_paths p)) \<le> newEntries vol k p"
proof -
  have there: "map_of (seg_of vol k) a \<noteq> None" if b: "is_ok (lstat vol k b)" "b \<noteq> []" and a: "a = b \<or> a \<in> set (parents b)" for a b
  proof -
    from b(1) obtain n where "lstat vol k b = Inr n" by (rule is_okE)
    then obtain tr where tr: "map_of vol k = Some (SegDir tr)" "map_of tr b = Some n" using b(2) by (rule lstat_ok)
    have "wf_entry tr b" using wf_volume_seg [OF wf tr(1)] wf_tree_entry [OF _ tr(2)] by simp
    then show ?thesis using a tr by (auto simp: seg_of_dir wf_entry_def list_all_iff)
  qed
  show ?thesis
  proof (cases "is_ok (lstat vol k p)")
    case True
    then have "missing (seg_of vol k) (mkdir_paths p) = 0"
    proof (cases "p = []")
      case False
      then show ?thesis using there [OF True] by (auto simp: missing_def mkdir_paths_parents filter_empty_conv)
    qed (simp add: missing_def mkdir_paths_def)
    then show ?thesis using True by (simp add: newEntries_def)
  next
    case False
    have "sorted_wrt (\<lambda>a b. is_ok (lstat vol k b) \<longrightarrow> map_of (seg_of vol k) a \<noteq> None) (mkdir_paths p)"
    proof -
      have "map_of (seg_of vol k) (take i p) \<noteq> None" if "is_ok (lstat vol k (take j p))" "1 \<le> i" "i < j" "j \<le> length p" for i j
      proof (rule there [OF that(1)])
        have "take i p = take i (take j p)" using that by simp
        then show "take i p = take j p \<or> take i p \<in> set (parents (take j p))" using that unfolding parents_iff by auto
      qed (use that in auto)
      then show ?thesis by (simp add: mkdir_paths_def sorted_wrt_iff_nth_less del: upt_Suc)
    qed
    moreover have "\<not> is_ok (lstat vol k q)" if "q \<in> set (mkdir_paths p)" "map_of (seg_of vol k) q = None" for q
    proof -
      have "q \<noteq> []" using that(1) by (cases p) (auto simp: mkdir_paths_def simp del: upt_Suc)
      then show ?thesis using there [of q q] that(2) by blast
    qed
    ultimately have "length (filter (\<lambda>q. map_of (seg_of vol k) q = None) (mkdir_paths p))
        \<le> length (takeWhile (\<lambda>q. \<not> is_ok (lstat vol k q)) (rev (mkdir_paths p)))"
      by (intro filter_takeWhile_rev) simp_all
    then show ?thesis using False by (simp add: newEntries_def missing_def mkdir_paths_def)
  qed
qed

lemma mkdirAll_effect:
  "mkdirAll io k qs v = (ok, v1) \<Longrightarrow>
   v1 = v \<and> \<not> ok \<or> (\<exists>tr. v1 = AList.update k (SegDir tr) v \<and> mk_dirs io qs (seg_of v k) = (ok, tr))"
  by (auto simp: mkdirAll_def seg_of_def split: option.splits segment.splits prod.splits if_splits)

lemma mkdirAll_use:
  assumes "mkdirAll io k qs v = (ok, v1)" "k = seg_key st tenant user"
  shows "pool_bytes st tenant user v1 = pool_bytes st tenant user v"
    "pool_entries st tenant user v1 \<le> pool_entries st tenant user v + int (missing (seg_of v k) qs)"
  using mkdirAll_effect [OF assms(1)] pool_update_used [OF assms(2)] mk_dirs_bytes mk_dirs_entries by fastforce+

lemma put_file_effect:
  assumes "put_file k p d v = (ok, v2)"
  shows "\<not> ok \<and> v2 = v
   \<or> ok \<and> p = [] \<and> seg_of v k = [] \<and> v2 = AList.update k (SegFile d) v
   \<or> ok \<and> (\<exists>tr. p \<noteq> [] \<and> map_of v k = Some (SegDir tr) \<and> map_of tr p \<noteq> Some NDir
        \<and> v2 = AList.update k (SegDir (AList.update p (NFile d) tr)) v)"
  using assms by (auto simp: put_file_def seg_of_def split: option.splits segment.splits if_splits)

lemma net_size_entry:
  assumes "wf_volume v" "p \<noteq> []" "map_of (seg_of v k) p \<noteq> Some NDir"
  shows "net_size v k p n = n - (case map_of (seg_of v k) p of None \<Rightarrow> 0 | Some m \<Rightarrow> node_size m)"
proof (cases "map_of (seg_of v k) p")
  case None
  have "lstat v k p \<noteq> Inr (NFile d)" for d
  proof
    assume "lstat v k p = Inr (NFile d)"
    then obtain tr where "map_of v k = Some (SegDir tr)" "map_of tr p = Some (NFile d)" using assms(2) by (rule lstat_ok)
    then show False using None by (simp add: seg_of_def)
  qed
  then show ?thesis using None by (auto simp: net_size_def split: sum.splits node.splits)
next
  case (Some m)
  then obtain tr where tr: "map_of v k = Some (SegDir tr)" "map_of tr p = Some m"
    by (auto simp: seg_of_def seg_tree_def split: option.splits segment.splits)
  obtain d where "m = NFile d" using Some assms(3) by (cases m) auto
  then show ?thesis using lstat_entry [OF assms(1) tr] Some by (simp add: net_size_def node_size_def)
qed

lemma put_use:
  assumes wf: "wf_volume v" and k: "k = seg_key st tenant user" and p: "p \<noteq> []"
    and mk: "mkdirAll io k (parents p) v = (True, v1)" and put: "put_file k p d v1 = (True, v2)"
  shows "pool_bytes st tenant user v2 = pool_bytes st tenant user v + net_size v k p (int (length d))"
    "pool_entries st tenant user v2 \<le> pool_entries st tenant user v + int (missing (seg_of v k) (mkdir_paths p))"
proof -
  from put_file_effect [OF put] p obtain tr where tr: "map_of v1 k = Some (SegDir tr)" "map_of tr p \<noteq> Some NDir"
    and v2: "v2 = AList.update k (SegDir (AList.update p (NFile d) tr)) v1" by auto
  from mkdirAll_effect [OF mk] obtain tr' where v1: "v1 = AList.update k (SegDir tr') v" and dirs: "mk_dirs io (parents p) (seg_of v k) = (True, tr')" by auto
  have [simp]: "tr' = tr" using tr(1) v1 by (simp add: map_of_update)
  have same: "map_of tr p = map_of (seg_of v k) p"
  proof (cases "map_of (seg_of v k) p")
    case None
    then show ?thesis using mk_dirs_new [OF dirs, of p] not_own_parent [of p] by (cases "map_of tr p") auto
  qed (use mk_dirs_keeps [OF dirs] in simp)
  have so: "seg_of v1 k = tr" by (rule seg_of_dir [OF tr(1)])
  note use1 = mkdirAll_use [OF mk k]
  show "pool_bytes st tenant user v2 = pool_bytes st tenant user v + net_size v k p (int (length d))"
    using pool_update_used(1) [OF k, of "SegDir (AList.update p (NFile d) tr)" v1] v2 use1(1) so same tr(2) net_size_entry [OF wf p, of k "int (length d)"]
    by (simp add: tree_bytes_update node_size_def [of "NFile d"])
  show "pool_entries st tenant user v2 \<le> pool_entries st tenant user v + int (missing (seg_of v k) (mkdir_paths p))"
    using pool_update_used(2) [OF k, of "SegDir (AList.update p (NFile d) tr)" v1] v2 use1(2) so same p
    by (auto simp: length_update mkdir_paths_parents missing_def)
qed

text \<open>A write, whatever becomes of it, adds at most what is charged for it.\<close>

lemma write_use:
  assumes wf: "wf_volume v" and k: "k = seg_key st tenant user" and w: "writeAtClean io k p d v = (r, v2)"
  shows "pool_bytes st tenant user v2 = pool_bytes st tenant user v \<and> \<not> (is_ok r \<and> p \<noteq> [])
      \<or> pool_bytes st tenant user v2 = pool_bytes st tenant user v + net_size v k p (int (length d))"
    "pool_entries st tenant user v2 \<le> pool_entries st tenant user v + int (missing (seg_of v k) (mkdir_paths p))"
proof -
  let ?B = "pool_bytes st tenant user" and ?E = "pool_entries st tenant user"
  let ?m = "if p = [] then (True, v) else mkdirAll io k (parents p) v"
  obtain ok v1 where m: "?m = (ok, v1)" by (cases ?m)
  obtain ok2 v3 where put: "put_file k p d v1 = (ok2, v3)" by (cases "put_file k p d v1")
  have r: "v2 = v1 \<and> \<not> is_ok r \<or> ok \<and> v2 = v3 \<and> is_ok r = ok2"
    using w m put by (cases ok; cases ok2) (auto simp: writeAtClean_def split: if_splits)
  have b1: "?B v1 = ?B v" and e1: "?E v1 \<le> ?E v + int (missing (seg_of v k) (parents p))"
    using m mkdirAll_use [OF _ k, of io "parents p" v ok v1] by (auto split: if_splits)
  have le: "missing (seg_of v k) (parents p) \<le> missing (seg_of v k) (mkdir_paths p)"
    by (cases "p = []") (simp_all add: mkdir_paths_parents missing_def parents_def)
  have ok: "?B v3 = ?B v + net_size v k p (int (length d)) \<and> ?E v3 \<le> ?E v + int (missing (seg_of v k) (mkdir_paths p))" if "ok" "ok2" "p \<noteq> []"
    using put_use [OF wf k that(3), of io v1 d v3] m put that by simp
  have other: "?B v3 = ?B v1 \<and> ?E v3 = ?E v1" if "\<not> ok2 \<or> p = []"
    using put_file_effect [OF put] that pool_update_used [OF k, of "SegFile d" v1] by (auto simp: tree_bytes_def)
  show "?B v2 = ?B v \<and> \<not> (is_ok r \<and> p \<noteq> []) \<or> ?B v2 = ?B v + net_size v k p (int (length d))"
    "?E v2 \<le> ?E v + int (missing (seg_of v k) (mkdir_paths p))"
    using r b1 e1 le ok other by (cases "ok2 \<and> p \<noteq> []"; auto)+
qed

section \<open>Removing\<close>

lemma sum_delete:
  fixes f :: "'k \<times> 'v \<Rightarrow> int"
  assumes "\<And>e. 0 \<le> f e"
  shows "sum_list (map f (AList.delete k xs)) \<le> sum_list (map f xs)"
proof (induction xs)
  case (Cons e xs)
  then show ?case using assms [of e] by (auto simp: AList.delete_eq split: prod.splits)
qed (simp add: AList.delete_eq)

lemma tree_bytes_nonneg: "0 \<le> tree_bytes tr"
  by (auto simp: tree_bytes_def node_size_def intro!: sum_list_nonneg split: node.splits)

lemma pool_delete_used:
  "pool_bytes st tenant user (AList.delete k vol) \<le> pool_bytes st tenant user vol"
  "pool_entries st tenant user (AList.delete k vol) \<le> pool_entries st tenant user vol"
  by (simp_all add: pool_bytes_def pool_entries_def usedBytes_def usedEntries_def pool_sum sum_delete tree_bytes_nonneg)

lemma remove_use:
  assumes "k = seg_key st tenant user"
  shows "pool_bytes st tenant user (snd (os_remove io k p v)) \<le> pool_bytes st tenant user v
    \<and> pool_entries st tenant user (snd (os_remove io k p v)) \<le> pool_entries st tenant user v"
proof (cases "snd (os_remove io k p v) \<in> {v, AList.delete k v}")
  case False
  then obtain tr where tr: "map_of v k = Some (SegDir tr)" "snd (os_remove io k p v) = AList.update k (SegDir (AList.delete p tr)) v"
    by (auto simp: os_remove_def split: if_splits sum.splits option.splits segment.splits)
  have "tree_bytes (AList.delete p tr) \<le> tree_bytes tr"
    unfolding tree_bytes_def by (rule sum_delete) (simp add: node_size_def split: node.splits)
  moreover have "length (AList.delete p tr) \<le> length tr" by (simp add: length_delete_le)
  ultimately show ?thesis using pool_update_used [OF assms, of "SegDir (AList.delete p tr)" v] tr by (simp add: seg_of_dir)
qed (use pool_delete_used [of st tenant user k v] in auto)

section \<open>The quota\<close>

definition signs_sidecar :: "WsStore \<Rightarrow> ws_op \<Rightarrow> int" where
  "signs_sidecar st op =
     (case op of
        OpWrite rel data \<Rightarrow> (case resolve rel of Inr p \<Rightarrow> if is_session p \<and> signingEnabled st then 1 else 0 | Inl _ \<Rightarrow> 0)
      | _ \<Rightarrow> 0)"

lemma checkQuota_None:
  assumes "checkQuota st io tenant user p n vol = None"
  shows "0 < st_quotaBytes st \<Longrightarrow> pool_bytes st tenant user vol + net_size vol (seg_key st tenant user) p n \<le> st_quotaBytes st"
    "0 < st_quotaEntries st \<Longrightarrow> pool_entries st tenant user vol + newEntries vol (seg_key st tenant user) p \<le> st_quotaEntries st"
  using assms by (auto simp: checkQuota_def pool_bytes_def pool_entries_def Let_def split: if_splits)

text \<open>The sidecar of a record that was just written.\<close>

lemma sidecar_use:
  assumes wf: "wf_volume vol" and k: "k = seg_key st tenant user" and mac: "mac_length st"
    and w: "writeAtClean io k p data vol = (Inr info, vol1)" and p: "p \<noteq> []"
    and v2: "writeAtClean io k (sig_path p) (Store_sign st k p data) vol1 = (r, vol2)"
  shows "pool_bytes st tenant user vol2 \<le> pool_bytes st tenant user vol1 + 64 \<and> pool_entries st tenant user vol2 \<le> pool_entries st tenant user vol1 + 1"
proof -
  have wf1: "wf_volume vol1" using write_wf [OF wf, of io k p data] w by simp
  have "lstat vol1 k p = Inr (NFile data)" using lstat_file_at [OF wf1 write_ok(1) [OF w]] .
  then obtain tr where tr: "map_of vol1 k = Some (SegDir tr)" "map_of tr p = Some (NFile data)" using p by (rule lstat_ok)
  have we: "wf_entry tr p" using wf_volume_seg [OF wf1 tr(1)] wf_tree_entry [OF _ tr(2)] by simp
  have "missing (seg_of vol1 k) (mkdir_paths (sig_path p)) \<le> 1"
  proof -
    have "filter (\<lambda>q. map_of tr q = None) (parents p) = []" using we by (auto simp: wf_entry_def list_all_iff filter_empty_conv)
    then show ?thesis using tr(1) p by (simp add: missing_def seg_of_dir mkdir_paths_parents)
  qed
  moreover have "net_size vol1 k (sig_path p) n \<le> n" for n by (auto simp: net_size_def split: sum.splits node.splits)
  moreover have "int (length (Store_sign st k p data)) = 64" using mac by (simp add: mac_length_def Store_sign_def signSegs_def)
  ultimately have "net_size vol1 k (sig_path p) (int (length (Store_sign st k p data))) \<le> 64" "int (missing (seg_of vol1 k) (mkdir_paths (sig_path p))) \<le> 1"
    by (metis, simp)
  then show ?thesis using write_use [OF wf1 k v2] by auto
qed

lemma Write_quota:
  assumes wf: "wf_volume vol" and mac: "mac_length st"
  shows "(0 < st_quotaBytes st \<longrightarrow> pool_bytes st tenant user (ws_exec st io tenant user (OpWrite rel data) vol)
        \<le> max (pool_bytes st tenant user vol) (st_quotaBytes st + 64 * signs_sidecar st (OpWrite rel data)))
    \<and> (0 < st_quotaEntries st \<longrightarrow> pool_entries st tenant user (ws_exec st io tenant user (OpWrite rel data) vol)
        \<le> max (pool_entries st tenant user vol) (st_quotaEntries st + signs_sidecar st (OpWrite rel data)))"
    (is "?P (ws_exec st io tenant user (OpWrite rel data) vol)")
proof -
  let ?k = "seg_key st tenant user" and ?v = "snd (Store_Write st io tenant user rel data vol)"
  let ?B = "pool_bytes st tenant user" and ?E = "pool_entries st tenant user"
  have "?P ?v"
  proof (cases "\<exists>p. resolve rel = Inr p \<and> checkQuota st io tenant user p (int (length data)) vol = None")
    case True
    then obtain p where p: "resolve rel = Inr p" and q: "checkQuota st io tenant user p (int (length data)) vol = None" by blast
    obtain r1 v1 where w1: "writeAtClean io ?k p data vol = (r1, v1)" by (cases "writeAtClean io ?k p data vol")
    obtain r2 v2 where w2: "writeAtClean io ?k (sig_path p) (Store_sign st ?k p data) v1 = (r2, v2)"
      by (cases "writeAtClean io ?k (sig_path p) (Store_sign st ?k p data) v1")
    note u = write_use [OF wf refl [of ?k] w1]
    have b1: "0 < st_quotaBytes st \<Longrightarrow> ?B v1 \<le> max (?B vol) (st_quotaBytes st)"
      "0 < st_quotaBytes st \<Longrightarrow> is_ok r1 \<Longrightarrow> p \<noteq> [] \<Longrightarrow> ?B v1 \<le> st_quotaBytes st"
      using u(1) checkQuota_None(1) [OF q] by auto
    have e1: "0 < st_quotaEntries st \<Longrightarrow> ?E v1 \<le> st_quotaEntries st"
      using u(2) checkQuota_None(2) [OF q] newEntries_missing [OF wf, of ?k p] by linarith
    have s: "signs_sidecar st (OpWrite rel data) = (if is_session p \<and> signingEnabled st then 1 else 0)" by (simp add: signs_sidecar_def p)
    have ne: "is_session p \<Longrightarrow> p \<noteq> []" by (auto simp: is_session_def)
    have b2: "?B v2 \<le> ?B v1 + 64 \<and> ?E v2 \<le> ?E v1 + 1" if "is_session p" "r1 = Inr info" for info
      using sidecar_use [OF wf refl [of ?k] mac, of io p data info v1 r2 v2] that w1 w2 ne by simp
    have v: "?v \<in> {vol, v1} \<or> is_session p \<and> signingEnabled st \<and> is_ok r1 \<and> ?v = v2"
      using p q w1 w2 by (simp add: Store_Write_def Let_def split: sum.splits)
    have nn: "0 \<le> signs_sidecar st (OpWrite rel data)" by (simp add: s)
    have P1: "?P v1" using b1(1) e1 nn by auto
    have P2: "?P v2" if "is_session p" "signingEnabled st" "is_ok r1"
    proof -
      from that(3) obtain info where "r1 = Inr info" by (rule is_okE)
      then have "?B v2 \<le> ?B v1 + 64 \<and> ?E v2 \<le> ?E v1 + 1" using b2 that(1) by blast
      then show ?thesis using b1(2) [OF _ that(3) ne [OF that(1)]] e1 that s by auto
    qed
    show ?thesis using v P1 P2 by auto
  qed (auto simp: Store_Write_def Let_def split: sum.splits option.splits)
  then show ?thesis by (simp add: ws_exec_def)
qed

lemma Mkdir_quota:
  assumes wf: "wf_volume vol"
  shows "pool_bytes st tenant user (ws_exec st io tenant user (OpMkdir rel) vol) = pool_bytes st tenant user vol"
    "0 < st_quotaEntries st \<Longrightarrow> pool_entries st tenant user (ws_exec st io tenant user (OpMkdir rel) vol)
        \<le> max (pool_entries st tenant user vol) (st_quotaEntries st)"
proof -
  let ?k = "seg_key st tenant user" and ?v = "snd (Store_Mkdir st io tenant user rel vol)"
  have "?v = vol \<or> (\<exists>p ok. checkQuota st io tenant user p 0 vol = None \<and> mkdirAll io ?k (mkdir_paths p) vol = (ok, ?v))"
    by (auto simp: Store_Mkdir_def Let_def split: sum.splits option.splits prod.splits)
  then have "pool_bytes st tenant user ?v = pool_bytes st tenant user vol
      \<and> (0 < st_quotaEntries st \<longrightarrow> pool_entries st tenant user ?v \<le> max (pool_entries st tenant user vol) (st_quotaEntries st))"
  proof (elim disjE exE conjE)
    fix p ok assume q: "checkQuota st io tenant user p 0 vol = None" and m: "mkdirAll io ?k (mkdir_paths p) vol = (ok, ?v)"
    have "pool_entries st tenant user ?v \<le> st_quotaEntries st" if "0 < st_quotaEntries st"
      using mkdirAll_use(2) [OF m refl] checkQuota_None(2) [OF q that] newEntries_missing [OF wf, of ?k p] by linarith
    then show ?thesis using mkdirAll_use(1) [OF m refl] by auto
  qed simp
  then show "pool_bytes st tenant user (ws_exec st io tenant user (OpMkdir rel) vol) = pool_bytes st tenant user vol"
    "0 < st_quotaEntries st \<Longrightarrow> pool_entries st tenant user (ws_exec st io tenant user (OpMkdir rel) vol)
        \<le> max (pool_entries st tenant user vol) (st_quotaEntries st)" by (auto simp: ws_exec_def)
qed

lemma Delete_quota:
  "pool_bytes st tenant user (ws_exec st io tenant user (OpDelete rel) vol) \<le> pool_bytes st tenant user vol
   \<and> pool_entries st tenant user (ws_exec st io tenant user (OpDelete rel) vol) \<le> pool_entries st tenant user vol"
proof -
  let ?k = "seg_key st tenant user" and ?v = "snd (Store_Delete st io tenant user rel vol)"
  show ?thesis
  proof (cases "resolve rel")
    case (Inr p)
    obtain ok v1 where r: "os_remove io ?k p vol = (ok, v1)" by (cases "os_remove io ?k p vol")
    have "?v = vol \<or> ?v = v1 \<or> ?v = snd (os_remove io ?k (sig_path p) v1)"
      using Inr r by (simp add: Store_Delete_def Let_def split: sum.splits node.splits bool.splits)
    moreover have "pool_bytes st tenant user v1 \<le> pool_bytes st tenant user vol \<and> pool_entries st tenant user v1 \<le> pool_entries st tenant user vol"
      using remove_use [OF refl, of st tenant user io p vol] r by simp
    ultimately show ?thesis using remove_use [OF refl, of st tenant user io "sig_path p" v1] by (auto simp: ws_exec_def)
  qed (simp add: ws_exec_def Store_Delete_def)
qed


definition ex_full :: volume where
  "ex_full = [((''t1'', ''ann''), SegDir (map (\<lambda>n. ([''f'' @ nat_digits n], NFile ''x'')) [0..<20]))]"


text \<open>Moving is not charged: the directories it makes go past a full quota.\<close>

lemma move_escapes_the_quota:
  "pool_entries ex_ws_store ''t1'' ''ann'' ex_full = 20
   \<and> fst (Store_Mkdir ex_ws_store ex_ws_io ''t1'' ''ann'' ''a'' ex_full) = Inl ErrQuota
   \<and> pool_entries ex_ws_store ''t1'' ''ann'' (ws_exec ex_ws_store ex_ws_io ''t1'' ''ann'' (OpMove ''f0'' ''a/b/c/f0'') ex_full) = 23"
  by code_simp

end
