(* ===== verification/WorkspaceRpc.thy ===== *)
theory WorkspaceRpc
  imports WorkspaceSafety ApprovalSvc
begin

text \<open>
  workspacefs/router.go, which sends each operation to the local store or to the remote drive a
  user has chosen, and the file RPCs of broker/files.go on top of it.  The remote drive is a
  parameter, as are the lookup of the preference and the detection of MIME types; the refresh of
  the drive's token before a remote call is left out.
\<close>

section \<open>The router (router.go)\<close>

definition KindLocal :: string where "KindLocal = ''local''"
definition KindOneDrive :: string where "KindOneDrive = ''onedrive''"

record 'r Backend =
  be_ListDir :: "string \<Rightarrow> string \<Rightarrow> string \<Rightarrow> bool \<Rightarrow> 'r \<Rightarrow> (ws_error, FileInfo list \<times> bool) result"
  be_Read :: "string \<Rightarrow> string \<Rightarrow> string \<Rightarrow> 'r \<Rightarrow> (ws_error, string) result"
  be_Write :: "string \<Rightarrow> string \<Rightarrow> string \<Rightarrow> string \<Rightarrow> 'r \<Rightarrow> (ws_error, FileInfo) result \<times> 'r"
  be_Delete :: "string \<Rightarrow> string \<Rightarrow> string \<Rightarrow> 'r \<Rightarrow> (ws_error, unit) result \<times> 'r"
  be_Move :: "string \<Rightarrow> string \<Rightarrow> string \<Rightarrow> string \<Rightarrow> 'r \<Rightarrow> (ws_error, FileInfo) result \<times> 'r"
  be_Mkdir :: "string \<Rightarrow> string \<Rightarrow> string \<Rightarrow> 'r \<Rightarrow> (ws_error, unit) result \<times> 'r"

record 'r Router =
  rt_Local :: WsStore
  rt_Io :: Io
  rt_Remote :: "'r Backend option"
  rt_Prefs :: "(string \<Rightarrow> string \<Rightarrow> (unit, string) result) option"

record 'r Drives =
  dr_Local :: volume
  dr_Remote :: 'r

definition isReserved :: "string \<Rightarrow> bool" where
  "isReserved cleanRel = (ToLowerAscii (firstSegment cleanRel) \<in> {''.agent'', ''config'', ''references'', ''skills''})"

definition activeBackend :: "'r Router \<Rightarrow> string \<Rightarrow> string \<Rightarrow> (ws_error, string) result" where
  "activeBackend r tenant user =
     (case rt_Prefs r of
        None \<Rightarrow> Inr KindLocal
      | Some prefs \<Rightarrow>
          (case prefs tenant user of
             Inl _ \<Rightarrow> Inl ErrUnavailable
           | Inr kind \<Rightarrow> if kind = KindOneDrive \<and> rt_Remote r = None then Inl ErrUnavailable else Inr kind))"

definition Router_route :: "'r Router \<Rightarrow> string \<Rightarrow> string \<Rightarrow> string \<Rightarrow> (ws_error, string) result" where
  "Router_route r tenant user rel =
     bindE (CleanRel rel) (\<lambda>clean. if isReserved clean then Inr KindLocal else activeBackend r tenant user)"

definition ActiveKind :: "'r Router \<Rightarrow> string \<Rightarrow> string \<Rightarrow> string \<Rightarrow> (ws_error, string) result" where
  "ActiveKind r tenant user rel =
     (if rel = [] \<or> rel = ''.'' then activeBackend r tenant user else Router_route r tenant user rel)"

text \<open>The remote drive an operation goes to, if it goes to one.\<close>

definition to_remote :: "'r Router \<Rightarrow> string \<Rightarrow> 'r Backend option" where
  "to_remote r kind = (if kind = KindOneDrive then rt_Remote r else None)"

definition reservedEntries :: "'r Router \<Rightarrow> string \<Rightarrow> string \<Rightarrow> bool \<Rightarrow> volume \<Rightarrow> FileInfo list" where
  "reservedEntries r tenant user recursive vol =
     (case ListDir (rt_Local r) (rt_Io r) tenant user [] recursive vol of
        Inr (entries, False) \<Rightarrow> filter (\<lambda>fi. isReserved (fi_Path fi)) entries
      | _ \<Rightarrow> [])"

text \<open>A listing the drive cut short comes back empty.\<close>

definition Router_ListDir :: "'r Router \<Rightarrow> string \<Rightarrow> string \<Rightarrow> string \<Rightarrow> bool \<Rightarrow> 'r Drives \<Rightarrow> (ws_error, FileInfo list \<times> bool) result" where
  "Router_ListDir r tenant user dir recursive w =
     bindE (ActiveKind r tenant user dir) (\<lambda>kind.
       case to_remote r kind of
         None \<Rightarrow> ListDir (rt_Local r) (rt_Io r) tenant user dir recursive (dr_Local w)
       | Some be \<Rightarrow>
           bindE (be_ListDir be tenant user dir recursive (dr_Remote w)) (\<lambda>(remote, cut).
             if cut then Inr ([], True)
             else if dir \<noteq> [] \<and> dir \<noteq> ''.'' then Inr (remote, False)
             else Inr (filter (\<lambda>fi. \<not> isReserved (fi_Path fi)) remote @ reservedEntries r tenant user recursive (dr_Local w), False)))"

definition Router_ReadVerified :: "'r Router \<Rightarrow> string \<Rightarrow> string \<Rightarrow> string \<Rightarrow> 'r Drives \<Rightarrow> (ws_error, string \<times> bool) result" where
  "Router_ReadVerified r tenant user rel w =
     bindE (Router_route r tenant user rel) (\<lambda>kind.
       case to_remote r kind of
         None \<Rightarrow> readAndVerify (rt_Local r) (rt_Io r) tenant user rel (dr_Local w)
       | Some be \<Rightarrow> bindE (be_Read be tenant user rel (dr_Remote w)) (\<lambda>data. Inr (data, False)))"

definition Router_Read :: "'r Router \<Rightarrow> string \<Rightarrow> string \<Rightarrow> string \<Rightarrow> 'r Drives \<Rightarrow> (ws_error, string) result" where
  "Router_Read r tenant user rel w =
     bindE (Router_route r tenant user rel) (\<lambda>kind.
       case to_remote r kind of
         None \<Rightarrow> Store_Read (rt_Local r) (rt_Io r) tenant user rel (dr_Local w)
       | Some be \<Rightarrow> be_Read be tenant user rel (dr_Remote w))"

text \<open>An operation on the local store or on the drive.\<close>

definition on_local :: "(volume \<Rightarrow> (ws_error, 'a) result \<times> volume) \<Rightarrow> 'r Drives \<Rightarrow> (ws_error, 'a) result \<times> 'r Drives" where
  "on_local f w = (case f (dr_Local w) of (res, vol) \<Rightarrow> (res, w\<lparr>dr_Local := vol\<rparr>))"

definition on_remote :: "('r \<Rightarrow> (ws_error, 'a) result \<times> 'r) \<Rightarrow> 'r Drives \<Rightarrow> (ws_error, 'a) result \<times> 'r Drives" where
  "on_remote f w = (case f (dr_Remote w) of (res, rs) \<Rightarrow> (res, w\<lparr>dr_Remote := rs\<rparr>))"

definition Router_Write :: "'r Router \<Rightarrow> string \<Rightarrow> string \<Rightarrow> string \<Rightarrow> string \<Rightarrow> 'r Drives \<Rightarrow> (ws_error, FileInfo) result \<times> 'r Drives" where
  "Router_Write r tenant user rel data w =
     (case Router_route r tenant user rel of
        Inl e \<Rightarrow> (Inl e, w)
      | Inr kind \<Rightarrow>
          (case to_remote r kind of
             None \<Rightarrow> on_local (Store_Write (rt_Local r) (rt_Io r) tenant user rel data) w
           | Some be \<Rightarrow> on_remote (be_Write be tenant user rel data) w))"

definition Router_Delete :: "'r Router \<Rightarrow> string \<Rightarrow> string \<Rightarrow> string \<Rightarrow> 'r Drives \<Rightarrow> (ws_error, unit) result \<times> 'r Drives" where
  "Router_Delete r tenant user rel w =
     (case Router_route r tenant user rel of
        Inl e \<Rightarrow> (Inl e, w)
      | Inr kind \<Rightarrow>
          (case to_remote r kind of
             None \<Rightarrow> on_local (Store_Delete (rt_Local r) (rt_Io r) tenant user rel) w
           | Some be \<Rightarrow> on_remote (be_Delete be tenant user rel) w))"

definition Router_Mkdir :: "'r Router \<Rightarrow> string \<Rightarrow> string \<Rightarrow> string \<Rightarrow> 'r Drives \<Rightarrow> (ws_error, unit) result \<times> 'r Drives" where
  "Router_Mkdir r tenant user rel w =
     (case Router_route r tenant user rel of
        Inl e \<Rightarrow> (Inl e, w)
      | Inr kind \<Rightarrow>
          (case to_remote r kind of
             None \<Rightarrow> on_local (Store_Mkdir (rt_Local r) (rt_Io r) tenant user rel) w
           | Some be \<Rightarrow> on_remote (be_Mkdir be tenant user rel) w))"

definition Router_Move :: "'r Router \<Rightarrow> string \<Rightarrow> string \<Rightarrow> string \<Rightarrow> string \<Rightarrow> 'r Drives \<Rightarrow> (ws_error, FileInfo) result \<times> 'r Drives" where
  "Router_Move r tenant user frm to w =
     (case bindE (CleanRel frm) (\<lambda>a. bindE (CleanRel to) (\<lambda>b. Inr (a, b))) of
        Inl e \<Rightarrow> (Inl e, w)
      | Inr (fromClean, toClean) \<Rightarrow>
          (let loc = on_local (Store_Move (rt_Local r) (rt_Io r) tenant user frm to) in
           if isReserved fromClean \<and> isReserved toClean then loc w
           else case activeBackend r tenant user of
             Inl e \<Rightarrow> (Inl e, w)
           | Inr kind \<Rightarrow>
               (case to_remote r kind of
                  None \<Rightarrow> loc w
                | Some be \<Rightarrow>
                    if isReserved fromClean \<noteq> isReserved toClean then (Inl ErrInvalidPath, w)
                    else on_remote (be_Move be tenant user frm to) w)))"

section \<open>The file RPCs (files.go)\<close>

record 'r FileDeps =
  fd_enabled :: bool
  fd_uuid_ok :: "string \<Rightarrow> bool"
  fd_Router :: "'r Router"
  fd_mime :: "string \<Rightarrow> string \<Rightarrow> string"

definition agentDirGuard :: "string \<Rightarrow> rpc_error option" where
  "agentDirGuard rel =
     (if \<not> UnderAgentDir rel \<or> UnderSessionsDir rel then None
      else Some (Status PermissionDenied '' is under .agent/: the server-maintained tree is not writable through the file API''))"

definition fileError :: "string \<Rightarrow> ws_error \<Rightarrow> rpc_error" where
  "fileError verb err =
     (case err of
        ErrQuota \<Rightarrow> Status ResourceExhausted []
      | ErrInvalidPath \<Rightarrow> Status InvalidArgument []
      | ErrTooLarge \<Rightarrow> Status InvalidArgument []
      | ErrExists \<Rightarrow> Status AlreadyExists []
      | ErrNotEmpty \<Rightarrow> Status FailedPrecondition []
      | ErrIntegrityMismatch \<Rightarrow> Status FailedPrecondition []
      | ErrUnavailable \<Rightarrow> Status Unavailable ''workspacefs: backend temporarily unavailable''
      | ErrReconnectRequired \<Rightarrow> Status FailedPrecondition ''workspacefs: reconnect_needed, remote backend credential is stale''
      | ErrForbidden \<Rightarrow> Status PermissionDenied ''workspacefs: forbidden''
      | ErrNotExist \<Rightarrow> Status NotFound ''file not found''
      | _ \<Rightarrow> Status Internal (verb @ '' failed''))"

definition file_event :: "string \<Rightarrow> string \<Rightarrow> string \<Rightarrow> string \<Rightarrow> AuditPolicyDecision \<Rightarrow> AuditEvent" where
  "file_event tenant actor etype path dec =
     \<lparr>ev_Type = etype, ev_TenantID = tenant, ev_ActorUserID = actor,
      ev_ResourceRef = (if path = [] then [] else ''workspace_file:'' @ path), ev_Decision = dec, ev_Reason = []\<rparr>"

definition file_caller :: "'r FileDeps \<Rightarrow> string \<Rightarrow> Identity option \<Rightarrow> string \<Rightarrow> string \<Rightarrow> (rpc_error, string \<times> string) result" where
  "file_caller d disabled ident reqTenant reqUser =
     (if \<not> fd_enabled d then Inl (Status FailedPrecondition disabled)
      else callerIdentity (fd_uuid_ok d) ident reqTenant reqUser)"

definition disabled_msg :: string where "disabled_msg = ''workspace files disabled''"

definition ListWorkspaceFiles :: "'r FileDeps \<Rightarrow> Identity option \<Rightarrow> string \<Rightarrow> string \<Rightarrow> string \<Rightarrow> bool \<Rightarrow> 'r Drives
  \<Rightarrow> (rpc_error, FileInfo list \<times> bool) result \<times> AuditEvent list" where
  "ListWorkspaceFiles d ident reqTenant reqUser path recursive w =
     (case file_caller d ''workspace files disabled (no workspace root configured)'' ident reqTenant reqUser of
        Inl e \<Rightarrow> (Inl e, [])
      | Inr (tenant, user) \<Rightarrow>
          (case (if path \<noteq> [] then Router_ListDir (fd_Router d) tenant user path recursive w
                 else Router_ListDir (fd_Router d) tenant user [] True w) of
             Inl e \<Rightarrow> (Inl (fileError ''list'' e), [])
           | Inr files \<Rightarrow> (Inr files, [file_event tenant user ''aikonos.workspace.file.listed'' [] ALLOW])))"

definition ReadWorkspaceFile :: "'r FileDeps \<Rightarrow> Identity option \<Rightarrow> string \<Rightarrow> string \<Rightarrow> string \<Rightarrow> 'r Drives
  \<Rightarrow> (rpc_error, string \<times> string) result \<times> AuditEvent list" where
  "ReadWorkspaceFile d ident reqTenant reqUser path w =
     (case file_caller d disabled_msg ident reqTenant reqUser of
        Inl e \<Rightarrow> (Inl e, [])
      | Inr (tenant, user) \<Rightarrow>
          (case Router_ReadVerified (fd_Router d) tenant user path w of
             Inl e \<Rightarrow>
               (Inl (fileError ''read'' e),
                if e = ErrIntegrityMismatch
                then [file_event tenant user ''aikonos.workspace.session.integrity_failed'' path DENY] else [])
           | Inr (data, legacy) \<Rightarrow>
               (Inr (fd_mime d path data, data), [file_event tenant user ''aikonos.workspace.file.read'' path ALLOW])))"

definition UploadWorkspaceFile :: "'r FileDeps \<Rightarrow> Identity option \<Rightarrow> string \<Rightarrow> string \<Rightarrow> string \<Rightarrow> string \<Rightarrow> 'r Drives
  \<Rightarrow> (rpc_error, FileInfo) result \<times> AuditEvent list \<times> 'r Drives" where
  "UploadWorkspaceFile d ident reqTenant reqUser path content w =
     (case file_caller d disabled_msg ident reqTenant reqUser of
        Inl e \<Rightarrow> (Inl e, [], w)
      | Inr (tenant, user) \<Rightarrow>
          (case agentDirGuard path of
             Some e \<Rightarrow> (Inl e, [], w)
           | None \<Rightarrow>
               (case Router_Write (fd_Router d) tenant user path content w of
                  (Inl e, w1) \<Rightarrow> (Inl (fileError ''upload'' e), [], w1)
                | (Inr info, w1) \<Rightarrow> (Inr info, [file_event tenant user ''aikonos.workspace.file.uploaded'' (fi_Path info) ALLOW], w1))))"

definition DeleteWorkspaceFile :: "'r FileDeps \<Rightarrow> Identity option \<Rightarrow> string \<Rightarrow> string \<Rightarrow> string \<Rightarrow> 'r Drives
  \<Rightarrow> (rpc_error, unit) result \<times> AuditEvent list \<times> 'r Drives" where
  "DeleteWorkspaceFile d ident reqTenant reqUser path w =
     (case file_caller d disabled_msg ident reqTenant reqUser of
        Inl e \<Rightarrow> (Inl e, [], w)
      | Inr (tenant, user) \<Rightarrow>
          (case agentDirGuard path of
             Some e \<Rightarrow> (Inl e, [], w)
           | None \<Rightarrow>
               (case Router_Delete (fd_Router d) tenant user path w of
                  (Inl e, w1) \<Rightarrow> (Inl (fileError ''delete'' e), [], w1)
                | (Inr u, w1) \<Rightarrow> (Inr (), [file_event tenant user ''aikonos.workspace.file.deleted'' path ALLOW], w1))))"

definition MoveWorkspaceFile :: "'r FileDeps \<Rightarrow> Identity option \<Rightarrow> string \<Rightarrow> string \<Rightarrow> string \<Rightarrow> string \<Rightarrow> 'r Drives
  \<Rightarrow> (rpc_error, FileInfo) result \<times> AuditEvent list \<times> 'r Drives" where
  "MoveWorkspaceFile d ident reqTenant reqUser fromPath toPath w =
     (case file_caller d disabled_msg ident reqTenant reqUser of
        Inl e \<Rightarrow> (Inl e, [], w)
      | Inr (tenant, user) \<Rightarrow>
          (case agentDirGuard fromPath of
             Some e \<Rightarrow> (Inl e, [], w)
           | None \<Rightarrow>
               (case agentDirGuard toPath of
                  Some e \<Rightarrow> (Inl e, [], w)
                | None \<Rightarrow>
                    (case Router_Move (fd_Router d) tenant user fromPath toPath w of
                       (Inl e, w1) \<Rightarrow> (Inl (fileError ''move'' e), [], w1)
                     | (Inr info, w1) \<Rightarrow> (Inr info, [file_event tenant user ''aikonos.workspace.file.moved'' (fi_Path info) ALLOW], w1)))))"

definition CreateWorkspaceDir :: "'r FileDeps \<Rightarrow> Identity option \<Rightarrow> string \<Rightarrow> string \<Rightarrow> string \<Rightarrow> 'r Drives
  \<Rightarrow> (rpc_error, unit) result \<times> AuditEvent list \<times> 'r Drives" where
  "CreateWorkspaceDir d ident reqTenant reqUser path w =
     (case file_caller d disabled_msg ident reqTenant reqUser of
        Inl e \<Rightarrow> (Inl e, [], w)
      | Inr (tenant, user) \<Rightarrow>
          (case agentDirGuard path of
             Some e \<Rightarrow> (Inl e, [], w)
           | None \<Rightarrow>
               (case Router_Mkdir (fd_Router d) tenant user path w of
                  (Inl e, w1) \<Rightarrow> (Inl (fileError ''mkdir'' e), [], w1)
                | (Inr u, w1) \<Rightarrow> (Inr (), [file_event tenant user ''aikonos.workspace.dir.created'' path ALLOW], w1))))"

end
