(* ===== verification/WorkspaceGuard.thy ===== *)
theory WorkspaceGuard
  imports WorkspaceRpc
begin

text \<open>What the file RPCs cannot do: change what the server keeps under .agent/, or send a reserved path to a remote drive.\<close>

declare split_paired_All [simp del] split_paired_Ex [simp del]

section \<open>Protected files\<close>

text \<open>
  A file below .agent/, in any case, other than the session records; the file named Sessions.sig
  beside them is not protected.
\<close>

definition protected :: "fpath \<Rightarrow> bool" where
  "protected p \<longleftrightarrow>
     2 \<le> length p \<and> ToLowerAscii (hd p) = ''.agent'' \<and> take 2 p \<noteq> [''.agent'', ''Sessions''] \<and> p \<noteq> [''.agent'', ''Sessions.sig'']"

definition writable :: "fpath \<Rightarrow> bool" where
  "writable p \<longleftrightarrow> p = [] \<or> ToLowerAscii (hd p) \<noteq> ''.agent'' \<or> take 2 p = [''.agent'', ''Sessions'']"

lemma writable_not_protected: "writable p \<Longrightarrow> \<not> protected p"
  by (auto simp: writable_def protected_def)

lemma writable_subtree: "writable p \<Longrightarrow> p \<noteq> [] \<Longrightarrow> \<not> protected (p @ x)"
proof -
  assume w: "writable p" "p \<noteq> []"
  then consider "ToLowerAscii (hd p) \<noteq> ''.agent''" | "take 2 p = [''.agent'', ''Sessions'']" by (auto simp: writable_def)
  then show ?thesis
  proof cases
    case 2
    then have "take 2 (p @ x) = [''.agent'', ''Sessions'']" by (cases p; cases "tl p") auto
    then show ?thesis by (simp add: protected_def)
  qed (use w in \<open>simp add: protected_def\<close>)
qed

lemma writable_sig: "writable p \<Longrightarrow> \<not> protected (sig_path p)"
proof (cases "2 \<le> length p")
  case True
  then obtain a b c where p: "p = a # b # c" by (cases p; cases "tl p") auto
  assume w: "writable p"
  show ?thesis
  proof (cases "c = []")
    case True
    then show ?thesis using w p by (auto simp: writable_def protected_def sig_path_def sigSuffix_def)
  next
    case False
    then have "sig_path p = a # b # (butlast c @ [last c @ sigSuffix])" using p by (simp add: sig_path_def)
    then show ?thesis using w p by (auto simp: writable_def protected_def)
  qed
next
  case False
  then have "length (sig_path p) \<le> 1" by (simp add: sig_path_def)
  then show ?thesis by (simp add: protected_def)
qed

section \<open>The guard\<close>

lemma ToLowerAscii_append: "ToLowerAscii (a @ CHR ''/'' # r) = ToLowerAscii a @ CHR ''/'' # ToLowerAscii r"
proof (induction a rule: ToLowerAscii.induct)
  case (1 a b s)
  then show ?case by (cases s) (auto simp: byte_of_def)
qed (cases r; auto simp: byte_of_def ToLower_def lower_char_def)+

lemma Split_hd:
  obtains "Split s c = [s]" "c \<notin> set s" | b where "s = hd (Split s c) @ c # b" "c \<notin> set (hd (Split s c))" "Split s c = hd (Split s c) # Split b c"
proof (cases "c \<in> set s")
  case True
  then obtain a b where s: "s = a @ c # b" "c \<notin> set a" by (meson split_list_first)
  then have "Split s c = a # Split b c" by (simp add: Split_append)
  then show ?thesis using that(2) [of b] s by simp
qed (use that(1) Split_no_sep in auto)

lemma under_agent_names:
  assumes "\<not> UnderAgentDir rel" "resolve rel = Inr p"
  shows "p = [] \<or> ToLowerAscii (hd p) \<noteq> ''.agent''"
proof -
  from assms(2) obtain clean where c: "CleanRel rel = Inr clean" "p = path_names clean"
    by (auto simp: resolve_def bindE_eq_Inr split: if_splits)
  have n: "ToLowerAscii clean \<noteq> ''.agent''" "\<not> HasPrefix (ToLowerAscii clean) ''.agent/''"
    using assms(1) c(1) by (auto simp: UnderAgentDir_def guardClean_def Let_def)
  show ?thesis
  proof (cases "clean = ''.''")
    case False
    then have p: "p = Split clean (CHR ''/'')" using c(2) by (simp add: path_names_def)
    show ?thesis
    proof (rule Split_hd [of clean "CHR ''/''"])
      assume "Split clean (CHR ''/'') = [clean]"
      then show ?thesis using p n(1) by simp
    next
      fix b assume "clean = hd (Split clean (CHR ''/'')) @ CHR ''/'' # b"
      then have "ToLowerAscii clean = ToLowerAscii (hd p) @ CHR ''/'' # ToLowerAscii b" using p ToLowerAscii_append by metis
      then show ?thesis using n(2) by (auto simp: HasPrefix_def)
    qed
  qed (use c(2) in \<open>simp add: path_names_def\<close>)
qed

lemma under_sessions_names:
  assumes "UnderSessionsDir rel" "resolve rel = Inr p"
  shows "take 2 p = [''.agent'', ''Sessions'']"
proof -
  from assms(2) obtain clean where c: "CleanRel rel = Inr clean" "p = path_names clean"
    by (auto simp: resolve_def bindE_eq_Inr split: if_splits)
  have "clean = ''.agent/Sessions'' \<or> HasPrefix clean ''.agent/Sessions/''"
    using assms(1) c(1) by (auto simp: UnderSessionsDir_def guardClean_def)
  then consider "clean = ''.agent/Sessions''" | r where "clean = ''.agent/Sessions/'' @ r"
    by (auto simp: HasPrefix_iff_prefix prefix_def)
  then show ?thesis
  proof cases
    case 1
    then show ?thesis using c(2) by (simp add: path_names_def)
  next
    case 2
    then show ?thesis using c(2) by (simp add: path_names_def)
  qed
qed

lemma guard_writable:
  assumes "agentDirGuard rel = None" "resolve rel = Inr p"
  shows "writable p"
  using assms under_agent_names under_sessions_names by (auto simp: agentDirGuard_def writable_def split: if_splits)

lemma guarded_admits:
  assumes "case op of OpWrite rel d \<Rightarrow> agentDirGuard rel = None | OpMkdir rel \<Rightarrow> agentDirGuard rel = None
    | OpDelete rel \<Rightarrow> agentDirGuard rel = None | OpMove frm to \<Rightarrow> agentDirGuard frm = None \<and> agentDirGuard to = None"
  shows "kept.admits st protected k vol op"
proof -
  have ok: "\<not> protected p" "\<not> protected (sig_path p)" "p = [] \<or> (\<forall>x. \<not> protected (p @ x))" if "agentDirGuard rel = None" "resolve rel = Inr p" for rel p
    using guard_writable [OF that] writable_not_protected writable_sig writable_subtree by blast+
  show ?thesis
  proof (cases op)
    case (OpMove frm to)
    then show ?thesis using assms ok unfolding kept.admits_def by simp blast
  qed (use assms ok in \<open>simp_all add: kept.admits_def\<close>)
qed

section \<open>The RPCs\<close>

datatype file_rpc = Upload string string | DeleteFile string | MoveFile string string | CreateDir string

definition file_rpc_exec :: "'r FileDeps \<Rightarrow> Identity option \<Rightarrow> string \<Rightarrow> string \<Rightarrow> file_rpc \<Rightarrow> 'r Drives \<Rightarrow> 'r Drives" where
  "file_rpc_exec d ident reqTenant reqUser rpc w =
     (case rpc of
        Upload path content \<Rightarrow> snd (snd (UploadWorkspaceFile d ident reqTenant reqUser path content w))
      | DeleteFile path \<Rightarrow> snd (snd (DeleteWorkspaceFile d ident reqTenant reqUser path w))
      | MoveFile frm to \<Rightarrow> snd (snd (MoveWorkspaceFile d ident reqTenant reqUser frm to w))
      | CreateDir path \<Rightarrow> snd (snd (CreateWorkspaceDir d ident reqTenant reqUser path w)))"

lemma on_local_world: "snd (on_local f w) = w\<lparr>dr_Local := snd (f (dr_Local w))\<rparr>"
  by (simp add: on_local_def split: prod.splits)

lemma on_remote_world: "dr_Local (snd (on_remote f w)) = dr_Local w"
  by (simp add: on_remote_def split: prod.splits)

text \<open>Each RPC leaves the volume as it was, or runs one guarded operation of the store for its caller.\<close>

definition local_effect :: "'r FileDeps \<Rightarrow> 'r Drives \<Rightarrow> 'r Drives \<Rightarrow> bool" where
  "local_effect d w w' \<longleftrightarrow>
     dr_Local w' = dr_Local w
     \<or> (\<exists>tenant user op. dr_Local w' = ws_exec (rt_Local (fd_Router d)) (rt_Io (fd_Router d)) tenant user op (dr_Local w)
          \<and> (case op of OpWrite rel x \<Rightarrow> agentDirGuard rel = None | OpMkdir rel \<Rightarrow> agentDirGuard rel = None
             | OpDelete rel \<Rightarrow> agentDirGuard rel = None | OpMove frm to \<Rightarrow> agentDirGuard frm = None \<and> agentDirGuard to = None))"

lemma local_effectI:
  assumes "snd (f (dr_Local w)) = ws_exec (rt_Local (fd_Router d)) (rt_Io (fd_Router d)) tenant user op (dr_Local w)"
    "case op of OpWrite rel x \<Rightarrow> agentDirGuard rel = None | OpMkdir rel \<Rightarrow> agentDirGuard rel = None
             | OpDelete rel \<Rightarrow> agentDirGuard rel = None | OpMove frm to \<Rightarrow> agentDirGuard frm = None \<and> agentDirGuard to = None"
  shows "local_effect d w (snd (on_local f w))"
  unfolding local_effect_def using assms by (intro disjI2 exI [of _ tenant] exI [of _ user] exI [of _ op]) (simp add: on_local_world)

lemma local_effect_refl: "local_effect d w w"
  by (simp add: local_effect_def)

lemma local_effect_remote: "local_effect d w (snd (on_remote f w))"
  by (simp add: local_effect_def on_remote_world)

lemma Upload_effect: "local_effect d w (snd (snd (UploadWorkspaceFile d ident rt ru path content w)))"
proof -
  have "local_effect d w (snd (Router_Write (fd_Router d) tenant user path content w))" if "agentDirGuard path = None" for tenant user
    using local_effectI [of "Store_Write (rt_Local (fd_Router d)) (rt_Io (fd_Router d)) tenant user path content" w d tenant user "OpWrite path content"] that
    by (auto simp: Router_Write_def ws_exec_def local_effect_refl local_effect_remote split: sum.splits option.splits)
  then show ?thesis by (auto simp: UploadWorkspaceFile_def local_effect_refl split: sum.splits prod.splits option.splits) (metis snd_conv)+
qed

lemma Delete_effect: "local_effect d w (snd (snd (DeleteWorkspaceFile d ident rt ru path w)))"
proof -
  have "local_effect d w (snd (Router_Delete (fd_Router d) tenant user path w))" if "agentDirGuard path = None" for tenant user
    using local_effectI [of "Store_Delete (rt_Local (fd_Router d)) (rt_Io (fd_Router d)) tenant user path" w d tenant user "OpDelete path"] that
    by (auto simp: Router_Delete_def ws_exec_def local_effect_refl local_effect_remote split: sum.splits option.splits)
  then show ?thesis by (auto simp: DeleteWorkspaceFile_def local_effect_refl split: sum.splits prod.splits option.splits) (metis snd_conv)+
qed

lemma Mkdir_effect: "local_effect d w (snd (snd (CreateWorkspaceDir d ident rt ru path w)))"
proof -
  have "local_effect d w (snd (Router_Mkdir (fd_Router d) tenant user path w))" if "agentDirGuard path = None" for tenant user
    using local_effectI [of "Store_Mkdir (rt_Local (fd_Router d)) (rt_Io (fd_Router d)) tenant user path" w d tenant user "OpMkdir path"] that
    by (auto simp: Router_Mkdir_def ws_exec_def local_effect_refl local_effect_remote split: sum.splits option.splits)
  then show ?thesis by (auto simp: CreateWorkspaceDir_def local_effect_refl split: sum.splits prod.splits option.splits) (metis snd_conv)+
qed

lemma Move_effect: "local_effect d w (snd (snd (MoveWorkspaceFile d ident rt ru frm to w)))"
proof -
  have "local_effect d w (snd (Router_Move (fd_Router d) tenant user frm to w))" if "agentDirGuard frm = None" "agentDirGuard to = None" for tenant user
    using local_effectI [of "Store_Move (rt_Local (fd_Router d)) (rt_Io (fd_Router d)) tenant user frm to" w d tenant user "OpMove frm to"] that
    by (auto simp: Router_Move_def ws_exec_def Let_def local_effect_refl local_effect_remote split: sum.splits option.splits)
  then show ?thesis by (auto simp: MoveWorkspaceFile_def local_effect_refl split: sum.splits prod.splits option.splits) (metis snd_conv)+
qed

lemma rpc_effect: "local_effect d w (file_rpc_exec d ident rt ru rpc w)"
  by (cases rpc) (simp_all add: file_rpc_exec_def Upload_effect Delete_effect Mkdir_effect Move_effect)


definition ex_drives :: "unit Drives" where
  "ex_drives = \<lparr>dr_Local = [((''t1'', ''ann''), SegDir [([''.agent''], NDir), ([''.agent'', ''Memory''], NDir),
     ([''.agent'', ''Memory'', ''m.md''], NFile ''verified''), ([''evil''], NFile ''forged'')])], dr_Remote = ()\<rparr>"

definition ex_file_deps :: "unit FileDeps" where
  "ex_file_deps = \<lparr>fd_enabled = True, fd_uuid_ok = (\<lambda>_. True),
     fd_Router = \<lparr>rt_Local = ex_ws_store, rt_Io = ex_ws_io, rt_Remote = None, rt_Prefs = None\<rparr>, fd_mime = (\<lambda>_ _. [])\<rparr>"


section \<open>Sessions stay on the local store\<close>

lemma session_reserved:
  assumes "resolve rel = Inr p" "is_session p"
  obtains clean where "CleanRel rel = Inr clean" "isReserved clean"
proof -
  from assms(1) obtain clean where c: "CleanRel rel = Inr clean" "p = path_names clean"
    by (auto simp: resolve_def bindE_eq_Inr split: if_splits)
  have ne: "clean \<noteq> ''.''" using assms(2) c(2) by (auto simp: path_names_def is_session_def)
  have "hd p = ''.agent''" using assms(2) by (cases p) (auto simp: is_session_def)
  then have hd: "hd (Split clean (CHR ''/'')) = ''.agent''" using c(2) ne by (simp add: path_names_def)
  have "firstSegment clean = hd (Split clean (CHR ''/''))"
  proof (rule Split_hd [of clean "CHR ''/''"])
    assume "Split clean (CHR ''/'') = [clean]" "CHR ''/'' \<notin> set clean"
    moreover from this(2) have "takeWhile (\<lambda>c. c \<noteq> CHR ''/'') clean = clean" by (auto intro: takeWhile_eq_all_conv [THEN iffD2])
    ultimately show ?thesis using ne by (simp add: firstSegment_def)
  next
    fix b assume b: "clean = hd (Split clean (CHR ''/'')) @ CHR ''/'' # b" "CHR ''/'' \<notin> set (hd (Split clean (CHR ''/'')))"
    have "takeWhile (\<lambda>c. c \<noteq> CHR ''/'') (hd (Split clean (CHR ''/'')) @ CHR ''/'' # b) = hd (Split clean (CHR ''/''))"
      using b(2) by (subst takeWhile_append2) auto
    then show ?thesis using b(1) ne by (simp add: firstSegment_def)
  qed
  then have "firstSegment clean = ''.agent''" using hd by simp
  moreover have "ToLowerAscii ''.agent'' = ''.agent''" by code_simp
  ultimately have "isReserved clean" by (simp add: isReserved_def)
  then show ?thesis using that c(1) by blast
qed

lemma sessions_stay_local:
  assumes "resolve rel = Inr p" "is_session p"
  shows "Router_ReadVerified r tenant user rel w = readAndVerify (rt_Local r) (rt_Io r) tenant user rel (dr_Local w)"
    "dr_Remote (snd (Router_Write r tenant user rel data w)) = dr_Remote w"
    "dr_Remote (snd (Router_Delete r tenant user rel w)) = dr_Remote w"
    "dr_Remote (snd (Router_Move r tenant user rel to w)) = dr_Remote w"
    "dr_Remote (snd (Router_Move r tenant user frm rel w)) = dr_Remote w"
proof -
  from assms obtain clean where c: "CleanRel rel = Inr clean" "isReserved clean" by (rule session_reserved)
  then have route: "Router_route r tenant user rel = Inr KindLocal" "to_remote r KindLocal = None"
    by (simp_all add: Router_route_def to_remote_def KindLocal_def KindOneDrive_def)
  show "Router_ReadVerified r tenant user rel w = readAndVerify (rt_Local r) (rt_Io r) tenant user rel (dr_Local w)"
    using route by (simp add: Router_ReadVerified_def)
  show "dr_Remote (snd (Router_Write r tenant user rel data w)) = dr_Remote w" "dr_Remote (snd (Router_Delete r tenant user rel w)) = dr_Remote w"
    using route by (simp_all add: Router_Write_def Router_Delete_def on_local_world)
  show "dr_Remote (snd (Router_Move r tenant user rel to w)) = dr_Remote w" "dr_Remote (snd (Router_Move r tenant user frm rel w)) = dr_Remote w"
    using c by (auto simp: Router_Move_def Let_def bindE_def on_local_world split: sum.splits option.splits)
qed

section \<open>Edges\<close>

text \<open>
  A move of an ordinary file to a new name silently removes the file of that name with .sig
  appended, which may be a detached signature of the user's own.
\<close>

lemma move_deletes_a_sig_file:
  "let v = [((''t1'', ''ann''), SegDir [([''draft.pdf''], NFile ''pdf''), ([''final.pdf.sig''], NFile ''signature'')])];
       v' = ws_exec ex_ws_store ex_ws_io ''t1'' ''ann'' (OpMove ''draft.pdf'' ''final.pdf'') v in
   fst (Store_Move ex_ws_store ex_ws_io ''t1'' ''ann'' ''draft.pdf'' ''final.pdf'' v)
     = Inr \<lparr>fi_Path = ''final.pdf'', fi_Size = 3, fi_IsDir = False\<rparr>
   \<and> file_at v (''t1'', ''ann'') [''final.pdf.sig''] = Some ''signature''
   \<and> file_at v' (''t1'', ''ann'') [''final.pdf.sig''] = None"
  by code_simp

text \<open>The directory of the session records itself moves, records and signatures with it.\<close>

definition ex_sessions :: volume where
  "ex_sessions =
     [((''t1'', ''ann''), SegDir [([''.agent''], NDir), ([''.agent'', ''Sessions''], NDir),
        ([''.agent'', ''Sessions'', ''a.json''], NFile ''hi''), ([''.agent'', ''Sessions'', ''a.json.sig''], NFile ''mac'')])]"

lemma sessions_directory_moves:
  "fst (Store_Move ex_ws_store ex_ws_io ''t1'' ''ann'' ''.agent/Sessions'' ''old'' ex_sessions)
     = Inr \<lparr>fi_Path = ''old'', fi_Size = 0, fi_IsDir = True\<rparr>
   \<and> Store_Read ex_ws_store ex_ws_io ''t1'' ''ann'' ''.agent/Sessions/a.json''
       (ws_exec ex_ws_store ex_ws_io ''t1'' ''ann'' (OpMove ''.agent/Sessions'' ''old'') ex_sessions) = Inl ErrNotExist"
  by code_simp

text \<open>The first write of a user to the path "." puts a file where their directory should be.\<close>

lemma dot_write_blocks_the_directory:
  "let v' = ws_exec ex_ws_store ex_ws_io ''t1'' ''ann'' (OpWrite ''.'' ''x'') [] in
   v' = [((''t1'', ''ann''), SegFile ''x'')]
   \<and> fst (Store_Write ex_ws_store ex_ws_io ''t1'' ''ann'' ''notes.txt'' ''y'' v') = Inl OsError
   \<and> fst (Store_Mkdir ex_ws_store ex_ws_io ''t1'' ''ann'' ''notes'' v') = Inl OsError"
  by code_simp

text \<open>The empty identifier shares its directory name with another one.\<close>

lemma empty_identifier_shares_a_name: "SanitizeSeg sha [] = SanitizeSeg sha ''_''"
proof -
  have "legacySeg ''_'' = ''_''" by code_simp
  then show ?thesis by (simp add: SanitizeSeg_def)
qed

end
