(* ===== verification/SkillStore.thy ===== *)
theory SkillStore
  imports WorkspaceSafety
begin

text \<open>
  broker/internal/personalskill: the skill folders Skills/<name>/ of a user's workspace.  They are
  reserved from the choice of a drive (theory WorkspaceRpc), so the operations run on the local
  store.  The YAML decoder is a parameter.  Letters are lowered in the ASCII range, and directories
  of equal path length are deleted in the order of the listing.
\<close>

section \<open>The format (personalskill.go)\<close>

definition MaxSkillMdBytes :: int where "MaxSkillMdBytes = 262144"
definition MaxFolderBytes :: int where "MaxFolderBytes = 20971520"
definition MaxFolderFiles :: nat where "MaxFolderFiles = 100"
definition MaxSkills :: nat where "MaxSkills = 50"
definition maxKeywords :: nat where "maxKeywords = 32"
definition maxKeywordChars :: nat where "maxKeywordChars = 64"

definition skills_dir :: string where "skills_dir = ''Skills''"
definition SkillMdName :: string where "SkillMdName = ''SKILL.md''"

definition SkillDir :: "string \<Rightarrow> string" where
  "SkillDir name = skills_dir @ ''/'' @ name"

definition SkillMdPath :: "string \<Rightarrow> string" where
  "SkillMdPath name = SkillDir name @ ''/'' @ SkillMdName"

definition ValidSkillName :: "string \<Rightarrow> bool" where
  "ValidSkillName name =
     (if name = [] \<or> TrimSpaceUtf8 name \<noteq> name \<or> HasPrefix name ''.'' then False
      else if CHR ''/'' \<in> set name \<or> CHR 0x5C \<in> set name then False
      else path_Clean name = name)"

record Frontmatter =
  fm_Name :: string
  fm_Description :: string
  fm_AllowedTools :: "string list"
  fm_Keywords :: "string list"
  fm_DisableModelInvocation :: bool

text \<open>strings.Index.\<close>

fun Index :: "string \<Rightarrow> string \<Rightarrow> nat option" where
  "Index [] p = (if p = [] then Some 0 else None)"
| "Index (c # s) p = (if HasPrefix (c # s) p then Some 0 else map_option Suc (Index s p))"

definition fence_line :: string where "fence_line = ''---''"

definition splitFrontmatter :: "string \<Rightarrow> (string \<times> string) option" where
  "splitFrontmatter s =
     (case CutPrefix s (fence_line @ [CHR 0x0A]) of
        None \<Rightarrow> None
      | Some rest \<Rightarrow>
          (case Index rest (CHR 0x0A # fence_line) of
             None \<Rightarrow> None
           | Some e \<Rightarrow> Some (take e rest, TrimLeft (\<lambda>c. c = CHR 0x0A) (drop (e + 1 + length fence_line) rest))))"

definition SplitBody :: "string \<Rightarrow> string option" where
  "SplitBody data = map_option snd (splitFrontmatter data)"

text \<open>The bytes of the first \<open>n\<close> runes.\<close>

fun rune_bytes :: "nat \<Rightarrow> string \<Rightarrow> nat" where
  "rune_bytes 0 s = 0"
| "rune_bytes (Suc n) s = (if s = [] then 0 else rune_len s + rune_bytes n (drop (rune_len s) s))"

definition norm_keyword :: "string \<Rightarrow> string" where
  "norm_keyword kw = (let norm = ToLower (TrimSpaceUtf8 kw) in take (rune_bytes maxKeywordChars norm) norm)"

fun keep_keywords :: "string list \<Rightarrow> string list \<Rightarrow> string list" where
  "keep_keywords [] out = out"
| "keep_keywords (kw # kws) out =
     (if length out = maxKeywords then out
      else if TrimSpaceUtf8 kw = [] \<or> norm_keyword kw \<in> set out then keep_keywords kws out
      else keep_keywords kws (out @ [norm_keyword kw]))"

definition normalizeKeywords :: "string list \<Rightarrow> string list" where
  "normalizeKeywords kws = keep_keywords kws []"

text \<open>\<open>yaml\<close> decodes the block into the known fields.\<close>

definition ParseFrontmatter :: "(string \<Rightarrow> Frontmatter option) \<Rightarrow> string \<Rightarrow> Frontmatter option" where
  "ParseFrontmatter yaml data =
     (case splitFrontmatter data of
        None \<Rightarrow> None
      | Some (raw, _) \<Rightarrow>
          (case yaml raw of
             None \<Rightarrow> None
           | Some fm \<Rightarrow>
               Some (fm\<lparr>fm_Name := TrimSpaceUtf8 (fm_Name fm), fm_Description := TrimSpaceUtf8 (fm_Description fm),
                        fm_Keywords := normalizeKeywords (fm_Keywords fm)\<rparr>)))"

record SkillEntry =
  se_Name :: string
  se_Description :: string
  se_Keywords :: "string list"
  se_AllowedTools :: "string list"
  se_Disable :: bool
  se_Valid :: bool
  se_Warning :: string

definition invalid_entry :: "string \<Rightarrow> string \<Rightarrow> SkillEntry" where
  "invalid_entry name warning =
     \<lparr>se_Name = name, se_Description = [], se_Keywords = [], se_AllowedTools = [], se_Disable = False, se_Valid = False, se_Warning = warning\<rparr>"

definition buildEntry :: "string \<Rightarrow> Frontmatter option \<Rightarrow> SkillEntry" where
  "buildEntry dirName fm =
     (case fm of
        None \<Rightarrow> invalid_entry dirName ''unparseable frontmatter: ''
      | Some f \<Rightarrow>
          if fm_Description f = [] then invalid_entry dirName ''missing description''
          else \<lparr>se_Name = dirName, se_Description = fm_Description f, se_Keywords = fm_Keywords f,
                se_AllowedTools = fm_AllowedTools f, se_Disable = fm_DisableModelInvocation f, se_Valid = True,
                se_Warning = (if fm_Name f \<noteq> [] \<and> fm_Name f \<noteq> dirName
                              then ''frontmatter name does not match directory name'' else [])\<rparr>)"

section \<open>Listing (store.go)\<close>

datatype ps_error = PsWs ws_error | PsExists | PsRefused

text \<open>A listing that was cut short is an error.\<close>

definition full_list :: "WsStore \<Rightarrow> Io \<Rightarrow> string \<Rightarrow> string \<Rightarrow> string \<Rightarrow> bool \<Rightarrow> volume \<Rightarrow> (ps_error, FileInfo list) result" where
  "full_list st io tenant user dir recursive vol =
     (case ListDir st io tenant user dir recursive vol of
        Inl e \<Rightarrow> Inl (PsWs e)
      | Inr (infos, short) \<Rightarrow> if short then Inl (PsWs ErrListTruncated) else Inr infos)"

definition FileSize :: "WsStore \<Rightarrow> Io \<Rightarrow> string \<Rightarrow> string \<Rightarrow> string \<Rightarrow> volume \<Rightarrow> int option" where
  "FileSize st io tenant user rel vol =
     (case full_list st io tenant user (path_Dir rel) False vol of
        Inl _ \<Rightarrow> None
      | Inr infos \<Rightarrow> map_option fi_Size (find (\<lambda>fi. fi_Path fi = rel \<and> \<not> fi_IsDir fi) infos))"

definition scanOne :: "(string \<Rightarrow> Frontmatter option) \<Rightarrow> WsStore \<Rightarrow> Io \<Rightarrow> string \<Rightarrow> string \<Rightarrow> volume \<Rightarrow> string \<Rightarrow> SkillEntry" where
  "scanOne yaml st io tenant user vol name =
     (case FileSize st io tenant user (SkillMdPath name) vol of
        None \<Rightarrow> invalid_entry name ''missing SKILL.md''
      | Some n \<Rightarrow>
          if n > MaxSkillMdBytes then invalid_entry name ''SKILL.md exceeds the byte cap''
          else (case Store_Read st io tenant user (SkillMdPath name) vol of
                  Inl _ \<Rightarrow> invalid_entry name ''missing SKILL.md''
                | Inr data \<Rightarrow>
                    if int (length data) > MaxSkillMdBytes then invalid_entry name ''SKILL.md exceeds the byte cap''
                    else buildEntry name (ParseFrontmatter yaml data)))"

definition skill_names :: "FileInfo list \<Rightarrow> string list" where
  "skill_names infos =
     sort (filter (\<lambda>n. n \<noteq> [] \<and> CHR ''/'' \<notin> set n \<and> \<not> HasPrefix n ''.'')
       (map (\<lambda>fi. TrimPrefix (fi_Path fi) (skills_dir @ ''/'')) (filter fi_IsDir infos)))"

definition Scan :: "(string \<Rightarrow> Frontmatter option) \<Rightarrow> WsStore \<Rightarrow> Io \<Rightarrow> string \<Rightarrow> string \<Rightarrow> volume \<Rightarrow> (ps_error, SkillEntry list) result" where
  "Scan yaml st io tenant user vol =
     bindE (full_list st io tenant user skills_dir False vol) (\<lambda>infos.
       Inr (map (scanOne yaml st io tenant user vol) (take MaxSkills (skill_names infos))))"

definition ListFiles :: "WsStore \<Rightarrow> Io \<Rightarrow> string \<Rightarrow> string \<Rightarrow> string \<Rightarrow> volume \<Rightarrow> (ps_error, string list) result" where
  "ListFiles st io tenant user name vol =
     (if \<not> ValidSkillName name then Inl PsRefused
      else bindE (full_list st io tenant user (SkillDir name) True vol) (\<lambda>infos.
        Inr (sort (filter (\<lambda>r. r \<noteq> SkillMdName)
          (map (\<lambda>fi. TrimPrefix (fi_Path fi) (SkillDir name @ ''/'')) (filter (\<lambda>fi. \<not> fi_IsDir fi) infos))))))"

definition skillExists :: "WsStore \<Rightarrow> Io \<Rightarrow> string \<Rightarrow> string \<Rightarrow> string \<Rightarrow> volume \<Rightarrow> (ps_error, bool) result" where
  "skillExists st io tenant user name vol =
     bindE (full_list st io tenant user (SkillDir name) False vol) (\<lambda>infos. Inr (infos \<noteq> []))"

section \<open>Snapshots\<close>

record SnapshotResult =
  sn_ContentHash :: string
  sn_Manifest :: "(string \<times> int) list"
  sn_Flags :: "string list"

definition isScannable :: "string \<Rightarrow> bool" where
  "isScannable rel = (HasSuffix rel ''.md'' \<or> HasSuffix rel ''.txt'')"

text \<open>The files of a folder, read until the seen passes the cap.\<close>

fun read_files :: "WsStore \<Rightarrow> Io \<Rightarrow> string \<Rightarrow> string \<Rightarrow> volume \<Rightarrow> string \<Rightarrow> int \<Rightarrow> FileInfo list \<Rightarrow> (ps_error, (string \<times> string) list) result" where
  "read_files st io tenant user vol pre seen [] = Inr []"
| "read_files st io tenant user vol pre seen (fi # fis) =
     (case Store_Read st io tenant user (fi_Path fi) vol of
        Inl e \<Rightarrow> Inl (PsWs e)
      | Inr data \<Rightarrow>
          (let seen' = seen + int (length data) in
           if seen' > MaxFolderBytes then Inl PsRefused
           else bindE (read_files st io tenant user vol pre seen' fis) (\<lambda>fs. Inr ((TrimPrefix (fi_Path fi) pre, data) # fs))))"

definition content_stream :: "(string \<times> string) list \<Rightarrow> string" where
  "content_stream fs = concat (map (\<lambda>(rel, data). rel @ [CHR 0x00] @ data @ [CHR 0x00]) fs)"

fun write_files :: "WsStore \<Rightarrow> Io \<Rightarrow> string \<Rightarrow> string \<Rightarrow> (string \<times> string) list \<Rightarrow> volume \<Rightarrow> (ps_error, unit) result \<times> volume" where
  "write_files st io tenant user [] vol = (Inr (), vol)"
| "write_files st io tenant user ((rel, data) # fs) vol =
     (case Store_Write st io tenant user rel data vol of
        (Inl e, vol1) \<Rightarrow> (Inl (PsWs e), vol1)
      | (Inr _, vol1) \<Rightarrow> write_files st io tenant user fs vol1)"

text \<open>The first occurrences of each flag.\<close>

definition remdups_first :: "string list \<Rightarrow> string list" where
  "remdups_first xs = rev (remdups (rev xs))"

definition Snapshot :: "(string \<Rightarrow> string list) \<Rightarrow> WsStore \<Rightarrow> Io \<Rightarrow> string \<Rightarrow> string \<Rightarrow> string \<Rightarrow> string \<Rightarrow> volume
  \<Rightarrow> (ps_error, SnapshotResult) result \<times> volume" where
  "Snapshot scan st io tenant fromUser name stagingSeg vol =
     (if \<not> ValidSkillName name then (Inl PsRefused, vol)
      else case full_list st io tenant fromUser (SkillDir name) True vol of
        Inl e \<Rightarrow> (Inl e, vol)
      | Inr infos \<Rightarrow>
          (let fileInfos = filter (\<lambda>fi. \<not> fi_IsDir fi) infos in
           if fileInfos = [] \<or> length fileInfos > MaxFolderFiles \<or> sum_list (map fi_Size fileInfos) > MaxFolderBytes
           then (Inl PsRefused, vol)
           else case read_files st io tenant fromUser vol (SkillDir name @ ''/'') 0 fileInfos of
             Inl e \<Rightarrow> (Inl e, vol)
           | Inr files0 \<Rightarrow>
               (let files = sort_key fst files0 in
                case write_files st io tenant stagingSeg files vol of
                  (Inl e, vol1) \<Rightarrow> (Inl e, vol1)
                | (Inr _, vol1) \<Rightarrow>
                    (Inr \<lparr>sn_ContentHash = hex_Encode (st_Sha256 st (content_stream files)),
                          sn_Manifest = map (\<lambda>(r, data). (r, int (length data))) files,
                          sn_Flags = remdups_first (concat (map (\<lambda>(r, data). if isScannable r then scan data else []) files))\<rparr>, vol1))))"

section \<open>Deleting and installing\<close>

fun delete_paths :: "WsStore \<Rightarrow> Io \<Rightarrow> string \<Rightarrow> string \<Rightarrow> string list \<Rightarrow> volume \<Rightarrow> (ps_error, unit) result \<times> volume" where
  "delete_paths st io tenant user [] vol = (Inr (), vol)"
| "delete_paths st io tenant user (rel # rels) vol =
     (case Store_Delete st io tenant user rel vol of
        (Inl e, vol1) \<Rightarrow> (Inl (PsWs e), vol1)
      | (Inr _, vol1) \<Rightarrow> delete_paths st io tenant user rels vol1)"

text \<open>The files, then the directories, longest path first.\<close>

definition deletion_order :: "FileInfo list \<Rightarrow> string list" where
  "deletion_order infos =
     map fi_Path (filter (\<lambda>fi. \<not> fi_IsDir fi) infos)
     @ sort_key (\<lambda>d. - int (length d)) (map fi_Path (filter fi_IsDir infos))"

definition deleteSubtree :: "WsStore \<Rightarrow> Io \<Rightarrow> string \<Rightarrow> string \<Rightarrow> string \<Rightarrow> volume \<Rightarrow> (ps_error, unit) result \<times> volume" where
  "deleteSubtree st io tenant user dir vol =
     (if (case CleanRel dir of Inl _ \<Rightarrow> True | Inr clean \<Rightarrow> \<not> HasPrefix clean (skills_dir @ ''/'')) then (Inl PsRefused, vol)
      else case full_list st io tenant user dir True vol of
        Inl e \<Rightarrow> (Inl e, vol)
      | Inr infos \<Rightarrow>
          (case delete_paths st io tenant user (deletion_order infos) vol of
             (Inl e, vol1) \<Rightarrow> (Inl e, vol1)
           | (Inr _, vol1) \<Rightarrow>
               (case Store_Delete st io tenant user dir vol1 of
                  (Inr _, vol2) \<Rightarrow> (Inr (), vol2)
                | (Inl e, vol2) \<Rightarrow> (if e = ErrNotExist then Inr () else Inl (PsWs e), vol2))))"

definition DeleteSkill :: "WsStore \<Rightarrow> Io \<Rightarrow> string \<Rightarrow> string \<Rightarrow> string \<Rightarrow> volume \<Rightarrow> (ps_error, unit) result \<times> volume" where
  "DeleteSkill st io tenant user name vol =
     (if \<not> ValidSkillName name then (Inl PsRefused, vol) else deleteSubtree st io tenant user (SkillDir name) vol)"

text \<open>Each file of the staging segment in turn; the first error stops the copy.\<close>

fun copy_staged :: "WsStore \<Rightarrow> Io \<Rightarrow> string \<Rightarrow> string \<Rightarrow> string \<Rightarrow> string \<Rightarrow> FileInfo list \<Rightarrow> volume \<Rightarrow> (ps_error, unit) result \<times> volume" where
  "copy_staged st io tenant stagingSeg toUser staged [] vol = (Inr (), vol)"
| "copy_staged st io tenant stagingSeg toUser staged (fi # fis) vol =
     (if fi_IsDir fi then copy_staged st io tenant stagingSeg toUser staged fis vol
      else case Store_Read st io tenant stagingSeg (fi_Path fi) vol of
        Inl e \<Rightarrow> (Inl (PsWs e), vol)
      | Inr data \<Rightarrow>
          (case Store_Write st io tenant toUser (staged @ ''/'' @ fi_Path fi) data vol of
             (Inl e, vol1) \<Rightarrow> (Inl (PsWs e), vol1)
           | (Inr _, vol1) \<Rightarrow> copy_staged st io tenant stagingSeg toUser staged fis vol1))"

definition staged_dir :: "string \<Rightarrow> string" where
  "staged_dir name = skills_dir @ ''/.'' @ name @ ''.staged''"

definition old_dir :: "string \<Rightarrow> string" where
  "old_dir name = skills_dir @ ''/.'' @ name @ ''.old''"

text \<open>The old directory aside, the staged one into place; a failed swap moves the old one back.\<close>

definition swap_in :: "WsStore \<Rightarrow> Io \<Rightarrow> string \<Rightarrow> string \<Rightarrow> string \<Rightarrow> volume \<Rightarrow> (ps_error, unit) result \<times> volume" where
  "swap_in st io tenant toUser name vol =
     (let staged = staged_dir name; old = old_dir name; target = SkillDir name in
      case deleteSubtree st io tenant toUser old vol of
        (Inl e, vol1) \<Rightarrow> (Inl e, vol1)
      | (Inr _, vol1) \<Rightarrow>
          (case Store_Move st io tenant toUser target old vol1 of
             (Inl e, vol2) \<Rightarrow> (Inl (PsWs e), snd (deleteSubtree st io tenant toUser staged vol2))
           | (Inr _, vol2) \<Rightarrow>
               (case Store_Move st io tenant toUser staged target vol2 of
                  (Inl e, vol3) \<Rightarrow>
                    (Inl (PsWs e), snd (deleteSubtree st io tenant toUser staged (snd (Store_Move st io tenant toUser old target vol3))))
                | (Inr _, vol3) \<Rightarrow> deleteSubtree st io tenant toUser old vol3)))"

definition move_in :: "WsStore \<Rightarrow> Io \<Rightarrow> string \<Rightarrow> string \<Rightarrow> string \<Rightarrow> volume \<Rightarrow> (ps_error, unit) result \<times> volume" where
  "move_in st io tenant toUser name vol =
     (case Store_Move st io tenant toUser (staged_dir name) (SkillDir name) vol of
        (Inl e, vol1) \<Rightarrow> (Inl (PsWs e), snd (deleteSubtree st io tenant toUser (staged_dir name) vol1))
      | (Inr _, vol1) \<Rightarrow> (Inr (), vol1))"

definition Install :: "WsStore \<Rightarrow> Io \<Rightarrow> string \<Rightarrow> string \<Rightarrow> string \<Rightarrow> string \<Rightarrow> bool \<Rightarrow> volume \<Rightarrow> (ps_error, unit) result \<times> volume" where
  "Install st io tenant stagingSeg toUser name replace vol =
     (if \<not> ValidSkillName name then (Inl PsRefused, vol)
      else case skillExists st io tenant toUser name vol of
        Inl e \<Rightarrow> (Inl e, vol)
      | Inr there \<Rightarrow>
          if there \<and> \<not> replace then (Inl PsExists, vol)
          else case full_list st io tenant stagingSeg [] True vol of
            Inl e \<Rightarrow> (Inl e, vol)
          | Inr infos \<Rightarrow>
              (case deleteSubtree st io tenant toUser (staged_dir name) vol of
                 (Inl e, vol1) \<Rightarrow> (Inl e, vol1)
               | (Inr _, vol1) \<Rightarrow>
                   (case copy_staged st io tenant stagingSeg toUser (staged_dir name) infos vol1 of
                      (Inl e, vol2) \<Rightarrow> (Inl e, snd (deleteSubtree st io tenant toUser (staged_dir name) vol2))
                    | (Inr _, vol2) \<Rightarrow> if there then swap_in st io tenant toUser name vol2 else move_in st io tenant toUser name vol2)))"

section \<open>A free name\<close>

partial_function (option) free_from :: "WsStore \<Rightarrow> Io \<Rightarrow> string \<Rightarrow> string \<Rightarrow> string \<Rightarrow> volume \<Rightarrow> string \<Rightarrow> int \<Rightarrow> (ps_error, string) result option" where
  "free_from st io tenant user base vol name n =
     (case skillExists st io tenant user name vol of
        Inl e \<Rightarrow> Some (Inl e)
      | Inr there \<Rightarrow>
          if \<not> there then Some (Inr name) else free_from st io tenant user base vol (base @ ''-'' @ Itoa n) (n + 1))"

definition FreeName :: "WsStore \<Rightarrow> Io \<Rightarrow> string \<Rightarrow> string \<Rightarrow> string \<Rightarrow> volume \<Rightarrow> (ps_error, string) result option" where
  "FreeName st io tenant user base vol =
     (if \<not> ValidSkillName base then Some (Inl PsRefused) else free_from st io tenant user base vol base 2)"

section \<open>FreeName returns\<close>

lemma space_len_ascii:
  assumes "byte_of c < 128" "\<not> is_space c" "\<forall>w \<in> set wide. w \<noteq> [] \<and> 128 \<le> hd w"
  shows "space_len wide (c # t) = 0"
proof -
  have "map byte_of (take (length w) (c # t)) \<noteq> w" if "w \<in> set wide" for w
  proof
    assume e: "map byte_of (take (length w) (c # t)) = w"
    have "w \<noteq> []" using assms(3) that by blast
    then obtain a v where w: "w = a # v" by (cases w) auto
    then have "a = byte_of c" using e by simp
    then show False using assms(1,3) that w by auto
  qed
  then have "find (\<lambda>w. map byte_of (take (length w) (c # t)) = w) wide = None" by (simp add: find_None_iff)
  then show ?thesis using assms(2) by (simp add: space_len_def)
qed

lemma wide_high: "\<forall>w \<in> set wide_spaces. w \<noteq> [] \<and> 128 \<le> hd w" "\<forall>w \<in> set (map rev wide_spaces). w \<noteq> [] \<and> 128 \<le> hd w"
  by (auto simp: wide_spaces_def)

lemma TrimSpaceUtf8_id:
  assumes "byte_of c < 128" "\<not> is_space c" "byte_of e < 128" "\<not> is_space e"
  shows "TrimSpaceUtf8 (c # t @ [e]) = c # t @ [e]"
proof -
  have a: "trim_spaces wide_spaces (c # t @ [e]) = c # t @ [e]"
    using space_len_ascii [OF assms(1,2) wide_high(1)] by (subst trim_spaces.simps) simp
  have b: "trim_spaces (map rev wide_spaces) (e # rev t @ [c]) = e # rev t @ [c]"
    using space_len_ascii [OF assms(3,4) wide_high(2)] by (subst trim_spaces.simps) simp
  show ?thesis unfolding TrimSpaceUtf8_def a using b by simp
qed

text \<open>A name that ends in a digit and has no slash is its own path.\<close>

lemma resolve_skill_dir:
  assumes "CHR ''/'' \<notin> set name" "name \<noteq> []" "is_digit (last name)"
  shows "resolve (SkillDir name) = Inr [skills_dir, name]"
proof -
  have nm: "name \<noteq> ''.''" "name \<noteq> ''..''" using assms(3) by (auto simp: is_digit_def byte_of_def)
  obtain b e where ne: "name = b @ [e]" using assms(2) by (cases name rule: rev_cases) auto
  have e: "byte_of e < 128" "\<not> is_space e" using assms(3) ne by (auto simp: is_digit_def is_space_def)
  have dir: "SkillDir name = CHR ''S'' # (''kills/'' @ b) @ [e]" by (simp add: SkillDir_def skills_dir_def ne)
  have trim: "TrimSpaceUtf8 (SkillDir name) = SkillDir name"
    unfolding dir by (rule TrimSpaceUtf8_id [OF _ _ e]) (simp_all add: byte_of_def is_space_def)
  have split: "Split (SkillDir name) (CHR ''/'') = [skills_dir, name]"
    using Split_append [of "CHR ''/''" skills_dir name] Split_no_sep [OF assms(1)] by (simp add: SkillDir_def skills_dir_def)
  have "path_Clean (SkillDir name) = SkillDir name"
    unfolding path_Clean_def split using assms(2) nm
    by (simp add: HasPrefix_def SkillDir_def skills_dir_def clean_step_def)
  moreover have "SkillDir name \<noteq> ''..''" "\<not> HasPrefix (SkillDir name) ''../''" "\<not> HasPrefix (SkillDir name) ''/''"
    by (simp_all add: SkillDir_def skills_dir_def HasPrefix_def)
  ultimately have clean: "CleanRel (SkillDir name) = Inr (SkillDir name)"
    by (simp add: CleanRel_def trim) (simp add: SkillDir_def skills_dir_def)
  have "firstSegment (SkillDir name) = skills_dir" by (simp add: firstSegment_def SkillDir_def skills_dir_def)
  moreover have "\<not> isReservedTop skills_dir" by code_simp
  moreover have "path_names (SkillDir name) = [skills_dir, name]" using split by (simp add: path_names_def) (simp add: SkillDir_def skills_dir_def)
  ultimately show ?thesis by (simp add: resolve_def clean)
qed

lemma skillExists_entry:
  assumes "skillExists st io tenant user name vol = Inr True" "resolve (SkillDir name) = Inr p"
  obtains tr q where "map_of vol (seg_key st tenant user) = Some (SegDir tr)" "q \<in> fst ` set tr" "take (length p) q = p"
proof -
  from assms(1) obtain infos where l: "full_list st io tenant user (SkillDir name) False vol = Inr infos" "infos \<noteq> []"
    by (auto simp: skillExists_def bindE_eq_Inr)
  then have "ListDir st io tenant user (SkillDir name) False vol = Inr (infos, False)"
    by (auto simp: full_list_def split: sum.splits prod.splits if_splits)
  moreover have "SkillDir name \<noteq> []" "SkillDir name \<noteq> ''.''" by (simp_all add: SkillDir_def skills_dir_def)
  ultimately obtain tr where tr: "map_of vol (seg_key st tenant user) = Some (SegDir tr)" "walk tr p False \<noteq> []"
    using assms(2) l(2) by (auto simp: ListDir_def Let_def split: sum.splits ws_error.splits node.splits if_splits option.splits segment.splits)
  from tr(2) have "filter (listed p False) tr \<noteq> []" by (auto simp: walk_def)
  then obtain e where "e \<in> set tr" "listed p False e" by (auto simp: filter_empty_conv)
  then show ?thesis using that [OF tr(1), of "fst e"] by (auto simp: listed_def split: prod.splits)
qed

definition numbered :: "string \<Rightarrow> int \<Rightarrow> string" where
  "numbered base n = base @ ''-'' @ Itoa n"

lemma numbered_inj: "numbered base m = numbered base n \<Longrightarrow> 0 \<le> m \<Longrightarrow> 0 \<le> n \<Longrightarrow> m = n"
proof -
  assume "numbered base m = numbered base n" "0 \<le> m" "0 \<le> n"
  then have "nat_digits (nat m) = nat_digits (nat n)" by (simp add: numbered_def Itoa_def)
  then have "digits_val (nat_digits (nat m)) = digits_val (nat_digits (nat n))" by simp
  then show "m = n" using \<open>0 \<le> m\<close> \<open>0 \<le> n\<close> by simp
qed

lemma numbered_path:
  assumes "ValidSkillName base" "0 \<le> n"
  shows "resolve (SkillDir (numbered base n)) = Inr [skills_dir, numbered base n]"
proof (rule resolve_skill_dir)
  have "is_digit c" if "c \<in> set (Itoa n)" for c using that assms(2) set_nat_digits by (simp add: Itoa_def)
  moreover have ne: "Itoa n \<noteq> []" using assms(2) by (simp add: Itoa_def)
  ultimately show "is_digit (last (numbered base n))" by (simp add: numbered_def)
  show "CHR ''/'' \<notin> set (numbered base n)"
    using assms set_Itoa [of "CHR ''/''" n] by (auto simp: numbered_def ValidSkillName_def is_digit_def byte_of_def split: if_splits)
qed (simp add: numbered_def)

text \<open>A directory holds finitely many entries, so some numbered name is free.\<close>

lemma some_name_free:
  assumes "ValidSkillName base"
  shows "\<exists>n \<ge> 2. skillExists st io tenant user (numbered base n) vol \<noteq> Inr True"
proof (rule ccontr)
  assume "\<not> ?thesis"
  then have ex: "skillExists st io tenant user (numbered base n) vol = Inr True" if "2 \<le> n" for n using that by auto
  define tr where "tr = (case map_of vol (seg_key st tenant user) of Some (SegDir t) \<Rightarrow> t | _ \<Rightarrow> [])"
  have "numbered base n \<in> (\<lambda>q. q ! 1) ` fst ` set tr" if "2 \<le> n" for n
  proof -
    have "resolve (SkillDir (numbered base n)) = Inr [skills_dir, numbered base n]" using numbered_path [OF assms] that by simp
    from skillExists_entry [OF ex [OF that] this] obtain t q where t: "map_of vol (seg_key st tenant user) = Some (SegDir t)"
      and q: "q \<in> fst ` set t" "take (length [skills_dir, numbered base n]) q = [skills_dir, numbered base n]" .
    have "q ! 1 = numbered base n" using q(2) by (cases q; cases "tl q") auto
    moreover have "q \<in> fst ` set tr" using q(1) t by (simp add: tr_def)
    ultimately show ?thesis by force
  qed
  then have "numbered base ` {2..} \<subseteq> (\<lambda>q. q ! 1) ` fst ` set tr" by auto
  then have "finite (numbered base ` {2..})" by (rule finite_subset) simp
  moreover have "inj_on (numbered base) {2..}" using numbered_inj by (auto simp: inj_on_def)
  ultimately have "finite {2::int..}" by (simp add: finite_image_iff)
  then show False by (simp add: infinite_Ici)
qed

definition free_result :: "WsStore \<Rightarrow> Io \<Rightarrow> string \<Rightarrow> string \<Rightarrow> volume \<Rightarrow> (ps_error, string) result option \<Rightarrow> bool" where
  "free_result st io tenant user vol r =
     (case r of None \<Rightarrow> False | Some (Inl _) \<Rightarrow> True | Some (Inr x) \<Rightarrow> skillExists st io tenant user x vol = Inr False)"

lemma free_from_stops:
  "skillExists st io tenant user name vol \<noteq> Inr True \<Longrightarrow> free_result st io tenant user vol (free_from st io tenant user base vol name n)"
  by (subst free_from.simps) (auto simp: free_result_def split: sum.splits)

lemma free_from_returns:
  assumes "skillExists st io tenant user (numbered base m) vol \<noteq> Inr True" "n \<le> m"
  shows "free_result st io tenant user vol (free_from st io tenant user base vol name n)"
  using assms(2)
proof (induction "nat (m - n)" arbitrary: n name)
  case 0
  then have n: "n = m" by simp
  show ?case
  proof (cases "skillExists st io tenant user name vol = Inr True")
    case True
    then show ?thesis using free_from_stops [OF assms(1)] n by (subst free_from.simps) (simp add: numbered_def)
  qed (rule free_from_stops)
next
  case (Suc d)
  show ?case
  proof (cases "skillExists st io tenant user name vol = Inr True")
    case True
    have "free_result st io tenant user vol (free_from st io tenant user base vol (numbered base n) (n + 1))" using Suc by auto
    then show ?thesis using True by (subst free_from.simps) (simp add: numbered_def)
  qed (rule free_from_stops)
qed


section \<open>Edges\<close>

text \<open>Two folders with different files and the same content hash, whatever the hash function.\<close>

lemma content_stream_is_ambiguous:
  "content_stream [(''SKILL.md'', ''x'' @ [CHR 0x00] @ ''run.sh'' @ [CHR 0x00] @ ''y'')] = content_stream [(''SKILL.md'', ''x''), (''run.sh'', ''y'')]"
  by code_simp

text \<open>A folder that holds a file named *.sig cannot be deleted: the listing hides the file.\<close>

lemma sig_file_blocks_deletion:
  "fst (DeleteSkill ex_ws_store ex_ws_io ''t1'' ''ann'' ''pack''
     [((''t1'', ''ann''), SegDir [([''Skills''], NDir), ([''Skills'', ''pack''], NDir), ([''Skills'', ''pack'', ''tool.sig''], NFile ''s'')])])
   = Inl (PsWs ErrNotEmpty)"
  by code_simp

end
