(* ===== verification/SkillScope.thy ===== *)
theory SkillScope
  imports SkillStore
begin

text \<open>
  What the operations on skill folders can reach: the paths they build, once the store has trimmed and
  cleaned them, stay in the folder, whatever the names of the files in it.
\<close>

section \<open>Trimmed paths\<close>

lemma space_len_le: "space_len wide s \<le> length s"
proof (cases s)
  case (Cons c t)
  have "length w \<le> length s" if "find (\<lambda>w. map byte_of (take (length w) s) = w) wide = Some w" for w
  proof -
    have "map byte_of (take (length w) s) = w" using that by (auto simp: find_Some_iff)
    then have "length (take (length w) s) = length w" by (metis length_map)
    then show ?thesis by simp
  qed
  then show ?thesis using Cons by (auto simp: space_len_def split: option.splits)
qed (simp add: space_len_def)

text \<open>No white space reaches over a slash.\<close>

lemma wide_no_slash: "\<forall>w \<in> set (map rev wide_spaces). w \<noteq> [] \<and> byte_of (CHR ''/'') \<notin> set w"
  by (auto simp: wide_spaces_def byte_of_def)

lemma space_len_slash:
  assumes "\<forall>w \<in> set wide. w \<noteq> [] \<and> byte_of (CHR ''/'') \<notin> set w"
  shows "space_len wide (s @ CHR ''/'' # u) = space_len wide s"
proof -
  have same: "map byte_of (take (length w) (s @ CHR ''/'' # u)) = w \<longleftrightarrow> map byte_of (take (length w) s) = w" if "w \<in> set wide" for w
  proof (cases "length w \<le> length s")
    case False
    then obtain n where n: "length w - length s = Suc n" by (cases "length w - length s") auto
    have "map byte_of (take (length w) (s @ CHR ''/'' # u)) \<noteq> w"
    proof
      assume "map byte_of (take (length w) (s @ CHR ''/'' # u)) = w"
      then have "w = map byte_of (take (length w) s) @ byte_of (CHR ''/'') # map byte_of (take n u)" using n by simp
      then have "byte_of (CHR ''/'') \<in> set w" by (metis in_set_conv_decomp)
      then show False using assms that by blast
    qed
    moreover have "map byte_of (take (length w) s) \<noteq> w"
    proof
      assume "map byte_of (take (length w) s) = w"
      then have "length (map byte_of (take (length w) s)) = length w" by simp
      then show False using False by simp
    qed
    ultimately show ?thesis by simp
  qed simp
  have f: "find (\<lambda>w. map byte_of (take (length w) (s @ CHR ''/'' # u)) = w) wide = find (\<lambda>w. map byte_of (take (length w) s) = w) wide"
    by (rule find_cong [OF HOL.refl]) (use same in blast)
  show ?thesis
  proof (cases s)
    case Nil
    have "find (\<lambda>w. map byte_of (take (length w) []) = w) wide = None" using assms by (auto simp: find_None_iff)
    then show ?thesis using Nil f by (simp add: space_len_def is_space_def byte_of_def)
  next
    case (Cons c t)
    then show ?thesis using f by (simp add: space_len_def)
  qed
qed

lemma trim_spaces_drop: "space_len wide s \<noteq> 0 \<Longrightarrow> trim_spaces wide s = trim_spaces wide (drop (space_len wide s) s)"
  by (subst trim_spaces.simps) simp

lemma trim_spaces_slash:
  assumes "\<forall>w \<in> set wide. w \<noteq> [] \<and> byte_of (CHR ''/'') \<notin> set w"
  shows "trim_spaces wide (s @ CHR ''/'' # u) = trim_spaces wide s @ CHR ''/'' # u"
  using assms
proof (induction wide s rule: trim_spaces.induct)
  case (1 wide s)
  have n: "space_len wide (s @ CHR ''/'' # u) = space_len wide s" by (rule space_len_slash [OF "1.prems"])
  show ?case
  proof (cases "space_len wide s = 0")
    case True
    then show ?thesis using n by (simp add: trim_spaces.simps)
  next
    case False
    have "trim_spaces wide (s @ CHR ''/'' # u) = trim_spaces wide (drop (space_len wide s) s @ CHR ''/'' # u)"
      using trim_spaces_drop [of wide "s @ CHR ''/'' # u"] n False space_len_le [of wide s] by simp
    then show ?thesis using "1.IH" [OF False "1.prems"] trim_spaces_drop [OF False] by simp
  qed
qed

definition trim_right :: "string \<Rightarrow> string" where
  "trim_right s = rev (trim_spaces (map rev wide_spaces) (rev s))"

lemma trim_spaces_suffix: "\<exists>x. s = x @ trim_spaces wide s"
proof (induction wide s rule: trim_spaces.induct)
  case (1 wide s)
  show ?case
  proof (cases "space_len wide s = 0")
    case True
    then show ?thesis by (subst trim_spaces.simps) simp
  next
    case False
    then obtain x where "drop (space_len wide s) s = x @ trim_spaces wide (drop (space_len wide s) s)" using 1 by blast
    then have "s = (take (space_len wide s) s @ x) @ trim_spaces wide (drop (space_len wide s) s)" by (metis append_assoc append_take_drop_id)
    then show ?thesis using trim_spaces_drop [OF False] by metis
  qed
qed

lemma trim_right_prefix: "\<exists>y. s = trim_right s @ y"
proof -
  obtain x where "rev s = x @ trim_spaces (map rev wide_spaces) (rev s)" using trim_spaces_suffix by blast
  then have "s = rev (x @ trim_spaces (map rev wide_spaces) (rev s))" by (metis rev_rev_ident)
  then show ?thesis by (auto simp: trim_right_def)
qed

lemma TrimSpace_path:
  assumes "byte_of c < 128" "\<not> is_space c"
  shows "TrimSpaceUtf8 (c # t @ CHR ''/'' # s) = c # t @ CHR ''/'' # trim_right s"
proof -
  have a: "trim_spaces wide_spaces (c # t @ CHR ''/'' # s) = c # t @ CHR ''/'' # s"
    using space_len_ascii [OF assms wide_high(1)] by (subst trim_spaces.simps) simp
  have b: "trim_spaces (map rev wide_spaces) (rev s @ CHR ''/'' # rev (c # t)) = trim_spaces (map rev wide_spaces) (rev s) @ CHR ''/'' # rev (c # t)"
    by (rule trim_spaces_slash [OF wide_no_slash])
  show ?thesis unfolding TrimSpaceUtf8_def a using b by (simp add: trim_right_def)
qed

lemma valid_name_trimmed:
  assumes "ValidSkillName name"
  shows "trim_right name = name"
proof -
  have t: "TrimSpaceUtf8 name = name" using assms by (auto simp: ValidSkillName_def split: if_splits)
  obtain x where x: "name = x @ trim_spaces wide_spaces name" using trim_spaces_suffix by blast
  obtain y where y: "trim_spaces wide_spaces name = trim_right (trim_spaces wide_spaces name) @ y" using trim_right_prefix by blast
  have e: "trim_right (trim_spaces wide_spaces name) = name" using t by (simp add: TrimSpaceUtf8_def trim_right_def)
  then have "name = x @ name @ y" using x y by simp
  then have "x = []" by (metis append_self_conv2 append_assoc append_eq_append_conv2 length_append length_0_conv add_eq_self_zero add.commute add_is_0)
  then show ?thesis using x e by simp
qed

section \<open>Resolved paths\<close>

definition plain :: "string \<Rightarrow> bool" where
  "plain s = (s \<noteq> [] \<and> s \<noteq> ''.'' \<and> s \<noteq> ''..'' \<and> CHR ''/'' \<notin> set s)"

lemma os_name_plain: "os_name s \<Longrightarrow> plain s"
  by (simp add: os_name_def plain_def)

lemma clean_plain: "list_all plain ns \<Longrightarrow> foldl (clean_step False) stack ns = rev ns @ stack"
  by (induction ns arbitrary: stack) (auto simp: clean_step_def plain_def)

lemma Join_snoc: "ns \<noteq> [] \<Longrightarrow> Join (ns @ [n]) sep = Join ns sep @ sep @ n"
  by (induction ns sep rule: Join.induct) auto

lemma Join_skills: "\<exists>t. Join (skills_dir # m) ''/'' = CHR ''S'' # t"
  by (cases m) (auto simp: skills_dir_def)

lemma resolve_clean:
  assumes "list_all plain (skills_dir # m)" "path_Clean (TrimSpaceUtf8 rel) = Join (skills_dir # m) ''/''"
    "TrimSpaceUtf8 rel = CHR ''S'' # t" "resolve rel = Inr p"
  shows "p = skills_dir # m"
proof -
  obtain u where u: "Join (skills_dir # m) ''/'' = CHR ''S'' # u" using Join_skills by blast
  have "Split (Join (skills_dir # m) ''/'') (CHR ''/'') = skills_dir # m"
    using Split_Join [of "skills_dir # m" "CHR ''/''"] assms(1) by (simp add: list_all_iff plain_def)
  then have "path_names (CHR ''S'' # u) = skills_dir # m" using u by (simp add: path_names_def)
  then show ?thesis using assms u by (auto simp: resolve_def CleanRel_def Let_def HasPrefix_def split: if_splits)
qed

lemma resolve_join:
  assumes m: "list_all plain m" and n: "CHR ''/'' \<notin> set n" and r: "resolve (Join (skills_dir # m @ [n]) ''/'') = Inr p"
  shows "trim_right n \<in> {[], ''.''} \<and> p = skills_dir # m \<or> trim_right n = ''..'' \<and> (m \<noteq> [] \<longrightarrow> p = skills_dir # butlast m)
    \<or> p = skills_dir # m @ [trim_right n]"
proof -
  let ?n = "trim_right n"
  obtain t where t: "Join (skills_dir # m) ''/'' = CHR ''S'' # t" using Join_skills by blast
  have sk: "plain skills_dir" by (simp add: plain_def skills_dir_def)
  have rel: "Join (skills_dir # m @ [n]) ''/'' = CHR ''S'' # t @ CHR ''/'' # n" using Join_snoc [of "skills_dir # m" n "''/''"] t by simp
  have trim: "TrimSpaceUtf8 (Join (skills_dir # m @ [n]) ''/'') = CHR ''S'' # t @ CHR ''/'' # ?n"
    unfolding rel by (rule TrimSpace_path) (simp_all add: byte_of_def is_space_def)
  have ns: "CHR ''/'' \<notin> set ?n" using n trim_right_prefix [of n] by (metis Un_iff set_append)
  have "Join (skills_dir # m @ [?n]) ''/'' = CHR ''S'' # t @ CHR ''/'' # ?n" using Join_snoc [of "skills_dir # m" ?n "''/''"] t by simp
  then have split: "Split (CHR ''S'' # t @ CHR ''/'' # ?n) (CHR ''/'') = skills_dir # m @ [?n]"
    using Split_Join [of "skills_dir # m @ [?n]" "CHR ''/''"] m ns sk by (auto simp: list_all_iff plain_def)
  have fold: "foldl (clean_step False) [] (skills_dir # m @ [?n]) = clean_step False (rev m @ [skills_dir]) ?n"
    using clean_plain [of "skills_dir # m" "[]"] m sk by simp
  have clean: "path_Clean (CHR ''S'' # t @ CHR ''/'' # ?n) = Join (skills_dir # q) ''/''"
    if "clean_step False (rev m @ [skills_dir]) ?n = rev (skills_dir # q)" for q
    unfolding path_Clean_def split using that fold Join_skills [of q] by (auto simp: HasPrefix_def Let_def)
  have res: "p = skills_dir # q" if "clean_step False (rev m @ [skills_dir]) ?n = rev (skills_dir # q)" "list_all plain q" for q
    using resolve_clean [OF _ _ trim r] clean [OF that(1)] that(2) sk trim by simp
  consider (same) "?n = [] \<or> ?n = ''.''" | (up) "?n = ''..''" | (name) "plain ?n" using ns by (auto simp: plain_def)
  then show ?thesis
  proof cases
    case same
    then show ?thesis using res [of m] m by (simp add: clean_step_def)
  next
    case up
    show ?thesis
    proof (cases m rule: rev_cases)
      case (snoc k d)
      then have "d \<noteq> ''..''" using m by (simp add: plain_def)
      then show ?thesis using res [of k] m snoc up by (simp add: clean_step_def)
    qed (use up in simp)
  next
    case name
    then show ?thesis using res [of "m @ [?n]"] m by (simp add: clean_step_def plain_def)
  qed
qed

section \<open>Reach\<close>

text \<open>The folders \<open>ds\<close> of Skills, with the directory itself and the sidecars a move removes.\<close>

definition skill_area :: "string list \<Rightarrow> fpath \<Rightarrow> bool" where
  "skill_area ds p = (p = [skills_dir] \<or> list_ex (\<lambda>d. take 2 p = [skills_dir, d] \<or> p = [skills_dir, d @ sigSuffix]) ds)"

definition outside :: "string list \<Rightarrow> fpath \<Rightarrow> bool" where
  "outside ds p = (\<not> skill_area ds p)"

definition scoped :: "WsStore \<Rightarrow> string \<Rightarrow> string \<Rightarrow> string list \<Rightarrow> volume \<Rightarrow> volume \<Rightarrow> bool" where
  "scoped st tenant user ds v v' \<longleftrightarrow>
     wf_volume v' \<and> touches (seg_key st tenant user) v v' \<and> keeps_files (outside ds) v v'"

lemma scoped_refl: "wf_volume v \<Longrightarrow> scoped st tenant user ds v v"
  by (simp add: scoped_def touches_def keeps_files_def)

lemma scoped_trans: "scoped st tenant user ds a b \<Longrightarrow> scoped st tenant user ds b c \<Longrightarrow> scoped st tenant user ds a c"
  unfolding scoped_def using touches_trans keeps_trans by blast

lemma scoped_wf: "scoped st tenant user ds a b \<Longrightarrow> wf_volume b"
  by (simp add: scoped_def)

lemma area_no_session: "skill_area ds p \<Longrightarrow> \<not> is_session p"
  by (auto simp: skill_area_def is_session_def list_ex_iff skills_dir_def)

lemma exec_scoped:
  assumes "wf_volume v" "kept.admits st (outside ds) (seg_key st tenant user) v op"
  shows "scoped st tenant user ds v (ws_exec st io tenant user op v)"
  using exec_wf [OF assms(1)] exec_touches [OF assms(1)] kept.exec_rel [OF assms] by (simp add: scoped_def)

definition in_reach :: "string list \<Rightarrow> string \<Rightarrow> bool" where
  "in_reach ds rel \<longleftrightarrow> (\<forall>p. resolve rel = Inr p \<longrightarrow> skill_area ds p)"

lemma write_scoped:
  assumes "wf_volume v" "in_reach ds rel"
  shows "scoped st tenant user ds v (snd (Store_Write st io tenant user rel data v))"
proof -
  have "kept.admits st (outside ds) (seg_key st tenant user) v (OpWrite rel data)"
    unfolding kept.admits_def using assms(2) area_no_session by (auto simp: outside_def in_reach_def)
  from exec_scoped [OF assms(1) this, of io] show ?thesis by (simp add: ws_exec_def)
qed

lemma delete_scoped:
  assumes "wf_volume v" "in_reach ds rel"
  shows "scoped st tenant user ds v (snd (Store_Delete st io tenant user rel v))"
proof -
  have "kept.admits st (outside ds) (seg_key st tenant user) v (OpDelete rel)"
    unfolding kept.admits_def using assms(2) area_no_session by (auto simp: outside_def in_reach_def)
  from exec_scoped [OF assms(1) this, of io] show ?thesis by (simp add: ws_exec_def)
qed

text \<open>A folder whose path is not changed by trimming.\<close>

definition folder :: "string list \<Rightarrow> string \<Rightarrow> bool" where
  "folder ds d \<longleftrightarrow> d \<in> set ds \<and> plain d \<and> trim_right d = d"

lemma folder_path:
  assumes "folder ds d" "resolve (SkillDir d) = Inr p"
  shows "p = [skills_dir, d]"
proof -
  have "SkillDir d = Join (skills_dir # [] @ [d]) ''/''" by (simp add: SkillDir_def)
  then show ?thesis using resolve_join [of "[]" d p] assms by (auto simp: folder_def plain_def)
qed

lemma folder_reaches: "folder ds d \<Longrightarrow> in_reach ds (SkillDir d)"
  using folder_path by (fastforce simp: in_reach_def skill_area_def folder_def list_ex_iff)

lemma below_reaches:
  assumes "folder ds d" "list_all plain q" "q \<noteq> []"
  shows "in_reach ds (Join (skills_dir # d # q) ''/'')"
  unfolding in_reach_def
proof (intro allI impI)
  fix p assume r: "resolve (Join (skills_dir # d # q) ''/'') = Inr p"
  obtain m n where q: "q = m @ [n]" using assms(3) by (cases q rule: rev_cases) auto
  have "list_all plain (d # m)" "CHR ''/'' \<notin> set n" using assms q by (auto simp: folder_def plain_def)
  from resolve_join [OF this, of p] r q consider "p = skills_dir # d # m" | "p = skills_dir # butlast (d # m)" | "p = skills_dir # d # m @ [trim_right n]"
    by auto
  then show "skill_area ds p" using assms(1) by cases (auto simp: skill_area_def list_ex_iff folder_def)
qed

lemma move_scoped:
  assumes "wf_volume v" "folder ds d" "folder ds e"
  shows "scoped st tenant user ds v (snd (Store_Move st io tenant user (SkillDir d) (SkillDir e) v))"
proof -
  have area: "skill_area ds ([skills_dir, x] @ y)" "skill_area ds (sig_path [skills_dir, x])" if "folder ds x" for x y
    using that by (auto simp: skill_area_def list_ex_iff folder_def sig_path_def)
  have "kept.admits st (outside ds) (seg_key st tenant user) v (OpMove (SkillDir d) (SkillDir e))"
    using folder_path [OF assms(2)] folder_path [OF assms(3)] area [OF assms(2)] area [OF assms(3)]
      area_no_session [OF area(1) [OF assms(2)], of "[]"] area_no_session [OF area(1) [OF assms(3)], of "[]"]
    unfolding kept.admits_def by (auto simp: outside_def)
  from exec_scoped [OF assms(1) this, of io] show ?thesis by (simp add: ws_exec_def)
qed

text \<open>What a listing returns.\<close>

lemma listing_paths:
  assumes "wf_volume v" "full_list st io tenant user dir True v = Inr infos" "fi \<in> set infos"
  obtains root q where "fi_Path fi = Join (root @ q) ''/''" "q \<noteq> []" "list_all plain (root @ q)" "if dir = [] then root = [] else dir = ''.'' \<or> resolve dir = Inr root"
proof -
  from assms(2) have "ListDir st io tenant user dir True v = Inr (infos, False)"
    by (auto simp: full_list_def split: sum.splits prod.splits if_splits)
  then obtain root where root: "(if dir \<noteq> [] \<and> dir \<noteq> ''.'' then resolve dir else Inr []) = Inr root"
    and l: "(case lstat v (seg_key st tenant user) root of Inl ErrNotExist \<Rightarrow> Inr ([], False) | Inl e \<Rightarrow> Inl e | Inr (NFile _) \<Rightarrow> Inr ([], False)
      | Inr NDir \<Rightarrow> if io_walk io then Inl OsError
          else (case map_of v (seg_key st tenant user) of
                   Some (SegDir tr) \<Rightarrow>
                     (let out = walk tr root True; limit = nat (max MaxListEntries (st_quotaEntries st)) in
                      Inr (take limit out, length out > limit))
                 | _ \<Rightarrow> Inr ([], False))) = Inr (infos, False)"
    unfolding ListDir_def bindE_eq_Inr Let_def by blast
  have ne: "infos \<noteq> []" using assms(3) by auto
  obtain tr n where tr: "map_of v (seg_key st tenant user) = Some (SegDir tr)" and inf: "infos = take n (walk tr root True)"
    using l ne by (auto simp: Let_def split: sum.splits ws_error.splits node.splits if_splits option.splits segment.splits)
  from inf assms(3) have "fi \<in> set (walk tr root True)" by (auto dest: in_set_takeD)
  then obtain r k where e: "(r, k) \<in> set tr" "listed root True (r, k)" "fi = file_info (r, k)" by (auto simp: walk_def)
  have "wf_tree tr" using wf_volume_seg [OF assms(1) tr] by simp
  then have "list_all os_name r" using e(1) by (auto simp: wf_tree_def list_all_iff wf_entry_def)
  then have "list_all plain r" using os_name_plain by (auto simp: list_all_iff)
  moreover obtain q where q: "r = root @ q" "q \<noteq> []" using e(2) under_iff [of root r] by (auto simp: listed_def)
  moreover have "fi_Path fi = Join r ''/''" using e(3) by (cases k) (auto simp: file_info_def)
  moreover have "if dir = [] then root = [] else dir = ''.'' \<or> resolve dir = Inr root" using root by (auto split: if_splits)
  ultimately show ?thesis using that [of root q] by simp
qed

lemma listing_reaches:
  assumes "wf_volume v" "folder ds d" "full_list st io tenant user (SkillDir d) True v = Inr infos" "fi \<in> set infos"
  shows "in_reach ds (fi_Path fi)"
proof -
  have ne: "SkillDir d \<noteq> []" "SkillDir d \<noteq> ''.''" by (simp_all add: SkillDir_def skills_dir_def)
  from listing_paths [OF assms(1,3,4)] obtain root q
    where "fi_Path fi = Join (root @ q) ''/''" "q \<noteq> []" "list_all plain (root @ q)" "resolve (SkillDir d) = Inr root"
    using ne by metis
  then show ?thesis using below_reaches [OF assms(2), of q] folder_path [OF assms(2)] by auto
qed

section \<open>The operations\<close>

lemma delete_paths_scoped:
  "wf_volume v \<Longrightarrow> \<forall>rel \<in> set rels. in_reach ds rel \<Longrightarrow> scoped st tenant user ds v (snd (delete_paths st io tenant user rels v))"
proof (induction rels arbitrary: v)
  case (Cons rel rels)
  have w: "scoped st tenant user ds v (snd (Store_Delete st io tenant user rel v))" using delete_scoped Cons.prems by simp
  obtain r v1 where rv: "Store_Delete st io tenant user rel v = (r, v1)" by (cases "Store_Delete st io tenant user rel v")
  then have "scoped st tenant user ds v (snd (delete_paths st io tenant user rels v1))"
    using scoped_trans [OF w] Cons.IH [OF scoped_wf [OF w]] Cons.prems(2) by simp
  then show ?case using rv w by (cases r) simp_all
qed (simp add: scoped_refl)

lemma deleteSubtree_scoped:
  assumes wf: "wf_volume v" and d: "folder ds d"
  shows "scoped st tenant user ds v (snd (deleteSubtree st io tenant user (SkillDir d) v))"
proof (cases "full_list st io tenant user (SkillDir d) True v")
  case (Inr infos)
  have "\<forall>rel \<in> set (deletion_order infos). in_reach ds rel"
    using listing_reaches [OF wf d Inr] by (auto simp: deletion_order_def)
  then have w1: "scoped st tenant user ds v (snd (delete_paths st io tenant user (deletion_order infos) v))" by (rule delete_paths_scoped [OF wf])
  obtain r1 v1 where d1: "delete_paths st io tenant user (deletion_order infos) v = (r1, v1)"
    by (cases "delete_paths st io tenant user (deletion_order infos) v")
  have w2: "scoped st tenant user ds v (snd (Store_Delete st io tenant user (SkillDir d) v1))"
    using scoped_trans [OF _ delete_scoped [OF _ folder_reaches [OF d]]] scoped_wf w1 d1 by (metis snd_conv)
  show ?thesis using Inr d1 w1 w2 scoped_refl [OF wf] by (auto simp: deleteSubtree_def split: sum.splits prod.splits)
qed (use scoped_refl [OF wf] in \<open>simp add: deleteSubtree_def split: sum.splits\<close>)

lemma copy_staged_scoped:
  assumes "folder ds d"
  shows "wf_volume v \<Longrightarrow> \<forall>fi \<in> set fis. \<exists>q. fi_Path fi = Join q ''/'' \<and> q \<noteq> [] \<and> list_all plain q
    \<Longrightarrow> scoped st tenant user ds v (snd (copy_staged st io tenant stagingSeg user (SkillDir d) fis v))"
proof (induction fis arbitrary: v)
  case (Cons fi fis)
  from Cons.prems(2) obtain q where q: "fi_Path fi = Join q ''/''" "q \<noteq> []" "list_all plain q" by auto
  have "SkillDir d @ ''/'' @ fi_Path fi = Join (skills_dir # d # q) ''/''" using q(1,2) by (cases q) (simp_all add: SkillDir_def)
  then have re: "in_reach ds (SkillDir d @ ''/'' @ fi_Path fi)" using below_reaches [OF assms q(3,2)] by simp
  show ?case
  proof (cases "Store_Read st io tenant stagingSeg (fi_Path fi) v")
    case (Inr data)
    let ?w = "Store_Write st io tenant user (SkillDir d @ ''/'' @ fi_Path fi) data v"
    have w: "scoped st tenant user ds v (snd ?w)" by (rule write_scoped [OF Cons.prems(1) re])
    obtain r v1 where rv: "?w = (r, v1)" by (cases ?w)
    then have "scoped st tenant user ds v (snd (copy_staged st io tenant stagingSeg user (SkillDir d) fis v1))"
      using scoped_trans [OF w] Cons.IH [OF scoped_wf [OF w]] Cons.prems(2) by simp
    then show ?thesis using Cons Inr rv w by (cases r) simp_all
  qed (use Cons scoped_refl in simp)
qed (simp add: scoped_refl)

definition install_folders :: "string \<Rightarrow> string list" where
  "install_folders name = [name, ''.'' @ name @ ''.staged'', ''.'' @ name @ ''.old'']"

lemma trim_right_ascii: "byte_of e < 128 \<Longrightarrow> \<not> is_space e \<Longrightarrow> trim_right (s @ [e]) = s @ [e]"
  using space_len_ascii [of e "map rev wide_spaces" "rev s"] wide_high(2) by (simp add: trim_right_def trim_spaces.simps)

lemma valid_folders:
  assumes "ValidSkillName name"
  shows "folder [name] name" "folder (install_folders name) name"
    "folder (install_folders name) (''.'' @ name @ ''.staged'')" "folder (install_folders name) (''.'' @ name @ ''.old'')"
proof -
  have p: "plain name" "name \<noteq> []" "CHR ''/'' \<notin> set name" using assms by (auto simp: ValidSkillName_def plain_def HasPrefix_def split: if_splits)
  have "trim_right (''.'' @ name @ ''.staged'') = ''.'' @ name @ ''.staged''"
    using trim_right_ascii [of "CHR ''d''" "''.'' @ name @ ''.stage''"] by (simp add: byte_of_def is_space_def)
  moreover have "trim_right (''.'' @ name @ ''.old'') = ''.'' @ name @ ''.old''"
    using trim_right_ascii [of "CHR ''d''" "''.'' @ name @ ''.ol''"] by (simp add: byte_of_def is_space_def)
  ultimately show "folder [name] name" "folder (install_folders name) name"
    "folder (install_folders name) (''.'' @ name @ ''.staged'')" "folder (install_folders name) (''.'' @ name @ ''.old'')"
    using p valid_name_trimmed [OF assms] by (simp_all add: folder_def install_folders_def plain_def)
qed

lemma hidden_dirs: "staged_dir name = SkillDir (''.'' @ name @ ''.staged'')" "old_dir name = SkillDir (''.'' @ name @ ''.old'')"
  by (simp_all add: staged_dir_def old_dir_def SkillDir_def)

lemma DeleteSkill_scoped: "wf_volume v \<Longrightarrow> scoped st tenant user [name] v (snd (DeleteSkill st io tenant user name v))"
  using deleteSubtree_scoped valid_folders(1) scoped_refl by (auto simp: DeleteSkill_def)

lemma swap_in_scoped:
  assumes wf: "wf_volume v" and ok: "ValidSkillName name"
  shows "scoped st tenant user (install_folders name) v (snd (swap_in st io tenant user name v))"
proof -
  let ?S = "scoped st tenant user (install_folders name) v"
  note f = valid_folders(2-4) [OF ok]
  have del: "?S (snd (deleteSubtree st io tenant user (SkillDir d) u))" if "?S u" "folder (install_folders name) d" for d u
    using scoped_trans [OF that(1) deleteSubtree_scoped [OF scoped_wf [OF that(1)] that(2)]] .
  have mv: "?S (snd (Store_Move st io tenant user (SkillDir d) (SkillDir e) u))" if "?S u" "folder (install_folders name) d" "folder (install_folders name) e" for d e u
    using scoped_trans [OF that(1) move_scoped [OF scoped_wf [OF that(1)] that(2,3)]] .
  note S = scoped_refl [OF wf]
  obtain r1 v1 where e1: "deleteSubtree st io tenant user (old_dir name) v = (r1, v1)" by (cases "deleteSubtree st io tenant user (old_dir name) v")
  then have w1: "?S v1" using del [OF S f(3)] by (simp add: hidden_dirs)
  obtain r2 v2 where e2: "Store_Move st io tenant user (SkillDir name) (old_dir name) v1 = (r2, v2)" by (cases "Store_Move st io tenant user (SkillDir name) (old_dir name) v1")
  then have w2: "?S v2" using mv [OF w1 f(1,3)] by (simp add: hidden_dirs)
  obtain r3 v3 where e3: "Store_Move st io tenant user (staged_dir name) (SkillDir name) v2 = (r3, v3)" by (cases "Store_Move st io tenant user (staged_dir name) (SkillDir name) v2")
  then have w3: "?S v3" using mv [OF w2 f(2,1)] by (simp add: hidden_dirs)
  show ?thesis using e1 e2 e3 w1 del [OF w2 f(2)] del [OF w3 f(3)] del [OF mv [OF w3 f(3,1)] f(2)]
    by (simp add: swap_in_def Let_def hidden_dirs split: sum.splits)
qed

lemma move_in_scoped:
  assumes wf: "wf_volume v" and ok: "ValidSkillName name"
  shows "scoped st tenant user (install_folders name) v (snd (move_in st io tenant user name v))"
proof -
  note f = valid_folders(2-4) [OF ok]
  obtain r1 v1 where e1: "Store_Move st io tenant user (staged_dir name) (SkillDir name) v = (r1, v1)" by (cases "Store_Move st io tenant user (staged_dir name) (SkillDir name) v")
  have w1: "scoped st tenant user (install_folders name) v v1" using move_scoped [OF wf f(2,1), of st tenant user io] e1 by (simp add: hidden_dirs)
  show ?thesis using e1 w1 scoped_trans [OF w1 deleteSubtree_scoped [OF scoped_wf [OF w1] f(2)]]
    by (simp add: move_in_def hidden_dirs split: sum.splits)
qed

lemma Install_scoped:
  assumes wf: "wf_volume v"
  shows "scoped st tenant user (install_folders name) v (snd (Install st io tenant stagingSeg user name replace v))"
proof (cases "ValidSkillName name \<and> (\<exists>infos. full_list st io tenant stagingSeg [] True v = Inr infos)")
  case True
  let ?S = "scoped st tenant user (install_folders name) v"
  from True obtain infos where ok: "ValidSkillName name" and l: "full_list st io tenant stagingSeg [] True v = Inr infos" by blast
  note f = valid_folders(3) [OF ok]
  have fis: "\<forall>fi \<in> set infos. \<exists>q. fi_Path fi = Join q ''/'' \<and> q \<noteq> [] \<and> list_all plain q"
  proof
    fix fi assume "fi \<in> set infos"
    from listing_paths [OF wf l this] show "\<exists>q. fi_Path fi = Join q ''/'' \<and> q \<noteq> [] \<and> list_all plain q" by (metis append_Nil)
  qed
  obtain r1 v1 where e1: "deleteSubtree st io tenant user (staged_dir name) v = (r1, v1)" by (cases "deleteSubtree st io tenant user (staged_dir name) v")
  have w1: "?S v1" using deleteSubtree_scoped [OF wf f, of st tenant user io] e1 by (simp add: hidden_dirs)
  obtain r2 v2 where e2: "copy_staged st io tenant stagingSeg user (staged_dir name) infos v1 = (r2, v2)" by (cases "copy_staged st io tenant stagingSeg user (staged_dir name) infos v1")
  have w2: "?S v2" using scoped_trans [OF w1 copy_staged_scoped [OF f scoped_wf [OF w1] fis]] e2 by (metis snd_conv hidden_dirs(1))
  note wf2 = scoped_wf [OF w2]
  show ?thesis using True l e1 e2 w1 scoped_refl [OF wf] scoped_trans [OF w2 deleteSubtree_scoped [OF wf2 f]]
      scoped_trans [OF w2 swap_in_scoped [OF wf2 ok]] scoped_trans [OF w2 move_in_scoped [OF wf2 ok]]
    by (simp add: Install_def hidden_dirs split: sum.splits)
qed (use scoped_refl [OF wf] in \<open>auto simp: Install_def split: sum.splits\<close>)

lemma write_files_touches: "wf_volume v \<Longrightarrow> touches (seg_key st tenant user) v (snd (write_files st io tenant user fs v))"
proof (induction fs arbitrary: v)
  case (Cons f fs)
  obtain rel data where f: "f = (rel, data)" by (cases f)
  let ?w = "Store_Write st io tenant user rel data v"
  have w: "touches (seg_key st tenant user) v (snd ?w)" "wf_volume (snd ?w)"
    using exec_touches [OF Cons.prems, of st tenant user io "OpWrite rel data"] exec_wf [OF Cons.prems, of st io tenant user "OpWrite rel data"] by (simp_all add: ws_exec_def)
  obtain r v1 where rv: "?w = (r, v1)" by (cases ?w)
  then show ?case using f w touches_trans [OF w(1)] Cons.IH [OF w(2)] by (cases r) simp_all
qed (simp add: touches_def)

lemma Snapshot_touches:
  assumes "wf_volume v"
  shows "touches (seg_key st tenant stagingSeg) v (snd (Snapshot scan st io tenant user name stagingSeg v))"
proof -
  have "\<And>fs r u. write_files st io tenant stagingSeg fs v = (r, u) \<Longrightarrow> touches (seg_key st tenant stagingSeg) v u"
    using write_files_touches [OF assms] by (metis snd_conv)
  moreover have "touches (seg_key st tenant stagingSeg) v v" by (simp add: touches_def)
  ultimately show ?thesis by (auto simp: Snapshot_def Let_def split: sum.splits prod.splits)
qed

lemma scoped_file:
  assumes "scoped st tenant user ds v v'" "file_at v' k p \<noteq> file_at v k p"
  shows "k = seg_key st tenant user \<and> skill_area ds p"
proof
  have "k \<noteq> seg_key st tenant user \<Longrightarrow> map_of v' k = map_of v k" using assms(1) unfolding scoped_def touches_def by blast
  then show "k = seg_key st tenant user" using assms(2) by (cases "k = seg_key st tenant user") (simp_all add: file_at_def)
  show "skill_area ds p" using assms unfolding scoped_def keeps_files_def outside_def by blast
qed

text \<open>
  C30. Deleting a skill changes only files in the folder of that skill, and installing one only
  files in its folder and in the two hidden ones beside it, in the directory of the user concerned,
  whatever name is asked for, whatever the files are called and whichever system calls fail.
\<close>

theorem skills_stay_in_their_folders:
  assumes "wf_volume v"
  shows "(file_at (snd (DeleteSkill st io tenant user name v)) k p \<noteq> file_at v k p
      \<longrightarrow> k = seg_key st tenant user \<and> skill_area [name] p)
    \<and> (file_at (snd (Install st io tenant stagingSeg user name replace v)) k p \<noteq> file_at v k p
      \<longrightarrow> k = seg_key st tenant user \<and> skill_area (install_folders name) p)"
  using scoped_file [OF DeleteSkill_scoped [OF assms]] scoped_file [OF Install_scoped [OF assms]] by blast

definition ex_skills :: volume where
  "ex_skills =
     [((''t1'', ''ann''), SegDir [([''Skills''], NDir), ([''Skills'', ''pack''], NDir), ([''Skills'', ''pack'', ''SKILL.md''], NFile ''old''),
        ([''Skills'', ''other''], NDir), ([''Skills'', ''other'', ''SKILL.md''], NFile ''kept'')]),
      ((''t1'', ''stage''), SegDir [([''SKILL.md''], NFile ''new'')])]"

theorem skills_stay_in_their_folders_witness:
  "file_at (snd (DeleteSkill ex_ws_store ex_ws_io ''t1'' ''ann'' ''pack'' ex_skills)) (''t1'', ''ann'') [''Skills'', ''pack'', ''SKILL.md''] = None
   \<and> skill_area [''pack''] [''Skills'', ''pack'', ''SKILL.md'']
   \<and> file_at (snd (Install ex_ws_store ex_ws_io ''t1'' ''stage'' ''ann'' ''pack'' True ex_skills)) (''t1'', ''ann'') [''Skills'', ''pack'', ''SKILL.md''] = Some ''new''
   \<and> skill_area (install_folders ''pack'') [''Skills'', ''pack'', ''SKILL.md'']"
proof -
  let ?p = "[''Skills'', ''pack'', ''SKILL.md'']"
  have wf: "wf_volume ex_skills" by code_simp
  have a: "file_at (snd (DeleteSkill ex_ws_store ex_ws_io ''t1'' ''ann'' ''pack'' ex_skills)) (''t1'', ''ann'') ?p = None" by code_simp
  have b: "file_at (snd (Install ex_ws_store ex_ws_io ''t1'' ''stage'' ''ann'' ''pack'' True ex_skills)) (''t1'', ''ann'') ?p = Some ''new''" by code_simp
  have c: "file_at ex_skills (''t1'', ''ann'') ?p = Some ''old''" by code_simp
  show ?thesis
    using skills_stay_in_their_folders [OF wf, of ex_ws_store ex_ws_io "''t1''" "''ann''" "''pack''" "(''t1'', ''ann'')" ?p "''stage''" True] a b c by simp
qed

end
