(* ===== verification/Spec2Isabelle.thy ===== *)
theory Spec2Isabelle
  imports SchedulerRun AuditEmitter EnvelopeRun WorkspaceSessions WorkspaceQuota WorkspaceGuard SkillScope
begin

text \<open>
  Verification of the Aikonos broker (src/broker, Go).

  \<^bold>\<open>The program.\<close>  Aikonos runs AI agents for the users of an organisation.  An agent proposes a plan of
  tool calls; the broker decides each step against policy, asks people where policy says so, and is
  the only process that performs the calls.  Users reach it north-bound (service_tasks.go,
  scheduler.go), sandboxes and the agent gateway south-bound (service_plan.go, service_invoke.go,
  gateway_tasks.go); its state is a Postgres database, OpenFGA relations, an audit trail in an object
  store and a few caches.

  \<^bold>\<open>How a call travels.\<close>  A task is created (\<open>CreateTask\<close>, \<open>CreateGatewayTask\<close>) or a scheduled run is handed to
  the gateway (\<open>ClaimDueScheduledRuns\<close>) with a signed owner grant.  The sandbox submits a plan
  (\<open>SubmitPlan\<close>): the whole-plan policy and the five layers of \<open>routeStep\<close> decide every step, the steps are
  stored with the hash of their arguments, and the outcome is approval with capability tokens, a
  human gate, or denial.  Voters resolve the gate (\<open>Resolve\<close>).  Every side effect then goes through
  \<open>InvokeTool\<close>: its gates, the single-use claim of a stored step, the tool proxy, the cost settlement.
  What happened is emitted to a hash-chained audit trail that anyone with the key can verify.

  \<^bold>\<open>Theories, in the order of the calls.\<close>
    \<^item> \<open>Prelude\<close>, \<open>Json\<close>, \<open>Base64\<close>, \<open>PathLib\<close>: strings, results as values, status codes, the encodings of the Go
      library that the broker hashes and signs, and the locale \<open>ttl_cache\<close>.
    \<^item> \<open>EffectClass\<close> (effectclass/), \<open>ConfigStore\<close> (config/), \<open>NetAcl\<close> (netacl/), \<open>ToolRegistry\<close> (toolregistry/,
      skillmanifest/, validateSkillOverlay), \<open>PolicyGates\<close> (policy/), \<open>RouteStep\<close> (route_step.go,
      decision_record.go): what decides a step.  The locale \<open>strictest\<close> is the law of every
      combination in which the stricter side wins.
    \<^item> \<open>TaskStore\<close>, \<open>StepClaims\<close>, \<open>ApprovalGates\<close> (db/tasks.go, db/approvals.go): one record \<open>Db\<close> of the task, step
      and gate tables, one function per repository method.
    \<^item> \<open>Identity\<close> (auth/identity.go, identity.go), \<open>GatewayGrant\<close> (gatewaygrant/), \<open>RateLimit\<close> (ratelimit/),
      \<open>Revocation\<close> (db/revocation.go, revocation/), \<open>Capability\<close> (capability/, over the locale \<open>biscuit\<close>, the
      laws of the token library), \<open>ApprovalSvc\<close> (approvalsvc/): who a call acts for and may act for.
    \<^item> \<open>Sandbox\<close>, \<open>SubmitPlan\<close>, \<open>InvokeTool\<close> with \<open>SubmitSafety\<close>, \<open>InvokeSafety\<close>: the south-bound handlers and what each
      guarantees.  \<open>BrokerRun\<close> puts them into a step relation \<open>broker_step\<close> over the whole state.
    \<^item> \<open>AgentRun\<close> (default_agent.go, agent_status.go), \<open>TaskHandlers\<close>, \<open>TaskSafety\<close> (service_tasks.go,
      gateway_tasks.go, approval_expiry.go): the remaining writers of tasks, each a run of
      \<open>broker_step\<close>.
    \<^item> \<open>ScheduleStore\<close> (db/scheduled_runs.go), \<open>Scheduler\<close>, \<open>SchedulerSafety\<close>, \<open>SchedulerRun\<close> (scheduler.go): scheduled runs, their
      claims and reports.  The locale \<open>row_rel\<close> lifts what one write keeps of a row to every
      sequence of writes.
    \<^item> \<open>AuditChain\<close> (audit/verify.go, signing_key.go), \<open>AuditEmitter\<close> (audit/emitter.go): the verifier and the
      emitter of the trail.
    \<^item> \<open>EnvelopeStore\<close> (db/envelopes.go), \<open>Envelopes\<close> (service_envelopes.go, delegation_scopes.go, policies/opa/envelope_send.rego),
      \<open>EnvelopeSafety\<close>, \<open>EnvelopeRun\<close>: delegation of work from one user to another.  The step relation
      \<open>env_step\<close> interleaves senders and answers; the locale \<open>row_order\<close> lifts the order of an
      envelope's states to histories.
    \<^item> \<open>Workspace\<close> (workspacefs/store.go, workspacepath/), \<open>WorkspaceFacts\<close>, \<open>WorkspaceSafety\<close>, \<open>WorkspaceSessions\<close>,
      \<open>WorkspaceQuota\<close>, \<open>WorkspaceRpc\<close> (workspacefs/router.go, broker/files.go), \<open>WorkspaceGuard\<close>: the files of users.  A
      volume is a list of user directories; the system calls of the store are functions on it that may
      fail.  The locale \<open>volume_rel\<close> lifts a relation that every system call keeps to the operations of
      the store; it is interpreted for soundness, for isolation, for the contents of files and for the
      files out of reach of an operation.
    \<^item> \<open>SkillStore\<close>, \<open>SkillScope\<close> (personalskill/): the skill folders of a user, on top of the store, and what
      their operations can reach once the store has trimmed and cleaned their paths.

  \<^bold>\<open>Conventions.\<close>  A repository method or handler is a function from its arguments and the state to a
  result (\<open>Inl\<close> an error) and the new state.  A dependency of a handler that another component
  provides, and every failure of the database or of a remote service, is an argument, so a theorem
  holds for each way they can answer.  The clock is an argument; times are integers
  (nanoseconds unless a theory says seconds), so the wrap-around of Go's 64 bit durations is
  outside the model except where a theory writes it out (\<open>int16\<close> of gate thresholds, \<open>int64\<close> of grant
  times).  SHA-256, HMAC, the policy engine, OpenFGA, the token library, the cron library and the
  tools themselves, and the remote drive of a user's files, are parameters.

  \<^bold>\<open>What the lemmas show.\<close>  For each store an invariant that all its operations keep (the task state
  machine, gates with quorum, single-use steps, reservations within budget, coherent caches, the
  chain of the trail, the claims of scheduled runs); for each decision function its equivalence with
  a declarative specification (\<open>gates_admit_exactly_permitted\<close>, \<open>routeStep_strictest_wins\<close>,
  \<open>DecideAnyGroups_is_worst_case\<close>, \<open>chain_verdict_exact\<close>); for each handler what an accepted call
  implies and what a refused one leaves alone; for delegation, that a recipient gets no more than the
  sender may delegate and that an envelope is settled once; for the workspace, isolation of users,
  reading back what was written, the quota, that a session record that reads was signed for
  that place and content, and that skills are installed and deleted in their own folders; and across components, by rule induction over
  \<open>broker_step\<close>, that a task is approved only by policy or by a quorum, that a side effect happens only
  behind the gates, with the arguments that were planned, and once per step.

  \<^bold>\<open>Loops and bounds.\<close>  Recursion is structural or has a measure, with these exceptions: nested groups are
  read to depth 5 and resumption reads 8 object pages and makes 3 attempts per write, as the code
  does; \<open>tail_walk\<close> follows links that an adversary may have made cyclic, is a partial function into an
  option, and is shown to return on links without a cycle; \<open>free_from\<close> searches a free name without a bound and is
  shown to return always.

  \<^bold>\<open>Not modelled.\<close>  Telemetry, logs and traces; OIDC and SPIFFE verification, Vault, OAuth
  connectors and cloud drives (clients of external services); symbolic links and modification times
  of workspace files and the one-time migration of their directories; the tools behind the
  proxy; the statistical baseline (floating point); the handlers that only list, store or delete
  rows behind an administrator check, the listing of an inbox among them; the process wiring in cmd/.
  Workflows, the RPCs of personal skills, SCIM and alerting are candidates for extension.  The gateway, the web interface, the desktop and the office worker are
  programs in other languages.
\<close>

end
